(* ===== verification/Prelude.thy ===== *)
theory Prelude
  imports Complex_Main
begin

text \<open>
  Shared vocabulary of the development.

  \<^item> Times are nanoseconds since Go's zero time and durations are nanoseconds, both as \<open>int\<close>.
  \<^item> A database transaction body is a function from the tables to either an error or a result with
    the new tables; \<open>transaction\<close> commits the tables of a successful body and keeps the old tables of a
    failed one, as \<open>gorm.DB.Transaction\<close> does.
  \<^item> A table is the list of its rows; the operations below are the queries the repositories use.
\<close>

named_theorems tx_simps \<open>characterisations of transaction bodies\<close>
named_theorems tbl_simps \<open>lookups after table updates\<close>

type_synonym time = int
type_synonym duration = int
type_synonym ('s, 'e, 'a) tx = "'s \<Rightarrow> 'e + ('a \<times> 's)"
type_synonym float64 = real

section \<open>Durations\<close>

definition millisecond :: duration where
  "millisecond = 1000000"

definition second :: duration where
  "second = 1000 * millisecond"

definition minute :: duration where
  "minute = 60 * second"

definition hour :: duration where
  "hour = 60 * minute"

lemmas duration_defs = hour_def minute_def second_def millisecond_def

section \<open>Transaction bodies\<close>

definition tret :: "'a \<Rightarrow> ('s, 'e, 'a) tx" where
  "tret a s = Inr (a, s)"

definition traise :: "'e \<Rightarrow> ('s, 'e, 'a) tx" where
  "traise e s = Inl e"

definition tbind :: "('s, 'e, 'a) tx \<Rightarrow> ('a \<Rightarrow> ('s, 'e, 'b) tx) \<Rightarrow> ('s, 'e, 'b) tx" where
  "tbind m f s = (case m s of Inl e \<Rightarrow> Inl e | Inr (a, t) \<Rightarrow> f a t)"

definition tread :: "('s \<Rightarrow> 'a) \<Rightarrow> ('s, 'e, 'a) tx" where
  "tread f s = Inr (f s, s)"

definition twrite :: "('s \<Rightarrow> 's) \<Rightarrow> ('s, 'e, unit) tx" where
  "twrite f s = Inr ((), f s)"

definition tguard :: "bool \<Rightarrow> 'e \<Rightarrow> ('s, 'e, unit) tx" where
  "tguard b e s = (if b then Inr ((), s) else Inl e)"

definition tcheck :: "('s \<Rightarrow> bool) \<Rightarrow> 'e \<Rightarrow> ('s, 'e, unit) tx" where
  "tcheck p e s = (if p s then Inr ((), s) else Inl e)"

definition tsome :: "('s \<Rightarrow> 'a option) \<Rightarrow> 'e \<Rightarrow> ('s, 'e, 'a) tx" where
  "tsome f e s = (case f s of None \<Rightarrow> Inl e | Some a \<Rightarrow> Inr (a, s))"

definition tlift :: "'e + 'a \<Rightarrow> ('s, 'e, 'a) tx" where
  "tlift r s = (case r of Inl e \<Rightarrow> Inl e | Inr a \<Rightarrow> Inr (a, s))"

primrec titer :: "('a \<Rightarrow> ('s, 'e, unit) tx) \<Rightarrow> 'a list \<Rightarrow> ('s, 'e, unit) tx" where
  "titer f [] = tret ()"
| "titer f (x # xs) = tbind (f x) (\<lambda>_. titer f xs)"

definition transaction :: "('s, 'e, 'a) tx \<Rightarrow> 's \<Rightarrow> ('e + 'a) \<times> 's" where
  "transaction m s = (case m s of Inl e \<Rightarrow> (Inl e, s) | Inr (a, t) \<Rightarrow> (Inr a, t))"

lemma tret_iff [tx_simps]:
  "tret a s = Inr (b, t) \<longleftrightarrow> b = a \<and> t = s"
  "tret a s \<noteq> Inl e"
  by (auto simp: tret_def)

lemma traise_iff [tx_simps]:
  "traise e s \<noteq> Inr z"
  "traise e s = Inl e' \<longleftrightarrow> e' = e"
  by (auto simp: traise_def)

lemma tbind_Inr [tx_simps]:
  "tbind m f s = Inr z \<longleftrightarrow> (\<exists>a t. m s = Inr (a, t) \<and> f a t = Inr z)"
  by (auto simp: tbind_def split: sum.splits)

lemma tbind_Inl [tx_simps]:
  "tbind m f s = Inl e \<longleftrightarrow> m s = Inl e \<or> (\<exists>a t. m s = Inr (a, t) \<and> f a t = Inl e)"
  by (auto simp: tbind_def split: sum.splits)

lemma tread_iff [tx_simps]:
  "tread f s = Inr (b, t) \<longleftrightarrow> b = f s \<and> t = s"
  "tread f s \<noteq> Inl e"
  by (auto simp: tread_def)

lemma twrite_iff [tx_simps]:
  "twrite f s = Inr (b, t) \<longleftrightarrow> t = f s"
  "twrite f s \<noteq> Inl e"
  by (auto simp: twrite_def)

lemma tguard_iff [tx_simps]:
  "tguard b e s = Inr (u, t) \<longleftrightarrow> b \<and> t = s"
  "tguard b e s = Inl e' \<longleftrightarrow> \<not> b \<and> e' = e"
  by (auto simp: tguard_def)

lemma tcheck_iff [tx_simps]:
  "tcheck p e s = Inr (u, t) \<longleftrightarrow> p s \<and> t = s"
  "tcheck p e s = Inl e' \<longleftrightarrow> \<not> p s \<and> e' = e"
  by (auto simp: tcheck_def)

lemma tsome_iff [tx_simps]:
  "tsome f e s = Inr (a, t) \<longleftrightarrow> f s = Some a \<and> t = s"
  "tsome f e s = Inl e' \<longleftrightarrow> f s = None \<and> e' = e"
  by (auto simp: tsome_def split: option.splits)

lemma tlift_iff [tx_simps]:
  "tlift r s = Inr (a, t) \<longleftrightarrow> r = Inr a \<and> t = s"
  "tlift r s = Inl e \<longleftrightarrow> r = Inl e"
  by (auto simp: tlift_def split: sum.splits)

lemma transaction_Inr [tx_simps]:
  "transaction m s = (Inr a, t) \<longleftrightarrow> m s = Inr (a, t)"
  by (auto simp: transaction_def split: sum.splits)

lemma transaction_Inl [tx_simps]:
  "transaction m s = (Inl e, t) \<longleftrightarrow> m s = Inl e \<and> t = s"
  by (auto simp: transaction_def split: sum.splits)

text \<open>A failed transaction leaves the tables as they were.\<close>

lemma transaction_atomic:
  assumes "transaction m s = (r, t)"
  shows "t = s \<or> (\<exists>a. r = Inr a \<and> m s = Inr (a, t))"
  using assms by (auto simp: transaction_def split: sum.splits)

lemma transaction_preserves:
  assumes "P s" and "\<And>a t. m s = Inr (a, t) \<Longrightarrow> P t"
  shows "P (snd (transaction m s))"
  using assms by (auto simp: transaction_def split: sum.splits)

lemma titer_preserves:
  assumes "titer f xs s = Inr (u, t)" and "P s"
    and "\<And>x s' u' t'. x \<in> set xs \<Longrightarrow> f x s' = Inr (u', t') \<Longrightarrow> P s' \<Longrightarrow> P t'"
  shows "P t"
  using assms
proof (induction xs arbitrary: s)
  case Nil
  then show ?case by (auto simp: tx_simps)
next
  case (Cons x xs)
  from Cons.prems(1) obtain s' where x: "f x s = Inr ((), s')" and rest: "titer f xs s' = Inr (u, t)"
    by (auto simp: tx_simps)
  have "P s'" using Cons.prems(3) [OF _ x] Cons.prems(2) by simp
  then show ?case using Cons.IH [OF rest] Cons.prems(3) by (meson list.set_intros(2))
qed

section \<open>Tables\<close>

definition tbl_get :: "('r \<Rightarrow> 'k) \<Rightarrow> 'k \<Rightarrow> 'r list \<Rightarrow> 'r option" where
  "tbl_get key k rows = find (\<lambda>r. key r = k) rows"

definition tbl_upd :: "('r \<Rightarrow> bool) \<Rightarrow> ('r \<Rightarrow> 'r) \<Rightarrow> 'r list \<Rightarrow> 'r list" where
  "tbl_upd p f rows = map (\<lambda>r. if p r then f r else r) rows"

definition tbl_del :: "('r \<Rightarrow> bool) \<Rightarrow> 'r list \<Rightarrow> 'r list" where
  "tbl_del p rows = filter (\<lambda>r. \<not> p r) rows"

definition tbl_save :: "('r \<Rightarrow> 'k) \<Rightarrow> 'r \<Rightarrow> 'r list \<Rightarrow> 'r list" where
  "tbl_save key r rows =
     (if \<exists>x \<in> set rows. key x = key r then tbl_upd (\<lambda>x. key x = key r) (\<lambda>_. r) rows else rows @ [r])"

lemma tbl_get_Nil [tbl_simps]: "tbl_get key k [] = None"
  by (simp add: tbl_get_def)

lemma tbl_get_Cons [tbl_simps]:
  "tbl_get key k (r # rows) = (if key r = k then Some r else tbl_get key k rows)"
  by (simp add: tbl_get_def)

lemma tbl_get_SomeD:
  assumes "tbl_get key k rows = Some r"
  shows "r \<in> set rows" "key r = k"
  using assms by (induction rows) (auto simp: tbl_simps split: if_splits)

lemma tbl_get_None: "tbl_get key k rows = None \<longleftrightarrow> (\<forall>r \<in> set rows. key r \<noteq> k)"
  by (induction rows) (auto simp: tbl_simps)

lemma tbl_get_append [tbl_simps]:
  "tbl_get key k (xs @ ys) = (case tbl_get key k xs of Some r \<Rightarrow> Some r | None \<Rightarrow> tbl_get key k ys)"
  by (induction xs) (auto simp: tbl_simps)

lemma tbl_get_upd:
  assumes "\<And>r. key (f r) = key r"
  shows "tbl_get key k (tbl_upd p f rows) = map_option (\<lambda>r. if p r then f r else r) (tbl_get key k rows)"
  by (induction rows) (auto simp: tbl_simps tbl_upd_def assms)

lemma tbl_get_upd_key:
  assumes "\<And>r. key (f r) = key r"
  shows "tbl_get key k (tbl_upd (\<lambda>r. key r = k') f rows) = (if k = k' then map_option f (tbl_get key k rows) else tbl_get key k rows)"
  by (induction rows) (auto simp: tbl_simps tbl_upd_def assms)

lemma tbl_get_del:
  assumes "\<And>r. key r = k \<Longrightarrow> \<not> p r"
  shows "tbl_get key k (tbl_del p rows) = tbl_get key k rows"
  using assms by (induction rows) (auto simp: tbl_simps tbl_del_def)

lemma tbl_get_del_hit:
  assumes "\<And>r. key r = k \<Longrightarrow> p r"
  shows "tbl_get key k (tbl_del p rows) = None"
  using assms by (induction rows) (auto simp: tbl_simps tbl_del_def)

lemma tbl_get_replace:
  "tbl_get key k (tbl_upd (\<lambda>x. key x = key r) (\<lambda>_. r) rows)
     = map_option (\<lambda>x. if key x = key r then r else x) (tbl_get key k rows)"
  by (induction rows) (auto simp: tbl_simps tbl_upd_def)

lemma map_key_replace: "map key (tbl_upd (\<lambda>x. key x = key r) (\<lambda>_. r) rows) = map key rows"
  by (induction rows) (auto simp: tbl_upd_def)

lemma tbl_get_save [tbl_simps]:
  "tbl_get key k (tbl_save key r rows) = (if k = key r then Some r else tbl_get key k rows)"
proof (cases "\<exists>x \<in> set rows. key x = key r")
  case True
  have "\<And>x. tbl_get key k rows = Some x \<Longrightarrow> key x = k"
    by (rule tbl_get_SomeD)
  moreover have "tbl_get key (key r) rows \<noteq> None"
    using True by (auto simp: tbl_get_None)
  ultimately show ?thesis
    using True by (cases "tbl_get key k rows") (auto simp: tbl_save_def tbl_get_replace)
next
  case False
  then show ?thesis
    by (cases "tbl_get key k rows") (auto simp: tbl_save_def tbl_simps dest: tbl_get_SomeD)
qed

lemma set_tbl_upd: "set (tbl_upd p f rows) = (\<lambda>r. if p r then f r else r) ` set rows"
  by (simp add: tbl_upd_def)

lemma in_tbl_upd:
  "r \<in> set (tbl_upd p f rows) \<longleftrightarrow> (\<exists>x \<in> set rows. p x \<and> r = f x) \<or> (r \<in> set rows \<and> \<not> p r)"
  by (auto simp: tbl_upd_def)

lemma in_tbl_updE:
  assumes "r \<in> set (tbl_upd p f rows)"
  obtains (hit) x where "x \<in> set rows" "p x" "r = f x" | (miss) "r \<in> set rows" "\<not> p r"
  using assms by (auto simp: tbl_upd_def split: if_splits)

lemma in_tbl_del: "r \<in> set (tbl_del p rows) \<longleftrightarrow> r \<in> set rows \<and> \<not> p r"
  by (auto simp: tbl_del_def)

lemma in_tbl_save:
  "x \<in> set (tbl_save key r rows) \<longleftrightarrow> x = r \<or> (x \<in> set rows \<and> key x \<noteq> key r)"
  by (auto simp: tbl_save_def tbl_upd_def)

lemma map_key_upd:
  assumes "\<And>r. key (f r) = key r"
  shows "map key (tbl_upd p f rows) = map key rows"
  by (auto simp: tbl_upd_def assms)

lemma distinct_del: "distinct (map key rows) \<Longrightarrow> distinct (map key (tbl_del p rows))"
  by (simp add: tbl_del_def distinct_map_filter)

lemma distinct_save:
  "distinct (map key rows) \<Longrightarrow> distinct (map key (tbl_save key r rows))"
  by (auto simp: tbl_save_def map_key_replace)

lemma tbl_get_in:
  assumes "distinct (map key rows)" and "r \<in> set rows"
  shows "tbl_get key (key r) rows = Some r"
  using assms
proof (induction rows)
  case (Cons x rows)
  then show ?case by (cases "x = r") (auto simp: tbl_simps)
qed simp

lemma key_unique:
  assumes "distinct (map key rows)" "x \<in> set rows" "y \<in> set rows" "key x = key y"
  shows "x = y"
  using assms by (metis option.inject tbl_get_in)

section \<open>Statements on one table of a database\<close>

text \<open>
  A table of a database is given by its selector and its update function. \<open>tinsert\<close> is an \<open>INSERT\<close> that a
  unique key may reject; \<open>tupdate1\<close> is an \<open>UPDATE ... WHERE\<close> that reports when it matched no row.
\<close>

definition tinsert ::
  "('s \<Rightarrow> 'r list) \<Rightarrow> (('r list \<Rightarrow> 'r list) \<Rightarrow> 's \<Rightarrow> 's) \<Rightarrow> ('r \<Rightarrow> 'k) \<Rightarrow> 'e \<Rightarrow> 'r \<Rightarrow> ('s, 'e, unit) tx" where
  "tinsert sel upd key err r s =
     (if \<exists>x \<in> set (sel s). key x = key r then Inl err else Inr ((), upd (\<lambda>rows. rows @ [r]) s))"

definition tupdate1 ::
  "('s \<Rightarrow> 'r list) \<Rightarrow> (('r list \<Rightarrow> 'r list) \<Rightarrow> 's \<Rightarrow> 's) \<Rightarrow> ('r \<Rightarrow> bool) \<Rightarrow> ('r \<Rightarrow> 'r) \<Rightarrow> 'e \<Rightarrow> ('s, 'e, unit) tx" where
  "tupdate1 sel upd p f err s =
     (if \<exists>x \<in> set (sel s). p x then Inr ((), upd (tbl_upd p f) s) else Inl err)"

lemma tinsert_iff [tx_simps]:
  "tinsert sel upd key err r s = Inr (u, t) \<longleftrightarrow> (\<forall>x \<in> set (sel s). key x \<noteq> key r) \<and> t = upd (\<lambda>rows. rows @ [r]) s"
  "tinsert sel upd key err r s = Inl e \<longleftrightarrow> (\<exists>x \<in> set (sel s). key x = key r) \<and> e = err"
  by (auto simp: tinsert_def)

lemma tupdate1_iff [tx_simps]:
  "tupdate1 sel upd p f err s = Inr (u, t) \<longleftrightarrow> (\<exists>x \<in> set (sel s). p x) \<and> t = upd (tbl_upd p f) s"
  "tupdate1 sel upd p f err s = Inl e \<longleftrightarrow> (\<forall>x \<in> set (sel s). \<not> p x) \<and> e = err"
  by (auto simp: tupdate1_def)

section \<open>Ordered queries\<close>

text \<open>\<open>ORDER BY ... LIMIT n\<close> over the rows that satisfy a predicate, with a rank for the order.\<close>

definition tbl_select :: "('r \<Rightarrow> bool) \<Rightarrow> ('r \<Rightarrow> 'o::linorder) \<Rightarrow> nat \<Rightarrow> 'r list \<Rightarrow> 'r list" where
  "tbl_select p rank n rows = take n (sort_key rank (filter p rows))"

lemma tbl_select_in: "r \<in> set (tbl_select p rank n rows) \<Longrightarrow> r \<in> set rows \<and> p r"
  unfolding tbl_select_def by (drule in_set_takeD) simp

lemma length_tbl_select: "length (tbl_select p rank n rows) \<le> n"
  by (simp add: tbl_select_def)

lemma sorted_tbl_select: "sorted (map rank (tbl_select p rank n rows))"
  unfolding tbl_select_def by (metis sorted_sort_key sorted_wrt_take take_map)

lemma distinct_tbl_select:
  assumes "distinct (map key rows)"
  shows "distinct (map key (tbl_select p rank n rows))"
proof -
  have "distinct (map key (sort_key rank (filter p rows)))"
    using assms by (simp add: distinct_map distinct_filter inj_on_def)
  then show ?thesis by (simp add: tbl_select_def distinct_take flip: take_map)
qed

end
