(* ===== verification/GoStrings.thy ===== *)
theory GoStrings
  imports Prelude
begin

text \<open>
  The parts of Go's \<open>strings\<close>, \<open>unicode\<close> and \<open>unicode/utf8\<close> packages the services use. A Go string is the
  list of its bytes. \<open>runes\<close> is the loop \<open>for _, r := range s\<close>: it cuts the bytes into UTF-8 sequences and
  gives each invalid byte the replacement rune U+FFFD of width one. Lower-casing of runes outside
  ASCII is the parameter \<open>ul\<close>, Go's \<open>unicode.ToLower\<close> table.
\<close>

section \<open>UTF-8 decoding\<close>

abbreviation byte :: "char \<Rightarrow> int" where
  "byte c \<equiv> of_char c"

type_synonym rune_seg = "int \<times> string"

definition cont_byte :: "int \<Rightarrow> bool" where
  "cont_byte b \<longleftrightarrow> 128 \<le> b \<and> b \<le> 191"

definition utf8_2 :: "int \<Rightarrow> int \<Rightarrow> bool" where
  "utf8_2 b0 b1 \<longleftrightarrow> 194 \<le> b0 \<and> b0 \<le> 223 \<and> cont_byte b1"

definition utf8_3 :: "int \<Rightarrow> int \<Rightarrow> int \<Rightarrow> bool" where
  "utf8_3 b0 b1 b2 \<longleftrightarrow> 224 \<le> b0 \<and> b0 \<le> 239 \<and> cont_byte b1 \<and> cont_byte b2 \<and>
     (b0 = 224 \<longrightarrow> 160 \<le> b1) \<and> (b0 = 237 \<longrightarrow> b1 \<le> 159)"

definition utf8_4 :: "int \<Rightarrow> int \<Rightarrow> int \<Rightarrow> int \<Rightarrow> bool" where
  "utf8_4 b0 b1 b2 b3 \<longleftrightarrow> 240 \<le> b0 \<and> b0 \<le> 244 \<and> cont_byte b1 \<and> cont_byte b2 \<and> cont_byte b3 \<and>
     (b0 = 240 \<longrightarrow> 144 \<le> b1) \<and> (b0 = 244 \<longrightarrow> b1 \<le> 143)"

definition rune_error :: int where
  "rune_error = 65533"

definition decode_rune :: "char \<Rightarrow> string \<Rightarrow> int \<times> nat" where
  "decode_rune c cs = (let b0 = byte c in
     if b0 < 128 then (b0, 1)
     else if 1 \<le> length cs \<and> utf8_2 b0 (byte (cs ! 0)) then ((b0 - 192) * 64 + (byte (cs ! 0) - 128), 2)
     else if 2 \<le> length cs \<and> utf8_3 b0 (byte (cs ! 0)) (byte (cs ! 1)) then
       ((b0 - 224) * 4096 + (byte (cs ! 0) - 128) * 64 + (byte (cs ! 1) - 128), 3)
     else if 3 \<le> length cs \<and> utf8_4 b0 (byte (cs ! 0)) (byte (cs ! 1)) (byte (cs ! 2)) then
       ((b0 - 240) * 262144 + (byte (cs ! 0) - 128) * 4096 + (byte (cs ! 1) - 128) * 64 + (byte (cs ! 2) - 128), 4)
     else (rune_error, 1))"

function runes :: "string \<Rightarrow> rune_seg list" where
  "runes [] = []"
| "runes (c # cs) = (let (r, w) = decode_rune c cs in (r, c # take (w - 1) cs) # runes (drop (w - 1) cs))"
  by pat_completeness auto
termination by (relation "measure length") auto

definition rune_count :: "string \<Rightarrow> nat" where
  "rune_count s = length (runes s)"

definition rune_bytes :: "rune_seg list \<Rightarrow> string" where
  "rune_bytes rs = concat (map snd rs)"

lemma rune_bytes_simps [simp]:
  "rune_bytes [] = []"
  "rune_bytes (x # rs) = snd x @ rune_bytes rs"
  "rune_bytes (rs @ qs) = rune_bytes rs @ rune_bytes qs"
  by (simp_all add: rune_bytes_def)

lemma rune_bytes_runes [simp]: "rune_bytes (runes s) = s"
  by (induction s rule: runes.induct) (auto simp: Let_def split: prod.splits)

lemma decode_rune_width:
  assumes "decode_rune c cs = (r, w)"
  shows "1 \<le> w" "w - 1 \<le> length cs"
  using assms by (auto simp: decode_rune_def Let_def split: if_splits)

lemma decode_rune_ascii: "byte c < 128 \<Longrightarrow> decode_rune c cs = (byte c, 1)"
  by (simp add: decode_rune_def)

text \<open>Cutting the input behind a sequence does not change how the sequence is decoded.\<close>

lemma decode_rune_prefix:
  assumes "decode_rune c (xs @ ys) = (r, w)" and "w - 1 \<le> length xs"
  shows "decode_rune c xs = (r, w)"
  using assms by (auto simp: decode_rune_def Let_def nth_append utf8_2_def utf8_3_def utf8_4_def split: if_splits)

text \<open>Nor does text that follows, when it does not start with a continuation byte.\<close>

lemma decode_rune_extend:
  assumes "decode_rune c xs = (r, w)" and "ys = [] \<or> \<not> cont_byte (byte (hd ys))"
  shows "decode_rune c (xs @ ys) = (r, w)"
proof (cases ys)
  case Nil
  then show ?thesis using assms by simp
next
  case (Cons y ys')
  have y: "\<not> cont_byte (byte y)" using assms(2) Cons by simp
  show ?thesis
  proof (cases "byte c < 128")
    case True
    then show ?thesis using assms(1) by (simp add: decode_rune_ascii)
  next
    case False
    consider "xs = []" | x where "xs = [x]" | x1 x2 where "xs = [x1, x2]"
      | x1 x2 x3 zs where "xs = x1 # x2 # x3 # zs"
      by (metis neq_Nil_conv)
    then show ?thesis
      using assms(1) y False Cons
      by cases (auto simp: decode_rune_def Let_def utf8_2_def utf8_3_def utf8_4_def split: if_splits)
  qed
qed

lemma runes_append:
  assumes "ys = [] \<or> \<not> cont_byte (byte (hd ys))"
  shows "runes (xs @ ys) = runes xs @ runes ys"
  using assms
proof (induction xs rule: runes.induct)
  case (2 c cs)
  obtain r w where d: "decode_rune c cs = (r, w)" by fastforce
  have d': "decode_rune c (cs @ ys) = (r, w)" by (rule decode_rune_extend [OF d "2.prems"])
  from decode_rune_width [OF d] have "w - 1 \<le> length cs" by simp
  then show ?case using "2.IH" [OF d [symmetric] refl] "2.prems" d d' by simp
qed simp

definition wf_runes :: "rune_seg list \<Rightarrow> bool" where
  "wf_runes rs \<longleftrightarrow> runes (rune_bytes rs) = rs"

lemma wf_runes_runes [simp, intro]: "wf_runes (runes s)"
  by (simp add: wf_runes_def)

lemma wf_runes_ConsD:
  assumes "wf_runes (x # rs)"
  shows "wf_runes rs" "\<exists>c cs. snd x = c # cs \<and> decode_rune c (cs @ rune_bytes rs) = (fst x, length (snd x))"
proof -
  have e: "runes (snd x @ rune_bytes rs) = x # rs" using assms by (simp add: wf_runes_def)
  then obtain c t where ct: "snd x @ rune_bytes rs = c # t" by (cases "snd x @ rune_bytes rs") auto
  obtain r w where d: "decode_rune c t = (r, w)" by fastforce
  have x: "x = (r, c # take (w - 1) t)" and rs: "rs = runes (drop (w - 1) t)"
    using e ct d by auto
  have t: "t = take (w - 1) t @ rune_bytes rs" using rs by simp
  show "wf_runes rs" using rs by simp
  have "length (snd x) = w" using x decode_rune_width [OF d] by simp
  with x d t show "\<exists>c cs. snd x = c # cs \<and> decode_rune c (cs @ rune_bytes rs) = (fst x, length (snd x))"
    by auto
qed

lemma wf_runes_ConsI:
  assumes "wf_runes rs" "snd x = c # cs" "decode_rune c (cs @ rune_bytes rs) = (fst x, length (snd x))"
  shows "wf_runes (x # rs)"
  using assms by (cases x) (simp add: wf_runes_def)

lemma wf_runes_suffix: "wf_runes (xs @ ys) \<Longrightarrow> wf_runes ys"
  by (induction xs) (auto dest: wf_runes_ConsD(1))

lemma wf_runes_prefix: "wf_runes (xs @ ys) \<Longrightarrow> wf_runes xs"
proof (induction xs)
  case Nil
  then show ?case by (simp add: wf_runes_def)
next
  case (Cons x xs)
  from Cons.prems have w: "wf_runes (x # (xs @ ys))" by simp
  from wf_runes_ConsD(2) [OF w] obtain c cs where x: "snd x = c # cs"
    and d: "decode_rune c ((cs @ rune_bytes xs) @ rune_bytes ys) = (fst x, length (snd x))"
    by auto
  have "decode_rune c (cs @ rune_bytes xs) = (fst x, length (snd x))"
    by (rule decode_rune_prefix [OF d]) (simp add: x)
  with x Cons.IH wf_runes_ConsD(1) [OF w] show ?case by (blast intro: wf_runes_ConsI)
qed

lemma wf_runes_bytes: "wf_runes rs \<Longrightarrow> runes (rune_bytes rs) = rs"
  by (simp add: wf_runes_def)

lemma ascii_runes:
  assumes "\<forall>c \<in> set s. byte c < (128::int)"
  shows "runes s = map (\<lambda>c. (byte c, [c])) s"
  using assms by (induction s) (simp_all add: decode_rune_ascii)

section \<open>White space\<close>

definition is_space :: "int \<Rightarrow> bool" where
  "is_space r \<longleftrightarrow> (9 \<le> r \<and> r \<le> 13) \<or> r = 32 \<or> r = 133 \<or> r = 160 \<or> r = 5760 \<or>
     (8192 \<le> r \<and> r \<le> 8202) \<or> r = 8232 \<or> r = 8233 \<or> r = 8239 \<or> r = 8287 \<or> r = 12288"

definition space_seg :: "rune_seg \<Rightarrow> bool" where
  "space_seg x = is_space (fst x)"

definition trim_with :: "('a \<Rightarrow> bool) \<Rightarrow> 'a list \<Rightarrow> 'a list" where
  "trim_with p xs = rev (dropWhile p (rev (dropWhile p xs)))"

definition trim_space :: "string \<Rightarrow> string" where
  "trim_space s = rune_bytes (trim_with space_seg (runes s))"

primrec split_with :: "('a \<Rightarrow> bool) \<Rightarrow> 'a list \<Rightarrow> 'a list list" where
  "split_with p [] = [[]]"
| "split_with p (x # xs) =
     (if p x then [] # split_with p xs
      else (case split_with p xs of [] \<Rightarrow> [[x]] | f # fs \<Rightarrow> (x # f) # fs))"

definition str_fields :: "string \<Rightarrow> string list" where
  "str_fields s = map rune_bytes (filter (\<lambda>f. f \<noteq> []) (split_with space_seg (runes s)))"

fun join :: "string \<Rightarrow> string list \<Rightarrow> string" where
  "join sep [] = []"
| "join sep [x] = x"
| "join sep (x # y # zs) = x @ sep @ join sep (y # zs)"

lemma trim_with_split: "\<exists>as bs. xs = as @ trim_with p xs @ bs \<and> (\<forall>x \<in> set as \<union> set bs. p x)"
proof -
  let ?m = "dropWhile p xs"
  have 1: "xs = takeWhile p xs @ ?m" by simp
  have "rev ?m = takeWhile p (rev ?m) @ dropWhile p (rev ?m)" by simp
  then have 2: "?m = rev (dropWhile p (rev ?m)) @ rev (takeWhile p (rev ?m))"
    by (metis rev_append rev_rev_ident)
  have "xs = takeWhile p xs @ trim_with p xs @ rev (takeWhile p (rev ?m))"
    using 1 2 by (simp add: trim_with_def)
  moreover have "\<forall>x \<in> set (takeWhile p xs) \<union> set (rev (takeWhile p (rev ?m))). p x"
    by (auto dest: set_takeWhileD)
  ultimately show ?thesis by blast
qed

lemma trim_with_fix:
  assumes "xs = [] \<or> (\<not> p (hd xs) \<and> \<not> p (last xs))"
  shows "trim_with p xs = xs"
proof (cases xs)
  case (Cons y ys)
  then have y: "\<not> p y" "\<not> p (last xs)" using assms by auto
  have "dropWhile p xs = xs" using Cons y by simp
  moreover have "dropWhile p (rev xs) = rev xs"
    using y(2) Cons by (cases "rev xs") (auto simp: last_rev hd_rev simp flip: hd_rev)
  ultimately show ?thesis by (simp add: trim_with_def)
qed (simp add: trim_with_def)

lemma hd_dropWhile_not: "dropWhile p xs \<noteq> [] \<Longrightarrow> \<not> p (hd (dropWhile p xs))"
  by (induction xs) auto

lemma trim_with_ends:
  assumes "trim_with p xs \<noteq> []"
  shows "\<not> p (hd (trim_with p xs))" "\<not> p (last (trim_with p xs))"
proof -
  let ?m = "dropWhile p xs"
  have ne: "dropWhile p (rev ?m) \<noteq> []" using assms by (simp add: trim_with_def)
  then show "\<not> p (last (trim_with p xs))"
    by (simp add: trim_with_def last_rev hd_dropWhile_not)
  have m: "?m \<noteq> []" using ne by (metis dropWhile.simps(1) rev.simps(1))
  have "rev ?m = takeWhile p (rev ?m) @ dropWhile p (rev ?m)" by simp
  then have "?m = trim_with p xs @ rev (takeWhile p (rev ?m))"
    unfolding trim_with_def by (metis rev_append rev_rev_ident)
  then have "hd ?m = hd (trim_with p xs)" using assms by (metis hd_append2)
  then show "\<not> p (hd (trim_with p xs))" using hd_dropWhile_not [OF m] by simp
qed

lemma trim_with_idem [simp]: "trim_with p (trim_with p xs) = trim_with p xs"
  by (rule trim_with_fix) (auto dest: trim_with_ends)

lemma wf_trim: "wf_runes rs \<Longrightarrow> wf_runes (trim_with p rs)"
  using trim_with_split [of rs p] by (metis wf_runes_prefix wf_runes_suffix)

lemma runes_trim_space: "runes (trim_space s) = trim_with space_seg (runes s)"
  unfolding trim_space_def by (rule wf_runes_bytes) (simp add: wf_trim)

lemma trim_space_idem [simp]: "trim_space (trim_space s) = trim_space s"
proof -
  have "trim_space (trim_space s) = rune_bytes (trim_with space_seg (runes (trim_space s)))"
    by (simp only: trim_space_def)
  then show ?thesis unfolding runes_trim_space by (simp add: trim_space_def)
qed

lemma trim_space_no_space:
  assumes "\<forall>c \<in> set s. 32 < byte c \<and> byte c < (128::int)"
  shows "trim_space s = s"
proof -
  have r: "runes s = map (\<lambda>c. (byte c, [c])) s" using assms by (intro ascii_runes) auto
  have ns: "\<forall>x \<in> set (runes s). \<not> space_seg x"
    using assms by (auto simp: r space_seg_def is_space_def)
  have "trim_with space_seg (runes s) = runes s"
    using ns by (intro trim_with_fix) (metis hd_in_set last_in_set)
  then show ?thesis by (simp add: trim_space_def)
qed

section \<open>Splitting and joining\<close>

lemma split_with_nonempty [simp]: "split_with p xs \<noteq> []"
  by (induction xs) (auto split: list.splits)

lemma split_with_none: "\<forall>x \<in> set xs. \<not> p x \<Longrightarrow> split_with p xs = [xs]"
  by (induction xs) auto

lemma split_with_pieces: "f \<in> set (split_with p xs) \<Longrightarrow> x \<in> set f \<Longrightarrow> \<not> p x \<and> x \<in> set xs"
  by (induction xs arbitrary: f) (fastforce split: if_splits list.splits)+

lemma split_with_sep:
  assumes "\<forall>x \<in> set xs. \<not> p x" and "p s"
  shows "split_with p (xs @ s # ys) = xs # split_with p ys"
  using assms by (induction xs) auto

lemma split_with_infix:
  assumes "f \<in> set (split_with p xs)"
  shows "\<exists>as bs. xs = as @ f @ bs"
proof -
  have "(\<exists>bs. xs = hd (split_with p xs) @ bs) \<and> (\<forall>g \<in> set (split_with p xs). \<exists>as bs. xs = as @ g @ bs)"
  proof (induction xs)
    case (Cons x xs)
    obtain g gs where g: "split_with p xs = g # gs" by (cases "split_with p xs") auto
    from Cons.IH g obtain bs where b: "xs = g @ bs" by auto
    have rest: "\<exists>as bs. x # xs = as @ h @ bs" if "h \<in> set (split_with p xs)" for h
      using Cons.IH that by (metis append_Cons)
    have first: "\<exists>bs. x # xs = (x # g) @ bs" using b by simp
    then have "\<exists>as bs. x # xs = as @ (x # g) @ bs" by (metis append_Nil)
    moreover have "\<exists>as bs. x # xs = as @ bs" by (metis append_Nil)
    ultimately show ?case using first rest by (simp add: g)
  qed simp
  then show ?thesis using assms by blast
qed

definition word_runes :: "string \<Rightarrow> bool" where
  "word_runes s \<longleftrightarrow> s \<noteq> [] \<and> (\<forall>x \<in> set (runes s). \<not> space_seg x)"

lemma runes_Nil_iff [simp]: "runes s = [] \<longleftrightarrow> s = []"
  by (cases s) (auto simp: Let_def split: prod.splits)

lemma str_fields_words: "w \<in> set (str_fields s) \<Longrightarrow> word_runes w"
proof -
  assume "w \<in> set (str_fields s)"
  then obtain f where f: "f \<in> set (split_with space_seg (runes s))" "f \<noteq> []" and w: "w = rune_bytes f"
    by (auto simp: str_fields_def)
  obtain as bs where "runes s = as @ f @ bs" using split_with_infix [OF f(1)] by auto
  then have "wf_runes f" by (metis wf_runes_prefix wf_runes_runes wf_runes_suffix)
  then have r: "runes w = f" by (simp add: w wf_runes_bytes)
  then show "word_runes w" using f split_with_pieces [OF f(1)] by (auto simp: word_runes_def)
qed

lemma runes_join_space:
  "runes (x @ '' '' @ rest) = runes x @ (32, '' '') # runes rest"
proof -
  have "runes (x @ '' '' @ rest) = runes x @ runes ('' '' @ rest)"
    by (rule runes_append) (simp add: cont_byte_def)
  then show ?thesis by (simp add: decode_rune_ascii)
qed

lemma str_fields_join:
  assumes "\<forall>w \<in> set ws. word_runes w"
  shows "str_fields (join '' '' ws) = ws"
  using assms
proof (induction "'' ''" ws rule: join.induct)
  case 1
  then show ?case by (simp add: str_fields_def)
next
  case (2 x)
  then have "split_with space_seg (runes x) = [runes x]" by (intro split_with_none) (auto simp: word_runes_def)
  with 2 show ?case by (simp add: str_fields_def word_runes_def)
next
  case (3 x y zs)
  then have x: "\<forall>r \<in> set (runes x). \<not> space_seg r" "x \<noteq> []" by (auto simp: word_runes_def)
  have sp: "space_seg (32, '' '')" by (simp add: space_seg_def is_space_def)
  have "split_with space_seg (runes (join '' '' (x # y # zs)))
      = runes x # split_with space_seg (runes (join '' '' (y # zs)))"
    using split_with_sep [OF x(1) sp] runes_join_space by simp
  then show ?case using 3 x(2) by (simp add: str_fields_def)
qed

lemma trim_join_words:
  assumes "\<forall>w \<in> set ws. word_runes w"
  shows "trim_space (join '' '' ws) = join '' '' ws"
proof -
  have "join '' '' ws = [] \<or> (\<not> space_seg (hd (runes (join '' '' ws))) \<and> \<not> space_seg (last (runes (join '' '' ws))))"
    using assms
  proof (induction "'' ''" ws rule: join.induct)
    case (2 x)
    then show ?case by (auto simp: word_runes_def)
  next
    case (3 x y zs)
    then have x: "runes x \<noteq> []" "\<not> space_seg (hd (runes x))" by (auto simp: word_runes_def)
    have ne: "join '' '' (y # zs) \<noteq> []" using 3 by (cases zs) (auto simp: word_runes_def)
    then have "\<not> space_seg (last (runes (join '' '' (y # zs))))" using 3 by auto
    then show ?case using x ne runes_join_space [of x "join '' '' (y # zs)"] by simp
  qed simp
  then have "trim_with space_seg (runes (join '' '' ws)) = runes (join '' '' ws)"
    by (intro trim_with_fix) auto
  then show ?thesis by (simp add: trim_space_def)
qed

section \<open>Lower case\<close>

definition encode_rune :: "int \<Rightarrow> string" where
  "encode_rune r =
     (if r < 128 then [char_of r]
      else if r < 2048 then [char_of (192 + r div 64), char_of (128 + r mod 64)]
      else if 1114111 < r \<or> (55296 \<le> r \<and> r \<le> 57343) then [char_of (239::int), char_of (191::int), char_of (189::int)]
      else if r < 65536 then [char_of (224 + r div 4096), char_of (128 + (r div 64) mod 64), char_of (128 + r mod 64)]
      else [char_of (240 + r div 262144), char_of (128 + (r div 4096) mod 64),
            char_of (128 + (r div 64) mod 64), char_of (128 + r mod 64)])"

definition lower_rune :: "(int \<Rightarrow> int) \<Rightarrow> int \<Rightarrow> int" where
  "lower_rune ul r = (if 65 \<le> r \<and> r \<le> 90 then r + 32 else if r < 128 then r else ul r)"

definition to_lower :: "(int \<Rightarrow> int) \<Rightarrow> string \<Rightarrow> string" where
  "to_lower ul s = concat (map (\<lambda>x. encode_rune (lower_rune ul (fst x))) (runes s))"

lemma to_lower_ascii_id:
  assumes "\<forall>c \<in> set s. byte c < (128::int) \<and> \<not> (65 \<le> byte c \<and> byte c \<le> (90::int))"
  shows "to_lower ul s = s"
proof -
  have "runes s = map (\<lambda>c. (byte c, [c])) s" using assms by (intro ascii_runes) auto
  then have "to_lower ul s = concat (map (\<lambda>c. encode_rune (lower_rune ul (byte c))) s)"
    by (simp add: to_lower_def comp_def)
  also have "\<dots> = concat (map (\<lambda>c. [c]) s)"
    using assms by (intro arg_cong [where f = concat] map_cong) (auto simp: lower_rune_def encode_rune_def)
  finally show ?thesis by simp
qed

section \<open>Decimal numbers\<close>

fun show_nat :: "nat \<Rightarrow> string" where
  "show_nat n = (if n < 10 then [char_of (48 + n)] else show_nat (n div 10) @ [char_of (48 + n mod 10)])"

definition show_int :: "int \<Rightarrow> string" where
  "show_int i = (if i < 0 then CHR ''-'' # show_nat (nat (- i)) else show_nat (nat i))"

declare show_nat.simps [simp del]

end
