(* ===== verification/KnowledgeDomain.thy ===== *)
theory KnowledgeDomain
  imports GoStrings
begin

text \<open>
  The domain package of the knowledge service (\<open>services/knowledge/internal/domain/document.go\<close>): its
  value types and the validators and normalisers every request passes through. The UUID parser
  (\<open>github.com/google/uuid\<close>) is the parameter \<open>uuid_version\<close>, which gives the version of a well-formed UUID
  and \<open>None\<close> for a parse error; the JSON syntax check of the codec is the parameter \<open>json_valid\<close>.
\<close>

section \<open>Constants and value types\<close>

abbreviation AccessNone :: string where "AccessNone \<equiv> ''none''"
abbreviation AccessViewer :: string where "AccessViewer \<equiv> ''viewer''"
abbreviation AccessEditor :: string where "AccessEditor \<equiv> ''editor''"
abbreviation AccessOwner :: string where "AccessOwner \<equiv> ''owner''"

abbreviation PublicationDraft :: string where "PublicationDraft \<equiv> ''draft''"
abbreviation PublicationPublishing :: string where "PublicationPublishing \<equiv> ''publishing''"
abbreviation PublicationPublished :: string where "PublicationPublished \<equiv> ''published''"
abbreviation PublicationPublishFailed :: string where "PublicationPublishFailed \<equiv> ''publish_failed''"
abbreviation PublicationUnpublishing :: string where "PublicationUnpublishing \<equiv> ''unpublishing''"
abbreviation PublicationUnpublishFailed :: string where "PublicationUnpublishFailed \<equiv> ''unpublish_failed''"

definition MaxDocumentBytes :: int where
  "MaxDocumentBytes = 1073741824"

definition MaxProjectionBytes :: int where
  "MaxProjectionBytes = 16777216"

datatype validation_error = ValidationError (ve_field: string) (ve_reason: string)

type_synonym 'a validated = "validation_error + 'a"

record PublicUser =
  pu_ID :: int
  pu_Username :: string
  pu_Avatar :: string

record Document =
  doc_ID :: string
  doc_Title :: string
  doc_Summary :: string
  doc_Slug :: string
  doc_Language :: string
  doc_Tags :: "string list"
  doc_FolderID :: "string option"
  doc_Owner :: PublicUser
  doc_Access :: string
  doc_Published :: bool
  doc_PublicationStatus :: string
  doc_PublicationError :: "string option"
  doc_PublicationGeneration :: int
  doc_PublicationHash :: string
  doc_ActivePublicationHash :: string
  doc_Icon :: string
  doc_CoverAttachmentID :: "string option"
  doc_CoverFocalX :: float64
  doc_CoverFocalY :: float64
  doc_MetadataRevision :: int
  doc_ContentRevision :: int
  doc_PermissionRevision :: int
  doc_PublishedAt :: "time option"
  doc_DeletedAt :: "time option"
  doc_PurgeAfter :: "time option"
  doc_ProjectedAt :: "time option"
  doc_CreatedAt :: time
  doc_UpdatedAt :: time

record Folder =
  fo_ID :: string
  fo_ParentID :: "string option"
  fo_Name :: string
  fo_Depth :: int
  fo_Revision :: int
  fo_CreatedAt :: time
  fo_UpdatedAt :: time

record Projection =
  pj_DocumentID :: string
  pj_Sequence :: int
  pj_Content :: string
  pj_PlainText :: string
  pj_ProjectedAt :: time

record Member =
  mb_DocumentID :: string
  mb_User :: PublicUser
  mb_Role :: string
  mb_Revision :: int
  mb_CreatedAt :: time
  mb_UpdatedAt :: time

record PublicationReferenceJob =
  prj_ID :: string
  prj_DocumentID :: string
  prj_OwnerID :: int
  prj_Generation :: int
  prj_Action :: string
  prj_AttachmentIDs :: "string list"
  prj_State :: string
  prj_Attempts :: int

record OutboxMessage =
  om_ID :: string
  om_Subject :: string
  om_Payload :: string
  om_Headers :: "(string \<times> string) list"
  om_Attempts :: int

section \<open>Validators\<close>

definition ValidateID :: "(string \<Rightarrow> nat option) \<Rightarrow> string \<Rightarrow> string \<Rightarrow> unit validated" where
  "ValidateID uuid_version field value =
     (case uuid_version (trim_space value) of
        None \<Rightarrow> Inl (ValidationError field ''must be a UUIDv7'')
      | Some v \<Rightarrow> if v \<noteq> 7 then Inl (ValidationError field ''must be a UUIDv7'') else Inr ())"

definition ValidateTitle :: "string \<Rightarrow> unit validated" where
  "ValidateTitle value = (let length = rune_count (trim_space value) in
     if length < 1 \<or> 200 < length
     then Inl (ValidationError ''title'' ''must contain between 1 and 200 characters'') else Inr ())"

definition ValidateSummary :: "string \<Rightarrow> unit validated" where
  "ValidateSummary value =
     (if 1000 < rune_count (trim_space value)
      then Inl (ValidationError ''summary'' ''must contain at most 1000 characters'') else Inr ())"

definition collapse_spaces :: "string \<Rightarrow> string" where
  "collapse_spaces value = join '' '' (str_fields (trim_space value))"

fun normalize_tags_loop ::
  "(int \<Rightarrow> int) \<Rightarrow> string list \<Rightarrow> string list \<Rightarrow> string list \<Rightarrow> string list validated" where
  "normalize_tags_loop ul [] seen result = Inr result"
| "normalize_tags_loop ul (value # values) seen result =
     (let v = collapse_spaces value; key = to_lower ul v in
      if v = [] \<or> 64 < rune_count v
      then Inl (ValidationError ''tags'' ''each tag must contain 1-64 characters'')
      else if key \<in> set seen then normalize_tags_loop ul values seen result
      else normalize_tags_loop ul values (key # seen) (result @ [v]))"

definition NormalizeTags :: "(int \<Rightarrow> int) \<Rightarrow> string list \<Rightarrow> string list validated" where
  "NormalizeTags ul values =
     (if 20 < length values then Inl (ValidationError ''tags'' ''must contain at most 20 tags'')
      else normalize_tags_loop ul values [] [])"

definition slug_alnum :: "char \<Rightarrow> bool" where
  "slug_alnum c \<longleftrightarrow> (97 \<le> byte c \<and> byte c \<le> (122::int)) \<or> (48 \<le> byte c \<and> byte c \<le> (57::int))"

text \<open>
  The regular expression \<open>^[a-z0-9]+(?:-[a-z0-9]+)*$\<close> as its automaton: the state says whether a letter
  or digit is required next, and \<open>None\<close> is the dead state.
\<close>

definition slug_step :: "bool option \<Rightarrow> char \<Rightarrow> bool option" where
  "slug_step st c = (case st of None \<Rightarrow> None
     | Some need \<Rightarrow> if slug_alnum c then Some False else if c = CHR ''-'' \<and> \<not> need then Some True else None)"

definition slug_state :: "string \<Rightarrow> bool option" where
  "slug_state s = foldl slug_step (Some True) s"

definition slugPattern :: "string \<Rightarrow> bool" where
  "slugPattern s \<longleftrightarrow> slug_state s = Some False"

definition reserved_slugs :: "string list" where
  "reserved_slugs = [''api'', ''admin'', ''studio'', ''trash'', ''health'', ''attachments'']"

definition NormalizeSlug :: "(int \<Rightarrow> int) \<Rightarrow> string \<Rightarrow> string validated" where
  "NormalizeSlug ul value = (let v = to_lower ul (trim_space value) in
     if length v < 3 \<or> 80 < length v \<or> \<not> slugPattern v
     then Inl (ValidationError ''slug'' ''must be 3-80 lowercase ASCII letters, digits, or single hyphens'')
     else if v \<in> set reserved_slugs then Inl (ValidationError ''slug'' ''is reserved'')
     else Inr v)"

fun slug_builder :: "int list \<Rightarrow> string \<Rightarrow> bool \<Rightarrow> string" where
  "slug_builder [] builder lastHyphen = builder"
| "slug_builder (r # rs) builder lastHyphen =
     (if (97 \<le> r \<and> r \<le> 122) \<or> (48 \<le> r \<and> r \<le> 57)
      then slug_builder rs (builder @ encode_rune r) False
      else if builder \<noteq> [] \<and> \<not> lastHyphen then slug_builder rs (builder @ ''-'') True
      else slug_builder rs builder lastHyphen)"

definition trim_right_hyphen :: "string \<Rightarrow> string" where
  "trim_right_hyphen s = rev (dropWhile (\<lambda>c. c = CHR ''-'') (rev s))"

definition SlugFromTitle :: "(int \<Rightarrow> int) \<Rightarrow> string \<Rightarrow> string \<Rightarrow> string" where
  "SlugFromTitle ul title docID =
     (let built = slug_builder (map fst (runes (to_lower ul (trim_space title)))) [] False;
          base0 = trim_with (\<lambda>c. c = CHR ''-'') built;
          base1 = (if 60 < length base0 then trim_right_hyphen (take 60 base0) else base0);
          base = (if length base1 < 3 then ''document'' else base1);
          compact0 = filter (\<lambda>c. c \<noteq> CHR ''-'') docID;
          compact = (if 10 < length compact0 then take 10 compact0 else compact0)
      in base @ ''-'' @ compact)"

definition ValidateRole :: "string \<Rightarrow> unit validated" where
  "ValidateRole role = (if role \<noteq> AccessViewer \<and> role \<noteq> AccessEditor
     then Inl (ValidationError ''role'' ''must be viewer or editor'') else Inr ())"

definition CanRead :: "string \<Rightarrow> bool" where
  "CanRead access \<longleftrightarrow> access = AccessOwner \<or> access = AccessEditor \<or> access = AccessViewer"

definition CanEdit :: "string \<Rightarrow> bool" where
  "CanEdit access \<longleftrightarrow> access = AccessOwner \<or> access = AccessEditor"

definition CanManageMembers :: "string \<Rightarrow> bool" where
  "CanManageMembers access \<longleftrightarrow> access = AccessOwner"

text \<open>\<open>errors.Join\<close> collects the failures; the empty list is the nil error.\<close>

definition ValidatePage :: "int \<Rightarrow> string \<Rightarrow> string \<Rightarrow> validation_error list" where
  "ValidatePage limit cursor query =
     (if limit < 0 \<or> 100 < limit then [ValidationError ''limit'' ''must be between 1 and 100''] else []) @
     (if 1024 < length cursor then [ValidationError ''cursor'' ''is too long''] else []) @
     (if 200 < rune_count query then [ValidationError ''q'' ''must contain at most 200 characters''] else [])"

definition idempotencyKeyPattern :: "string \<Rightarrow> bool" where
  "idempotencyKeyPattern s \<longleftrightarrow> 1 \<le> length s \<and> length s \<le> 128 \<and> (\<forall>c \<in> set s. 33 \<le> byte c \<and> byte c \<le> (126::int))"

definition ValidateIdempotencyKey :: "string \<Rightarrow> unit validated" where
  "ValidateIdempotencyKey value =
     (if value = [] then Inr ()
      else if value \<noteq> trim_space value \<or> \<not> idempotencyKeyPattern value
      then Inl (ValidationError ''idempotency_key'' ''must contain 1-128 visible ASCII characters'')
      else Inr ())"

definition ValidateProjection :: "(string \<Rightarrow> bool) \<Rightarrow> string \<Rightarrow> string \<Rightarrow> unit validated" where
  "ValidateProjection json_valid content plainText =
     (if content = [] \<or> MaxProjectionBytes < int (length content) \<or> \<not> json_valid content
      then Inl (ValidationError ''content'' ''must be a valid JSON document within the projection size limit'')
      else if MaxDocumentBytes < int (length plainText)
      then Inl (ValidationError ''plain_text'' ''exceeds the document size limit'')
      else Inr ())"

section \<open>Slugs\<close>

lemma slug_state_simps [simp]:
  "slug_state [] = Some True"
  "slug_state (s @ [c]) = slug_step (slug_state s) c"
  by (simp_all add: slug_state_def)

lemma slug_state_append: "slug_state (s @ t) = foldl slug_step (slug_state s) t"
  by (simp add: slug_state_def)

lemma slug_dead [simp]: "foldl slug_step None t = None"
  by (induction t) (simp_all add: slug_step_def)

lemma slug_state_prefix: "slug_state (s @ t) \<noteq> None \<Longrightarrow> slug_state s \<noteq> None"
  by (cases "slug_state s") (simp_all add: slug_state_append)

lemma slug_state_chars: "slug_state s \<noteq> None \<Longrightarrow> c \<in> set s \<Longrightarrow> slug_alnum c \<or> c = CHR ''-''"
  by (induction s rule: rev_induct) (auto simp: slug_step_def split: option.splits if_splits)

lemma slug_alnum_not_hyphen [simp]: "\<not> slug_alnum CHR ''-''"
  by (simp add: slug_alnum_def)

lemma slug_state_last:
  assumes "slug_state s = Some b" "s \<noteq> []"
  shows "b \<longleftrightarrow> last s = CHR ''-''"
  using assms by (cases s rule: rev_cases) (auto simp: slug_step_def split: option.splits if_splits)

lemma slug_trim_right:
  assumes "slug_state s \<noteq> None"
  shows "trim_right_hyphen s = [] \<or> slug_state (trim_right_hyphen s) = Some False"
proof -
  let ?t = "trim_right_hyphen s"
  have "s = ?t @ rev (takeWhile (\<lambda>c. c = CHR ''-'') (rev s))"
    unfolding trim_right_hyphen_def by (metis rev_append rev_rev_ident takeWhile_dropWhile_id)
  then obtain b where b: "slug_state ?t = Some b" using assms slug_state_prefix by (metis not_None_eq)
  have "last ?t \<noteq> CHR ''-''" if "?t \<noteq> []"
    using that hd_dropWhile_not [of "\<lambda>c. c = CHR ''-''" "rev s"] by (auto simp: trim_right_hyphen_def last_rev)
  then show ?thesis using b slug_state_last by (metis (full_types))
qed

lemma slug_trim:
  assumes "slug_state s \<noteq> None"
  shows "trim_with (\<lambda>c. c = CHR ''-'') s = trim_right_hyphen s"
proof (cases s)
  case (Cons c t)
  have "slug_state [c] \<noteq> None" using assms Cons slug_state_prefix [of "[c]" t] by simp
  then have "c \<noteq> CHR ''-''" by (auto simp: slug_state_def slug_step_def split: if_splits)
  then show ?thesis using Cons by (simp add: trim_with_def trim_right_hyphen_def)
qed (simp add: trim_with_def trim_right_hyphen_def)

lemma slug_alnum_encode: "(97 \<le> r \<and> r \<le> 122) \<or> (48 \<le> r \<and> r \<le> 57) \<Longrightarrow> encode_rune r = [char_of r] \<and> slug_alnum (char_of r)"
  by (auto simp: encode_rune_def slug_alnum_def)

lemma slug_builder_live:
  assumes "slug_state b = Some (b = [] \<or> h)" "b = [] \<longrightarrow> \<not> h"
  shows "slug_state (slug_builder rs b h) \<noteq> None"
  using assms
proof (induction rs arbitrary: b h)
  case (Cons r rs)
  show ?case
  proof (cases "(97 \<le> r \<and> r \<le> 122) \<or> (48 \<le> r \<and> r \<le> 57)")
    case True
    with slug_alnum_encode [OF True] Cons.prems show ?thesis
      using Cons.IH [of "b @ encode_rune r" False] by (simp add: slug_step_def)
  next
    case False
    show ?thesis
    proof (cases "b \<noteq> [] \<and> \<not> h")
      case True
      then have "slug_state (b @ ''-'') = Some True" using Cons.prems by (simp add: slug_step_def)
      then show ?thesis using False True Cons.IH [of "b @ ''-''" True] by auto
    next
      case False
      with \<open>\<not> ((97 \<le> r \<and> r \<le> 122) \<or> (48 \<le> r \<and> r \<le> 57))\<close> Cons show ?thesis by auto
    qed
  qed
qed auto

lemma slug_alnum_run:
  assumes "\<forall>c \<in> set t. slug_alnum c" "t \<noteq> []" "st \<noteq> None"
  shows "foldl slug_step st t = Some False"
  using assms
proof (induction t arbitrary: st)
  case (Cons c t)
  then have "slug_step st c = Some False" by (auto simp: slug_step_def)
  with Cons show ?case by (cases t) auto
qed simp

lemma slug_ascii:
  assumes "slug_state s \<noteq> None"
  shows "trim_space s = s" "to_lower ul s = s"
proof -
  have c: "slug_alnum c \<or> c = CHR ''-''" if "c \<in> set s" for c
    using slug_state_chars [OF assms that] .
  have "32 < byte c \<and> byte c < (128::int)" if "c \<in> set s" for c
    using c [OF that] by (auto simp: slug_alnum_def)
  then show "trim_space s = s" by (intro trim_space_no_space) blast
  have "byte c < (128::int) \<and> \<not> (65 \<le> byte c \<and> byte c \<le> (90::int))" if "c \<in> set s" for c
    using c [OF that] by (auto simp: slug_alnum_def)
  then show "to_lower ul s = s" by (intro to_lower_ascii_id) blast
qed

lemma NormalizeSlug_iff:
  "NormalizeSlug ul value = Inr s \<longleftrightarrow>
     s = to_lower ul (trim_space value) \<and> slugPattern s \<and> 3 \<le> length s \<and> length s \<le> 80 \<and> s \<notin> set reserved_slugs"
  by (auto simp: NormalizeSlug_def Let_def)

lemma NormalizeSlug_fix:
  assumes "slugPattern s" "3 \<le> length s" "length s \<le> 80" "s \<notin> set reserved_slugs"
  shows "NormalizeSlug ul s = Inr s"
  using assms slug_ascii [of s] by (simp add: NormalizeSlug_iff slugPattern_def)

lemma SlugFromTitle_parts:
  fixes ul title docID
  defines "cs \<equiv> filter (\<lambda>c. c \<noteq> CHR ''-'') docID"
  shows "\<exists>base. SlugFromTitle ul title docID = base @ ''-'' @ take 10 cs
     \<and> slug_state base = Some False \<and> 3 \<le> length base \<and> length base \<le> 60"
proof -
  define built where "built = slug_builder (map fst (runes (to_lower ul (trim_space title)))) [] False"
  define base0 where "base0 = trim_right_hyphen built"
  define base1 where "base1 = (if 60 < length base0 then trim_right_hyphen (take 60 base0) else base0)"
  define base where "base = (if length base1 < 3 then ''document'' else base1)"
  have live: "slug_state built \<noteq> None" unfolding built_def by (rule slug_builder_live) auto
  have b0: "base0 = [] \<or> slug_state base0 = Some False"
    unfolding base0_def by (rule slug_trim_right [OF live])
  have b1: "base1 = [] \<or> slug_state base1 = Some False"
  proof (cases "60 < length base0")
    case True
    have "slug_state (take 60 base0 @ drop 60 base0) \<noteq> None" using b0 True by auto
    then have "slug_state (take 60 base0) \<noteq> None" by (rule slug_state_prefix)
    then show ?thesis using slug_trim_right True by (auto simp: base1_def)
  qed (use b0 in \<open>simp add: base1_def\<close>)
  have len: "length base1 \<le> 60"
    using length_dropWhile_le [of "\<lambda>c. c = CHR ''-''" "rev (take 60 base0)"]
    by (auto simp: base1_def trim_right_hyphen_def)
  have "slug_state base = Some False" using b1 by (auto simp: base_def slug_state_def slug_step_def slug_alnum_def)
  moreover have "3 \<le> length base" "length base \<le> 60" using len by (auto simp: base_def)
  moreover have "SlugFromTitle ul title docID = base @ ''-'' @ take 10 cs"
    using slug_trim [OF live]
    by (simp add: SlugFromTitle_def Let_def base_def base1_def base0_def built_def cs_def)
  ultimately show ?thesis by blast
qed

section \<open>Tags\<close>

definition tag_ok :: "string \<Rightarrow> bool" where
  "tag_ok v \<longleftrightarrow> v \<noteq> [] \<and> rune_count v \<le> 64 \<and> collapse_spaces v = v"

lemma collapse_idem [simp]: "collapse_spaces (collapse_spaces v) = collapse_spaces v"
proof -
  have w: "\<forall>x \<in> set (str_fields (trim_space v)). word_runes x" by (simp add: str_fields_words)
  then show ?thesis
    by (simp add: collapse_spaces_def trim_join_words [OF w] str_fields_join [OF w])
qed

lemma normalize_tags_loop_ok:
  assumes "normalize_tags_loop ul vs seen res = Inr out"
    and "set seen = to_lower ul ` set res" "distinct (map (to_lower ul) res)" "\<forall>v \<in> set res. tag_ok v"
  shows "(\<exists>new. out = res @ new \<and> length new \<le> length vs) \<and> distinct (map (to_lower ul) out) \<and> (\<forall>v \<in> set out. tag_ok v)"
  using assms
proof (induction vs arbitrary: seen res)
  case (Cons v vs)
  let ?v = "collapse_spaces v"
  have ok: "?v \<noteq> []" "rune_count ?v \<le> 64"
    using Cons.prems(1) by (auto simp: Let_def split: if_splits)
  show ?case
  proof (cases "to_lower ul ?v \<in> set seen")
    case True
    then have "normalize_tags_loop ul vs seen res = Inr out" using Cons.prems(1) ok by (simp add: Let_def)
    from Cons.IH [OF this Cons.prems(2-4)] show ?thesis by (auto intro: le_SucI)
  next
    case False
    have "normalize_tags_loop ul vs (to_lower ul ?v # seen) (res @ [?v]) = Inr out"
      using Cons.prems(1) ok False by (simp add: Let_def)
    moreover have "set (to_lower ul ?v # seen) = to_lower ul ` set (res @ [?v])" using Cons.prems(2) by simp
    moreover have "distinct (map (to_lower ul) (res @ [?v]))" using Cons.prems(2,3) False by simp
    moreover have "\<forall>v \<in> set (res @ [?v]). tag_ok v" using Cons.prems(4) ok by (simp add: tag_ok_def)
    ultimately have "(\<exists>new. out = (res @ [?v]) @ new \<and> length new \<le> length vs)
        \<and> distinct (map (to_lower ul) out) \<and> (\<forall>v \<in> set out. tag_ok v)" by (rule Cons.IH)
    then show ?thesis by auto
  qed
qed auto

lemma normalize_tags_loop_fix:
  assumes "distinct (map (to_lower ul) vs)" "\<forall>v \<in> set vs. tag_ok v" "set seen \<inter> to_lower ul ` set vs = {}"
  shows "normalize_tags_loop ul vs seen res = Inr (res @ vs)"
  using assms by (induction vs arbitrary: seen res) (auto simp: Let_def tag_ok_def)

lemma normalize_tags_loop_mono:
  "normalize_tags_loop ul vs seen res = Inr out \<Longrightarrow> set res \<subseteq> set out"
proof (induction vs arbitrary: seen res)
  case (Cons v vs)
  then consider "normalize_tags_loop ul vs seen res = Inr out"
    | seen' where "normalize_tags_loop ul vs seen' (res @ [collapse_spaces v]) = Inr out"
    by (auto simp: Let_def split: if_splits)
  then show ?case by cases (use Cons.IH in force)+
qed simp

lemma normalize_tags_loop_cover:
  assumes "normalize_tags_loop ul vs seen res = Inr out" "v \<in> set vs"
  shows "to_lower ul (collapse_spaces v) \<in> set seen \<union> to_lower ul ` set out"
  using assms
proof (induction vs arbitrary: seen res)
  case (Cons x xs)
  show ?case
  proof (cases "to_lower ul (collapse_spaces x) \<in> set seen")
    case True
    then show ?thesis using Cons by (auto simp: Let_def split: if_splits)
  next
    case False
    then have r: "normalize_tags_loop ul xs (to_lower ul (collapse_spaces x) # seen) (res @ [collapse_spaces x]) = Inr out"
      using Cons.prems(1) by (auto simp: Let_def split: if_splits)
    have "collapse_spaces x \<in> set out" using normalize_tags_loop_mono [OF r] by auto
    then show ?thesis using Cons.IH [OF r] Cons.prems(2) by auto
  qed
qed simp

section \<open>Properties\<close>

text \<open>C31: a slug that \<open>NormalizeSlug\<close> accepts is a 3-80 character slug of the pattern that is not reserved,
  and normalising it again returns it unchanged.\<close>

theorem NormalizeSlug_normal_form:
  assumes "NormalizeSlug ul value = Inr s"
  shows "slugPattern s \<and> 3 \<le> length s \<and> length s \<le> 80 \<and> s \<notin> set reserved_slugs \<and> NormalizeSlug ul' s = Inr s"
proof -
  have "slugPattern s" "3 \<le> length s" "length s \<le> 80" "s \<notin> set reserved_slugs"
    using assms unfolding NormalizeSlug_iff by blast+
  then show ?thesis by (simp add: NormalizeSlug_fix)
qed

theorem NormalizeSlug_normal_form_witness:
  "NormalizeSlug id '' Go-101 '' = Inr ''go-101'' \<and> NormalizeSlug id ''go-101'' = Inr ''go-101''"
proof -
  have "NormalizeSlug id '' Go-101 '' = Inr ''go-101''" by code_simp
  with NormalizeSlug_normal_form [OF this] show ?thesis by blast
qed

text \<open>C39: the slug derived from any title and a document identifier written in lower-case hexadecimal
  and hyphens is one \<open>NormalizeSlug\<close> accepts unchanged, and has at most 71 characters.\<close>

theorem SlugFromTitle_valid:
  assumes "\<forall>c \<in> set docID. slug_alnum c \<or> c = CHR ''-''" and "\<exists>c \<in> set docID. slug_alnum c"
  shows "NormalizeSlug ul' (SlugFromTitle ul title docID) = Inr (SlugFromTitle ul title docID)
     \<and> length (SlugFromTitle ul title docID) \<le> 71"
proof -
  let ?cs = "filter (\<lambda>c. c \<noteq> CHR ''-'') docID"
  obtain base where s: "SlugFromTitle ul title docID = base @ ''-'' @ take 10 ?cs"
    and base: "slug_state base = Some False" "3 \<le> length base" "length base \<le> 60"
    using SlugFromTitle_parts by blast
  obtain c where "c \<in> set docID" "slug_alnum c" using assms(2) by blast
  then have "c \<in> set ?cs" by auto
  then have "?cs \<noteq> []" by (metis empty_iff empty_set)
  then have ne: "take 10 ?cs \<noteq> []" by simp
  have "\<forall>c \<in> set ?cs. slug_alnum c" using assms(1) by auto
  then have "\<forall>c \<in> set (take 10 ?cs). slug_alnum c" by (meson in_set_takeD)
  then have "foldl slug_step (Some True) (take 10 ?cs) = Some False" using ne by (intro slug_alnum_run) auto
  then have "slugPattern (base @ ''-'' @ take 10 ?cs)"
    using base(1) by (simp add: slugPattern_def slug_state_append slug_step_def)
  moreover have "base @ ''-'' @ take 10 ?cs \<notin> set reserved_slugs"
  proof -
    have "CHR ''-'' \<in> set (base @ ''-'' @ take 10 ?cs)" by simp
    moreover have "\<forall>r \<in> set reserved_slugs. CHR ''-'' \<notin> set r" by (simp add: reserved_slugs_def)
    ultimately show ?thesis by blast
  qed
  ultimately show ?thesis using base(2,3) unfolding s by (intro conjI NormalizeSlug_fix) auto
qed

theorem SlugFromTitle_valid_witness:
  "NormalizeSlug id (SlugFromTitle id ''Hello,  World!'' ''0190-af3c'') = Inr ''hello-world-0190af3c''"
proof -
  have "SlugFromTitle id ''Hello,  World!'' ''0190-af3c'' = ''hello-world-0190af3c''" by code_simp
  with SlugFromTitle_valid [of "''0190-af3c''" id id "''Hello,  World!''"] show ?thesis
    by (simp add: slug_alnum_def)
qed

text \<open>Normalised tags are at most 20, pairwise different under lower-casing, each a non-empty tag of at
  most 64 characters with single inner spaces; every requested tag is represented, and normalising
  the result again returns it unchanged.\<close>

theorem NormalizeTags_normal_form:
  assumes "NormalizeTags ul values = Inr out"
  shows "length out \<le> 20 \<and> distinct (map (to_lower ul) out) \<and> (\<forall>v \<in> set out. tag_ok v)
     \<and> (\<forall>v \<in> set values. to_lower ul (collapse_spaces v) \<in> to_lower ul ` set out)
     \<and> NormalizeTags ul out = Inr out"
proof -
  have loop: "normalize_tags_loop ul values [] [] = Inr out" and len: "length values \<le> 20"
    using assms by (auto simp: NormalizeTags_def split: if_splits)
  have ok: "length out \<le> length values" "distinct (map (to_lower ul) out)" "\<forall>v \<in> set out. tag_ok v"
    using normalize_tags_loop_ok [OF loop] by auto
  have "normalize_tags_loop ul out [] [] = Inr out"
    using normalize_tags_loop_fix [of ul out "[]" "[]"] ok by simp
  then show ?thesis
    using ok len normalize_tags_loop_cover [OF loop] by (auto simp: NormalizeTags_def)
qed

theorem NormalizeTags_normal_form_witness:
  "NormalizeTags id [''Go  lang'', ''go lang'', ''db''] = Inr [''Go lang'', ''db'']
     \<and> NormalizeTags id [''Go lang'', ''db''] = Inr [''Go lang'', ''db'']"
proof -
  have "NormalizeTags id [''Go  lang'', ''go lang'', ''db''] = Inr [''Go lang'', ''db'']" by code_simp
  with NormalizeTags_normal_form [OF this] show ?thesis by blast
qed

end
