(* ===== verification/RichText.thy ===== *)
theory RichText
  imports KnowledgeDomain
begin

text \<open>
  ProseMirror documents and their validator (\<open>services/knowledge/internal/domain/richtext.go\<close>). Pointers are
  options, a nil slice of the document is \<open>None\<close>, and an error joined by \<open>errors.Join\<close> is the list of its
  parts. \<open>rtenv\<close> holds what the file calls outside the repository: the UUID parser, \<open>url.Parse\<close> (the
  scheme, or \<open>None\<close> for a parse error), the \<open>%q\<close> verb and \<open>unicode.ToLower\<close>.
\<close>

record rtenv =
  re_uuid_version :: "string \<Rightarrow> nat option"
  re_url_scheme :: "string \<Rightarrow> string option"
  re_quote :: "string \<Rightarrow> string"
  re_lower :: "int \<Rightarrow> int"

record RichTextAttrs =
  ra_Level :: "int option"
  ra_Start :: "int option"
  ra_Checked :: "bool option"
  ra_Language :: "string option"
  ra_Href :: "string option"
  ra_AttachmentID :: "string option"
  ra_Alt :: "string option"
  ra_Title :: "string option"
  ra_TextAlign :: "string option"
  ra_Variant :: "string option"
  ra_Colspan :: "int option"
  ra_Rowspan :: "int option"
  ra_Colwidth :: "int list"
  ra_BlockID :: "string option"

record RichTextMark =
  rm_Type :: string
  rm_Attrs :: "RichTextAttrs option"

datatype RichTextNode =
  RichTextNode (rn_Type: string) (rn_Attrs: "RichTextAttrs option")
    (rn_Content: "RichTextNode option list") (rn_Text: "string option") (rn_Marks: "RichTextMark list")

record RichTextDocument =
  rd_Type :: string
  rd_Content :: "RichTextNode option list option"

definition allowedNodeTypes :: "string list" where
  "allowedNodeTypes = [''paragraph'', ''heading'', ''bulletList'', ''orderedList'', ''listItem'',
     ''taskList'', ''taskItem'', ''blockquote'', ''codeBlock'', ''horizontalRule'',
     ''hardBreak'', ''text'', ''image'', ''attachment'', ''table'', ''tableRow'',
     ''tableHeader'', ''tableCell'', ''callout'', ''columns'', ''column'', ''formula'']"

definition allowedMarkTypes :: "string list" where
  "allowedMarkTypes = [''bold'', ''italic'', ''strike'', ''underline'', ''code'', ''link'']"

abbreviation content_error :: "string \<Rightarrow> validation_error" where
  "content_error reason \<equiv> ValidationError ''content'' reason"

section \<open>Validation\<close>

definition validateLink :: "rtenv \<Rightarrow> string \<Rightarrow> bool" where
  "validateLink E value =
     (if 2048 < int (length value) \<or> (\<exists>c \<in> set value. byte c = 13 \<or> byte c = 10) then False
      else case re_url_scheme E value of
             None \<Rightarrow> False
           | Some scheme \<Rightarrow> to_lower (re_lower E) scheme \<in> {''http'', ''https'', ''mailto''})"

definition out_of_range :: "int option \<Rightarrow> int \<Rightarrow> int \<Rightarrow> bool" where
  "out_of_range v lo hi = (case v of None \<Rightarrow> False | Some x \<Rightarrow> x < lo \<or> hi < x)"

definition not_one_of :: "string option \<Rightarrow> string list \<Rightarrow> bool" where
  "not_one_of v allowed = (case v of None \<Rightarrow> False | Some x \<Rightarrow> x \<notin> set allowed)"

definition validateRichTextAttrs :: "rtenv \<Rightarrow> string \<Rightarrow> RichTextAttrs \<Rightarrow> validation_error list" where
  "validateRichTextAttrs E nodeType attrs =
     (case ra_BlockID attrs of None \<Rightarrow> [] | Some b \<Rightarrow>
        (let value = trim_space b in
         if length value < 1 \<or> 128 < length value then [content_error ''contains an invalid block ID''] else [])) @
     (if out_of_range (ra_Level attrs) 1 6 then [content_error ''heading level must be between 1 and 6''] else []) @
     (case ra_Start attrs of None \<Rightarrow> [] | Some n \<Rightarrow>
        if n < 1 then [content_error ''ordered list start must be positive''] else []) @
     (case ra_AttachmentID attrs of None \<Rightarrow> [] | Some a \<Rightarrow>
        (case ValidateID (re_uuid_version E) ''content.attachmentId'' a of
           Inl e \<Rightarrow> [content_error ''contains an invalid attachment ID''] | Inr _ \<Rightarrow> [])) @
     (if (nodeType = ''image'' \<or> nodeType = ''attachment'') \<and> ra_AttachmentID attrs = None
      then [content_error ''attachment nodes require attachmentId''] else []) @
     (if not_one_of (ra_TextAlign attrs) [''left'', ''center'', ''right'', ''justify'']
      then [content_error ''contains an invalid text alignment''] else []) @
     (if not_one_of (ra_Variant attrs) [''info'', ''success'', ''warning'', ''danger'']
      then [content_error ''contains an invalid callout variant''] else []) @
     (if out_of_range (ra_Colspan attrs) 1 100 then [content_error ''table colspan is out of range''] else []) @
     (if out_of_range (ra_Rowspan attrs) 1 100 then [content_error ''table rowspan is out of range''] else [])"

primrec validateMarks :: "rtenv \<Rightarrow> RichTextMark list \<Rightarrow> validation_error list" where
  "validateMarks E [] = []"
| "validateMarks E (mark # marks) =
     (if rm_Type mark \<notin> set allowedMarkTypes
      then [content_error (''contains unsupported mark type '' @ re_quote E (rm_Type mark))]
      else if rm_Type mark = ''link'' \<and>
        \<not> (case rm_Attrs mark of None \<Rightarrow> False
             | Some a \<Rightarrow> (case ra_Href a of None \<Rightarrow> False | Some h \<Rightarrow> validateLink E h))
      then [content_error ''contains an invalid link mark'']
      else validateMarks E marks)"

fun validateRichTextNode :: "rtenv \<Rightarrow> RichTextNode option \<Rightarrow> int \<Rightarrow> int \<Rightarrow> validation_error list + int"
  and validateChildren :: "rtenv \<Rightarrow> RichTextNode option list \<Rightarrow> int \<Rightarrow> int \<Rightarrow> validation_error list + int" where
  "validateRichTextNode E None depth count = Inl [content_error ''contains a null node'']"
| "validateRichTextNode E (Some (RichTextNode ty attrs content body marks)) depth count =
     (if 64 < depth then Inl [content_error ''exceeds the maximum nesting depth'']
      else if 100000 < count + 1 then Inl [content_error ''contains too many nodes'']
      else if ty \<notin> set allowedNodeTypes
      then Inl [content_error (''contains unsupported node type '' @ re_quote E ty)]
      else if ty = ''text'' \<and> (body = None \<or> content \<noteq> [] \<or> attrs \<noteq> None)
      then Inl [content_error ''contains an invalid text node'']
      else if ty \<noteq> ''text'' \<and> body \<noteq> None
      then Inl [content_error ''non-text nodes must not contain text'']
      else if validateMarks E marks \<noteq> [] then Inl (validateMarks E marks)
      else case attrs of
        None \<Rightarrow> validateChildren E content (depth + 1) (count + 1)
      | Some a \<Rightarrow> (if validateRichTextAttrs E ty a \<noteq> [] then Inl (validateRichTextAttrs E ty a)
                    else validateChildren E content (depth + 1) (count + 1)))"
| "validateChildren E [] depth count = Inr count"
| "validateChildren E (child # rest) depth count =
     (case validateRichTextNode E child depth count of
        Inl e \<Rightarrow> Inl e
      | Inr count' \<Rightarrow> validateChildren E rest depth count')"

definition Validate :: "rtenv \<Rightarrow> RichTextDocument \<Rightarrow> validation_error list + unit" where
  "Validate E d =
     (if rd_Type d \<noteq> ''doc'' then Inl [content_error ''must be a ProseMirror doc with a content array'']
      else case rd_Content d of
        None \<Rightarrow> Inl [content_error ''must be a ProseMirror doc with a content array'']
      | Some nodes \<Rightarrow> (case validateChildren E nodes 1 0 of Inl e \<Rightarrow> Inl e | Inr _ \<Rightarrow> Inr ()))"

section \<open>What the validator accepts\<close>

text \<open>The nodes of a document in reading order, each with its nesting depth.\<close>

fun node_list :: "int \<Rightarrow> RichTextNode option \<Rightarrow> (int \<times> RichTextNode option) list"
  and children_list :: "int \<Rightarrow> RichTextNode option list \<Rightarrow> (int \<times> RichTextNode option) list" where
  "node_list d None = [(d, None)]"
| "node_list d (Some (RichTextNode ty attrs content body marks)) =
     (d, Some (RichTextNode ty attrs content body marks)) # children_list (d + 1) content"
| "children_list d [] = []"
| "children_list d (n # ns) = node_list d n @ children_list d ns"

definition node_ok :: "rtenv \<Rightarrow> RichTextNode \<Rightarrow> bool" where
  "node_ok E n \<longleftrightarrow> rn_Type n \<in> set allowedNodeTypes
     \<and> (rn_Type n = ''text'' \<longrightarrow> rn_Text n \<noteq> None \<and> rn_Content n = [] \<and> rn_Attrs n = None)
     \<and> (rn_Type n \<noteq> ''text'' \<longrightarrow> rn_Text n = None)
     \<and> validateMarks E (rn_Marks n) = []
     \<and> (\<forall>a. rn_Attrs n = Some a \<longrightarrow> validateRichTextAttrs E (rn_Type n) a = [])"

definition entry_ok :: "rtenv \<Rightarrow> int \<times> RichTextNode option \<Rightarrow> bool" where
  "entry_ok E x \<longleftrightarrow> fst x \<le> 64 \<and> (\<exists>n. snd x = Some n \<and> node_ok E n)"

lemma validateRichText_iff:
  "validateRichTextNode E n d c = Inr c' \<longleftrightarrow>
     (\<forall>x \<in> set (node_list d n). entry_ok E x) \<and> c' = c + int (length (node_list d n)) \<and> c' \<le> 100000"
  "validateChildren E ns d c = Inr c' \<longleftrightarrow>
     (\<forall>x \<in> set (children_list d ns). entry_ok E x) \<and> c' = c + int (length (children_list d ns))
     \<and> (ns = [] \<or> c' \<le> 100000)"
proof (induction E n d c and E ns d c arbitrary: c' and c' rule: validateRichTextNode_validateChildren.induct)
  case (2 E ty attrs content body marks depth count)
  have "children_list (depth + 1) [] = []" by simp
  then show ?case
    using 2 by (cases attrs) (auto simp: entry_ok_def node_ok_def)
next
  case (4 E child rest depth count)
  show ?case
  proof (cases "validateRichTextNode E child depth count")
    case (Inl e)
    then show ?thesis using "4.IH"(1) [of "count + int (length (node_list depth child))"] by auto
  next
    case (Inr m)
    then show ?thesis using "4.IH"(1) [of m] "4.IH"(2) [OF Inr, of c'] by (cases rest) auto
  qed
qed (auto simp: entry_ok_def)

section \<open>Properties\<close>

text \<open>C32: \<open>Validate\<close> accepts exactly the documents of type doc with a content array whose nodes are
  all present, nested at most 64 deep, at most 100000 in number, and each well formed by itself.\<close>

theorem Validate_iff:
  "Validate E d = Inr () \<longleftrightarrow> rd_Type d = ''doc'' \<and>
     (\<exists>nodes. rd_Content d = Some nodes \<and> (\<forall>x \<in> set (children_list 1 nodes). entry_ok E x)
        \<and> length (children_list 1 nodes) \<le> 100000)"
proof (cases "rd_Content d")
  case (Some nodes)
  have "(case validateChildren E nodes 1 0 of Inl e \<Rightarrow> Inl e | Inr _ \<Rightarrow> Inr ()) = Inr () \<longleftrightarrow>
      (\<exists>c. validateChildren E nodes 1 0 = Inr c)"
    by (cases "validateChildren E nodes 1 0") auto
  also have "\<dots> \<longleftrightarrow> (\<forall>x \<in> set (children_list 1 nodes). entry_ok E x) \<and> length (children_list 1 nodes) \<le> 100000"
    unfolding validateRichText_iff(2) by (cases nodes) auto
  finally show ?thesis using Some by (simp add: Validate_def)
qed (simp add: Validate_def)

theorem Validate_iff_witness:
  "\<forall>E. Validate E \<lparr>rd_Type = ''doc'', rd_Content = Some [Some (RichTextNode ''paragraph'' None
     [Some (RichTextNode ''text'' None [] (Some ''hi'') [])] None [])]\<rparr> = Inr ()"
  unfolding Validate_iff by (simp add: entry_ok_def node_ok_def allowedNodeTypes_def)

definition bare_image :: RichTextNode where
  "bare_image = RichTextNode ''image'' None [] None []"

text \<open>An image node without any attributes passes validation, although the validator means to
  require an attachment identifier of every image and attachment node.\<close>

theorem image_without_attachment_accepted:
  "Validate E \<lparr>rd_Type = ''doc'', rd_Content = Some [Some bare_image]\<rparr> = Inr ()"
  by (simp add: Validate_def bare_image_def allowedNodeTypes_def)

end
