(* ===== verification/KnowledgeModel.thy ===== *)
theory KnowledgeModel
  imports RichText "HOL-Library.List_Lexorder" "HOL-Library.Char_ord" "HOL-Library.Product_Lexorder"
begin

text \<open>
  The tables of the knowledge service (\<open>services/knowledge/internal/model/model.go\<close>), the row mappings of
  \<open>repository/mapping.go\<close> and the sentinel errors of \<open>repository/store.go\<close>. A table is the list of its rows;
  a \<open>jsonb\<close> column holds the JSON value itself. \<open>t_id_counter\<close> counts the identifiers drawn from the UUIDv7
  generator, and \<open>t_notifications\<close> collects the payloads handed to \<open>pg_notify\<close>.
\<close>

datatype json = JNull | JBool bool | JNum float64 | JStr string | JArr "json list" | JObj "(string \<times> json) list"

datatype kerr =
    ErrNotFound | ErrGone | ErrConflict | ErrPrecondition | ErrForbidden | ErrQuotaExceeded
  | ErrInvalid "validation_error list"
  | ErrOther string

section \<open>Rows\<close>

record document_row =
  d_ID :: string
  d_Title :: string
  d_Summary :: string
  d_Slug :: string
  d_Language :: string
  d_OwnerID :: int
  d_OwnerUsername :: string
  d_OwnerAvatar :: string
  d_PublicationStatus :: string
  d_PublicationError :: "string option"
  d_PublicationGeneration :: int
  d_PublicationHash :: string
  d_Icon :: string
  d_CoverAttachmentID :: "string option"
  d_CoverFocalX :: float64
  d_CoverFocalY :: float64
  d_MetadataRevision :: int
  d_ContentRevision :: int
  d_PermissionRevision :: int
  d_PublishedAt :: "time option"
  d_DeletedAt :: "time option"
  d_PurgeAfter :: "time option"
  d_CreatedAt :: time
  d_UpdatedAt :: time

record slug_alias_row =
  sa_Slug :: string
  sa_DocumentID :: "string option"
  sa_GoneAt :: "time option"
  sa_CreatedAt :: time

record member_row =
  m_DocumentID :: string
  m_UserID :: int
  m_Username :: string
  m_Avatar :: string
  m_Role :: string
  m_Revision :: int
  m_CreatedBy :: int
  m_CreatedAt :: time
  m_UpdatedAt :: time

record projection_row =
  p_DocumentID :: string
  p_Sequence :: int
  p_Content :: json
  p_PlainText :: string
  p_ProjectedAt :: time

record folder_row =
  f_ID :: string
  f_OwnerID :: int
  f_ParentID :: "string option"
  f_Name :: string
  f_Depth :: int
  f_Revision :: int
  f_CreatedAt :: time
  f_UpdatedAt :: time

record placement_row =
  pl_OwnerID :: int
  pl_DocumentID :: string
  pl_FolderID :: "string option"
  pl_Revision :: int
  pl_CreatedAt :: time
  pl_UpdatedAt :: time

record tag_row =
  tg_ID :: string
  tg_OwnerID :: int
  tg_Name :: string
  tg_Slug :: string
  tg_CreatedAt :: time
  tg_UpdatedAt :: time

record document_tag_row =
  dt_DocumentID :: string
  dt_TagID :: string
  dt_CreatedAt :: time

record publication_row =
  pb_DocumentID :: string
  pb_Title :: string
  pb_Summary :: string
  pb_Slug :: string
  pb_Language :: string
  pb_Tags :: "string list"
  pb_OwnerID :: int
  pb_OwnerUsername :: string
  pb_OwnerAvatar :: string
  pb_Content :: json
  pb_PlainText :: string
  pb_PublishedAt :: time
  pb_UpdatedAt :: time
  pb_PublicationHash :: string
  pb_Icon :: string
  pb_CoverAttachmentID :: "string option"
  pb_CoverFocalX :: float64
  pb_CoverFocalY :: float64

record candidate_row =
  c_DocumentID :: string
  c_Generation :: int
  c_Title :: string
  c_Summary :: string
  c_Slug :: string
  c_Language :: string
  c_Tags :: "string list"
  c_OwnerID :: int
  c_OwnerUsername :: string
  c_OwnerAvatar :: string
  c_Content :: json
  c_PlainText :: string
  c_ContentSequence :: int
  c_MediaIDs :: "string list"
  c_PublicationHash :: string
  c_Icon :: string
  c_CoverAttachmentID :: "string option"
  c_CoverFocalX :: float64
  c_CoverFocalY :: float64
  c_CreatedAt :: time
  c_UpdatedAt :: time

record commit_row =
  cm_ID :: string
  cm_DocumentID :: string
  cm_Kind :: string
  cm_Label :: string
  cm_Description :: string
  cm_ContributorID :: int
  cm_ContributorName :: string
  cm_Sequence :: int
  cm_ContentHash :: string
  cm_Content :: json
  cm_PlainText :: string
  cm_IsAnchor :: bool
  cm_CreatedAt :: time
  cm_UpdatedAt :: time

record history_row =
  h_ID :: string
  h_DocumentID :: string
  h_Kind :: string
  h_Sequence :: int
  h_MetadataRevision :: int
  h_SemanticHash :: string
  h_Content :: json
  h_PlainText :: string
  h_Metadata :: json
  h_Contributors :: json
  h_BlockDiff :: json
  h_IsAnchor :: bool
  h_CreatedAt :: time

record activity_row =
  ha_DocumentID :: string
  ha_FirstDirtyAt :: time
  ha_LastDirtyAt :: time
  ha_LastCheckpoint :: "time option"
  ha_Contributors :: json
  ha_UpdatedAt :: time

record media_ref_row =
  mr_DocumentID :: string
  mr_AttachmentID :: string
  mr_Generation :: int
  mr_CreatedAt :: time

record job_row =
  j_ID :: string
  j_DocumentID :: string
  j_OwnerID :: int
  j_Generation :: int
  j_Action :: string
  j_AttachmentIDs :: "string list"
  j_State :: string
  j_Attempts :: int
  j_NextAttemptAt :: time
  j_LeaseUntil :: "time option"
  j_ParkedAt :: "time option"
  j_LastErrorKey :: string
  j_CreatedAt :: time
  j_UpdatedAt :: time

record outbox_row =
  o_ID :: string
  o_Subject :: string
  o_Payload :: json
  o_TraceHeaders :: "(string \<times> string) list"
  o_Attempts :: int
  o_NextAttemptAt :: time
  o_LastErrorKey :: string
  o_ParkedAt :: "time option"
  o_PublishedAt :: "time option"
  o_CreatedAt :: time

record idempotency_row =
  i_ActorID :: int
  i_Operation :: string
  i_Key :: string
  i_ResourceID :: string
  i_RequestHash :: string
  i_ExpiresAt :: time
  i_CreatedAt :: time

record kdb =
  t_documents :: "document_row list"
  t_slug_aliases :: "slug_alias_row list"
  t_members :: "member_row list"
  t_projections :: "projection_row list"
  t_folders :: "folder_row list"
  t_placements :: "placement_row list"
  t_tags :: "tag_row list"
  t_document_tags :: "document_tag_row list"
  t_publications :: "publication_row list"
  t_candidates :: "candidate_row list"
  t_commits :: "commit_row list"
  t_history :: "history_row list"
  t_activity :: "activity_row list"
  t_media_refs :: "media_ref_row list"
  t_jobs :: "job_row list"
  t_outbox :: "outbox_row list"
  t_idempotency_keys :: "idempotency_row list"
  t_notifications :: "string list"
  t_id_counter :: nat

type_synonym 'a ktx = "(kdb, kerr, 'a) tx"

text \<open>
  What the repository calls outside its own code: the UUIDv7 generator, the text form of a \<open>jsonb\<close>
  value and its parser, the JSON encoder, the JSON form of a rich-text document and its decoder, the hexadecimal SHA-256 digest, lower-casing of non-ASCII
  runes, the request's trace headers, and the parameters of the rich-text validator.
\<close>

record kenv =
  ke_newID :: "nat \<Rightarrow> string"
  ke_jsonb_in :: "string \<Rightarrow> json option"
  ke_jsonb_out :: "json \<Rightarrow> string"
  ke_marshal :: "json \<Rightarrow> string"
  ke_encode_doc :: "RichTextDocument \<Rightarrow> json"
  ke_decode_doc :: "json \<Rightarrow> RichTextDocument option"
  ke_sha256 :: "string \<Rightarrow> string"
  ke_lower :: "int \<Rightarrow> int"
  ke_trace :: "(string \<times> string) list"
  ke_richtext :: rtenv

definition empty_db :: kdb where
  "empty_db = \<lparr>t_documents = [], t_slug_aliases = [], t_members = [], t_projections = [], t_folders = [],
     t_placements = [], t_tags = [], t_document_tags = [], t_publications = [], t_candidates = [],
     t_commits = [], t_history = [], t_activity = [], t_media_refs = [], t_jobs = [], t_outbox = [],
     t_idempotency_keys = [], t_notifications = [], t_id_counter = 0\<rparr>"

section \<open>Constraints of the schema\<close>

text \<open>\<open>documents_deletion_state_check\<close> and the unique index on \<open>lower(slug)\<close>.\<close>

definition deletion_check :: "document_row \<Rightarrow> bool" where
  "deletion_check d \<longleftrightarrow> (d_DeletedAt d = None \<and> d_PurgeAfter d = None) \<or>
     (d_DeletedAt d \<noteq> None \<and> d_PurgeAfter d \<noteq> None \<and> d_PublicationStatus d \<noteq> PublicationPublished)"

definition documents_check :: "kenv \<Rightarrow> document_row list \<Rightarrow> bool" where
  "documents_check E rows \<longleftrightarrow> (\<forall>d \<in> set rows. deletion_check d) \<and>
     distinct (map (\<lambda>d. to_lower (ke_lower E) (d_Slug d)) rows)"

definition alias_check :: "slug_alias_row \<Rightarrow> bool" where
  "alias_check a \<longleftrightarrow> (sa_DocumentID a \<noteq> None) = (sa_GoneAt a = None)"

definition get_document :: "string \<Rightarrow> kdb \<Rightarrow> document_row option" where
  "get_document docID db = tbl_get d_ID docID (t_documents db)"

definition get_job :: "string \<Rightarrow> kdb \<Rightarrow> job_row option" where
  "get_job jobID db = tbl_get j_ID jobID (t_jobs db)"

text \<open>An update of the document with a given identifier, which the constraints may reject.\<close>

definition put_document :: "kenv \<Rightarrow> kerr \<Rightarrow> string \<Rightarrow> (document_row \<Rightarrow> document_row) \<Rightarrow> unit ktx" where
  "put_document E err docID f db =
     (let rows = tbl_upd (\<lambda>d. d_ID d = docID) f (t_documents db) in
      if documents_check E rows then Inr ((), db\<lparr>t_documents := rows\<rparr>) else Inl err)"

definition newID :: "kenv \<Rightarrow> string ktx" where
  "newID E db = Inr (ke_newID E (t_id_counter db), db\<lparr>t_id_counter := Suc (t_id_counter db)\<rparr>)"

lemma put_document_Inr [tx_simps]:
  "put_document E err docID f db = Inr (u, db') \<longleftrightarrow>
     documents_check E (tbl_upd (\<lambda>d. d_ID d = docID) f (t_documents db))
     \<and> db' = db\<lparr>t_documents := tbl_upd (\<lambda>d. d_ID d = docID) f (t_documents db)\<rparr>"
  by (auto simp: put_document_def Let_def)

lemma put_document_Inl [tx_simps]:
  "put_document E err docID f db = Inl e \<longleftrightarrow>
     \<not> documents_check E (tbl_upd (\<lambda>d. d_ID d = docID) f (t_documents db)) \<and> e = err"
  by (auto simp: put_document_def Let_def)

lemma newID_iff [tx_simps]:
  "newID E db = Inr (i, db') \<longleftrightarrow> i = ke_newID E (t_id_counter db) \<and> db' = db\<lparr>t_id_counter := Suc (t_id_counter db)\<rparr>"
  "newID E db \<noteq> Inl e"
  by (auto simp: newID_def)

lemma documents_checkD: "documents_check E rows \<Longrightarrow> d \<in> set rows \<Longrightarrow> deletion_check d"
  by (simp add: documents_check_def)

section \<open>Mapping between rows and domain values\<close>

definition documentToModel :: "Document \<Rightarrow> document_row" where
  "documentToModel v = \<lparr>d_ID = doc_ID v, d_Title = doc_Title v, d_Summary = doc_Summary v, d_Slug = doc_Slug v,
     d_Language = doc_Language v, d_OwnerID = pu_ID (doc_Owner v), d_OwnerUsername = pu_Username (doc_Owner v),
     d_OwnerAvatar = pu_Avatar (doc_Owner v), d_PublicationStatus = doc_PublicationStatus v,
     d_PublicationError = doc_PublicationError v, d_PublicationGeneration = doc_PublicationGeneration v,
     d_PublicationHash = doc_PublicationHash v, d_Icon = doc_Icon v, d_CoverAttachmentID = doc_CoverAttachmentID v,
     d_CoverFocalX = doc_CoverFocalX v, d_CoverFocalY = doc_CoverFocalY v,
     d_MetadataRevision = doc_MetadataRevision v, d_ContentRevision = doc_ContentRevision v,
     d_PermissionRevision = doc_PermissionRevision v, d_PublishedAt = doc_PublishedAt v,
     d_DeletedAt = doc_DeletedAt v, d_PurgeAfter = doc_PurgeAfter v,
     d_CreatedAt = doc_CreatedAt v, d_UpdatedAt = doc_UpdatedAt v\<rparr>"

definition documentFromModel :: "document_row \<Rightarrow> string \<Rightarrow> projection_row option \<Rightarrow> Document" where
  "documentFromModel v access projection = \<lparr>doc_ID = d_ID v, doc_Title = d_Title v, doc_Summary = d_Summary v,
     doc_Slug = d_Slug v, doc_Language = d_Language v, doc_Tags = [], doc_FolderID = None,
     doc_Owner = \<lparr>pu_ID = d_OwnerID v, pu_Username = d_OwnerUsername v, pu_Avatar = d_OwnerAvatar v\<rparr>,
     doc_Access = access, doc_Published = (d_PublicationStatus v = PublicationPublished),
     doc_PublicationStatus = d_PublicationStatus v, doc_PublicationError = d_PublicationError v,
     doc_PublicationGeneration = d_PublicationGeneration v, doc_PublicationHash = d_PublicationHash v,
     doc_ActivePublicationHash = [], doc_Icon = d_Icon v, doc_CoverAttachmentID = d_CoverAttachmentID v,
     doc_CoverFocalX = d_CoverFocalX v, doc_CoverFocalY = d_CoverFocalY v,
     doc_MetadataRevision = d_MetadataRevision v, doc_ContentRevision = d_ContentRevision v,
     doc_PermissionRevision = d_PermissionRevision v, doc_PublishedAt = d_PublishedAt v,
     doc_DeletedAt = d_DeletedAt v, doc_PurgeAfter = d_PurgeAfter v,
     doc_ProjectedAt = (case projection of None \<Rightarrow> None
        | Some p \<Rightarrow> if p_ProjectedAt p = 0 then None else Some (p_ProjectedAt p)),
     doc_CreatedAt = d_CreatedAt v, doc_UpdatedAt = d_UpdatedAt v\<rparr>"

definition projectionFromModel :: "kenv \<Rightarrow> projection_row \<Rightarrow> Projection" where
  "projectionFromModel E v = \<lparr>pj_DocumentID = p_DocumentID v, pj_Sequence = p_Sequence v,
     pj_Content = ke_jsonb_out E (p_Content v), pj_PlainText = p_PlainText v, pj_ProjectedAt = p_ProjectedAt v\<rparr>"

definition memberFromModel :: "member_row \<Rightarrow> Member" where
  "memberFromModel v = \<lparr>mb_DocumentID = m_DocumentID v,
     mb_User = \<lparr>pu_ID = m_UserID v, pu_Username = m_Username v, pu_Avatar = m_Avatar v\<rparr>,
     mb_Role = m_Role v, mb_Revision = m_Revision v, mb_CreatedAt = m_CreatedAt v, mb_UpdatedAt = m_UpdatedAt v\<rparr>"

definition folderFromModel :: "folder_row \<Rightarrow> Folder" where
  "folderFromModel v = \<lparr>fo_ID = f_ID v, fo_ParentID = f_ParentID v, fo_Name = f_Name v, fo_Depth = f_Depth v,
     fo_Revision = f_Revision v, fo_CreatedAt = f_CreatedAt v, fo_UpdatedAt = f_UpdatedAt v\<rparr>"

lemma documentFromModel_documentToModel:
  "documentToModel (documentFromModel v access p) = v"
  by (simp add: documentToModel_def documentFromModel_def)

end
