(* ===== verification/KnowledgeOutbox.thy ===== *)
theory KnowledgeOutbox
  imports KnowledgeModel
begin

text \<open>
  Durable messages of the knowledge service: worker notifications (\<open>repository/notify.go\<close>), the permission
  outbox (\<open>repository/outbox.go\<close>) and the insertion of publication reference jobs
  (\<open>repository/publication_saga.go\<close>). The locale \<open>leased_queue\<close> is the contract the worker relies on; the
  outbox of this service is an instance of it.
\<close>

section \<open>Notifications\<close>

abbreviation WorkerWakePayloadOutbox :: string where "WorkerWakePayloadOutbox \<equiv> ''outbox''"
abbreviation WorkerWakePayloadPublication :: string where "WorkerWakePayloadPublication \<equiv> ''publication''"

definition notifyWorkers :: "string \<Rightarrow> unit ktx" where
  "notifyWorkers payload =
     tbind (tguard (payload = WorkerWakePayloadOutbox \<or> payload = WorkerWakePayloadPublication)
              (ErrOther ''notify knowledge workers: unsupported payload''))
       (\<lambda>_. twrite (t_notifications_update (\<lambda>ns. ns @ [payload])))"

section \<open>Permission events\<close>

abbreviation permissionChangedSubject :: string where
  "permissionChangedSubject \<equiv> ''knowledge.permissions.changed''"

definition header_set :: "string \<Rightarrow> string \<Rightarrow> (string \<times> string) list \<Rightarrow> (string \<times> string) list" where
  "header_set k v hs = filter (\<lambda>h. fst h \<noteq> k) hs @ [(k, v)]"

definition permissionChangedEvent :: "document_row \<Rightarrow> json" where
  "permissionChangedEvent d = JObj [(''document_id'', JStr (d_ID d)),
     (''permission_revision'', JNum (real_of_int (d_PermissionRevision d))),
     (''deleted'', JBool (d_DeletedAt d \<noteq> None))]"

definition permission_row :: "kenv \<Rightarrow> string \<Rightarrow> document_row \<Rightarrow> time \<Rightarrow> outbox_row" where
  "permission_row E msgID d now = \<lparr>o_ID = msgID, o_Subject = permissionChangedSubject,
     o_Payload = permissionChangedEvent d,
     o_TraceHeaders = header_set ''X-Causation-ID'' msgID
       (header_set ''X-Aggregate-Version'' (show_int (d_PermissionRevision d))
       (header_set ''X-Aggregate-ID'' (d_ID d)
       (header_set ''X-Schema-Version'' ''1''
       (header_set ''X-Message-Type'' permissionChangedSubject (ke_trace E))))),
     o_Attempts = 0, o_NextAttemptAt = now, o_LastErrorKey = [], o_ParkedAt = None, o_PublishedAt = None,
     o_CreatedAt = now\<rparr>"

definition enqueuePermissionChanged :: "kenv \<Rightarrow> document_row \<Rightarrow> time \<Rightarrow> unit ktx" where
  "enqueuePermissionChanged E d now =
     tbind (newID E) (\<lambda>msgID.
     tbind (tinsert t_outbox t_outbox_update o_ID (ErrOther ''enqueue permission change event'')
              (permission_row E msgID d now)) (\<lambda>_.
     notifyWorkers WorkerWakePayloadOutbox))"

section \<open>Publication reference jobs\<close>

abbreviation publicationActionPublish :: string where "publicationActionPublish \<equiv> ''publish''"
abbreviation publicationActionClear :: string where "publicationActionClear \<equiv> ''clear''"
abbreviation publicationJobPending :: string where "publicationJobPending \<equiv> ''pending''"
abbreviation publicationJobStaged :: string where "publicationJobStaged \<equiv> ''staged''"
abbreviation publicationJobPromoted :: string where "publicationJobPromoted \<equiv> ''promoted''"

definition job_key :: "job_row \<Rightarrow> string \<times> int" where
  "job_key j = (j_DocumentID j, j_Generation j)"

definition new_job :: "string \<Rightarrow> document_row \<Rightarrow> int \<Rightarrow> string \<Rightarrow> string list \<Rightarrow> time \<Rightarrow> job_row" where
  "new_job jobID d generation action attachmentIDs now = \<lparr>j_ID = jobID, j_DocumentID = d_ID d, j_OwnerID = d_OwnerID d,
     j_Generation = generation, j_Action = action, j_AttachmentIDs = attachmentIDs, j_State = publicationJobPending,
     j_Attempts = 0, j_NextAttemptAt = now, j_LeaseUntil = None, j_ParkedAt = None, j_LastErrorKey = [],
     j_CreatedAt = now, j_UpdatedAt = now\<rparr>"

text \<open>The primary key and the unique key on document and generation may both reject the row.\<close>

definition enqueuePublicationReferenceJob ::
  "kenv \<Rightarrow> document_row \<Rightarrow> int \<Rightarrow> string \<Rightarrow> string list \<Rightarrow> time \<Rightarrow> unit ktx" where
  "enqueuePublicationReferenceJob E d generation action attachmentIDs now =
     tbind (newID E) (\<lambda>jobID.
     tbind (tcheck (\<lambda>db. \<forall>j \<in> set (t_jobs db). job_key j \<noteq> (d_ID d, generation)) ErrConflict) (\<lambda>_.
     tbind (tinsert t_jobs t_jobs_update j_ID ErrConflict
              (new_job jobID d generation action attachmentIDs now)) (\<lambda>_.
     notifyWorkers WorkerWakePayloadPublication)))"

section \<open>The outbox\<close>

definition outbox_due :: "time \<Rightarrow> outbox_row \<Rightarrow> bool" where
  "outbox_due now r \<longleftrightarrow> o_PublishedAt r = None \<and> o_ParkedAt r = None \<and> o_NextAttemptAt r \<le> now"

definition outbox_message :: "kenv \<Rightarrow> outbox_row \<Rightarrow> OutboxMessage" where
  "outbox_message E r = \<lparr>om_ID = o_ID r, om_Subject = o_Subject r, om_Payload = ke_jsonb_out E (o_Payload r),
     om_Headers = o_TraceHeaders r, om_Attempts = o_Attempts r + 1\<rparr>"

definition ClaimOutbox :: "kenv \<Rightarrow> time \<Rightarrow> int \<Rightarrow> duration \<Rightarrow> kdb \<Rightarrow> (kerr + OutboxMessage list) \<times> kdb" where
  "ClaimOutbox E now limit0 lease db =
     (let limit = (if limit0 \<le> 0 then 50 else limit0);
          rows = tbl_select (outbox_due now) (\<lambda>r. (o_NextAttemptAt r, o_CreatedAt r, o_ID r)) (nat limit) (t_outbox db)
      in (Inr (map (outbox_message E) rows),
          db\<lparr>t_outbox := tbl_upd (\<lambda>r. o_ID r \<in> o_ID ` set rows)
               (\<lambda>r. r\<lparr>o_Attempts := o_Attempts r + 1, o_NextAttemptAt := now + lease\<rparr>) (t_outbox db)\<rparr>))"

definition MarkOutboxPublished :: "time \<Rightarrow> string \<Rightarrow> kdb \<Rightarrow> (kerr + unit) \<times> kdb" where
  "MarkOutboxPublished now msgID = transaction
     (tupdate1 t_outbox t_outbox_update (\<lambda>r. o_ID r = msgID \<and> o_PublishedAt r = None)
        (\<lambda>r. r\<lparr>o_PublishedAt := Some now\<rparr>) ErrNotFound)"

definition RetryOutbox :: "time \<Rightarrow> string \<Rightarrow> duration \<Rightarrow> kdb \<Rightarrow> (kerr + unit) \<times> kdb" where
  "RetryOutbox now msgID delay = transaction
     (tupdate1 t_outbox t_outbox_update (\<lambda>r. o_ID r = msgID \<and> o_PublishedAt r = None \<and> o_ParkedAt r = None)
        (\<lambda>r. r\<lparr>o_NextAttemptAt := now + delay, o_LastErrorKey := ''publish_failed''\<rparr>) ErrNotFound)"

definition ParkOutbox :: "time \<Rightarrow> string \<Rightarrow> string \<Rightarrow> kdb \<Rightarrow> (kerr + unit) \<times> kdb" where
  "ParkOutbox now msgID reason = transaction
     (tupdate1 t_outbox t_outbox_update (\<lambda>r. o_ID r = msgID \<and> o_PublishedAt r = None \<and> o_ParkedAt r = None)
        (\<lambda>r. r\<lparr>o_ParkedAt := Some now, o_LastErrorKey := reason\<rparr>) ErrNotFound)"

section \<open>Contract of a leased queue\<close>

text \<open>
  The identifiers a claim may return at a time are the due ones. Leasing, rescheduling and retiring a
  message keep it from being claimed before the lease, before the delay, and ever again.
\<close>

locale leased_queue =
  fixes due :: "time \<Rightarrow> 's \<Rightarrow> 'id set"
    and lease :: "time \<Rightarrow> int \<Rightarrow> duration \<Rightarrow> 's \<Rightarrow> 'id list \<times> 's"
    and reschedule :: "time \<Rightarrow> 'id \<Rightarrow> duration \<Rightarrow> 's \<Rightarrow> 's"
    and retire :: "time \<Rightarrow> 'id \<Rightarrow> 's \<Rightarrow> 's"
  assumes lease_due: "lease now n d s = (ids, s') \<Longrightarrow> set ids \<subseteq> due now s"
    and lease_excl: "lease now n d s = (ids, s') \<Longrightarrow> t < now + d \<Longrightarrow> due t s' \<subseteq> due t s - set ids"
    and reschedule_due: "due t (reschedule now i d s) \<subseteq> due t s \<union> {i}"
    and reschedule_delay: "t < now + d \<Longrightarrow> i \<notin> due t (reschedule now i d s)"
    and retire_due: "due t (retire now i s) \<subseteq> due t s - {i}"
begin

definition settle :: "time \<Rightarrow> 'id \<times> duration option \<Rightarrow> 's \<Rightarrow> 's" where
  "settle now o' s = (case snd o' of None \<Rightarrow> retire now (fst o') s | Some d \<Rightarrow> reschedule now (fst o') d s)"

lemma settle_due:
  assumes "t < now + d" and "\<forall>d'. snd o' = Some d' \<longrightarrow> d \<le> d'"
  shows "due t (settle now o' s) \<subseteq> due t s - {fst o'}"
proof (cases "snd o'")
  case None
  then show ?thesis using retire_due by (simp add: settle_def)
next
  case (Some d')
  then have "t < now + d'" using assms by force
  from reschedule_delay [OF this, of "fst o'" s] reschedule_due [of t now "fst o'" d' s] show ?thesis
    unfolding settle_def Some option.case by blast
qed

lemma settle_all_due:
  assumes "t < now + d" and "\<forall>o' \<in> set os. \<forall>d'. snd o' = Some d' \<longrightarrow> d \<le> d'"
  shows "due t (fold (settle now) os s) \<subseteq> due t s - fst ` set os"
  using assms(2)
proof (induction os arbitrary: s)
  case (Cons o' os)
  have "due t (fold (settle now) os (settle now o' s)) \<subseteq> due t (settle now o' s) - fst ` set os"
    using Cons by simp
  moreover have "due t (settle now o' s) \<subseteq> due t s - {fst o'}"
    by (rule settle_due [OF assms(1)]) (use Cons.prems in simp)
  ultimately show ?case by auto
qed simp

text \<open>A settled message that is retired is never claimed again, whatever is leased afterwards.\<close>

lemma retired_not_leased:
  assumes "lease t n d (retire now i s) = (ids, s')"
  shows "i \<notin> set ids"
  using lease_due [OF assms] retire_due by fastforce

end

definition outbox_due_ids :: "time \<Rightarrow> kdb \<Rightarrow> string set" where
  "outbox_due_ids now db = o_ID ` {r \<in> set (t_outbox db). outbox_due now r}"

definition outbox_wf :: "kdb \<Rightarrow> bool" where
  "outbox_wf db \<longleftrightarrow> distinct (map o_ID (t_outbox db))"

definition lease_outbox :: "kenv \<Rightarrow> time \<Rightarrow> int \<Rightarrow> duration \<Rightarrow> kdb \<Rightarrow> string list \<times> kdb" where
  "lease_outbox E now n d db = (case ClaimOutbox E now n d db of
     (Inr ms, db') \<Rightarrow> (map om_ID ms, db') | (Inl e, db') \<Rightarrow> ([], db'))"

lemma lease_outbox_eq:
  "lease_outbox E now n d db =
    (let rows = tbl_select (outbox_due now) (\<lambda>r. (o_NextAttemptAt r, o_CreatedAt r, o_ID r))
                  (nat (if n \<le> 0 then 50 else n)) (t_outbox db)
     in (map o_ID rows, db\<lparr>t_outbox := tbl_upd (\<lambda>r. o_ID r \<in> o_ID ` set rows)
               (\<lambda>r. r\<lparr>o_Attempts := o_Attempts r + 1, o_NextAttemptAt := now + d\<rparr>) (t_outbox db)\<rparr>))"
  by (simp add: lease_outbox_def ClaimOutbox_def outbox_message_def Let_def comp_def)

lemma tbl_upd_none: "\<forall>x \<in> set rows. \<not> p x \<Longrightarrow> tbl_upd p f rows = rows"
  by (simp add: tbl_upd_def map_idI)

lemma transaction_tupdate1:
  assumes "\<And>g. sel (upd g s) = g (sel s)"
  shows "sel (snd (transaction (tupdate1 sel upd p f err) s)) = tbl_upd p f (sel s)"
  using assms by (auto simp: transaction_def tupdate1_def tbl_upd_none)

lemma outbox_after [simp]:
  "t_outbox (snd (MarkOutboxPublished now i s)) =
     tbl_upd (\<lambda>r. o_ID r = i \<and> o_PublishedAt r = None) (\<lambda>r. r\<lparr>o_PublishedAt := Some now\<rparr>) (t_outbox s)"
  "t_outbox (snd (RetryOutbox now i d s)) =
     tbl_upd (\<lambda>r. o_ID r = i \<and> o_PublishedAt r = None \<and> o_ParkedAt r = None)
       (\<lambda>r. r\<lparr>o_NextAttemptAt := now + d, o_LastErrorKey := ''publish_failed''\<rparr>) (t_outbox s)"
  "t_outbox (snd (ParkOutbox now i k s)) =
     tbl_upd (\<lambda>r. o_ID r = i \<and> o_PublishedAt r = None \<and> o_ParkedAt r = None)
       (\<lambda>r. r\<lparr>o_ParkedAt := Some now, o_LastErrorKey := k\<rparr>) (t_outbox s)"
  by (simp_all add: MarkOutboxPublished_def RetryOutbox_def ParkOutbox_def transaction_tupdate1)

interpretation kout: leased_queue outbox_due_ids "lease_outbox E" "\<lambda>now i d s. snd (RetryOutbox now i d s)"
    "\<lambda>now i s. snd (MarkOutboxPublished now i s)"
proof
  fix now n d s ids s' t
  assume l: "lease_outbox E now n d s = (ids, s')"
  then show "set ids \<subseteq> outbox_due_ids now s"
    by (auto simp: lease_outbox_eq Let_def outbox_due_ids_def dest!: tbl_select_in)
  show "outbox_due_ids t s' \<subseteq> outbox_due_ids t s - set ids" if "t < now + d"
    using l that
    by (auto simp: lease_outbox_eq Let_def outbox_due_ids_def outbox_due_def elim!: in_tbl_updE)
next
  fix t now i d s
  show "outbox_due_ids t (snd (RetryOutbox now i d s)) \<subseteq> outbox_due_ids t s \<union> {i}"
    by (auto simp: outbox_due_ids_def outbox_due_def elim!: in_tbl_updE)
  have "\<not> outbox_due t r" if d: "t < now + d" and r: "r \<in> set (t_outbox (snd (RetryOutbox now i d s)))" and i: "o_ID r = i" for r
    using r unfolding outbox_after
  proof (cases rule: in_tbl_updE)
    case (hit x)
    then show ?thesis using d by (simp add: outbox_due_def)
  next
    case miss
    then show ?thesis using i by (auto simp: outbox_due_def)
  qed
  then show "i \<notin> outbox_due_ids t (snd (RetryOutbox now i d s))" if "t < now + d"
    unfolding outbox_due_ids_def using that by blast
  show "outbox_due_ids t (snd (MarkOutboxPublished now i s)) \<subseteq> outbox_due_ids t s - {i}"
    by (auto simp: outbox_due_ids_def outbox_due_def elim!: in_tbl_updE)
qed

section \<open>Framing\<close>

lemma notifyWorkers_iff [tx_simps]:
  "notifyWorkers p db = Inr (u, db') \<longleftrightarrow>
     (p = ''outbox'' \<or> p = ''publication'') \<and> db' = db\<lparr>t_notifications := t_notifications db @ [p]\<rparr>"
  by (auto simp: notifyWorkers_def tx_simps)

lemma enqueuePermissionChanged_iff [tx_simps]:
  "enqueuePermissionChanged E d now db = Inr (u, db') \<longleftrightarrow>
     (\<forall>r \<in> set (t_outbox db). o_ID r \<noteq> ke_newID E (t_id_counter db))
     \<and> db' = db\<lparr>t_id_counter := Suc (t_id_counter db),
                t_outbox := t_outbox db @ [permission_row E (ke_newID E (t_id_counter db)) d now],
                t_notifications := t_notifications db @ [''outbox'']\<rparr>"
  by (auto simp: enqueuePermissionChanged_def tx_simps permission_row_def)

lemma enqueuePublicationReferenceJob_iff [tx_simps]:
  "enqueuePublicationReferenceJob E d g action ids now db = Inr (u, db') \<longleftrightarrow>
     (\<forall>j \<in> set (t_jobs db). job_key j \<noteq> (d_ID d, g)) \<and> (\<forall>j \<in> set (t_jobs db). j_ID j \<noteq> ke_newID E (t_id_counter db))
     \<and> db' = db\<lparr>t_id_counter := Suc (t_id_counter db),
                t_jobs := t_jobs db @ [new_job (ke_newID E (t_id_counter db)) d g action ids now],
                t_notifications := t_notifications db @ [''publication'']\<rparr>"
  by (auto simp: enqueuePublicationReferenceJob_def tx_simps new_job_def)

end
