(* ===== verification/PublicationHash.thy ===== *)
theory PublicationHash
  imports KnowledgeModel
begin

text \<open>
  The canonical publication hash of legacy snapshots
  (\<open>services/knowledge/internal/repository/publication_hash.go\<close>). Objects are encoded with sorted keys by the
  JSON codec, so the order of the keys below is immaterial to the bytes it produces.
\<close>

fun stripHistoryBlockIDs :: "json \<Rightarrow> json" where
  "stripHistoryBlockIDs (JArr xs) = JArr (map stripHistoryBlockIDs xs)"
| "stripHistoryBlockIDs (JObj kvs) =
     JObj (map (\<lambda>kv. (fst kv, stripHistoryBlockIDs (snd kv)))
       (filter (\<lambda>kv. fst kv \<noteq> ''blockId'' \<and> fst kv \<noteq> ''block_id'') kvs))"
| "stripHistoryBlockIDs JNull = JNull"
| "stripHistoryBlockIDs (JBool b) = JBool b"
| "stripHistoryBlockIDs (JNum n) = JNum n"
| "stripHistoryBlockIDs (JStr s) = JStr s"

definition first_line_summary :: "string list \<Rightarrow> string" where
  "first_line_summary ls = (case filter (\<lambda>v. v \<noteq> []) (map trim_space ls) of
       [] \<Rightarrow> []
     | v # _ \<Rightarrow> if 1000 < rune_count v then concat (map (\<lambda>x. encode_rune (fst x)) (take 1000 (runes v))) else v)"

definition publicationSummary :: "string \<Rightarrow> string \<Rightarrow> string" where
  "publicationSummary summary plainText =
     (if trim_space summary \<noteq> [] then trim_space summary
      else first_line_summary (split_with (\<lambda>c. byte c = 10) plainText))"

definition publicationHashForSnapshot :: "kenv \<Rightarrow> publication_row \<Rightarrow> string" where
  "publicationHashForSnapshot E s =
     (let content = stripHistoryBlockIDs (pb_Content s);
          contentHash = ke_sha256 E (ke_marshal E (JArr [content, JStr (pb_PlainText s)]));
          cover = (case pb_CoverAttachmentID s of None \<Rightarrow> [] | Some c \<Rightarrow> c)
      in ke_sha256 E (ke_marshal E (JObj [
           (''title'', JStr (pb_Title s)),
           (''summary'', JStr (publicationSummary (pb_Summary s) (pb_PlainText s))),
           (''slug'', JStr (pb_Slug s)),
           (''language'', JStr (pb_Language s)),
           (''tags'', JArr (map JStr (pb_Tags s))),
           (''content_hash'', JStr contentHash),
           (''icon'', JStr (pb_Icon s)),
           (''cover_attachment_id'', JStr cover),
           (''cover_focal_x'', JNum (pb_CoverFocalX s)),
           (''cover_focal_y'', JNum (pb_CoverFocalY s))])))"

section \<open>Block identifiers do not take part in the hash\<close>

fun has_block_id :: "json \<Rightarrow> bool" where
  "has_block_id (JArr xs) = list_ex has_block_id xs"
| "has_block_id (JObj kvs) = list_ex (\<lambda>kv. fst kv = ''blockId'' \<or> fst kv = ''block_id'' \<or> has_block_id (snd kv)) kvs"
| "has_block_id _ = False"

lemma strip_no_block_id: "\<not> has_block_id (stripHistoryBlockIDs j)"
  by (induction j rule: stripHistoryBlockIDs.induct) (auto simp: list_ex_iff)

lemma strip_fix: "\<not> has_block_id j \<Longrightarrow> stripHistoryBlockIDs j = j"
proof (induction j rule: stripHistoryBlockIDs.induct)
  case (1 xs)
  then show ?case by (auto simp: list_ex_iff intro: map_idI)
next
  case (2 kvs)
  have "filter (\<lambda>kv. fst kv \<noteq> ''blockId'' \<and> fst kv \<noteq> ''block_id'') kvs = kvs"
    using 2 by (auto simp: list_ex_iff filter_id_conv)
  moreover have "map (\<lambda>kv. (fst kv, stripHistoryBlockIDs (snd kv))) kvs = kvs"
    using 2 by (intro map_idI) (force simp: list_ex_iff)
  ultimately show ?case by simp
qed auto

text \<open>Stripping removes the block identifiers at every depth, and it leaves a value as it is exactly
  when the value has none.\<close>

theorem stripHistoryBlockIDs_spec:
  "\<not> has_block_id (stripHistoryBlockIDs j) \<and> (stripHistoryBlockIDs j = j \<longleftrightarrow> \<not> has_block_id j)"
  using strip_no_block_id strip_fix by metis

end
