(* ===== verification/KnowledgeStore.thy ===== *)
theory KnowledgeStore
  imports KnowledgeOutbox PublicationHash
begin

text \<open>
  Documents of the knowledge service: idempotency keys (\<open>repository/idempotency.go\<close>), access control,
  creation, lookup, listing, update, deletion and restoration (\<open>repository/store.go\<close>), permanent deletion
  (\<open>repository/permanent_delete.go\<close>, \<open>repository/purge.go\<close>). Each operation runs in one transaction; the time it
  reads from the store's clock is the argument \<open>now\<close>. Deleting a document removes the rows the
  foreign keys of the schema cascade to.
\<close>

section \<open>Idempotency keys\<close>

record Idempotency =
  idm_ActorID :: int
  idm_Operation :: string
  idm_Key :: string
  idm_RequestHash :: string

definition i_key :: "idempotency_row \<Rightarrow> int \<times> string \<times> string" where
  "i_key r = (i_ActorID r, i_Operation r, i_Key r)"

definition idm_key :: "Idempotency \<Rightarrow> int \<times> string \<times> string" where
  "idm_key v = (idm_ActorID v, idm_Operation v, idm_Key v)"

definition idempotentResource :: "time \<Rightarrow> Idempotency \<Rightarrow> string option ktx" where
  "idempotentResource now v db =
     (if idm_Key v = [] then Inr (None, db)
      else case tbl_get i_key (idm_key v) (t_idempotency_keys db) of
        None \<Rightarrow> Inr (None, db)
      | Some r \<Rightarrow>
          if \<not> now < i_ExpiresAt r
          then Inr (None, db\<lparr>t_idempotency_keys := tbl_del (\<lambda>x. i_key x = i_key r) (t_idempotency_keys db)\<rparr>)
          else if i_RequestHash r \<noteq> idm_RequestHash v then Inl ErrConflict
          else Inr (Some (i_ResourceID r), db))"

definition saveIdempotency :: "time \<Rightarrow> Idempotency \<Rightarrow> string \<Rightarrow> unit ktx" where
  "saveIdempotency now v resourceID =
     (if idm_Key v = [] then tret ()
      else tinsert t_idempotency_keys t_idempotency_keys_update i_key ErrConflict
        \<lparr>i_ActorID = idm_ActorID v, i_Operation = idm_Operation v, i_Key = idm_Key v, i_ResourceID = resourceID,
         i_RequestHash = idm_RequestHash v, i_ExpiresAt = now + 24 * hour, i_CreatedAt = now\<rparr>)"

section \<open>Access\<close>

definition m_key :: "member_row \<Rightarrow> string \<times> int" where
  "m_key m = (m_DocumentID m, m_UserID m)"

definition accessFor :: "document_row \<Rightarrow> int \<Rightarrow> kdb \<Rightarrow> string" where
  "accessFor d actorID db =
     (if actorID \<le> 0 then AccessNone
      else if d_OwnerID d = actorID then AccessOwner
      else case tbl_get m_key (d_ID d, actorID) (t_members db) of None \<Rightarrow> AccessNone | Some m \<Rightarrow> m_Role m)"

definition find_document :: "string \<Rightarrow> bool \<Rightarrow> kdb \<Rightarrow> document_row option" where
  "find_document docID includeDeleted db =
     (case get_document docID db of None \<Rightarrow> None
      | Some d \<Rightarrow> if \<not> includeDeleted \<and> d_DeletedAt d \<noteq> None then None else Some d)"

definition lockDocument :: "string \<Rightarrow> int \<Rightarrow> bool \<Rightarrow> (document_row \<times> string) ktx" where
  "lockDocument docID actorID includeDeleted =
     tbind (tsome (find_document docID includeDeleted) ErrNotFound) (\<lambda>d.
     tread (\<lambda>db. (d, accessFor d actorID db)))"

definition getProjection :: "string \<Rightarrow> projection_row ktx" where
  "getProjection docID = tsome (\<lambda>db. tbl_get p_DocumentID docID (t_projections db)) ErrNotFound"

definition GetProjection :: "kenv \<Rightarrow> string \<Rightarrow> kdb \<Rightarrow> kerr + Projection" where
  "GetProjection E docID db = (case getProjection docID db of
     Inl e \<Rightarrow> Inl e | Inr (p, _) \<Rightarrow> Inr (projectionFromModel E p))"

section \<open>Tags and placement\<close>

definition pl_key :: "placement_row \<Rightarrow> int \<times> string" where
  "pl_key p = (pl_OwnerID p, pl_DocumentID p)"

definition document_tag_names :: "string \<Rightarrow> kdb \<Rightarrow> string list" where
  "document_tag_names docID db = sort (map tg_Name
     (filter (\<lambda>t. \<exists>x \<in> set (t_document_tags db). dt_DocumentID x = docID \<and> dt_TagID x = tg_ID t) (t_tags db)))"

definition loadDocumentStructure :: "kdb \<Rightarrow> Document \<Rightarrow> Document" where
  "loadDocumentStructure db d =
     (let d1 = (case tbl_get pl_key (pu_ID (doc_Owner d), doc_ID d) (t_placements db) of
                  None \<Rightarrow> d | Some p \<Rightarrow> d\<lparr>doc_FolderID := pl_FolderID p\<rparr>)
      in d1\<lparr>doc_Tags := document_tag_names (doc_ID d) db\<rparr>)"

definition tag_slug :: "kenv \<Rightarrow> string \<Rightarrow> string" where
  "tag_slug E name = to_lower (ke_lower E) (join ''-'' (str_fields (trim_space name)))"

definition ensure_tag :: "kenv \<Rightarrow> int \<Rightarrow> string \<Rightarrow> time \<Rightarrow> string ktx" where
  "ensure_tag E ownerID name now db =
     (case find (\<lambda>t. tg_OwnerID t = ownerID \<and> tg_Slug t = tag_slug E name) (t_tags db) of
        Some t \<Rightarrow> Inr (tg_ID t, db)
      | None \<Rightarrow> tbind (newID E) (\<lambda>tagID.
          tbind (tinsert t_tags t_tags_update tg_ID ErrConflict
            \<lparr>tg_ID = tagID, tg_OwnerID = ownerID, tg_Name = name, tg_Slug = tag_slug E name,
             tg_CreatedAt = now, tg_UpdatedAt = now\<rparr>) (\<lambda>_. tret tagID)) db)"

definition dt_key :: "document_tag_row \<Rightarrow> string \<times> string" where
  "dt_key x = (dt_DocumentID x, dt_TagID x)"

definition replaceDocumentTags :: "kenv \<Rightarrow> int \<Rightarrow> string \<Rightarrow> string list \<Rightarrow> time \<Rightarrow> unit ktx" where
  "replaceDocumentTags E ownerID docID tags now =
     tbind (twrite (t_document_tags_update (tbl_del (\<lambda>x. dt_DocumentID x = docID)))) (\<lambda>_.
     titer (\<lambda>name.
       tbind (ensure_tag E ownerID name now) (\<lambda>tagID.
       tinsert t_document_tags t_document_tags_update dt_key ErrConflict
         \<lparr>dt_DocumentID = docID, dt_TagID = tagID, dt_CreatedAt = now\<rparr>)) tags)"

section \<open>Creating and reading documents\<close>

definition initial_content :: json where
  "initial_content = JObj [(''type'', JStr ''doc''),
     (''content'', JArr [JObj [(''type'', JStr ''paragraph'')]])]"

definition get_publication :: "string \<Rightarrow> kdb \<Rightarrow> publication_row option" where
  "get_publication docID db = tbl_get pb_DocumentID docID (t_publications db)"

definition getDocument :: "kenv \<Rightarrow> string \<Rightarrow> int \<Rightarrow> bool \<Rightarrow> Document ktx" where
  "getDocument E docID actorID includeDeleted =
     tbind (tsome (find_document docID includeDeleted) ErrNotFound) (\<lambda>d0.
     tbind (tread (accessFor d0 actorID)) (\<lambda>access.
     tbind (tread (\<lambda>db. if d_PublicationStatus d0 = PublicationPublished \<and> d_PublicationHash d0 = []
                         then (case get_publication docID db of None \<Rightarrow> d0
                               | Some p \<Rightarrow> d0\<lparr>d_PublicationHash := publicationHashForSnapshot E p\<rparr>)
                         else d0)) (\<lambda>d.
     tbind (getProjection docID) (\<lambda>p.
     tread (\<lambda>db. loadDocumentStructure db
       ((documentFromModel d access (Some p))\<lparr>doc_ActivePublicationHash :=
          (case get_publication docID db of None \<Rightarrow> [] | Some pb \<Rightarrow> pb_PublicationHash pb)\<rparr>))))))"

definition GetDocument :: "kenv \<Rightarrow> string \<Rightarrow> int \<Rightarrow> bool \<Rightarrow> kdb \<Rightarrow> kerr + Document" where
  "GetDocument E docID actorID includeDeleted db =
     (case getDocument E docID actorID includeDeleted db of Inl e \<Rightarrow> Inl e | Inr (d, _) \<Rightarrow> Inr d)"

definition insert_document :: "kenv \<Rightarrow> document_row \<Rightarrow> unit ktx" where
  "insert_document E r =
     tbind (tcheck (\<lambda>db. documents_check E (t_documents db @ [r])) ErrConflict) (\<lambda>_.
     tinsert t_documents t_documents_update d_ID ErrConflict r)"

definition insert_alias :: "kenv \<Rightarrow> string \<Rightarrow> string \<Rightarrow> time \<Rightarrow> unit ktx" where
  "insert_alias E slug docID now =
     tinsert t_slug_aliases t_slug_aliases_update (\<lambda>a. to_lower (ke_lower E) (sa_Slug a)) ErrConflict
       \<lparr>sa_Slug = slug, sa_DocumentID = Some docID, sa_GoneAt = None, sa_CreatedAt = now\<rparr>"

definition CreateDocument :: "kenv \<Rightarrow> time \<Rightarrow> Document \<Rightarrow> Idempotency \<Rightarrow> kdb \<Rightarrow> (kerr + Document) \<times> kdb" where
  "CreateDocument E now document idempotency = transaction (
     (let record = documentToModel document;
          projection = \<lparr>p_DocumentID = d_ID record, p_Sequence = 0, p_Content = initial_content,
                        p_PlainText = [], p_ProjectedAt = d_CreatedAt record\<rparr>
      in tbind (idempotentResource now idempotency) (\<lambda>existing.
         case existing of
           Some existingID \<Rightarrow> getDocument E existingID (idm_ActorID idempotency) False
         | None \<Rightarrow>
             tbind (insert_document E record) (\<lambda>_.
             tbind (insert_alias E (d_Slug record) (d_ID record) (d_CreatedAt record)) (\<lambda>_.
             tbind (tinsert t_projections t_projections_update p_DocumentID
                      (ErrOther ''insert initial document projection'') projection) (\<lambda>_.
             tbind (saveIdempotency now idempotency (d_ID record)) (\<lambda>_.
             tret (documentFromModel record AccessOwner (Some projection)))))))))"

section \<open>Published documents\<close>

definition purge_due :: "time \<Rightarrow> document_row \<Rightarrow> bool" where
  "purge_due now d = (case d_PurgeAfter d of None \<Rightarrow> False | Some t \<Rightarrow> \<not> now < t)"

definition lower_eq :: "kenv \<Rightarrow> string \<Rightarrow> string \<Rightarrow> bool" where
  "lower_eq E a b \<longleftrightarrow> to_lower (ke_lower E) a = to_lower (ke_lower E) b"

definition publishedSnapshot ::
  "kenv \<Rightarrow> publication_row \<Rightarrow> string \<Rightarrow> int \<Rightarrow> kdb \<Rightarrow> kerr + Document \<times> Projection \<times> bool" where
  "publishedSnapshot E pb requestedSlug actorID db =
     (case get_document (pb_DocumentID pb) db of
        None \<Rightarrow> Inl ErrNotFound
      | Some d \<Rightarrow>
          if d_DeletedAt d \<noteq> None \<or> d_PublicationStatus d \<noteq> PublicationPublished then Inl ErrNotFound
          else let p = \<lparr>p_DocumentID = pb_DocumentID pb, p_Sequence = 0, p_Content = pb_Content pb,
                        p_PlainText = pb_PlainText pb, p_ProjectedAt = pb_UpdatedAt pb\<rparr>;
                   doc = (documentFromModel d (accessFor d actorID db) (Some p))
                     \<lparr>doc_Title := pb_Title pb, doc_Summary := pb_Summary pb, doc_Slug := pb_Slug pb,
                      doc_Language := pb_Language pb, doc_PublishedAt := Some (pb_PublishedAt pb),
                      doc_Published := True, doc_Tags := pb_Tags pb,
                      doc_PublicationHash := (if pb_PublicationHash pb = [] then publicationHashForSnapshot E pb
                                              else pb_PublicationHash pb),
                      doc_Icon := pb_Icon pb, doc_CoverAttachmentID := pb_CoverAttachmentID pb,
                      doc_CoverFocalX := pb_CoverFocalX pb, doc_CoverFocalY := pb_CoverFocalY pb\<rparr>
               in Inr (doc, projectionFromModel E p, \<not> lower_eq E (pb_Slug pb) requestedSlug))"

definition GetPublishedDocument ::
  "kenv \<Rightarrow> time \<Rightarrow> string \<Rightarrow> int \<Rightarrow> kdb \<Rightarrow> kerr + Document \<times> Projection \<times> bool" where
  "GetPublishedDocument E now slug actorID db =
     (case find (\<lambda>pb. lower_eq E (pb_Slug pb) slug) (t_publications db) of
        Some pb \<Rightarrow> publishedSnapshot E pb slug actorID db
      | None \<Rightarrow>
          case find (\<lambda>a. lower_eq E (sa_Slug a) slug) (t_slug_aliases db) of
            None \<Rightarrow> Inl ErrNotFound
          | Some a \<Rightarrow>
              case sa_DocumentID a of
                None \<Rightarrow> Inl ErrNotFound
              | Some docID \<Rightarrow>
                  case get_document docID db of
                    None \<Rightarrow> Inl ErrNotFound
                  | Some d \<Rightarrow>
                      if d_DeletedAt d \<noteq> None \<or> purge_due now d then Inl ErrGone
                      else if d_PublicationStatus d \<noteq> PublicationPublished then Inl ErrNotFound
                      else case get_publication docID db of
                             Some pb \<Rightarrow> publishedSnapshot E pb slug actorID db
                           | None \<Rightarrow> Inl ErrNotFound)"

section \<open>Listing documents\<close>

record ListOptions =
  lo_ActorID :: int
  lo_Query :: string
  lo_Cursor :: "(time \<times> string) option"
  lo_Limit :: int
  lo_Access :: string
  lo_Publication :: string
  lo_FolderID :: string
  lo_Published :: bool
  lo_Deleted :: bool

text \<open>\<open>ILIKE '%q%'\<close> with the query's own wildcards escaped: the text contains the trimmed query, ignoring case.\<close>

fun has_infix :: "string \<Rightarrow> string \<Rightarrow> bool" where
  "has_infix needle [] = (needle = [])"
| "has_infix needle (c # cs) = (take (length needle) (c # cs) = needle \<or> has_infix needle cs)"

definition ilike :: "kenv \<Rightarrow> string \<Rightarrow> string \<Rightarrow> bool" where
  "ilike E q t = has_infix (to_lower (ke_lower E) (trim_space q)) (to_lower (ke_lower E) t)"

definition list_access :: "ListOptions \<Rightarrow> kdb \<Rightarrow> document_row \<Rightarrow> string" where
  "list_access opt db d = (if d_OwnerID d = lo_ActorID opt then AccessOwner
     else case tbl_get m_key (d_ID d, lo_ActorID opt) (t_members db) of None \<Rightarrow> AccessNone | Some m \<Rightarrow> m_Role m)"

definition is_member :: "int \<Rightarrow> kdb \<Rightarrow> document_row \<Rightarrow> bool" where
  "is_member actorID db d \<longleftrightarrow> tbl_get m_key (d_ID d, actorID) (t_members db) \<noteq> None"

definition list_order :: "ListOptions \<Rightarrow> document_row \<Rightarrow> time option" where
  "list_order opt d = (if lo_Published opt then d_PublishedAt d else if lo_Deleted opt then d_DeletedAt d
     else Some (d_UpdatedAt d))"

definition list_condition :: "kenv \<Rightarrow> time \<Rightarrow> ListOptions \<Rightarrow> kdb \<Rightarrow> document_row \<Rightarrow> bool" where
  "list_condition E now opt db d \<longleftrightarrow>
     (lo_Query opt \<noteq> [] \<longrightarrow> ilike E (lo_Query opt) (d_Title d) \<or> ilike E (lo_Query opt) (d_Summary d) \<or>
        (case tbl_get p_DocumentID (d_ID d) (t_projections db) of None \<Rightarrow> False
         | Some p \<Rightarrow> ilike E (lo_Query opt) (p_PlainText p))) \<and>
     (if lo_Published opt then get_publication (d_ID d) db \<noteq> None \<and> d_PublicationStatus d = PublicationPublished
        \<and> d_DeletedAt d = None
      else if lo_Deleted opt then d_DeletedAt d \<noteq> None \<and> d_OwnerID d = lo_ActorID opt \<and> \<not> purge_due now d
      else d_DeletedAt d = None \<and> (d_OwnerID d = lo_ActorID opt \<or> is_member (lo_ActorID opt) db d)) \<and>
     (lo_Access opt = AccessOwner \<longrightarrow> d_OwnerID d = lo_ActorID opt) \<and>
     (lo_Access opt = ''shared'' \<longrightarrow> is_member (lo_ActorID opt) db d) \<and>
     (lo_Publication opt = ''published'' \<longrightarrow> d_PublicationStatus d = PublicationPublished) \<and>
     (lo_Publication opt = ''draft'' \<longrightarrow> d_PublicationStatus d \<noteq> PublicationPublished) \<and>
     (lo_FolderID opt \<noteq> [] \<longrightarrow>
        (case tbl_get pl_key (d_OwnerID d, d_ID d) (t_placements db) of None \<Rightarrow> False
         | Some p \<Rightarrow> pl_FolderID p = Some (lo_FolderID opt))) \<and>
     (case lo_Cursor opt of None \<Rightarrow> True
      | Some (t, i) \<Rightarrow> (case list_order opt d of None \<Rightarrow> False | Some u \<Rightarrow> (u, d_ID d) < (t, i)))"

text \<open>\<open>ORDER BY column DESC, id DESC LIMIT limit + 1\<close>; PostgreSQL puts null values first in descending order.\<close>

definition list_rank :: "ListOptions \<Rightarrow> document_row \<Rightarrow> int \<times> time \<times> string" where
  "list_rank opt d = (case list_order opt d of None \<Rightarrow> (1, 0, d_ID d) | Some t \<Rightarrow> (0, t, d_ID d))"

definition buildListDocumentsQuery :: "kenv \<Rightarrow> time \<Rightarrow> ListOptions \<Rightarrow> int \<Rightarrow> kdb \<Rightarrow> document_row list" where
  "buildListDocumentsQuery E now opt limit db =
     take (nat (limit + 1)) (rev (sort_key (list_rank opt) (filter (list_condition E now opt db) (t_documents db))))"

definition list_document :: "kenv \<Rightarrow> ListOptions \<Rightarrow> kdb \<Rightarrow> document_row \<Rightarrow> Document" where
  "list_document E opt db d =
     (let p = \<lparr>p_DocumentID = d_ID d, p_Sequence = d_ContentRevision d, p_Content = JNull, p_PlainText = [],
              p_ProjectedAt = (case tbl_get p_DocumentID (d_ID d) (t_projections db) of
                                 None \<Rightarrow> 0 | Some q \<Rightarrow> p_ProjectedAt q)\<rparr>;
          doc = documentFromModel d (list_access opt db d) (Some p)
      in if lo_Published opt then
           (case get_publication (d_ID d) db of
              None \<Rightarrow> doc\<lparr>doc_Tags := [], doc_CoverAttachmentID := None\<rparr>
            | Some pb \<Rightarrow> doc\<lparr>doc_Title := pb_Title pb, doc_Summary := pb_Summary pb, doc_Slug := pb_Slug pb,
                doc_Language := pb_Language pb, doc_Tags := pb_Tags pb,
                doc_PublicationHash := (if pb_PublicationHash pb = [] then publicationHashForSnapshot E pb
                                        else pb_PublicationHash pb),
                doc_Icon := pb_Icon pb, doc_CoverAttachmentID := pb_CoverAttachmentID pb,
                doc_CoverFocalX := pb_CoverFocalX pb, doc_CoverFocalY := pb_CoverFocalY pb\<rparr>)
         else doc)"

definition ListDocuments :: "kenv \<Rightarrow> time \<Rightarrow> ListOptions \<Rightarrow> kdb \<Rightarrow> Document list" where
  "ListDocuments E now opt db =
     (let limit = (if lo_Limit opt \<le> 0 then 20 else lo_Limit opt)
      in map (list_document E opt db) (buildListDocumentsQuery E now opt limit db))"

section \<open>Updating documents\<close>

record document_patch =
  up_Title :: "string option"
  up_Summary :: "string option"
  up_Slug :: "string option"
  up_Language :: "string option"
  up_Tags :: "string list option"
  up_FolderID :: "string option"
  up_Icon :: "string option"
  up_CoverAttachmentID :: "string option"
  up_CoverFocalX :: "float64 option"
  up_CoverFocalY :: "float64 option"

definition or_keep :: "'a option \<Rightarrow> 'a \<Rightarrow> 'a" where
  "or_keep new old = (case new of None \<Rightarrow> old | Some x \<Rightarrow> x)"

definition apply_patch :: "document_patch \<Rightarrow> time \<Rightarrow> document_row \<Rightarrow> document_row" where
  "apply_patch u now d = d\<lparr>
     d_Title := or_keep (up_Title u) (d_Title d),
     d_Summary := or_keep (up_Summary u) (d_Summary d),
     d_Slug := or_keep (up_Slug u) (d_Slug d),
     d_Language := or_keep (up_Language u) (d_Language d),
     d_Icon := or_keep (up_Icon u) (d_Icon d),
     d_CoverAttachmentID := (case up_CoverAttachmentID u of None \<Rightarrow> d_CoverAttachmentID d
                             | Some a \<Rightarrow> if a = [] then None else Some a),
     d_CoverFocalX := or_keep (up_CoverFocalX u) (d_CoverFocalX d),
     d_CoverFocalY := or_keep (up_CoverFocalY u) (d_CoverFocalY d),
     d_MetadataRevision := d_MetadataRevision d + 1,
     d_UpdatedAt := now\<rparr>"

definition reserve_slug :: "kenv \<Rightarrow> time \<Rightarrow> string \<Rightarrow> string \<Rightarrow> string option \<Rightarrow> unit ktx" where
  "reserve_slug E now docID oldSlug slug =
     (case slug of
        None \<Rightarrow> tret ()
      | Some s \<Rightarrow> if s = oldSlug then tret ()
          else tbind (tread (\<lambda>db. tbl_get sa_Slug s (t_slug_aliases db))) (\<lambda>a.
            case a of
              None \<Rightarrow> insert_alias E s docID now
            | Some a \<Rightarrow> (case sa_DocumentID a of
                 None \<Rightarrow> tret ()
               | Some other \<Rightarrow> tguard (other = docID) ErrConflict)))"

definition place_document :: "time \<Rightarrow> int \<Rightarrow> string \<Rightarrow> string option \<Rightarrow> unit ktx" where
  "place_document now ownerID docID folderID =
     (case folderID of
        None \<Rightarrow> tret ()
      | Some f \<Rightarrow>
          if f = [] then twrite (t_placements_update (tbl_del (\<lambda>p. pl_key p = (ownerID, docID))))
          else tbind (tsome (\<lambda>db. find (\<lambda>x. f_ID x = f \<and> f_OwnerID x = ownerID) (t_folders db)) ErrNotFound) (\<lambda>_.
            tbind (tread (\<lambda>db. tbl_get pl_key (ownerID, docID) (t_placements db))) (\<lambda>existing.
            case existing of
              Some _ \<Rightarrow> twrite (t_placements_update (tbl_upd (\<lambda>p. pl_key p = (ownerID, docID))
                 (\<lambda>p. p\<lparr>pl_FolderID := Some f, pl_UpdatedAt := now, pl_Revision := pl_Revision p + 1\<rparr>)))
            | None \<Rightarrow> twrite (t_placements_update (\<lambda>ps. ps @ [\<lparr>pl_OwnerID = ownerID, pl_DocumentID = docID,
                 pl_FolderID = Some f, pl_Revision = 1, pl_CreatedAt = now, pl_UpdatedAt = now\<rparr>])))))"

definition UpdateDocument ::
  "kenv \<Rightarrow> time \<Rightarrow> string \<Rightarrow> int \<Rightarrow> int \<Rightarrow> document_patch \<Rightarrow> kdb \<Rightarrow> (kerr + Document) \<times> kdb" where
  "UpdateDocument E now docID actorID expected u = transaction (
     tbind (lockDocument docID actorID False) (\<lambda>(record, access).
     tbind (tguard (CanEdit access) ErrForbidden) (\<lambda>_.
     tbind (tguard (d_MetadataRevision record = expected) ErrPrecondition) (\<lambda>_.
     tbind (reserve_slug E now docID (d_Slug record) (up_Slug u)) (\<lambda>_.
     tbind (place_document now (d_OwnerID record) docID (up_FolderID u)) (\<lambda>_.
     tbind (put_document E ErrConflict docID (apply_patch u now)) (\<lambda>_.
     tbind (tsome (get_document docID) (ErrOther ''reload updated document'')) (\<lambda>record'.
     tbind (case up_Tags u of None \<Rightarrow> tret ()
            | Some tags \<Rightarrow> replaceDocumentTags E (d_OwnerID record') docID tags now) (\<lambda>_.
     tbind (getProjection docID) (\<lambda>projection.
     tret ((documentFromModel record' access (Some projection))
       \<lparr>doc_Tags := (case up_Tags u of None \<Rightarrow> [] | Some tags \<Rightarrow> tags),
        doc_FolderID := (case up_FolderID u of None \<Rightarrow> None | Some f \<Rightarrow> if f = [] then None else Some f)\<rparr>)))))))))))"

section \<open>Deletion and restoration\<close>

text \<open>Deleting a publication cascades to its media references.\<close>

definition delete_publication :: "string \<Rightarrow> kdb \<Rightarrow> kdb" where
  "delete_publication docID db = db
     \<lparr>t_publications := tbl_del (\<lambda>p. pb_DocumentID p = docID) (t_publications db),
      t_media_refs := tbl_del (\<lambda>r. mr_DocumentID r = docID) (t_media_refs db)\<rparr>"

definition delete_candidate :: "string \<Rightarrow> kdb \<Rightarrow> kdb" where
  "delete_candidate docID = t_candidates_update (tbl_del (\<lambda>c. c_DocumentID c = docID))"

definition supersede_jobs :: "string \<Rightarrow> kdb \<Rightarrow> kdb" where
  "supersede_jobs docID = t_jobs_update (tbl_del (\<lambda>j. j_DocumentID j = docID \<and> j_ParkedAt j = None))"

definition SoftDeleteDocument :: "kenv \<Rightarrow> time \<Rightarrow> string \<Rightarrow> int \<Rightarrow> int \<Rightarrow> kdb \<Rightarrow> (kerr + Document) \<times> kdb" where
  "SoftDeleteDocument E now docID actorID expected = transaction (
     tbind (lockDocument docID actorID False) (\<lambda>(record, access).
     tbind (tguard (access = AccessOwner) ErrForbidden) (\<lambda>_.
     tbind (tguard (d_MetadataRevision record = expected) ErrPrecondition) (\<lambda>_.
     let generation = d_PublicationGeneration record + 1 in
     tbind (twrite (delete_candidate docID)) (\<lambda>_.
     tbind (twrite (delete_publication docID)) (\<lambda>_.
     tbind (twrite (supersede_jobs docID)) (\<lambda>_.
     tbind (enqueuePublicationReferenceJob E record generation publicationActionClear [] now) (\<lambda>_.
     tbind (put_document E (ErrOther ''soft-delete document'') docID (\<lambda>d. d\<lparr>
              d_PublishedAt := None, d_DeletedAt := Some now, d_PurgeAfter := Some (now + 30 * 24 * hour),
              d_PublicationStatus := PublicationUnpublishing, d_PublicationError := None,
              d_PublicationGeneration := generation, d_MetadataRevision := d_MetadataRevision d + 1,
              d_PermissionRevision := d_PermissionRevision d + 1, d_UpdatedAt := now\<rparr>)) (\<lambda>_.
     tbind (tsome (get_document docID) (ErrOther ''reload deleted document'')) (\<lambda>record'.
     tbind (enqueuePermissionChanged E record' now) (\<lambda>_.
     tbind (getProjection docID) (\<lambda>projection.
     tret (documentFromModel record' access (Some projection))))))))))))))"

definition RestoreDeletedDocument :: "kenv \<Rightarrow> time \<Rightarrow> string \<Rightarrow> int \<Rightarrow> kdb \<Rightarrow> (kerr + Document) \<times> kdb" where
  "RestoreDeletedDocument E now docID actorID = transaction (
     tbind (lockDocument docID actorID True) (\<lambda>(record, access).
     tbind (tguard (access = AccessOwner \<and> d_DeletedAt record \<noteq> None) ErrForbidden) (\<lambda>_.
     tbind (tguard (\<not> purge_due now record) ErrGone) (\<lambda>_.
     tbind (put_document E (ErrOther ''restore deleted document'') docID (\<lambda>d. d\<lparr>
              d_DeletedAt := None, d_PurgeAfter := None, d_MetadataRevision := d_MetadataRevision d + 1,
              d_PermissionRevision := d_PermissionRevision d + 1, d_UpdatedAt := now\<rparr>)) (\<lambda>_.
     tbind (tsome (get_document docID) (ErrOther ''reload restored document'')) (\<lambda>record'.
     tbind (enqueuePermissionChanged E record' now) (\<lambda>_.
     tbind (getProjection docID) (\<lambda>projection.
     tret (documentFromModel record' access (Some projection))))))))))"

section \<open>Permanent deletion\<close>

definition PurgeDeletedDocument ::
  "kenv \<Rightarrow> time \<Rightarrow> string \<Rightarrow> int \<Rightarrow> int \<Rightarrow> Idempotency \<Rightarrow> kdb \<Rightarrow> (kerr + unit) \<times> kdb" where
  "PurgeDeletedDocument E now docID actorID expected idempotency = transaction (
     tbind (idempotentResource now idempotency) (\<lambda>existing.
     case existing of
       Some existingID \<Rightarrow> tguard (existingID = docID) ErrConflict
     | None \<Rightarrow>
         tbind (tsome (get_document docID) ErrNotFound) (\<lambda>record.
         tbind (tread (accessFor record actorID)) (\<lambda>access.
         tbind (tguard (access = AccessOwner \<and> d_DeletedAt record \<noteq> None) ErrForbidden) (\<lambda>_.
         tbind (tguard (d_MetadataRevision record = expected) ErrPrecondition) (\<lambda>_.
         tbind (tguard (\<not> purge_due now record) ErrGone) (\<lambda>_.
         tbind (put_document E (ErrOther ''mark document for permanent deletion'') docID (\<lambda>d. d\<lparr>
                  d_PurgeAfter := Some now, d_MetadataRevision := d_MetadataRevision d + 1, d_UpdatedAt := now\<rparr>)) (\<lambda>_.
         saveIdempotency now idempotency docID))))))))"

definition ListPurgeCandidates :: "time \<Rightarrow> int \<Rightarrow> kdb \<Rightarrow> string list" where
  "ListPurgeCandidates now limit0 db =
     (let limit = (if limit0 \<le> 0 then 20 else limit0) in
      map d_ID (tbl_select (purge_due now)
        (\<lambda>d. (case d_PurgeAfter d of None \<Rightarrow> 0 | Some t \<Rightarrow> t, d_ID d)) (nat limit) (t_documents db)))"

definition cascade_document :: "string \<Rightarrow> kdb \<Rightarrow> kdb" where
  "cascade_document docID db = db
     \<lparr>t_documents := tbl_del (\<lambda>d. d_ID d = docID) (t_documents db),
      t_members := tbl_del (\<lambda>m. m_DocumentID m = docID) (t_members db),
      t_projections := tbl_del (\<lambda>p. p_DocumentID p = docID) (t_projections db),
      t_placements := tbl_del (\<lambda>p. pl_DocumentID p = docID) (t_placements db),
      t_document_tags := tbl_del (\<lambda>x. dt_DocumentID x = docID) (t_document_tags db),
      t_publications := tbl_del (\<lambda>p. pb_DocumentID p = docID) (t_publications db),
      t_candidates := tbl_del (\<lambda>c. c_DocumentID c = docID) (t_candidates db),
      t_commits := tbl_del (\<lambda>c. cm_DocumentID c = docID) (t_commits db),
      t_history := tbl_del (\<lambda>h. h_DocumentID h = docID) (t_history db),
      t_activity := tbl_del (\<lambda>a. ha_DocumentID a = docID) (t_activity db),
      t_media_refs := tbl_del (\<lambda>r. mr_DocumentID r = docID) (t_media_refs db),
      t_jobs := tbl_del (\<lambda>j. j_DocumentID j = docID) (t_jobs db)\<rparr>"

definition PurgeDocument :: "time \<Rightarrow> string \<Rightarrow> kdb \<Rightarrow> (kerr + unit) \<times> kdb" where
  "PurgeDocument now docID = transaction (
     tbind (tsome (get_document docID) ErrNotFound) (\<lambda>document.
     tbind (tguard (purge_due now document) ErrPrecondition) (\<lambda>_.
     tbind (twrite (t_slug_aliases_update (tbl_upd (\<lambda>a. sa_DocumentID a = Some docID)
              (\<lambda>a. a\<lparr>sa_DocumentID := None, sa_GoneAt := Some now\<rparr>)))) (\<lambda>_.
     twrite (cascade_document docID)))))"

definition PurgeMaintenanceData :: "time \<Rightarrow> kdb \<Rightarrow> (kerr + unit) \<times> kdb" where
  "PurgeMaintenanceData now = transaction (
     tbind (twrite (t_idempotency_keys_update (tbl_del (\<lambda>r. i_ExpiresAt r \<le> now)))) (\<lambda>_.
     twrite (t_outbox_update (tbl_del (\<lambda>r. case o_PublishedAt r of None \<Rightarrow> False
                                             | Some t \<Rightarrow> t < now - 7 * 24 * hour)))))"

section \<open>Frames\<close>

text \<open>The tables the publication saga and access control read.\<close>

definition core where
  "core (db :: kdb) = (t_documents db, t_members db, t_projections db, t_publications db, t_candidates db,
     t_media_refs db, t_jobs db)"

lemma coreD:
  assumes "core db' = core db"
  shows "t_documents db' = t_documents db" "t_members db' = t_members db" "t_projections db' = t_projections db"
    "t_publications db' = t_publications db" "t_candidates db' = t_candidates db"
    "t_media_refs db' = t_media_refs db" "t_jobs db' = t_jobs db"
  using assms by (simp_all add: core_def)

lemma core_reads:
  assumes "core db' = core db"
  shows "get_document i db' = get_document i db" "accessFor d a db' = accessFor d a db"
    "find_document i inc db' = find_document i inc db" "get_publication i db' = get_publication i db"
    "get_job i db' = get_job i db"
  using coreD [OF assms]
  by (simp_all add: get_document_def accessFor_def find_document_def get_publication_def get_job_def)

lemma find_document_iff:
  "find_document docID inc db = Some d \<longleftrightarrow> get_document docID db = Some d \<and> (inc \<or> d_DeletedAt d = None)"
  by (auto simp: find_document_def split: option.splits if_splits)

lemma lockDocument_iff [tx_simps]:
  "lockDocument docID a inc db = Inr ((d, acc), db') \<longleftrightarrow>
     find_document docID inc db = Some d \<and> acc = accessFor d a db \<and> db' = db"
  "lockDocument docID a inc db = Inl e \<longleftrightarrow> find_document docID inc db = None \<and> e = ErrNotFound"
  by (auto simp: lockDocument_def tx_simps)

lemma getProjection_iff [tx_simps]:
  "getProjection docID db = Inr (p, db') \<longleftrightarrow> tbl_get p_DocumentID docID (t_projections db) = Some p \<and> db' = db"
  by (auto simp: getProjection_def tx_simps)

lemma getDocument_pure [tx_simps]: "getDocument E docID a inc db = Inr (d, db') \<Longrightarrow> db' = db"
  by (auto simp: getDocument_def tx_simps)

lemma idempotentResource_core: "idempotentResource now v db = Inr (r, db') \<Longrightarrow> core db' = core db"
  by (auto simp: idempotentResource_def core_def split: if_splits option.splits)

lemma saveIdempotency_core: "saveIdempotency now v res db = Inr (r, db') \<Longrightarrow> core db' = core db"
  by (auto simp: saveIdempotency_def core_def tx_simps split: if_splits)

lemma insert_alias_core: "insert_alias E s i now db = Inr (r, db') \<Longrightarrow> core db' = core db"
  by (auto simp: insert_alias_def core_def tx_simps)

lemma reserve_slug_core: "reserve_slug E now i old s db = Inr (r, db') \<Longrightarrow> core db' = core db"
  by (auto simp: reserve_slug_def tx_simps split: option.splits if_splits dest: insert_alias_core)

lemma place_document_core: "place_document now o' i f db = Inr (r, db') \<Longrightarrow> core db' = core db"
  by (auto simp: place_document_def core_def tx_simps split: option.splits if_splits)

lemma ensure_tag_core: "ensure_tag E o' name now db = Inr (r, db') \<Longrightarrow> core db' = core db"
  by (auto simp: ensure_tag_def core_def tx_simps split: option.splits)

lemma replaceDocumentTags_core:
  assumes "replaceDocumentTags E o' i tags now db = Inr (r, db')"
  shows "core db' = core db"
proof -
  let ?db = "t_document_tags_update (tbl_del (\<lambda>x. dt_DocumentID x = i)) db"
  have "titer (\<lambda>name. tbind (ensure_tag E o' name now) (\<lambda>tagID.
       tinsert t_document_tags t_document_tags_update dt_key ErrConflict
         \<lparr>dt_DocumentID = i, dt_TagID = tagID, dt_CreatedAt = now\<rparr>)) tags ?db = Inr (r, db')"
    using assms by (simp add: replaceDocumentTags_def tx_simps)
  moreover have "core ?db = core db" by (simp add: core_def)
  ultimately show ?thesis
  proof (rule titer_preserves [where P = "\<lambda>s. core s = core db"])
    fix x s u t
    assume "tbind (ensure_tag E o' x now) (\<lambda>tagID. tinsert t_document_tags t_document_tags_update dt_key ErrConflict
         \<lparr>dt_DocumentID = i, dt_TagID = tagID, dt_CreatedAt = now\<rparr>) s = Inr (u, t)" and c: "core s = core db"
    then obtain tagID s' where "ensure_tag E o' x now s = Inr (tagID, s')"
      and t: "t = t_document_tags_update (\<lambda>rows. rows @ [\<lparr>dt_DocumentID = i, dt_TagID = tagID, dt_CreatedAt = now\<rparr>]) s'"
      by (auto simp: tx_simps)
    then have "core s' = core s" by (simp add: ensure_tag_core)
    then show "core t = core db" using t c by (simp add: core_def)
  qed
qed

lemma enqueuePermissionChanged_core: "enqueuePermissionChanged E d now db = Inr (u, db') \<Longrightarrow> core db' = core db"
  by (simp add: tx_simps core_def)

lemmas core_frames = idempotentResource_core saveIdempotency_core insert_alias_core reserve_slug_core
  place_document_core replaceDocumentTags_core enqueuePermissionChanged_core

section \<open>Effect of the operations\<close>

lemma UpdateDocument_success:
  assumes "UpdateDocument E now docID a e u db = (Inr r, db')"
  obtains d where "get_document docID db = Some d" "d_DeletedAt d = None" "CanEdit (accessFor d a db)"
    "d_MetadataRevision d = e"
    "documents_check E (tbl_upd (\<lambda>x. d_ID x = docID) (apply_patch u now) (t_documents db))"
    "core db' = core (db\<lparr>t_documents := tbl_upd (\<lambda>x. d_ID x = docID) (apply_patch u now) (t_documents db)\<rparr>)"
proof -
  let ?put = "\<lambda>s. s\<lparr>t_documents := tbl_upd (\<lambda>x. d_ID x = docID) (apply_patch u now) (t_documents s)\<rparr>"
  from assms obtain d s1 s2 and rec :: document_row where
    d: "find_document docID False db = Some d" "CanEdit (accessFor d a db)" "d_MetadataRevision d = e"
    and s1: "reserve_slug E now docID (d_Slug d) (up_Slug u) db = Inr ((), s1)"
    and s2: "place_document now (d_OwnerID d) docID (up_FolderID u) s1 = Inr ((), s2)"
    and c: "documents_check E (tbl_upd (\<lambda>x. d_ID x = docID) (apply_patch u now) (t_documents s2))"
    and s4: "(case up_Tags u of None \<Rightarrow> tret () | Some tags \<Rightarrow> replaceDocumentTags E (d_OwnerID rec) docID tags now) (?put s2) = Inr ((), db')"
    unfolding UpdateDocument_def by (simp add: tx_simps) blast
  have 2: "core s2 = core db" using s1 s2 core_frames by metis
  have "core db' = core (?put s2)"
    using s4 by (cases "up_Tags u") (auto simp: tx_simps dest: replaceDocumentTags_core)
  then have "core db' = core (?put db)" using 2 by (simp add: core_def)
  moreover have "t_documents s2 = t_documents db" using coreD(1) [OF 2] .
  ultimately show thesis using that d c by (simp add: find_document_iff)
qed

definition soft_delete_row :: "time \<Rightarrow> int \<Rightarrow> document_row \<Rightarrow> document_row" where
  "soft_delete_row now generation = (\<lambda>d. d\<lparr>
     d_PublishedAt := None, d_DeletedAt := Some now, d_PurgeAfter := Some (now + 30 * 24 * hour),
     d_PublicationStatus := PublicationUnpublishing, d_PublicationError := None,
     d_PublicationGeneration := generation, d_MetadataRevision := d_MetadataRevision d + 1,
     d_PermissionRevision := d_PermissionRevision d + 1, d_UpdatedAt := now\<rparr>)"

text \<open>The tables after a document's publication is withdrawn under a new generation.\<close>

definition withdrawn :: "string \<Rightarrow> time \<Rightarrow> document_row \<Rightarrow> (document_row \<Rightarrow> document_row) \<Rightarrow> kdb \<Rightarrow> kdb" where
  "withdrawn jobID now d f db = db\<lparr>
     t_documents := tbl_upd (\<lambda>x. d_ID x = d_ID d) f (t_documents db),
     t_candidates := tbl_del (\<lambda>c. c_DocumentID c = d_ID d) (t_candidates db),
     t_publications := tbl_del (\<lambda>p. pb_DocumentID p = d_ID d) (t_publications db),
     t_media_refs := tbl_del (\<lambda>r. mr_DocumentID r = d_ID d) (t_media_refs db),
     t_jobs := tbl_del (\<lambda>j. j_DocumentID j = d_ID d \<and> j_ParkedAt j = None) (t_jobs db) @
       [new_job jobID d (d_PublicationGeneration d + 1) publicationActionClear [] now]\<rparr>"

lemma get_document_ID: "get_document docID db = Some d \<Longrightarrow> d_ID d = docID"
  unfolding get_document_def by (rule tbl_get_SomeD)

lemma SoftDeleteDocument_success:
  assumes "SoftDeleteDocument E now docID a e db = (Inr r, db')"
  obtains d jobID where "get_document docID db = Some d" "d_DeletedAt d = None" "accessFor d a db = AccessOwner"
    "d_MetadataRevision d = e"
    "documents_check E (t_documents db')"
    "\<forall>j \<in> set (tbl_del (\<lambda>j. j_DocumentID j = docID \<and> j_ParkedAt j = None) (t_jobs db)). j_ID j \<noteq> jobID"
    "core db' = core (withdrawn jobID now d (soft_delete_row now (d_PublicationGeneration d + 1)) db)"
proof -
  let ?f = "\<lambda>d. soft_delete_row now (d_PublicationGeneration d + 1)"
  from assms obtain d s1 s2 and rec :: document_row where
    d: "find_document docID False db = Some d" "accessFor d a db = AccessOwner" "d_MetadataRevision d = e"
    and s1: "enqueuePublicationReferenceJob E d (d_PublicationGeneration d + 1) publicationActionClear [] now
               (supersede_jobs docID (delete_publication docID (delete_candidate docID db))) = Inr ((), s1)"
    and c: "documents_check E (tbl_upd (\<lambda>x. d_ID x = docID) (?f d) (t_documents s1))"
    and s2: "enqueuePermissionChanged E rec now
               (s1\<lparr>t_documents := tbl_upd (\<lambda>x. d_ID x = docID) (?f d) (t_documents s1)\<rparr>) = Inr ((), s2)"
    and db': "db' = s2"
    unfolding SoftDeleteDocument_def soft_delete_row_def by (auto simp: tx_simps Let_def)
  have i: "d_ID d = docID" using d(1) unfolding find_document_iff by (blast intro: get_document_ID)
  have s1': "core s1 = core (withdrawn (ke_newID E (t_id_counter db)) now d (\<lambda>x. x) db)" "t_documents s1 = t_documents db"
    using s1 i by (auto simp: tx_simps core_def withdrawn_def supersede_jobs_def delete_publication_def
        delete_candidate_def tbl_upd_def)
  have "core s2 = core (s1\<lparr>t_documents := tbl_upd (\<lambda>x. d_ID x = docID) (?f d) (t_documents s1)\<rparr>)"
    by (rule enqueuePermissionChanged_core [OF s2])
  then have "core db' = core (withdrawn (ke_newID E (t_id_counter db)) now d (?f d) db)"
    using s1' i unfolding db' by (simp add: core_def withdrawn_def)
  moreover from this have "documents_check E (t_documents db')"
    using c s1' i by (simp add: core_def withdrawn_def)
  moreover have "\<forall>j \<in> set (tbl_del (\<lambda>j. j_DocumentID j = docID \<and> j_ParkedAt j = None) (t_jobs db)). j_ID j \<noteq> ke_newID E (t_id_counter db)"
    using s1 by (simp add: tx_simps supersede_jobs_def delete_publication_def delete_candidate_def)
  ultimately show thesis using that d by (simp add: find_document_iff)
qed

definition restore_row :: "time \<Rightarrow> document_row \<Rightarrow> document_row" where
  "restore_row now = (\<lambda>d. d\<lparr>d_DeletedAt := None, d_PurgeAfter := None, d_MetadataRevision := d_MetadataRevision d + 1,
     d_PermissionRevision := d_PermissionRevision d + 1, d_UpdatedAt := now\<rparr>)"

lemma RestoreDeletedDocument_success:
  assumes "RestoreDeletedDocument E now docID a db = (Inr r, db')"
  obtains d where "get_document docID db = Some d" "accessFor d a db = AccessOwner" "d_DeletedAt d \<noteq> None"
    "\<not> purge_due now d" "documents_check E (tbl_upd (\<lambda>x. d_ID x = docID) (restore_row now) (t_documents db))"
    "core db' = core (db\<lparr>t_documents := tbl_upd (\<lambda>x. d_ID x = docID) (restore_row now) (t_documents db)\<rparr>)"
  using assms unfolding RestoreDeletedDocument_def restore_row_def
  by (auto simp: tx_simps find_document_iff core_def)

definition purge_request_row :: "time \<Rightarrow> document_row \<Rightarrow> document_row" where
  "purge_request_row now = (\<lambda>d. d\<lparr>d_PurgeAfter := Some now, d_MetadataRevision := d_MetadataRevision d + 1, d_UpdatedAt := now\<rparr>)"

lemma PurgeDeletedDocument_success:
  assumes "PurgeDeletedDocument E now docID a e v db = (Inr r, db')"
  shows "core db' = core db \<or>
    (\<exists>d. get_document docID db = Some d \<and> accessFor d a db = AccessOwner \<and> d_DeletedAt d \<noteq> None
       \<and> d_MetadataRevision d = e \<and> \<not> purge_due now d
       \<and> documents_check E (tbl_upd (\<lambda>x. d_ID x = docID) (purge_request_row now) (t_documents db))
       \<and> core db' = core (db\<lparr>t_documents := tbl_upd (\<lambda>x. d_ID x = docID) (purge_request_row now) (t_documents db)\<rparr>))"
proof -
  from assms obtain ex s1 where s1: "idempotentResource now v db = Inr (ex, s1)"
    and rest: "(case ex of Some i \<Rightarrow> tguard (i = docID) ErrConflict
       | None \<Rightarrow> tbind (tsome (get_document docID) ErrNotFound) (\<lambda>record.
         tbind (tread (accessFor record a)) (\<lambda>access.
         tbind (tguard (access = AccessOwner \<and> d_DeletedAt record \<noteq> None) ErrForbidden) (\<lambda>_.
         tbind (tguard (d_MetadataRevision record = e) ErrPrecondition) (\<lambda>_.
         tbind (tguard (\<not> purge_due now record) ErrGone) (\<lambda>_.
         tbind (put_document E (ErrOther ''mark document for permanent deletion'') docID (purge_request_row now)) (\<lambda>_.
         saveIdempotency now v docID))))))) s1 = Inr (r, db')"
    unfolding PurgeDeletedDocument_def purge_request_row_def transaction_Inr tbind_Inr by blast
  note c1 = idempotentResource_core [OF s1]
  show ?thesis
  proof (cases ex)
    case (Some i)
    then show ?thesis using rest c1 by (simp add: tx_simps)
  next
    case None
    with rest obtain d where d: "get_document docID s1 = Some d" "accessFor d a s1 = AccessOwner" "d_DeletedAt d \<noteq> None"
        "d_MetadataRevision d = e" "\<not> purge_due now d"
        "documents_check E (tbl_upd (\<lambda>x. d_ID x = docID) (purge_request_row now) (t_documents s1))"
      and s2: "saveIdempotency now v docID (s1\<lparr>t_documents := tbl_upd (\<lambda>x. d_ID x = docID) (purge_request_row now) (t_documents s1)\<rparr>) = Inr (r, db')"
      by (auto simp: tx_simps)
    have "core db' = core (db\<lparr>t_documents := tbl_upd (\<lambda>x. d_ID x = docID) (purge_request_row now) (t_documents db)\<rparr>)"
      using saveIdempotency_core [OF s2] c1 by (simp add: core_def)
    then show ?thesis using d unfolding core_reads [OF c1] coreD [OF c1] by blast
  qed
qed

lemma PurgeDocument_success:
  assumes "PurgeDocument now docID db = (Inr r, db')"
  obtains d where "get_document docID db = Some d" "purge_due now d" "core db' = core (cascade_document docID db)"
  using assms unfolding PurgeDocument_def by (auto simp: tx_simps core_def cascade_document_def)

lemma CreateDocument_success:
  assumes "CreateDocument E now doc v db = (Inr r, db')"
  shows "core db' = core db \<or>
    (\<forall>d \<in> set (t_documents db). d_ID d \<noteq> doc_ID doc) \<and> documents_check E (t_documents db @ [documentToModel doc])
    \<and> core db' = core (db\<lparr>t_documents := t_documents db @ [documentToModel doc],
         t_projections := t_projections db @ [\<lparr>p_DocumentID = doc_ID doc, p_Sequence = 0, p_Content = initial_content,
                        p_PlainText = [], p_ProjectedAt = doc_CreatedAt doc\<rparr>]\<rparr>)"
proof -
  let ?r = "documentToModel doc"
  let ?p = "\<lparr>p_DocumentID = doc_ID doc, p_Sequence = 0, p_Content = initial_content, p_PlainText = [], p_ProjectedAt = doc_CreatedAt doc\<rparr>"
  have f: "d_ID ?r = doc_ID doc" "d_CreatedAt ?r = doc_CreatedAt doc" by (simp_all add: documentToModel_def)
  from assms obtain ex s1 where s1: "idempotentResource now v db = Inr (ex, s1)"
    and rest: "(case ex of Some i \<Rightarrow> getDocument E i (idm_ActorID v) False
       | None \<Rightarrow> tbind (insert_document E ?r) (\<lambda>_.
             tbind (insert_alias E (d_Slug ?r) (d_ID ?r) (d_CreatedAt ?r)) (\<lambda>_.
             tbind (tinsert t_projections t_projections_update p_DocumentID
                      (ErrOther ''insert initial document projection'') ?p) (\<lambda>_.
             tbind (saveIdempotency now v (d_ID ?r)) (\<lambda>_.
             tret (documentFromModel ?r AccessOwner (Some ?p))))))) s1 = Inr (r, db')"
    unfolding CreateDocument_def Let_def f transaction_Inr tbind_Inr by blast
  note c1 = idempotentResource_core [OF s1]
  show ?thesis
  proof (cases ex)
    case (Some i)
    then show ?thesis using rest c1 by (auto dest: getDocument_pure)
  next
    case None
    with rest obtain s2 s3 where c: "documents_check E (t_documents s1 @ [?r])"
        "\<forall>d \<in> set (t_documents s1). d_ID d \<noteq> d_ID ?r"
      and s2: "insert_alias E (d_Slug ?r) (d_ID ?r) (d_CreatedAt ?r) (t_documents_update (\<lambda>ds. ds @ [?r]) s1) = Inr ((), s2)"
      and s3: "s3 = t_projections_update (\<lambda>ps. ps @ [?p]) s2" and s4: "saveIdempotency now v (d_ID ?r) s3 = Inr ((), db')"
      by (auto simp: tx_simps insert_document_def)
    have "core db' = core (db\<lparr>t_documents := t_documents db @ [?r], t_projections := t_projections db @ [?p]\<rparr>)"
      using c1 insert_alias_core [OF s2] saveIdempotency_core [OF s4] unfolding s3 by (simp add: core_def)
    then show ?thesis using c coreD(1) [OF c1] f by simp
  qed
qed

end
