(* ===== verification/KnowledgeMembers.thy ===== *)
theory KnowledgeMembers
  imports KnowledgeStore
begin

text \<open>
  Document members (\<open>services/knowledge/internal/repository/members.go\<close>). Only the owner manages members;
  every change of the member table advances the document's permission revision and enqueues the
  event other services use to drop stale authorisations.
\<close>

definition member_roles :: "string list" where
  "member_roles = [AccessViewer, AccessEditor]"

definition ListMembers :: "string \<Rightarrow> int \<Rightarrow> kdb \<Rightarrow> kerr + Member list" where
  "ListMembers docID actorID db =
     (case lockDocument docID actorID False db of
        Inl e \<Rightarrow> Inl e
      | Inr ((d, access), _) \<Rightarrow>
          if access \<noteq> AccessOwner then Inl ErrForbidden
          else Inr (map memberFromModel (sort_key (\<lambda>m. (m_CreatedAt m, m_UserID m))
                 (filter (\<lambda>m. m_DocumentID m = docID) (t_members db)))))"

definition advancePermissionRevision :: "kenv \<Rightarrow> document_row \<Rightarrow> time \<Rightarrow> unit ktx" where
  "advancePermissionRevision E d now =
     tbind (put_document E (ErrOther ''advance document permission revision'') (d_ID d)
              (\<lambda>x. x\<lparr>d_PermissionRevision := d_PermissionRevision x + 1, d_UpdatedAt := now\<rparr>)) (\<lambda>_.
     enqueuePermissionChanged E (d\<lparr>d_PermissionRevision := d_PermissionRevision d + 1, d_UpdatedAt := now\<rparr>) now)"

definition AddMember ::
  "kenv \<Rightarrow> time \<Rightarrow> string \<Rightarrow> int \<Rightarrow> PublicUser \<Rightarrow> string \<Rightarrow> Idempotency \<Rightarrow> kdb \<Rightarrow> (kerr + Member) \<times> kdb" where
  "AddMember E now docID actorID user role idempotency = transaction (
     tbind (lockDocument docID actorID False) (\<lambda>(document, access).
     tbind (tguard (access = AccessOwner) ErrForbidden) (\<lambda>_.
     tbind (tguard (pu_ID user \<noteq> d_OwnerID document) ErrConflict) (\<lambda>_.
     tbind (idempotentResource now idempotency) (\<lambda>existing.
     case existing of
       Some _ \<Rightarrow> tbind (tsome (\<lambda>db. tbl_get m_key (docID, pu_ID user) (t_members db)) ErrNotFound)
                   (\<lambda>m. tret (memberFromModel m))
     | None \<Rightarrow>
         let record = \<lparr>m_DocumentID = docID, m_UserID = pu_ID user, m_Username = pu_Username user,
                       m_Avatar = pu_Avatar user, m_Role = role, m_Revision = 1, m_CreatedBy = actorID,
                       m_CreatedAt = now, m_UpdatedAt = now\<rparr>
         in tbind (tguard (role \<in> set member_roles) ErrConflict) (\<lambda>_.
            tbind (tinsert t_members t_members_update m_key ErrConflict record) (\<lambda>_.
            tbind (advancePermissionRevision E document now) (\<lambda>_.
            tbind (saveIdempotency now idempotency docID) (\<lambda>_.
            tret (memberFromModel record))))))))))"

definition UpdateMember ::
  "kenv \<Rightarrow> time \<Rightarrow> string \<Rightarrow> int \<Rightarrow> int \<Rightarrow> int \<Rightarrow> string \<Rightarrow> kdb \<Rightarrow> (kerr + Member) \<times> kdb" where
  "UpdateMember E now docID actorID userID expected role = transaction (
     tbind (lockDocument docID actorID False) (\<lambda>(document, access).
     tbind (tguard (access = AccessOwner) ErrForbidden) (\<lambda>_.
     tbind (tsome (\<lambda>db. tbl_get m_key (docID, userID) (t_members db)) ErrNotFound) (\<lambda>record.
     tbind (tguard (m_Revision record = expected) ErrPrecondition) (\<lambda>_.
     tbind (tguard (role \<in> set member_roles) ErrConflict) (\<lambda>_.
     tbind (twrite (t_members_update (tbl_upd (\<lambda>m. m_key m = (docID, userID))
              (\<lambda>m. m\<lparr>m_Role := role, m_Revision := m_Revision m + 1, m_UpdatedAt := now\<rparr>)))) (\<lambda>_.
     tbind (advancePermissionRevision E document now) (\<lambda>_.
     tret (memberFromModel (record\<lparr>m_Role := role, m_Revision := m_Revision record + 1, m_UpdatedAt := now\<rparr>))))))))))"

definition DeleteMember ::
  "kenv \<Rightarrow> time \<Rightarrow> string \<Rightarrow> int \<Rightarrow> int \<Rightarrow> int \<Rightarrow> kdb \<Rightarrow> (kerr + unit) \<times> kdb" where
  "DeleteMember E now docID actorID userID expected = transaction (
     tbind (lockDocument docID actorID False) (\<lambda>(document, access).
     tbind (tguard (access = AccessOwner) ErrForbidden) (\<lambda>_.
     tbind (tsome (\<lambda>db. tbl_get m_key (docID, userID) (t_members db)) ErrNotFound) (\<lambda>record.
     tbind (tguard (m_Revision record = expected) ErrPrecondition) (\<lambda>_.
     tbind (twrite (t_members_update (tbl_del (\<lambda>m. m_key m = (docID, userID) \<and> m_Revision m = expected)))) (\<lambda>_.
     advancePermissionRevision E document now))))))"

section \<open>Effect of member changes\<close>

definition permission_bump :: "time \<Rightarrow> document_row \<Rightarrow> document_row" where
  "permission_bump now = (\<lambda>x. x\<lparr>d_PermissionRevision := d_PermissionRevision x + 1, d_UpdatedAt := now\<rparr>)"

text \<open>The database after a member change of document \<open>d\<close>: permissions advanced and the event enqueued.\<close>

definition permission_changed :: "kenv \<Rightarrow> time \<Rightarrow> document_row \<Rightarrow> (member_row list \<Rightarrow> member_row list) \<Rightarrow> kdb \<Rightarrow> kdb \<Rightarrow> bool" where
  "permission_changed E now d g db db' \<longleftrightarrow>
     core db' = core (db\<lparr>t_documents := tbl_upd (\<lambda>x. d_ID x = d_ID d) (permission_bump now) (t_documents db),
                         t_members := g (t_members db)\<rparr>)
     \<and> documents_check E (t_documents db')
     \<and> (\<exists>msgID. t_outbox db' = t_outbox db @ [permission_row E msgID (permission_bump now d) now])"

lemma advancePermissionRevision_Inr:
  assumes "advancePermissionRevision E d now db = Inr (u, db')"
  shows "permission_changed E now d (\<lambda>ms. ms) db db'"
  using assms unfolding advancePermissionRevision_def permission_changed_def permission_bump_def
  by (auto simp: tx_simps core_def)

lemma permission_changed_members:
  assumes "permission_changed E now d (\<lambda>ms. ms) (t_members_update g db) db'"
  shows "permission_changed E now d g db db'"
  using assms unfolding permission_changed_def core_def by auto

lemma permission_changed_core:
  assumes "permission_changed E now d g db db1" "core db' = core db1" "t_outbox db' = t_outbox db1"
  shows "permission_changed E now d g db db'"
  using assms unfolding permission_changed_def core_def by auto

lemma permission_changed_from:
  assumes "permission_changed E now d g db1 db'" "core db1 = core db" "t_outbox db1 = t_outbox db"
  shows "permission_changed E now d g db db'"
  using assms unfolding permission_changed_def core_def by auto

lemma idempotency_outbox:
  "idempotentResource now v db = Inr (r, db') \<Longrightarrow> t_outbox db' = t_outbox db"
  "saveIdempotency now v res db = Inr (u, db') \<Longrightarrow> t_outbox db' = t_outbox db"
  by (auto simp: idempotentResource_def saveIdempotency_def tx_simps split: if_splits option.splits)

lemma AddMember_success:
  assumes "AddMember E now docID a user role v db = (Inr r, db')"
  obtains d where "get_document docID db = Some d" "d_DeletedAt d = None" "accessFor d a db = AccessOwner"
    "pu_ID user \<noteq> d_OwnerID d"
    "(core db' = core db \<and> t_outbox db' = t_outbox db \<and> (\<exists>s. idempotentResource now v db = Inr (Some s, db))) \<or>
     (role \<in> set member_roles \<and> (\<forall>m \<in> set (t_members db). m_key m \<noteq> (docID, pu_ID user)) \<and>
      permission_changed E now d (\<lambda>ms. ms @ [\<lparr>m_DocumentID = docID, m_UserID = pu_ID user, m_Username = pu_Username user,
        m_Avatar = pu_Avatar user, m_Role = role, m_Revision = 1, m_CreatedBy = a, m_CreatedAt = now, m_UpdatedAt = now\<rparr>]) db db')"
proof -
  define rec where "rec = \<lparr>m_DocumentID = docID, m_UserID = pu_ID user, m_Username = pu_Username user,
        m_Avatar = pu_Avatar user, m_Role = role, m_Revision = 1, m_CreatedBy = a, m_CreatedAt = now, m_UpdatedAt = now\<rparr>"
  from assms obtain d ex s1 where d: "find_document docID False db = Some d" "accessFor d a db = AccessOwner"
      "pu_ID user \<noteq> d_OwnerID d" and s1: "idempotentResource now v db = Inr (ex, s1)"
    and rest: "(case ex of Some _ \<Rightarrow> tbind (tsome (\<lambda>db. tbl_get m_key (docID, pu_ID user) (t_members db)) ErrNotFound)
                   (\<lambda>m. tret (memberFromModel m))
     | None \<Rightarrow> tbind (tguard (role \<in> set member_roles) ErrConflict) (\<lambda>_.
            tbind (tinsert t_members t_members_update m_key ErrConflict rec) (\<lambda>_.
            tbind (advancePermissionRevision E d now) (\<lambda>_.
            tbind (saveIdempotency now v docID) (\<lambda>_.
            tret (memberFromModel rec)))))) s1 = Inr (r, db')"
    unfolding AddMember_def transaction_Inr tbind_Inr Let_def rec_def [symmetric]
    by (auto simp: lockDocument_iff tguard_iff tbind_Inr)
  note c = idempotentResource_core [OF s1] and o = idempotency_outbox(1) [OF s1]
  show thesis
  proof (cases ex)
    case (Some i)
    then have "db' = s1" using rest by (auto simp: tx_simps)
    moreover have "s1 = db" using s1 Some by (auto simp: idempotentResource_def split: if_splits option.splits)
    ultimately show thesis using that d s1 Some by (auto simp: find_document_iff)
  next
    case None
    with rest obtain s2 where m: "role \<in> set member_roles" "\<forall>m \<in> set (t_members s1). m_key m \<noteq> m_key rec"
      and s2: "advancePermissionRevision E d now (t_members_update (\<lambda>ms. ms @ [rec]) s1) = Inr ((), s2)"
      and s3: "saveIdempotency now v docID s2 = Inr ((), db')"
      by (auto simp: tx_simps)
    have "permission_changed E now d (\<lambda>ms. ms @ [rec]) s1 s2"
      by (rule permission_changed_members) (rule advancePermissionRevision_Inr [OF s2])
    then have "permission_changed E now d (\<lambda>ms. ms @ [rec]) s1 db'"
      using saveIdempotency_core [OF s3] idempotency_outbox(2) [OF s3] by (rule permission_changed_core)
    then have "permission_changed E now d (\<lambda>ms. ms @ [rec]) db db'" using c o by (rule permission_changed_from)
    then show thesis using that d m coreD(2) [OF c] by (auto simp: find_document_iff rec_def m_key_def)
  qed
qed

definition member_patch :: "time \<Rightarrow> string \<Rightarrow> member_row \<Rightarrow> member_row" where
  "member_patch now role = (\<lambda>m. m\<lparr>m_Role := role, m_Revision := m_Revision m + 1, m_UpdatedAt := now\<rparr>)"

lemma UpdateMember_success:
  assumes "UpdateMember E now docID a userID e role db = (Inr r, db')"
  obtains d m where "get_document docID db = Some d" "d_DeletedAt d = None" "accessFor d a db = AccessOwner"
    "tbl_get m_key (docID, userID) (t_members db) = Some m" "m_Revision m = e" "role \<in> set member_roles"
    "r = memberFromModel (member_patch now role m)"
    "permission_changed E now d (tbl_upd (\<lambda>m. m_key m = (docID, userID)) (member_patch now role)) db db'"
proof -
  from assms obtain d m where d: "find_document docID False db = Some d" "accessFor d a db = AccessOwner"
      "tbl_get m_key (docID, userID) (t_members db) = Some m" "m_Revision m = e" "role \<in> set member_roles"
      "r = memberFromModel (member_patch now role m)"
    and s: "advancePermissionRevision E d now
        (t_members_update (tbl_upd (\<lambda>m. m_key m = (docID, userID)) (member_patch now role)) db) = Inr ((), db')"
    unfolding UpdateMember_def member_patch_def by (auto simp: tx_simps)
  have "permission_changed E now d (tbl_upd (\<lambda>m. m_key m = (docID, userID)) (member_patch now role)) db db'"
    by (rule permission_changed_members) (rule advancePermissionRevision_Inr [OF s])
  then show thesis using that d by (auto simp: find_document_iff)
qed

lemma DeleteMember_success:
  assumes "DeleteMember E now docID a userID e db = (Inr r, db')"
  obtains d m where "get_document docID db = Some d" "d_DeletedAt d = None" "accessFor d a db = AccessOwner"
    "tbl_get m_key (docID, userID) (t_members db) = Some m" "m_Revision m = e"
    "permission_changed E now d (tbl_del (\<lambda>m. m_key m = (docID, userID) \<and> m_Revision m = e)) db db'"
proof -
  from assms obtain d m where d: "find_document docID False db = Some d" "accessFor d a db = AccessOwner"
      "tbl_get m_key (docID, userID) (t_members db) = Some m" "m_Revision m = e"
    and s: "advancePermissionRevision E d now
        (t_members_update (tbl_del (\<lambda>m. m_key m = (docID, userID) \<and> m_Revision m = e)) db) = Inr ((), db')"
    unfolding DeleteMember_def by (auto simp: tx_simps)
  have "permission_changed E now d (tbl_del (\<lambda>m. m_key m = (docID, userID) \<and> m_Revision m = e)) db db'"
    by (rule permission_changed_members) (rule advancePermissionRevision_Inr [OF s])
  then show thesis using that d by (auto simp: find_document_iff)
qed

end
