(* ===== verification/KnowledgeHistory.thy ===== *)
theory KnowledgeHistory
  imports KnowledgeStore
begin

text \<open>
  Content of documents: the projection fed by the collaboration service (\<open>repository/collaboration.go\<close>), the
  automatic history with its block differences and retention (\<open>repository/history.go\<close>), and explicit commits
  (\<open>repository/commits.go\<close>).
\<close>

section \<open>Scheduling of history checkpoints\<close>

definition historyIdleWindow :: duration where
  "historyIdleWindow = 5 * minute"

definition historyMaxWindow :: duration where
  "historyMaxWindow = 30 * minute"

definition markHistoryDirty :: "string \<Rightarrow> time \<Rightarrow> unit ktx" where
  "markHistoryDirty docID dirtyAt = twrite (t_activity_update (\<lambda>rows.
     if \<exists>a \<in> set rows. ha_DocumentID a = docID
     then tbl_upd (\<lambda>a. ha_DocumentID a = docID) (\<lambda>a. a\<lparr>ha_LastDirtyAt := dirtyAt, ha_UpdatedAt := dirtyAt\<rparr>) rows
     else rows @ [\<lparr>ha_DocumentID = docID, ha_FirstDirtyAt = dirtyAt, ha_LastDirtyAt = dirtyAt, ha_LastCheckpoint = None,
                   ha_Contributors = JArr [], ha_UpdatedAt = dirtyAt\<rparr>]))"

section \<open>Projections\<close>

definition AuthorizeCollaboration :: "kenv \<Rightarrow> string \<Rightarrow> int \<Rightarrow> kdb \<Rightarrow> kerr + Document" where
  "AuthorizeCollaboration E docID actorID db =
     (case GetDocument E docID actorID False db of
        Inl e \<Rightarrow> Inl e
      | Inr d \<Rightarrow> if CanRead (doc_Access d) then Inr d else Inl ErrForbidden)"

definition UpsertProjection :: "kenv \<Rightarrow> Projection \<Rightarrow> kdb \<Rightarrow> (kerr + unit) \<times> kdb" where
  "UpsertProjection E pj = transaction (
     tbind (lockDocument (pj_DocumentID pj) 0 False) (\<lambda>(document, _).
     tbind (getProjection (pj_DocumentID pj)) (\<lambda>current.
     tbind (tguard (p_Sequence current \<le> pj_Sequence pj) ErrPrecondition) (\<lambda>_.
     if pj_Sequence pj = p_Sequence current
     then tguard (ke_jsonb_out E (p_Content current) = pj_Content pj \<and> p_PlainText current = pj_PlainText pj) ErrConflict
     else
       tbind (tsome (\<lambda>_. ke_jsonb_in E (pj_Content pj)) (ErrOther ''update document projection'')) (\<lambda>content.
       tbind (twrite (t_projections_update (tbl_upd (\<lambda>p. p_DocumentID p = pj_DocumentID pj)
                (\<lambda>p. p\<lparr>p_Sequence := pj_Sequence pj, p_Content := content, p_PlainText := pj_PlainText pj,
                       p_ProjectedAt := pj_ProjectedAt pj\<rparr>)))) (\<lambda>_.
       tbind (put_document E (ErrOther ''advance projected document sequence'') (pj_DocumentID pj)
                (\<lambda>d. d\<lparr>d_ContentRevision := pj_Sequence pj, d_UpdatedAt := pj_ProjectedAt pj\<rparr>)) (\<lambda>_.
       markHistoryDirty (pj_DocumentID pj) (pj_ProjectedAt pj))))))))"

section \<open>Block differences\<close>

fun json_lookup :: "string \<Rightarrow> (string \<times> json) list \<Rightarrow> json option" where
  "json_lookup k [] = None"
| "json_lookup k ((k', v) # kvs) = (if k = k' then Some v else json_lookup k kvs)"

fun json_object :: "json \<Rightarrow> (string \<times> json) list option" where
  "json_object (JObj kvs) = Some kvs"
| "json_object JNull = Some []"
| "json_object _ = None"

primrec all_objects :: "json list \<Rightarrow> (string \<times> json) list list option" where
  "all_objects [] = Some []"
| "all_objects (x # xs) = (case json_object x of None \<Rightarrow> None | Some kvs \<Rightarrow>
     (case all_objects xs of None \<Rightarrow> None | Some rest \<Rightarrow> Some (kvs # rest)))"

text \<open>\<open>json.Unmarshal\<close> into a struct with the one field \<open>content\<close> of type \<open>[]map[string]any\<close>.\<close>

definition document_blocks :: "json \<Rightarrow> (string \<times> json) list list option" where
  "document_blocks j = (case json_object j of None \<Rightarrow> None
     | Some kvs \<Rightarrow> (case json_lookup ''content'' kvs of
         None \<Rightarrow> Some [] | Some JNull \<Rightarrow> Some [] | Some (JArr xs) \<Rightarrow> all_objects xs | Some _ \<Rightarrow> None))"

definition string_field :: "string \<Rightarrow> (string \<times> json) list \<Rightarrow> string" where
  "string_field k kvs = (case json_lookup k kvs of Some (JStr s) \<Rightarrow> s | _ \<Rightarrow> [])"

definition stable_id :: "nat \<Rightarrow> (string \<times> json) list \<Rightarrow> string" where
  "stable_id index block =
     (let attrs = (case json_lookup ''attrs'' block of Some (JObj kvs) \<Rightarrow> kvs | _ \<Rightarrow> []);
          b1 = string_field ''blockId'' attrs;
          b2 = (if b1 = [] then string_field ''block_id'' attrs else b1)
      in if b2 = [] then ''legacy:'' @ show_nat index else b2)"

type_synonym block_map = "(string \<times> nat \<times> (string \<times> json) list) list"

text \<open>Later blocks replace earlier ones with the same identifier, as assignments to a Go map do.\<close>

primrec blocks_from :: "nat \<Rightarrow> (string \<times> json) list list \<Rightarrow> block_map \<Rightarrow> block_map" where
  "blocks_from index [] m = m"
| "blocks_from index (block # blocks) m =
     blocks_from (Suc index) blocks
       ((stable_id index block, index, block) # filter (\<lambda>e. fst e \<noteq> stable_id index block) m)"

definition blocksByStableID :: "(string \<times> json) list list \<Rightarrow> block_map" where
  "blocksByStableID blocks = blocks_from 0 blocks []"

definition diff_entry :: "string \<Rightarrow> string \<Rightarrow> nat option \<Rightarrow> nat option \<Rightarrow> json" where
  "diff_entry blockID kind from' to' = JObj ([(''block_id'', JStr blockID), (''kind'', JStr kind)] @
     (case from' of None \<Rightarrow> [] | Some i \<Rightarrow> [(''from'', JNum (real i))]) @
     (case to' of None \<Rightarrow> [] | Some i \<Rightarrow> [(''to'', JNum (real i))]))"

definition before_entry :: "kenv \<Rightarrow> block_map \<Rightarrow> block_map \<Rightarrow> string \<Rightarrow> json list" where
  "before_entry E before after blockID =
     (case map_of before blockID of None \<Rightarrow> []
      | Some (i, prior) \<Rightarrow>
          (case map_of after blockID of
             None \<Rightarrow> [diff_entry blockID ''removed'' (Some i) None]
           | Some (k, current) \<Rightarrow>
               if ke_marshal E (JObj prior) \<noteq> ke_marshal E (JObj current)
               then [diff_entry blockID ''modified'' (Some i) (Some k)]
               else if i \<noteq> k then [diff_entry blockID ''moved'' (Some i) (Some k)] else []))"

definition after_entry :: "block_map \<Rightarrow> block_map \<Rightarrow> string \<Rightarrow> json list" where
  "after_entry before after blockID =
     (case map_of after blockID of None \<Rightarrow> []
      | Some (k, _) \<Rightarrow> if map_of before blockID = None then [diff_entry blockID ''added'' None (Some k)] else [])"

definition block_diff :: "kenv \<Rightarrow> json \<Rightarrow> json \<Rightarrow> json list" where
  "block_diff E previous content =
     (case (document_blocks previous, document_blocks content) of
        (Some bs, Some as) \<Rightarrow>
          (let before = blocksByStableID bs; after = blocksByStableID as
           in concat (map (before_entry E before after) (sort (map fst before))) @
              concat (map (after_entry before after) (sort (map fst after))))
      | _ \<Rightarrow> [])"

definition history_newest :: "string \<Rightarrow> kdb \<Rightarrow> history_row list" where
  "history_newest docID db =
     rev (sort_key (\<lambda>h. (h_CreatedAt h, h_ID h)) (filter (\<lambda>h. h_DocumentID h = docID) (t_history db)))"

definition latestBlockDiff :: "kenv \<Rightarrow> string \<Rightarrow> json \<Rightarrow> kdb \<Rightarrow> json" where
  "latestBlockDiff E docID content db =
     (case history_newest docID db of [] \<Rightarrow> JArr [] | h # _ \<Rightarrow> JArr (block_diff E (h_Content h) content))"

section \<open>Checkpoints\<close>

definition semantic_hash :: "kenv \<Rightarrow> json \<Rightarrow> json \<Rightarrow> string" where
  "semantic_hash E content metadata =
     ke_sha256 E (ke_marshal E (stripHistoryBlockIDs content) @ ke_marshal E metadata)"

definition opt_string :: "string option \<Rightarrow> json" where
  "opt_string v = (case v of None \<Rightarrow> JNull | Some s \<Rightarrow> JStr s)"

definition history_metadata ::
  "string \<Rightarrow> string \<Rightarrow> string \<Rightarrow> string list \<Rightarrow> string \<Rightarrow> string option \<Rightarrow> float64 \<Rightarrow> float64 \<Rightarrow> json" where
  "history_metadata title summary language tags icon cover x y = JObj [
     (''title'', JStr title), (''summary'', JStr summary), (''language'', JStr language),
     (''tags'', JArr (map JStr tags)), (''icon'', JStr icon), (''cover_attachment_id'', opt_string cover),
     (''cover_focal_x'', JNum x), (''cover_focal_y'', JNum y)]"

definition history_due :: "time \<Rightarrow> activity_row \<Rightarrow> bool" where
  "history_due now a \<longleftrightarrow> ha_LastDirtyAt a \<le> now - historyIdleWindow \<or> ha_FirstDirtyAt a \<le> now - historyMaxWindow"

definition CreateDueHistoryCheckpoint :: "kenv \<Rightarrow> time \<Rightarrow> kdb \<Rightarrow> (kerr + history_row option) \<times> kdb" where
  "CreateDueHistoryCheckpoint E now = transaction (
     tbind (tread (\<lambda>db. tbl_select (history_due now) (\<lambda>a. (ha_FirstDirtyAt a, ha_DocumentID a)) 1 (t_activity db))) (\<lambda>due.
     case due of
       [] \<Rightarrow> tret None
     | activity # _ \<Rightarrow>
         let docID = ha_DocumentID activity;
             finish = twrite (t_activity_update (tbl_del (\<lambda>a. ha_DocumentID a = docID)))
         in tbind (tread (find_document docID False)) (\<lambda>found.
            case found of
              None \<Rightarrow> tbind finish (\<lambda>_. tret None)
            | Some document \<Rightarrow>
                tbind (tsome (\<lambda>db. tbl_get p_DocumentID docID (t_projections db)) (ErrOther ''load history projection'')) (\<lambda>projection.
                tbind (tread (document_tag_names docID)) (\<lambda>tags.
                let metadata = history_metadata (d_Title document) (d_Summary document) (d_Language document) tags
                      (d_Icon document) (d_CoverAttachmentID document) (d_CoverFocalX document) (d_CoverFocalY document);
                    hash = semantic_hash E (p_Content projection) metadata
                in tbind (tread (\<lambda>db. \<exists>h \<in> set (t_history db). h_DocumentID h = docID \<and> h_SemanticHash h = hash)) (\<lambda>existing.
                   if existing then tbind finish (\<lambda>_. tret None)
                   else tbind (newID E) (\<lambda>rowID.
                        tbind (tread (latestBlockDiff E docID (p_Content projection))) (\<lambda>diff.
                        let row = \<lparr>h_ID = rowID, h_DocumentID = docID, h_Kind = ''automatic'',
                              h_Sequence = p_Sequence projection, h_MetadataRevision = d_MetadataRevision document,
                              h_SemanticHash = hash, h_Content = p_Content projection,
                              h_PlainText = p_PlainText projection, h_Metadata = metadata,
                              h_Contributors = ha_Contributors activity, h_BlockDiff = diff, h_IsAnchor = False,
                              h_CreatedAt = now\<rparr>
                        in tbind (tinsert t_history t_history_update h_ID (ErrOther ''create history checkpoint'') row) (\<lambda>_.
                           tbind finish (\<lambda>_. tret (Some row)))))))))))"

definition createHistoryAnchor ::
  "kenv \<Rightarrow> document_row \<Rightarrow> projection_row \<Rightarrow> string \<Rightarrow> json \<Rightarrow> time \<Rightarrow> unit ktx" where
  "createHistoryAnchor E document projection kind metadata now =
     (let docID = d_ID document; hash = semantic_hash E (p_Content projection) metadata;
          same = (\<lambda>h. h_DocumentID h = docID \<and> h_SemanticHash h = hash)
      in tbind (tread (\<lambda>db. find same (sort_key h_ID (t_history db)))) (\<lambda>existing.
         case existing of
           Some h \<Rightarrow> twrite (t_history_update (tbl_upd (\<lambda>x. h_ID x = h_ID h)
                        (\<lambda>x. x\<lparr>h_Kind := kind, h_IsAnchor := True\<rparr>)))
         | None \<Rightarrow>
             tbind (newID E) (\<lambda>rowID.
             tbind (tread (latestBlockDiff E docID (p_Content projection))) (\<lambda>diff.
             tinsert t_history t_history_update h_ID (ErrOther ''create history anchor'')
               \<lparr>h_ID = rowID, h_DocumentID = docID, h_Kind = kind, h_Sequence = p_Sequence projection,
                h_MetadataRevision = d_MetadataRevision document, h_SemanticHash = hash,
                h_Content = p_Content projection, h_PlainText = p_PlainText projection, h_Metadata = metadata,
                h_Contributors = JArr [], h_BlockDiff = diff, h_IsAnchor = True, h_CreatedAt = now\<rparr>))))"

definition ListHistory :: "kenv \<Rightarrow> string \<Rightarrow> int \<Rightarrow> int \<Rightarrow> kdb \<Rightarrow> kerr + history_row list" where
  "ListHistory E docID actorID limit0 db =
     (let limit = (if limit0 \<le> 0 \<or> 100 < limit0 then 50 else limit0) in
      case getDocument E docID actorID False db of
        Inl e \<Rightarrow> Inl e
      | Inr _ \<Rightarrow> Inr (take (nat limit) (history_newest docID db)))"

definition GetHistory :: "kenv \<Rightarrow> string \<Rightarrow> string \<Rightarrow> int \<Rightarrow> kdb \<Rightarrow> kerr + history_row" where
  "GetHistory E docID revisionID actorID db =
     (case getDocument E docID actorID False db of
        Inl e \<Rightarrow> Inl e
      | Inr _ \<Rightarrow> (case find (\<lambda>h. h_ID h = revisionID \<and> h_DocumentID h = docID) (t_history db) of
                    None \<Rightarrow> Inl ErrNotFound | Some h \<Rightarrow> Inr h))"

text \<open>The window function ranks the automatic checkpoints of each document from the newest.\<close>

definition history_rank :: "history_row list \<Rightarrow> history_row \<Rightarrow> nat" where
  "history_rank rows h = Suc (length (filter (\<lambda>x. \<not> h_IsAnchor x \<and> h_DocumentID x = h_DocumentID h
     \<and> (h_CreatedAt h, h_ID h) < (h_CreatedAt x, h_ID x)) rows))"

definition PruneHistory :: "time \<Rightarrow> kdb \<Rightarrow> (kerr + unit) \<times> kdb" where
  "PruneHistory now = transaction (
     tbind (twrite (t_history_update (tbl_del (\<lambda>h. \<not> h_IsAnchor h \<and> h_CreatedAt h < now - 180 * 24 * hour)))) (\<lambda>_.
     twrite (t_history_update (\<lambda>rows. tbl_del (\<lambda>h. \<not> h_IsAnchor h \<and> 500 < history_rank rows h) rows))))"

section \<open>Effect of the operations\<close>

definition project_document :: "Projection \<Rightarrow> document_row \<Rightarrow> document_row" where
  "project_document pj = (\<lambda>d. d\<lparr>d_ContentRevision := pj_Sequence pj, d_UpdatedAt := pj_ProjectedAt pj\<rparr>)"

definition project_row :: "Projection \<Rightarrow> json \<Rightarrow> projection_row \<Rightarrow> projection_row" where
  "project_row pj content = (\<lambda>p. p\<lparr>p_Sequence := pj_Sequence pj, p_Content := content, p_PlainText := pj_PlainText pj,
     p_ProjectedAt := pj_ProjectedAt pj\<rparr>)"

lemma UpsertProjection_success:
  assumes "UpsertProjection E pj db = (Inr r, db')"
  obtains d p where "get_document (pj_DocumentID pj) db = Some d" "d_DeletedAt d = None"
    "tbl_get p_DocumentID (pj_DocumentID pj) (t_projections db) = Some p"
    "(pj_Sequence pj = p_Sequence p \<and> ke_jsonb_out E (p_Content p) = pj_Content pj \<and> p_PlainText p = pj_PlainText pj \<and> db' = db) \<or>
     (p_Sequence p < pj_Sequence pj \<and> (\<exists>content. ke_jsonb_in E (pj_Content pj) = Some content \<and>
        documents_check E (tbl_upd (\<lambda>x. d_ID x = pj_DocumentID pj) (project_document pj) (t_documents db)) \<and>
        core db' = core (db\<lparr>
          t_documents := tbl_upd (\<lambda>x. d_ID x = pj_DocumentID pj) (project_document pj) (t_documents db),
          t_projections := tbl_upd (\<lambda>x. p_DocumentID x = pj_DocumentID pj) (project_row pj content) (t_projections db)\<rparr>)))"
proof -
  from assms obtain d p where d: "find_document (pj_DocumentID pj) False db = Some d"
    and p: "tbl_get p_DocumentID (pj_DocumentID pj) (t_projections db) = Some p" "p_Sequence p \<le> pj_Sequence pj"
    unfolding UpsertProjection_def by (auto simp: transaction_Inr tbind_Inr lockDocument_iff getProjection_iff tguard_iff)
  show thesis
  proof (cases "pj_Sequence pj = p_Sequence p")
    case True
    then show thesis
      using that d p assms unfolding UpsertProjection_def by (auto simp: tx_simps find_document_iff)
  next
    case False
    then have lt: "p_Sequence p < pj_Sequence pj" using p by simp
    obtain content where "ke_jsonb_in E (pj_Content pj) = Some content"
      "documents_check E (tbl_upd (\<lambda>x. d_ID x = pj_DocumentID pj) (project_document pj) (t_documents db))"
      "core db' = core (db\<lparr>
          t_documents := tbl_upd (\<lambda>x. d_ID x = pj_DocumentID pj) (project_document pj) (t_documents db),
          t_projections := tbl_upd (\<lambda>x. p_DocumentID x = pj_DocumentID pj) (project_row pj content) (t_projections db)\<rparr>)"
      using assms d p False unfolding UpsertProjection_def project_document_def project_row_def
      by (auto simp: tx_simps markHistoryDirty_def core_def)
    then show thesis using that d p lt by (auto simp: find_document_iff)
  qed
qed

lemma createHistoryAnchor_core:
  "createHistoryAnchor E d p kind md now db = Inr (r, db') \<Longrightarrow> core db' = core db"
  by (auto simp: createHistoryAnchor_def Let_def tx_simps core_def split: option.splits)

lemma CreateDueHistoryCheckpoint_core:
  "core (snd (CreateDueHistoryCheckpoint E now db)) = core db"
  unfolding CreateDueHistoryCheckpoint_def
  by (rule transaction_preserves)
    (auto simp: tx_simps Let_def core_def split: option.splits list.splits if_splits)

lemma PruneHistory_core: "core (snd (PruneHistory now db)) = core db"
  by (simp add: PruneHistory_def transaction_def tbind_def twrite_def core_def)

end
