(* ===== verification/PublicationSaga.thy ===== *)
theory PublicationSaga
  imports KnowledgeMembers KnowledgeHistory
begin

text \<open>
  The publication saga (\<open>services/knowledge/internal/repository/publication_saga.go\<close>). Publishing stores a
  candidate and a reference job under a new generation; the worker stages the attachments, promotes
  the candidate and finalises the attachments. Unpublishing and deletion remove the publication at
  once and leave a clear job. Every step checks the generation it works for.
\<close>

section \<open>Requests\<close>

record PublicationSnapshotInput =
  pi_Title :: string
  pi_Summary :: string
  pi_Slug :: string
  pi_Language :: string
  pi_Tags :: "string list"
  pi_Content :: RichTextDocument
  pi_PlainText :: string
  pi_ContentSequence :: int
  pi_PublicationHash :: string
  pi_Icon :: string
  pi_CoverAttachmentID :: "string option"
  pi_CoverFocalX :: float64
  pi_CoverFocalY :: float64
  pi_MediaIDs :: "string list"
  pi_Idempotency :: Idempotency

definition new_candidate ::
  "kenv \<Rightarrow> string \<Rightarrow> document_row \<Rightarrow> int \<Rightarrow> PublicationSnapshotInput \<Rightarrow> time \<Rightarrow> candidate_row" where
  "new_candidate E docID record generation input now = \<lparr>c_DocumentID = docID, c_Generation = generation,
     c_Title = pi_Title input, c_Summary = pi_Summary input, c_Slug = pi_Slug input, c_Language = pi_Language input,
     c_Tags = pi_Tags input, c_OwnerID = d_OwnerID record, c_OwnerUsername = d_OwnerUsername record,
     c_OwnerAvatar = d_OwnerAvatar record, c_Content = ke_encode_doc E (pi_Content input),
     c_PlainText = pi_PlainText input, c_ContentSequence = pi_ContentSequence input, c_MediaIDs = pi_MediaIDs input,
     c_PublicationHash = pi_PublicationHash input, c_Icon = pi_Icon input,
     c_CoverAttachmentID = pi_CoverAttachmentID input, c_CoverFocalX = pi_CoverFocalX input,
     c_CoverFocalY = pi_CoverFocalY input, c_CreatedAt = now, c_UpdatedAt = now\<rparr>"

definition slug_free :: "kenv \<Rightarrow> string \<Rightarrow> string \<Rightarrow> kdb \<Rightarrow> bool" where
  "slug_free E slug docID db \<longleftrightarrow>
     (\<forall>p \<in> set (t_publications db). \<not> (lower_eq E (pb_Slug p) slug \<and> pb_DocumentID p \<noteq> docID)) \<and>
     (\<forall>c \<in> set (t_candidates db). \<not> (lower_eq E (c_Slug c) slug \<and> c_DocumentID c \<noteq> docID))"

definition load_result :: "string \<Rightarrow> string \<Rightarrow> Document ktx" where
  "load_result docID access =
     tbind (tsome (get_document docID) (ErrOther ''reload document'')) (\<lambda>record.
     tbind (getProjection docID) (\<lambda>projection.
     tread (\<lambda>db. loadDocumentStructure db (documentFromModel record access (Some projection)))))"

definition PublishSnapshot ::
  "kenv \<Rightarrow> time \<Rightarrow> string \<Rightarrow> int \<Rightarrow> int \<Rightarrow> PublicationSnapshotInput \<Rightarrow> kdb \<Rightarrow> (kerr + Document) \<times> kdb" where
  "PublishSnapshot E now docID actorID expected input = transaction (
     tbind (idempotentResource now (pi_Idempotency input)) (\<lambda>existing.
     case existing of
       Some existingID \<Rightarrow> getDocument E existingID actorID False
     | None \<Rightarrow>
         tbind (lockDocument docID actorID False) (\<lambda>(record, access).
         tbind (tguard (CanEdit access) ErrForbidden) (\<lambda>_.
         tbind (tguard (d_MetadataRevision record = expected) ErrPrecondition) (\<lambda>_.
         tbind (tcheck (slug_free E (pi_Slug input) docID) ErrConflict) (\<lambda>_.
         let generation = d_PublicationGeneration record + 1 in
         tbind (twrite (t_candidates_update (tbl_save c_DocumentID (new_candidate E docID record generation input now)))) (\<lambda>_.
         tbind (twrite (supersede_jobs docID)) (\<lambda>_.
         tbind (enqueuePublicationReferenceJob E record generation publicationActionPublish (pi_MediaIDs input) now) (\<lambda>_.
         tbind (put_document E (ErrOther ''mark publication pending'') docID (\<lambda>d. d\<lparr>
                  d_PublicationStatus := PublicationPublishing, d_PublicationError := None,
                  d_PublicationGeneration := generation, d_PublicationHash := pi_PublicationHash input,
                  d_Icon := pi_Icon input, d_CoverAttachmentID := pi_CoverAttachmentID input,
                  d_CoverFocalX := pi_CoverFocalX input, d_CoverFocalY := pi_CoverFocalY input,
                  d_MetadataRevision := d_MetadataRevision d + 1, d_UpdatedAt := now\<rparr>)) (\<lambda>_.
         tbind (saveIdempotency now (pi_Idempotency input) docID) (\<lambda>_.
         load_result docID access)))))))))))"

definition SetPublication ::
  "kenv \<Rightarrow> time \<Rightarrow> string \<Rightarrow> int \<Rightarrow> int \<Rightarrow> bool \<Rightarrow> Idempotency \<Rightarrow> kdb \<Rightarrow> (kerr + Document) \<times> kdb" where
  "SetPublication E now docID actorID expected published idempotency =
     (if published then (\<lambda>db. (Inl ErrPrecondition, db)) else transaction (
     tbind (idempotentResource now idempotency) (\<lambda>existing.
     case existing of
       Some existingID \<Rightarrow> getDocument E existingID actorID False
     | None \<Rightarrow>
         tbind (lockDocument docID actorID False) (\<lambda>(record, access).
         tbind (tguard (CanEdit access) ErrForbidden) (\<lambda>_.
         tbind (tguard (d_MetadataRevision record = expected) ErrPrecondition) (\<lambda>_.
         let generation = d_PublicationGeneration record + 1 in
         tbind (twrite (delete_candidate docID)) (\<lambda>_.
         tbind (twrite (delete_publication docID)) (\<lambda>_.
         tbind (twrite (supersede_jobs docID)) (\<lambda>_.
         tbind (enqueuePublicationReferenceJob E record generation publicationActionClear [] now) (\<lambda>_.
         tbind (put_document E (ErrOther ''mark document unpublishing'') docID (\<lambda>d. d\<lparr>
                  d_PublishedAt := None, d_PublicationStatus := PublicationUnpublishing,
                  d_PublicationError := None, d_PublicationGeneration := generation,
                  d_MetadataRevision := d_MetadataRevision d + 1, d_UpdatedAt := now\<rparr>)) (\<lambda>_.
         tbind (saveIdempotency now idempotency docID) (\<lambda>_.
         load_result docID access))))))))))))"

section \<open>Jobs\<close>

definition job_due :: "time \<Rightarrow> job_row \<Rightarrow> bool" where
  "job_due now j \<longleftrightarrow> j_ParkedAt j = None \<and> j_NextAttemptAt j \<le> now \<and>
     (case j_LeaseUntil j of None \<Rightarrow> True | Some t \<Rightarrow> t \<le> now)"

definition job_from_model :: "job_row \<Rightarrow> PublicationReferenceJob" where
  "job_from_model j = \<lparr>prj_ID = j_ID j, prj_DocumentID = j_DocumentID j, prj_OwnerID = j_OwnerID j,
     prj_Generation = j_Generation j, prj_Action = j_Action j, prj_AttachmentIDs = j_AttachmentIDs j,
     prj_State = j_State j, prj_Attempts = j_Attempts j + 1\<rparr>"

definition ClaimPublicationReferenceJobs ::
  "time \<Rightarrow> int \<Rightarrow> duration \<Rightarrow> kdb \<Rightarrow> (kerr + PublicationReferenceJob list) \<times> kdb" where
  "ClaimPublicationReferenceJobs now limit0 lease db =
     (let limit = (if limit0 \<le> 0 then 20 else limit0);
          rows = tbl_select (job_due now) (\<lambda>j. (j_NextAttemptAt j, j_CreatedAt j, j_ID j)) (nat limit) (t_jobs db)
      in (Inr (map job_from_model rows),
          db\<lparr>t_jobs := tbl_upd (\<lambda>j. j_ID j \<in> j_ID ` set rows)
               (\<lambda>j. j\<lparr>j_Attempts := j_Attempts j + 1, j_LeaseUntil := Some (now + lease), j_UpdatedAt := now\<rparr>) (t_jobs db)\<rparr>))"

definition updatePublicationJob :: "time \<Rightarrow> string \<Rightarrow> string \<Rightarrow> string \<Rightarrow> kdb \<Rightarrow> (kerr + unit) \<times> kdb" where
  "updatePublicationJob now jobID state errorKey = transaction
     (tupdate1 t_jobs t_jobs_update (\<lambda>j. j_ID j = jobID \<and> j_ParkedAt j = None)
        (\<lambda>j. j\<lparr>j_State := state, j_LastErrorKey := errorKey, j_LeaseUntil := None, j_NextAttemptAt := now, j_UpdatedAt := now\<rparr>)
        ErrNotFound)"

definition MarkPublicationReferencesStaged :: "time \<Rightarrow> string \<Rightarrow> kdb \<Rightarrow> (kerr + unit) \<times> kdb" where
  "MarkPublicationReferencesStaged now jobID = updatePublicationJob now jobID publicationJobStaged []"

definition MarkPublicationPromoted :: "time \<Rightarrow> string \<Rightarrow> kdb \<Rightarrow> (kerr + unit) \<times> kdb" where
  "MarkPublicationPromoted now jobID = updatePublicationJob now jobID publicationJobPromoted []"

section \<open>Promotion\<close>

definition publication_of :: "candidate_row \<Rightarrow> time \<Rightarrow> publication_row" where
  "publication_of c now = \<lparr>pb_DocumentID = c_DocumentID c, pb_Title = c_Title c, pb_Summary = c_Summary c,
     pb_Slug = c_Slug c, pb_Language = c_Language c, pb_Tags = c_Tags c, pb_OwnerID = c_OwnerID c,
     pb_OwnerUsername = c_OwnerUsername c, pb_OwnerAvatar = c_OwnerAvatar c, pb_Content = c_Content c,
     pb_PlainText = c_PlainText c, pb_PublishedAt = now, pb_UpdatedAt = now, pb_PublicationHash = c_PublicationHash c,
     pb_Icon = c_Icon c, pb_CoverAttachmentID = c_CoverAttachmentID c, pb_CoverFocalX = c_CoverFocalX c,
     pb_CoverFocalY = c_CoverFocalY c\<rparr>"

definition pub_slug_free :: "kenv \<Rightarrow> publication_row \<Rightarrow> publication_row list \<Rightarrow> bool" where
  "pub_slug_free E p pubs \<longleftrightarrow>
     (\<forall>x \<in> set pubs. \<not> (lower_eq E (pb_Slug x) (pb_Slug p) \<and> pb_DocumentID x \<noteq> pb_DocumentID p))"

definition save_publication :: "kenv \<Rightarrow> publication_row \<Rightarrow> unit ktx" where
  "save_publication E p =
     tbind (tcheck (\<lambda>db. pub_slug_free E p (t_publications db)) ErrConflict) (\<lambda>_.
     twrite (t_publications_update (tbl_save pb_DocumentID p)))"

definition mr_key :: "media_ref_row \<Rightarrow> string \<times> string" where
  "mr_key r = (mr_DocumentID r, mr_AttachmentID r)"

definition replace_media_refs :: "string \<Rightarrow> int \<Rightarrow> string list \<Rightarrow> time \<Rightarrow> unit ktx" where
  "replace_media_refs docID generation attachmentIDs now =
     tbind (twrite (t_media_refs_update (tbl_del (\<lambda>r. mr_DocumentID r = docID)))) (\<lambda>_.
     titer (\<lambda>a. tinsert t_media_refs t_media_refs_update mr_key ErrConflict
        \<lparr>mr_DocumentID = docID, mr_AttachmentID = a, mr_Generation = generation, mr_CreatedAt = now\<rparr>) attachmentIDs)"

definition activate_slug :: "kenv \<Rightarrow> string \<Rightarrow> string \<Rightarrow> time \<Rightarrow> unit ktx" where
  "activate_slug E slug docID now =
     tbind (tread (\<lambda>db. tbl_get sa_Slug slug (t_slug_aliases db))) (\<lambda>found.
     case found of
       None \<Rightarrow> insert_alias E slug docID now
     | Some a \<Rightarrow> tbind (tguard (sa_DocumentID a = None \<or> sa_DocumentID a = Some docID) ErrConflict) (\<lambda>_.
         twrite (t_slug_aliases_update (tbl_upd (\<lambda>x. sa_Slug x = slug)
           (\<lambda>x. x\<lparr>sa_DocumentID := Some docID, sa_GoneAt := None\<rparr>)))))"

definition PromotePublication :: "kenv \<Rightarrow> time \<Rightarrow> PublicationReferenceJob \<Rightarrow> kdb \<Rightarrow> (kerr + unit) \<times> kdb" where
  "PromotePublication E now job = transaction (
     tbind (tsome (get_job (prj_ID job)) ErrNotFound) (\<lambda>stored.
     if j_State stored = publicationJobPromoted then tret ()
     else
       tbind (tguard (j_State stored = publicationJobStaged \<and> j_Generation stored = prj_Generation job) ErrPrecondition) (\<lambda>_.
       tbind (lockDocument (prj_DocumentID job) (prj_OwnerID job) False) (\<lambda>(record, _).
       tbind (tguard (d_PublicationGeneration record = prj_Generation job \<and>
                      d_PublicationStatus record = PublicationPublishing) ErrPrecondition) (\<lambda>_.
       tbind (tsome (\<lambda>db. find (\<lambda>c. c_DocumentID c = prj_DocumentID job \<and> c_Generation c = prj_Generation job)
                (t_candidates db)) ErrNotFound) (\<lambda>candidate.
       tbind (save_publication E (publication_of candidate now)) (\<lambda>_.
       tbind (replaceDocumentTags E (d_OwnerID record) (prj_DocumentID job) (c_Tags candidate) now) (\<lambda>_.
       tbind (replace_media_refs (prj_DocumentID job) (prj_Generation job) (prj_AttachmentIDs job) now) (\<lambda>_.
       tbind (activate_slug E (c_Slug candidate) (prj_DocumentID job) now) (\<lambda>_.
       tbind (put_document E (ErrOther ''activate publication'') (d_ID record) (\<lambda>d. d\<lparr>
                d_PublishedAt := Some now, d_PublicationStatus := PublicationPublished,
                d_PublicationError := None, d_UpdatedAt := now\<rparr>)) (\<lambda>_.
       tbind (tsome (get_document (d_ID record)) (ErrOther ''reload published document'')) (\<lambda>record'.
       tbind (createHistoryAnchor E record' \<lparr>p_DocumentID = d_ID record', p_Sequence = c_ContentSequence candidate,
                p_Content = c_Content candidate, p_PlainText = c_PlainText candidate, p_ProjectedAt = now\<rparr> ''publish''
                (history_metadata (c_Title candidate) (c_Summary candidate) (c_Language candidate) (c_Tags candidate)
                   (c_Icon candidate) (c_CoverAttachmentID candidate) (c_CoverFocalX candidate) (c_CoverFocalY candidate))
                now) (\<lambda>_.
       tbind (twrite (delete_candidate (prj_DocumentID job))) (\<lambda>_.
       twrite (t_jobs_update (tbl_upd (\<lambda>j. j_ID j = j_ID stored)
         (\<lambda>j. j\<lparr>j_State := publicationJobPromoted, j_LeaseUntil := None, j_NextAttemptAt := now, j_UpdatedAt := now\<rparr>)))))))))))))))))"

section \<open>Completion, retry and parking\<close>

text \<open>An update of the document of a job, if the document is still at the job's generation.\<close>

definition put_generation :: "kenv \<Rightarrow> kerr \<Rightarrow> job_row \<Rightarrow> (document_row \<Rightarrow> document_row) \<Rightarrow> unit ktx" where
  "put_generation E err j f =
     put_document E err (j_DocumentID j) (\<lambda>d. if d_PublicationGeneration d = j_Generation j then f d else d)"

definition CompletePublicationReferenceJob :: "kenv \<Rightarrow> time \<Rightarrow> string \<Rightarrow> bool \<Rightarrow> kdb \<Rightarrow> (kerr + unit) \<times> kdb" where
  "CompletePublicationReferenceJob E now jobID clear = transaction (
     tbind (tsome (get_job jobID) ErrNotFound) (\<lambda>job.
     tbind (if clear then
              tbind (twrite (t_media_refs_update (tbl_del (\<lambda>r. mr_DocumentID r = j_DocumentID job
                       \<and> mr_Generation r = j_Generation job)))) (\<lambda>_.
              put_generation E (ErrOther ''complete publication cleanup'') job (\<lambda>d. d\<lparr>
                d_PublicationStatus := PublicationDraft, d_PublicationError := None, d_UpdatedAt := now\<rparr>))
            else tret ()) (\<lambda>_.
     twrite (t_jobs_update (tbl_del (\<lambda>j. j_ID j = jobID))))))"

definition HasPendingPublicationReferenceClear :: "string \<Rightarrow> kdb \<Rightarrow> bool" where
  "HasPendingPublicationReferenceClear docID db \<longleftrightarrow>
     (\<exists>j \<in> set (t_jobs db). j_DocumentID j = docID \<and> j_Action j = publicationActionClear)"

definition RedrivePublicationReferenceClear :: "time \<Rightarrow> string \<Rightarrow> kdb \<Rightarrow> (kerr + unit) \<times> kdb" where
  "RedrivePublicationReferenceClear now docID = transaction (
     let parked = (\<lambda>j. j_DocumentID j = docID \<and> j_Action j = publicationActionClear \<and> j_ParkedAt j \<noteq> None) in
     tbind (tread (\<lambda>db. \<exists>j \<in> set (t_jobs db). parked j)) (\<lambda>affected.
     tbind (twrite (t_jobs_update (tbl_upd parked (\<lambda>j. j\<lparr>j_ParkedAt := None, j_Attempts := 0, j_LeaseUntil := None,
              j_NextAttemptAt := now, j_LastErrorKey := ''purge_reference_redrive'', j_UpdatedAt := now\<rparr>)))) (\<lambda>_.
     if affected then notifyWorkers WorkerWakePayloadPublication else tret ())))"

definition publicationRetryDelay :: "int \<Rightarrow> duration" where
  "publicationRetryDelay attempt0 =
     (let attempt1 = (if attempt0 < 1 then 1 else attempt0);
          attempt = (if 8 < attempt1 then 8 else attempt1)
      in 2 ^ nat (attempt - 1) * second + ((attempt * 7919) mod 1000) * millisecond)"

definition RetryPublicationReferenceJob :: "time \<Rightarrow> string \<Rightarrow> string \<Rightarrow> int \<Rightarrow> kdb \<Rightarrow> (kerr + unit) \<times> kdb" where
  "RetryPublicationReferenceJob now jobID errorKey attempts = transaction (
     twrite (t_jobs_update (tbl_upd (\<lambda>j. j_ID j = jobID \<and> j_ParkedAt j = None)
       (\<lambda>j. j\<lparr>j_NextAttemptAt := now + publicationRetryDelay attempts, j_LeaseUntil := None,
              j_LastErrorKey := errorKey, j_UpdatedAt := now\<rparr>))))"

definition ParkPublicationReferenceJob :: "kenv \<Rightarrow> time \<Rightarrow> string \<Rightarrow> string \<Rightarrow> bool \<Rightarrow> kdb \<Rightarrow> (kerr + unit) \<times> kdb" where
  "ParkPublicationReferenceJob E now jobID errorKey publish = transaction (
     tbind (tsome (get_job jobID) ErrNotFound) (\<lambda>job.
     tbind (twrite (t_jobs_update (tbl_upd (\<lambda>j. j_ID j = jobID)
              (\<lambda>j. j\<lparr>j_ParkedAt := Some now, j_LeaseUntil := None, j_LastErrorKey := errorKey, j_UpdatedAt := now\<rparr>)))) (\<lambda>_.
     put_generation E (ErrOther ''park publication reference job'') job (\<lambda>d. d\<lparr>
       d_PublicationStatus := (if publish then PublicationPublishFailed else PublicationUnpublishFailed),
       d_PublicationError := Some errorKey, d_UpdatedAt := now\<rparr>))))"

definition IsMediaPublished :: "string \<Rightarrow> kdb \<Rightarrow> bool" where
  "IsMediaPublished attachmentID db \<longleftrightarrow>
     (\<exists>r \<in> set (t_media_refs db). mr_AttachmentID r = attachmentID \<and>
        (\<exists>d \<in> set (t_documents db). d_ID d = mr_DocumentID r \<and> d_PublicationStatus d = PublicationPublished
           \<and> d_DeletedAt d = None))"

section \<open>Effect of the requests\<close>

lemma load_result_pure: "load_result docID access db = Inr (r, db') \<Longrightarrow> db' = db"
  by (auto simp: load_result_def tx_simps)

lemma idempotentResource_replay:
  "idempotentResource now v db = Inr (Some i, db') \<Longrightarrow> db' = db"
  by (auto simp: idempotentResource_def split: if_splits option.splits)

definition publish_row :: "time \<Rightarrow> int \<Rightarrow> PublicationSnapshotInput \<Rightarrow> document_row \<Rightarrow> document_row" where
  "publish_row now generation input = (\<lambda>d. d\<lparr>
     d_PublicationStatus := PublicationPublishing, d_PublicationError := None,
     d_PublicationGeneration := generation, d_PublicationHash := pi_PublicationHash input,
     d_Icon := pi_Icon input, d_CoverAttachmentID := pi_CoverAttachmentID input,
     d_CoverFocalX := pi_CoverFocalX input, d_CoverFocalY := pi_CoverFocalY input,
     d_MetadataRevision := d_MetadataRevision d + 1, d_UpdatedAt := now\<rparr>)"

definition submitted :: "kenv \<Rightarrow> string \<Rightarrow> time \<Rightarrow> document_row \<Rightarrow> PublicationSnapshotInput \<Rightarrow> kdb \<Rightarrow> kdb" where
  "submitted E jobID now d input db = db\<lparr>
     t_documents := tbl_upd (\<lambda>x. d_ID x = d_ID d) (publish_row now (d_PublicationGeneration d + 1) input) (t_documents db),
     t_candidates := tbl_save c_DocumentID (new_candidate E (d_ID d) d (d_PublicationGeneration d + 1) input now) (t_candidates db),
     t_jobs := tbl_del (\<lambda>j. j_DocumentID j = d_ID d \<and> j_ParkedAt j = None) (t_jobs db) @
       [new_job jobID d (d_PublicationGeneration d + 1) publicationActionPublish (pi_MediaIDs input) now]\<rparr>"

lemma PublishSnapshot_success:
  assumes "PublishSnapshot E now docID a e input db = (Inr r, db')"
  shows "(db' = db \<and> (\<exists>i. idempotentResource now (pi_Idempotency input) db = Inr (Some i, db))) \<or>
    (\<exists>d jobID. get_document docID db = Some d \<and> d_DeletedAt d = None \<and> CanEdit (accessFor d a db)
      \<and> d_MetadataRevision d = e \<and> slug_free E (pi_Slug input) docID db \<and> documents_check E (t_documents db')
      \<and> (\<forall>j \<in> set (tbl_del (\<lambda>j. j_DocumentID j = docID \<and> j_ParkedAt j = None) (t_jobs db)). j_ID j \<noteq> jobID)
      \<and> core db' = core (submitted E jobID now d input db))"
proof -
  from assms obtain ex s1 where s1: "idempotentResource now (pi_Idempotency input) db = Inr (ex, s1)"
    unfolding PublishSnapshot_def transaction_Inr tbind_Inr by blast
  note c1 = idempotentResource_core [OF s1]
  show ?thesis
  proof (cases ex)
    case (Some i)
    then have "db' = s1"
      using assms s1 unfolding PublishSnapshot_def by (auto simp: transaction_Inr tbind_Inr dest: getDocument_pure)
    then show ?thesis using idempotentResource_replay s1 Some by blast
  next
    case None
    let ?sub = "\<lambda>d. supersede_jobs docID (t_candidates_update (tbl_save c_DocumentID
       (new_candidate E docID d (d_PublicationGeneration d + 1) input now)) s1)"
    let ?put = "\<lambda>d s. s\<lparr>t_documents := tbl_upd (\<lambda>x. d_ID x = docID) (publish_row now (d_PublicationGeneration d + 1) input) (t_documents s)\<rparr>"
    from None assms s1 obtain d s2 s3 where d: "find_document docID False s1 = Some d" "CanEdit (accessFor d a s1)"
        "d_MetadataRevision d = e" "slug_free E (pi_Slug input) docID s1"
      and s2: "enqueuePublicationReferenceJob E d (d_PublicationGeneration d + 1) publicationActionPublish (pi_MediaIDs input) now (?sub d) = Inr ((), s2)"
      and c: "documents_check E (t_documents (?put d s2))"
      and s3: "saveIdempotency now (pi_Idempotency input) docID (?put d s2) = Inr ((), s3)"
      and l: "load_result docID (accessFor d a s1) s3 = Inr (r, db')"
      unfolding PublishSnapshot_def publish_row_def Let_def
      by (auto simp: transaction_Inr tbind_Inr lockDocument_iff tguard_iff tcheck_iff twrite_iff put_document_Inr)
    have i: "d_ID d = docID" using d(1) unfolding find_document_iff by (blast intro: get_document_ID)
    have "core s2 = core (submitted E (ke_newID E (t_id_counter s1)) now d input s1\<lparr>t_documents := t_documents s1\<rparr>)"
      using s2 i by (auto simp: tx_simps core_def submitted_def supersede_jobs_def)
    moreover have "core db' = core (?put d s2)"
      using saveIdempotency_core [OF s3] load_result_pure [OF l] by simp
    ultimately have "core db' = core (submitted E (ke_newID E (t_id_counter s1)) now d input s1)"
      using i by (simp add: core_def submitted_def)
    then have "core db' = core (submitted E (ke_newID E (t_id_counter s1)) now d input db)"
      using c1 by (simp add: core_def submitted_def)
    moreover have "\<forall>j \<in> set (tbl_del (\<lambda>j. j_DocumentID j = docID \<and> j_ParkedAt j = None) (t_jobs db)). j_ID j \<noteq> ke_newID E (t_id_counter s1)"
      using s2 coreD(7) [OF c1] by (auto simp: tx_simps supersede_jobs_def)
    moreover have "documents_check E (t_documents db')"
      using c \<open>core db' = core (?put d s2)\<close> by (simp add: core_def)
    moreover have "slug_free E (pi_Slug input) docID db" using d(4) coreD [OF c1] by (simp add: slug_free_def)
    moreover have "get_document docID db = Some d" "d_DeletedAt d = None" "CanEdit (accessFor d a db)"
      using d(1,2) unfolding core_reads [OF c1] by (auto simp: find_document_iff)
    ultimately show ?thesis using d(3) by blast
  qed
qed

definition unpublish_row :: "time \<Rightarrow> int \<Rightarrow> document_row \<Rightarrow> document_row" where
  "unpublish_row now generation = (\<lambda>d. d\<lparr>d_PublishedAt := None, d_PublicationStatus := PublicationUnpublishing,
     d_PublicationError := None, d_PublicationGeneration := generation,
     d_MetadataRevision := d_MetadataRevision d + 1, d_UpdatedAt := now\<rparr>)"

lemma SetPublication_success:
  assumes "SetPublication E now docID a e published v db = (Inr r, db')"
  shows "\<not> published \<and> ((db' = db \<and> (\<exists>i. idempotentResource now v db = Inr (Some i, db))) \<or>
    (\<exists>d jobID. get_document docID db = Some d \<and> d_DeletedAt d = None \<and> CanEdit (accessFor d a db)
      \<and> d_MetadataRevision d = e \<and> documents_check E (t_documents db')
      \<and> (\<forall>j \<in> set (tbl_del (\<lambda>j. j_DocumentID j = docID \<and> j_ParkedAt j = None) (t_jobs db)). j_ID j \<noteq> jobID)
      \<and> core db' = core (withdrawn jobID now d (unpublish_row now (d_PublicationGeneration d + 1)) db)))"
proof -
  have np: "\<not> published" using assms by (auto simp: SetPublication_def split: if_splits)
  from assms np obtain ex s1 where s1: "idempotentResource now v db = Inr (ex, s1)"
    by (auto simp: SetPublication_def transaction_Inr tbind_Inr)
  note c1 = idempotentResource_core [OF s1]
  show ?thesis
  proof (cases ex)
    case (Some i)
    then have "db' = s1"
      using assms s1 np by (auto simp: SetPublication_def transaction_Inr tbind_Inr dest: getDocument_pure)
    then show ?thesis using idempotentResource_replay s1 Some np by blast
  next
    case None
    let ?sub = "supersede_jobs docID (delete_publication docID (delete_candidate docID s1))"
    let ?put = "\<lambda>d s. s\<lparr>t_documents := tbl_upd (\<lambda>x. d_ID x = docID) (unpublish_row now (d_PublicationGeneration d + 1)) (t_documents s)\<rparr>"
    from None assms s1 np obtain d s2 s3 where d: "find_document docID False s1 = Some d" "CanEdit (accessFor d a s1)"
        "d_MetadataRevision d = e"
      and s2: "enqueuePublicationReferenceJob E d (d_PublicationGeneration d + 1) publicationActionClear [] now ?sub = Inr ((), s2)"
      and c: "documents_check E (t_documents (?put d s2))"
      and s3: "saveIdempotency now v docID (?put d s2) = Inr ((), s3)"
      and l: "load_result docID (accessFor d a s1) s3 = Inr (r, db')"
      unfolding SetPublication_def unpublish_row_def Let_def
      by (auto simp: transaction_Inr tbind_Inr lockDocument_iff tguard_iff twrite_iff put_document_Inr)
    have i: "d_ID d = docID" using d(1) unfolding find_document_iff by (blast intro: get_document_ID)
    have "core s2 = core (withdrawn (ke_newID E (t_id_counter s1)) now d (\<lambda>x. x) s1)"
      using s2 i by (auto simp: tx_simps core_def withdrawn_def supersede_jobs_def delete_publication_def
          delete_candidate_def tbl_upd_def)
    moreover have db': "core db' = core (?put d s2)"
      using saveIdempotency_core [OF s3] load_result_pure [OF l] by simp
    ultimately have "core db' = core (withdrawn (ke_newID E (t_id_counter s1)) now d (unpublish_row now (d_PublicationGeneration d + 1)) s1)"
      using i by (simp add: core_def withdrawn_def tbl_upd_def)
    then have "core db' = core (withdrawn (ke_newID E (t_id_counter s1)) now d (unpublish_row now (d_PublicationGeneration d + 1)) db)"
      using c1 by (simp add: core_def withdrawn_def)
    moreover have "\<forall>j \<in> set (tbl_del (\<lambda>j. j_DocumentID j = docID \<and> j_ParkedAt j = None) (t_jobs db)). j_ID j \<noteq> ke_newID E (t_id_counter s1)"
      using s2 coreD(7) [OF c1] by (auto simp: tx_simps supersede_jobs_def delete_publication_def delete_candidate_def)
    moreover have "documents_check E (t_documents db')" using c db' by (simp add: core_def)
    moreover have "get_document docID db = Some d" "d_DeletedAt d = None" "CanEdit (accessFor d a db)"
      using d(1,2) unfolding core_reads [OF c1] by (auto simp: find_document_iff)
    ultimately show ?thesis using d(3) np by blast
  qed
qed

section \<open>Effect of the worker's steps\<close>

definition media_ref :: "string \<Rightarrow> int \<Rightarrow> time \<Rightarrow> string \<Rightarrow> media_ref_row" where
  "media_ref docID generation now a =
     \<lparr>mr_DocumentID = docID, mr_AttachmentID = a, mr_Generation = generation, mr_CreatedAt = now\<rparr>"

lemma insert_media_refs:
  assumes "titer (\<lambda>a. tinsert t_media_refs t_media_refs_update mr_key ErrConflict (media_ref docID g now a)) ids db = Inr (u, db')"
  shows "core db' = core (db\<lparr>t_media_refs := t_media_refs db @ map (media_ref docID g now) ids\<rparr>)"
  using assms
proof (induction ids arbitrary: db)
  case (Cons a ids)
  then have "titer (\<lambda>a. tinsert t_media_refs t_media_refs_update mr_key ErrConflict (media_ref docID g now a)) ids
      (t_media_refs_update (\<lambda>rows. rows @ [media_ref docID g now a]) db) = Inr (u, db')"
    by (simp add: tx_simps)
  from Cons.IH [OF this] show ?case by (simp add: core_def)
qed (simp add: tx_simps core_def)

lemma replace_media_refs_Inr:
  assumes "replace_media_refs docID g ids now db = Inr (u, db')"
  shows "core db' = core (db\<lparr>t_media_refs := tbl_del (\<lambda>r. mr_DocumentID r = docID) (t_media_refs db) @ map (media_ref docID g now) ids\<rparr>)"
proof -
  have "titer (\<lambda>a. tinsert t_media_refs t_media_refs_update mr_key ErrConflict (media_ref docID g now a)) ids
      (t_media_refs_update (tbl_del (\<lambda>r. mr_DocumentID r = docID)) db) = Inr (u, db')"
    using assms unfolding replace_media_refs_def media_ref_def [symmetric] by (simp add: tx_simps)
  from insert_media_refs [OF this] show ?thesis by (simp add: core_def)
qed

lemma activate_slug_core: "activate_slug E slug docID now db = Inr (u, db') \<Longrightarrow> core db' = core db"
  by (auto simp: activate_slug_def tx_simps core_def split: option.split_asm dest!: insert_alias_core)

definition promote_row :: "time \<Rightarrow> document_row \<Rightarrow> document_row" where
  "promote_row now = (\<lambda>d. d\<lparr>d_PublishedAt := Some now, d_PublicationStatus := PublicationPublished,
     d_PublicationError := None, d_UpdatedAt := now\<rparr>)"

definition promote_job :: "time \<Rightarrow> job_row \<Rightarrow> job_row" where
  "promote_job now = (\<lambda>j. j\<lparr>j_State := publicationJobPromoted, j_LeaseUntil := None, j_NextAttemptAt := now, j_UpdatedAt := now\<rparr>)"

definition promoted :: "time \<Rightarrow> PublicationReferenceJob \<Rightarrow> candidate_row \<Rightarrow> kdb \<Rightarrow> kdb" where
  "promoted now job c db = db\<lparr>
     t_documents := tbl_upd (\<lambda>x. d_ID x = prj_DocumentID job) (promote_row now) (t_documents db),
     t_publications := tbl_save pb_DocumentID (publication_of c now) (t_publications db),
     t_media_refs := tbl_del (\<lambda>r. mr_DocumentID r = prj_DocumentID job) (t_media_refs db)
       @ map (media_ref (prj_DocumentID job) (prj_Generation job) now) (prj_AttachmentIDs job),
     t_candidates := tbl_del (\<lambda>c. c_DocumentID c = prj_DocumentID job) (t_candidates db),
     t_jobs := tbl_upd (\<lambda>j. j_ID j = prj_ID job) (promote_job now) (t_jobs db)\<rparr>"

definition promotable :: "kdb \<Rightarrow> PublicationReferenceJob \<Rightarrow> document_row \<Rightarrow> candidate_row \<Rightarrow> bool" where
  "promotable db job d c \<longleftrightarrow>
     (\<exists>j. get_job (prj_ID job) db = Some j \<and> j_State j = publicationJobStaged \<and> j_Generation j = prj_Generation job)
     \<and> get_document (prj_DocumentID job) db = Some d \<and> d_DeletedAt d = None
     \<and> d_PublicationGeneration d = prj_Generation job \<and> d_PublicationStatus d = PublicationPublishing
     \<and> c \<in> set (t_candidates db) \<and> c_DocumentID c = prj_DocumentID job \<and> c_Generation c = prj_Generation job"

lemma PromotePublication_success:
  assumes "PromotePublication E now job db = (Inr u, db')"
  shows "(db' = db \<and> (\<exists>j. get_job (prj_ID job) db = Some j \<and> j_State j = publicationJobPromoted)) \<or>
    (\<exists>d c. promotable db job d c \<and> pub_slug_free E (publication_of c now) (t_publications db)
       \<and> documents_check E (t_documents db') \<and> core db' = core (promoted now job c db))"
proof -
  from assms obtain stored where st: "get_job (prj_ID job) db = Some stored"
    by (auto simp: PromotePublication_def transaction_Inr tbind_Inr tsome_iff)
  have sid: "j_ID stored = prj_ID job" using st unfolding get_job_def by (rule tbl_get_SomeD)
  show ?thesis
  proof (cases "j_State stored = publicationJobPromoted")
    case True
    then show ?thesis using assms st by (auto simp: PromotePublication_def transaction_Inr tbind_Inr tsome_iff tret_iff)
  next
    case False
    let ?s1 = "\<lambda>c. t_publications_update (tbl_save pb_DocumentID (publication_of c now)) db"
    let ?put = "\<lambda>d s. s\<lparr>t_documents := tbl_upd (\<lambda>x. d_ID x = d_ID d) (promote_row now) (t_documents s)\<rparr>"
    from False assms st obtain d c s2 s3 s4 s5 rec md p where
      j: "j_State stored = publicationJobStaged" "j_Generation stored = prj_Generation job"
      and d: "find_document (prj_DocumentID job) False db = Some d" "d_PublicationGeneration d = prj_Generation job"
        "d_PublicationStatus d = PublicationPublishing"
      and c: "find (\<lambda>c. c_DocumentID c = prj_DocumentID job \<and> c_Generation c = prj_Generation job) (t_candidates db) = Some c"
      and f: "pub_slug_free E (publication_of c now) (t_publications db)"
      and s2: "replaceDocumentTags E (d_OwnerID d) (prj_DocumentID job) (c_Tags c) now (?s1 c) = Inr ((), s2)"
      and s3: "replace_media_refs (prj_DocumentID job) (prj_Generation job) (prj_AttachmentIDs job) now s2 = Inr ((), s3)"
      and s4: "activate_slug E (c_Slug c) (prj_DocumentID job) now s3 = Inr ((), s4)"
      and chk: "documents_check E (t_documents (?put d s4))"
      and s5: "createHistoryAnchor E rec p ''publish'' md now (?put d s4) = Inr ((), s5)"
      and db': "db' = t_jobs_update (tbl_upd (\<lambda>j. j_ID j = j_ID stored) (promote_job now)) (delete_candidate (prj_DocumentID job) s5)"
      unfolding PromotePublication_def promote_row_def promote_job_def save_publication_def
      by (auto simp: transaction_Inr tbind_Inr lockDocument_iff tguard_iff tsome_iff tcheck_iff twrite_iff put_document_Inr)
    have i: "d_ID d = prj_DocumentID job" using d(1) unfolding find_document_iff by (blast intro: get_document_ID)
    have c': "c \<in> set (t_candidates db)" "c_DocumentID c = prj_DocumentID job" "c_Generation c = prj_Generation job"
      using c by (auto simp: find_Some_iff)
    have "core s2 = core (?s1 c)" using s2 by (rule replaceDocumentTags_core)
    moreover have "core s4 = core s3" using s4 by (rule activate_slug_core)
    moreover have "core s5 = core (?put d s4)" using s5 by (rule createHistoryAnchor_core)
    ultimately have "core db' = core (promoted now job c db)"
      unfolding db' using i sid replace_media_refs_Inr [OF s3]
      by (simp add: core_def promoted_def delete_candidate_def)
    moreover have "documents_check E (t_documents db')"
      using chk \<open>core s5 = core (?put d s4)\<close> unfolding db' by (simp add: core_def delete_candidate_def)
    moreover have "promotable db job d c"
      using st j d c' by (auto simp: promotable_def find_document_iff)
    ultimately show ?thesis using f by blast
  qed
qed

definition cleared_row :: "time \<Rightarrow> document_row \<Rightarrow> document_row" where
  "cleared_row now = (\<lambda>d. d\<lparr>d_PublicationStatus := PublicationDraft, d_PublicationError := None, d_UpdatedAt := now\<rparr>)"

definition at_generation :: "int \<Rightarrow> (document_row \<Rightarrow> document_row) \<Rightarrow> document_row \<Rightarrow> document_row" where
  "at_generation g f = (\<lambda>d. if d_PublicationGeneration d = g then f d else d)"

lemma CompletePublicationReferenceJob_success:
  assumes "CompletePublicationReferenceJob E now jobID clear db = (Inr u, db')"
  obtains j where "get_job jobID db = Some j"
    "core db' = core (if clear
       then db\<lparr>t_documents := tbl_upd (\<lambda>d. d_ID d = j_DocumentID j) (at_generation (j_Generation j) (cleared_row now)) (t_documents db),
               t_media_refs := tbl_del (\<lambda>r. mr_DocumentID r = j_DocumentID j \<and> mr_Generation r = j_Generation j) (t_media_refs db),
               t_jobs := tbl_del (\<lambda>x. j_ID x = jobID) (t_jobs db)\<rparr>
       else db\<lparr>t_jobs := tbl_del (\<lambda>x. j_ID x = jobID) (t_jobs db)\<rparr>)"
    "clear \<longrightarrow> documents_check E (t_documents db')"
  using assms unfolding CompletePublicationReferenceJob_def put_generation_def at_generation_def cleared_row_def
  by (cases clear) (auto simp: tx_simps core_def)

definition parked_job :: "time \<Rightarrow> string \<Rightarrow> job_row \<Rightarrow> job_row" where
  "parked_job now errorKey = (\<lambda>j. j\<lparr>j_ParkedAt := Some now, j_LeaseUntil := None, j_LastErrorKey := errorKey, j_UpdatedAt := now\<rparr>)"

definition failed_row :: "time \<Rightarrow> string \<Rightarrow> bool \<Rightarrow> document_row \<Rightarrow> document_row" where
  "failed_row now errorKey publish = (\<lambda>d. d\<lparr>
     d_PublicationStatus := (if publish then PublicationPublishFailed else PublicationUnpublishFailed),
     d_PublicationError := Some errorKey, d_UpdatedAt := now\<rparr>)"

lemma ParkPublicationReferenceJob_success:
  assumes "ParkPublicationReferenceJob E now jobID key publish db = (Inr u, db')"
  obtains j where "get_job jobID db = Some j" "documents_check E (t_documents db')"
    "core db' = core (db\<lparr>
       t_documents := tbl_upd (\<lambda>d. d_ID d = j_DocumentID j) (at_generation (j_Generation j) (failed_row now key publish)) (t_documents db),
       t_jobs := tbl_upd (\<lambda>x. j_ID x = jobID) (parked_job now key) (t_jobs db)\<rparr>)"
  using assms unfolding ParkPublicationReferenceJob_def put_generation_def at_generation_def failed_row_def parked_job_def
  by (auto simp: tx_simps core_def)

end
