(* ===== verification/KnowledgeCommits.thy ===== *)
theory KnowledgeCommits
  imports KnowledgeHistory
begin

text \<open>Explicit commits of a document's content (\<open>services/knowledge/internal/repository/commits.go\<close>).\<close>

record Commit =
  co_ID :: string
  co_DocumentID :: string
  co_Kind :: string
  co_Label :: string
  co_Description :: string
  co_Contributor :: string
  co_Sequence :: int
  co_ContentHash :: string
  co_Content :: RichTextDocument
  co_PlainText :: string
  co_CreatedAt :: time
  co_UpdatedAt :: time

record CommitInput =
  ci_Kind :: string
  ci_Label :: string
  ci_Description :: string
  ci_Content :: "RichTextDocument option"
  ci_PlainText :: string
  ci_ContentHash :: string
  ci_Idempotency :: Idempotency

definition contentHash :: "kenv \<Rightarrow> RichTextDocument \<Rightarrow> string \<Rightarrow> string" where
  "contentHash E content plainText =
     ke_sha256 E (ke_marshal E (JObj [(''content'', ke_encode_doc E content), (''plain_text'', JStr plainText)]))"

definition commitFromModel :: "kenv \<Rightarrow> commit_row \<Rightarrow> kerr + Commit" where
  "commitFromModel E v = (case ke_decode_doc E (cm_Content v) of
     None \<Rightarrow> Inl (ErrOther ''decode commit content'')
   | Some content \<Rightarrow> Inr \<lparr>co_ID = cm_ID v, co_DocumentID = cm_DocumentID v, co_Kind = cm_Kind v, co_Label = cm_Label v,
       co_Description = cm_Description v, co_Contributor = cm_ContributorName v, co_Sequence = cm_Sequence v,
       co_ContentHash = cm_ContentHash v, co_Content = content, co_PlainText = cm_PlainText v,
       co_CreatedAt = cm_CreatedAt v, co_UpdatedAt = cm_UpdatedAt v\<rparr>)"

definition commits_newest :: "string \<Rightarrow> kdb \<Rightarrow> commit_row list" where
  "commits_newest docID db =
     rev (sort_key (\<lambda>c. (cm_CreatedAt c, cm_ID c)) (filter (\<lambda>c. cm_DocumentID c = docID) (t_commits db)))"

definition get_commit :: "string \<Rightarrow> kdb \<Rightarrow> commit_row option" where
  "get_commit commitID db = tbl_get cm_ID commitID (t_commits db)"

text \<open>The content to commit: the request's own, or the current projection.\<close>

definition commit_content :: "kenv \<Rightarrow> CommitInput \<Rightarrow> projection_row \<Rightarrow> kerr + RichTextDocument \<times> string" where
  "commit_content E input p = (case ci_Content input of
       Some c \<Rightarrow> Inr (c, ci_PlainText input)
     | None \<Rightarrow> (case ke_decode_doc E (p_Content p) of
          None \<Rightarrow> Inl (ErrOther ''decode current projection'')
        | Some c \<Rightarrow> Inr (c, p_PlainText p)))"

definition validate_content :: "kenv \<Rightarrow> RichTextDocument \<Rightarrow> kerr + unit" where
  "validate_content E c = (case Validate (ke_richtext E) c of Inl es \<Rightarrow> Inl (ErrInvalid es) | Inr _ \<Rightarrow> Inr ())"

definition store_commit ::
  "kenv \<Rightarrow> time \<Rightarrow> string \<Rightarrow> int \<Rightarrow> CommitInput \<Rightarrow> document_row \<Rightarrow> projection_row \<Rightarrow> string \<Rightarrow> string \<Rightarrow> string
     \<Rightarrow> RichTextDocument \<Rightarrow> string \<Rightarrow> Commit ktx" where
  "store_commit E now docID actorID input record projection kind label hash content plainText =
     tbind (newID E) (\<lambda>commitID.
     let commit = \<lparr>cm_ID = commitID, cm_DocumentID = docID, cm_Kind = kind, cm_Label = label,
           cm_Description = ci_Description input, cm_ContributorID = actorID, cm_ContributorName = d_OwnerUsername record,
           cm_Sequence = p_Sequence projection, cm_ContentHash = hash, cm_Content = ke_encode_doc E content,
           cm_PlainText = plainText, cm_IsAnchor = (kind = ''publish'' \<or> kind = ''restore''),
           cm_CreatedAt = now, cm_UpdatedAt = now\<rparr>
     in tbind (tinsert t_commits t_commits_update cm_ID ErrConflict commit) (\<lambda>_.
        tbind (saveIdempotency now (ci_Idempotency input) commitID) (\<lambda>_.
        tlift (commitFromModel E commit))))"

definition CreateCommit :: "kenv \<Rightarrow> time \<Rightarrow> string \<Rightarrow> int \<Rightarrow> CommitInput \<Rightarrow> kdb \<Rightarrow> (kerr + Commit) \<times> kdb" where
  "CreateCommit E now docID actorID input = transaction (
     tbind (idempotentResource now (ci_Idempotency input)) (\<lambda>existing.
     case existing of
       Some existingID \<Rightarrow> tbind (tsome (get_commit existingID) ErrNotFound) (\<lambda>c. tlift (commitFromModel E c))
     | None \<Rightarrow>
         tbind (lockDocument docID actorID False) (\<lambda>(record, access).
         tbind (tguard (CanEdit access) ErrForbidden) (\<lambda>_.
         tbind (getProjection docID) (\<lambda>projection.
         tbind (tlift (commit_content E input projection)) (\<lambda>(content, plainText).
         tbind (tlift (validate_content E content)) (\<lambda>_.
         let kind = (if trim_space (ci_Kind input) = [] then ''manual'' else ci_Kind input);
             label = (if trim_space (ci_Label input) = [] then kind else ci_Label input);
             hash = (if trim_space (ci_ContentHash input) = [] then contentHash E content plainText
                     else trim_space (ci_ContentHash input))
         in tbind (tread (commits_newest docID)) (\<lambda>newest.
            case newest of
              latest # _ \<Rightarrow> if cm_ContentHash latest = hash then tlift (commitFromModel E latest)
                else store_commit E now docID actorID input record projection kind label hash content plainText
            | [] \<Rightarrow> store_commit E now docID actorID input record projection kind label hash content plainText))))))))"

primrec commits_from :: "kenv \<Rightarrow> commit_row list \<Rightarrow> kerr + Commit list" where
  "commits_from E [] = Inr []"
| "commits_from E (c # cs) = (case commitFromModel E c of Inl e \<Rightarrow> Inl e | Inr v \<Rightarrow>
     (case commits_from E cs of Inl e \<Rightarrow> Inl e | Inr vs \<Rightarrow> Inr (v # vs)))"

definition ListCommits :: "kenv \<Rightarrow> string \<Rightarrow> int \<Rightarrow> int \<Rightarrow> kdb \<Rightarrow> kerr + Commit list" where
  "ListCommits E docID actorID limit0 db =
     (case lockDocument docID actorID False db of
        Inl e \<Rightarrow> Inl e
      | Inr ((_, access), _) \<Rightarrow>
          if \<not> CanRead access then Inl ErrForbidden
          else let limit = (if limit0 \<le> 0 \<or> 200 < limit0 then 50 else limit0)
               in commits_from E (take (nat limit) (commits_newest docID db)))"

definition GetCommit :: "kenv \<Rightarrow> string \<Rightarrow> int \<Rightarrow> kdb \<Rightarrow> kerr + Commit" where
  "GetCommit E commitID actorID db =
     (case get_commit commitID db of
        None \<Rightarrow> Inl ErrNotFound
      | Some row \<Rightarrow> (case lockDocument (cm_DocumentID row) actorID False db of
          Inl e \<Rightarrow> Inl e
        | Inr ((_, access), _) \<Rightarrow> if \<not> CanRead access then Inl ErrForbidden else commitFromModel E row))"

definition RenameCommit :: "kenv \<Rightarrow> time \<Rightarrow> string \<Rightarrow> int \<Rightarrow> string \<Rightarrow> string \<Rightarrow> kdb \<Rightarrow> (kerr + Commit) \<times> kdb" where
  "RenameCommit E now commitID actorID label description = transaction (
     tbind (tsome (get_commit commitID) ErrNotFound) (\<lambda>row.
     tbind (lockDocument (cm_DocumentID row) actorID False) (\<lambda>(_, access).
     tbind (tguard (CanEdit access) ErrForbidden) (\<lambda>_.
     tbind (tguard (trim_space label \<noteq> [] \<and> rune_count label \<le> 160 \<and> rune_count description \<le> 2000)
              (ErrInvalid [ValidationError ''commit'' ''label and description are invalid''])) (\<lambda>_.
     let row' = row\<lparr>cm_Label := trim_space label, cm_Description := trim_space description, cm_UpdatedAt := now\<rparr>
     in tbind (twrite (t_commits_update (tbl_save cm_ID row'))) (\<lambda>_.
        tlift (commitFromModel E row')))))))"

definition RestoreCommit :: "kenv \<Rightarrow> time \<Rightarrow> string \<Rightarrow> int \<Rightarrow> Idempotency \<Rightarrow> kdb \<Rightarrow> (kerr + Document) \<times> kdb" where
  "RestoreCommit E now commitID actorID idempotency = transaction (
     tbind (idempotentResource now idempotency) (\<lambda>existing.
     case existing of
       Some existingID \<Rightarrow> getDocument E existingID actorID False
     | None \<Rightarrow>
         tbind (tsome (get_commit commitID) ErrNotFound) (\<lambda>commit.
         tbind (lockDocument (cm_DocumentID commit) actorID False) (\<lambda>(record, access).
         tbind (tguard (CanEdit access) ErrForbidden) (\<lambda>_.
         tbind (getProjection (cm_DocumentID commit)) (\<lambda>projection.
         tbind (twrite (t_projections_update (tbl_upd (\<lambda>p. p_DocumentID p = cm_DocumentID commit)
                  (\<lambda>p. p\<lparr>p_Content := cm_Content commit, p_PlainText := cm_PlainText commit,
                         p_Sequence := p_Sequence p + 1, p_ProjectedAt := now\<rparr>)))) (\<lambda>_.
         tbind (put_document E (ErrOther ''restore document revision'') (cm_DocumentID commit)
                  (\<lambda>d. d\<lparr>d_ContentRevision := d_ContentRevision d + 1, d_UpdatedAt := now\<rparr>)) (\<lambda>_.
         tbind (newID E) (\<lambda>newCommitID.
         tbind (tinsert t_commits t_commits_update cm_ID ErrConflict
                  (commit\<lparr>cm_ID := newCommitID, cm_Kind := ''restore'', cm_Label := ''Restored '' @ cm_Label commit,
                          cm_CreatedAt := now, cm_UpdatedAt := now\<rparr>)) (\<lambda>_.
         tbind (saveIdempotency now idempotency (d_ID record)) (\<lambda>_.
         tret (documentFromModel (record\<lparr>d_UpdatedAt := now\<rparr>) access
                 (Some (projection\<lparr>p_Content := cm_Content commit, p_PlainText := cm_PlainText commit,
                                   p_ProjectedAt := now\<rparr>))))))))))))))"

section \<open>Effect of the operations\<close>

lemma store_commit_core: "store_commit E now i a input d p k l h c t db = Inr (r, db') \<Longrightarrow> core db' = core db"
  by (auto simp: store_commit_def Let_def tx_simps core_def dest!: saveIdempotency_core)

lemma CreateCommit_core: "core (snd (CreateCommit E now docID a input db)) = core db"
  unfolding CreateCommit_def
proof (rule transaction_preserves, goal_cases)
  case (2 r db')
  then obtain ex s1 where s1: "idempotentResource now (ci_Idempotency input) db = Inr (ex, s1)"
    unfolding tbind_Inr by blast
  note c1 = idempotentResource_core [OF s1]
  have "core db' = core s1"
    using 2 s1
    by (cases "commits_newest docID s1")
      (auto simp: tx_simps Let_def split: option.split_asm if_split_asm dest: store_commit_core)
  then show ?case using c1 by simp
qed simp

lemma RenameCommit_core: "core (snd (RenameCommit E now i a l descr db)) = core db"
  unfolding RenameCommit_def
  by (rule transaction_preserves) (auto simp: tx_simps Let_def core_def)

definition restore_document :: "time \<Rightarrow> document_row \<Rightarrow> document_row" where
  "restore_document now = (\<lambda>d. d\<lparr>d_ContentRevision := d_ContentRevision d + 1, d_UpdatedAt := now\<rparr>)"

definition restore_projection :: "time \<Rightarrow> commit_row \<Rightarrow> projection_row \<Rightarrow> projection_row" where
  "restore_projection now c = (\<lambda>p. p\<lparr>p_Content := cm_Content c, p_PlainText := cm_PlainText c,
     p_Sequence := p_Sequence p + 1, p_ProjectedAt := now\<rparr>)"

lemma RestoreCommit_success:
  assumes "RestoreCommit E now commitID a v db = (Inr r, db')"
  shows "core db' = core db \<or> (\<exists>c d. get_commit commitID db = Some c \<and> get_document (cm_DocumentID c) db = Some d
     \<and> d_DeletedAt d = None \<and> CanEdit (accessFor d a db)
     \<and> documents_check E (tbl_upd (\<lambda>x. d_ID x = cm_DocumentID c) (restore_document now) (t_documents db))
     \<and> core db' = core (db\<lparr>
         t_documents := tbl_upd (\<lambda>x. d_ID x = cm_DocumentID c) (restore_document now) (t_documents db),
         t_projections := tbl_upd (\<lambda>p. p_DocumentID p = cm_DocumentID c) (restore_projection now c) (t_projections db)\<rparr>))"
proof -
  from assms obtain ex s1 where s1: "idempotentResource now v db = Inr (ex, s1)"
    unfolding RestoreCommit_def transaction_Inr tbind_Inr by blast
  note c1 = idempotentResource_core [OF s1]
  have cm: "t_commits s1 = t_commits db"
    using s1 by (auto simp: idempotentResource_def split: if_splits option.splits)
  show ?thesis
  proof (cases ex)
    case (Some i)
    then have "db' = s1" using assms s1 unfolding RestoreCommit_def by (auto simp: transaction_Inr tbind_Inr dest: getDocument_pure)
    then show ?thesis using c1 by simp
  next
    case None
    with assms s1 obtain c d s2 where d: "get_commit commitID s1 = Some c" "find_document (cm_DocumentID c) False s1 = Some d"
        "CanEdit (accessFor d a s1)"
        "documents_check E (tbl_upd (\<lambda>x. d_ID x = cm_DocumentID c) (restore_document now) (t_documents s1))"
      and s3: "saveIdempotency now v (d_ID d) s2 = Inr ((), db')"
      and s2: "core s2 = core (s1\<lparr>
         t_documents := tbl_upd (\<lambda>x. d_ID x = cm_DocumentID c) (restore_document now) (t_documents s1),
         t_projections := tbl_upd (\<lambda>p. p_DocumentID p = cm_DocumentID c) (restore_projection now c) (t_projections s1)\<rparr>)"
      unfolding RestoreCommit_def restore_document_def restore_projection_def
      by (simp add: tx_simps) (elim exE conjE, force simp: core_def)
    have "core db' = core (db\<lparr>
         t_documents := tbl_upd (\<lambda>x. d_ID x = cm_DocumentID c) (restore_document now) (t_documents db),
         t_projections := tbl_upd (\<lambda>p. p_DocumentID p = cm_DocumentID c) (restore_projection now c) (t_projections db)\<rparr>)"
      using saveIdempotency_core [OF s3] s2 c1 by (simp add: core_def)
    moreover have "get_commit commitID db = Some c" using d(1) cm by (simp add: get_commit_def)
    moreover have "get_document (cm_DocumentID c) db = Some d" "d_DeletedAt d = None" "CanEdit (accessFor d a db)"
      using d(2,3) unfolding core_reads [OF c1] by (auto simp: find_document_iff)
    ultimately show ?thesis using d(4) coreD(1) [OF c1] by auto
  qed
qed

end
