(* ===== verification/KnowledgeFolders.thy ===== *)
theory KnowledgeFolders
  imports KnowledgeStore
begin

text \<open>
  Folders (\<open>services/knowledge/internal/repository/folders.go\<close>). The recursive query that looks for cycles is
  unrolled as many times as there are folders, which reaches every descendant.
\<close>

section \<open>Constraints\<close>

definition folder_name_key :: "kenv \<Rightarrow> folder_row \<Rightarrow> int \<times> string option \<times> string" where
  "folder_name_key E f = (f_OwnerID f, f_ParentID f, to_lower (ke_lower E) (f_Name f))"

definition folders_check :: "kenv \<Rightarrow> folder_row list \<Rightarrow> bool" where
  "folders_check E rows \<longleftrightarrow> distinct (map (folder_name_key E) rows) \<and> (\<forall>f \<in> set rows. 1 \<le> f_Depth f \<and> f_Depth f \<le> 8)"

definition put_folders :: "kenv \<Rightarrow> kerr \<Rightarrow> (folder_row list \<Rightarrow> folder_row list) \<Rightarrow> unit ktx" where
  "put_folders E err g db =
     (if folders_check E (g (t_folders db)) then Inr ((), db\<lparr>t_folders := g (t_folders db)\<rparr>) else Inl err)"

definition owned_folder :: "string \<Rightarrow> int \<Rightarrow> kdb \<Rightarrow> folder_row option" where
  "owned_folder folderID ownerID db = find (\<lambda>f. f_ID f = folderID \<and> f_OwnerID f = ownerID) (t_folders db)"

lemma put_folders_iff [tx_simps]:
  "put_folders E err g db = Inr (u, db') \<longleftrightarrow> folders_check E (g (t_folders db)) \<and> db' = db\<lparr>t_folders := g (t_folders db)\<rparr>"
  "put_folders E err g db = Inl e \<longleftrightarrow> \<not> folders_check E (g (t_folders db)) \<and> e = err"
  by (auto simp: put_folders_def)

section \<open>Operations\<close>

definition depth_error :: kerr where
  "depth_error = ErrInvalid [ValidationError ''parent_id'' ''folder depth cannot exceed 8'']"

definition ListFolders :: "kenv \<Rightarrow> int \<Rightarrow> string option \<Rightarrow> kdb \<Rightarrow> Folder list" where
  "ListFolders E ownerID parentID db =
     map folderFromModel (sort_key (\<lambda>f. (to_lower (ke_lower E) (f_Name f), f_ID f))
       (filter (\<lambda>f. f_OwnerID f = ownerID \<and> f_ParentID f = parentID) (t_folders db)))"

definition parent_depth :: "int \<Rightarrow> string option \<Rightarrow> int ktx" where
  "parent_depth ownerID parentID =
     (case parentID of
        None \<Rightarrow> tret 1
      | Some p \<Rightarrow> tbind (tsome (owned_folder p ownerID) ErrNotFound) (\<lambda>parent.
          tbind (tguard (f_Depth parent + 1 \<le> 8) depth_error) (\<lambda>_. tret (f_Depth parent + 1))))"

definition CreateFolder ::
  "kenv \<Rightarrow> time \<Rightarrow> int \<Rightarrow> string \<Rightarrow> string option \<Rightarrow> Idempotency \<Rightarrow> kdb \<Rightarrow> (kerr + Folder) \<times> kdb" where
  "CreateFolder E now ownerID name parentID idempotency = transaction (
     tbind (idempotentResource now idempotency) (\<lambda>existing.
     case existing of
       Some existingID \<Rightarrow> tbind (tsome (owned_folder existingID ownerID) ErrNotFound) (\<lambda>f. tret (folderFromModel f))
     | None \<Rightarrow>
         tbind (parent_depth ownerID parentID) (\<lambda>depth.
         tbind (newID E) (\<lambda>folderID.
         let row = \<lparr>f_ID = folderID, f_OwnerID = ownerID, f_ParentID = parentID, f_Name = name, f_Depth = depth,
                    f_Revision = 1, f_CreatedAt = now, f_UpdatedAt = now\<rparr>
         in tbind (tcheck (\<lambda>db. \<forall>f \<in> set (t_folders db). f_ID f \<noteq> folderID) ErrConflict) (\<lambda>_.
            tbind (put_folders E ErrConflict (\<lambda>fs. fs @ [row])) (\<lambda>_.
            tbind (saveIdempotency now idempotency folderID) (\<lambda>_.
            tret (folderFromModel row))))))))"

text \<open>The identifiers below a set of folders of one owner, level by level.\<close>

primrec descendant_ids :: "nat \<Rightarrow> folder_row list \<Rightarrow> int \<Rightarrow> string list \<Rightarrow> string list" where
  "descendant_ids 0 rows ownerID ids = ids"
| "descendant_ids (Suc n) rows ownerID ids = ids @ descendant_ids n rows ownerID
     (map f_ID (filter (\<lambda>f. f_OwnerID f = ownerID \<and> (case f_ParentID f of None \<Rightarrow> False | Some p \<Rightarrow> p \<in> set ids)) rows))"

definition in_subtree :: "string \<Rightarrow> int \<Rightarrow> string \<Rightarrow> kdb \<Rightarrow> bool" where
  "in_subtree folderID ownerID target db \<longleftrightarrow>
     target \<in> set (descendant_ids (length (t_folders db)) (t_folders db) ownerID [folderID])"

definition nullableFolderID :: "string \<Rightarrow> string option" where
  "nullableFolderID v = (if trim_space v = [] then None else Some v)"

text \<open>The new parent and depth of a move, or \<open>None\<close> when the request does not move the folder.\<close>

definition move_target :: "string \<Rightarrow> int \<Rightarrow> string option \<Rightarrow> (string option \<times> int) option ktx" where
  "move_target folderID ownerID parentID =
     (case parentID of
        None \<Rightarrow> tret None
      | Some p \<Rightarrow>
          tbind (tguard (p \<noteq> folderID) ErrConflict) (\<lambda>_.
          if p = [] then tret (Some (nullableFolderID p, 1))
          else tbind (tcheck (\<lambda>db. \<not> in_subtree folderID ownerID p db) ErrConflict) (\<lambda>_.
               tbind (tsome (owned_folder p ownerID) ErrNotFound) (\<lambda>parent.
               tbind (tguard (f_Depth parent + 1 \<le> 8) depth_error) (\<lambda>_.
               tret (Some (nullableFolderID p, f_Depth parent + 1)))))))"

definition UpdateFolder ::
  "kenv \<Rightarrow> time \<Rightarrow> int \<Rightarrow> string \<Rightarrow> int \<Rightarrow> string option \<Rightarrow> string option \<Rightarrow> kdb \<Rightarrow> (kerr + Folder) \<times> kdb" where
  "UpdateFolder E now ownerID folderID expected name parentID = transaction (
     tbind (tsome (owned_folder folderID ownerID) ErrNotFound) (\<lambda>row.
     tbind (tguard (f_Revision row = expected) ErrPrecondition) (\<lambda>_.
     tbind (tguard (name \<noteq> None \<or> parentID \<noteq> None)
              (ErrInvalid [ValidationError ''folder'' ''at least one field must be provided''])) (\<lambda>_.
     tbind (move_target folderID ownerID parentID) (\<lambda>move.
     tbind (put_folders E ErrConflict (tbl_upd (\<lambda>f. f_ID f = folderID)
              (\<lambda>f. let g = f\<lparr>f_Revision := f_Revision f + 1, f_UpdatedAt := now, f_Name := or_keep name (f_Name f)\<rparr>
                   in case move of None \<Rightarrow> g | Some (p, depth) \<Rightarrow> g\<lparr>f_ParentID := p, f_Depth := depth\<rparr>))) (\<lambda>_.
     tbind (tsome (\<lambda>db. tbl_get f_ID folderID (t_folders db)) (ErrOther ''reload folder'')) (\<lambda>row'.
     tret (folderFromModel row'))))))))"

definition DeleteFolder :: "kenv \<Rightarrow> time \<Rightarrow> int \<Rightarrow> string \<Rightarrow> int \<Rightarrow> kdb \<Rightarrow> (kerr + unit) \<times> kdb" where
  "DeleteFolder E now ownerID folderID expected = transaction (
     tbind (tsome (owned_folder folderID ownerID) ErrNotFound) (\<lambda>row.
     tbind (tguard (f_Revision row = expected) ErrPrecondition) (\<lambda>_.
     tbind (put_folders E (ErrOther ''reparent child folders'')
              (tbl_upd (\<lambda>f. f_OwnerID f = ownerID \<and> f_ParentID f = Some folderID)
                 (\<lambda>f. f\<lparr>f_ParentID := f_ParentID row, f_Depth := max (f_Depth f - 1) 1, f_UpdatedAt := now\<rparr>))) (\<lambda>_.
     tbind (twrite (t_placements_update (tbl_upd (\<lambda>p. pl_OwnerID p = ownerID \<and> pl_FolderID p = Some folderID)
              (\<lambda>p. p\<lparr>pl_FolderID := f_ParentID row, pl_Revision := pl_Revision p + 1, pl_UpdatedAt := now\<rparr>)))) (\<lambda>_.
     twrite (t_folders_update (tbl_del (\<lambda>f. f_ID f = folderID))))))))"

end
