(* ===== verification/PublicationInvariant.thy ===== *)
theory PublicationInvariant
  imports PublicationSaga KnowledgeCommits KnowledgeFolders
begin

text \<open>
  The invariant of the publication saga over every operation of the knowledge repository. \<open>kstep\<close> is one
  repository call, by a user or by the worker, at any time and with any arguments; \<open>kreach\<close> are the
  databases reachable from an empty one. New documents enter as drafts of generation zero, the way
  \<open>logic/documents.go\<close> builds them.
\<close>

section \<open>Steps\<close>

definition draft_document :: "Document \<Rightarrow> bool" where
  "draft_document doc \<longleftrightarrow> doc_PublicationStatus doc = PublicationDraft \<and> doc_PublicationGeneration doc = 0
     \<and> doc_DeletedAt doc = None \<and> doc_PurgeAfter doc = None"

inductive kstep :: "kenv \<Rightarrow> kdb \<Rightarrow> kdb \<Rightarrow> bool" for E where
  create: "CreateDocument E now doc v db = (r, db') \<Longrightarrow> draft_document doc \<Longrightarrow> kstep E db db'"
| update: "UpdateDocument E now docID a e u db = (r, db') \<Longrightarrow> kstep E db db'"
| soft_delete: "SoftDeleteDocument E now docID a e db = (r, db') \<Longrightarrow> kstep E db db'"
| restore: "RestoreDeletedDocument E now docID a db = (r, db') \<Longrightarrow> kstep E db db'"
| purge_request: "PurgeDeletedDocument E now docID a e v db = (r', db') \<Longrightarrow> kstep E db db'"
| purge: "PurgeDocument now docID db = (r', db') \<Longrightarrow> kstep E db db'"
| maintenance: "PurgeMaintenanceData now db = (r', db') \<Longrightarrow> kstep E db db'"
| add_member: "AddMember E now docID a user role v db = (m, db') \<Longrightarrow> kstep E db db'"
| update_member: "UpdateMember E now docID a userID e role db = (m, db') \<Longrightarrow> kstep E db db'"
| delete_member: "DeleteMember E now docID a userID e db = (r', db') \<Longrightarrow> kstep E db db'"
| project: "UpsertProjection E pj db = (r', db') \<Longrightarrow> kstep E db db'"
| checkpoint: "CreateDueHistoryCheckpoint E now db = (h, db') \<Longrightarrow> kstep E db db'"
| prune: "PruneHistory now db = (r', db') \<Longrightarrow> kstep E db db'"
| commit: "CreateCommit E now docID a input db = (c, db') \<Longrightarrow> kstep E db db'"
| rename: "RenameCommit E now commitID a l descr db = (c, db') \<Longrightarrow> kstep E db db'"
| restore_commit: "RestoreCommit E now commitID a v db = (r, db') \<Longrightarrow> kstep E db db'"
| create_folder: "CreateFolder E now ownerID name parentID v db = (f, db') \<Longrightarrow> kstep E db db'"
| update_folder: "UpdateFolder E now ownerID folderID e nm parentID db = (f, db') \<Longrightarrow> kstep E db db'"
| delete_folder: "DeleteFolder E now ownerID folderID e db = (r', db') \<Longrightarrow> kstep E db db'"
| publish: "PublishSnapshot E now docID a e snapshot db = (r, db') \<Longrightarrow> kstep E db db'"
| unpublish: "SetPublication E now docID a e published v db = (r, db') \<Longrightarrow> kstep E db db'"
| claim_jobs: "ClaimPublicationReferenceJobs now limit lease db = (js, db') \<Longrightarrow> kstep E db db'"
| stage: "MarkPublicationReferencesStaged now jobID db = (r', db') \<Longrightarrow> kstep E db db'"
| mark_promoted: "MarkPublicationPromoted now jobID db = (r', db') \<Longrightarrow> kstep E db db'"
| promote: "PromotePublication E now job db = (r', db') \<Longrightarrow> kstep E db db'"
| complete: "CompletePublicationReferenceJob E now jobID clear db = (r', db') \<Longrightarrow> kstep E db db'"
| redrive: "RedrivePublicationReferenceClear now docID db = (r', db') \<Longrightarrow> kstep E db db'"
| retry_job: "RetryPublicationReferenceJob now jobID key attempts db = (r', db') \<Longrightarrow> kstep E db db'"
| park_job: "ParkPublicationReferenceJob E now jobID key isPublish db = (r', db') \<Longrightarrow> kstep E db db'"
| claim_outbox: "ClaimOutbox E now limit lease db = (ms, db') \<Longrightarrow> kstep E db db'"
| mark_outbox: "MarkOutboxPublished now msgID db = (r', db') \<Longrightarrow> kstep E db db'"
| retry_outbox: "RetryOutbox now msgID delay db = (r', db') \<Longrightarrow> kstep E db db'"
| park_outbox: "ParkOutbox now msgID reason db = (r', db') \<Longrightarrow> kstep E db db'"

inductive kreach :: "kenv \<Rightarrow> kdb \<Rightarrow> bool" for E where
  start: "kreach E empty_db"
| step: "kreach E db \<Longrightarrow> kstep E db db' \<Longrightarrow> kreach E db'"

section \<open>The effect of a step on the saga's tables\<close>

definition saga_view where
  "saga_view (db :: kdb) = (t_documents db, t_publications db, t_candidates db, t_media_refs db, t_jobs db)"

lemma saga_view_core: "core db' = core db \<Longrightarrow> saga_view db' = saga_view db"
  by (simp add: core_def saga_view_def)

text \<open>An update of one document that leaves its identity and publication state alone.\<close>

definition quiet :: "(document_row \<Rightarrow> document_row) \<Rightarrow> bool" where
  "quiet f \<longleftrightarrow> (\<forall>d. d_ID (f d) = d_ID d \<and> d_OwnerID (f d) = d_OwnerID d \<and> d_PublicationStatus (f d) = d_PublicationStatus d
     \<and> d_PublicationGeneration (f d) = d_PublicationGeneration d
     \<and> d_MetadataRevision d \<le> d_MetadataRevision (f d) \<and> d_PermissionRevision d \<le> d_PermissionRevision (f d))"

text \<open>A change of jobs that keeps their identity, generation, action and attachments, and parks or unparks at most clear jobs.\<close>

definition job_quiet :: "(job_row \<Rightarrow> job_row) \<Rightarrow> bool" where
  "job_quiet f \<longleftrightarrow> (\<forall>j. j_ID (f j) = j_ID j \<and> j_DocumentID (f j) = j_DocumentID j \<and> j_Generation (f j) = j_Generation j
     \<and> j_Action (f j) = j_Action j \<and> j_AttachmentIDs (f j) = j_AttachmentIDs j \<and> (j_ParkedAt (f j) = None \<and> j_Action j = publicationActionPublish \<longrightarrow> j_ParkedAt j = None))"

inductive saga_step :: "kenv \<Rightarrow> kdb \<Rightarrow> kdb \<Rightarrow> bool" for E where
  same: "saga_view db' = saga_view db \<Longrightarrow> saga_step E db db'"
| created: "saga_view db' = saga_view (db\<lparr>t_documents := t_documents db @ [d]\<rparr>) \<Longrightarrow>
    \<forall>x \<in> set (t_documents db). d_ID x \<noteq> d_ID d \<Longrightarrow> documents_check E (t_documents db') \<Longrightarrow>
    d_PublicationGeneration d = 0 \<Longrightarrow> d_PublicationStatus d = PublicationDraft \<Longrightarrow> saga_step E db db'"
| touched: "saga_view db' = saga_view (db\<lparr>t_documents := tbl_upd (\<lambda>x. d_ID x = docID) f (t_documents db)\<rparr>) \<Longrightarrow>
    quiet f \<Longrightarrow> documents_check E (t_documents db') \<Longrightarrow> saga_step E db db'"
| purged: "saga_view db' = saga_view (cascade_document docID db) \<Longrightarrow> saga_step E db db'"
| sent: "saga_view db' = saga_view (submitted E jobID now d input db) \<Longrightarrow> get_document (d_ID d) db = Some d \<Longrightarrow>
    documents_check E (t_documents db') \<Longrightarrow>
    \<forall>j \<in> set (tbl_del (\<lambda>j. j_DocumentID j = d_ID d \<and> j_ParkedAt j = None) (t_jobs db)). j_ID j \<noteq> jobID \<Longrightarrow> saga_step E db db'"
| pulled: "saga_view db' = saga_view (withdrawn jobID now d f db) \<Longrightarrow> get_document (d_ID d) db = Some d \<Longrightarrow>
    documents_check E (t_documents db') \<Longrightarrow>
    \<forall>j \<in> set (tbl_del (\<lambda>j. j_DocumentID j = d_ID d \<and> j_ParkedAt j = None) (t_jobs db)). j_ID j \<noteq> jobID \<Longrightarrow>
    f = unpublish_row now (d_PublicationGeneration d + 1) \<or> f = soft_delete_row now (d_PublicationGeneration d + 1) \<Longrightarrow>
    saga_step E db db'"
| lifted: "saga_view db' = saga_view (promoted now job c db) \<Longrightarrow> promotable db job d c \<Longrightarrow>
    pub_slug_free E (publication_of c now) (t_publications db) \<Longrightarrow>
    documents_check E (t_documents db') \<Longrightarrow> saga_step E db db'"
| requeued: "saga_view db' = saga_view (db\<lparr>t_jobs := tbl_upd p f (t_jobs db)\<rparr>) \<Longrightarrow> job_quiet f \<Longrightarrow> saga_step E db db'"
| finished: "saga_view db' = saga_view (db\<lparr>t_jobs := tbl_del p (t_jobs db)\<rparr>) \<Longrightarrow> saga_step E db db'"
| cleared: "saga_view db' = saga_view (db\<lparr>
      t_documents := tbl_upd (\<lambda>d. d_ID d = docID) (at_generation g (cleared_row now)) (t_documents db),
      t_media_refs := tbl_del (\<lambda>r. mr_DocumentID r = docID \<and> mr_Generation r = g) (t_media_refs db),
      t_jobs := tbl_del p (t_jobs db)\<rparr>) \<Longrightarrow> documents_check E (t_documents db') \<Longrightarrow> saga_step E db db'"
| failed: "saga_view db' = saga_view (db\<lparr>
      t_documents := tbl_upd (\<lambda>d. d_ID d = docID) (at_generation g (failed_row now key publish)) (t_documents db),
      t_jobs := tbl_upd p (parked_job now key) (t_jobs db)\<rparr>) \<Longrightarrow> documents_check E (t_documents db') \<Longrightarrow> saga_step E db db'"

lemma quiet_rows [simp]:
  "quiet (apply_patch u now)" "quiet (restore_row now)" "quiet (purge_request_row now)" "quiet (permission_bump now)"
  "quiet (project_document pj)" "quiet (restore_document now)"
  by (simp_all add: quiet_def apply_patch_def restore_row_def purge_request_row_def permission_bump_def
      project_document_def restore_document_def)

lemma saga_step_failed [simp, intro]: "saga_step E db db"
  by (rule saga_step.same) simp

lemma permission_changed_saga:
  assumes "permission_changed E now d g db db'"
  shows "saga_step E db db'"
proof (rule saga_step.touched [where f = "permission_bump now" and docID = "d_ID d"])
  show "saga_view db' = saga_view (db\<lparr>t_documents := tbl_upd (\<lambda>x. d_ID x = d_ID d) (permission_bump now) (t_documents db)\<rparr>)"
    using assms by (simp add: permission_changed_def core_def saga_view_def)
qed (use assms in \<open>auto simp: permission_changed_def\<close>)

lemma transaction_fail: "transaction m db = (Inl e, db') \<Longrightarrow> db' = db"
  by (simp add: transaction_Inl)

lemma put_saga:
  assumes "core db' = core (db\<lparr>t_documents := tbl_upd (\<lambda>x. d_ID x = docID) f (t_documents db)\<rparr>)" "quiet f"
    "documents_check E (tbl_upd (\<lambda>x. d_ID x = docID) f (t_documents db))"
  shows "saga_step E db db'"
  using assms by (intro saga_step.touched [where f = f and docID = docID]) (auto simp: core_def saga_view_def)

lemma document_steps:
  "CreateDocument E now doc v db = (Inr r, db') \<Longrightarrow> draft_document doc \<Longrightarrow> saga_step E db db'"
  "UpdateDocument E now docID a e u db = (Inr r, db') \<Longrightarrow> saga_step E db db'"
  "SoftDeleteDocument E now docID a e db = (Inr r, db') \<Longrightarrow> saga_step E db db'"
  "RestoreDeletedDocument E now docID a db = (Inr r, db') \<Longrightarrow> saga_step E db db'"
  "PurgeDeletedDocument E now docID a e v db = (Inr r', db') \<Longrightarrow> saga_step E db db'"
  "PurgeDocument now docID db = (Inr r', db') \<Longrightarrow> saga_step E db db'"
proof -
  assume "CreateDocument E now doc v db = (Inr r, db')" and d: "draft_document doc"
  from CreateDocument_success [OF this(1)] show "saga_step E db db'"
  proof
    assume "core db' = core db"
    then show ?thesis by (intro saga_step.same saga_view_core)
  next
    assume *: "(\<forall>d \<in> set (t_documents db). d_ID d \<noteq> doc_ID doc) \<and> documents_check E (t_documents db @ [documentToModel doc])
      \<and> core db' = core (db\<lparr>t_documents := t_documents db @ [documentToModel doc],
         t_projections := t_projections db @ [\<lparr>p_DocumentID = doc_ID doc, p_Sequence = 0, p_Content = initial_content,
                        p_PlainText = [], p_ProjectedAt = doc_CreatedAt doc\<rparr>]\<rparr>)"
    show ?thesis
    proof (rule saga_step.created [where d = "documentToModel doc"])
      show "saga_view db' = saga_view (db\<lparr>t_documents := t_documents db @ [documentToModel doc]\<rparr>)"
        using * by (simp add: core_def saga_view_def)
      show "documents_check E (t_documents db')" using * by (simp add: core_def)
    qed (use * d in \<open>simp_all add: documentToModel_def draft_document_def\<close>)
  qed
next
  assume "UpdateDocument E now docID a e u db = (Inr r, db')"
  then show "saga_step E db db'" by (elim UpdateDocument_success) (rule put_saga, auto)
next
  assume "SoftDeleteDocument E now docID a e db = (Inr r, db')"
  then show "saga_step E db db'"
  proof (elim SoftDeleteDocument_success)
    fix d jobID
    assume g: "get_document docID db = Some d" and c: "documents_check E (t_documents db')"
      and j: "\<forall>j \<in> set (tbl_del (\<lambda>j. j_DocumentID j = docID \<and> j_ParkedAt j = None) (t_jobs db)). j_ID j \<noteq> jobID"
      and v: "core db' = core (withdrawn jobID now d (soft_delete_row now (d_PublicationGeneration d + 1)) db)"
    have "d_ID d = docID" using g by (rule get_document_ID)
    then show "saga_step E db db'" using saga_step.pulled [OF saga_view_core [OF v]] g c j by simp
  qed
next
  assume "RestoreDeletedDocument E now docID a db = (Inr r, db')"
  then show "saga_step E db db'" by (elim RestoreDeletedDocument_success) (rule put_saga, auto)
next
  assume "PurgeDeletedDocument E now docID a e v db = (Inr r', db')"
  from PurgeDeletedDocument_success [OF this] show "saga_step E db db'"
    by (elim disjE exE conjE) (rule saga_step.same, erule saga_view_core, rule put_saga, auto)
next
  assume "PurgeDocument now docID db = (Inr r', db')"
  then show "saga_step E db db'" by (elim PurgeDocument_success) (rule saga_step.purged, erule saga_view_core)
qed

lemma content_steps:
  "AddMember E now docID a user role v db = (Inr m, db') \<Longrightarrow> saga_step E db db'"
  "UpdateMember E now docID a userID e role db = (Inr m, db') \<Longrightarrow> saga_step E db db'"
  "DeleteMember E now docID a userID e db = (Inr r', db') \<Longrightarrow> saga_step E db db'"
  "UpsertProjection E pj db = (Inr r', db') \<Longrightarrow> saga_step E db db'"
  "RestoreCommit E now commitID a v db = (Inr r, db') \<Longrightarrow> saga_step E db db'"
proof -
  assume "AddMember E now docID a user role v db = (Inr m, db')"
  then show "saga_step E db db'"
    by (elim AddMember_success disjE conjE) (auto intro: saga_step.same saga_view_core permission_changed_saga)
next
  assume "UpdateMember E now docID a userID e role db = (Inr m, db')"
  then show "saga_step E db db'" by (elim UpdateMember_success) (rule permission_changed_saga)
next
  assume "DeleteMember E now docID a userID e db = (Inr r', db')"
  then show "saga_step E db db'" by (elim DeleteMember_success) (rule permission_changed_saga)
next
  assume "UpsertProjection E pj db = (Inr r', db')"
  then show "saga_step E db db'"
    by (elim UpsertProjection_success disjE conjE exE)
      (auto intro!: saga_step.touched [where f = "project_document pj" and docID = "pj_DocumentID pj"] simp: core_def saga_view_def)
next
  assume "RestoreCommit E now commitID a v db = (Inr r, db')"
  from RestoreCommit_success [OF this] show "saga_step E db db'"
  proof (elim disjE exE conjE)
    fix c d
    assume "documents_check E (tbl_upd (\<lambda>x. d_ID x = cm_DocumentID c) (restore_document now) (t_documents db))"
      and "core db' = core (db\<lparr>
         t_documents := tbl_upd (\<lambda>x. d_ID x = cm_DocumentID c) (restore_document now) (t_documents db),
         t_projections := tbl_upd (\<lambda>p. p_DocumentID p = cm_DocumentID c) (restore_projection now c) (t_projections db)\<rparr>)"
    then show "saga_step E db db'"
      by (intro saga_step.touched [where f = "restore_document now" and docID = "cm_DocumentID c"]) (auto simp: core_def saga_view_def)
  qed (rule saga_step.same, erule saga_view_core)
qed

lemma request_steps:
  "PublishSnapshot E now docID a e input db = (Inr r, db') \<Longrightarrow> saga_step E db db'"
  "SetPublication E now docID a e published v db = (Inr r, db') \<Longrightarrow> saga_step E db db'"
proof -
  assume "PublishSnapshot E now docID a e input db = (Inr r, db')"
  from PublishSnapshot_success [OF this] show "saga_step E db db'"
  proof (elim disjE conjE exE)
    fix d jobID
    assume g: "get_document docID db = Some d" and c: "documents_check E (t_documents db')"
      and j: "\<forall>j \<in> set (tbl_del (\<lambda>j. j_DocumentID j = docID \<and> j_ParkedAt j = None) (t_jobs db)). j_ID j \<noteq> jobID"
      and v: "core db' = core (submitted E jobID now d input db)"
    have "d_ID d = docID" using g by (rule get_document_ID)
    then show "saga_step E db db'" using saga_step.sent [OF saga_view_core [OF v]] g c j by simp
  qed simp
next
  assume "SetPublication E now docID a e published v db = (Inr r, db')"
  from SetPublication_success [OF this] show "saga_step E db db'"
  proof (elim disjE conjE exE)
    fix d jobID
    assume g: "get_document docID db = Some d" and c: "documents_check E (t_documents db')"
      and j: "\<forall>j \<in> set (tbl_del (\<lambda>j. j_DocumentID j = docID \<and> j_ParkedAt j = None) (t_jobs db)). j_ID j \<noteq> jobID"
      and v: "core db' = core (withdrawn jobID now d (unpublish_row now (d_PublicationGeneration d + 1)) db)"
    have "d_ID d = docID" using g by (rule get_document_ID)
    then show "saga_step E db db'" using saga_step.pulled [OF saga_view_core [OF v]] g c j by simp
  qed simp
qed

lemma job_quiet_claims:
  "job_quiet (\<lambda>j. j\<lparr>j_Attempts := x j, j_LeaseUntil := y j, j_UpdatedAt := z\<rparr>)"
  "job_quiet (\<lambda>j. j\<lparr>j_State := st, j_LastErrorKey := k, j_LeaseUntil := l, j_NextAttemptAt := n, j_UpdatedAt := z\<rparr>)"
  "job_quiet (\<lambda>j. j\<lparr>j_NextAttemptAt := n, j_LeaseUntil := l, j_LastErrorKey := k, j_UpdatedAt := z\<rparr>)"
  by (simp_all add: job_quiet_def)

lemma updatePublicationJob_step: "updatePublicationJob now jobID st k db = (Inr r, db') \<Longrightarrow> saga_step E db db'"
  unfolding updatePublicationJob_def
  by (rule saga_step.requeued [where p = "\<lambda>j. j_ID j = jobID \<and> j_ParkedAt j = None", OF _ job_quiet_claims(2)])
    (auto simp: tx_simps saga_view_def)

lemma redrive_step:
  assumes "RedrivePublicationReferenceClear now docID db = (Inr r, db')"
  shows "saga_step E db db'"
proof -
  let ?p = "\<lambda>j. j_DocumentID j = docID \<and> j_Action j = publicationActionClear \<and> j_ParkedAt j \<noteq> None"
  let ?f = "\<lambda>j. if j_Action j = publicationActionClear then j\<lparr>j_ParkedAt := None, j_Attempts := 0, j_LeaseUntil := None,
              j_NextAttemptAt := now, j_LastErrorKey := ''purge_reference_redrive'', j_UpdatedAt := now\<rparr> else j"
  have "t_jobs db' = tbl_upd ?p ?f (t_jobs db)"
    using assms unfolding RedrivePublicationReferenceClear_def
    by (auto simp: tx_simps Let_def tbl_upd_def split: if_split_asm)
  moreover have "t_documents db' = t_documents db" "t_publications db' = t_publications db"
      "t_candidates db' = t_candidates db" "t_media_refs db' = t_media_refs db"
    using assms unfolding RedrivePublicationReferenceClear_def by (auto simp: tx_simps Let_def split: if_split_asm)
  moreover have "job_quiet ?f" by (simp add: job_quiet_def)
  ultimately show ?thesis by (intro saga_step.requeued [where p = ?p and f = ?f]) (simp_all add: saga_view_def)
qed

lemma worker_steps:
  "ClaimPublicationReferenceJobs now limit lease db = (js, db') \<Longrightarrow> saga_step E db db'"
  "PromotePublication E now job db = (Inr r, db') \<Longrightarrow> saga_step E db db'"
  "CompletePublicationReferenceJob E now jobID clear db = (Inr r, db') \<Longrightarrow> saga_step E db db'"
  "RetryPublicationReferenceJob now jobID key attempts db = (r', db') \<Longrightarrow> saga_step E db db'"
  "ParkPublicationReferenceJob E now jobID key isPublish db = (Inr r, db') \<Longrightarrow> saga_step E db db'"
proof -
  assume "ClaimPublicationReferenceJobs now limit lease db = (js, db')"
  then show "saga_step E db db'" unfolding ClaimPublicationReferenceJobs_def Let_def
    by (intro saga_step.requeued [OF _ job_quiet_claims(1)]) (auto simp: saga_view_def)
next
  assume "PromotePublication E now job db = (Inr r, db')"
  from PromotePublication_success [OF this] show "saga_step E db db'"
    by (elim disjE conjE exE) (simp, rule saga_step.lifted, erule saga_view_core)
next
  assume "CompletePublicationReferenceJob E now jobID clear db = (Inr r, db')"
  then show "saga_step E db db'"
  proof (elim CompletePublicationReferenceJob_success)
    fix j
    assume v: "core db' = core (if clear
       then db\<lparr>t_documents := tbl_upd (\<lambda>d. d_ID d = j_DocumentID j) (at_generation (j_Generation j) (cleared_row now)) (t_documents db),
               t_media_refs := tbl_del (\<lambda>r. mr_DocumentID r = j_DocumentID j \<and> mr_Generation r = j_Generation j) (t_media_refs db),
               t_jobs := tbl_del (\<lambda>x. j_ID x = jobID) (t_jobs db)\<rparr>
       else db\<lparr>t_jobs := tbl_del (\<lambda>x. j_ID x = jobID) (t_jobs db)\<rparr>)"
      and c: "clear \<longrightarrow> documents_check E (t_documents db')"
    show "saga_step E db db'"
    proof (cases clear)
      case True
      then show ?thesis using v c by (auto intro: saga_step.cleared saga_view_core)
    next
      case False
      then show ?thesis using v by (auto intro: saga_step.finished saga_view_core)
    qed
  qed
next
  assume "RetryPublicationReferenceJob now jobID key attempts db = (r', db')"
  then have "db' = t_jobs_update (tbl_upd (\<lambda>j. j_ID j = jobID \<and> j_ParkedAt j = None)
       (\<lambda>j. j\<lparr>j_NextAttemptAt := now + publicationRetryDelay attempts, j_LeaseUntil := None,
              j_LastErrorKey := key, j_UpdatedAt := now\<rparr>)) db"
    by (simp add: RetryPublicationReferenceJob_def transaction_def twrite_def)
  then show "saga_step E db db'"
    by (intro saga_step.requeued [OF _ job_quiet_claims(3)]) (auto simp: saga_view_def)
next
  assume "ParkPublicationReferenceJob E now jobID key isPublish db = (Inr r, db')"
  then show "saga_step E db db'"
    by (elim ParkPublicationReferenceJob_success) (rule saga_step.failed, erule saga_view_core)
qed

lemma folder_core:
  "core (snd (CreateFolder E now ownerID name parentID v db)) = core db"
  "core (snd (UpdateFolder E now ownerID folderID e nm parentID db)) = core db"
  "core (snd (DeleteFolder E now ownerID folderID e db)) = core db"
proof -
  show "core (snd (CreateFolder E now ownerID name parentID v db)) = core db"
    unfolding CreateFolder_def
  proof (rule transaction_preserves, goal_cases)
    case (2 r db')
    then obtain ex s1 where s1: "idempotentResource now v db = Inr (ex, s1)" unfolding tbind_Inr by blast
    have "core db' = core s1"
      using 2 s1 by (auto simp: tx_simps Let_def parent_depth_def split: option.split_asm if_split_asm dest!: saveIdempotency_core)
        (auto simp: core_def)
    then show ?case using idempotentResource_core [OF s1] by simp
  qed simp
  show "core (snd (UpdateFolder E now ownerID folderID e nm parentID db)) = core db"
    unfolding UpdateFolder_def move_target_def
    by (rule transaction_preserves)
      (auto simp: tx_simps Let_def core_def split: option.split_asm if_split_asm)
  show "core (snd (DeleteFolder E now ownerID folderID e db)) = core db"
    unfolding DeleteFolder_def by (rule transaction_preserves) (auto simp: tx_simps core_def)
qed

lemma outbox_core:
  "core (snd (ClaimOutbox E now limit lease db)) = core db"
  "core (snd (MarkOutboxPublished now msgID db)) = core db"
  "core (snd (RetryOutbox now msgID delay db)) = core db"
  "core (snd (ParkOutbox now msgID reason db)) = core db"
  "core (snd (PurgeMaintenanceData now db)) = core db"
  by (auto simp: ClaimOutbox_def MarkOutboxPublished_def RetryOutbox_def ParkOutbox_def PurgeMaintenanceData_def
      Let_def transaction_def tupdate1_def tbind_def twrite_def core_def)

lemmas op_failures = CreateDocument_def UpdateDocument_def SoftDeleteDocument_def RestoreDeletedDocument_def
  PurgeDeletedDocument_def PurgeDocument_def AddMember_def UpdateMember_def DeleteMember_def UpsertProjection_def
  RestoreCommit_def PublishSnapshot_def PromotePublication_def CompletePublicationReferenceJob_def
  ParkPublicationReferenceJob_def RedrivePublicationReferenceClear_def updatePublicationJob_def

lemma same_core_step: "core (snd x) = core db \<Longrightarrow> x = (r, db') \<Longrightarrow> saga_step E db db'"
  by (auto intro: saga_step.same saga_view_core)

lemma SetPublication_fail: "SetPublication E now docID a e published v db = (Inl err, db') \<Longrightarrow> db' = db"
  by (auto simp: SetPublication_def transaction_Inl split: if_split_asm)

lemma failed_unchanged:
  "CreateDocument E now doc v db = (Inl err, db') \<Longrightarrow> db' = db"
  "UpdateDocument E now docID a e u db = (Inl err, db') \<Longrightarrow> db' = db"
  "SoftDeleteDocument E now docID a e db = (Inl err, db') \<Longrightarrow> db' = db"
  "RestoreDeletedDocument E now docID a db = (Inl err, db') \<Longrightarrow> db' = db"
  "PurgeDeletedDocument E now docID a e v db = (Inl err, db') \<Longrightarrow> db' = db"
  "PurgeDocument now docID db = (Inl err, db') \<Longrightarrow> db' = db"
  "AddMember E now docID a user role v db = (Inl err, db') \<Longrightarrow> db' = db"
  "UpdateMember E now docID a userID e role db = (Inl err, db') \<Longrightarrow> db' = db"
  "DeleteMember E now docID a userID e db = (Inl err, db') \<Longrightarrow> db' = db"
  "UpsertProjection E pj db = (Inl err, db') \<Longrightarrow> db' = db"
  "RestoreCommit E now commitID a v db = (Inl err, db') \<Longrightarrow> db' = db"
  "PublishSnapshot E now docID a e input db = (Inl err, db') \<Longrightarrow> db' = db"
  "PromotePublication E now job db = (Inl err, db') \<Longrightarrow> db' = db"
  "CompletePublicationReferenceJob E now jobID clear db = (Inl err, db') \<Longrightarrow> db' = db"
  "ParkPublicationReferenceJob E now jobID key isPublish db = (Inl err, db') \<Longrightarrow> db' = db"
  "RedrivePublicationReferenceClear now docID db = (Inl err, db') \<Longrightarrow> db' = db"
  "updatePublicationJob now jobID st k db = (Inl err, db') \<Longrightarrow> db' = db"
  unfolding op_failures by (rule transaction_fail, assumption)+

text \<open>Every repository call is one of the saga's steps.\<close>

lemma kstep_saga: "kstep E db db' \<Longrightarrow> saga_step E db db'"
proof (induction rule: kstep.induct)
  case (create now doc v db r db')
  then show ?case by (cases r) (auto dest: failed_unchanged document_steps)
next
  case (update now docID a e u db r db')
  then show ?case by (cases r) (auto dest: failed_unchanged document_steps)
next
  case (soft_delete now docID a e db r db')
  then show ?case by (cases r) (auto dest: failed_unchanged document_steps)
next
  case (restore now docID a db r db')
  then show ?case by (cases r) (auto dest: failed_unchanged document_steps)
next
  case (purge_request now docID a e v db r' db')
  then show ?case by (cases r') (auto dest: failed_unchanged document_steps)
next
  case (purge now docID db r' db')
  then show ?case by (cases r') (auto dest: failed_unchanged document_steps)
next
  case (maintenance now db r' db')
  then show ?case by (rule same_core_step [OF outbox_core(5)])
next
  case (add_member now docID a user role v db m db')
  then show ?case by (cases m) (auto dest: failed_unchanged content_steps)
next
  case (update_member now docID a userID e role db m db')
  then show ?case by (cases m) (auto dest: failed_unchanged content_steps)
next
  case (delete_member now docID a userID e db r' db')
  then show ?case by (cases r') (auto dest: failed_unchanged content_steps)
next
  case (project pj db r' db')
  then show ?case by (cases r') (auto dest: failed_unchanged content_steps)
next
  case (restore_commit now commitID a v db r db')
  then show ?case by (cases r) (auto dest: failed_unchanged content_steps)
next
  case (publish now docID a e snapshot db r db')
  then show ?case by (cases r) (auto dest: failed_unchanged request_steps)
next
  case (unpublish now docID a e published v db r db')
  then show ?case by (cases r) (auto dest: SetPublication_fail request_steps)
next
  case (stage now jobID db r' db')
  then show ?case unfolding MarkPublicationReferencesStaged_def
    by (cases r') (auto dest: failed_unchanged updatePublicationJob_step)
next
  case (mark_promoted now jobID db r' db')
  then show ?case unfolding MarkPublicationPromoted_def
    by (cases r') (auto dest: failed_unchanged updatePublicationJob_step)
next
  case (promote now job db r' db')
  then show ?case by (cases r') (auto dest: failed_unchanged worker_steps)
next
  case (complete now jobID clear db r' db')
  then show ?case by (cases r') (auto dest: failed_unchanged worker_steps)
next
  case (redrive now docID db r' db')
  then show ?case by (cases r') (auto dest: failed_unchanged redrive_step)
next
  case (park_job now jobID key isPublish db r' db')
  then show ?case by (cases r') (auto dest: failed_unchanged worker_steps)
qed (auto intro: worker_steps same_core_step [OF folder_core(1)] same_core_step [OF folder_core(2)]
    same_core_step [OF folder_core(3)] same_core_step [OF outbox_core(1)] same_core_step [OF outbox_core(2)]
    same_core_step [OF outbox_core(3)] same_core_step [OF outbox_core(4)]
    same_core_step [OF CreateDueHistoryCheckpoint_core] same_core_step [OF PruneHistory_core]
    same_core_step [OF CreateCommit_core] same_core_step [OF RenameCommit_core])

section \<open>The invariant\<close>

text \<open>The publication generation and status of a document.\<close>

definition pub_state :: "document_row list \<Rightarrow> string \<Rightarrow> (int \<times> string) option" where
  "pub_state docs i = map_option (\<lambda>d. (d_PublicationGeneration d, d_PublicationStatus d)) (tbl_get d_ID i docs)"

definition job_inv :: "(string \<Rightarrow> (int \<times> string) option) \<Rightarrow> job_row \<Rightarrow> bool" where
  "job_inv ps j \<longleftrightarrow> (\<exists>g st. ps (j_DocumentID j) = Some (g, st) \<and> 1 \<le> j_Generation j \<and> j_Generation j \<le> g
     \<and> (j_ParkedAt j = None \<and> j_Action j = publicationActionPublish \<longrightarrow> j_Generation j = g))"

definition candidate_inv :: "(string \<Rightarrow> (int \<times> string) option) \<Rightarrow> candidate_row \<Rightarrow> bool" where
  "candidate_inv ps c \<longleftrightarrow> (\<exists>st. ps (c_DocumentID c) = Some (c_Generation c, st))"

definition document_inv :: "(string \<Rightarrow> (int \<times> string) option) \<Rightarrow> publication_row list \<Rightarrow> bool" where
  "document_inv ps pubs \<longleftrightarrow> (\<forall>i g st. ps i = Some (g, st) \<longrightarrow>
     0 \<le> g \<and> (st = PublicationPublished \<longrightarrow> tbl_get pb_DocumentID i pubs \<noteq> None))"

definition media_inv :: "(string \<Rightarrow> (int \<times> string) option) \<Rightarrow> publication_row list \<Rightarrow> media_ref_row \<Rightarrow> bool" where
  "media_inv ps pubs r \<longleftrightarrow> tbl_get pb_DocumentID (mr_DocumentID r) pubs \<noteq> None \<and>
     (\<exists>g st. ps (mr_DocumentID r) = Some (g, st) \<and> mr_Generation r \<le> g
        \<and> (st = PublicationPublished \<longrightarrow> mr_Generation r = g))"

definition saga_inv :: "kenv \<Rightarrow> kdb \<Rightarrow> bool" where
  "saga_inv E db \<longleftrightarrow> documents_check E (t_documents db) \<and> distinct (map d_ID (t_documents db))
     \<and> distinct (map j_ID (t_jobs db))
     \<and> (\<forall>j \<in> set (t_jobs db). job_inv (pub_state (t_documents db)) j)
     \<and> (\<forall>c \<in> set (t_candidates db). candidate_inv (pub_state (t_documents db)) c)
     \<and> document_inv (pub_state (t_documents db)) (t_publications db)
     \<and> (\<forall>r \<in> set (t_media_refs db). media_inv (pub_state (t_documents db)) (t_publications db) r)"

lemmas part_invs = job_inv_def candidate_inv_def document_inv_def media_inv_def

lemma saga_inv_view: "saga_view db' = saga_view db \<Longrightarrow> saga_inv E db' = saga_inv E db"
  by (simp add: saga_view_def saga_inv_def)

lemma saga_invI:
  assumes "saga_view db' = saga_view s" and "documents_check E (t_documents db')" "distinct (map d_ID (t_documents s))"
    "distinct (map j_ID (t_jobs s))" "\<forall>j \<in> set (t_jobs s). job_inv (pub_state (t_documents s)) j"
    "\<forall>c \<in> set (t_candidates s). candidate_inv (pub_state (t_documents s)) c"
    "document_inv (pub_state (t_documents s)) (t_publications s)"
    "\<forall>r \<in> set (t_media_refs s). media_inv (pub_state (t_documents s)) (t_publications s) r"
  shows "saga_inv E db'"
  using assms by (simp add: saga_view_def saga_inv_def)

lemma saga_invD:
  assumes "saga_inv E db"
  shows "documents_check E (t_documents db)" "distinct (map d_ID (t_documents db))" "distinct (map j_ID (t_jobs db))"
    "\<forall>j \<in> set (t_jobs db). job_inv (pub_state (t_documents db)) j"
    "\<forall>c \<in> set (t_candidates db). candidate_inv (pub_state (t_documents db)) c"
    "document_inv (pub_state (t_documents db)) (t_publications db)"
    "\<forall>r \<in> set (t_media_refs db). media_inv (pub_state (t_documents db)) (t_publications db) r"
  using assms by (auto simp: saga_inv_def)

lemma pub_state_upd:
  assumes "\<And>d. d_ID (f d) = d_ID d"
  shows "pub_state (tbl_upd (\<lambda>d. d_ID d = k) f docs) = (pub_state docs)(k :=
     map_option (\<lambda>d. (d_PublicationGeneration (f d), d_PublicationStatus (f d))) (tbl_get d_ID k docs))"
  by (rule ext) (simp add: pub_state_def tbl_get_upd_key assms option.map_comp comp_def)

lemma docs_upd_distinct:
  "(\<And>d. d_ID (f d) = d_ID d) \<Longrightarrow> distinct (map d_ID docs) \<Longrightarrow> distinct (map d_ID (tbl_upd p f docs))"
  by (simp add: map_key_upd)

lemma quietD:
  assumes "quiet f"
  shows "d_ID (f d) = d_ID d" "d_PublicationStatus (f d) = d_PublicationStatus d"
    "d_PublicationGeneration (f d) = d_PublicationGeneration d"
  using assms by (simp_all add: quiet_def)

lemma touched_inv:
  assumes v: "saga_view db' = saga_view (db\<lparr>t_documents := tbl_upd (\<lambda>x. d_ID x = docID) f (t_documents db)\<rparr>)"
    and q: "quiet f" and c: "documents_check E (t_documents db')" and i: "saga_inv E db"
  shows "saga_inv E db'"
proof -
  have "pub_state (tbl_upd (\<lambda>x. d_ID x = docID) f (t_documents db)) = pub_state (t_documents db)"
    using quietD [OF q] by (simp add: pub_state_upd) (simp add: pub_state_def fun_eq_iff)
  then show ?thesis
    by (intro saga_invI [OF v c]) (use saga_invD [OF i] quietD(1) [OF q] in \<open>simp_all add: map_key_upd\<close>)
qed

lemma created_inv:
  assumes v: "saga_view db' = saga_view (db\<lparr>t_documents := t_documents db @ [d]\<rparr>)"
    and n: "\<forall>x \<in> set (t_documents db). d_ID x \<noteq> d_ID d" and c: "documents_check E (t_documents db')"
    and d: "d_PublicationGeneration d = 0" "d_PublicationStatus d = PublicationDraft" and i: "saga_inv E db"
  shows "saga_inv E db'"
proof -
  have "tbl_get d_ID (d_ID d) (t_documents db) = None" using n by (simp add: tbl_get_None)
  then have p: "pub_state (t_documents db @ [d]) = (pub_state (t_documents db))(d_ID d \<mapsto> (0, d_PublicationStatus d))"
    using d by (auto simp: pub_state_def fun_eq_iff tbl_simps split: option.splits)
  have none: "pub_state (t_documents db) (d_ID d) = None" using n by (simp add: pub_state_def tbl_get_None)
  show ?thesis
    by (intro saga_invI [OF v c])
      (use saga_invD [OF i] n none d in \<open>auto simp: p part_invs split: if_split_asm\<close>)
qed

lemma purged_inv:
  assumes v: "saga_view db' = saga_view (cascade_document docID db)" and i: "saga_inv E db"
  shows "saga_inv E db'"
proof -
  have p: "pub_state (tbl_del (\<lambda>d. d_ID d = docID) (t_documents db)) = (pub_state (t_documents db))(docID := None)"
    by (auto simp: pub_state_def fun_eq_iff tbl_get_del tbl_get_del_hit)
  have g: "tbl_get pb_DocumentID x (tbl_del (\<lambda>p. pb_DocumentID p = docID) (t_publications db))
      = (if x = docID then None else tbl_get pb_DocumentID x (t_publications db))" for x
    by (auto simp: tbl_get_del tbl_get_del_hit)
  have c: "documents_check E (t_documents db')"
    using saga_invD(1) [OF i] v
    by (auto simp: saga_view_def cascade_document_def documents_check_def tbl_del_def distinct_map_filter)
  show ?thesis
    by (intro saga_invI [OF v c])
      (use saga_invD(2-7) [OF i] in \<open>auto simp: cascade_document_def in_tbl_del distinct_del p g part_invs\<close>)
qed

lemma requeued_inv:
  assumes v: "saga_view db' = saga_view (db\<lparr>t_jobs := tbl_upd p f (t_jobs db)\<rparr>)" and q: "job_quiet f" and i: "saga_inv E db"
  shows "saga_inv E db'"
proof -
  have c: "documents_check E (t_documents db')" using saga_invD(1) [OF i] v by (simp add: saga_view_def)
  have "job_inv ps (f j)" if "job_inv ps j" for ps j
    using that q by (auto simp: job_inv_def job_quiet_def)
  then have "\<forall>j \<in> set (tbl_upd p f (t_jobs db)). job_inv (pub_state (t_documents db)) j"
    using saga_invD(4) [OF i] by (auto elim!: in_tbl_updE)
  moreover have "map j_ID (tbl_upd p f (t_jobs db)) = map j_ID (t_jobs db)"
    using q by (intro map_key_upd) (simp add: job_quiet_def)
  ultimately show ?thesis by (intro saga_invI [OF v c]) (use saga_invD [OF i] in simp_all)
qed

lemma finished_inv:
  assumes v: "saga_view db' = saga_view (db\<lparr>t_jobs := tbl_del p (t_jobs db)\<rparr>)" and i: "saga_inv E db"
  shows "saga_inv E db'"
proof -
  have c: "documents_check E (t_documents db')" using saga_invD(1) [OF i] v by (simp add: saga_view_def)
  show ?thesis by (intro saga_invI [OF v c]) (use saga_invD [OF i] in \<open>auto simp: in_tbl_del distinct_del\<close>)
qed

lemma pub_state_get: "get_document i db = Some d \<Longrightarrow> pub_state (t_documents db) i = Some (d_PublicationGeneration d, d_PublicationStatus d)"
  by (simp add: pub_state_def get_document_def)

lemma new_job_simps [simp]:
  "j_ID (new_job i d g a m now) = i" "j_DocumentID (new_job i d g a m now) = d_ID d"
  "j_Generation (new_job i d g a m now) = g" "j_Action (new_job i d g a m now) = a"
  "j_ParkedAt (new_job i d g a m now) = None"
  by (simp_all add: new_job_def)

lemma job_inv_raise:
  assumes "job_inv ps j" "ps k = Some (g, st)" "g \<le> g'" "j_DocumentID j = k \<Longrightarrow> j_ParkedAt j \<noteq> None \<or> g' = g"
  shows "job_inv (ps(k \<mapsto> (g', st'))) j"
  using assms by (cases "j_DocumentID j = k") (auto simp: job_inv_def)

lemma media_inv_raise:
  assumes "media_inv ps pubs r" "ps k = Some (g, st)" "g \<le> g'" "st' \<noteq> PublicationPublished"
  shows "media_inv (ps(k \<mapsto> (g', st'))) pubs r"
  using assms by (cases "mr_DocumentID r = k") (auto simp: media_inv_def)

lemma new_generation_jobs:
  assumes i: "saga_inv E db" and d: "get_document (d_ID d) db = Some d"
    and j: "j \<in> set (tbl_del (\<lambda>j. j_DocumentID j = d_ID d \<and> j_ParkedAt j = None) (t_jobs db) @
              [new_job jobID d (d_PublicationGeneration d + 1) action m now])"
  shows "job_inv ((pub_state (t_documents db))(d_ID d \<mapsto> (d_PublicationGeneration d + 1, st))) j"
proof (cases "j = new_job jobID d (d_PublicationGeneration d + 1) action m now")
  case True
  have "0 \<le> d_PublicationGeneration d"
    using saga_invD(6) [OF i] pub_state_get [OF d] by (auto simp: document_inv_def)
  then show ?thesis using True by (simp add: job_inv_def)
next
  case False
  then have "j \<in> set (t_jobs db)" "j_DocumentID j = d_ID d \<Longrightarrow> j_ParkedAt j \<noteq> None"
    using j by (auto simp: in_tbl_del)
  then show ?thesis
    using saga_invD(4) [OF i]
    by (intro job_inv_raise [where ps = "pub_state (t_documents db)" and k = "d_ID d", OF _ pub_state_get [OF d]]) auto
qed

lemma sent_inv:
  assumes v: "saga_view db' = saga_view (submitted E jobID now d input db)" and d: "get_document (d_ID d) db = Some d"
    and c: "documents_check E (t_documents db')"
    and n: "\<forall>j \<in> set (tbl_del (\<lambda>j. j_DocumentID j = d_ID d \<and> j_ParkedAt j = None) (t_jobs db)). j_ID j \<noteq> jobID"
    and i: "saga_inv E db"
  shows "saga_inv E db'"
proof -
  let ?g = "d_PublicationGeneration d + 1"
  have p: "pub_state (t_documents (submitted E jobID now d input db)) = (pub_state (t_documents db))(d_ID d \<mapsto> (?g, PublicationPublishing))"
    using d by (simp add: submitted_def pub_state_upd publish_row_def get_document_def)
  have g: "0 \<le> d_PublicationGeneration d" using saga_invD(6) [OF i] pub_state_get [OF d] by (auto simp: document_inv_def)
  have "distinct (map j_ID (t_jobs (submitted E jobID now d input db)))"
    using saga_invD(3) [OF i] n by (auto simp: submitted_def distinct_del)
  moreover have "\<forall>c \<in> set (t_candidates (submitted E jobID now d input db)). candidate_inv ((pub_state (t_documents db))(d_ID d \<mapsto> (?g, PublicationPublishing))) c"
    using saga_invD(5) [OF i] by (auto simp: submitted_def in_tbl_save new_candidate_def candidate_inv_def)
  moreover have "\<forall>j \<in> set (t_jobs (submitted E jobID now d input db)). job_inv ((pub_state (t_documents db))(d_ID d \<mapsto> (?g, PublicationPublishing))) j"
    using new_generation_jobs [OF i d] by (auto simp: submitted_def)
  moreover have "\<forall>r \<in> set (t_media_refs db). media_inv ((pub_state (t_documents db))(d_ID d \<mapsto> (?g, PublicationPublishing))) (t_publications db) r"
    using saga_invD(7) [OF i] by (auto intro: media_inv_raise [where ps = "pub_state (t_documents db)" and k = "d_ID d", OF _ pub_state_get [OF d]])
  moreover have "document_inv ((pub_state (t_documents db))(d_ID d \<mapsto> (?g, PublicationPublishing))) (t_publications db)"
    using saga_invD(6) [OF i] g by (auto simp: document_inv_def)
  moreover have "distinct (map d_ID (t_documents (submitted E jobID now d input db)))"
    using saga_invD(2) [OF i] by (simp add: submitted_def map_key_upd publish_row_def)
  ultimately show ?thesis by (intro saga_invI [OF v c]) (simp_all only: p, simp_all add: submitted_def)
qed

lemma pulled_inv:
  assumes v: "saga_view db' = saga_view (withdrawn jobID now d f db)" and d: "get_document (d_ID d) db = Some d"
    and c: "documents_check E (t_documents db')"
    and n: "\<forall>j \<in> set (tbl_del (\<lambda>j. j_DocumentID j = d_ID d \<and> j_ParkedAt j = None) (t_jobs db)). j_ID j \<noteq> jobID"
    and f: "f = unpublish_row now (d_PublicationGeneration d + 1) \<or> f = soft_delete_row now (d_PublicationGeneration d + 1)"
    and i: "saga_inv E db"
  shows "saga_inv E db'"
proof -
  let ?g = "d_PublicationGeneration d + 1"
  let ?ps = "(pub_state (t_documents db))(d_ID d \<mapsto> (?g, PublicationUnpublishing))"
  have f': "d_ID (f x) = d_ID x" "d_PublicationGeneration (f x) = ?g" "d_PublicationStatus (f x) = PublicationUnpublishing" for x
    using f by (auto simp: unpublish_row_def soft_delete_row_def)
  have p: "pub_state (t_documents (withdrawn jobID now d f db)) = ?ps"
    using d f' by (simp add: withdrawn_def pub_state_upd get_document_def)
  have g: "0 \<le> d_PublicationGeneration d" using saga_invD(6) [OF i] pub_state_get [OF d] by (auto simp: document_inv_def)
  have pubs: "tbl_get pb_DocumentID x (tbl_del (\<lambda>p. pb_DocumentID p = d_ID d) (t_publications db))
      = (if x = d_ID d then None else tbl_get pb_DocumentID x (t_publications db))" for x
    by (auto simp: tbl_get_del tbl_get_del_hit)
  have "distinct (map j_ID (t_jobs (withdrawn jobID now d f db)))"
    using saga_invD(3) [OF i] n by (auto simp: withdrawn_def distinct_del)
  moreover have "\<forall>j \<in> set (t_jobs (withdrawn jobID now d f db)). job_inv ?ps j"
    using new_generation_jobs [OF i d] by (auto simp: withdrawn_def)
  moreover have "\<forall>c \<in> set (t_candidates (withdrawn jobID now d f db)). candidate_inv ?ps c"
    using saga_invD(5) [OF i] by (auto simp: withdrawn_def in_tbl_del candidate_inv_def)
  moreover have "\<forall>r \<in> set (t_media_refs (withdrawn jobID now d f db)). media_inv ?ps (t_publications (withdrawn jobID now d f db)) r"
    using saga_invD(7) [OF i] by (auto simp: withdrawn_def in_tbl_del media_inv_def pubs)
  moreover have "document_inv ?ps (t_publications (withdrawn jobID now d f db))"
    using saga_invD(6) [OF i] g by (auto simp: withdrawn_def document_inv_def pubs)
  moreover have "distinct (map d_ID (t_documents (withdrawn jobID now d f db)))"
    using saga_invD(2) [OF i] f' by (simp add: withdrawn_def map_key_upd)
  ultimately show ?thesis by (intro saga_invI [OF v c]) (simp_all only: p)
qed

lemma lifted_inv:
  assumes v: "saga_view db' = saga_view (promoted now job c db)" and j: "promotable db job d c"
    and k: "documents_check E (t_documents db')" and i: "saga_inv E db"
  shows "saga_inv E db'"
proof -
  let ?x = "prj_DocumentID job"
  let ?g = "prj_Generation job"
  let ?ps = "(pub_state (t_documents db))(?x \<mapsto> (?g, PublicationPublished))"
  let ?s = "promoted now job c db"
  from j have d: "get_document ?x db = Some d" and dg: "d_PublicationGeneration d = ?g" and c: "c_DocumentID c = ?x"
    by (auto simp: promotable_def)
  have old: "pub_state (t_documents db) ?x = Some (?g, d_PublicationStatus d)" using pub_state_get [OF d] dg by simp
  have p: "pub_state (t_documents ?s) = ?ps"
    using d dg by (simp add: promoted_def pub_state_upd promote_row_def get_document_def)
  have pubs: "tbl_get pb_DocumentID y (t_publications ?s) =
      (if y = ?x then Some (publication_of c now) else tbl_get pb_DocumentID y (t_publications db))" for y
    using c by (simp add: promoted_def tbl_simps publication_of_def)
  have g: "0 \<le> ?g" using saga_invD(6) [OF i] old by (auto simp: document_inv_def)
  have "job_quiet (promote_job now)" by (simp add: job_quiet_def promote_job_def)
  then have "map j_ID (t_jobs ?s) = map j_ID (t_jobs db)"
    by (simp add: promoted_def map_key_upd job_quiet_def)
  moreover have "\<forall>j \<in> set (t_jobs ?s). job_inv ?ps j"
  proof
    fix y assume "y \<in> set (t_jobs ?s)"
    then have "y \<in> set (tbl_upd (\<lambda>j. j_ID j = prj_ID job) (promote_job now) (t_jobs db))" by (simp add: promoted_def)
    then have "job_inv (pub_state (t_documents db)) y"
      using saga_invD(4) [OF i] by (cases rule: in_tbl_updE) (auto simp: job_inv_def promote_job_def)
    then show "job_inv ?ps y" by (rule job_inv_raise [where ps = "pub_state (t_documents db)" and k = ?x, OF _ old]) auto
  qed
  moreover have "\<forall>c \<in> set (t_candidates ?s). candidate_inv ?ps c"
    using saga_invD(5) [OF i] by (auto simp: promoted_def in_tbl_del candidate_inv_def)
  moreover have "\<forall>r \<in> set (t_media_refs ?s). media_inv ?ps (t_publications ?s) r"
    using saga_invD(7) [OF i] unfolding media_inv_def pubs by (auto simp: promoted_def in_tbl_del media_ref_def)
  moreover have "document_inv ?ps (t_publications ?s)"
    using saga_invD(6) [OF i] g unfolding document_inv_def pubs by auto
  moreover have "distinct (map d_ID (t_documents ?s))"
    using saga_invD(2) [OF i] by (simp add: promoted_def map_key_upd promote_row_def)
  ultimately show ?thesis using saga_invD(3) [OF i] by (intro saga_invI [OF v k]) (simp_all only: p)
qed

lemma pub_state_at_generation:
  assumes "\<And>d. d_ID (f d) = d_ID d" "\<And>d. d_PublicationGeneration (f d) = d_PublicationGeneration d"
    "\<And>d. d_PublicationStatus (f d) = st'"
  shows "pub_state (tbl_upd (\<lambda>d. d_ID d = k) (at_generation g f) docs) =
    (\<lambda>i. case pub_state docs i of None \<Rightarrow> None
       | Some (h, st) \<Rightarrow> Some (h, if i = k \<and> h = g then st' else st))"
proof -
  have "d_ID (at_generation g f d) = d_ID d" for d by (simp add: at_generation_def assms)
  then show ?thesis
    by (auto simp: pub_state_upd fun_eq_iff pub_state_def at_generation_def assms split: option.splits)
qed

text \<open>Demoting the status of one document at one generation keeps every part of the invariant.\<close>

lemma demoted_inv:
  assumes v: "saga_view db' = saga_view (db\<lparr>t_documents := tbl_upd (\<lambda>d. d_ID d = k) (at_generation g f) (t_documents db),
      t_media_refs := refs, t_jobs := jobs\<rparr>)"
    and f: "\<And>d. d_ID (f d) = d_ID d" "\<And>d. d_PublicationGeneration (f d) = d_PublicationGeneration d"
      "\<And>d. d_PublicationStatus (f d) = st'" "st' \<noteq> PublicationPublished"
    and c: "documents_check E (t_documents db')" and r: "set refs \<subseteq> set (t_media_refs db)"
    and j: "distinct (map j_ID jobs)" "\<forall>x \<in> set jobs. job_inv (pub_state (t_documents db)) x" and i: "saga_inv E db"
  shows "saga_inv E db'"
proof -
  let ?ps = "\<lambda>i. case pub_state (t_documents db) i of None \<Rightarrow> None
       | Some (h, st) \<Rightarrow> Some (h, if i = k \<and> h = g then st' else st)"
  note p = pub_state_at_generation [OF f(1-3)]
  have "\<forall>x \<in> set jobs. job_inv ?ps x"
    using j(2) by (auto simp: job_inv_def split: option.splits)
  moreover have "\<forall>x \<in> set (t_candidates db). candidate_inv ?ps x"
    using saga_invD(5) [OF i] by (force simp: candidate_inv_def)
  moreover have "document_inv ?ps (t_publications db)"
    using saga_invD(6) [OF i] f(4) unfolding document_inv_def by (auto split: option.split_asm if_split_asm)
  moreover have "media_inv ?ps (t_publications db) x" if "media_inv (pub_state (t_documents db)) (t_publications db) x" for x
    using that f(4) by (auto simp: media_inv_def)
  then have "\<forall>x \<in> set refs. media_inv ?ps (t_publications db) x"
    using saga_invD(7) [OF i] r by blast
  moreover have "d_ID (at_generation g f d) = d_ID d" for d by (simp add: at_generation_def f)
  ultimately show ?thesis
    by (intro saga_invI [OF v c]) (use saga_invD(2) [OF i] j(1) in \<open>simp_all add: p map_key_upd\<close>)
qed

lemma cleared_inv:
  assumes v: "saga_view db' = saga_view (db\<lparr>
      t_documents := tbl_upd (\<lambda>d. d_ID d = docID) (at_generation g (cleared_row now)) (t_documents db),
      t_media_refs := tbl_del (\<lambda>r. mr_DocumentID r = docID \<and> mr_Generation r = g) (t_media_refs db),
      t_jobs := tbl_del p (t_jobs db)\<rparr>)" and c: "documents_check E (t_documents db')" and i: "saga_inv E db"
  shows "saga_inv E db'"
  by (rule demoted_inv [where f = "cleared_row now" and st' = PublicationDraft, OF v])
    (use c i saga_invD(3,4) [OF i] in \<open>simp_all add: cleared_row_def in_tbl_del distinct_del subset_iff\<close>)

lemma failed_inv:
  assumes v: "saga_view db' = saga_view (db\<lparr>
      t_documents := tbl_upd (\<lambda>d. d_ID d = docID) (at_generation g (failed_row now key publish)) (t_documents db),
      t_jobs := tbl_upd p (parked_job now key) (t_jobs db)\<rparr>)" and c: "documents_check E (t_documents db')" and i: "saga_inv E db"
  shows "saga_inv E db'"
proof -
  have k: "map j_ID (tbl_upd p (parked_job now key) (t_jobs db)) = map j_ID (t_jobs db)"
    by (intro map_key_upd) (simp add: parked_job_def)
  have j: "\<forall>x \<in> set (tbl_upd p (parked_job now key) (t_jobs db)). job_inv (pub_state (t_documents db)) x"
    using saga_invD(4) [OF i] by (auto elim!: in_tbl_updE simp: job_inv_def parked_job_def)
  show ?thesis
    by (rule demoted_inv [where f = "failed_row now key publish" and refs = "t_media_refs db" and k = docID and g = g
          and st' = "if publish then PublicationPublishFailed else PublicationUnpublishFailed"
          and jobs = "tbl_upd p (parked_job now key) (t_jobs db)" and db = db])
      (use v c i saga_invD(3) [OF i] k j in \<open>simp_all add: failed_row_def saga_view_def\<close>)
qed

lemma saga_step_inv:
  assumes "saga_step E db db'" and i: "saga_inv E db"
  shows "saga_inv E db'"
  using assms(1)
proof cases
  case same
  then show ?thesis using i saga_inv_view by blast
next
  case created
  then show ?thesis using i by (rule created_inv)
next
  case touched
  then show ?thesis using i by (rule touched_inv)
next
  case purged
  then show ?thesis using i by (rule purged_inv)
next
  case sent
  then show ?thesis using i by (rule sent_inv)
next
  case pulled
  then show ?thesis using i by (rule pulled_inv)
next
  case lifted
  then show ?thesis using i by (blast intro: lifted_inv)
next
  case requeued
  then show ?thesis using i by (rule requeued_inv)
next
  case finished
  then show ?thesis using i by (rule finished_inv)
next
  case cleared
  then show ?thesis using i by (rule cleared_inv)
next
  case failed
  then show ?thesis using i by (rule failed_inv)
qed

lemma kreach_inv: "kreach E db \<Longrightarrow> saga_inv E db"
proof (induction rule: kreach.induct)
  case start
  show ?case by (simp add: saga_inv_def empty_db_def documents_check_def part_invs pub_state_def tbl_get_def)
qed (blast intro: kstep_saga saga_step_inv)

end
