(* ===== verification/KnowledgeScenario.thy ===== *)
theory KnowledgeScenario
  imports PublicationInvariant
begin

text \<open>
  A concrete environment and a concrete run of the repository (a document is created, submitted for
  publication, staged and promoted), on which the theorems of the other theories are instantiated.
  The environment stands for the libraries: numbered identifiers, a rich text encoder that keeps the
  type, the identity for hashing and ASCII lower-casing.
\<close>

definition sample_richtext :: rtenv where
  "sample_richtext = \<lparr>re_uuid_version = (\<lambda>s. if length s = 6 then Some 7 else None), re_url_scheme = (\<lambda>_. None),
     re_quote = (\<lambda>s. s), re_lower = (\<lambda>c. c)\<rparr>"

definition sample_env :: kenv where
  "sample_env = \<lparr>ke_newID = (\<lambda>n. ''id-'' @ show_nat n), ke_jsonb_in = (\<lambda>s. Some (JStr s)),
     ke_jsonb_out = (\<lambda>j. case j of JStr s \<Rightarrow> s | _ \<Rightarrow> []), ke_marshal = (\<lambda>_. ''json''),
     ke_encode_doc = (\<lambda>d. JStr (rd_Type d)), ke_decode_doc = (\<lambda>_. None), ke_sha256 = (\<lambda>s. s),
     ke_lower = (\<lambda>c. if 65 \<le> c \<and> c \<le> 90 then c + 32 else c), ke_trace = [], ke_richtext = sample_richtext\<rparr>"

definition sample_document :: Document where
  "sample_document = \<lparr>doc_ID = ''doc-1'', doc_Title = ''T'', doc_Summary = [], doc_Slug = ''t'', doc_Language = ''en'',
     doc_Tags = [], doc_FolderID = None, doc_Owner = \<lparr>pu_ID = 7, pu_Username = ''ann'', pu_Avatar = []\<rparr>,
     doc_Access = AccessOwner, doc_Published = False, doc_PublicationStatus = PublicationDraft, doc_PublicationError = None,
     doc_PublicationGeneration = 0, doc_PublicationHash = [], doc_ActivePublicationHash = [], doc_Icon = [],
     doc_CoverAttachmentID = None, doc_CoverFocalX = 0, doc_CoverFocalY = 0, doc_MetadataRevision = 1,
     doc_ContentRevision = 0, doc_PermissionRevision = 1, doc_PublishedAt = None, doc_DeletedAt = None,
     doc_PurgeAfter = None, doc_ProjectedAt = None, doc_CreatedAt = 100, doc_UpdatedAt = 100\<rparr>"

definition no_key :: Idempotency where
  "no_key = \<lparr>idm_ActorID = 7, idm_Operation = [], idm_Key = [], idm_RequestHash = []\<rparr>"

definition sample_snapshot :: PublicationSnapshotInput where
  "sample_snapshot = \<lparr>pi_Title = ''T'', pi_Summary = [], pi_Slug = ''t'', pi_Language = ''en'', pi_Tags = [],
     pi_Content = \<lparr>rd_Type = ''doc'', rd_Content = None\<rparr>, pi_PlainText = ''body'', pi_ContentSequence = 3,
     pi_PublicationHash = ''h'', pi_Icon = [], pi_CoverAttachmentID = None, pi_CoverFocalX = 0, pi_CoverFocalY = 0,
     pi_MediaIDs = [''att-1''], pi_Idempotency = no_key\<rparr>"

definition created_db :: kdb where
  "created_db = snd (CreateDocument sample_env 100 sample_document no_key empty_db)"

definition submitted_db :: kdb where
  "submitted_db = snd (PublishSnapshot sample_env 200 ''doc-1'' 7 1 sample_snapshot created_db)"

definition staged_db :: kdb where
  "staged_db = snd (MarkPublicationReferencesStaged 300 ''id-0'' submitted_db)"

definition sample_job :: PublicationReferenceJob where
  "sample_job = \<lparr>prj_ID = ''id-0'', prj_DocumentID = ''doc-1'', prj_OwnerID = 7, prj_Generation = 1,
     prj_Action = publicationActionPublish, prj_AttachmentIDs = [''att-1''], prj_State = publicationJobStaged, prj_Attempts = 1\<rparr>"

definition published_db :: kdb where
  "published_db = snd (PromotePublication sample_env 400 sample_job staged_db)"

lemma sample_reach [simp]:
  "kreach sample_env created_db" "kreach sample_env submitted_db" "kreach sample_env staged_db" "kreach sample_env published_db"
proof -
  have "kstep sample_env empty_db created_db"
    unfolding created_db_def by (rule kstep.create [OF prod.collapse [symmetric]]) (simp add: draft_document_def sample_document_def)
  then show 1: "kreach sample_env created_db" by (blast intro: kreach.intros)
  have "kstep sample_env created_db submitted_db"
    unfolding submitted_db_def by (rule kstep.publish [OF prod.collapse [symmetric]])
  then show 2: "kreach sample_env submitted_db" using 1 by (blast intro: kreach.intros)
  have "kstep sample_env submitted_db staged_db"
    unfolding staged_db_def by (rule kstep.stage [OF prod.collapse [symmetric]])
  then show 3: "kreach sample_env staged_db" using 2 by (blast intro: kreach.intros)
  have "kstep sample_env staged_db published_db"
    unfolding published_db_def by (rule kstep.promote [OF prod.collapse [symmetric]])
  then show "kreach sample_env published_db" using 3 by (blast intro: kreach.intros)
qed

end
