(* ===== verification/PublicationSafety.thy ===== *)
theory PublicationSafety
  imports KnowledgeScenario
begin

text \<open>
  What the invariant of \<open>PublicationInvariant\<close> gives to a reader and to an editor: nothing is served for a
  document that is not published, a document is published only by promoting the candidate of its own
  generation, and the revisions and generations of a document never go back.
\<close>

section \<open>Progress of one document\<close>

definition staged_candidate :: "kdb \<Rightarrow> document_row \<Rightarrow> bool" where
  "staged_candidate db d \<longleftrightarrow> d_PublicationStatus d = PublicationPublishing \<and> d_DeletedAt d = None
     \<and> (\<exists>c \<in> set (t_candidates db). c_DocumentID c = d_ID d \<and> c_Generation c = d_PublicationGeneration d)
     \<and> (\<exists>j \<in> set (t_jobs db). j_State j = publicationJobStaged \<and> j_Generation j = d_PublicationGeneration d)"

definition progress :: "kdb \<Rightarrow> document_row \<Rightarrow> document_row \<Rightarrow> bool" where
  "progress db d d' \<longleftrightarrow> d_OwnerID d' = d_OwnerID d \<and> d_MetadataRevision d \<le> d_MetadataRevision d'
     \<and> d_PermissionRevision d \<le> d_PermissionRevision d' \<and> d_PublicationGeneration d \<le> d_PublicationGeneration d'
     \<and> (d_PublicationStatus d' = PublicationPublished \<longrightarrow> d_PublicationGeneration d' = d_PublicationGeneration d
          \<and> (d_PublicationStatus d = PublicationPublished \<or> staged_candidate db d))"

lemma progress_refl [simp]: "progress db d d"
  by (simp add: progress_def)

lemma progress_upd:
  assumes "t_documents db' = tbl_upd (\<lambda>x. d_ID x = k) f (t_documents db)" "\<And>d. d_ID (f d) = d_ID d"
    "get_document i db = Some d" "get_document i db' = Some d'" "\<And>d. get_document k db = Some d \<Longrightarrow> progress db d (f d)"
  shows "progress db d d'"
proof (cases "i = k")
  case True
  then have "d' = f d" using assms by (simp add: get_document_def tbl_get_upd_key)
  then show ?thesis using assms(3,5) True by simp
next
  case False
  then have "d' = d" using assms by (simp add: get_document_def tbl_get_upd_key)
  then show ?thesis by simp
qed

lemma progress_same: "t_documents db' = t_documents db \<Longrightarrow> get_document i db = Some d \<Longrightarrow> get_document i db' = Some d' \<Longrightarrow> progress db d d'"
  by (simp add: get_document_def)

lemma view_documents: "saga_view db' = saga_view s \<Longrightarrow> t_documents db' = t_documents s"
  by (simp add: saga_view_def)

lemma status_neq [simp]:
  "PublicationPublishing \<noteq> PublicationPublished" "PublicationUnpublishing \<noteq> PublicationPublished"
  "PublicationDraft \<noteq> PublicationPublished" "PublicationPublishFailed \<noteq> PublicationPublished"
  "PublicationUnpublishFailed \<noteq> PublicationPublished"
  by simp_all

lemma promotable_staged:
  assumes "promotable db job d c"
  shows "staged_candidate db d"
proof -
  from assms obtain j where "get_job (prj_ID job) db = Some j" "j_State j = publicationJobStaged" "j_Generation j = prj_Generation job"
    by (auto simp: promotable_def)
  moreover from this have "j \<in> set (t_jobs db)" unfolding get_job_def by (blast dest: tbl_get_SomeD)
  moreover have "d_ID d = prj_DocumentID job" using assms unfolding promotable_def by (blast intro: get_document_ID)
  ultimately show ?thesis using assms unfolding promotable_def staged_candidate_def by metis
qed

lemma saga_step_progress:
  assumes "saga_step E db db'" and i: "get_document i db = Some d" "get_document i db' = Some d'"
  shows "progress db d d'"
  using assms(1)
proof cases
  case same
  then show ?thesis using i by (intro progress_same) (simp_all add: saga_view_def)
next
  case (created x)
  then show ?thesis using i by (simp add: saga_view_def get_document_def tbl_simps)
next
  case (touched docID f)
  then show ?thesis
    by (intro progress_upd [OF _ _ i, where k = docID and f = f]) (auto simp: saga_view_def quiet_def progress_def)
next
  case (purged docID)
  then have "get_document i db' = (if i = docID then None else get_document i db)"
    by (auto simp: saga_view_def get_document_def cascade_document_def tbl_get_del tbl_get_del_hit)
  then show ?thesis using i by (simp split: if_split_asm)
next
  case (sent jobID now x input)
  then show ?thesis
    by (intro progress_upd [OF _ _ i, where k = "d_ID x" and f = "publish_row now (d_PublicationGeneration x + 1) input"])
      (auto simp: saga_view_def submitted_def publish_row_def progress_def)
next
  case (pulled jobID now x f)
  then show ?thesis
    by (intro progress_upd [OF _ _ i, where k = "d_ID x" and f = f])
      (auto simp: saga_view_def withdrawn_def unpublish_row_def soft_delete_row_def progress_def)
next
  case (lifted now job c x)
  have "progress db y (promote_row now y)" if "get_document (prj_DocumentID job) db = Some y" for y
    using that lifted(2) promotable_staged [OF lifted(2)] by (auto simp: promotable_def promote_row_def progress_def)
  with lifted show ?thesis
    by (intro progress_upd [OF _ _ i, where k = "prj_DocumentID job" and f = "promote_row now"])
      (auto simp: saga_view_def promoted_def promote_row_def)
next
  case requeued
  then show ?thesis using i by (intro progress_same) (simp_all add: saga_view_def)
next
  case finished
  then show ?thesis using i by (intro progress_same) (simp_all add: saga_view_def)
next
  case cleared
  from progress_upd [OF view_documents [OF cleared(1), simplified] _ i] show ?thesis
    by (auto simp: at_generation_def cleared_row_def progress_def)
next
  case failed
  from progress_upd [OF view_documents [OF failed(1), simplified] _ i] show ?thesis
    by (auto simp: at_generation_def failed_row_def progress_def)
qed

section \<open>Slugs of publications\<close>

definition pub_slugs_unique :: "kenv \<Rightarrow> kdb \<Rightarrow> bool" where
  "pub_slugs_unique E db \<longleftrightarrow> distinct (map pb_DocumentID (t_publications db)) \<and>
     (\<forall>x \<in> set (t_publications db). pub_slug_free E x (t_publications db))"

lemma lower_eq_sym: "lower_eq E a b \<longleftrightarrow> lower_eq E b a"
  by (auto simp: lower_eq_def)

lemma pub_slugs_del:
  assumes "pub_slugs_unique E db" "t_publications db' = tbl_del p (t_publications db)"
  shows "pub_slugs_unique E db'"
  using assms by (auto simp: pub_slugs_unique_def pub_slug_free_def in_tbl_del distinct_del)

lemma pub_slugs_save:
  assumes "pub_slugs_unique E db" "pub_slug_free E p (t_publications db)"
    "t_publications db' = tbl_save pb_DocumentID p (t_publications db)"
  shows "pub_slugs_unique E db'"
proof -
  let ?rows = "tbl_save pb_DocumentID p (t_publications db)"
  have old: "pub_slug_free E x (t_publications db)" if "x \<in> set (t_publications db)" for x
    using assms(1) that by (simp add: pub_slugs_unique_def)
  have "pb_DocumentID y = pb_DocumentID x" if "x \<in> set ?rows" "y \<in> set ?rows" "lower_eq E (pb_Slug y) (pb_Slug x)" for x y
  proof (cases "x = p \<or> y = p")
    case True
    then show ?thesis
      using that assms(2) lower_eq_sym [of E "pb_Slug y" "pb_Slug x"] by (auto simp: in_tbl_save pub_slug_free_def)
  next
    case False
    then show ?thesis using that old [of x] by (simp add: in_tbl_save pub_slug_free_def)
  qed
  then show ?thesis using assms(1,3) by (simp add: pub_slugs_unique_def pub_slug_free_def distinct_save)
qed

lemma saga_step_slugs:
  assumes "saga_step E db db'" and u: "pub_slugs_unique E db"
  shows "pub_slugs_unique E db'"
  using assms(1)
proof cases
  case purged
  then show ?thesis using u by (auto simp: saga_view_def cascade_document_def intro: pub_slugs_del)
next
  case pulled
  then show ?thesis using u by (auto simp: saga_view_def withdrawn_def intro: pub_slugs_del)
next
  case lifted
  then show ?thesis using u by (auto simp: saga_view_def promoted_def intro: pub_slugs_save)
qed (use u in \<open>simp_all add: saga_view_def submitted_def pub_slugs_unique_def\<close>)

lemma kreach_slugs: "kreach E db \<Longrightarrow> pub_slugs_unique E db"
proof (induction rule: kreach.induct)
  case start
  show ?case by (simp add: pub_slugs_unique_def empty_db_def)
qed (blast intro: kstep_saga saga_step_slugs)

lemma find_publication:
  assumes u: "pub_slugs_unique E db" and p: "get_publication docID db = Some pb"
  shows "find (\<lambda>x. lower_eq E (pb_Slug x) (pb_Slug pb)) (t_publications db) = Some pb"
proof -
  have pb: "pb \<in> set (t_publications db)" "pb_DocumentID pb = docID"
    using p unfolding get_publication_def by (blast dest: tbl_get_SomeD)+
  have "lower_eq E (pb_Slug pb) (pb_Slug pb)" by (simp add: lower_eq_def)
  then obtain x where x: "find (\<lambda>x. lower_eq E (pb_Slug x) (pb_Slug pb)) (t_publications db) = Some x"
    using pb by (cases "find (\<lambda>x. lower_eq E (pb_Slug x) (pb_Slug pb)) (t_publications db)") (auto simp: find_None_iff)
  then have "x \<in> set (t_publications db)" "lower_eq E (pb_Slug x) (pb_Slug pb)" by (auto simp: find_Some_iff)
  then have "pb_DocumentID x = docID" "x \<in> set (t_publications db)"
    using u pb by (auto simp: pub_slugs_unique_def pub_slug_free_def)
  then have "tbl_get pb_DocumentID docID (t_publications db) = Some x"
    using u tbl_get_in [of pb_DocumentID "t_publications db" x] by (simp add: pub_slugs_unique_def)
  with p x show ?thesis by (simp add: get_publication_def)
qed

lemma find_SomeD: "find p xs = Some x \<Longrightarrow> x \<in> set xs \<and> p x"
  by (auto simp: find_Some_iff)

section \<open>Withdrawal\<close>

lemma GetPublishedDocument_live:
  assumes "GetPublishedDocument E now slug a db = Inr (doc, pj, redirect)"
  shows "\<exists>d pb. get_document (doc_ID doc) db = Some d \<and> d_DeletedAt d = None \<and> d_PublicationStatus d = PublicationPublished
     \<and> pb \<in> set (t_publications db) \<and> pb_DocumentID pb = doc_ID doc \<and> doc_Title doc = pb_Title pb
     \<and> pj_PlainText pj = pb_PlainText pb \<and> (redirect \<longleftrightarrow> \<not> lower_eq E (pb_Slug pb) slug)"
proof -
  have "\<exists>pb. pb \<in> set (t_publications db) \<and> publishedSnapshot E pb slug a db = Inr (doc, pj, redirect)"
    using assms unfolding GetPublishedDocument_def get_publication_def
    by (auto split: option.split_asm if_split_asm dest: tbl_get_SomeD(1) find_SomeD)
  then obtain pb where pb: "pb \<in> set (t_publications db)" "publishedSnapshot E pb slug a db = Inr (doc, pj, redirect)"
    by blast
  then obtain d where d: "get_document (pb_DocumentID pb) db = Some d" "d_DeletedAt d = None" "d_PublicationStatus d = PublicationPublished"
    by (auto simp: publishedSnapshot_def split: option.split_asm if_split_asm)
  have "doc_ID doc = pb_DocumentID pb"
    using pb d get_document_ID [OF d(1)] by (auto simp: publishedSnapshot_def Let_def documentFromModel_def)
  then show ?thesis
    using pb d by (auto simp: publishedSnapshot_def Let_def projectionFromModel_def)
qed

definition withdrawn_now :: "kenv \<Rightarrow> string \<Rightarrow> int \<Rightarrow> kdb \<Rightarrow> bool" where
  "withdrawn_now E docID generation db \<longleftrightarrow>
     (\<forall>now slug a doc pj red. GetPublishedDocument E now slug a db = Inr (doc, pj, red) \<longrightarrow> doc_ID doc \<noteq> docID)
     \<and> (\<forall>r \<in> set (t_media_refs db). mr_DocumentID r \<noteq> docID)
     \<and> (\<exists>j \<in> set (t_jobs db). j_DocumentID j = docID \<and> j_Action j = publicationActionClear
          \<and> j_Generation j = generation \<and> j_State j = publicationJobPending \<and> j_ParkedAt j = None)"

lemma withdrawn_doc:
  assumes "saga_view db' = saga_view (withdrawn jobID now d f db)" "get_document docID db = Some d"
    "\<And>x. d_ID (f x) = d_ID x" "\<And>x. d_PublicationStatus (f x) = PublicationUnpublishing"
  shows "withdrawn_now E docID (d_PublicationGeneration d + 1) db'"
proof -
  have i: "d_ID d = docID" using assms(2) by (rule get_document_ID)
  have "get_document docID db' = Some (f d)"
    using assms i by (simp add: saga_view_def withdrawn_def get_document_def tbl_get_upd_key)
  then have "doc_ID doc \<noteq> docID" if "GetPublishedDocument E now slug a db' = Inr (doc, pj, red)" for now slug a doc pj red
    using GetPublishedDocument_live [OF that] assms(4) by auto
  moreover have "\<forall>r \<in> set (t_media_refs db'). mr_DocumentID r \<noteq> docID"
    using assms(1) i by (simp add: saga_view_def withdrawn_def in_tbl_del)
  moreover have "new_job jobID d (d_PublicationGeneration d + 1) publicationActionClear [] now \<in> set (t_jobs db')"
    using assms(1) by (simp add: saga_view_def withdrawn_def)
  ultimately show ?thesis unfolding withdrawn_now_def using i
    by (intro conjI bexI [where x = "new_job jobID d (d_PublicationGeneration d + 1) publicationActionClear [] now"])
      (simp_all add: new_job_def)
qed

lemma row_withdrawn:
  "d_ID (unpublish_row now g x) = d_ID x" "d_PublicationStatus (unpublish_row now g x) = PublicationUnpublishing"
  "d_ID (soft_delete_row now g x) = d_ID x" "d_PublicationStatus (soft_delete_row now g x) = PublicationUnpublishing"
  by (simp_all add: unpublish_row_def soft_delete_row_def)

section \<open>Properties\<close>

text \<open>C1: In every reachable database, a document whose status is published is not deleted, has an
  active publication, and every attachment reference recorded for it carries the document's current
  publication generation.\<close>

theorem published_document_live:
  assumes "kreach E db" "d \<in> set (t_documents db)" "d_PublicationStatus d = PublicationPublished"
  shows "d_DeletedAt d = None \<and> get_publication (d_ID d) db \<noteq> None \<and>
    (\<forall>r \<in> set (t_media_refs db). mr_DocumentID r = d_ID d \<longrightarrow> mr_Generation r = d_PublicationGeneration d)"
proof -
  note i = kreach_inv [OF assms(1)]
  have ps: "pub_state (t_documents db) (d_ID d) = Some (d_PublicationGeneration d, PublicationPublished)"
    using tbl_get_in [OF saga_invD(2) [OF i] assms(2)] assms(3) by (simp add: pub_state_def)
  have "deletion_check d" using saga_invD(1) [OF i] assms(2) by (rule documents_checkD)
  moreover have "get_publication (d_ID d) db \<noteq> None"
    using saga_invD(6) [OF i] ps by (auto simp: document_inv_def get_publication_def)
  moreover have "mr_Generation r = d_PublicationGeneration d" if "r \<in> set (t_media_refs db)" "mr_DocumentID r = d_ID d" for r
    using saga_invD(7) [OF i] that ps by (auto simp: media_inv_def)
  ultimately show ?thesis using assms(3) by (auto simp: deletion_check_def)
qed

theorem published_document_live_witness:
  "\<exists>d. get_document ''doc-1'' published_db = Some d \<and> d_DeletedAt d = None \<and> get_publication ''doc-1'' published_db \<noteq> None"
proof -
  have "map_option d_PublicationStatus (get_document ''doc-1'' published_db) = Some PublicationPublished" by code_simp
  then obtain d where d: "get_document ''doc-1'' published_db = Some d" "d_PublicationStatus d = PublicationPublished"
    by (auto simp: map_option_eq_Some)
  then have "d \<in> set (t_documents published_db)" "d_ID d = ''doc-1''"
    unfolding get_document_def by (blast dest: tbl_get_SomeD)+
  then show ?thesis using published_document_live [OF sample_reach(4), of d] d by simp
qed

text \<open>No repository call moves a document backwards: its owner stays, its metadata revision,
  permission revision and publication generation never decrease, and its status becomes published only at an
  unchanged generation, from publishing, with a candidate and a staged job of that generation stored.\<close>

theorem document_progress:
  assumes "kstep E db db'" "get_document i db = Some d" "get_document i db' = Some d'"
  shows "d_OwnerID d' = d_OwnerID d \<and> d_MetadataRevision d \<le> d_MetadataRevision d'
     \<and> d_PermissionRevision d \<le> d_PermissionRevision d' \<and> d_PublicationGeneration d \<le> d_PublicationGeneration d'
     \<and> (d_PublicationStatus d' = PublicationPublished \<longrightarrow> d_PublicationGeneration d' = d_PublicationGeneration d
          \<and> (d_PublicationStatus d = PublicationPublished \<or> staged_candidate db d))"
  using saga_step_progress [OF kstep_saga [OF assms(1)] assms(2,3)] by (simp add: progress_def)

theorem document_progress_witness:
  "\<exists>d d'. get_document ''doc-1'' staged_db = Some d \<and> get_document ''doc-1'' published_db = Some d'
     \<and> d_PublicationStatus d' = PublicationPublished \<and> d_PublicationStatus d \<noteq> PublicationPublished \<and> staged_candidate staged_db d"
proof -
  have "map_option d_PublicationStatus (get_document ''doc-1'' staged_db) = Some PublicationPublishing"
    "map_option d_PublicationStatus (get_document ''doc-1'' published_db) = Some PublicationPublished" by code_simp+
  then obtain d d' where d: "get_document ''doc-1'' staged_db = Some d" "d_PublicationStatus d = PublicationPublishing"
    "get_document ''doc-1'' published_db = Some d'" "d_PublicationStatus d' = PublicationPublished"
    by (auto simp: map_option_eq_Some)
  moreover have "kstep sample_env staged_db published_db"
    unfolding published_db_def by (rule kstep.promote [OF prod.collapse [symmetric]])
  from document_progress [OF this d(1,3)] d have "staged_candidate staged_db d" by simp
  ultimately show ?thesis by simp
qed

text \<open>In every reachable database, the slug of a published document's publication resolves to that
  document: the lookup answers with the publication's title, content and slug and asks for no redirect.\<close>

theorem published_slug_resolves:
  assumes "kreach E db" "d \<in> set (t_documents db)" "d_PublicationStatus d = PublicationPublished"
    "get_publication (d_ID d) db = Some pb"
  shows "\<exists>doc pj. GetPublishedDocument E now (pb_Slug pb) a db = Inr (doc, pj, False) \<and> doc_ID doc = d_ID d
     \<and> doc_Title doc = pb_Title pb \<and> doc_Slug doc = pb_Slug pb \<and> doc_Tags doc = pb_Tags pb
     \<and> pj_PlainText pj = pb_PlainText pb"
proof -
  note i = kreach_inv [OF assms(1)]
  have pb: "pb_DocumentID pb = d_ID d" using assms(4) unfolding get_publication_def by (blast dest: tbl_get_SomeD)
  have g: "get_document (d_ID d) db = Some d"
    using tbl_get_in [OF saga_invD(2) [OF i] assms(2)] by (simp add: get_document_def)
  have "deletion_check d" using saga_invD(1) [OF i] assms(2) by (rule documents_checkD)
  then have "d_DeletedAt d = None" using assms(3) by (auto simp: deletion_check_def)
  then show ?thesis
    using find_publication [OF kreach_slugs [OF assms(1)] assms(4)] pb g assms(3)
    by (simp add: GetPublishedDocument_def publishedSnapshot_def Let_def lower_eq_def documentFromModel_def projectionFromModel_def)
qed

theorem published_slug_resolves_witness:
  "\<exists>pb doc pj. get_publication ''doc-1'' published_db = Some pb
     \<and> GetPublishedDocument sample_env 500 (pb_Slug pb) 0 published_db = Inr (doc, pj, False) \<and> doc_ID doc = ''doc-1''"
proof -
  have "map_option d_PublicationStatus (get_document ''doc-1'' published_db) = Some PublicationPublished"
    "get_publication ''doc-1'' published_db \<noteq> None" by code_simp+
  then obtain d pb where d: "get_document ''doc-1'' published_db = Some d" "d_PublicationStatus d = PublicationPublished"
    and pb: "get_publication ''doc-1'' published_db = Some pb"
    by (auto simp: map_option_eq_Some)
  then have "d \<in> set (t_documents published_db)" "d_ID d = ''doc-1''"
    unfolding get_document_def by (blast dest: tbl_get_SomeD)+
  then show ?thesis using published_slug_resolves [OF sample_reach(4), of d pb 500 0] d pb by auto
qed

text \<open>What the public lookup returns is always the stored publication of a live published document,
  whether the slug was current or an alias, and a redirect is signalled exactly when the slug asked for is
  not the publication's own.\<close>

theorem GetPublishedDocument_sound:
  assumes "GetPublishedDocument E now slug a db = Inr (doc, pj, redirect)"
  shows "\<exists>d pb. get_document (doc_ID doc) db = Some d \<and> d_DeletedAt d = None \<and> d_PublicationStatus d = PublicationPublished
     \<and> pb \<in> set (t_publications db) \<and> pb_DocumentID pb = doc_ID doc \<and> doc_Title doc = pb_Title pb
     \<and> pj_PlainText pj = pb_PlainText pb \<and> (redirect \<longleftrightarrow> \<not> lower_eq E (pb_Slug pb) slug)"
  using GetPublishedDocument_live [OF assms] .

theorem GetPublishedDocument_sound_witness:
  "\<exists>doc pj pb. GetPublishedDocument sample_env 500 ''T'' 0 published_db = Inr (doc, pj, False) \<and>
     pb \<in> set (t_publications published_db) \<and> doc_Title doc = pb_Title pb"
proof -
  have "\<exists>doc pj. GetPublishedDocument sample_env 500 ''T'' 0 published_db = Inr (doc, pj, False)"
  proof (cases "GetPublishedDocument sample_env 500 ''T'' 0 published_db")
    case (Inl e)
    moreover have "\<not> isl (GetPublishedDocument sample_env 500 ''T'' 0 published_db)" by code_simp
    ultimately show ?thesis by simp
  next
    case (Inr x)
    moreover have "snd (snd (projr (GetPublishedDocument sample_env 500 ''T'' 0 published_db))) = False" by code_simp
    ultimately show ?thesis by (cases x) auto
  qed
  then show ?thesis using GetPublishedDocument_sound by blast
qed



text \<open>C20: A job that was superseded never publishes: promoting with a generation other than the document's
  leaves the database as it was, and answers without an error only if the stored job was already promoted.\<close>

theorem stale_promotion_inert:
  assumes "get_document (prj_DocumentID job) db = Some d" "d_PublicationGeneration d \<noteq> prj_Generation job"
  shows "snd (PromotePublication E now job db) = db \<and>
    (fst (PromotePublication E now job db) = Inr () \<longrightarrow> (\<exists>j. get_job (prj_ID job) db = Some j \<and> j_State j = publicationJobPromoted))"
proof (cases "PromotePublication E now job db")
  case (Pair r db')
  show ?thesis
  proof (cases r)
    case (Inl err)
    then have "db' = db" using Pair unfolding PromotePublication_def by (auto dest: transaction_fail)
    then show ?thesis using Pair Inl by simp
  next
    case (Inr u)
    then have "db' = db \<and> (\<exists>j. get_job (prj_ID job) db = Some j \<and> j_State j = publicationJobPromoted)"
      using PromotePublication_success [of E now job db u db'] Pair assms by (auto simp: promotable_def)
    then show ?thesis using Pair by simp
  qed
qed

theorem stale_promotion_inert_witness:
  "snd (PromotePublication sample_env 600 (sample_job\<lparr>prj_Generation := 3\<rparr>) staged_db) = staged_db"
proof -
  have "map_option d_PublicationGeneration (get_document ''doc-1'' staged_db) = Some 1" by code_simp
  then obtain d where "get_document ''doc-1'' staged_db = Some d" "d_PublicationGeneration d = 1"
    by (auto simp: map_option_eq_Some)
  then show ?thesis using stale_promotion_inert [of "sample_job\<lparr>prj_Generation := 3\<rparr>" staged_db d sample_env 600]
    by (simp add: sample_job_def)
qed

end
