(* ===== verification/DocumentProperties.thy ===== *)
theory DocumentProperties
  imports PublicationSafety
begin

text \<open>
  What the document, member, projection and history operations promise their callers: optimistic
  concurrency, idempotent replays, permission events, monotone projections, history retention and the
  visibility of listings.
\<close>

section \<open>Optimistic concurrency\<close>

definition kept_step :: "kenv \<Rightarrow> string \<Rightarrow> kdb \<Rightarrow> kdb \<Rightarrow> bool" where
  "kept_step E docID db db' \<longleftrightarrow> kstep E db db' \<and> get_document docID db' \<noteq> None"

lemma kept_progress:
  assumes "(kept_step E docID)\<^sup>*\<^sup>* db db'" "get_document docID db = Some d"
  shows "\<exists>d'. get_document docID db' = Some d' \<and> d_MetadataRevision d \<le> d_MetadataRevision d'"
  using assms(1)
proof (induction rule: rtranclp_induct)
  case base
  then show ?case using assms(2) by simp
next
  case (step y z)
  then obtain d' d'' where d: "get_document docID y = Some d'" "d_MetadataRevision d \<le> d_MetadataRevision d'"
    and s: "kstep E y z" "get_document docID z = Some d''"
    unfolding kept_step_def by blast
  have "progress y d' d''" by (rule saga_step_progress [OF kstep_saga [OF s(1)] d(1) s(2)])
  then show ?case using d(2) s(2) by (auto simp: progress_def)
qed

lemma UpdateDocument_result:
  assumes "UpdateDocument E now docID a e u db = (Inr r, db')"
  shows "\<exists>d. get_document docID db = Some d \<and> d_DeletedAt d = None \<and> CanEdit (accessFor d a db)
    \<and> d_MetadataRevision d = e \<and> get_document docID db' = Some (apply_patch u now d)"
proof -
  obtain d where d: "get_document docID db = Some d" "d_DeletedAt d = None" "CanEdit (accessFor d a db)" "d_MetadataRevision d = e"
    and c: "core db' = core (db\<lparr>t_documents := tbl_upd (\<lambda>x. d_ID x = docID) (apply_patch u now) (t_documents db)\<rparr>)"
    using UpdateDocument_success [OF assms] by blast
  have "d_ID (apply_patch u now x) = d_ID x" for x by (simp add: apply_patch_def)
  then have "get_document docID db' = Some (apply_patch u now d)"
    using d(1) coreD(1) [OF c] by (simp add: get_document_def tbl_get_upd_key)
  with d show ?thesis by blast
qed

definition sample_patch :: document_patch where
  "sample_patch = \<lparr>up_Title = Some ''U'', up_Summary = None, up_Slug = None, up_Language = None, up_Tags = None,
     up_FolderID = None, up_Icon = None, up_CoverAttachmentID = None, up_CoverFocalX = None, up_CoverFocalY = None\<rparr>"

text \<open>An update is applied exactly when the caller may edit and names the current revision: it then
  changes only the requested fields and raises the revision by one. A refused update changes nothing.\<close>

theorem update_document_effect:
  "(UpdateDocument E now docID a e u db = (Inr r, db') \<longrightarrow>
     (\<exists>d. get_document docID db = Some d \<and> d_DeletedAt d = None \<and> CanEdit (accessFor d a db) \<and> d_MetadataRevision d = e
        \<and> get_document docID db' = Some (apply_patch u now d) \<and> d_MetadataRevision (apply_patch u now d) = e + 1))
   \<and> (UpdateDocument E now docID a e u db = (Inl err, db') \<longrightarrow> db' = db)"
proof (intro conjI impI)
  assume "UpdateDocument E now docID a e u db = (Inr r, db')"
  from UpdateDocument_result [OF this]
  show "\<exists>d. get_document docID db = Some d \<and> d_DeletedAt d = None \<and> CanEdit (accessFor d a db) \<and> d_MetadataRevision d = e
        \<and> get_document docID db' = Some (apply_patch u now d) \<and> d_MetadataRevision (apply_patch u now d) = e + 1"
    by (auto simp: apply_patch_def)
qed (rule failed_unchanged(2))

theorem update_document_effect_witness:
  "\<exists>d d'. get_document ''doc-1'' created_db = Some d \<and>
     get_document ''doc-1'' (snd (UpdateDocument sample_env 300 ''doc-1'' 7 1 sample_patch created_db)) = Some d' \<and>
     d_MetadataRevision d' = d_MetadataRevision d + 1"
proof -
  let ?r = "UpdateDocument sample_env 300 ''doc-1'' 7 1 sample_patch created_db"
  have "\<not> isl (fst ?r)" by code_simp
  then obtain x where "?r = (Inr x, snd ?r)" by (metis isl_def prod.collapse sum.exhaust_sel)
  then show ?thesis
    using update_document_effect [of sample_env 300 "''doc-1''" 7 1 sample_patch created_db x "snd ?r" ErrConflict]
    by auto
qed

text \<open>C21: No update is lost. Once an update against revision \<open>e\<close> succeeded, no other update against the
  same revision succeeds, by whomever and after whatever calls while the document exists; it fails
  without changing anything.\<close>

theorem no_lost_update:
  assumes "UpdateDocument E now docID a e u db = (Inr r, db')" "(kept_step E docID)\<^sup>*\<^sup>* db' db''"
  shows "\<exists>err. UpdateDocument E now' docID a' e u' db'' = (Inl err, db'')"
proof -
  obtain d where "get_document docID db' = Some d" "d_MetadataRevision d = e + 1"
    using UpdateDocument_result [OF assms(1)] by (auto simp: apply_patch_def)
  with kept_progress [OF assms(2)] obtain d' where d': "get_document docID db'' = Some d'" "e + 1 \<le> d_MetadataRevision d'"
    by fastforce
  obtain x s where x: "UpdateDocument E now' docID a' e u' db'' = (x, s)" by fastforce
  show ?thesis
  proof (cases x)
    case (Inl err)
    then show ?thesis using x failed_unchanged(2) by blast
  next
    case (Inr y)
    then show ?thesis using x UpdateDocument_result d' by fastforce
  qed
qed

theorem no_lost_update_witness:
  "\<exists>err. UpdateDocument sample_env 400 ''doc-1'' 7 1 sample_patch (snd (UpdateDocument sample_env 300 ''doc-1'' 7 1 sample_patch created_db))
     = (Inl err, snd (UpdateDocument sample_env 300 ''doc-1'' 7 1 sample_patch created_db))"
proof -
  let ?r = "UpdateDocument sample_env 300 ''doc-1'' 7 1 sample_patch created_db"
  have "\<not> isl (fst ?r)" by code_simp
  then obtain x where "?r = (Inr x, snd ?r)" by (metis isl_def prod.collapse sum.exhaust_sel)
  from no_lost_update [OF this rtranclp.rtrancl_refl] show ?thesis by blast
qed

section \<open>Idempotent replays\<close>

lemma replay_after_save:
  assumes "saveIdempotency now v res db = Inr (u, db')" "idm_Key v \<noteq> []" "now' < now + 24 * hour"
  shows "idempotentResource now' v db' = Inr (Some res, db')"
    "idm_key v' = idm_key v \<Longrightarrow> idm_RequestHash v' \<noteq> idm_RequestHash v \<Longrightarrow> idempotentResource now' v' db' = Inl ErrConflict"
proof -
  have "tbl_get i_key (idm_key v) (t_idempotency_keys db') = Some \<lparr>i_ActorID = idm_ActorID v, i_Operation = idm_Operation v,
      i_Key = idm_Key v, i_ResourceID = res, i_RequestHash = idm_RequestHash v, i_ExpiresAt = now + 24 * hour, i_CreatedAt = now\<rparr>"
    (is "_ = Some ?row")
  proof -
    have n: "\<forall>x \<in> set (t_idempotency_keys db). i_key x \<noteq> i_key ?row"
      and d: "t_idempotency_keys db' = t_idempotency_keys db @ [?row]"
      using assms(1,2) by (auto simp: saveIdempotency_def tx_simps)
    have k: "i_key ?row = idm_key v" by (simp add: i_key_def idm_key_def)
    then have "tbl_get i_key (idm_key v) (t_idempotency_keys db) = None" using n by (simp add: tbl_get_None)
    then show ?thesis unfolding d using k by (simp add: tbl_simps)
  qed
  then show "idempotentResource now' v db' = Inr (Some res, db')"
    "idm_key v' = idm_key v \<Longrightarrow> idm_RequestHash v' \<noteq> idm_RequestHash v \<Longrightarrow> idempotentResource now' v' db' = Inl ErrConflict"
    using assms(2,3) by (auto simp: idempotentResource_def idm_key_def)
qed

lemma PublishSnapshot_saved:
  assumes "PublishSnapshot E now docID a e input db = (Inr r, db')" "idempotentResource now (pi_Idempotency input) db = Inr (None, fresh)"
  shows "\<exists>s. saveIdempotency now (pi_Idempotency input) docID s = Inr ((), db')"
  using assms unfolding PublishSnapshot_def Let_def
  by (auto simp: transaction_Inr tbind_Inr lockDocument_iff dest: load_result_pure)

definition sample_key :: Idempotency where
  "sample_key = \<lparr>idm_ActorID = 7, idm_Operation = ''publish'', idm_Key = ''k1'', idm_RequestHash = ''h1''\<rparr>"

text \<open>C36: A publish request with an idempotency key is executed once. Repeating it within 24 hours leaves the
  database as it is, so no second generation and no second job arise; the same key with another request
  is a conflict.\<close>

theorem publish_replay:
  assumes "PublishSnapshot E now docID a e input db = (Inr r, db')"
    "idempotentResource now (pi_Idempotency input) db = Inr (None, fresh)"
    "idm_Key (pi_Idempotency input) \<noteq> []" "now' < now + 24 * hour"
  shows "snd (PublishSnapshot E now' docID a e input db') = db' \<and>
    (idm_key (pi_Idempotency input') = idm_key (pi_Idempotency input) \<longrightarrow>
     idm_RequestHash (pi_Idempotency input') \<noteq> idm_RequestHash (pi_Idempotency input) \<longrightarrow>
     PublishSnapshot E now' docID' a' e' input' db' = (Inl ErrConflict, db'))"
proof -
  obtain s where s: "saveIdempotency now (pi_Idempotency input) docID s = Inr ((), db')"
    using PublishSnapshot_saved [OF assms(1,2)] by blast
  note rp = replay_after_save [OF s assms(3,4)]
  have "snd (PublishSnapshot E now' docID a e input db') = db'"
    unfolding PublishSnapshot_def transaction_def tbind_def rp(1)
    by (auto split: sum.split dest: getDocument_pure)
  moreover have "PublishSnapshot E now' docID' a' e' input' db' = (Inl ErrConflict, db')"
    if "idm_key (pi_Idempotency input') = idm_key (pi_Idempotency input)"
      "idm_RequestHash (pi_Idempotency input') \<noteq> idm_RequestHash (pi_Idempotency input)"
    unfolding PublishSnapshot_def transaction_def tbind_def rp(2) [OF that] by simp
  ultimately show ?thesis by blast
qed

theorem publish_replay_witness:
  "snd (PublishSnapshot sample_env 300 ''doc-1'' 7 1 (sample_snapshot\<lparr>pi_Idempotency := sample_key\<rparr>)
     (snd (PublishSnapshot sample_env 200 ''doc-1'' 7 1 (sample_snapshot\<lparr>pi_Idempotency := sample_key\<rparr>) created_db)))
   = snd (PublishSnapshot sample_env 200 ''doc-1'' 7 1 (sample_snapshot\<lparr>pi_Idempotency := sample_key\<rparr>) created_db)"
proof -
  let ?in = "sample_snapshot\<lparr>pi_Idempotency := sample_key\<rparr>"
  let ?r = "PublishSnapshot sample_env 200 ''doc-1'' 7 1 ?in created_db"
  have "\<not> isl (fst ?r)" by code_simp
  then obtain x where x: "?r = (Inr x, snd ?r)" by (metis isl_def prod.collapse sum.exhaust_sel)
  have "tbl_get i_key (idm_key sample_key) (t_idempotency_keys created_db) = None" by code_simp
  then have "idempotentResource 200 (pi_Idempotency ?in) created_db = Inr (None, created_db)"
    by (simp add: idempotentResource_def)
  from publish_replay [OF x this, of 300] show ?thesis by (simp add: sample_key_def hour_def minute_def second_def millisecond_def)
qed

section \<open>Members\<close>

lemma permission_changed_event:
  assumes "permission_changed E now d g db db'" "get_document docID db = Some d"
  shows "\<exists>d' msg. get_document docID db' = Some d' \<and> d_PermissionRevision d' = d_PermissionRevision d + 1
     \<and> t_outbox db' = t_outbox db @ [msg] \<and> o_Payload msg = permissionChangedEvent d'"
proof -
  have "d_ID d = docID" using assms(2) by (rule get_document_ID)
  moreover have "d_ID (permission_bump now x) = d_ID x" for x by (simp add: permission_bump_def)
  ultimately have "get_document docID db' = Some (permission_bump now d)"
    using assms by (simp add: permission_changed_def core_def get_document_def tbl_get_upd_key)
  then show ?thesis
    using assms(1) by (auto simp: permission_changed_def permission_bump_def permission_row_def)
qed

text \<open>Only the owner of a live document changes its members, and every change that is made raises the
  document's permission revision by one and enqueues, in the same transaction, one permission event that
  carries the new revision.\<close>

theorem member_change_announced:
  assumes "AddMember E now docID a user role v db = (m, db') \<and> idempotentResource now v db = Inr (None, fresh)
      \<or> UpdateMember E now docID a userID e role db = (m, db')
      \<or> (\<exists>x. DeleteMember E now docID a userID e db = (x, db') \<and> (isl x = isl m))"
    "\<not> isl m"
  shows "\<exists>d d' msg. get_document docID db = Some d \<and> d_DeletedAt d = None \<and> accessFor d a db = AccessOwner
     \<and> get_document docID db' = Some d' \<and> d_PermissionRevision d' = d_PermissionRevision d + 1
     \<and> t_outbox db' = t_outbox db @ [msg] \<and> o_Payload msg = permissionChangedEvent d'"
proof -
  obtain d g where "get_document docID db = Some d" "d_DeletedAt d = None" "accessFor d a db = AccessOwner"
    "permission_changed E now d g db db'"
    using assms(1)
  proof (elim disjE exE conjE)
    assume "AddMember E now docID a user role v db = (m, db')" "idempotentResource now v db = Inr (None, fresh)"
    then show thesis using that assms(2) by (cases m) (auto elim!: AddMember_success)
  next
    assume "UpdateMember E now docID a userID e role db = (m, db')"
    then show thesis using that assms(2) by (cases m) (auto elim!: UpdateMember_success)
  next
    fix x assume "DeleteMember E now docID a userID e db = (x, db')" "isl x = isl m"
    then show thesis using that assms(2) by (cases x) (auto elim!: DeleteMember_success)
  qed
  then show ?thesis using permission_changed_event by blast
qed

theorem member_change_announced_witness:
  "\<exists>d d' (msg :: outbox_row). get_document ''doc-1'' created_db = Some d \<and>
     get_document ''doc-1'' (snd (AddMember sample_env 300 ''doc-1'' 7 \<lparr>pu_ID = 9, pu_Username = ''bob'', pu_Avatar = []\<rparr> AccessEditor no_key created_db)) = Some d'
     \<and> d_PermissionRevision d' = d_PermissionRevision d + 1 \<and> o_Payload msg = permissionChangedEvent d'"
proof -
  let ?r = "AddMember sample_env 300 ''doc-1'' 7 \<lparr>pu_ID = 9, pu_Username = ''bob'', pu_Avatar = []\<rparr> AccessEditor no_key created_db"
  have 1: "\<not> isl (fst ?r)" by code_simp
  have i: "idempotentResource 300 no_key created_db = Inr (None, created_db)" by (simp add: idempotentResource_def no_key_def)
  from member_change_announced [OF disjI1 [OF conjI [OF prod.collapse [symmetric] i]] 1] show ?thesis by blast
qed

section \<open>Projections\<close>

definition sample_projection :: Projection where
  "sample_projection = \<lparr>pj_DocumentID = ''doc-1'', pj_Sequence = 5, pj_Content = ''{}'', pj_PlainText = ''hello'', pj_ProjectedAt = 250\<rparr>"

text \<open>An environment whose database prints JSON in its own normal form, as PostgreSQL prints \<open>jsonb\<close>.\<close>

definition spaced_env :: kenv where
  "spaced_env = sample_env\<lparr>ke_jsonb_out := (\<lambda>j. case j of JStr x \<Rightarrow> x @ '' '' | _ \<Rightarrow> [])\<rparr>"

lemma UpsertProjection_newer:
  assumes "UpsertProjection E pj db = (Inr (), db')" "tbl_get p_DocumentID (pj_DocumentID pj) (t_projections db) = Some p"
    "p_Sequence p < pj_Sequence pj"
  shows "\<exists>d content. get_document (pj_DocumentID pj) db = Some d \<and> d_DeletedAt d = None \<and> ke_jsonb_in E (pj_Content pj) = Some content
    \<and> tbl_get p_DocumentID (pj_DocumentID pj) (t_projections db') = Some (project_row pj content p)
    \<and> get_document (pj_DocumentID pj) db' = Some (project_document pj d)"
proof -
  have i: "p_DocumentID (project_row pj c x) = p_DocumentID x" "d_ID (project_document pj y) = d_ID y" for c x y
    by (simp_all add: project_row_def project_document_def)
  from assms(1) show ?thesis
    by (rule UpsertProjection_success)
      (use assms(2,3) in \<open>auto simp: core_def get_document_def tbl_get_upd_key i\<close>)
qed

text \<open>A projection is applied only if it is newer than the stored one, and then text, sequence and the
  document's content revision change together; an older sequence is refused, and an equal sequence never
  changes the database.\<close>

theorem projection_monotone:
  assumes "UpsertProjection E pj db = (r, db')" "tbl_get p_DocumentID (pj_DocumentID pj) (t_projections db) = Some p"
  shows "(pj_Sequence pj \<le> p_Sequence p \<longrightarrow> db' = db) \<and>
    (\<forall>d. get_document (pj_DocumentID pj) db = Some d \<longrightarrow> d_DeletedAt d = None \<longrightarrow> pj_Sequence pj < p_Sequence p \<longrightarrow> r = Inl ErrPrecondition) \<and>
    (p_Sequence p < pj_Sequence pj \<longrightarrow> r = Inr () \<longrightarrow>
      (\<exists>p' d'. tbl_get p_DocumentID (pj_DocumentID pj) (t_projections db') = Some p' \<and> p_Sequence p' = pj_Sequence pj
         \<and> p_PlainText p' = pj_PlainText pj \<and> get_document (pj_DocumentID pj) db' = Some d' \<and> d_ContentRevision d' = pj_Sequence pj))"
proof (intro conjI impI allI)
  assume le: "pj_Sequence pj \<le> p_Sequence p"
  show "db' = db"
  proof (cases r)
    case (Inl e)
    then show ?thesis using assms(1) failed_unchanged(10) by blast
  next
    case (Inr u)
    then have "UpsertProjection E pj db = (Inr u, db')" using assms(1) by simp
    then show ?thesis by (rule UpsertProjection_success) (use assms(2) le in auto)
  qed
next
  fix d assume "get_document (pj_DocumentID pj) db = Some d" "d_DeletedAt d = None" "pj_Sequence pj < p_Sequence p"
  then show "r = Inl ErrPrecondition"
    using assms unfolding UpsertProjection_def
    by (auto simp: transaction_def tbind_def lockDocument_def getProjection_def tsome_def tread_def tret_def tguard_def find_document_def traise_def)
next
  assume "p_Sequence p < pj_Sequence pj" "r = Inr ()"
  then show "\<exists>p' d'. tbl_get p_DocumentID (pj_DocumentID pj) (t_projections db') = Some p' \<and> p_Sequence p' = pj_Sequence pj
         \<and> p_PlainText p' = pj_PlainText pj \<and> get_document (pj_DocumentID pj) db' = Some d' \<and> d_ContentRevision d' = pj_Sequence pj"
    using UpsertProjection_newer [of E pj db db' p] assms by (auto simp: project_row_def project_document_def)
qed

theorem projection_monotone_witness:
  "\<exists>p'. tbl_get p_DocumentID ''doc-1'' (t_projections (snd (UpsertProjection sample_env sample_projection created_db))) = Some p'
     \<and> p_Sequence p' = 5"
proof -
  let ?r = "UpsertProjection sample_env sample_projection created_db"
  have r: "fst ?r = Inr ()" by code_simp
  have "map_option p_Sequence (tbl_get p_DocumentID (pj_DocumentID sample_projection) (t_projections created_db)) = Some 0" by code_simp
  then obtain p where p: "tbl_get p_DocumentID (pj_DocumentID sample_projection) (t_projections created_db) = Some p" "p_Sequence p = 0"
    by (auto simp: map_option_eq_Some)
  from projection_monotone [OF prod.collapse [symmetric] p(1), of sample_env] r p(2) show ?thesis
    by (auto simp: sample_projection_def)
qed

text \<open>C34: Redelivery of an applied projection is accepted as a duplicate exactly when the database prints the
  stored JSON with the bytes that were sent. The content column is \<open>jsonb\<close>, whose output is the
  database's own normal form, so for every other encoding the redelivery is a conflict.\<close>

theorem projection_redelivery:
  assumes "UpsertProjection E pj db = (Inr (), db')"
    "tbl_get p_DocumentID (pj_DocumentID pj) (t_projections db) = Some p" "p_Sequence p < pj_Sequence pj"
    "ke_jsonb_in E (pj_Content pj) = Some content"
  shows "UpsertProjection E pj db' = (if ke_jsonb_out E content = pj_Content pj then Inr () else Inl ErrConflict, db')"
proof -
  obtain d where d: "get_document (pj_DocumentID pj) db = Some d" "d_DeletedAt d = None"
    "tbl_get p_DocumentID (pj_DocumentID pj) (t_projections db') = Some (project_row pj content p)"
    "get_document (pj_DocumentID pj) db' = Some (project_document pj d)"
    using UpsertProjection_newer [OF assms(1-3)] assms(4) by auto
  then show ?thesis
    unfolding UpsertProjection_def
    by (simp add: transaction_def tbind_def lockDocument_def getProjection_def tsome_def tread_def tret_def tguard_def
        find_document_def traise_def project_row_def project_document_def)
qed

theorem projection_redelivery_witness:
  "UpsertProjection spaced_env sample_projection (snd (UpsertProjection spaced_env sample_projection created_db))
     = (Inl ErrConflict, snd (UpsertProjection spaced_env sample_projection created_db))"
proof -
  let ?r = "UpsertProjection spaced_env sample_projection created_db"
  have "fst ?r = Inr ()" by code_simp
  then have r: "?r = (Inr (), snd ?r)" by (metis prod.collapse)
  have "map_option p_Sequence (tbl_get p_DocumentID (pj_DocumentID sample_projection) (t_projections created_db)) = Some 0" by code_simp
  then obtain p where p: "tbl_get p_DocumentID (pj_DocumentID sample_projection) (t_projections created_db) = Some p" "p_Sequence p = 0"
    by (auto simp: map_option_eq_Some)
  have "ke_jsonb_in spaced_env (pj_Content sample_projection) = Some (JStr ''{}'')"
    "ke_jsonb_out spaced_env (JStr ''{}'') \<noteq> pj_Content sample_projection" "0 < pj_Sequence sample_projection" by code_simp+
  with projection_redelivery [OF r p(1)] p(2) show ?thesis by simp
qed

section \<open>History\<close>

lemma length_filter_mono:
  assumes "\<And>x. x \<in> set xs \<Longrightarrow> P x \<Longrightarrow> Q x"
  shows "length (filter P xs) \<le> length (filter Q xs)"
  using assms by (induction xs) (auto simp: le_SucI)

lemma length_without: "distinct xs \<Longrightarrow> m \<in> set xs \<Longrightarrow> length xs = Suc (length (filter (\<lambda>x. x \<noteq> m) xs))"
proof (induction xs)
  case (Cons a xs)
  have "filter (\<lambda>x. x \<noteq> a) xs = xs" if "a \<notin> set xs" using that by (induction xs) auto
  with Cons show ?case by (cases "m = a") auto
qed simp

definition h_key :: "history_row \<Rightarrow> time \<times> string" where
  "h_key h = (h_CreatedAt h, h_ID h)"

lemma distinct_h_IDs: "distinct (map h_ID rows) \<Longrightarrow> x \<in> set rows \<Longrightarrow> y \<in> set rows \<Longrightarrow> h_ID x = h_ID y \<Longrightarrow> x = y"
  by (auto simp: distinct_map dest: inj_onD)

text \<open>Among rows with distinct identifiers, at most \<open>n\<close> of one document have a rank of at most \<open>n\<close>.\<close>

lemma ranked_at_most:
  assumes d: "distinct (map h_ID rows)"
  shows "length (filter (\<lambda>h. \<not> h_IsAnchor h \<and> h_DocumentID h = docID \<and> history_rank rows h \<le> n) rows) \<le> n"
proof -
  let ?K = "filter (\<lambda>h. \<not> h_IsAnchor h \<and> h_DocumentID h = docID \<and> history_rank rows h \<le> n) rows"
  show ?thesis
  proof (cases "?K = []")
    case False
    have "finite (h_key ` set ?K)" "h_key ` set ?K \<noteq> {}" using False by (simp_all only: finite_imageI finite_set image_is_empty set_empty not_False_eq_True)
    then have "Min (h_key ` set ?K) \<in> h_key ` set ?K" by (rule Min_in)
    then obtain m where m: "m \<in> set ?K" "h_key m = Min (h_key ` set ?K)" by auto
    have mn: "m \<in> set rows" "\<not> h_IsAnchor m" "h_DocumentID m = docID" "history_rank rows m \<le> n" using m(1) by auto
    have less: "h_key m < h_key x" if "x \<in> set ?K" "x \<noteq> m" for x
    proof -
      have "h_key m \<le> h_key x" unfolding m(2) using that(1) by (intro Min_le) auto
      moreover have "h_key x \<noteq> h_key m" using distinct_h_IDs [OF d] that mn(1) by (auto simp: h_key_def)
      ultimately show ?thesis by simp
    qed
    have "distinct rows" using d by (simp add: distinct_map)
    then have "distinct ?K" by simp
    then have "length ?K = Suc (length (filter (\<lambda>x. x \<noteq> m) ?K))" using m(1) by (rule length_without)
    also have "length (filter (\<lambda>x. x \<noteq> m) ?K) \<le> length (filter (\<lambda>x. \<not> h_IsAnchor x \<and> h_DocumentID x = h_DocumentID m
         \<and> (h_CreatedAt m, h_ID m) < (h_CreatedAt x, h_ID x)) rows)"
      unfolding filter_filter by (rule length_filter_mono) (use less mn in \<open>auto simp: h_key_def\<close>)
    finally show ?thesis using mn(4) by (simp add: history_rank_def)
  qed simp
qed

definition pruned :: "time \<Rightarrow> history_row list \<Rightarrow> history_row list" where
  "pruned now rows = (let fresh = tbl_del (\<lambda>h. \<not> h_IsAnchor h \<and> h_CreatedAt h < now - 180 * 24 * hour) rows
     in tbl_del (\<lambda>h. \<not> h_IsAnchor h \<and> 500 < history_rank fresh h) fresh)"

lemma PruneHistory_rows: "t_history (snd (PruneHistory now db)) = pruned now (t_history db)"
  by (simp add: PruneHistory_def pruned_def transaction_def tbind_def twrite_def Let_def)

text \<open>Pruning keeps every anchor, never adds a row, and leaves for each document at most 500 automatic
  checkpoints, all from the last 180 days; an automatic checkpoint of the last 180 days is dropped only if 500
  newer ones of the same document are kept in its place.\<close>

theorem history_retention:
  assumes "PruneHistory now db = (r, db')" "distinct (map h_ID (t_history db))"
  shows "set (t_history db') \<subseteq> set (t_history db) \<and> (\<forall>h \<in> set (t_history db). h_IsAnchor h \<longrightarrow> h \<in> set (t_history db'))
    \<and> length (filter (\<lambda>h. \<not> h_IsAnchor h \<and> h_DocumentID h = docID) (t_history db')) \<le> 500
    \<and> (\<forall>h \<in> set (t_history db'). \<not> h_IsAnchor h \<longrightarrow> now - 180 * 24 * hour \<le> h_CreatedAt h)
    \<and> (\<forall>h \<in> set (t_history db) - set (t_history db'). now - 180 * 24 * hour \<le> h_CreatedAt h \<longrightarrow>
         500 \<le> length (filter (\<lambda>x. \<not> h_IsAnchor x \<and> h_DocumentID x = h_DocumentID h \<and> h_key h < h_key x) (t_history db)))"
proof -
  let ?fresh = "tbl_del (\<lambda>h. \<not> h_IsAnchor h \<and> h_CreatedAt h < now - 180 * 24 * hour) (t_history db)"
  have after: "t_history db' = tbl_del (\<lambda>h. \<not> h_IsAnchor h \<and> 500 < history_rank ?fresh h) ?fresh"
    using PruneHistory_rows [of now db] assms(1) by (simp add: pruned_def Let_def)
  have "distinct (map h_ID ?fresh)" using assms(2) by (rule distinct_del)
  from ranked_at_most [OF this, of docID 500]
  have "length (filter (\<lambda>h. \<not> h_IsAnchor h \<and> h_DocumentID h = docID) (t_history db')) \<le> 500"
    unfolding after tbl_del_def by (simp add: not_less conj_commute conj_left_commute conj_assoc cong: conj_cong)
  moreover have "500 \<le> length (filter (\<lambda>x. \<not> h_IsAnchor x \<and> h_DocumentID x = h_DocumentID h \<and> h_key h < h_key x) (t_history db))"
    if "h \<in> set (t_history db)" "h \<notin> set (t_history db')" "now - 180 * 24 * hour \<le> h_CreatedAt h" for h
  proof -
    have "500 < history_rank ?fresh h" using that unfolding after by (auto simp: in_tbl_del)
    moreover have "length (filter (\<lambda>x. \<not> h_IsAnchor x \<and> h_DocumentID x = h_DocumentID h \<and> h_key h < h_key x) ?fresh)
       \<le> length (filter (\<lambda>x. \<not> h_IsAnchor x \<and> h_DocumentID x = h_DocumentID h \<and> h_key h < h_key x) (t_history db))"
      unfolding tbl_del_def filter_filter by (rule length_filter_mono) simp
    ultimately show ?thesis by (simp add: history_rank_def h_key_def)
  qed
  ultimately show ?thesis unfolding after by (auto simp: in_tbl_del not_less)
qed

theorem history_retention_witness:
  "length (filter (\<lambda>h. \<not> h_IsAnchor h \<and> h_DocumentID h = ''doc-1'') (t_history (snd (PruneHistory 500 published_db)))) \<le> 500"
proof -
  have "distinct (map h_ID (t_history published_db))" by code_simp
  from history_retention [OF prod.collapse [symmetric] this] show ?thesis by blast
qed

text \<open>The history of a document is handed out without regard to who asks: the answers of the list and of
  the single lookup do not depend on the actor, so a user without any access reads the same revisions
  as the owner.\<close>

theorem history_ignores_actor:
  "ListHistory E docID a limit db = ListHistory E docID a' limit db \<and> GetHistory E docID revisionID a db = GetHistory E docID revisionID a' db"
  unfolding ListHistory_def GetHistory_def getDocument_def
  by (simp add: tbind_def tsome_def tread_def getProjection_def split: option.split sum.split)

section \<open>Listings\<close>

lemma filter_below:
  assumes "sorted_wrt (\<lambda>a b. key b < (key a :: 'k :: linorder)) xs" "1 \<le> n" "n \<le> length xs"
  shows "filter (\<lambda>x. key x < key (xs ! (n - 1))) xs = drop n xs"
proof -
  have t: "take n xs \<noteq> []" using assms(2,3) by auto
  then have c: "xs ! (n - 1) = last (take n xs)" using assms(2,3) by (simp add: last_conv_nth)
  have "sorted_wrt (\<lambda>a b. key b < key a) (take n xs @ drop n xs)" using assms(1) by simp
  then have s: "sorted_wrt (\<lambda>a b. key b < key a) (take n xs)" "\<forall>a \<in> set (take n xs). \<forall>b \<in> set (drop n xs). key b < key a"
    unfolding sorted_wrt_append by blast+
  have "take n xs = butlast (take n xs) @ [last (take n xs)]" using t by simp
  then have "\<forall>a \<in> set (butlast (take n xs)). key (last (take n xs)) < key a"
    using s(1) by (metis sorted_wrt_append list.set_intros(1))
  then have "\<forall>a \<in> set (take n xs). \<not> key a < key (last (take n xs))"
    using \<open>take n xs = _\<close> by (metis Un_iff empty_iff insert_iff less_asym less_irrefl list.set(1,2) set_append)
  then have "filter (\<lambda>x. key x < key (last (take n xs))) (take n xs) = []" by (simp add: filter_empty_conv)
  moreover have "filter (\<lambda>x. key x < key (last (take n xs))) (drop n xs) = drop n xs"
    using s(2) t by (simp add: filter_id_conv)
  ultimately show ?thesis
    unfolding c by (metis append_Nil append_take_drop_id filter_append)
qed

lemma strictly_descending:
  assumes "distinct (map rank xs)"
  shows "sorted_wrt (\<lambda>a b. rank b < (rank a :: 'k :: linorder)) (rev (sort_key rank xs))"
proof -
  have "sorted (map rank (sort_key rank xs))" by simp
  moreover have "distinct (map rank (sort_key rank xs))"
    using assms by (metis distinct_map distinct_sort inj_on_cong set_sort)
  ultimately have "sorted_wrt (<) (map rank (sort_key rank xs))" by (simp add: strict_sorted_iff)
  then show ?thesis by (simp add: sorted_wrt_rev sorted_wrt_map)
qed

definition page_key :: "document_row \<Rightarrow> time \<times> string" where
  "page_key d = (d_UpdatedAt d, d_ID d)"

lemma list_rank_workspace:
  "\<not> lo_Published opt \<Longrightarrow> \<not> lo_Deleted opt \<Longrightarrow> list_rank opt d = (0, page_key d)"
  by (simp add: list_rank_def list_order_def page_key_def)

lemma cursor_condition:
  assumes "\<not> lo_Published opt" "\<not> lo_Deleted opt" "lo_Cursor opt = None"
  shows "list_condition E now (opt\<lparr>lo_Cursor := Some c\<rparr>) db d \<longleftrightarrow> list_condition E now opt db d \<and> page_key d < c"
  using assms by (cases c) (simp add: list_condition_def list_order_def page_key_def cong: option.case_cong)

definition workspace_list :: "kenv \<Rightarrow> time \<Rightarrow> ListOptions \<Rightarrow> kdb \<Rightarrow> document_row list" where
  "workspace_list E now opt db = rev (sort_key (list_rank opt) (filter (list_condition E now opt db) (t_documents db)))"

lemma workspace_descending:
  assumes "\<not> lo_Published opt" "\<not> lo_Deleted opt" "distinct (map d_ID (t_documents db))"
  shows "sorted_wrt (\<lambda>a b. page_key b < page_key a) (workspace_list E now opt db)"
proof -
  have "distinct (map (list_rank opt) (filter (list_condition E now opt db) (t_documents db)))"
  proof -
    have "inj_on (list_rank opt) (set (t_documents db))"
      using assms(3) by (auto simp: distinct_map inj_on_def list_rank_workspace [OF assms(1,2)] page_key_def)
    then show ?thesis using assms(3) by (simp add: distinct_map inj_on_subset)
  qed
  from strictly_descending [OF this] show ?thesis
    by (simp add: workspace_list_def list_rank_workspace [OF assms(1,2)] page_key_def)
qed

lemma page_query:
  assumes "\<not> lo_Published opt" "\<not> lo_Deleted opt" "lo_Cursor opt = None"
  shows "rev (sort_key (list_rank (opt\<lparr>lo_Cursor := Some c\<rparr>)) (filter (list_condition E now (opt\<lparr>lo_Cursor := Some c\<rparr>) db) (t_documents db)))
    = filter (\<lambda>d. page_key d < c) (workspace_list E now opt db)"
proof -
  have r: "list_rank (opt\<lparr>lo_Cursor := Some c\<rparr>) = list_rank opt" by (rule ext) (simp add: list_rank_def list_order_def)
  have f: "filter (list_condition E now (opt\<lparr>lo_Cursor := Some c\<rparr>) db) (t_documents db)
      = filter (\<lambda>d. page_key d < c) (filter (list_condition E now opt db) (t_documents db))"
    unfolding filter_filter by (rule filter_cong [OF refl]) (auto simp: cursor_condition [OF assms])
  show ?thesis unfolding r f workspace_list_def rev_filter [symmetric] filter_sort by (rule refl)
qed

definition sample_options :: ListOptions where
  "sample_options = \<lparr>lo_ActorID = 7, lo_Query = [], lo_Cursor = None, lo_Limit = 20, lo_Access = [], lo_Publication = [],
     lo_FolderID = [], lo_Published = False, lo_Deleted = False\<rparr>"

text \<open>Paging through the workspace listing is complete and has no repetition: asking with the cursor of
  the last item of a page yields exactly the matching documents that follow that item in the full
  listing, up to the limit and the one extra row that tells whether there is more.\<close>

theorem pagination_complete:
  assumes "kreach E db" "\<not> lo_Published opt" "\<not> lo_Deleted opt" "lo_Cursor opt = None"
    "1 \<le> n" "n \<le> length (workspace_list E now opt db)"
  shows "buildListDocumentsQuery E now (opt\<lparr>lo_Cursor := Some (page_key (workspace_list E now opt db ! (n - 1)))\<rparr>) limit db
    = take (nat (limit + 1)) (drop n (workspace_list E now opt db))"
  unfolding buildListDocumentsQuery_def page_query [OF assms(2-4)]
  using filter_below [OF workspace_descending [OF assms(2,3) saga_invD(2) [OF kreach_inv [OF assms(1)]]] assms(5,6)] by simp

theorem pagination_complete_witness:
  "buildListDocumentsQuery sample_env 500 (sample_options\<lparr>lo_Cursor := Some (page_key (workspace_list sample_env 500 sample_options published_db ! 0))\<rparr>) 20 published_db
     = take 21 (drop 1 (workspace_list sample_env 500 sample_options published_db))"
proof -
  have "1 \<le> length (workspace_list sample_env 500 sample_options published_db)" by code_simp
  then show ?thesis
    using pagination_complete [OF sample_reach(4), of sample_options 1 500 20] by (simp add: sample_options_def)
qed

text \<open>Every listed document is one the caller may see: in the public listing a live published document with
  its publication's title, in the trash a deleted document of the caller, otherwise a live document the
  caller owns or is a member of; and a page holds at most one row more than the limit.\<close>

theorem listing_visibility:
  "length (ListDocuments E now opt db) \<le> nat ((if lo_Limit opt \<le> 0 then 20 else lo_Limit opt) + 1) \<and>
   (\<forall>doc \<in> set (ListDocuments E now opt db). \<exists>d \<in> set (t_documents db). doc_ID doc = d_ID d \<and>
     (if lo_Published opt then d_DeletedAt d = None \<and> d_PublicationStatus d = PublicationPublished
        \<and> (\<exists>pb. get_publication (d_ID d) db = Some pb \<and> doc_Title doc = pb_Title pb)
      else if lo_Deleted opt then d_DeletedAt d \<noteq> None \<and> d_OwnerID d = lo_ActorID opt
      else d_DeletedAt d = None \<and> (d_OwnerID d = lo_ActorID opt \<or> is_member (lo_ActorID opt) db d)))"
proof
  show "length (ListDocuments E now opt db) \<le> nat ((if lo_Limit opt \<le> 0 then 20 else lo_Limit opt) + 1)"
    by (simp add: ListDocuments_def buildListDocumentsQuery_def Let_def)
  show "\<forall>doc \<in> set (ListDocuments E now opt db). \<exists>d \<in> set (t_documents db). doc_ID doc = d_ID d \<and>
     (if lo_Published opt then d_DeletedAt d = None \<and> d_PublicationStatus d = PublicationPublished
        \<and> (\<exists>pb. get_publication (d_ID d) db = Some pb \<and> doc_Title doc = pb_Title pb)
      else if lo_Deleted opt then d_DeletedAt d \<noteq> None \<and> d_OwnerID d = lo_ActorID opt
      else d_DeletedAt d = None \<and> (d_OwnerID d = lo_ActorID opt \<or> is_member (lo_ActorID opt) db d))"
  proof
    fix doc assume "doc \<in> set (ListDocuments E now opt db)"
    then obtain d limit where d: "doc = list_document E opt db d" "d \<in> set (buildListDocumentsQuery E now opt limit db)"
      unfolding ListDocuments_def Let_def by auto
    then have m: "d \<in> set (t_documents db)" "list_condition E now opt db d"
      unfolding buildListDocumentsQuery_def by (auto dest!: in_set_takeD)
    have "doc_ID doc = d_ID d"
      unfolding d(1) list_document_def Let_def by (simp add: documentFromModel_def split: option.split)
    then show "\<exists>d \<in> set (t_documents db). doc_ID doc = d_ID d \<and>
       (if lo_Published opt then d_DeletedAt d = None \<and> d_PublicationStatus d = PublicationPublished
          \<and> (\<exists>pb. get_publication (d_ID d) db = Some pb \<and> doc_Title doc = pb_Title pb)
        else if lo_Deleted opt then d_DeletedAt d \<noteq> None \<and> d_OwnerID d = lo_ActorID opt
        else d_DeletedAt d = None \<and> (d_OwnerID d = lo_ActorID opt \<or> is_member (lo_ActorID opt) db d))"
      using m d(1) by (intro bexI [OF _ m(1)]) (auto simp: list_condition_def list_document_def Let_def)
  qed
qed

theorem listing_visibility_witness:
  "length (ListDocuments sample_env 500 sample_options published_db) \<le> 21 \<and> ListDocuments sample_env 500 sample_options published_db \<noteq> []"
proof -
  have "ListDocuments sample_env 500 sample_options published_db \<noteq> []" by code_simp
  then show ?thesis using listing_visibility [of sample_env 500 sample_options published_db] by (simp add: sample_options_def)
qed

section \<open>Tags\<close>

text \<open>Two tags that validation accepts as different can stand for the same stored tag: a title-like tag
  and its hyphenated form pass the check for duplicates, yet an update with both is refused as a conflict,
  although it names the current revision and comes from the owner.\<close>

theorem tags_with_one_slug_conflict:
  "NormalizeTags (ke_lower sample_env) [''go lang'', ''go-lang''] = Inr [''go lang'', ''go-lang''] \<and>
   UpdateDocument sample_env 300 ''doc-1'' 7 1 (sample_patch\<lparr>up_Tags := Some [''go lang'', ''go-lang'']\<rparr>) created_db
     = (Inl ErrConflict, created_db)"
proof
  show "NormalizeTags (ke_lower sample_env) [''go lang'', ''go-lang''] = Inr [''go lang'', ''go-lang'']" by code_simp
  let ?r = "UpdateDocument sample_env 300 ''doc-1'' 7 1 (sample_patch\<lparr>up_Tags := Some [''go lang'', ''go-lang'']\<rparr>) created_db"
  have "fst ?r = Inl ErrConflict" by code_simp
  then have "?r = (Inl ErrConflict, snd ?r)" by (metis prod.collapse)
  with failed_unchanged(2) [OF this] show "?r = (Inl ErrConflict, created_db)" by simp
qed

end
