(* ===== verification/FolderForest.thy ===== *)
theory FolderForest
  imports KnowledgeScenario
begin

text \<open>
  The folders of an owner form a forest: identifiers are unique, every parent exists and belongs to the same
  owner, and no folder is its own ancestor. The cycle check of a move (a recursive query in
  \<open>repository/folders.go\<close>) is shown to find every descendant.
\<close>

section \<open>The invariant\<close>

definition parents :: "folder_row list \<Rightarrow> (string \<times> string) set" where
  "parents rows = {(f_ID f, p) |f p. f \<in> set rows \<and> f_ParentID f = Some p}"

definition forest :: "folder_row list \<Rightarrow> bool" where
  "forest rows \<longleftrightarrow> distinct (map f_ID rows)
     \<and> (\<forall>f \<in> set rows. \<forall>p. f_ParentID f = Some p \<longrightarrow> (\<exists>g \<in> set rows. f_ID g = p \<and> f_OwnerID g = f_OwnerID f))
     \<and> acyclic (parents rows)"

lemma forestD:
  assumes "forest rows"
  shows "distinct (map f_ID rows)" "acyclic (parents rows)"
    "f \<in> set rows \<Longrightarrow> f_ParentID f = Some p \<Longrightarrow> \<exists>g \<in> set rows. f_ID g = p \<and> f_OwnerID g = f_OwnerID f"
  using assms by (auto simp: forest_def)

lemma same_folder: "distinct (map f_ID rows) \<Longrightarrow> f \<in> set rows \<Longrightarrow> g \<in> set rows \<Longrightarrow> f_ID f = f_ID g \<Longrightarrow> f = g"
  by (auto simp: distinct_map dest: inj_onD)

lemma parents_I: "f \<in> set rows \<Longrightarrow> f_ParentID f = Some p \<Longrightarrow> (f_ID f, p) \<in> parents rows"
  by (auto simp: parents_def)

lemma parents_image:
  "parents rows \<subseteq> (\<lambda>f. (f_ID f, the (f_ParentID f))) ` set rows"
  by (force simp: parents_def)

lemma finite_parents: "finite (parents rows)"
  by (rule finite_subset [OF parents_image]) simp

lemma card_parents: "card (parents rows) \<le> length rows"
proof -
  have "card (parents rows) \<le> card ((\<lambda>f. (f_ID f, the (f_ParentID f))) ` set rows)"
    by (rule card_mono [OF _ parents_image]) simp
  also have "\<dots> \<le> card (set rows)" by (rule card_image_le) simp
  also have "\<dots> \<le> length rows" by (rule card_length)
  finally show ?thesis .
qed

section \<open>The recursive query\<close>

lemma descendant_ids_self: "x \<in> set ids \<Longrightarrow> x \<in> set (descendant_ids n rows o' ids)"
  by (cases n) auto

text \<open>Every folder whose chain of parents reaches one of the identifiers within \<open>n\<close> steps is found.\<close>

lemma descendant_ids_complete:
  assumes "(x, y) \<in> parents rows ^^ k" "k \<le> n" "y \<in> set ids"
    and "\<And>a b. (a, b) \<in> parents rows \<Longrightarrow> (b, y) \<in> (parents rows)\<^sup>* \<Longrightarrow> \<exists>f \<in> set rows. f_ID f = a \<and> f_ParentID f = Some b \<and> f_OwnerID f = o'"
  shows "x \<in> set (descendant_ids n rows o' ids)"
  using assms
proof (induction k arbitrary: n y ids)
  case 0
  then show ?case by (auto intro: descendant_ids_self)
next
  case (Suc k)
  from Suc.prems(1) obtain z where z: "(x, z) \<in> parents rows ^^ k" "(z, y) \<in> parents rows" by auto
  obtain m where n: "n = Suc m" "k \<le> m" using Suc.prems(2) by (cases n) auto
  obtain f where f: "f \<in> set rows" "f_ID f = z" "f_ParentID f = Some y" "f_OwnerID f = o'"
    using Suc.prems(4) [OF z(2)] by auto
  let ?next = "map f_ID (filter (\<lambda>f. f_OwnerID f = o' \<and> (case f_ParentID f of None \<Rightarrow> False | Some p \<Rightarrow> p \<in> set ids)) rows)"
  have "z \<in> set ?next" using f Suc.prems(3) by (auto simp: image_iff intro!: bexI [where x = f])
  moreover have "\<exists>f \<in> set rows. f_ID f = a \<and> f_ParentID f = Some b \<and> f_OwnerID f = o'"
    if "(a, b) \<in> parents rows" "(b, z) \<in> (parents rows)\<^sup>*" for a b
    using Suc.prems(4) [OF that(1)] that(2) z(2) by (meson rtrancl.rtrancl_into_rtrancl)
  ultimately have "x \<in> set (descendant_ids m rows o' ?next)"
    using Suc.IH [OF z(1) n(2)] by blast
  then show ?case unfolding n by simp
qed

lemma owner_above:
  assumes f: "forest rows" and r: "(b, y) \<in> (parents rows)\<^sup>*" and y: "h \<in> set rows" "f_ID h = y" "f_OwnerID h = o'"
    and b: "g \<in> set rows" "f_ID g = b"
  shows "f_OwnerID g = o'"
  using r b
proof (induction arbitrary: g rule: converse_rtrancl_induct)
  case base
  then show ?case using same_folder [OF forestD(1) [OF f]] y by metis
next
  case (step b c)
  then obtain f' where f': "f' \<in> set rows" "f_ID f' = b" "f_ParentID f' = Some c" by (auto simp: parents_def)
  then have "g = f'" using same_folder [OF forestD(1) [OF f]] step.prems by metis
  then obtain p where "p \<in> set rows" "f_ID p = c" "f_OwnerID p = f_OwnerID g"
    using forestD(3) [OF f f'(1,3)] by blast
  then show ?case using step.IH by metis
qed

lemma in_subtree_complete:
  assumes f: "forest (t_folders db)" and y: "h \<in> set (t_folders db)" "f_ID h = y" "f_OwnerID h = o'"
    and r: "(x, y) \<in> (parents (t_folders db))\<^sup>*"
  shows "in_subtree y o' x db"
proof -
  let ?R = "parents (t_folders db)"
  obtain k where k: "k \<le> card ?R" "(x, y) \<in> ?R ^^ k"
    using r unfolding rtrancl_finite_eq_relpow [OF finite_parents] by blast
  have "\<exists>f \<in> set (t_folders db). f_ID f = a \<and> f_ParentID f = Some b \<and> f_OwnerID f = o'"
    if ab: "(a, b) \<in> ?R" "(b, y) \<in> ?R\<^sup>*" for a b
  proof -
    obtain g where g: "g \<in> set (t_folders db)" "f_ID g = a" "f_ParentID g = Some b" using ab(1) by (auto simp: parents_def)
    have "(a, y) \<in> ?R\<^sup>*" using ab by (rule converse_rtrancl_into_rtrancl)
    from owner_above [OF f this y g(1,2)] g show ?thesis by blast
  qed
  then show ?thesis
    unfolding in_subtree_def using k card_parents [of "t_folders db"]
    by (intro descendant_ids_complete [where k = k and y = y]) auto
qed

section \<open>Preservation\<close>

lemma acyclic_trans_subset: "acyclic r \<Longrightarrow> s \<subseteq> r\<^sup>+ \<Longrightarrow> acyclic s"
  by (metis acyclic_def acyclic_subset trancl_id trans_trancl)

lemma owned_folderD: "owned_folder i o' db = Some f \<Longrightarrow> f \<in> set (t_folders db) \<and> f_ID f = i \<and> f_OwnerID f = o'"
  by (auto simp: owned_folder_def find_Some_iff)

lemma forest_add:
  assumes f: "forest rows" and n: "\<forall>f \<in> set rows. f_ID f \<noteq> f_ID row"
    and p: "\<And>p. f_ParentID row = Some p \<Longrightarrow> \<exists>g \<in> set rows. f_ID g = p \<and> f_OwnerID g = f_OwnerID row"
  shows "forest (rows @ [row])"
proof -
  have fresh: "(x, f_ID row) \<notin> parents rows" for x
    using forestD(3) [OF f] n by (auto simp: parents_def)
  have "acyclic (parents (rows @ [row]))"
  proof (cases "f_ParentID row")
    case None
    then have "parents (rows @ [row]) = parents rows" by (auto simp: parents_def)
    then show ?thesis using forestD(2) [OF f] by simp
  next
    case (Some q)
    then have "parents (rows @ [row]) = insert (f_ID row, q) (parents rows)" by (auto simp: parents_def)
    moreover have "q \<noteq> f_ID row" using p [OF Some] n by auto
    then have "(q, f_ID row) \<notin> (parents rows)\<^sup>*" using fresh by (auto elim: rtranclE)
    ultimately show ?thesis using forestD(2) [OF f] by simp
  qed
  then show ?thesis using f n p unfolding forest_def by auto
qed

lemma tbl_upd_hit: "r \<in> set rows \<Longrightarrow> p r \<Longrightarrow> f r \<in> set (tbl_upd p f rows)"
  by (force simp: tbl_upd_def)

lemma tbl_upd_miss: "r \<in> set rows \<Longrightarrow> \<not> p r \<Longrightarrow> r \<in> set (tbl_upd p f rows)"
  by (force simp: tbl_upd_def)

lemma forest_move:
  assumes f: "forest rows" and row: "row \<in> set rows" "f_ID row = i"
    and u: "\<And>x. f_ID (u x) = f_ID x" "\<And>x. f_OwnerID (u x) = f_OwnerID x" "\<And>x. f_ParentID (u x) = new (f_ParentID x)"
    and new: "new (f_ParentID row) = f_ParentID row \<or> new (f_ParentID row) = None \<or>
      (\<exists>p g. new (f_ParentID row) = Some p \<and> g \<in> set rows \<and> f_ID g = p \<and> f_OwnerID g = f_OwnerID row \<and> (p, i) \<notin> (parents rows)\<^sup>*)"
  shows "forest (tbl_upd (\<lambda>f. f_ID f = i) u rows)"
proof -
  let ?rows = "tbl_upd (\<lambda>f. f_ID f = i) u rows"
  have only: "x = row" if "x \<in> set rows" "f_ID x = i" for x using same_folder [OF forestD(1) [OF f]] that row by metis
  have mem: "(\<exists>y \<in> set ?rows. f_ID y = p \<and> f_OwnerID y = w)" if "g \<in> set rows" "f_ID g = p" "f_OwnerID g = w" for g p w
  proof (cases "p = i")
    case True
    then have "u g \<in> set ?rows" using that by (intro tbl_upd_hit) simp_all
    then show ?thesis using that u by metis
  next
    case False
    then have "g \<in> set ?rows" using that by (intro tbl_upd_miss) simp_all
    then show ?thesis using that by blast
  qed
  have "\<exists>g \<in> set ?rows. f_ID g = p \<and> f_OwnerID g = f_OwnerID x" if x: "x \<in> set ?rows" "f_ParentID x = Some p" for x p
    using x(1)
  proof (cases rule: in_tbl_updE)
    case (hit y)
    then have y: "y = row" using only by simp
    have "\<exists>g \<in> set rows. f_ID g = p \<and> f_OwnerID g = f_OwnerID row"
      using new forestD(3) [OF f row(1)] x(2) hit(3) y u(3) by (auto split: if_split_asm)
    then show ?thesis using mem hit(3) y u(2) by metis
  next
    case miss
    then show ?thesis using forestD(3) [OF f _ x(2)] mem by metis
  qed
  moreover have "acyclic (parents ?rows)"
  proof -
    have sub: "parents ?rows \<subseteq> {(a, b). (a, b) \<in> parents rows \<and> a \<noteq> i} \<union> {(i, p) |p. new (f_ParentID row) = Some p}"
    proof
      fix e assume "e \<in> parents ?rows"
      then obtain x p where x: "e = (f_ID x, p)" "x \<in> set ?rows" "f_ParentID x = Some p" by (auto simp: parents_def)
      from x(2) show "e \<in> {(a, b). (a, b) \<in> parents rows \<and> a \<noteq> i} \<union> {(i, p) |p. new (f_ParentID row) = Some p}"
      proof (cases rule: in_tbl_updE)
        case (hit y)
        then show ?thesis using only x u by auto
      next
        case miss
        then show ?thesis using x by (auto simp: parents_def)
      qed
    qed
    consider "new (f_ParentID row) = f_ParentID row \<or> new (f_ParentID row) = None"
      | p where "new (f_ParentID row) = Some p" "(p, i) \<notin> (parents rows)\<^sup>*" using new by metis
    then show ?thesis
    proof cases
      case 1
      then have "parents ?rows \<subseteq> parents rows" using sub parents_I [OF row(1)] row(2) by auto
      then show ?thesis using forestD(2) [OF f] by (rule acyclic_subset [rotated])
    next
      case (2 p)
      then have "parents ?rows \<subseteq> insert (i, p) (parents rows)" using sub by auto
      moreover have "acyclic (insert (i, p) (parents rows))" using 2 forestD(2) [OF f] by simp
      ultimately show ?thesis by (rule acyclic_subset [rotated])
    qed
  qed
  ultimately show ?thesis using forestD(1) [OF f] u(1) by (auto simp: forest_def map_key_upd)
qed

lemma forest_remove:
  assumes f: "forest rows" and row: "row \<in> set rows"
    and u: "\<And>x. f_ID (u x) = f_ID x" "\<And>x. f_OwnerID (u x) = f_OwnerID x" "\<And>x. f_ParentID (u x) = f_ParentID row"
  shows "forest (tbl_del (\<lambda>f. f_ID f = f_ID row)
    (tbl_upd (\<lambda>f. f_OwnerID f = f_OwnerID row \<and> f_ParentID f = Some (f_ID row)) u rows))"
proof -
  let ?p = "\<lambda>f. f_OwnerID f = f_OwnerID row \<and> f_ParentID f = Some (f_ID row)"
  let ?rows = "tbl_del (\<lambda>f. f_ID f = f_ID row) (tbl_upd ?p u rows)"
  let ?R = "parents rows"
  have old: "\<exists>y \<in> set rows. f_ID y = f_ID x \<and> f_OwnerID y = f_OwnerID x \<and> f_ID y \<noteq> f_ID row \<and>
      (f_ParentID x = f_ParentID y \<and> f_ParentID y \<noteq> Some (f_ID row) \<or> f_ParentID y = Some (f_ID row) \<and> f_ParentID x = f_ParentID row)"
    if "x \<in> set ?rows" for x
  proof -
    have x: "x \<in> set (tbl_upd ?p u rows)" "f_ID x \<noteq> f_ID row" using that by (simp_all add: in_tbl_del)
    from x(1) show ?thesis
    proof (cases rule: in_tbl_updE)
      case (hit y)
      then show ?thesis using x(2) u by auto
    next
      case miss
      then have "f_ParentID x \<noteq> Some (f_ID row)"
        using forestD(3) [OF f] row same_folder [OF forestD(1) [OF f]] by metis
      then show ?thesis using miss x(2) by blast
    qed
  qed
  have keep: "\<exists>y \<in> set ?rows. f_ID y = f_ID g \<and> f_OwnerID y = f_OwnerID g" if g: "g \<in> set rows" "f_ID g \<noteq> f_ID row" for g
  proof (cases "?p g")
    case True
    have "u g \<in> set (tbl_upd ?p u rows)" using g(1) True by (rule tbl_upd_hit)
    then have "u g \<in> set ?rows" using g(2) u(1) by (simp add: in_tbl_del)
    then show ?thesis using u(1) [of g] u(2) [of g] by (intro bexI [where x = "u g"]) simp_all
  next
    case False
    have "g \<in> set (tbl_upd ?p u rows)" using g(1) False by (rule tbl_upd_miss)
    then have "g \<in> set ?rows" using g(2) by (simp add: in_tbl_del)
    then show ?thesis by blast
  qed
  have up: "p \<noteq> f_ID row" if "f_ParentID row = Some p" for p
    using forestD(2) [OF f] row that by (auto simp: parents_def acyclic_def)
  have "\<exists>g \<in> set ?rows. f_ID g = p \<and> f_OwnerID g = f_OwnerID x" if x: "x \<in> set ?rows" "f_ParentID x = Some p" for x p
  proof -
    from old [OF x(1)] obtain y where y: "y \<in> set rows" "f_OwnerID y = f_OwnerID x"
      "f_ParentID x = f_ParentID y \<and> f_ParentID y \<noteq> Some (f_ID row) \<or> f_ParentID y = Some (f_ID row) \<and> f_ParentID x = f_ParentID row"
      by blast
    have "\<exists>g \<in> set rows. f_ID g = p \<and> f_OwnerID g = f_OwnerID x \<and> p \<noteq> f_ID row"
    proof (cases "f_ParentID y = Some (f_ID row)")
      case True
      then have "f_OwnerID row = f_OwnerID x" using forestD(3) [OF f y(1) True] y(2) row same_folder [OF forestD(1) [OF f]] by metis
      moreover have "f_ParentID row = Some p" using True x(2) y(3) by auto
      ultimately show ?thesis using forestD(3) [OF f row] up by metis
    next
      case False
      then have "f_ParentID y = Some p" "p \<noteq> f_ID row" using x(2) y(3) by auto
      then show ?thesis using forestD(3) [OF f y(1)] y(2) by auto
    qed
    then obtain g where g: "g \<in> set rows" "f_ID g = p" "f_OwnerID g = f_OwnerID x" "p \<noteq> f_ID row" by blast
    then show ?thesis using keep [OF g(1)] by simp
  qed
  moreover have "acyclic (parents ?rows)"
  proof (rule acyclic_trans_subset [OF forestD(2) [OF f]], rule subsetI)
    fix e assume "e \<in> parents ?rows"
    then obtain x p where x: "e = (f_ID x, p)" "x \<in> set ?rows" "f_ParentID x = Some p" by (auto simp: parents_def)
    from old [OF x(2)] obtain y where y: "y \<in> set rows" "f_ID y = f_ID x"
      "f_ParentID x = f_ParentID y \<or> f_ParentID y = Some (f_ID row) \<and> f_ParentID x = f_ParentID row"
      by blast
    then have "(f_ID x, p) \<in> ?R \<or> (f_ID x, f_ID row) \<in> ?R \<and> (f_ID row, p) \<in> ?R"
      using parents_I [OF y(1), of p] parents_I [OF y(1), of "f_ID row"] parents_I [OF row, of p] x(3) by auto
    then show "e \<in> ?R\<^sup>+" using x(1) by (auto intro: trancl_into_trancl)
  qed
  moreover have "distinct (map f_ID ?rows)"
    using forestD(1) [OF f] u(1) by (intro distinct_del) (simp add: map_key_upd)
  ultimately show ?thesis by (auto simp: forest_def)
qed

section \<open>Properties\<close>

lemma parent_depth_exists:
  "parent_depth o' p db = Inr (d, db') \<Longrightarrow> db' = db \<and> (\<forall>q. p = Some q \<longrightarrow> (\<exists>g \<in> set (t_folders db). f_ID g = q \<and> f_OwnerID g = o'))"
  by (auto simp: parent_depth_def tx_simps split: option.split_asm dest!: owned_folderD)

lemma idempotency_folders:
  "idempotentResource now v db = Inr (r, db') \<Longrightarrow> t_folders db' = t_folders db"
  "saveIdempotency now v res db = Inr (u, db') \<Longrightarrow> t_folders db' = t_folders db"
  by (auto simp: idempotentResource_def saveIdempotency_def tx_simps split: if_splits option.splits)

lemma create_forest:
  assumes "CreateFolder E now o' name parentID v db = (Inr r, db')" and f: "forest (t_folders db)"
  shows "forest (t_folders db')"
proof -
  from assms(1) obtain ex s where s: "idempotentResource now v db = Inr (ex, s)"
    and rest: "(case ex of Some i \<Rightarrow> tbind (tsome (owned_folder i o') ErrNotFound) (\<lambda>f. tret (folderFromModel f))
      | None \<Rightarrow> tbind (parent_depth o' parentID) (\<lambda>depth. tbind (newID E) (\<lambda>folderID.
         let row = \<lparr>f_ID = folderID, f_OwnerID = o', f_ParentID = parentID, f_Name = name, f_Depth = depth,
                    f_Revision = 1, f_CreatedAt = now, f_UpdatedAt = now\<rparr>
         in tbind (tcheck (\<lambda>db. \<forall>f \<in> set (t_folders db). f_ID f \<noteq> folderID) ErrConflict) (\<lambda>_.
            tbind (put_folders E ErrConflict (\<lambda>fs. fs @ [row])) (\<lambda>_.
            tbind (saveIdempotency now v folderID) (\<lambda>_. tret (folderFromModel row))))))) s = Inr (r, db')"
    unfolding CreateFolder_def transaction_Inr tbind_Inr by blast
  note t = idempotency_folders(1) [OF s]
  show ?thesis
  proof (cases ex)
    case (Some i)
    then have "db' = s" using rest by (auto simp: tx_simps)
    then show ?thesis using f t by simp
  next
    case None
    define row where "row = (\<lambda>i depth. \<lparr>f_ID = i, f_OwnerID = o', f_ParentID = parentID, f_Name = name, f_Depth = depth,
      f_Revision = 1, f_CreatedAt = now, f_UpdatedAt = now\<rparr> :: folder_row)"
    from rest None obtain depth w where d: "parent_depth o' parentID s = Inr (depth, w)"
      and fresh: "\<forall>f \<in> set (t_folders w). f_ID f \<noteq> ke_newID E (t_id_counter w)"
      and k: "saveIdempotency now v (ke_newID E (t_id_counter w)) (w\<lparr>t_id_counter := Suc (t_id_counter w),
         t_folders := t_folders w @ [row (ke_newID E (t_id_counter w)) depth]\<rparr>) = Inr ((), db')"
      unfolding row_def by (auto simp: tx_simps Let_def)
    have w: "w = s" using parent_depth_exists [OF d] by simp
    have "forest (t_folders s @ [row (ke_newID E (t_id_counter s)) depth])"
      by (rule forest_add) (use f t fresh w parent_depth_exists [OF d] in \<open>auto simp: row_def\<close>)
    then show ?thesis using idempotency_folders(2) [OF k] w by simp
  qed
qed

lemma move_target_ok:
  assumes "move_target i o' p db = Inr (mv, db')" and f: "forest (t_folders db)"
    and row: "row \<in> set (t_folders db)" "f_ID row = i" "f_OwnerID row = o'" and mv: "mv = Some (q, depth)"
  shows "q = None \<or> (\<exists>x g. q = Some x \<and> g \<in> set (t_folders db) \<and> f_ID g = x \<and> f_OwnerID g = o' \<and> (x, i) \<notin> (parents (t_folders db))\<^sup>*)"
proof -
  obtain x where x: "p = Some x" using assms(1) mv by (cases p) (auto simp: move_target_def tx_simps)
  show ?thesis
  proof (cases "x = []")
    case True
    moreover have "nullableFolderID [] = None" by code_simp
    ultimately show ?thesis using assms(1) mv x by (auto simp: move_target_def tx_simps)
  next
    case False
    with assms(1) mv x obtain g where n: "\<not> in_subtree i o' x db" and g: "owned_folder x o' db = Some g"
      and q: "q = nullableFolderID x"
      by (auto simp: move_target_def tx_simps)
    have "(x, i) \<notin> (parents (t_folders db))\<^sup>*" using in_subtree_complete [OF f row] n by blast
    then show ?thesis using owned_folderD [OF g] q by (auto simp: nullableFolderID_def)
  qed
qed

lemma update_forest:
  assumes "UpdateFolder E now o' i e name parentID db = (Inr r, db')" and f: "forest (t_folders db)"
  shows "forest (t_folders db')"
proof -
  define u where "u = (\<lambda>move (f :: folder_row). let g = f\<lparr>f_Revision := f_Revision f + 1, f_UpdatedAt := now, f_Name := or_keep name (f_Name f)\<rparr>
                   in case move of None \<Rightarrow> g | Some (p, depth) \<Rightarrow> g\<lparr>f_ParentID := p, f_Depth := depth\<rparr>)"
  from assms(1) obtain row move w where r: "owned_folder i o' db = Some row" and m: "move_target i o' parentID db = Inr (move, w)"
    and d: "t_folders db' = tbl_upd (\<lambda>f. f_ID f = i) (u move) (t_folders w)"
    unfolding UpdateFolder_def u_def by (auto simp: transaction_Inr tbind_Inr tsome_iff tguard_iff put_folders_iff tret_iff)
  have w: "w = db" using m by (auto simp: move_target_def tx_simps split: option.split_asm if_split_asm)
  note row = owned_folderD [OF r]
  have "f_ID (u move x) = f_ID x" "f_OwnerID (u move x) = f_OwnerID x"
    "f_ParentID (u move x) = (case move of None \<Rightarrow> f_ParentID x | Some (p, _) \<Rightarrow> p)" for x
    by (auto simp: u_def Let_def split: option.split prod.split)
  moreover have "(case move of None \<Rightarrow> f_ParentID row | Some (p, _) \<Rightarrow> p) = f_ParentID row \<or>
      (case move of None \<Rightarrow> f_ParentID row | Some (p, _) \<Rightarrow> p) = None \<or>
      (\<exists>p g. (case move of None \<Rightarrow> f_ParentID row | Some (p, _) \<Rightarrow> p) = Some p \<and> g \<in> set (t_folders db) \<and> f_ID g = p
         \<and> f_OwnerID g = f_OwnerID row \<and> (p, i) \<notin> (parents (t_folders db))\<^sup>*)"
  proof (cases move)
    case (Some x)
    then obtain q depth where q: "move = Some (q, depth)" by (cases x) auto
    show ?thesis using move_target_ok [OF m f _ _ _ q] row unfolding q by auto
  qed simp
  ultimately show ?thesis
    unfolding d w using row
    by (intro forest_move [OF f, where new = "\<lambda>o'. case move of None \<Rightarrow> o' | Some (p, _) \<Rightarrow> p" and row = row]) auto
qed

lemma delete_forest:
  assumes "DeleteFolder E now o' i e db = (Inr r, db')" and f: "forest (t_folders db)"
  shows "forest (t_folders db')"
proof -
  define u where "u = (\<lambda>row (f :: folder_row). f\<lparr>f_ParentID := f_ParentID (row :: folder_row), f_Depth := max (f_Depth f - 1) 1, f_UpdatedAt := now\<rparr>)"
  from assms(1) obtain row where r: "owned_folder i o' db = Some row"
    and d: "t_folders db' = tbl_del (\<lambda>f. f_ID f = i) (tbl_upd (\<lambda>f. f_OwnerID f = o' \<and> f_ParentID f = Some i) (u row) (t_folders db))"
    unfolding DeleteFolder_def u_def by (auto simp: tx_simps)
  note row = owned_folderD [OF r]
  show ?thesis
    unfolding d using forest_remove [OF f, of row "u row"] row by (simp add: u_def)
qed

text \<open>C31: The folder operations keep the forest: after creating, renaming, moving or deleting a folder,
  whatever the arguments and the outcome, identifiers are unique, every parent exists and has the same
  owner, and no folder is an ancestor of itself. In particular the recursive query finds every cycle a
  move could make.\<close>

theorem folder_forest_preserved:
  assumes "forest (t_folders db)"
    "CreateFolder E now o' name parentID v db = (r, db') \<or> UpdateFolder E now o' i e nm parentID db = (r, db')
     \<or> (\<exists>x. DeleteFolder E now o' i e db = (x, db'))"
  shows "forest (t_folders db')"
  using assms(2)
proof (elim disjE exE)
  assume c: "CreateFolder E now o' name parentID v db = (r, db')"
  show ?thesis
  proof (cases r)
    case (Inl err)
    then show ?thesis using c assms(1) unfolding CreateFolder_def by (auto dest: transaction_fail)
  qed (use c assms(1) create_forest in blast)
next
  assume c: "UpdateFolder E now o' i e nm parentID db = (r, db')"
  show ?thesis
  proof (cases r)
    case (Inl err)
    then show ?thesis using c assms(1) unfolding UpdateFolder_def by (auto dest: transaction_fail)
  qed (use c assms(1) update_forest in blast)
next
  fix x assume c: "DeleteFolder E now o' i e db = (x, db')"
  show ?thesis
  proof (cases x)
    case (Inl err)
    then show ?thesis using c assms(1) unfolding DeleteFolder_def by (auto dest: transaction_fail)
  qed (use c assms(1) delete_forest in blast)
qed

theorem folder_forest_preserved_witness:
  "forest (t_folders (snd (CreateFolder sample_env 10 7 ''notes'' None no_key empty_db)))"
proof -
  have "forest (t_folders empty_db)" by (simp add: forest_def empty_db_def parents_def acyclic_def)
  from folder_forest_preserved [OF this disjI1 [OF prod.collapse [symmetric]]] show ?thesis .
qed

section \<open>Depth\<close>

text \<open>The number of folders from a folder up to its root, within a bound.\<close>

primrec folder_level :: "nat \<Rightarrow> string \<Rightarrow> folder_row list \<Rightarrow> nat" where
  "folder_level 0 i rows = 0"
| "folder_level (Suc n) i rows = (case tbl_get f_ID i rows of None \<Rightarrow> 0
     | Some f \<Rightarrow> Suc (case f_ParentID f of None \<Rightarrow> 0 | Some p \<Rightarrow> folder_level n p rows))"

primrec create_chain :: "nat \<Rightarrow> string option \<Rightarrow> kdb \<Rightarrow> kdb" where
  "create_chain 0 parent db = db"
| "create_chain (Suc n) parent db =
     (let folderID = ke_newID sample_env (t_id_counter db)
      in create_chain n (Some folderID) (snd (CreateFolder sample_env 10 7 ''folder'' parent no_key db)))"

text \<open>A chain of seven folders, and a second root of another name with one child.\<close>

definition two_chains :: kdb where
  "two_chains = create_chain 1 (Some ''id-7'') (snd (CreateFolder sample_env 10 7 ''second'' None no_key (create_chain 7 None empty_db)))"

text \<open>Moving a folder can break the documented limit of eight levels. With a chain of seven folders and a
  second root that has one child, moving that root below the chain succeeds; its child then lies on the
  ninth level while its stored depth is still 2, because a move does not update the depths below the
  moved folder.\<close>

theorem folder_move_exceeds_depth:
  "\<not> isl (fst (UpdateFolder sample_env 20 7 ''id-7'' 1 None (Some ''id-6'') two_chains)) \<and>
   folder_level 20 ''id-8'' (t_folders (snd (UpdateFolder sample_env 20 7 ''id-7'' 1 None (Some ''id-6'') two_chains))) = 9 \<and>
   map_option f_Depth (tbl_get f_ID ''id-8'' (t_folders (snd (UpdateFolder sample_env 20 7 ''id-7'' 1 None (Some ''id-6'') two_chains)))) = Some 2"
  by (intro conjI; code_simp)

end
