(* ===== verification/AttachmentStore.thy ===== *)
theory AttachmentStore
  imports GoStrings "HOL-Library.List_Lexorder" "HOL-Library.Char_ord" "HOL-Library.Product_Lexorder"
begin

text \<open>
  Attachments and their scan jobs: \<open>services/attachment/internal/domain/attachment.go\<close>,
  \<open>model/model.go\<close> and \<open>repository/store.go\<close>. The tables of the service are a record of row lists; the
  constraints of the schema that an insert can violate are checked where the code inserts. Advisory locks
  and row locks serialise the transactions, which the model runs one at a time.
\<close>

section \<open>Environment\<close>

text \<open>
  The Unicode tables behind \<open>strings.ToLower\<close> and \<open>strings.EqualFold\<close>, the version \<open>uuid.Parse\<close> finds, and
  the hexadecimal SHA-256 digest of the JSON encoding of a publication command.
\<close>

record aenv =
  ae_lower :: "int \<Rightarrow> int"
  ae_fold :: "int \<Rightarrow> int"
  ae_uuid_version :: "string \<Rightarrow> nat option"
  ae_command_hash :: "string \<Rightarrow> int \<Rightarrow> int \<Rightarrow> string list \<Rightarrow> string"

section \<open>Domain\<close>

abbreviation StatusPendingUpload :: string where "StatusPendingUpload \<equiv> ''pending_upload''"
abbreviation StatusScanning :: string where "StatusScanning \<equiv> ''scanning''"
abbreviation StatusScanParked :: string where "StatusScanParked \<equiv> ''scan_parked''"
abbreviation StatusReady :: string where "StatusReady \<equiv> ''ready''"
abbreviation StatusRejected :: string where "StatusRejected \<equiv> ''rejected''"
abbreviation StatusTrashed :: string where "StatusTrashed \<equiv> ''trashed''"

definition PartSize :: int where "PartSize = 16 * 2 ^ 20"

definition MaxParts :: int where "MaxParts = 64"

definition MaxUserBytes :: int where "MaxUserBytes = 10 * 2 ^ 30"

definition allowed :: "(string \<times> string) list" where
  "allowed = [
     (''image/jpeg'', ''image''), (''image/png'', ''image''), (''image/gif'', ''image''), (''image/webp'', ''image''),
     (''image/avif'', ''image''), (''audio/mpeg'', ''audio''), (''audio/ogg'', ''audio''), (''audio/wav'', ''audio''),
     (''audio/webm'', ''audio''), (''video/mp4'', ''video''), (''video/webm'', ''video''), (''video/quicktime'', ''video''),
     (''application/pdf'', ''document''), (''application/zip'', ''archive''), (''application/x-7z-compressed'', ''archive''),
     (''application/x-rar-compressed'', ''archive''), (''application/gzip'', ''archive''), (''application/x-tar'', ''archive''),
     (''text/plain'', ''file''), (''text/markdown'', ''file''), (''text/csv'', ''file''), (''application/json'', ''file''),
     (''application/octet-stream'', ''file''),
     (''application/vnd.openxmlformats-officedocument.wordprocessingml.document'', ''document''),
     (''application/vnd.openxmlformats-officedocument.spreadsheetml.sheet'', ''document''),
     (''application/vnd.openxmlformats-officedocument.presentationml.presentation'', ''document'')]"

record Attachment =
  att_ID :: string
  att_OwnerID :: int
  att_Filename :: string
  att_MediaType :: string
  att_Category :: string
  att_SizeBytes :: int
  att_SHA256 :: string
  att_DetectedType :: string
  att_ObjectKey :: string
  att_UploadID :: string
  att_Status :: string
  att_PartSize :: int
  att_PartCount :: int
  att_CreatedAt :: time
  att_UpdatedAt :: time

record ScanResult =
  sr_Clean :: bool
  sr_SHA256 :: string
  sr_Size :: int
  sr_DetectedType :: string

text \<open>\<open>filepath.Base\<close> on a slash-separated system.\<close>

definition filepath_base :: "string \<Rightarrow> string" where
  "filepath_base p = (if p = [] then ''.'' else
     let q = rev (dropWhile (\<lambda>c. c = CHR ''/'') (rev p)) in
     if q = [] then ''/'' else rev (takeWhile (\<lambda>c. c \<noteq> CHR ''/'') (rev q)))"

definition ValidateAttachment :: "(int \<Rightarrow> int) \<Rightarrow> string \<Rightarrow> string \<Rightarrow> int \<Rightarrow> string + string" where
  "ValidateAttachment ul filename0 mediaType0 sizeBytes =
     (let filename = trim_space filename0; mediaType = to_lower ul (trim_space mediaType0) in
      if filename = [] \<or> 255 < length filename then Inl ''filename is invalid''
      else if filepath_base filename \<noteq> filename then Inl ''filename must not contain a path''
      else case map_of allowed mediaType of
             None \<Rightarrow> Inl ''media type is not allowed''
           | Some category \<Rightarrow>
               if sizeBytes \<le> 0 \<or> 2 ^ 30 < sizeBytes then Inl ''attachment size must be between 1 byte and 1 GiB''
               else Inr category)"

definition hex_char :: "char \<Rightarrow> bool" where
  "hex_char c \<longleftrightarrow> (97 \<le> byte c \<and> byte c \<le> 102) \<or> (65 \<le> byte c \<and> byte c \<le> 70) \<or> (48 \<le> byte c \<and> byte c \<le> 57)"

definition ValidateHash :: "string \<Rightarrow> string + unit" where
  "ValidateHash hash = (if length hash = 64 \<and> list_all hex_char hash then Inr ()
     else Inl ''sha256 must be a 64 character hex string'')"

definition ValidateIdempotencyKey :: "string \<Rightarrow> string + unit" where
  "ValidateIdempotencyKey v = (if v = [] then Inr ()
     else if v \<noteq> trim_space v \<or> \<not> (length v \<le> 128 \<and> list_all (\<lambda>c. 33 \<le> byte c \<and> byte c \<le> 126) v)
     then Inl ''idempotency key must contain 1-128 visible ASCII characters'' else Inr ())"

definition ObjectKey :: "string \<Rightarrow> string" where
  "ObjectKey i = ''objects/'' @ take 2 i @ ''/'' @ i"

section \<open>Tables\<close>

record attachment_row =
  at_ID :: string
  at_OwnerID :: int
  at_Filename :: string
  at_MediaType :: string
  at_Category :: string
  at_SizeBytes :: int
  at_SHA256 :: string
  at_DetectedType :: string
  at_ObjectKey :: string
  at_UploadID :: string
  at_Status :: string
  at_PartSize :: int
  at_PartCount :: int
  at_IdempotencyKey :: string
  at_RequestHash :: string
  at_CreatedAt :: time
  at_UpdatedAt :: time

record scan_job_row =
  sj_AttachmentID :: string
  sj_Attempts :: int
  sj_NextAttemptAt :: time
  sj_LeaseUntil :: "time option"
  sj_ParkedAt :: "time option"
  sj_LastError :: string
  sj_CreatedAt :: time
  sj_UpdatedAt :: time

record reference_row =
  rf_AttachmentID :: string
  rf_RefType :: string
  rf_RefID :: string
  rf_Generation :: int
  rf_CreatedAt :: time

record reference_head_row =
  rh_RefType :: string
  rh_RefID :: string
  rh_OwnerID :: int
  rh_ActiveGeneration :: int
  rh_ActiveHash :: string
  rh_StagedGeneration :: "int option"
  rh_StagedHash :: string
  rh_UpdatedAt :: time

record adb =
  a_attachments :: "attachment_row list"
  a_scan_jobs :: "scan_job_row list"
  a_references :: "reference_row list"
  a_reference_heads :: "reference_head_row list"

datatype aerr = ANotFound | AConflict | AIdempotencyConflict | AReferenced | ARecordNotFound | AInvalid string | AOther string

type_synonym 'a atx = "(adb, aerr, 'a) tx"

definition empty_adb :: adb where
  "empty_adb = \<lparr>a_attachments = [], a_scan_jobs = [], a_references = [], a_reference_heads = []\<rparr>"

definition get_attachment :: "string \<Rightarrow> adb \<Rightarrow> attachment_row option" where
  "get_attachment i db = tbl_get at_ID i (a_attachments db)"

definition owned_attachment :: "string \<Rightarrow> int \<Rightarrow> adb \<Rightarrow> attachment_row option" where
  "owned_attachment i owner db = find (\<lambda>r. at_ID r = i \<and> at_OwnerID r = owner) (a_attachments db)"

definition put_attachment :: "string \<Rightarrow> (attachment_row \<Rightarrow> attachment_row) \<Rightarrow> unit atx" where
  "put_attachment i f = twrite (a_attachments_update (tbl_upd (\<lambda>r. at_ID r = i) f))"

definition put_scan_job :: "string \<Rightarrow> (scan_job_row \<Rightarrow> scan_job_row) \<Rightarrow> unit atx" where
  "put_scan_job i f = twrite (a_scan_jobs_update (tbl_upd (\<lambda>j. sj_AttachmentID j = i) f))"

section \<open>Repository\<close>

record AttIdempotency =
  ai_OwnerID :: int
  ai_Key :: string
  ai_RequestHash :: string

definition toDomain :: "attachment_row \<Rightarrow> Attachment" where
  "toDomain r = \<lparr>att_ID = at_ID r, att_OwnerID = at_OwnerID r, att_Filename = at_Filename r, att_MediaType = at_MediaType r,
     att_Category = at_Category r, att_SizeBytes = at_SizeBytes r, att_SHA256 = at_SHA256 r, att_DetectedType = at_DetectedType r,
     att_ObjectKey = at_ObjectKey r, att_UploadID = at_UploadID r, att_Status = at_Status r, att_PartSize = at_PartSize r,
     att_PartCount = at_PartCount r, att_CreatedAt = at_CreatedAt r, att_UpdatedAt = at_UpdatedAt r\<rparr>"

definition quota_statuses :: "string list" where
  "quota_statuses = [StatusPendingUpload, StatusScanning, StatusScanParked, StatusReady, StatusTrashed]"

definition used_bytes :: "int \<Rightarrow> attachment_row list \<Rightarrow> int" where
  "used_bytes owner rows =
     sum_list (map at_SizeBytes (filter (\<lambda>r. at_OwnerID r = owner \<and> at_Status r \<in> set quota_statuses) rows))"

definition newAttachmentRow :: "Attachment \<Rightarrow> AttIdempotency \<Rightarrow> attachment_row" where
  "newAttachmentRow a v = \<lparr>at_ID = att_ID a, at_OwnerID = att_OwnerID a, at_Filename = att_Filename a,
     at_MediaType = att_MediaType a, at_Category = att_Category a, at_SizeBytes = att_SizeBytes a, at_SHA256 = att_SHA256 a,
     at_DetectedType = [], at_ObjectKey = att_ObjectKey a, at_UploadID = att_UploadID a, at_Status = att_Status a,
     at_PartSize = att_PartSize a, at_PartCount = att_PartCount a, at_IdempotencyKey = ai_Key v,
     at_RequestHash = ai_RequestHash v, at_CreatedAt = att_CreatedAt a, at_UpdatedAt = att_UpdatedAt a\<rparr>"

text \<open>The constraints of \<open>attachment.attachments\<close> an insert may violate.\<close>

definition attachment_insertable :: "attachment_row \<Rightarrow> attachment_row list \<Rightarrow> bool" where
  "attachment_insertable r rows \<longleftrightarrow> 0 < at_SizeBytes r \<and> at_SizeBytes r \<le> 2 ^ 30 \<and> 0 < at_PartCount r \<and> at_PartCount r \<le> 64
     \<and> (\<forall>x \<in> set rows. at_ID x \<noteq> at_ID r \<and> at_ObjectKey x \<noteq> at_ObjectKey r
          \<and> \<not> (at_IdempotencyKey r \<noteq> [] \<and> at_OwnerID x = at_OwnerID r \<and> at_IdempotencyKey x = at_IdempotencyKey r))"

definition CreateAttachment :: "Attachment \<Rightarrow> AttIdempotency \<Rightarrow> adb \<Rightarrow> (aerr + Attachment) \<times> adb" where
  "CreateAttachment a v =
     (if ai_Key v \<noteq> [] \<and> isl (ValidateIdempotencyKey (ai_Key v)) then (\<lambda>db. (Inl (AInvalid (projl (ValidateIdempotencyKey (ai_Key v)))), db))
      else if ai_Key v \<noteq> [] \<and> length (ai_RequestHash v) \<noteq> 64 then (\<lambda>db. (Inl (AInvalid ''idempotency request hash is invalid''), db))
      else transaction (
        tbind (tread (\<lambda>db. if ai_Key v = [] then None
                 else find (\<lambda>r. at_OwnerID r = ai_OwnerID v \<and> at_IdempotencyKey r = ai_Key v) (a_attachments db))) (\<lambda>existing.
        case existing of
          Some r \<Rightarrow> tbind (tguard (at_RequestHash r = ai_RequestHash v) AIdempotencyConflict) (\<lambda>_. tret (toDomain r))
        | None \<Rightarrow>
            tbind (tread (\<lambda>db. used_bytes (att_OwnerID a) (a_attachments db))) (\<lambda>used.
            tbind (tguard (\<not> MaxUserBytes < used + att_SizeBytes a) AConflict) (\<lambda>_.
            tbind (tcheck (\<lambda>db. attachment_insertable (newAttachmentRow a v) (a_attachments db)) (AOther ''create attachment'')) (\<lambda>_.
            tbind (twrite (a_attachments_update (\<lambda>rows. rows @ [newAttachmentRow a v]))) (\<lambda>_.
            tret (toDomain (newAttachmentRow a v)))))))))"

definition GetAttachment :: "string \<Rightarrow> int \<Rightarrow> adb \<Rightarrow> aerr + Attachment" where
  "GetAttachment i owner db = (case owned_attachment i owner db of None \<Rightarrow> Inl ANotFound | Some r \<Rightarrow> Inr (toDomain r))"

definition ListAttachments ::
  "int \<Rightarrow> string \<Rightarrow> string \<Rightarrow> (time \<times> string) option \<Rightarrow> int \<Rightarrow> adb \<Rightarrow> Attachment list" where
  "ListAttachments owner status category cursor limit0 db =
     (let limit = (if limit0 \<le> 0 \<or> 100 < limit0 then 50 else limit0);
          match = (\<lambda>r. at_OwnerID r = owner \<and> (status \<noteq> [] \<longrightarrow> at_Status r = status) \<and> (category \<noteq> [] \<longrightarrow> at_Category r = category)
                     \<and> (case cursor of None \<Rightarrow> True | Some c \<Rightarrow> (at_CreatedAt r, at_ID r) < c))
      in map toDomain (take (nat (limit + 1)) (rev (sort_key (\<lambda>r. (at_CreatedAt r, at_ID r)) (filter match (a_attachments db))))))"

definition MarkScanning :: "time \<Rightarrow> string \<Rightarrow> int \<Rightarrow> adb \<Rightarrow> (aerr + unit) \<times> adb" where
  "MarkScanning now i owner = transaction (
     tbind (tsome (owned_attachment i owner) ANotFound) (\<lambda>r.
     tbind (tguard (at_Status r = StatusPendingUpload) AConflict) (\<lambda>_.
     tbind (put_attachment (at_ID r) (\<lambda>x. x\<lparr>at_Status := StatusScanning, at_UpdatedAt := now\<rparr>)) (\<lambda>_.
     twrite (a_scan_jobs_update (\<lambda>rows.
       if \<exists>j \<in> set rows. sj_AttachmentID j = i
       then tbl_upd (\<lambda>j. sj_AttachmentID j = i) (\<lambda>j. j\<lparr>sj_Attempts := 0, sj_NextAttemptAt := now, sj_LeaseUntil := None,
              sj_ParkedAt := None, sj_UpdatedAt := now, sj_LastError := []\<rparr>) rows
       else rows @ [\<lparr>sj_AttachmentID = i, sj_Attempts = 0, sj_NextAttemptAt = now, sj_LeaseUntil = None, sj_ParkedAt = None,
                     sj_LastError = [], sj_CreatedAt = now, sj_UpdatedAt = now\<rparr>]))))))"

definition equal_fold :: "aenv \<Rightarrow> string \<Rightarrow> string \<Rightarrow> bool" where
  "equal_fold A a b \<longleftrightarrow> map (\<lambda>r. ae_fold A (fst r)) (runes a) = map (\<lambda>r. ae_fold A (fst r)) (runes b)"

definition CompleteScan :: "aenv \<Rightarrow> time \<Rightarrow> string \<Rightarrow> ScanResult \<Rightarrow> bool \<Rightarrow> adb \<Rightarrow> (aerr + unit) \<times> adb" where
  "CompleteScan A now i result clean = transaction (
     tbind (tsome (get_attachment i) ARecordNotFound) (\<lambda>r.
     let status = (if sr_Size result \<noteq> at_SizeBytes r \<or> (at_SHA256 r \<noteq> [] \<and> \<not> equal_fold A (sr_SHA256 result) (at_SHA256 r))
                   then StatusRejected else if clean then StatusReady else StatusRejected)
     in tbind (put_attachment i (\<lambda>x. x\<lparr>at_Status := status, at_DetectedType := sr_DetectedType result, at_UpdatedAt := now,
                 at_SHA256 := (if sr_SHA256 result \<noteq> [] then to_lower (ae_lower A) (sr_SHA256 result) else at_SHA256 x)\<rparr>)) (\<lambda>_.
        twrite (a_scan_jobs_update (tbl_del (\<lambda>j. sj_AttachmentID j = i))))))"

definition scanLease :: duration where "scanLease = 30 * minute"

definition maxScanAttempts :: int where "maxScanAttempts = 8"

definition scan_due :: "time \<Rightarrow> scan_job_row \<Rightarrow> bool" where
  "scan_due now j \<longleftrightarrow> sj_NextAttemptAt j \<le> now \<and> (case sj_LeaseUntil j of None \<Rightarrow> True | Some t \<Rightarrow> t \<le> now) \<and> sj_ParkedAt j = None"

definition ClaimScan :: "time \<Rightarrow> adb \<Rightarrow> (aerr + Attachment) \<times> adb" where
  "ClaimScan now = transaction (
     tbind (tread (\<lambda>db. tbl_select (scan_due now) (\<lambda>j. (sj_NextAttemptAt j, sj_AttachmentID j)) 1 (a_scan_jobs db))) (\<lambda>due.
     case due of
       [] \<Rightarrow> traise ARecordNotFound
     | job # _ \<Rightarrow>
         tbind (tread (\<lambda>db. find (\<lambda>r. at_ID r = sj_AttachmentID job \<and> at_Status r = StatusScanning) (a_attachments db))) (\<lambda>found.
         case found of
           None \<Rightarrow> tbind (twrite (a_scan_jobs_update (tbl_del (\<lambda>j. sj_AttachmentID j = sj_AttachmentID job)))) (\<lambda>_.
                    traise ARecordNotFound)
         | Some r \<Rightarrow>
             tbind (put_scan_job (sj_AttachmentID job) (\<lambda>j. j\<lparr>sj_Attempts := sj_Attempts j + 1,
                      sj_LeaseUntil := Some (now + scanLease), sj_UpdatedAt := now\<rparr>)) (\<lambda>_.
             tret (toDomain r)))))"

definition truncateError :: "string option \<Rightarrow> string" where
  "truncateError e = (case e of None \<Rightarrow> [] | Some v \<Rightarrow> take 255 (trim_space v))"

definition RetryScan :: "time \<Rightarrow> string \<Rightarrow> string option \<Rightarrow> adb \<Rightarrow> (aerr + unit) \<times> adb" where
  "RetryScan now i scanErr = transaction (
     tbind (tsome (\<lambda>db. find (\<lambda>r. at_ID r = i \<and> at_Status r = StatusScanning) (a_attachments db)) ARecordNotFound) (\<lambda>r.
     tbind (tsome (\<lambda>db. tbl_get sj_AttachmentID i (a_scan_jobs db)) ARecordNotFound) (\<lambda>job.
     if maxScanAttempts \<le> sj_Attempts job then
       tbind (put_attachment (at_ID r) (\<lambda>x. x\<lparr>at_Status := StatusScanParked, at_UpdatedAt := now\<rparr>)) (\<lambda>_.
       put_scan_job i (\<lambda>j. j\<lparr>sj_ParkedAt := Some now, sj_LeaseUntil := None, sj_LastError := truncateError scanErr, sj_UpdatedAt := now\<rparr>))
     else
       put_scan_job i (\<lambda>j. j\<lparr>sj_NextAttemptAt := now + second * 2 ^ nat (min (sj_Attempts job) 7), sj_LeaseUntil := None,
         sj_LastError := truncateError scanErr, sj_UpdatedAt := now\<rparr>))))"

definition TrashAttachment :: "time \<Rightarrow> string \<Rightarrow> int \<Rightarrow> adb \<Rightarrow> (aerr + unit) \<times> adb" where
  "TrashAttachment now i owner = transaction (
     tbind (tsome (owned_attachment i owner) ANotFound) (\<lambda>r.
     tbind (tcheck (\<lambda>db. \<forall>f \<in> set (a_references db). rf_AttachmentID f \<noteq> i) AReferenced) (\<lambda>_.
     tbind (tguard (at_Status r = StatusReady \<or> at_Status r = StatusRejected \<or> at_Status r = StatusScanParked) AConflict) (\<lambda>_.
     put_attachment (at_ID r) (\<lambda>x. x\<lparr>at_Status := StatusTrashed, at_UpdatedAt := now\<rparr>)))))"

definition RestoreAttachment :: "time \<Rightarrow> string \<Rightarrow> int \<Rightarrow> adb \<Rightarrow> (aerr + unit) \<times> adb" where
  "RestoreAttachment now i owner = transaction (
     twrite (a_attachments_update (tbl_upd (\<lambda>r. at_ID r = i \<and> at_OwnerID r = owner \<and> at_Status r = StatusTrashed)
       (\<lambda>x. x\<lparr>at_Status := StatusReady, at_UpdatedAt := now\<rparr>))))"

end
