(* ===== verification/AttachmentReferences.thy ===== *)
theory AttachmentReferences
  imports AttachmentStore
begin

text \<open>
  Publication references (\<open>services/attachment/internal/repository/references.go\<close> and the publication
  part of \<open>service/service.go\<close>). Every document has a head with an active and possibly a staged
  generation. Staging adds the references of a newer generation, finalising makes them the only
  ones, clearing removes all; commands of an older generation do nothing.
\<close>

section \<open>Commands\<close>

abbreviation publicationReferenceType :: string where "publicationReferenceType \<equiv> ''document_publication''"

record PublicationReferenceCommand =
  pc_DocumentID :: string
  pc_OwnerID :: int
  pc_Generation :: int
  pc_AttachmentIDs :: "string list"
  pc_RequestHash :: string

record PublicationReferenceState =
  ps_DocumentID :: string
  ps_ActiveGeneration :: int
  ps_StagedGeneration :: "int option"

definition rh_key :: "reference_head_row \<Rightarrow> string \<times> string" where
  "rh_key h = (rh_RefType h, rh_RefID h)"

definition rf_key :: "reference_row \<Rightarrow> string \<times> string \<times> string \<times> int" where
  "rf_key r = (rf_AttachmentID r, rf_RefType r, rf_RefID r, rf_Generation r)"

definition reference_head :: "string \<Rightarrow> adb \<Rightarrow> reference_head_row option" where
  "reference_head docID db = tbl_get rh_key (publicationReferenceType, docID) (a_reference_heads db)"

definition latest_generation :: "reference_head_row \<Rightarrow> int" where
  "latest_generation h = (case rh_StagedGeneration h of
     None \<Rightarrow> rh_ActiveGeneration h | Some s \<Rightarrow> if rh_ActiveGeneration h < s then s else rh_ActiveGeneration h)"

definition delete_references :: "string \<Rightarrow> (int \<Rightarrow> bool) \<Rightarrow> unit atx" where
  "delete_references docID p = twrite (a_references_update (tbl_del (\<lambda>r. rf_RefType r = publicationReferenceType
     \<and> rf_RefID r = docID \<and> p (rf_Generation r))))"

definition put_head :: "string \<Rightarrow> (reference_head_row \<Rightarrow> reference_head_row) \<Rightarrow> unit atx" where
  "put_head docID f = twrite (a_reference_heads_update (tbl_upd (\<lambda>h. rh_key h = (publicationReferenceType, docID)) f))"

definition new_head :: "string \<Rightarrow> int \<Rightarrow> time \<Rightarrow> reference_head_row" where
  "new_head docID ownerID now = \<lparr>rh_RefType = publicationReferenceType, rh_RefID = docID, rh_OwnerID = ownerID,
     rh_ActiveGeneration = 0, rh_ActiveHash = [], rh_StagedGeneration = None, rh_StagedHash = [], rh_UpdatedAt = now\<rparr>"

definition ready_count :: "PublicationReferenceCommand \<Rightarrow> adb \<Rightarrow> nat" where
  "ready_count c db = length (filter (\<lambda>r. at_ID r \<in> set (pc_AttachmentIDs c) \<and> at_OwnerID r = pc_OwnerID c
     \<and> at_Status r = StatusReady) (a_attachments db))"

definition new_reference :: "PublicationReferenceCommand \<Rightarrow> time \<Rightarrow> string \<Rightarrow> reference_row" where
  "new_reference c now a = \<lparr>rf_AttachmentID = a, rf_RefType = publicationReferenceType, rf_RefID = pc_DocumentID c,
     rf_Generation = pc_Generation c, rf_CreatedAt = now\<rparr>"

section \<open>Repository\<close>

definition stage_body :: "time \<Rightarrow> PublicationReferenceCommand \<Rightarrow> reference_head_row option \<Rightarrow> unit atx" where
  "stage_body now c head =
     tbind (tcheck (\<lambda>db. pc_AttachmentIDs c = [] \<or> ready_count c db = length (pc_AttachmentIDs c)) AConflict) (\<lambda>_.
     tbind (case head of
              None \<Rightarrow> tret ()
            | Some h \<Rightarrow> (case rh_StagedGeneration h of
                None \<Rightarrow> tret ()
              | Some s \<Rightarrow> if s \<noteq> rh_ActiveGeneration h then delete_references (pc_DocumentID c) (\<lambda>g. g = s) else tret ())) (\<lambda>_.
     tbind (delete_references (pc_DocumentID c) (\<lambda>g. g = pc_Generation c)) (\<lambda>_.
     tbind (titer (\<lambda>a. tbind (tguard (0 < pc_Generation c) (AOther ''stage publication reference'')) (\<lambda>_.
              tinsert a_references a_references_update rf_key (AOther ''stage publication reference'') (new_reference c now a)))
            (pc_AttachmentIDs c)) (\<lambda>_.
     tbind (if head = None then tinsert a_reference_heads a_reference_heads_update rh_key
              (AOther ''create publication reference head'') (new_head (pc_DocumentID c) (pc_OwnerID c) now)
            else tret ()) (\<lambda>_.
     tbind (tguard (0 < pc_Generation c) (AOther ''update publication reference head'')) (\<lambda>_.
     put_head (pc_DocumentID c) (\<lambda>h. h\<lparr>rh_OwnerID := pc_OwnerID c, rh_StagedGeneration := Some (pc_Generation c),
       rh_StagedHash := pc_RequestHash c, rh_UpdatedAt := now\<rparr>)))))))"

definition StagePublicationReferences :: "time \<Rightarrow> PublicationReferenceCommand \<Rightarrow> adb \<Rightarrow> (aerr + unit) \<times> adb" where
  "StagePublicationReferences now c = transaction (
     tbind (tread (reference_head (pc_DocumentID c))) (\<lambda>head.
     case head of
       None \<Rightarrow> stage_body now c None
     | Some h \<Rightarrow>
         if pc_Generation c < latest_generation h then tret ()
         else if rh_StagedGeneration h = Some (pc_Generation c)
         then tguard (rh_StagedHash h = pc_RequestHash c \<and> rh_OwnerID h = pc_OwnerID c) AIdempotencyConflict
         else if pc_Generation c = rh_ActiveGeneration h \<and> rh_StagedGeneration h = None
         then tguard (rh_ActiveHash h = pc_RequestHash c \<and> rh_OwnerID h = pc_OwnerID c) AIdempotencyConflict
         else stage_body now c (Some h)))"

definition FinalizePublicationReferences :: "time \<Rightarrow> PublicationReferenceCommand \<Rightarrow> adb \<Rightarrow> (aerr + unit) \<times> adb" where
  "FinalizePublicationReferences now c = transaction (
     tbind (tsome (reference_head (pc_DocumentID c)) ANotFound) (\<lambda>h.
     if pc_Generation c < rh_ActiveGeneration h then tret ()
     else if rh_ActiveGeneration h = pc_Generation c \<and> rh_StagedGeneration h = None
     then tguard (rh_ActiveHash h = pc_RequestHash c \<and> rh_OwnerID h = pc_OwnerID c) AIdempotencyConflict
     else
       tbind (tguard (rh_StagedGeneration h = Some (pc_Generation c) \<and> rh_StagedHash h = pc_RequestHash c
                \<and> rh_OwnerID h = pc_OwnerID c) AConflict) (\<lambda>_.
       tbind (delete_references (pc_DocumentID c) (\<lambda>g. g < pc_Generation c)) (\<lambda>_.
       put_head (pc_DocumentID c) (\<lambda>h. h\<lparr>rh_ActiveGeneration := pc_Generation c, rh_ActiveHash := pc_RequestHash c,
         rh_StagedGeneration := None, rh_StagedHash := [], rh_UpdatedAt := now\<rparr>)))))"

definition clear_body :: "time \<Rightarrow> PublicationReferenceCommand \<Rightarrow> bool \<Rightarrow> unit atx" where
  "clear_body now c fresh =
     tbind (delete_references (pc_DocumentID c) (\<lambda>_. True)) (\<lambda>_.
     tbind (if fresh then tinsert a_reference_heads a_reference_heads_update rh_key
              (AOther ''create cleared publication reference head'') (new_head (pc_DocumentID c) (pc_OwnerID c) now)
            else tret ()) (\<lambda>_.
     tbind (tguard (0 \<le> pc_Generation c) (AOther ''clear publication references'')) (\<lambda>_.
     put_head (pc_DocumentID c) (\<lambda>h. h\<lparr>rh_OwnerID := pc_OwnerID c, rh_ActiveGeneration := pc_Generation c,
       rh_ActiveHash := pc_RequestHash c, rh_StagedGeneration := None, rh_StagedHash := [], rh_UpdatedAt := now\<rparr>))))"

definition ClearPublicationReferences :: "time \<Rightarrow> PublicationReferenceCommand \<Rightarrow> adb \<Rightarrow> (aerr + unit) \<times> adb" where
  "ClearPublicationReferences now c = transaction (
     tbind (tread (reference_head (pc_DocumentID c))) (\<lambda>head.
     case head of
       None \<Rightarrow> clear_body now c True
     | Some h \<Rightarrow> if pc_Generation c < latest_generation h then tret () else clear_body now c False))"

definition PublicationReferenceStateOf :: "string \<Rightarrow> adb \<Rightarrow> PublicationReferenceState" where
  "PublicationReferenceStateOf docID db = (case reference_head docID db of
     None \<Rightarrow> \<lparr>ps_DocumentID = docID, ps_ActiveGeneration = 0, ps_StagedGeneration = None\<rparr>
   | Some h \<Rightarrow> \<lparr>ps_DocumentID = docID, ps_ActiveGeneration = rh_ActiveGeneration h, ps_StagedGeneration = rh_StagedGeneration h\<rparr>)"

definition served :: "reference_row \<Rightarrow> adb \<Rightarrow> bool" where
  "served r db \<longleftrightarrow> (\<exists>h \<in> set (a_reference_heads db). rh_key h = (rf_RefType r, rf_RefID r)
     \<and> (rf_Generation r = rh_ActiveGeneration h \<or> Some (rf_Generation r) = rh_StagedGeneration h))"

definition GetPublished :: "string \<Rightarrow> adb \<Rightarrow> aerr + Attachment" where
  "GetPublished i db = (case find (\<lambda>a. at_ID a = i \<and> at_Status a = StatusReady
        \<and> (\<exists>r \<in> set (a_references db). rf_AttachmentID r = i \<and> served r db)) (a_attachments db) of
     None \<Rightarrow> Inl ANotFound | Some a \<Rightarrow> Inr (toDomain a))"

section \<open>Service\<close>

datatype aservice_err = AInvalidInput | ANotFoundError | AConflictError | AInternal aerr

record reference_request =
  rq_MessageId :: string
  rq_DocumentId :: string
  rq_OwnerId :: int
  rq_Generation :: int
  rq_AttachmentIds :: "string list"

definition validUUIDv7 :: "aenv \<Rightarrow> string \<Rightarrow> bool" where
  "validUUIDv7 A v \<longleftrightarrow> ae_uuid_version A (trim_space v) = Some 7"

definition publicationCommand :: "aenv \<Rightarrow> reference_request \<Rightarrow> bool \<Rightarrow> PublicationReferenceCommand option" where
  "publicationCommand A rq requireEmpty =
     (if rq_OwnerId rq \<le> 0 \<or> rq_Generation rq \<le> 0 \<or> \<not> validUUIDv7 A (rq_MessageId rq) \<or> \<not> validUUIDv7 A (rq_DocumentId rq) then None
      else let ids = sort (rq_AttachmentIds rq) in
        if \<not> list_all (validUUIDv7 A) ids \<or> \<not> distinct ids then None
        else if requireEmpty \<and> ids \<noteq> [] then None
        else Some \<lparr>pc_DocumentID = rq_DocumentId rq, pc_OwnerID = rq_OwnerId rq, pc_Generation = rq_Generation rq,
               pc_AttachmentIDs = ids, pc_RequestHash = ae_command_hash A (rq_DocumentId rq) (rq_OwnerId rq) (rq_Generation rq) ids\<rparr>)"

definition mapRepositoryError :: "aerr \<Rightarrow> aservice_err" where
  "mapRepositoryError e = (case e of ANotFound \<Rightarrow> ANotFoundError | AConflict \<Rightarrow> AConflictError
     | AIdempotencyConflict \<Rightarrow> AConflictError | _ \<Rightarrow> AInternal e)"

definition reference_call ::
  "aenv \<Rightarrow> bool \<Rightarrow> (PublicationReferenceCommand \<Rightarrow> adb \<Rightarrow> (aerr + unit) \<times> adb) \<Rightarrow> reference_request \<Rightarrow> adb \<Rightarrow> (aservice_err + unit) \<times> adb" where
  "reference_call A requireEmpty f rq db = (case publicationCommand A rq requireEmpty of
     None \<Rightarrow> (Inl AInvalidInput, db)
   | Some c \<Rightarrow> (case f c db of (r, db') \<Rightarrow> (map_sum mapRepositoryError (\<lambda>u. u) r, db')))"

definition ServiceStage where "ServiceStage A now = reference_call A False (StagePublicationReferences now)"

definition ServiceFinalize where "ServiceFinalize A now = reference_call A False (FinalizePublicationReferences now)"

definition ServiceClear where "ServiceClear A now = reference_call A True (ClearPublicationReferences now)"

end
