(* ===== verification/ReferenceProtocol.thy ===== *)
theory ReferenceProtocol
  imports AttachmentReferences
begin

text \<open>
  What the publication references of one document amount to: a cell with an active slot and at most one
  staged slot of a later generation. The rows of \<open>repository/references.go\<close> (a head with two generations and
  reference rows tagged with a generation) implement the three operations on such a cell, and a published
  attachment is one that is named in a slot.
\<close>

section \<open>Cells\<close>

record slot =
  sl_Generation :: int
  sl_Hash :: string
  sl_Attachments :: "string set"

record cell =
  ce_Owner :: int
  ce_Active :: slot
  ce_Staged :: "slot option"

definition slot_of :: "PublicationReferenceCommand \<Rightarrow> slot" where
  "slot_of c = \<lparr>sl_Generation = pc_Generation c, sl_Hash = pc_RequestHash c, sl_Attachments = set (pc_AttachmentIDs c)\<rparr>"

definition empty_slot :: slot where
  "empty_slot = \<lparr>sl_Generation = 0, sl_Hash = [], sl_Attachments = {}\<rparr>"

definition cell_latest :: "cell \<Rightarrow> int" where
  "cell_latest x = (case ce_Staged x of None \<Rightarrow> sl_Generation (ce_Active x) | Some s \<Rightarrow> sl_Generation s)"

definition same_request :: "PublicationReferenceCommand \<Rightarrow> cell \<Rightarrow> slot \<Rightarrow> bool" where
  "same_request c x s \<longleftrightarrow> sl_Hash s = pc_RequestHash c \<and> ce_Owner x = pc_OwnerID c"

definition cell_stage :: "PublicationReferenceCommand \<Rightarrow> bool \<Rightarrow> cell option \<Rightarrow> aerr + cell option" where
  "cell_stage c ready x0 = (case x0 of
     None \<Rightarrow> if ready then Inr (Some \<lparr>ce_Owner = pc_OwnerID c, ce_Active = empty_slot, ce_Staged = Some (slot_of c)\<rparr>)
             else Inl AConflict
   | Some x \<Rightarrow>
       if pc_Generation c < cell_latest x then Inr x0
       else if pc_Generation c = cell_latest x
       then if same_request c x (case ce_Staged x of None \<Rightarrow> ce_Active x | Some s \<Rightarrow> s) then Inr x0 else Inl AIdempotencyConflict
       else if ready then Inr (Some \<lparr>ce_Owner = pc_OwnerID c, ce_Active = ce_Active x, ce_Staged = Some (slot_of c)\<rparr>) else Inl AConflict)"

definition cell_finalize :: "PublicationReferenceCommand \<Rightarrow> cell option \<Rightarrow> aerr + cell option" where
  "cell_finalize c x0 = (case x0 of
     None \<Rightarrow> Inl ANotFound
   | Some x \<Rightarrow>
       if pc_Generation c < sl_Generation (ce_Active x) then Inr x0
       else case ce_Staged x of
         None \<Rightarrow> if sl_Generation (ce_Active x) = pc_Generation c
                 then if same_request c x (ce_Active x) then Inr x0 else Inl AIdempotencyConflict
                 else Inl AConflict
       | Some s \<Rightarrow> if sl_Generation s = pc_Generation c \<and> same_request c x s
                   then Inr (Some \<lparr>ce_Owner = ce_Owner x, ce_Active = s, ce_Staged = None\<rparr>) else Inl AConflict)"

definition cell_clear :: "PublicationReferenceCommand \<Rightarrow> cell option \<Rightarrow> cell option" where
  "cell_clear c x0 = (case x0 of
     Some x \<Rightarrow> if pc_Generation c < cell_latest x then x0
               else Some \<lparr>ce_Owner = pc_OwnerID c, ce_Active = (slot_of c)\<lparr>sl_Attachments := {}\<rparr>, ce_Staged = None\<rparr>
   | None \<Rightarrow> Some \<lparr>ce_Owner = pc_OwnerID c, ce_Active = (slot_of c)\<lparr>sl_Attachments := {}\<rparr>, ce_Staged = None\<rparr>)"

definition cell_shows :: "cell option \<Rightarrow> string set" where
  "cell_shows x0 = (case x0 of None \<Rightarrow> {}
     | Some x \<Rightarrow> sl_Attachments (ce_Active x) \<union> (case ce_Staged x of None \<Rightarrow> {} | Some s \<Rightarrow> sl_Attachments s))"

section \<open>The cell of a document\<close>

definition refs_of :: "adb \<Rightarrow> string \<Rightarrow> int \<Rightarrow> string set" where
  "refs_of db docID g = set (map rf_AttachmentID (filter (\<lambda>r. rf_RefID r = docID \<and> rf_Generation r = g) (a_references db)))"

definition head_cell :: "(int \<Rightarrow> string set) \<Rightarrow> reference_head_row \<Rightarrow> cell" where
  "head_cell refs h = \<lparr>ce_Owner = rh_OwnerID h,
     ce_Active = \<lparr>sl_Generation = rh_ActiveGeneration h, sl_Hash = rh_ActiveHash h, sl_Attachments = refs (rh_ActiveGeneration h)\<rparr>,
     ce_Staged = map_option (\<lambda>g. \<lparr>sl_Generation = g, sl_Hash = rh_StagedHash h, sl_Attachments = refs g\<rparr>) (rh_StagedGeneration h)\<rparr>"

definition reference_cell :: "adb \<Rightarrow> string \<Rightarrow> cell option" where
  "reference_cell db docID = map_option (head_cell (refs_of db docID)) (reference_head docID db)"

text \<open>The tables describe cells: one head per document, no row outside the generations of its head.\<close>

definition head_ok :: "reference_head_row \<Rightarrow> bool" where
  "head_ok h \<longleftrightarrow> 0 \<le> rh_ActiveGeneration h \<and> (\<forall>s. rh_StagedGeneration h = Some s \<longrightarrow> rh_ActiveGeneration h < s)"

definition row_ok :: "(string \<Rightarrow> reference_head_row option) \<Rightarrow> reference_row \<Rightarrow> bool" where
  "row_ok heads r \<longleftrightarrow> rf_RefType r = publicationReferenceType \<and> (case heads (rf_RefID r) of None \<Rightarrow> False
     | Some h \<Rightarrow> rf_Generation r = rh_ActiveGeneration h \<or> Some (rf_Generation r) = rh_StagedGeneration h)"

definition refs_ok :: "adb \<Rightarrow> bool" where
  "refs_ok db \<longleftrightarrow> (\<forall>docID h. reference_head docID db = Some h \<longrightarrow> head_ok h)
     \<and> (\<forall>r \<in> set (a_references db). row_ok (\<lambda>d. reference_head d db) r)
     \<and> (\<forall>h \<in> set (a_reference_heads db). rh_RefType h = publicationReferenceType)
     \<and> distinct (map rh_key (a_reference_heads db))"

definition valid_command :: "PublicationReferenceCommand \<Rightarrow> bool" where
  "valid_command c \<longleftrightarrow> 0 < pc_Generation c \<and> distinct (pc_AttachmentIDs c)"

definition all_ready :: "PublicationReferenceCommand \<Rightarrow> adb \<Rightarrow> bool" where
  "all_ready c db \<longleftrightarrow> pc_AttachmentIDs c = [] \<or> ready_count c db = length (pc_AttachmentIDs c)"

lemma refs_okD:
  assumes "refs_ok db"
  shows "reference_head docID db = Some h \<Longrightarrow> head_ok h"
    "r \<in> set (a_references db) \<Longrightarrow> rf_RefType r = publicationReferenceType"
    "r \<in> set (a_references db) \<Longrightarrow> \<exists>h. reference_head (rf_RefID r) db = Some h \<and>
       (rf_Generation r = rh_ActiveGeneration h \<or> Some (rf_Generation r) = rh_StagedGeneration h)"
    "distinct (map rh_key (a_reference_heads db))"
  using assms by (auto simp: refs_ok_def row_ok_def split: option.split_asm)

lemma latest_head_cell: "head_ok h \<Longrightarrow> latest_generation h = cell_latest (head_cell refs h)"
  by (auto simp: head_ok_def latest_generation_def cell_latest_def head_cell_def split: option.split)

section \<open>Rewriting heads and rows\<close>

text \<open>Every change replaces the head of one document and its rows; other documents keep theirs.\<close>

definition replace_refs :: "string \<Rightarrow> (int \<Rightarrow> bool) \<Rightarrow> reference_row list \<Rightarrow> reference_row list \<Rightarrow> reference_row list" where
  "replace_refs docID p new rows =
     tbl_del (\<lambda>r. rf_RefType r = publicationReferenceType \<and> rf_RefID r = docID \<and> p (rf_Generation r)) rows @ new"

definition replaced :: "string \<Rightarrow> reference_head_row \<Rightarrow> (int \<Rightarrow> bool) \<Rightarrow> reference_row list \<Rightarrow> adb \<Rightarrow> adb \<Rightarrow> bool" where
  "replaced docID h p new db db' \<longleftrightarrow> (\<forall>d. reference_head d db' = (if d = docID then Some h else reference_head d db))
     \<and> a_references db' = replace_refs docID p new (a_references db)
     \<and> (distinct (map rh_key (a_reference_heads db)) \<longrightarrow> distinct (map rh_key (a_reference_heads db')))
     \<and> ((\<forall>h \<in> set (a_reference_heads db). rh_RefType h = publicationReferenceType) \<longrightarrow>
        (\<forall>h \<in> set (a_reference_heads db'). rh_RefType h = publicationReferenceType))
     \<and> a_attachments db' = a_attachments db \<and> a_scan_jobs db' = a_scan_jobs db"

lemma refs_of_replaced:
  assumes "refs_ok db" "replaced docID h p new db db'" "\<forall>r \<in> set new. rf_RefID r = docID"
  shows "refs_of db' d g = (if d = docID then (if p g then {} else refs_of db docID g) \<union> set (map rf_AttachmentID (filter (\<lambda>r. rf_Generation r = g) new))
     else refs_of db d g)"
proof -
  let ?P = "\<lambda>r. rf_RefID r = d \<and> rf_Generation r = g"
  have "filter ?P (a_references db') = filter ?P (filter (\<lambda>r. \<not> (rf_RefType r = publicationReferenceType \<and> rf_RefID r = docID \<and> p (rf_Generation r))) (a_references db))
      @ filter ?P new"
    using assms(2) by (simp add: replaced_def replace_refs_def tbl_del_def)
  also have "filter ?P (filter (\<lambda>r. \<not> (rf_RefType r = publicationReferenceType \<and> rf_RefID r = docID \<and> p (rf_Generation r))) (a_references db))
      = (if d = docID \<and> p g then [] else filter ?P (a_references db))"
    using refs_okD(2) [OF assms(1)] by (auto simp: filter_empty_conv intro!: filter_cong)
  also have "filter ?P new = (if d = docID then filter (\<lambda>r. rf_Generation r = g) new else [])"
    using assms(3) by (auto simp: filter_empty_conv intro!: filter_cong)
  finally show ?thesis by (simp add: refs_of_def)
qed

lemma reference_cell_replaced:
  assumes "refs_ok db" "replaced docID h p new db db'" "\<forall>r \<in> set new. rf_RefID r = docID"
  shows "reference_cell db' = (reference_cell db)(docID \<mapsto>
     head_cell (\<lambda>g. (if p g then {} else refs_of db docID g) \<union> set (map rf_AttachmentID (filter (\<lambda>r. rf_Generation r = g) new))) h)"
proof
  fix d
  have "refs_of db' d = (if d = docID then (\<lambda>g. (if p g then {} else refs_of db docID g) \<union> set (map rf_AttachmentID (filter (\<lambda>r. rf_Generation r = g) new)))
      else refs_of db d)"
    by (rule ext) (simp add: refs_of_replaced [OF assms])
  then show "reference_cell db' d = ((reference_cell db)(docID \<mapsto>
     head_cell (\<lambda>g. (if p g then {} else refs_of db docID g) \<union> set (map rf_AttachmentID (filter (\<lambda>r. rf_Generation r = g) new))) h)) d"
    using assms(2) by (auto simp: replaced_def reference_cell_def)
qed

lemma refs_ok_replaced:
  assumes i: "refs_ok db" and r: "replaced docID h p new db db'" and h: "head_ok h"
    and new: "\<forall>r \<in> set new. row_ok (\<lambda>_. Some h) r \<and> rf_RefID r = docID"
    and keep: "\<And>h0 g. reference_head docID db = Some h0 \<Longrightarrow> \<not> p g \<Longrightarrow> g = rh_ActiveGeneration h0 \<or> Some g = rh_StagedGeneration h0 \<Longrightarrow>
       g = rh_ActiveGeneration h \<or> Some g = rh_StagedGeneration h"
  shows "refs_ok db'"
proof -
  have "row_ok (\<lambda>d. reference_head d db') x" if x: "x \<in> set (a_references db')" for x
  proof (cases "x \<in> set new")
    case True
    then show ?thesis using new r by (auto simp: row_ok_def replaced_def split: option.split_asm)
  next
    case False
    then have old: "x \<in> set (a_references db)" "rf_RefID x = docID \<Longrightarrow> \<not> p (rf_Generation x)"
      using x r refs_okD(2) [OF i] by (auto simp: replaced_def replace_refs_def in_tbl_del)
    then show ?thesis using refs_okD(2,3) [OF i old(1)] r keep [of _ "rf_Generation x"] by (auto simp: row_ok_def replaced_def)
  qed
  then show ?thesis using i r h by (auto simp: refs_ok_def replaced_def)
qed

lemma new_reference_simps [simp]:
  "rf_AttachmentID (new_reference c now a) = a" "rf_RefType (new_reference c now a) = publicationReferenceType"
  "rf_RefID (new_reference c now a) = pc_DocumentID c" "rf_Generation (new_reference c now a) = pc_Generation c"
  by (simp_all add: new_reference_def)

lemma insert_references_run:
  assumes "0 < pc_Generation c" "distinct ids"
    "\<forall>r \<in> set (a_references db). \<not> (rf_RefType r = publicationReferenceType \<and> rf_RefID r = pc_DocumentID c \<and> rf_Generation r = pc_Generation c)
       \<or> rf_AttachmentID r \<notin> set ids"
  shows "titer (\<lambda>a. tbind (tguard (0 < pc_Generation c) e) (\<lambda>_.
      tinsert a_references a_references_update rf_key e' (new_reference c now a))) ids db
    = Inr ((), a_references_update (\<lambda>rows. rows @ map (new_reference c now) ids) db)"
  using assms(2,3)
proof (induction ids arbitrary: db)
  case Nil
  then show ?case by (simp add: tret_def)
next
  case (Cons a ids)
  have "\<not> (\<exists>r \<in> set (a_references db). rf_key r = rf_key (new_reference c now a))"
    using Cons.prems(2) by (auto simp: rf_key_def)
  then have "tinsert a_references a_references_update rf_key e' (new_reference c now a) db
      = Inr ((), a_references_update (\<lambda>rows. rows @ [new_reference c now a]) db)"
    by (simp add: tinsert_def)
  moreover have "titer (\<lambda>a. tbind (tguard (0 < pc_Generation c) e) (\<lambda>_.
      tinsert a_references a_references_update rf_key e' (new_reference c now a))) ids
        (a_references_update (\<lambda>rows. rows @ [new_reference c now a]) db)
      = Inr ((), a_references_update (\<lambda>rows. rows @ map (new_reference c now) ids) (a_references_update (\<lambda>rows. rows @ [new_reference c now a]) db))"
    using Cons.prems by (intro Cons.IH) auto
  ultimately show ?case using assms(1) by (simp add: tbind_def [abs_def] tguard_def comp_def)
qed

lemma put_head_replaced:
  assumes "db' = a_reference_heads_update (tbl_upd (\<lambda>h. rh_key h = (publicationReferenceType, docID)) f)
      (a_references_update (replace_refs docID p new) (a_reference_heads_update grow db))"
    and f: "\<And>h. rh_RefType (f h) = rh_RefType h" "\<And>h. rh_RefID (f h) = rh_RefID h"
    and g: "case reference_head docID db of None \<Rightarrow> grow = (\<lambda>rows. rows @ [h0]) | Some h \<Rightarrow> grow = (\<lambda>rows. rows) \<and> h0 = h"
    and h0: "rh_key h0 = (publicationReferenceType, docID)"
  shows "replaced docID (f h0) p new db db'"
proof -
  have key: "rh_key (f h) = rh_key h" for h using f by (simp add: rh_key_def)
  have heads: "a_reference_heads db' = tbl_upd (\<lambda>h. rh_key h = (publicationReferenceType, docID)) f (grow (a_reference_heads db))"
    using assms(1) by simp
  have "reference_head d db' = (if d = docID then Some (f h0) else reference_head d db)" for d
    unfolding reference_head_def heads tbl_get_upd_key [where key = rh_key and f = f, OF key]
    using g h0 by (auto simp: reference_head_def tbl_simps split: option.split_asm option.split)
  moreover have "distinct (map rh_key (a_reference_heads db')) = distinct (map rh_key (grow (a_reference_heads db)))"
    unfolding heads by (simp add: map_key_upd key)
  then have "distinct (map rh_key (a_reference_heads db)) \<longrightarrow> distinct (map rh_key (a_reference_heads db'))"
    using g h0 by (auto simp: reference_head_def tbl_get_None split: option.split_asm)
  moreover have "set (map rh_RefType (a_reference_heads db')) \<subseteq> insert publicationReferenceType (set (map rh_RefType (a_reference_heads db)))"
    unfolding heads using g h0 f(1) map_key_upd [where key = rh_RefType and f = f]
    by (auto simp: rh_key_def simp del: set_map split: option.split_asm)
  ultimately show ?thesis
    unfolding replaced_def using assms(1) by auto
qed

section \<open>The operations on a cell\<close>

lemmas run_simps = tbind_def tcheck_def tguard_def twrite_def tret_def tread_def

definition superseded :: "PublicationReferenceCommand \<Rightarrow> reference_head_row option \<Rightarrow> int \<Rightarrow> bool" where
  "superseded c head g \<longleftrightarrow> g = pc_Generation c \<or>
     (case head of None \<Rightarrow> False | Some h \<Rightarrow> rh_StagedGeneration h = Some g \<and> g \<noteq> rh_ActiveGeneration h)"

definition stage_head :: "time \<Rightarrow> PublicationReferenceCommand \<Rightarrow> reference_head_row \<Rightarrow> reference_head_row" where
  "stage_head now c h = h\<lparr>rh_OwnerID := pc_OwnerID c, rh_StagedGeneration := Some (pc_Generation c),
       rh_StagedHash := pc_RequestHash c, rh_UpdatedAt := now\<rparr>"

lemma delete_superseded:
  "(case head of None \<Rightarrow> tret () | Some h \<Rightarrow> (case rh_StagedGeneration h of None \<Rightarrow> tret ()
      | Some s \<Rightarrow> if s \<noteq> rh_ActiveGeneration h then delete_references docID (\<lambda>g. g = s) else tret ())) db
   = Inr ((), a_references_update (tbl_del (\<lambda>r. rf_RefType r = publicationReferenceType \<and> rf_RefID r = docID \<and>
       (case head of None \<Rightarrow> False | Some h \<Rightarrow> rh_StagedGeneration h = Some (rf_Generation r) \<and> rf_Generation r \<noteq> rh_ActiveGeneration h))) db)"
  by (auto simp: tret_def delete_references_def twrite_def tbl_del_def split: option.split
      intro!: arg_cong [where f = "\<lambda>g. a_references_update g db"] ext adb.equality filter_cong)

lemma stage_body_run:
  assumes "valid_command c" "head = reference_head (pc_DocumentID c) db"
  shows "stage_body now c head db = (if all_ready c db then Inr ((),
      a_reference_heads_update (tbl_upd (\<lambda>h. rh_key h = (publicationReferenceType, pc_DocumentID c)) (stage_head now c))
        (a_references_update (replace_refs (pc_DocumentID c) (superseded c head) (map (new_reference c now) (pc_AttachmentIDs c)))
          (a_reference_heads_update (if head = None then (\<lambda>rows. rows @ [new_head (pc_DocumentID c) (pc_OwnerID c) now]) else (\<lambda>rows. rows)) db)))
     else Inl AConflict)"
proof -
  let ?del = "\<lambda>p. tbl_del (\<lambda>r. rf_RefType r = publicationReferenceType \<and> rf_RefID r = pc_DocumentID c \<and> p (rf_Generation r))"
  let ?old = "\<lambda>g. case head of None \<Rightarrow> False | Some h \<Rightarrow> rh_StagedGeneration h = Some g \<and> g \<noteq> rh_ActiveGeneration h"
  let ?s1 = "a_references_update (?del (\<lambda>g. g = pc_Generation c)) (a_references_update (?del ?old) db)"
  have v: "0 < pc_Generation c" "distinct (pc_AttachmentIDs c)" using assms(1) by (auto simp: valid_command_def)
  have ins: "titer (\<lambda>a. tbind (tguard (0 < pc_Generation c) e) (\<lambda>_.
      tinsert a_references a_references_update rf_key e' (new_reference c now a))) (pc_AttachmentIDs c) ?s1
    = Inr ((), a_references_update (\<lambda>rows. rows @ map (new_reference c now) (pc_AttachmentIDs c)) ?s1)" for e e'
    by (rule insert_references_run [OF v]) (simp add: in_tbl_del)
  have del: "?del (\<lambda>g. g = pc_Generation c) (?del ?old rows) = ?del (superseded c head) rows" for rows
    by (auto simp: tbl_del_def superseded_def intro!: filter_cong)
  have fresh: "head = None \<Longrightarrow> \<not> (\<exists>h \<in> set (a_reference_heads db). rh_key h = rh_key (new_head (pc_DocumentID c) (pc_OwnerID c) now))"
    using assms(2) by (simp add: reference_head_def tbl_get_None rh_key_def new_head_def)
  show ?thesis
  proof (cases "all_ready c db")
    case False
    then show ?thesis unfolding stage_body_def by (simp add: run_simps all_ready_def)
  next
    case True
    have chk: "tcheck (\<lambda>db. pc_AttachmentIDs c = [] \<or> ready_count c db = length (pc_AttachmentIDs c)) AConflict db = Inr ((), db)"
      using True by (simp add: tcheck_def all_ready_def)
    have d2: "delete_references (pc_DocumentID c) (\<lambda>g. g = pc_Generation c) t = Inr ((), a_references_update (?del (\<lambda>g. g = pc_Generation c)) t)" for t
      by (simp add: delete_references_def twrite_def)
    let ?s2 = "a_references_update (\<lambda>rows. rows @ map (new_reference c now) (pc_AttachmentIDs c)) ?s1"
    have hd: "(if head = None then tinsert a_reference_heads a_reference_heads_update rh_key e (new_head (pc_DocumentID c) (pc_OwnerID c) now)
            else tret ()) ?s2 = Inr ((), a_reference_heads_update (if head = None then (\<lambda>rows. rows @ [new_head (pc_DocumentID c) (pc_OwnerID c) now]) else (\<lambda>rows. rows)) ?s2)" for e
      using fresh by (simp add: tinsert_def tret_def)
    have grd: "tguard (0 < pc_Generation c) e t = Inr ((), t)" for e and t :: adb using v(1) by (simp add: tguard_def)
    show ?thesis
      unfolding stage_body_def
      by (simp only: tbind_def [of _ _ "_ :: adb"] chk delete_superseded d2 ins hd grd sum.case prod.case True if_True)
        (simp add: put_head_def twrite_def stage_head_def [abs_def] replace_refs_def del comp_def)
  qed
qed

text \<open>A call implements an outcome on the cell of a document: the same error and no change, or success and
  exactly that cell changed. Attachments and scan jobs are never touched.\<close>

definition implements :: "adb \<Rightarrow> string \<Rightarrow> aerr + cell option \<Rightarrow> (aerr + unit) \<times> adb \<Rightarrow> bool" where
  "implements db docID spec res \<longleftrightarrow> refs_ok (snd res) \<and> a_attachments (snd res) = a_attachments db \<and> a_scan_jobs (snd res) = a_scan_jobs db
     \<and> (case spec of Inl e \<Rightarrow> res = (Inl e, db)
        | Inr x \<Rightarrow> fst res = Inr () \<and> reference_cell (snd res) = (reference_cell db)(docID := x))"

lemma implements_same: "refs_ok db \<Longrightarrow> reference_cell db docID = x \<Longrightarrow> implements db docID (Inr x) (Inr (), db)"
  by (auto simp: implements_def fun_upd_idem)

lemma implements_error: "refs_ok db \<Longrightarrow> implements db docID (Inl e) (Inl e, db)"
  by (simp add: implements_def)

lemma implements_replaced:
  assumes "refs_ok db" "replaced docID h p new db db'" "head_ok h" "\<forall>r \<in> set new. row_ok (\<lambda>_. Some h) r \<and> rf_RefID r = docID"
    and "\<And>h0 g. reference_head docID db = Some h0 \<Longrightarrow> \<not> p g \<Longrightarrow> g = rh_ActiveGeneration h0 \<or> Some g = rh_StagedGeneration h0 \<Longrightarrow>
       g = rh_ActiveGeneration h \<or> Some g = rh_StagedGeneration h"
    and "x = Some (head_cell (\<lambda>g. (if p g then {} else refs_of db docID g) \<union> set (map rf_AttachmentID (filter (\<lambda>r. rf_Generation r = g) new))) h)"
  shows "implements db docID (Inr x) (Inr (), db')"
proof -
  have "refs_ok db'" using assms(1-5) by (rule refs_ok_replaced)
  moreover have "reference_cell db' = (reference_cell db)(docID := x)"
    using assms(4) unfolding assms(6) by (intro reference_cell_replaced [OF assms(1,2)]) blast
  ultimately show ?thesis using assms(2) by (simp add: implements_def replaced_def)
qed

lemma no_head_no_refs: "refs_ok db \<Longrightarrow> reference_head docID db = None \<Longrightarrow> refs_of db docID g = {}"
proof -
  assume i: "refs_ok db" and n: "reference_head docID db = None"
  have "rf_RefID r \<noteq> docID" if "r \<in> set (a_references db)" for r
    using refs_okD(3) [OF i that] n by auto
  then have "filter (\<lambda>r. rf_RefID r = docID \<and> rf_Generation r = g) (a_references db) = []" by (simp add: filter_empty_conv)
  then show ?thesis by (simp add: refs_of_def)
qed

lemma head_ID: "reference_head docID db = Some h \<Longrightarrow> rh_key h = (publicationReferenceType, docID)"
  unfolding reference_head_def by (rule tbl_get_SomeD(2))

lemma new_head_key: "rh_key (new_head docID ownerID now) = (publicationReferenceType, docID)"
  by (simp add: rh_key_def new_head_def)

lemma stage_replaced:
  assumes v: "valid_command c" and r: "all_ready c db" and i: "refs_ok db"
    and h0: "case reference_head (pc_DocumentID c) db of None \<Rightarrow> h0 = new_head (pc_DocumentID c) (pc_OwnerID c) now
       | Some h \<Rightarrow> h0 = h \<and> latest_generation h < pc_Generation c"
  shows "\<exists>db'. stage_body now c (reference_head (pc_DocumentID c) db) db = Inr ((), db') \<and>
    implements db (pc_DocumentID c) (Inr (Some \<lparr>ce_Owner = pc_OwnerID c,
       ce_Active = ce_Active (head_cell (refs_of db (pc_DocumentID c)) h0), ce_Staged = Some (slot_of c)\<rparr>)) (Inr (), db')"
proof -
  let ?d = "pc_DocumentID c" and ?head = "reference_head (pc_DocumentID c) db"
  let ?new = "map (new_reference c now) (pc_AttachmentIDs c)"
  have key: "rh_key h0 = (publicationReferenceType, ?d)"
    using h0 head_ID [of ?d db] by (cases ?head) (simp_all add: new_head_key)
  obtain db' where run: "stage_body now c ?head db = Inr ((), db')"
    and rep: "replaced ?d (stage_head now c h0) (superseded c ?head) ?new db db'"
  proof
    show "stage_body now c ?head db = Inr ((),
      a_reference_heads_update (tbl_upd (\<lambda>h. rh_key h = (publicationReferenceType, pc_DocumentID c)) (stage_head now c))
        (a_references_update (replace_refs ?d (superseded c ?head) ?new)
          (a_reference_heads_update (if ?head = None then (\<lambda>rows. rows @ [new_head ?d (pc_OwnerID c) now]) else (\<lambda>rows. rows)) db)))"
      using stage_body_run [OF v refl] r by simp
  next
    show "replaced ?d (stage_head now c h0) (superseded c ?head) ?new db (a_reference_heads_update (tbl_upd (\<lambda>h. rh_key h = (publicationReferenceType, pc_DocumentID c)) (stage_head now c))
        (a_references_update (replace_refs ?d (superseded c ?head) ?new)
          (a_reference_heads_update (if ?head = None then (\<lambda>rows. rows @ [new_head ?d (pc_OwnerID c) now]) else (\<lambda>rows. rows)) db)))"
      by (rule put_head_replaced [OF refl]) (use h0 key in \<open>auto simp: stage_head_def split: option.split\<close>)
  qed
  have ag: "rh_ActiveGeneration h0 < pc_Generation c" "0 \<le> rh_ActiveGeneration h0"
    using h0 v refs_okD(1) [OF i, of ?d h0]
    by (auto simp: new_head_def valid_command_def latest_generation_def head_ok_def split: option.split_asm if_split_asm)
  have "implements db ?d (Inr (Some \<lparr>ce_Owner = pc_OwnerID c,
       ce_Active = ce_Active (head_cell (refs_of db ?d) h0), ce_Staged = Some (slot_of c)\<rparr>)) (Inr (), db')"
  proof (rule implements_replaced [OF i rep])
    show "head_ok (stage_head now c h0)" using ag by (simp add: head_ok_def stage_head_def)
    show "\<forall>r \<in> set ?new. row_ok (\<lambda>_. Some (stage_head now c h0)) r \<and> rf_RefID r = ?d" by (auto simp: row_ok_def stage_head_def)
    show "g = rh_ActiveGeneration (stage_head now c h0) \<or> Some g = rh_StagedGeneration (stage_head now c h0)"
      if "?head = Some x" "\<not> superseded c ?head g" "g = rh_ActiveGeneration x \<or> Some g = rh_StagedGeneration x" for x g
      using that h0 refs_okD(1) [OF i that(1)] by (auto simp: superseded_def stage_head_def head_ok_def)
    have s: "\<not> superseded c ?head (rh_ActiveGeneration h0)" "superseded c ?head (pc_Generation c)"
      using ag h0 by (auto simp: superseded_def split: option.split_asm)
    show "Some \<lparr>ce_Owner = pc_OwnerID c, ce_Active = ce_Active (head_cell (refs_of db ?d) h0), ce_Staged = Some (slot_of c)\<rparr>
      = Some (head_cell (\<lambda>g. (if superseded c ?head g then {} else refs_of db ?d g) \<union> set (map rf_AttachmentID (filter (\<lambda>r. rf_Generation r = g) ?new)))
          (stage_head now c h0))"
      using ag s by (simp add: head_cell_def stage_head_def slot_of_def filter_map comp_def)
  qed
  with run show ?thesis by blast
qed

lemma cell_of_head: "reference_head docID db = Some h \<Longrightarrow> reference_cell db docID = Some (head_cell (refs_of db docID) h)"
  "reference_head docID db = None \<Longrightarrow> reference_cell db docID = None"
  by (simp_all add: reference_cell_def)

lemma stage_implements:
  assumes i: "refs_ok db" and v: "valid_command c"
  shows "implements db (pc_DocumentID c) (cell_stage c (all_ready c db) (reference_cell db (pc_DocumentID c)))
    (StagePublicationReferences now c db)"
proof (cases "reference_head (pc_DocumentID c) db")
  case None
  let ?h0 = "new_head (pc_DocumentID c) (pc_OwnerID c) now"
  have empty: "ce_Active (head_cell (refs_of db (pc_DocumentID c)) ?h0) = empty_slot"
    using no_head_no_refs [OF i None] by (simp add: head_cell_def new_head_def empty_slot_def)
  have call: "StagePublicationReferences now c db = transaction (stage_body now c (reference_head (pc_DocumentID c) db)) db"
    using None by (simp add: StagePublicationReferences_def transaction_def tbind_def tread_def)
  show ?thesis
  proof (cases "all_ready c db")
    case True
    from stage_replaced [OF v True i, of ?h0 now] None obtain db' where
      "stage_body now c (reference_head (pc_DocumentID c) db) db = Inr ((), db')"
      "implements db (pc_DocumentID c) (Inr (Some \<lparr>ce_Owner = pc_OwnerID c, ce_Active = empty_slot, ce_Staged = Some (slot_of c)\<rparr>)) (Inr (), db')"
      by (auto simp: empty)
    then show ?thesis using True None by (simp add: call transaction_def cell_of_head cell_stage_def)
  next
    case False
    then show ?thesis using stage_body_run [OF v refl, of now db] i None
      by (simp add: call transaction_def cell_of_head cell_stage_def implements_error)
  qed
next
  case (Some h)
  let ?x = "head_cell (refs_of db (pc_DocumentID c)) h"
  have hok: "head_ok h" using refs_okD(1) [OF i Some] .
  note call = StagePublicationReferences_def transaction_def tbind_def tread_def tguard_def tret_def
  note spec = cell_stage_def cell_of_head(1) [OF Some] latest_head_cell [OF hok, of "refs_of db (pc_DocumentID c)"]
  consider (old) "pc_Generation c < latest_generation h" | (again) "pc_Generation c = latest_generation h"
    | (newer) "latest_generation h < pc_Generation c" by linarith
  then show ?thesis
  proof cases
    case old
    then show ?thesis using Some i
      by (simp add: call spec implements_same cell_of_head)
  next
    case again
    have "StagePublicationReferences now c db = (if same_request c ?x (case ce_Staged ?x of None \<Rightarrow> ce_Active ?x | Some s \<Rightarrow> s)
        then (Inr (), db) else (Inl AIdempotencyConflict, db))"
      using Some again hok
      by (auto simp: call latest_generation_def head_ok_def same_request_def head_cell_def split: option.split_asm)
    then show ?thesis using again i by (simp add: spec implements_same implements_error cell_of_head(1) [OF Some])
  next
    case newer
    have run: "StagePublicationReferences now c db = transaction (stage_body now c (reference_head (pc_DocumentID c) db)) db"
      using Some newer hok by (auto simp: call latest_generation_def head_ok_def split: option.split_asm if_split_asm)
    show ?thesis
    proof (cases "all_ready c db")
      case True
      from stage_replaced [OF v True i, of h now] Some newer obtain db' where
        "stage_body now c (reference_head (pc_DocumentID c) db) db = Inr ((), db')"
        "implements db (pc_DocumentID c) (Inr (Some \<lparr>ce_Owner = pc_OwnerID c, ce_Active = ce_Active ?x, ce_Staged = Some (slot_of c)\<rparr>)) (Inr (), db')"
        by auto
      then show ?thesis using True newer by (simp add: run transaction_def spec)
    next
      case False
      then show ?thesis using stage_body_run [OF v refl, of now db] i newer
        by (simp add: run transaction_def spec implements_error)
    qed
  qed
qed

lemma finalize_implements:
  assumes i: "refs_ok db" and v: "valid_command c"
  shows "implements db (pc_DocumentID c) (cell_finalize c (reference_cell db (pc_DocumentID c))) (FinalizePublicationReferences now c db)"
proof (cases "reference_head (pc_DocumentID c) db")
  case None
  then show ?thesis using i
    by (simp add: FinalizePublicationReferences_def transaction_def tbind_def tsome_def cell_of_head cell_finalize_def implements_error)
next
  case (Some h)
  let ?d = "pc_DocumentID c"
  let ?x = "head_cell (refs_of db ?d) h"
  let ?f = "\<lambda>h. h\<lparr>rh_ActiveGeneration := pc_Generation c, rh_ActiveHash := pc_RequestHash c,
         rh_StagedGeneration := None, rh_StagedHash := [], rh_UpdatedAt := now\<rparr>"
  have hok: "head_ok h" using refs_okD(1) [OF i Some] .
  note call = FinalizePublicationReferences_def transaction_def tbind_def tsome_def tguard_def tret_def
  note spec = cell_finalize_def cell_of_head(1) [OF Some] same_request_def
  show ?thesis
  proof (cases "rh_StagedGeneration h = Some (pc_Generation c) \<and> rh_StagedHash h = pc_RequestHash c \<and> rh_OwnerID h = pc_OwnerID c
      \<and> \<not> pc_Generation c < rh_ActiveGeneration h")
    case False
    have "FinalizePublicationReferences now c db = (case cell_finalize c (Some ?x) of Inl e \<Rightarrow> (Inl e, db) | Inr _ \<Rightarrow> (Inr (), db))
        \<and> (case cell_finalize c (Some ?x) of Inl e \<Rightarrow> True | Inr y \<Rightarrow> y = Some ?x)"
      using False Some by (auto simp: call spec head_cell_def split: option.split)
    then show ?thesis using i by (auto simp: cell_of_head(1) [OF Some] implements_same implements_error split: sum.split_asm)
  next
    case True
    let ?db' = "a_reference_heads_update (tbl_upd (\<lambda>h. rh_key h = (publicationReferenceType, ?d)) ?f)
      (a_references_update (replace_refs ?d (\<lambda>g. g < pc_Generation c) []) (a_reference_heads_update (\<lambda>rows. rows) db))"
    have rep: "replaced ?d (?f h) (\<lambda>g. g < pc_Generation c) [] db ?db'"
      by (rule put_head_replaced [OF refl]) (use Some head_ID [OF Some] in simp_all)
    have run: "FinalizePublicationReferences now c db = (Inr (), ?db')"
      using True Some by (auto simp: call delete_references_def put_head_def twrite_def replace_refs_def)
    have "implements db ?d (Inr (Some \<lparr>ce_Owner = rh_OwnerID h,
        ce_Active = slot_of c\<lparr>sl_Attachments := refs_of db ?d (pc_Generation c)\<rparr>, ce_Staged = None\<rparr>)) (Inr (), ?db')"
      by (rule implements_replaced [OF i rep]) (use True Some hok v in \<open>auto simp: head_ok_def head_cell_def slot_of_def valid_command_def\<close>)
    then show ?thesis
      using True run by (auto simp: spec head_cell_def slot_of_def)
  qed
qed

lemma clear_implements:
  assumes i: "refs_ok db" and v: "valid_command c"
  shows "implements db (pc_DocumentID c) (Inr (cell_clear c (reference_cell db (pc_DocumentID c)))) (ClearPublicationReferences now c db)"
proof (cases "\<exists>h. reference_head (pc_DocumentID c) db = Some h \<and> pc_Generation c < latest_generation h")
  case True
  then obtain h where h: "reference_head (pc_DocumentID c) db = Some h" "pc_Generation c < latest_generation h" by blast
  then show ?thesis using i latest_head_cell [OF refs_okD(1) [OF i h(1)]]
    by (simp add: ClearPublicationReferences_def transaction_def tbind_def tread_def tret_def cell_clear_def cell_of_head implements_same)
next
  case False
  let ?d = "pc_DocumentID c" and ?head = "reference_head (pc_DocumentID c) db"
  let ?f = "\<lambda>h. h\<lparr>rh_OwnerID := pc_OwnerID c, rh_ActiveGeneration := pc_Generation c,
       rh_ActiveHash := pc_RequestHash c, rh_StagedGeneration := None, rh_StagedHash := [], rh_UpdatedAt := now\<rparr>"
  let ?h0 = "case ?head of None \<Rightarrow> new_head ?d (pc_OwnerID c) now | Some h \<Rightarrow> h"
  let ?grow = "if ?head = None then (\<lambda>rows. rows @ [new_head ?d (pc_OwnerID c) now]) else (\<lambda>rows. rows)"
  let ?db' = "a_reference_heads_update (tbl_upd (\<lambda>h. rh_key h = (publicationReferenceType, ?d)) ?f)
      (a_references_update (replace_refs ?d (\<lambda>_. True) []) (a_reference_heads_update ?grow db))"
  have rep: "replaced ?d (?f ?h0) (\<lambda>_. True) [] db ?db'"
    by (rule put_head_replaced [OF refl]) (auto simp: new_head_key dest: head_ID split: option.split)
  have fresh: "?head = None \<Longrightarrow> \<not> (\<exists>h \<in> set (a_reference_heads db). rh_key h = rh_key (new_head ?d (pc_OwnerID c) now))"
    by (simp add: reference_head_def tbl_get_None new_head_key)
  have run: "ClearPublicationReferences now c db = (Inr (), ?db')"
    using False fresh v
    by (cases ?head) (simp_all add: ClearPublicationReferences_def clear_body_def transaction_def tbind_def tread_def tinsert_def delete_references_def
        twrite_def tret_def tguard_def put_head_def replace_refs_def valid_command_def comp_def)
  have spec: "cell_clear c (reference_cell db ?d)
      = Some \<lparr>ce_Owner = pc_OwnerID c, ce_Active = (slot_of c)\<lparr>sl_Attachments := {}\<rparr>, ce_Staged = None\<rparr>"
    using False latest_head_cell [OF refs_okD(1) [OF i]] by (cases ?head) (auto simp: cell_clear_def cell_of_head)
  show ?thesis unfolding run spec
    by (rule implements_replaced [OF i rep]) (use v in \<open>auto simp: head_ok_def head_cell_def slot_of_def valid_command_def\<close>)
qed

lemma publicationCommand_valid: "publicationCommand A rq e = Some c \<Longrightarrow> valid_command c"
  by (auto simp: publicationCommand_def valid_command_def Let_def split: if_split_asm)

section \<open>What is shown to the public\<close>

lemma cell_shows_iff:
  assumes "refs_ok db"
  shows "i \<in> cell_shows (reference_cell db docID) \<longleftrightarrow>
    (\<exists>h. reference_head docID db = Some h \<and> (i \<in> refs_of db docID (rh_ActiveGeneration h) \<or> (\<exists>g. rh_StagedGeneration h = Some g \<and> i \<in> refs_of db docID g)))"
  by (auto simp: cell_shows_def reference_cell_def head_cell_def split: option.split)

lemma served_head:
  assumes "refs_ok db" "r \<in> set (a_references db)"
  shows "served r db"
proof -
  from refs_okD(3) [OF assms] obtain h where h: "reference_head (rf_RefID r) db = Some h"
    "rf_Generation r = rh_ActiveGeneration h \<or> Some (rf_Generation r) = rh_StagedGeneration h" by blast
  then have "h \<in> set (a_reference_heads db)" "rh_key h = (rf_RefType r, rf_RefID r)"
    using refs_okD(2) [OF assms] head_ID [OF h(1)] by (auto simp: reference_head_def dest: tbl_get_SomeD(1))
  then show ?thesis using h(2) by (auto simp: served_def)
qed

lemma referenced_iff_shown:
  assumes i: "refs_ok db"
  shows "(\<exists>r \<in> set (a_references db). rf_AttachmentID r = a) \<longleftrightarrow> (\<exists>docID. a \<in> cell_shows (reference_cell db docID))"
proof
  assume "\<exists>r \<in> set (a_references db). rf_AttachmentID r = a"
  then obtain r where r: "r \<in> set (a_references db)" "rf_AttachmentID r = a" by blast
  then have "a \<in> refs_of db (rf_RefID r) (rf_Generation r)" by (auto simp: refs_of_def)
  moreover obtain h where "reference_head (rf_RefID r) db = Some h"
    "rf_Generation r = rh_ActiveGeneration h \<or> Some (rf_Generation r) = rh_StagedGeneration h"
    using refs_okD(3) [OF i r(1)] by blast
  ultimately have "a \<in> cell_shows (reference_cell db (rf_RefID r))" unfolding cell_shows_iff [OF i] by auto
  then show "\<exists>docID. a \<in> cell_shows (reference_cell db docID)" by blast
next
  assume "\<exists>docID. a \<in> cell_shows (reference_cell db docID)"
  then obtain d g where "a \<in> refs_of db d g" unfolding cell_shows_iff [OF i] by blast
  then have "a \<in> rf_AttachmentID ` set (filter (\<lambda>r. rf_RefID r = d \<and> rf_Generation r = g) (a_references db))"
    by (simp only: refs_of_def set_map)
  then obtain r where "a = rf_AttachmentID r" "r \<in> set (filter (\<lambda>r. rf_RefID r = d \<and> rf_Generation r = g) (a_references db))"
    by (rule imageE)
  then show "\<exists>r \<in> set (a_references db). rf_AttachmentID r = a" by (intro bexI [where x = r]) simp_all
qed

lemma GetPublished_iff:
  assumes i: "refs_ok db" and d: "distinct (map at_ID (a_attachments db))"
  shows "GetPublished i db = Inr a \<longleftrightarrow> (\<exists>row. get_attachment i db = Some row \<and> at_Status row = StatusReady \<and> a = toDomain row)
     \<and> (\<exists>docID. i \<in> cell_shows (reference_cell db docID))"
proof -
  have refs: "(\<exists>r \<in> set (a_references db). rf_AttachmentID r = i \<and> served r db) \<longleftrightarrow> (\<exists>docID. i \<in> cell_shows (reference_cell db docID))"
    unfolding referenced_iff_shown [OF i, symmetric] using served_head [OF i] by blast
  have find: "find (\<lambda>a. at_ID a = i \<and> P a \<and> Q) rows = (case tbl_get at_ID i rows of None \<Rightarrow> None | Some a \<Rightarrow> if P a \<and> Q then Some a else None)"
    if "distinct (map at_ID rows)" for P Q rows
    using that
  proof (induction rows)
    case (Cons x rows)
    have "at_ID x = i \<Longrightarrow> tbl_get at_ID i rows = None" using Cons.prems unfolding tbl_get_None by (metis distinct.simps(2) image_eqI list.set_map list.simps(9))
    then show ?case using Cons by (cases "at_ID x = i") (auto simp: tbl_simps)
  qed (simp add: tbl_simps)
  show ?thesis
    unfolding GetPublished_def refs find [OF d] get_attachment_def by (auto split: option.split)
qed

end
