(* ===== verification/AttachmentLifecycle.thy ===== *)
theory AttachmentLifecycle
  imports ReferenceProtocol
begin

text \<open>
  The life of an attachment over every call of the attachment repository: upload, scan, publication,
  trash. \<open>astep\<close> is one call; \<open>areach\<close> are the databases reachable from an empty one when a scanner reports
  on an attachment that is still being scanned. What a late report does is shown at the end.
\<close>

section \<open>Steps\<close>

inductive astep :: "aenv \<Rightarrow> adb \<Rightarrow> adb \<Rightarrow> bool" for A where
  create: "CreateAttachment a v db = (ra, db') \<Longrightarrow> att_Status a = StatusPendingUpload \<Longrightarrow> astep A db db'"
| mark: "MarkScanning now i owner db = (r, db') \<Longrightarrow> astep A db db'"
| claim: "ClaimScan now db = (ra, db') \<Longrightarrow> astep A db db'"
| complete: "CompleteScan A now i result clean db = (r, db') \<Longrightarrow>
    (\<And>row. get_attachment i db = Some row \<Longrightarrow> at_Status row = StatusScanning) \<Longrightarrow> astep A db db'"
| retry: "RetryScan now i err db = (r, db') \<Longrightarrow> astep A db db'"
| trash: "TrashAttachment now i owner db = (r, db') \<Longrightarrow> astep A db db'"
| restore: "RestoreAttachment now i owner db = (r, db') \<Longrightarrow> astep A db db'"
| stage: "publicationCommand A rq e = Some c \<Longrightarrow> StagePublicationReferences now c db = (r, db') \<Longrightarrow> astep A db db'"
| finalize: "publicationCommand A rq e = Some c \<Longrightarrow> FinalizePublicationReferences now c db = (r, db') \<Longrightarrow> astep A db db'"
| clear: "publicationCommand A rq e = Some c \<Longrightarrow> ClearPublicationReferences now c db = (r, db') \<Longrightarrow> astep A db db'"

inductive areach :: "aenv \<Rightarrow> adb \<Rightarrow> bool" for A where
  start: "areach A empty_adb"
| step: "areach A db \<Longrightarrow> astep A db db' \<Longrightarrow> areach A db'"

section \<open>Invariant\<close>

definition status_of :: "adb \<Rightarrow> string \<Rightarrow> string option" where
  "status_of db i = map_option at_Status (get_attachment i db)"

text \<open>Whether an attachment has a scan job, and if so whether the job is parked.\<close>

definition job_state :: "adb \<Rightarrow> string \<Rightarrow> bool option" where
  "job_state db i = map_option (\<lambda>j. sj_ParkedAt j \<noteq> None) (tbl_get sj_AttachmentID i (a_scan_jobs db))"

definition referenced :: "adb \<Rightarrow> string set" where
  "referenced db = set (map rf_AttachmentID (a_references db))"

definition life_inv :: "adb \<Rightarrow> bool" where
  "life_inv db \<longleftrightarrow> refs_ok db \<and> distinct (map at_ID (a_attachments db))
     \<and> (\<forall>i. status_of db i = Some StatusScanning \<longleftrightarrow> job_state db i = Some False)
     \<and> (\<forall>i. status_of db i = Some StatusPendingUpload \<or> status_of db i = None \<longrightarrow> job_state db i = None)
     \<and> (\<forall>i \<in> referenced db. status_of db i = Some StatusReady)
     \<and> distinct (map sj_AttachmentID (a_scan_jobs db))"

lemma life_invD:
  assumes "life_inv db"
  shows "refs_ok db" "distinct (map at_ID (a_attachments db))"
    "status_of db i = Some StatusScanning \<longleftrightarrow> job_state db i = Some False"
    "status_of db i = Some StatusPendingUpload \<Longrightarrow> job_state db i = None" "status_of db i = None \<Longrightarrow> job_state db i = None"
    "i \<in> referenced db \<Longrightarrow> status_of db i = Some StatusReady" "distinct (map sj_AttachmentID (a_scan_jobs db))"
  using assms by (auto simp: life_inv_def)

text \<open>A call that moves one attachment, and perhaps its job, to another state.\<close>

lemma life_inv_move:
  assumes i: "life_inv db"
    and "a_references db' = a_references db" "a_reference_heads db' = a_reference_heads db"
    and "distinct (map at_ID (a_attachments db'))"
    and st: "status_of db' = (status_of db)(k \<mapsto> s)" and jb: "job_state db' = (job_state db)(k := b)"
    and ok: "s = StatusScanning \<longleftrightarrow> b = Some False" "s = StatusPendingUpload \<Longrightarrow> b = None"
    and ref: "k \<in> referenced db \<Longrightarrow> s = StatusReady" and dj: "distinct (map sj_AttachmentID (a_scan_jobs db'))"
  shows "life_inv db'"
proof -
  have "refs_ok db'" using life_invD(1) [OF i] assms(2,3) by (simp add: refs_ok_def reference_head_def)
  moreover have "referenced db' = referenced db" using assms(2) by (simp add: referenced_def)
  ultimately show ?thesis
    using assms(4) ok ref dj life_invD(3,4,5,6) [OF i] unfolding life_inv_def st jb by auto
qed

lemma status_of_put:
  assumes "a_attachments db' = tbl_upd (\<lambda>r. at_ID r = k) f (a_attachments db)" "\<And>r. at_ID (f r) = at_ID r" "get_attachment k db = Some row"
  shows "status_of db' = (status_of db)(k \<mapsto> at_Status (f row))" "map at_ID (a_attachments db') = map at_ID (a_attachments db)"
proof -
  show "map at_ID (a_attachments db') = map at_ID (a_attachments db)"
    unfolding assms(1) by (rule map_key_upd [where key = at_ID]) (rule assms(2))
  show "status_of db' = (status_of db)(k \<mapsto> at_Status (f row))"
    using assms(3) tbl_get_upd_key [where key = at_ID and f = f, OF assms(2)]
    by (auto simp: status_of_def get_attachment_def assms(1) fun_eq_iff)
qed

lemma job_state_put:
  assumes "a_scan_jobs db' = tbl_upd (\<lambda>j. sj_AttachmentID j = k) f (a_scan_jobs db)" "\<And>j. sj_AttachmentID (f j) = sj_AttachmentID j"
  shows "job_state db' = (job_state db)(k := map_option (\<lambda>j. sj_ParkedAt (f j) \<noteq> None) (tbl_get sj_AttachmentID k (a_scan_jobs db)))"
  using tbl_get_upd_key [where key = sj_AttachmentID and f = f, OF assms(2)]
  by (auto simp: job_state_def assms(1) fun_eq_iff option.map_comp comp_def)

lemma owned_get:
  assumes "distinct (map at_ID (a_attachments db))" "owned_attachment i owner db = Some r"
  shows "get_attachment i db = Some r" "at_ID r = i"
proof -
  have r: "r \<in> set (a_attachments db)" "at_ID r = i" using assms(2) by (auto simp: owned_attachment_def find_Some_iff)
  then show "get_attachment i db = Some r" "at_ID r = i" using tbl_get_in [OF assms(1) r(1)] by (auto simp: get_attachment_def)
qed

section \<open>Every call keeps the invariant\<close>

lemma create_life:
  assumes i: "life_inv db" and c: "CreateAttachment a v db = (r, db')" and p: "att_Status a = StatusPendingUpload"
  shows "life_inv db'"
proof (cases "a_attachments db' = a_attachments db")
  case True
  then have "db' = db" using c
    by (auto simp: CreateAttachment_def transaction_def tbind_def tread_def tguard_def tcheck_def twrite_def tret_def
        split: if_split_asm option.split_asm sum.split_asm prod.split_asm)
  then show ?thesis using i by simp
next
  case False
  let ?row = "newAttachmentRow a v"
  from False c have db': "db' = a_attachments_update (\<lambda>rows. rows @ [?row]) db" and ins: "attachment_insertable ?row (a_attachments db)"
    by (auto simp: CreateAttachment_def transaction_def tbind_def tread_def tguard_def tcheck_def twrite_def tret_def
        split: if_split_asm option.split_asm sum.split_asm prod.split_asm)
  have new: "get_attachment (att_ID a) db = None" "at_ID ?row = att_ID a" "at_Status ?row = StatusPendingUpload"
    using ins p by (auto simp: attachment_insertable_def get_attachment_def tbl_get_None newAttachmentRow_def)
  have st: "status_of db' = (status_of db)(att_ID a \<mapsto> StatusPendingUpload)"
    using new by (auto simp: status_of_def get_attachment_def db' tbl_simps fun_eq_iff split: option.split)
  have none: "status_of db (att_ID a) = None" using new(1) by (simp add: status_of_def)
  have jb: "job_state db' = (job_state db)(att_ID a := None)"
    using life_invD(5) [OF i none] by (auto simp: job_state_def db' fun_eq_iff)
  have dis: "distinct (map at_ID (a_attachments db'))"
    using life_invD(2) [OF i] ins by (auto simp: db' attachment_insertable_def)
  show ?thesis
    by (rule life_inv_move [OF i _ _ dis st jb]) (use life_invD(6,7) [OF i] none in \<open>auto simp: db'\<close>)
qed

text \<open>A transaction that failed, and one that only touches leases, keep the states.\<close>

lemma life_inv_same:
  assumes i: "life_inv db" and "a_references db' = a_references db" "a_reference_heads db' = a_reference_heads db"
    "a_attachments db' = a_attachments db" "job_state db' = job_state db"
    and dj: "map sj_AttachmentID (a_scan_jobs db') = map sj_AttachmentID (a_scan_jobs db)"
  shows "life_inv db'"
proof -
  have "status_of db' = status_of db" using assms(4) by (simp add: status_of_def get_attachment_def fun_eq_iff)
  moreover have "refs_ok db'" using life_invD(1) [OF i] assms(2,3) by (simp add: refs_ok_def reference_head_def)
  ultimately show ?thesis using i assms(2,4,5,6) by (simp add: life_inv_def referenced_def)
qed

lemma mark_life:
  assumes i: "life_inv db" and c: "MarkScanning now k owner db = (Inr u, db')"
  shows "life_inv db'"
proof -
  let ?f = "\<lambda>x. x\<lparr>at_Status := StatusScanning, at_UpdatedAt := now\<rparr>"
  let ?j = "\<lambda>j. j\<lparr>sj_Attempts := 0, sj_NextAttemptAt := now, sj_LeaseUntil := None, sj_ParkedAt := None, sj_UpdatedAt := now, sj_LastError := []\<rparr>"
  let ?new = "\<lparr>sj_AttachmentID = k, sj_Attempts = 0, sj_NextAttemptAt = now, sj_LeaseUntil = None, sj_ParkedAt = None,
                     sj_LastError = [], sj_CreatedAt = now, sj_UpdatedAt = now\<rparr>"
  from c obtain row where o: "owned_attachment k owner db = Some row" and p: "at_Status row = StatusPendingUpload"
    and db': "db' = a_scan_jobs_update (\<lambda>rows. if \<exists>j \<in> set rows. sj_AttachmentID j = k then tbl_upd (\<lambda>j. sj_AttachmentID j = k) ?j rows else rows @ [?new])
       (a_attachments_update (tbl_upd (\<lambda>r. at_ID r = at_ID row) ?f) db)"
    unfolding MarkScanning_def put_attachment_def by (auto simp: tx_simps)
  note row = owned_get [OF life_invD(2) [OF i] o]
  have none: "job_state db k = None" using life_invD(4) [OF i, of k] row p by (simp add: status_of_def)
  then have nj: "\<not> (\<exists>j \<in> set (a_scan_jobs db). sj_AttachmentID j = k)" by (simp add: job_state_def tbl_get_None)
  have att: "a_attachments db' = tbl_upd (\<lambda>r. at_ID r = k) ?f (a_attachments db)" using row by (simp add: db')
  have st: "status_of db' = (status_of db)(k \<mapsto> StatusScanning)" "map at_ID (a_attachments db') = map at_ID (a_attachments db)"
    using status_of_put [OF att _ row(1)] by simp_all
  have jb: "job_state db' = (job_state db)(k \<mapsto> False)"
    using nj none by (auto simp: db' job_state_def tbl_simps fun_eq_iff split: option.split)
  have "k \<notin> referenced db" using life_invD(6) [OF i, of k] row p by (auto simp: status_of_def)
  then show ?thesis
    by (intro life_inv_move [OF i _ _ _ st(1) jb]) (use st(2) life_invD(2,7) [OF i] nj in \<open>auto simp: db'\<close>)
qed

lemma claim_life:
  assumes i: "life_inv db" and c: "ClaimScan now db = (Inr a, db')"
  shows "life_inv db'"
proof -
  from c have "\<exists>k. db' = a_scan_jobs_update (tbl_upd (\<lambda>j. sj_AttachmentID j = k)
      (\<lambda>j. j\<lparr>sj_Attempts := sj_Attempts j + 1, sj_LeaseUntil := Some (now + scanLease), sj_UpdatedAt := now\<rparr>)) db"
    unfolding ClaimScan_def put_scan_job_def by (auto simp: tx_simps split: list.split_asm option.split_asm intro!: exI)
  then obtain k where db': "db' = a_scan_jobs_update (tbl_upd (\<lambda>j. sj_AttachmentID j = k)
      (\<lambda>j. j\<lparr>sj_Attempts := sj_Attempts j + 1, sj_LeaseUntil := Some (now + scanLease), sj_UpdatedAt := now\<rparr>)) db" ..
  then have jobs: "a_scan_jobs db' = tbl_upd (\<lambda>j. sj_AttachmentID j = k)
      (\<lambda>j. j\<lparr>sj_Attempts := sj_Attempts j + 1, sj_LeaseUntil := Some (now + scanLease), sj_UpdatedAt := now\<rparr>) (a_scan_jobs db)" by simp
  have "job_state db' = job_state db"
    using job_state_put [OF jobs] by (simp add: fun_upd_idem_iff job_state_def)
  then show ?thesis by (intro life_inv_same [OF i]) (simp_all add: db' map_key_upd)
qed

lemma complete_life:
  assumes i: "life_inv db" and c: "CompleteScan A now k result clean db = (Inr u, db')"
    and s: "\<And>row. get_attachment k db = Some row \<Longrightarrow> at_Status row = StatusScanning"
  shows "life_inv db'"
proof -
  from c obtain row where row: "get_attachment k db = Some row"
    unfolding CompleteScan_def by (auto simp: tx_simps)
  let ?status = "if sr_Size result \<noteq> at_SizeBytes row \<or> (at_SHA256 row \<noteq> [] \<and> \<not> equal_fold A (sr_SHA256 result) (at_SHA256 row))
                   then StatusRejected else if clean then StatusReady else StatusRejected"
  define f where "f = (\<lambda>x :: attachment_row. x\<lparr>at_Status := ?status, at_DetectedType := sr_DetectedType result, at_UpdatedAt := now,
                 at_SHA256 := (if sr_SHA256 result \<noteq> [] then to_lower (ae_lower A) (sr_SHA256 result) else at_SHA256 x)\<rparr>)"
  have f: "\<And>r. at_ID (f r) = at_ID r" "at_Status (f row) = StatusReady \<or> at_Status (f row) = StatusRejected"
    by (simp_all add: f_def)
  have db': "db' = a_scan_jobs_update (tbl_del (\<lambda>j. sj_AttachmentID j = k)) (a_attachments_update (tbl_upd (\<lambda>r. at_ID r = k) f) db)"
    using c row unfolding CompleteScan_def put_attachment_def Let_def f_def by (simp add: tx_simps)
  have att: "a_attachments db' = tbl_upd (\<lambda>r. at_ID r = k) f (a_attachments db)" by (simp add: db')
  note st = status_of_put [OF att f(1) row]
  have jb: "job_state db' = (job_state db)(k := None)"
    by (auto simp: db' job_state_def fun_eq_iff tbl_get_del_hit tbl_get_del)
  have "k \<notin> referenced db" using life_invD(6) [OF i, of k] row s [OF row] by (auto simp: status_of_def)
  then show ?thesis
    by (intro life_inv_move [OF i _ _ _ st(1) jb]) (use st(2) life_invD(2,7) [OF i] f(2) in \<open>auto simp: db' distinct_del\<close>)
qed

lemma retry_life:
  assumes i: "life_inv db" and c: "RetryScan now k err db = (Inr u, db')"
  shows "life_inv db'"
proof -
  from c obtain row job where row: "find (\<lambda>r. at_ID r = k \<and> at_Status r = StatusScanning) (a_attachments db) = Some row"
    and job: "tbl_get sj_AttachmentID k (a_scan_jobs db) = Some job"
    and body: "(if maxScanAttempts \<le> sj_Attempts job then
       tbind (put_attachment (at_ID row) (\<lambda>x. x\<lparr>at_Status := StatusScanParked, at_UpdatedAt := now\<rparr>)) (\<lambda>_.
       put_scan_job k (\<lambda>j. j\<lparr>sj_ParkedAt := Some now, sj_LeaseUntil := None, sj_LastError := truncateError err, sj_UpdatedAt := now\<rparr>))
     else put_scan_job k (\<lambda>j. j\<lparr>sj_NextAttemptAt := now + second * 2 ^ nat (min (sj_Attempts job) 7), sj_LeaseUntil := None,
         sj_LastError := truncateError err, sj_UpdatedAt := now\<rparr>)) db = Inr (u, db')"
    unfolding RetryScan_def by (auto simp: tx_simps)
  have r: "row \<in> set (a_attachments db)" "at_ID row = k" "at_Status row = StatusScanning" using row by (auto simp: find_Some_iff)
  have g: "get_attachment k db = Some row" using tbl_get_in [OF life_invD(2) [OF i] r(1)] r(2) by (simp add: get_attachment_def)
  show ?thesis
  proof (cases "maxScanAttempts \<le> sj_Attempts job")
    case True
    let ?f = "\<lambda>x. x\<lparr>at_Status := StatusScanParked, at_UpdatedAt := now\<rparr>"
    have db': "db' = a_scan_jobs_update (tbl_upd (\<lambda>j. sj_AttachmentID j = k)
        (\<lambda>j. j\<lparr>sj_ParkedAt := Some now, sj_LeaseUntil := None, sj_LastError := truncateError err, sj_UpdatedAt := now\<rparr>))
        (a_attachments_update (tbl_upd (\<lambda>r. at_ID r = k) ?f) db)"
      using body True r(2) by (simp add: put_attachment_def put_scan_job_def tx_simps)
    have att: "a_attachments db' = tbl_upd (\<lambda>r. at_ID r = k) ?f (a_attachments db)" by (simp add: db')
    have st: "status_of db' = (status_of db)(k \<mapsto> StatusScanParked)" "map at_ID (a_attachments db') = map at_ID (a_attachments db)"
      using status_of_put [OF att _ g] by simp_all
    have jobs: "a_scan_jobs db' = tbl_upd (\<lambda>j. sj_AttachmentID j = k)
        (\<lambda>j. j\<lparr>sj_ParkedAt := Some now, sj_LeaseUntil := None, sj_LastError := truncateError err, sj_UpdatedAt := now\<rparr>) (a_scan_jobs db)"
      by (simp add: db')
    have jb: "job_state db' = (job_state db)(k \<mapsto> True)"
      using job_state_put [OF jobs] job by simp
    have "k \<notin> referenced db" using life_invD(6) [OF i, of k] g r(3) by (auto simp: status_of_def)
    then show ?thesis
      by (intro life_inv_move [OF i _ _ _ st(1) jb]) (use st(2) life_invD(2,7) [OF i] in \<open>auto simp: db' map_key_upd distinct_del\<close>)
  next
    case False
    have db': "db' = a_scan_jobs_update (tbl_upd (\<lambda>j. sj_AttachmentID j = k) (\<lambda>j. j\<lparr>sj_NextAttemptAt := now + second * 2 ^ nat (min (sj_Attempts job) 7),
        sj_LeaseUntil := None, sj_LastError := truncateError err, sj_UpdatedAt := now\<rparr>)) db"
      using body False by (simp add: put_scan_job_def tx_simps)
    then have jobs: "a_scan_jobs db' = tbl_upd (\<lambda>j. sj_AttachmentID j = k) (\<lambda>j. j\<lparr>sj_NextAttemptAt := now + second * 2 ^ nat (min (sj_Attempts job) 7),
        sj_LeaseUntil := None, sj_LastError := truncateError err, sj_UpdatedAt := now\<rparr>) (a_scan_jobs db)" by simp
    have "job_state db' = job_state db"
      using job_state_put [OF jobs] by (simp add: fun_upd_idem_iff job_state_def)
    then show ?thesis by (intro life_inv_same [OF i]) (simp_all add: db' map_key_upd)
  qed
qed

lemma get_attachment_ID: "get_attachment j db = Some r \<Longrightarrow> at_ID r = j"
  unfolding get_attachment_def by (rule tbl_get_SomeD(2))

lemma trash_life:
  assumes i: "life_inv db" and c: "TrashAttachment now k owner db = (Inr u, db')"
  shows "life_inv db'"
proof -
  let ?f = "\<lambda>x. x\<lparr>at_Status := StatusTrashed, at_UpdatedAt := now\<rparr>"
  from c obtain row where o: "owned_attachment k owner db = Some row" and nr: "\<forall>f \<in> set (a_references db). rf_AttachmentID f \<noteq> k"
    and s: "at_Status row = StatusReady \<or> at_Status row = StatusRejected \<or> at_Status row = StatusScanParked"
    and db': "db' = a_attachments_update (tbl_upd (\<lambda>r. at_ID r = at_ID row) ?f) db"
    unfolding TrashAttachment_def put_attachment_def by (auto simp: tx_simps)
  note row = owned_get [OF life_invD(2) [OF i] o]
  have att: "a_attachments db' = tbl_upd (\<lambda>r. at_ID r = k) ?f (a_attachments db)" using row by (simp add: db')
  have st: "status_of db' = (status_of db)(k \<mapsto> StatusTrashed)" "map at_ID (a_attachments db') = map at_ID (a_attachments db)"
    using status_of_put [OF att _ row(1)] by simp_all
  have jb: "job_state db' = (job_state db)(k := job_state db k)" by (simp add: db' job_state_def fun_eq_iff)
  have "job_state db k \<noteq> Some False" using life_invD(3) [OF i, of k] row(1) s by (auto simp: status_of_def)
  moreover have "k \<notin> referenced db" using nr by (auto simp: referenced_def)
  ultimately show ?thesis
    by (intro life_inv_move [OF i _ _ _ st(1) jb]) (use st(2) life_invD(2,7) [OF i] in \<open>auto simp: db' map_key_upd distinct_del\<close>)
qed

lemma restore_life:
  assumes i: "life_inv db" and c: "RestoreAttachment now k owner db = (Inr u, db')"
  shows "life_inv db'"
proof -
  let ?p = "\<lambda>r. at_ID r = k \<and> at_OwnerID r = owner \<and> at_Status r = StatusTrashed"
  let ?f = "\<lambda>x. x\<lparr>at_Status := StatusReady, at_UpdatedAt := now\<rparr>"
  have db': "db' = a_attachments_update (tbl_upd ?p ?f) db" using c by (simp add: RestoreAttachment_def tx_simps)
  have get: "get_attachment j db' = map_option (\<lambda>r. if ?p r then ?f r else r) (get_attachment j db)" for j
    by (simp add: db' get_attachment_def tbl_get_upd)
  have ids: "map at_ID (a_attachments db') = map at_ID (a_attachments db)" by (simp add: db' map_key_upd)
  show ?thesis
  proof (cases "\<exists>row. get_attachment k db = Some row \<and> ?p row")
    case True
    then obtain row where row: "get_attachment k db = Some row" "?p row" by blast
    have st: "status_of db' = (status_of db)(k \<mapsto> StatusReady)"
    proof
      fix j show "status_of db' j = ((status_of db)(k \<mapsto> StatusReady)) j"
        using row get [of j] by (cases "get_attachment j db") (auto simp: status_of_def dest: get_attachment_ID)
    qed
    have jb: "job_state db' = (job_state db)(k := job_state db k)" by (simp add: db' job_state_def fun_eq_iff)
    have "job_state db k \<noteq> Some False" using life_invD(3) [OF i, of k] row by (auto simp: status_of_def)
    then show ?thesis
      by (intro life_inv_move [OF i _ _ _ st jb]) (use ids life_invD(2,7) [OF i] in \<open>auto simp: db' map_key_upd distinct_del\<close>)
  next
    case False
    have "\<not> ?p r" if "r \<in> set (a_attachments db)" for r
    proof
      assume "?p r"
      then have "get_attachment k db = Some r" using tbl_get_in [OF life_invD(2) [OF i] that] by (auto simp: get_attachment_def)
      with \<open>?p r\<close> False show False by blast
    qed
    then have "tbl_upd ?p ?f (a_attachments db) = a_attachments db"
      unfolding tbl_upd_def by (intro map_idI) (metis (no_types, lifting))
    then show ?thesis by (intro life_inv_same [OF i]) (simp_all add: db' job_state_def fun_eq_iff)
  qed
qed

lemma referenced_shown: "refs_ok db \<Longrightarrow> a \<in> referenced db \<longleftrightarrow> (\<exists>docID. a \<in> cell_shows (reference_cell db docID))"
  using referenced_iff_shown [of db a] unfolding referenced_def set_map by (metis imageE image_eqI)

lemma all_ready_status:
  assumes "all_ready c db" "valid_command c" "distinct (map at_ID (a_attachments db))" "i \<in> set (pc_AttachmentIDs c)"
  shows "status_of db i = Some StatusReady"
proof -
  let ?ids = "set (pc_AttachmentIDs c)"
  let ?rows = "filter (\<lambda>r. at_ID r \<in> ?ids \<and> at_OwnerID r = pc_OwnerID c \<and> at_Status r = StatusReady) (a_attachments db)"
  have len: "length ?rows = card ?ids"
    using assms(1,2,4) by (auto simp: all_ready_def ready_count_def valid_command_def distinct_card)
  have dis: "distinct (map at_ID ?rows)" using assms(3) by (rule distinct_map_filter)
  have "card (set (map at_ID ?rows)) = length (map at_ID ?rows)" using dis by (rule distinct_card)
  then have "set (map at_ID ?rows) = ?ids" using len by (intro card_subset_eq) auto
  then have "i \<in> at_ID ` set ?rows" using assms(4) by (simp only: set_map)
  then obtain r where "i = at_ID r" "r \<in> set ?rows" by (rule imageE)
  then have r: "r \<in> set (a_attachments db)" "at_ID r = i" "at_Status r = StatusReady" by auto
  then show ?thesis using tbl_get_in [OF assms(3) r(1)] by (simp add: status_of_def get_attachment_def)
qed

lemma implements_life:
  assumes i: "life_inv db" and imp: "implements db docID spec res"
    and sub: "\<And>x a. spec = Inr x \<Longrightarrow> a \<in> cell_shows x \<Longrightarrow> a \<in> cell_shows (reference_cell db docID) \<or> status_of db a = Some StatusReady"
  shows "life_inv (snd res)"
proof -
  have st: "status_of (snd res) = status_of db" and jb: "job_state (snd res) = job_state db" and ok: "refs_ok (snd res)"
    and ids: "distinct (map at_ID (a_attachments (snd res)))" "distinct (map sj_AttachmentID (a_scan_jobs (snd res)))"
    using imp life_invD(2,7) [OF i] by (auto simp: implements_def status_of_def job_state_def get_attachment_def fun_eq_iff)
  have "status_of db a = Some StatusReady" if "a \<in> referenced (snd res)" for a
  proof (cases spec)
    case (Inl e)
    then show ?thesis using imp that life_invD(6) [OF i] by (simp add: implements_def)
  next
    case (Inr x)
    from that obtain d where d: "a \<in> cell_shows (reference_cell (snd res) d)" unfolding referenced_shown [OF ok] ..
    have "reference_cell (snd res) = (reference_cell db)(docID := x)" using imp Inr by (simp add: implements_def)
    then have "a \<in> cell_shows (if d = docID then x else reference_cell db d)" using d by simp
    then have "status_of db a = Some StatusReady \<or> (\<exists>d. a \<in> cell_shows (reference_cell db d))"
      using sub [OF Inr] by (auto split: if_split_asm)
    then show ?thesis using life_invD(6) [OF i] referenced_shown [OF life_invD(1) [OF i]] by blast
  qed
  then show ?thesis using i ok ids unfolding life_inv_def st jb by blast
qed

lemma cell_stage_shows:
  "cell_stage c r x0 = Inr x \<Longrightarrow> a \<in> cell_shows x \<Longrightarrow> a \<in> cell_shows x0 \<or> r \<and> a \<in> set (pc_AttachmentIDs c)"
  by (auto simp: cell_stage_def cell_shows_def slot_of_def empty_slot_def split: option.split_asm if_split_asm)

lemma cell_finalize_shows: "cell_finalize c x0 = Inr x \<Longrightarrow> a \<in> cell_shows x \<Longrightarrow> a \<in> cell_shows x0"
  by (auto simp: cell_finalize_def cell_shows_def split: option.split_asm if_split_asm)

lemma cell_clear_shows: "a \<in> cell_shows (cell_clear c x0) \<Longrightarrow> a \<in> cell_shows x0"
  by (auto simp: cell_clear_def cell_shows_def split: option.split_asm if_split_asm)

lemma reference_life:
  assumes i: "life_inv db" and v: "valid_command c"
  shows "life_inv (snd (StagePublicationReferences now c db))" "life_inv (snd (FinalizePublicationReferences now c db))"
    "life_inv (snd (ClearPublicationReferences now c db))"
proof -
  note ok = life_invD(1) [OF i]
  show "life_inv (snd (StagePublicationReferences now c db))"
    by (rule implements_life [OF i stage_implements [OF ok v]])
      (use cell_stage_shows all_ready_status [OF _ v life_invD(2) [OF i]] in blast)
  show "life_inv (snd (FinalizePublicationReferences now c db))"
    by (rule implements_life [OF i finalize_implements [OF ok v]]) (use cell_finalize_shows in blast)
  show "life_inv (snd (ClearPublicationReferences now c db))"
    by (rule implements_life [OF i clear_implements [OF ok v]]) (use cell_clear_shows in blast)
qed

lemma astep_life:
  assumes "astep A db db'" "life_inv db"
  shows "life_inv db'"
  using assms
proof cases
  case (mark now i owner r)
  then show ?thesis using assms(2) mark_life by (cases r) (auto simp: MarkScanning_def transaction_Inl)
next
  case (claim now ra)
  then show ?thesis using assms(2) claim_life by (cases ra) (auto simp: ClaimScan_def transaction_Inl)
next
  case (complete now i result clean r)
  then show ?thesis using assms(2) complete_life by (cases r) (auto simp: CompleteScan_def transaction_Inl)
next
  case (retry now i err r)
  then show ?thesis using assms(2) retry_life by (cases r) (auto simp: RetryScan_def transaction_Inl)
next
  case (trash now i owner r)
  then show ?thesis using assms(2) trash_life by (cases r) (auto simp: TrashAttachment_def transaction_Inl)
next
  case (restore now i owner r)
  then show ?thesis using assms(2) restore_life by (cases r) (auto simp: RestoreAttachment_def transaction_Inl)
next
  case (stage rq e c now r)
  then show ?thesis using reference_life(1) [OF assms(2) publicationCommand_valid, of A rq e c now] by simp
next
  case (finalize rq e c now r)
  then show ?thesis using reference_life(2) [OF assms(2) publicationCommand_valid, of A rq e c now] by simp
next
  case (clear rq e c now r)
  then show ?thesis using reference_life(3) [OF assms(2) publicationCommand_valid, of A rq e c now] by simp
qed (use assms(2) create_life in blast)

lemma empty_life: "life_inv empty_adb"
  by (simp add: life_inv_def empty_adb_def refs_ok_def reference_head_def status_of_def job_state_def referenced_def get_attachment_def tbl_simps)

lemma areach_life: "areach A db \<Longrightarrow> life_inv db"
  by (induction rule: areach.induct) (auto intro: empty_life astep_life)

section \<open>A worked example\<close>

text \<open>One attachment is uploaded, scanned, found clean and staged for a document.\<close>

definition sample_aenv :: aenv where
  "sample_aenv = \<lparr>ae_lower = (\<lambda>r. r), ae_fold = (\<lambda>r. r), ae_uuid_version = (\<lambda>_. Some 7),
     ae_command_hash = (\<lambda>d ownerID g ids. d @ ''/'' @ show_int ownerID @ ''/'' @ show_int g @ ''/'' @ concat ids)\<rparr>"

definition sample_attachment :: Attachment where
  "sample_attachment = \<lparr>att_ID = ''att-1'', att_OwnerID = 7, att_Filename = ''cat.png'', att_MediaType = ''image/png'', att_Category = ''image'',
     att_SizeBytes = 10, att_SHA256 = [], att_DetectedType = [], att_ObjectKey = ''objects/att-1'', att_UploadID = ''u1'',
     att_Status = StatusPendingUpload, att_PartSize = PartSize, att_PartCount = 1, att_CreatedAt = 1, att_UpdatedAt = 1\<rparr>"

definition no_att_key :: AttIdempotency where
  "no_att_key = \<lparr>ai_OwnerID = 7, ai_Key = [], ai_RequestHash = []\<rparr>"

definition clean_result :: ScanResult where
  "clean_result = \<lparr>sr_Clean = True, sr_SHA256 = ''ab'', sr_Size = 10, sr_DetectedType = ''image/png''\<rparr>"

definition sample_request :: reference_request where
  "sample_request = \<lparr>rq_MessageId = ''id-0'', rq_DocumentId = ''doc-1'', rq_OwnerId = 7, rq_Generation = 1, rq_AttachmentIds = [''att-1'']\<rparr>"

definition sample_command :: PublicationReferenceCommand where
  "sample_command = the (publicationCommand sample_aenv sample_request False)"

definition uploaded_adb :: adb where "uploaded_adb = snd (CreateAttachment sample_attachment no_att_key empty_adb)"

definition scanning_adb :: adb where "scanning_adb = snd (MarkScanning 2 ''att-1'' 7 uploaded_adb)"

definition ready_adb :: adb where "ready_adb = snd (CompleteScan sample_aenv 3 ''att-1'' clean_result True scanning_adb)"

definition referenced_adb :: adb where "referenced_adb = snd (StagePublicationReferences 4 sample_command ready_adb)"

lemma scanning_reach: "areach sample_aenv scanning_adb"
proof -
  have "areach sample_aenv uploaded_adb" unfolding uploaded_adb_def
    by (rule areach.step [OF areach.start astep.create [OF prod.collapse [symmetric]]]) (simp add: sample_attachment_def)
  then show ?thesis unfolding scanning_adb_def by (rule areach.step) (rule astep.mark [OF prod.collapse [symmetric]])
qed

lemma ready_reach: "areach sample_aenv ready_adb"
  unfolding ready_adb_def
proof (rule areach.step [OF scanning_reach astep.complete [OF prod.collapse [symmetric]]])
  fix row assume "get_attachment ''att-1'' scanning_adb = Some row"
  moreover have "map_option at_Status (get_attachment ''att-1'' scanning_adb) = Some StatusScanning" by code_simp
  ultimately show "at_Status row = StatusScanning" by simp
qed

lemma referenced_reach: "areach sample_aenv referenced_adb"
proof -
  have "publicationCommand sample_aenv sample_request False = Some sample_command"
    unfolding sample_command_def by (rule option.collapse [symmetric]) code_simp
  then show ?thesis unfolding referenced_adb_def
    by (rule areach.step [OF ready_reach astep.stage [OF _ prod.collapse [symmetric]]])
qed

section \<open>Properties\<close>

text \<open>While an attachment is named by a staged or active publication of any document, it is ready, the public
  lookup returns it, and its owner cannot move it to the trash.\<close>

theorem referenced_attachments_served:
  assumes "areach A db" "i \<in> cell_shows (reference_cell db docID)"
  shows "(\<exists>row. get_attachment i db = Some row \<and> at_Status row = StatusReady \<and> GetPublished i db = Inr (toDomain row))
     \<and> TrashAttachment now i owner db \<in> {(Inl ANotFound, db), (Inl AReferenced, db)}"
proof
  note inv = areach_life [OF assms(1)]
  have r: "i \<in> referenced db" using assms(2) referenced_shown [OF life_invD(1) [OF inv]] by blast
  then obtain row where row: "get_attachment i db = Some row" "at_Status row = StatusReady"
    using life_invD(6) [OF inv r] by (auto simp: status_of_def)
  then have "GetPublished i db = Inr (toDomain row)"
    using assms(2) GetPublished_iff [OF life_invD(1,2) [OF inv]] by blast
  then show "\<exists>row. get_attachment i db = Some row \<and> at_Status row = StatusReady \<and> GetPublished i db = Inr (toDomain row)" using row by blast
  have "\<not> (\<forall>f \<in> set (a_references db). rf_AttachmentID f \<noteq> i)" using r by (auto simp: referenced_def)
  then show "TrashAttachment now i owner db \<in> {(Inl ANotFound, db), (Inl AReferenced, db)}"
    by (auto simp: TrashAttachment_def transaction_def tbind_def tsome_def tcheck_def split: option.split)
qed

theorem referenced_attachments_served_witness:
  "\<exists>row. GetPublished ''att-1'' referenced_adb = Inr (toDomain row) \<and> at_Status row = StatusReady"
proof -
  have "''att-1'' \<in> cell_shows (reference_cell referenced_adb ''doc-1'')" by code_simp
  from referenced_attachments_served [OF referenced_reach this] show ?thesis by blast
qed

text \<open>C33: The three publication reference calls refine the two-slot cell of a document. On every reachable database and
  for every command the service accepts, staging, finalizing and clearing change the head row and the reference
  rows of the document exactly as the cell operations say, answer the error of the cell operation with the
  database unchanged, and leave the cells of all other documents, the attachments and the scan jobs alone.\<close>

theorem reference_calls_refine:
  assumes "areach A db" "publicationCommand A rq emptyIDs = Some c"
  shows "implements db (pc_DocumentID c) (cell_stage c (all_ready c db) (reference_cell db (pc_DocumentID c))) (StagePublicationReferences now c db)
    \<and> implements db (pc_DocumentID c) (cell_finalize c (reference_cell db (pc_DocumentID c))) (FinalizePublicationReferences now c db)
    \<and> implements db (pc_DocumentID c) (Inr (cell_clear c (reference_cell db (pc_DocumentID c)))) (ClearPublicationReferences now c db)"
  using life_invD(1) [OF areach_life [OF assms(1)]] publicationCommand_valid [OF assms(2)]
  by (intro conjI stage_implements finalize_implements clear_implements)

theorem reference_calls_refine_witness:
  "all_ready sample_command ready_adb \<and> reference_cell ready_adb ''doc-1'' = None
   \<and> implements ready_adb ''doc-1'' (cell_stage sample_command True None) (StagePublicationReferences 4 sample_command ready_adb)"
proof -
  have c: "publicationCommand sample_aenv sample_request False = Some sample_command"
    unfolding sample_command_def by (rule option.collapse [symmetric]) code_simp
  have f: "pc_DocumentID sample_command = ''doc-1''" "all_ready sample_command ready_adb" "reference_cell ready_adb ''doc-1'' = None"
    by code_simp+
  from reference_calls_refine [OF ready_reach c, of 4] f show ?thesis by simp
qed

text \<open>No attachment is forgotten by the scanner. As soon as every lease and delay has run out, a claim hands out
  an attachment that is being scanned, as long as there is one.\<close>

theorem scanning_is_claimed:
  assumes "areach A db" "get_attachment i db = Some row" "at_Status row = StatusScanning"
    and "\<forall>j \<in> set (a_scan_jobs db). sj_NextAttemptAt j \<le> now \<and> (case sj_LeaseUntil j of None \<Rightarrow> True | Some t \<Rightarrow> t \<le> now)"
  shows "\<exists>a. fst (ClaimScan now db) = Inr a \<and> att_Status a = StatusScanning"
proof -
  note inv = areach_life [OF assms(1)]
  have "job_state db i = Some False" using life_invD(3) [OF inv, of i] assms(2,3) by (simp add: status_of_def)
  then obtain j where "tbl_get sj_AttachmentID i (a_scan_jobs db) = Some j" "sj_ParkedAt j = None" by (auto simp: job_state_def)
  then have "j \<in> set (filter (scan_due now) (a_scan_jobs db))"
    using assms(4) by (auto simp: scan_due_def dest: tbl_get_SomeD(1))
  then have "filter (scan_due now) (a_scan_jobs db) \<noteq> []" by (metis empty_iff empty_set)
  then have "sort_key (\<lambda>j. (sj_NextAttemptAt j, sj_AttachmentID j)) (filter (scan_due now) (a_scan_jobs db)) \<noteq> []"
    by (metis length_0_conv length_sort)
  then obtain job rest where sel: "tbl_select (scan_due now) (\<lambda>j. (sj_NextAttemptAt j, sj_AttachmentID j)) 1 (a_scan_jobs db) = job # rest"
    unfolding tbl_select_def by (cases "sort_key (\<lambda>j. (sj_NextAttemptAt j, sj_AttachmentID j)) (filter (scan_due now) (a_scan_jobs db))") auto
  have job: "job \<in> set (a_scan_jobs db)" "sj_ParkedAt job = None"
    using tbl_select_in [of job "scan_due now" "\<lambda>j. (sj_NextAttemptAt j, sj_AttachmentID j)" 1 "a_scan_jobs db"] sel by (auto simp: scan_due_def)
  have "job_state db (sj_AttachmentID job) = Some False" using job tbl_get_in [OF life_invD(7) [OF inv] job(1)] by (simp add: job_state_def)
  then obtain r where r: "get_attachment (sj_AttachmentID job) db = Some r" "at_Status r = StatusScanning"
    using life_invD(3) [OF inv, of "sj_AttachmentID job"] by (auto simp: status_of_def)
  have "find (\<lambda>r. at_ID r = sj_AttachmentID job \<and> at_Status r = StatusScanning) (a_attachments db) \<noteq> None"
    using r by (auto simp: find_None_iff get_attachment_def dest: tbl_get_SomeD)
  then obtain r' where r': "find (\<lambda>r. at_ID r = sj_AttachmentID job \<and> at_Status r = StatusScanning) (a_attachments db) = Some r'"
    "at_Status r' = StatusScanning" by (auto simp: find_Some_iff)
  then show ?thesis using sel
    by (simp add: ClaimScan_def transaction_def tbind_def tread_def put_scan_job_def twrite_def tret_def toDomain_def)
qed

theorem scanning_is_claimed_witness: "\<exists>a. fst (ClaimScan 2 scanning_adb) = Inr a \<and> att_Status a = StatusScanning"
proof -
  have "map_option at_Status (get_attachment ''att-1'' scanning_adb) = Some StatusScanning" by code_simp
  then obtain row where row: "get_attachment ''att-1'' scanning_adb = Some row" "at_Status row = StatusScanning" by auto
  have "\<forall>j \<in> set (a_scan_jobs scanning_adb). sj_NextAttemptAt j \<le> 2 \<and> (case sj_LeaseUntil j of None \<Rightarrow> True | Some t \<Rightarrow> t \<le> 2)"
    by code_simp
  from scanning_is_claimed [OF scanning_reach row this] show ?thesis .
qed

text \<open>The bytes of an owner's quota change only as follows.\<close>

definition in_quota :: "attachment_row \<Rightarrow> bool" where
  "in_quota r \<longleftrightarrow> at_Status r \<in> set quota_statuses"

definition quiet_change :: "(attachment_row \<Rightarrow> bool) \<Rightarrow> (attachment_row \<Rightarrow> attachment_row) \<Rightarrow> attachment_row list \<Rightarrow> bool" where
  "quiet_change p f rows \<longleftrightarrow> (\<forall>r \<in> set rows. at_ID (f r) = at_ID r \<and> at_OwnerID (f r) = at_OwnerID r \<and> at_SizeBytes (f r) = at_SizeBytes r
     \<and> (p r \<and> in_quota (f r) \<longrightarrow> in_quota r \<or> at_Status r = StatusRejected \<and> at_Status (f r) = StatusTrashed))"

lemma used_bytes_Cons:
  "used_bytes owner (r # rows) = (if at_OwnerID r = owner \<and> in_quota r then at_SizeBytes r else 0) + used_bytes owner rows"
  by (simp add: used_bytes_def in_quota_def)

lemma used_bytes_Nil: "used_bytes owner [] = 0"
  by (simp add: used_bytes_def)

lemma used_bytes_append: "used_bytes owner (xs @ ys) = used_bytes owner xs + used_bytes owner ys"
  by (simp add: used_bytes_def)

lemma used_bytes_upd:
  assumes "quiet_change p f rows" "\<forall>r \<in> set rows. 0 \<le> at_SizeBytes r"
    "\<forall>r \<in> set rows. p r \<longrightarrow> \<not> (at_Status r = StatusRejected \<and> at_Status (f r) = StatusTrashed)"
  shows "used_bytes owner (tbl_upd p f rows) \<le> used_bytes owner rows"
  using assms
proof (induction rows)
  case (Cons r rows)
  let ?r = "if p r then f r else r"
  have "(if at_OwnerID ?r = owner \<and> in_quota ?r then at_SizeBytes ?r else 0) \<le> (if at_OwnerID r = owner \<and> in_quota r then at_SizeBytes r else 0)"
    using Cons.prems by (auto simp: quiet_change_def)
  moreover have "tbl_upd p f (r # rows) = ?r # tbl_upd p f rows" by (simp add: tbl_upd_def)
  ultimately show ?case using Cons by (simp add: used_bytes_Cons quiet_change_def)
qed (simp add: tbl_upd_def)

inductive row_change :: "attachment_row list \<Rightarrow> attachment_row list \<Rightarrow> bool" for rows where
  kept: "row_change rows rows"
| added: "0 < at_SizeBytes row \<Longrightarrow> used_bytes (at_OwnerID row) rows + at_SizeBytes row \<le> MaxUserBytes \<Longrightarrow> row_change rows (rows @ [row])"
| changed: "quiet_change p f rows \<Longrightarrow> row_change rows (tbl_upd p f rows)"

lemma row_change_put:
  assumes "life_inv db" "get_attachment k db = Some row"
    "at_ID (f row) = at_ID row" "at_OwnerID (f row) = at_OwnerID row" "at_SizeBytes (f row) = at_SizeBytes row"
    "in_quota (f row) \<longrightarrow> in_quota row \<or> at_Status row = StatusRejected \<and> at_Status (f row) = StatusTrashed"
    "rows' = tbl_upd (\<lambda>r. at_ID r = k) f (a_attachments db)"
  shows "row_change (a_attachments db) rows'"
proof -
  let ?g = "\<lambda>r. if at_ID r = k then f r else r"
  have "r = row" if "r \<in> set (a_attachments db)" "at_ID r = k" for r
    using tbl_get_in [OF life_invD(2) [OF assms(1)] that(1)] that(2) assms(2) by (simp add: get_attachment_def)
  then have "at_ID r = k \<Longrightarrow> r \<in> set (a_attachments db) \<Longrightarrow> quiet_change (\<lambda>r. at_ID r = k) ?g [r]" for r
    using assms(3-6) by (simp add: quiet_change_def)
  moreover have "at_ID r \<noteq> k \<Longrightarrow> quiet_change (\<lambda>r. at_ID r = k) ?g [r]" for r by (simp add: quiet_change_def)
  ultimately have "quiet_change (\<lambda>r. at_ID r = k) ?g (a_attachments db)" unfolding quiet_change_def by auto
  moreover have "rows' = tbl_upd (\<lambda>r. at_ID r = k) ?g (a_attachments db)" unfolding assms(7) tbl_upd_def by simp
  ultimately show ?thesis by (simp add: row_change.changed)
qed

lemmas call_defs = transaction_def tbind_def tread_def tguard_def tcheck_def tsome_def twrite_def tret_def traise_def put_attachment_def put_scan_job_def

lemma create_rows:
  assumes "CreateAttachment a v db = (ra, db')"
  shows "row_change (a_attachments db) (a_attachments db')"
proof -
  have "a_attachments db' = a_attachments db \<or> a_attachments db' = a_attachments db @ [newAttachmentRow a v] \<and> attachment_insertable (newAttachmentRow a v) (a_attachments db)
      \<and> used_bytes (att_OwnerID a) (a_attachments db) + att_SizeBytes a \<le> MaxUserBytes"
    using assms by (auto simp: CreateAttachment_def call_defs split: if_split_asm option.split_asm sum.split_asm)
  moreover have "at_OwnerID (newAttachmentRow a v) = att_OwnerID a" "at_SizeBytes (newAttachmentRow a v) = att_SizeBytes a"
    by (simp_all add: newAttachmentRow_def)
  ultimately show ?thesis
    using row_change.added [of "newAttachmentRow a v" "a_attachments db"] by (auto simp: attachment_insertable_def intro: row_change.kept)
qed

lemma astep_rows:
  assumes "astep A db db'" "life_inv db"
  shows "row_change (a_attachments db) (a_attachments db')"
  using assms(1)
proof cases
  case (create a v ra)
  then show ?thesis by (intro create_rows)
next
  case (mark now i owner r)
  show ?thesis
  proof (cases "owned_attachment i owner db")
    case None
    then show ?thesis using mark by (simp add: MarkScanning_def call_defs row_change.kept)
  next
    case (Some row)
    note g = owned_get [OF life_invD(2) [OF assms(2)] Some]
    show ?thesis
    proof (cases "at_Status row = StatusPendingUpload")
      case True
      then show ?thesis using mark Some g
        by (intro row_change_put [OF assms(2) g(1), where f = "\<lambda>x. x\<lparr>at_Status := StatusScanning, at_UpdatedAt := now\<rparr>"])
          (auto simp: MarkScanning_def call_defs in_quota_def quota_statuses_def)
    qed (use mark Some in \<open>simp add: MarkScanning_def call_defs row_change.kept\<close>)
  qed
next
  case (claim now ra)
  then have "a_attachments db' = a_attachments db"
    by (auto simp: ClaimScan_def call_defs split: option.split_asm list.split_asm)
  then show ?thesis by (simp add: row_change.kept)
next
  case (complete now i result clean r)
  show ?thesis
  proof (cases "get_attachment i db")
    case None
    then show ?thesis using complete by (simp add: CompleteScan_def call_defs row_change.kept)
  next
    case (Some row)
    then show ?thesis using complete(1) complete(2) [OF Some]
      by (intro row_change_put [OF assms(2) Some, where f = "\<lambda>x. x\<lparr>
          at_Status := (if sr_Size result \<noteq> at_SizeBytes row \<or> (at_SHA256 row \<noteq> [] \<and> \<not> equal_fold A (sr_SHA256 result) (at_SHA256 row))
                   then StatusRejected else if clean then StatusReady else StatusRejected),
          at_DetectedType := sr_DetectedType result, at_UpdatedAt := now,
          at_SHA256 := (if sr_SHA256 result \<noteq> [] then to_lower (ae_lower A) (sr_SHA256 result) else at_SHA256 x)\<rparr>"])
        (auto simp: CompleteScan_def call_defs in_quota_def quota_statuses_def Let_def)
  qed
next
  case (retry now i err r)
  show ?thesis
  proof (cases "find (\<lambda>r. at_ID r = i \<and> at_Status r = StatusScanning) (a_attachments db)")
    case None
    then show ?thesis using retry by (simp add: RetryScan_def call_defs row_change.kept)
  next
    case (Some row)
    have r: "row \<in> set (a_attachments db)" "at_ID row = i" "at_Status row = StatusScanning" using Some by (auto simp: find_Some_iff)
    have g: "get_attachment i db = Some row" using tbl_get_in [OF life_invD(2) [OF assms(2)] r(1)] r(2) by (simp add: get_attachment_def)
    have "a_attachments db' = a_attachments db \<or>
        a_attachments db' = tbl_upd (\<lambda>r. at_ID r = i) (\<lambda>x. x\<lparr>at_Status := StatusScanParked, at_UpdatedAt := now\<rparr>) (a_attachments db)"
      using retry Some r(2) by (auto simp: RetryScan_def call_defs split: option.split_asm if_split_asm)
    then show ?thesis
    proof
      assume "a_attachments db' = tbl_upd (\<lambda>r. at_ID r = i) (\<lambda>x. x\<lparr>at_Status := StatusScanParked, at_UpdatedAt := now\<rparr>) (a_attachments db)"
      then show ?thesis by (rule row_change_put [OF assms(2) g, rotated 4]) (simp_all add: in_quota_def quota_statuses_def r(3))
    qed (simp add: row_change.kept)
  qed
next
  case (trash now i owner r)
  show ?thesis
  proof (cases "owned_attachment i owner db")
    case None
    then show ?thesis using trash by (simp add: TrashAttachment_def call_defs row_change.kept)
  next
    case (Some row)
    note g = owned_get [OF life_invD(2) [OF assms(2)] Some]
    have "a_attachments db' = a_attachments db \<or> (at_Status row = StatusReady \<or> at_Status row = StatusRejected \<or> at_Status row = StatusScanParked) \<and>
        a_attachments db' = tbl_upd (\<lambda>r. at_ID r = i) (\<lambda>x. x\<lparr>at_Status := StatusTrashed, at_UpdatedAt := now\<rparr>) (a_attachments db)"
      using trash Some g by (auto simp: TrashAttachment_def call_defs split: if_split_asm)
    then show ?thesis
    proof
      assume t: "(at_Status row = StatusReady \<or> at_Status row = StatusRejected \<or> at_Status row = StatusScanParked) \<and>
        a_attachments db' = tbl_upd (\<lambda>r. at_ID r = i) (\<lambda>x. x\<lparr>at_Status := StatusTrashed, at_UpdatedAt := now\<rparr>) (a_attachments db)"
      then show ?thesis by (intro row_change_put [OF assms(2) g(1) _ _ _ _ conjunct2 [OF t]]) (auto simp: in_quota_def quota_statuses_def)
    qed (simp add: row_change.kept)
  qed
next
  case (restore now i owner r)
  then have "a_attachments db' = tbl_upd (\<lambda>r. at_ID r = i \<and> at_OwnerID r = owner \<and> at_Status r = StatusTrashed)
       (\<lambda>x. x\<lparr>at_Status := StatusReady, at_UpdatedAt := now\<rparr>) (a_attachments db)"
    by (auto simp: RestoreAttachment_def call_defs)
  then show ?thesis by (simp add: row_change.changed quiet_change_def in_quota_def quota_statuses_def)
next
  case (stage rq e c now r)
  then have "a_attachments db' = a_attachments db"
    using stage_implements [OF life_invD(1) [OF assms(2)] publicationCommand_valid, of A rq e c now] by (simp add: implements_def)
  then show ?thesis by (simp add: row_change.kept)
next
  case (finalize rq e c now r)
  then have "a_attachments db' = a_attachments db"
    using finalize_implements [OF life_invD(1) [OF assms(2)] publicationCommand_valid, of A rq e c now] by (simp add: implements_def)
  then show ?thesis by (simp add: row_change.kept)
next
  case (clear rq e c now r)
  then have "a_attachments db' = a_attachments db"
    using clear_implements [OF life_invD(1) [OF assms(2)] publicationCommand_valid, of A rq e c now] by (simp add: implements_def)
  then show ?thesis by (simp add: row_change.kept)
qed

lemma areach_sizes:
  assumes "areach A db"
  shows "\<forall>r \<in> set (a_attachments db). 0 \<le> at_SizeBytes r"
  using assms
proof induction
  case (step db db')
  from astep_rows [OF step(2) areach_life [OF step(1)]] show ?case
  proof cases
    case (changed p f)
    then show ?thesis using step.IH by (auto simp: quiet_change_def elim!: in_tbl_updE)
  qed (use step.IH in auto)
qed (simp add: empty_adb_def)



text \<open>The status guards have two gaps. An attachment that the scanner rejected becomes ready, without another
  scan, when its owner moves it to the trash and restores it; and a scan report that arrives late makes an
  attachment ready whatever its status is by then, also when it lies in the trash.\<close>

theorem rejected_attachment_revived:
  assumes "distinct (map at_ID (a_attachments db))" "get_attachment i db = Some row" "at_OwnerID row = owner"
    and "\<forall>f \<in> set (a_references db). rf_AttachmentID f \<noteq> i"
  shows "(at_Status row = StatusRejected \<longrightarrow>
      status_of (snd (RestoreAttachment t2 i owner (snd (TrashAttachment t1 i owner db)))) i = Some StatusReady)
    \<and> (sr_Size result = at_SizeBytes row \<and> at_SHA256 row = [] \<longrightarrow>
      status_of (snd (CompleteScan A t i result True db)) i = Some StatusReady)"
proof -
  have id: "at_ID row = i" using assms(2) by (rule get_attachment_ID)
  have own: "owned_attachment i owner db = Some row"
  proof -
    have "row \<in> set (a_attachments db)" using assms(2) unfolding get_attachment_def by (rule tbl_get_SomeD(1))
    then have "owned_attachment i owner db \<noteq> None" using id assms(3) by (auto simp: owned_attachment_def find_None_iff)
    then obtain r where "owned_attachment i owner db = Some r" by blast
    with owned_get(1) [OF assms(1) this] assms(2) show ?thesis by simp
  qed
  have "TrashAttachment t1 i owner db = (Inr (), a_attachments_update (tbl_upd (\<lambda>r. at_ID r = i) (\<lambda>x. x\<lparr>at_Status := StatusTrashed, at_UpdatedAt := t1\<rparr>)) db)"
    if "at_Status row = StatusRejected"
    using own id assms(4) that by (simp add: TrashAttachment_def call_defs)
  moreover have "status_of (snd (CompleteScan A t i result True db)) i = Some StatusReady" if "sr_Size result = at_SizeBytes row \<and> at_SHA256 row = []"
    using that assms(2) by (simp add: CompleteScan_def call_defs status_of_def get_attachment_def tbl_get_upd_key)
  ultimately show ?thesis
    using assms(2,3) by (auto simp: RestoreAttachment_def call_defs status_of_def get_attachment_def tbl_get_upd dest: tbl_get_SomeD(2))
qed

definition infected_adb :: adb where "infected_adb = snd (CompleteScan sample_aenv 3 ''att-1'' (clean_result\<lparr>sr_Clean := False\<rparr>) False scanning_adb)"

theorem rejected_attachment_revived_witness:
  "status_of infected_adb ''att-1'' = Some StatusRejected \<and>
   status_of (snd (RestoreAttachment 5 ''att-1'' 7 (snd (TrashAttachment 4 ''att-1'' 7 infected_adb)))) ''att-1'' = Some StatusReady"
proof -
  have d: "distinct (map at_ID (a_attachments infected_adb))" by code_simp
  have g: "map_option (\<lambda>r. (at_OwnerID r, at_Status r)) (get_attachment ''att-1'' infected_adb) = Some (7, StatusRejected)" by code_simp
  then obtain row where row: "get_attachment ''att-1'' infected_adb = Some row" "at_OwnerID row = 7" "at_Status row = StatusRejected" by auto
  have r: "\<forall>f \<in> set (a_references infected_adb). rf_AttachmentID f \<noteq> ''att-1''" by code_simp
  from rejected_attachment_revived [OF d row(1,2) r, of 5 4] row show ?thesis by (simp add: status_of_def)
qed

end
