(* ===== verification/KnowledgeWorker.thy ===== *)
theory KnowledgeWorker
  imports KnowledgeScenario "HOL-Library.Word"
begin

text \<open>
  The background worker (\<open>services/knowledge/internal/worker/worker.go\<close>, \<open>wake.go\<close>). A world holds the
  database, a clock tick that advances with every repository call, the pending wake mask, and the state
  of the services behind the interfaces \<open>PublicationReferences\<close>, \<open>Publisher\<close> and \<open>DocumentPurger\<close>, which
  are parameters. A Go error is a value of \<open>werr\<close>; unlike a transaction, an error keeps the
  effects made before it.
\<close>

unbundle bit_operations_syntax

section \<open>Worlds and services\<close>

datatype werr = WService string | WRepository kerr | WUnknownState string | WJoin werr werr

type_synonym WakeKind = "8 word"

record 'x world =
  w_db :: kdb
  w_tick :: nat
  w_pendingWake :: WakeKind
  w_services :: 'x

record 'x services =
  sv_Stage :: "PublicationReferenceJob \<Rightarrow> 'x \<Rightarrow> string option \<times> 'x"
  sv_Finalize :: "PublicationReferenceJob \<Rightarrow> 'x \<Rightarrow> string option \<times> 'x"
  sv_Clear :: "PublicationReferenceJob \<Rightarrow> 'x \<Rightarrow> string option \<times> 'x"
  sv_Publish :: "OutboxMessage \<Rightarrow> 'x \<Rightarrow> string option \<times> 'x"
  sv_PurgeDocument :: "string \<Rightarrow> 'x \<Rightarrow> string option \<times> 'x"
  sv_now :: "nat \<Rightarrow> time"
  sv_OperationTimeout :: duration

type_synonym ('a, 'x) work = "'x world \<Rightarrow> (werr + 'a) \<times> 'x world"

definition wret :: "'a \<Rightarrow> ('a, 'x) work" where
  "wret a w = (Inr a, w)"

definition wraise :: "werr \<Rightarrow> ('a, 'x) work" where
  "wraise e w = (Inl e, w)"

definition wbind :: "('a, 'x) work \<Rightarrow> ('a \<Rightarrow> ('b, 'x) work) \<Rightarrow> ('b, 'x) work" where
  "wbind m f w = (case m w of (Inl e, w') \<Rightarrow> (Inl e, w') | (Inr a, w') \<Rightarrow> f a w')"

definition wcatch :: "('a, 'x) work \<Rightarrow> (werr \<Rightarrow> ('a, 'x) work) \<Rightarrow> ('a, 'x) work" where
  "wcatch m h w = (case m w of (Inl e, w') \<Rightarrow> h e w' | (Inr a, w') \<Rightarrow> (Inr a, w'))"

text \<open>\<open>errors.Join\<close> of the error being handled with the error of the handler.\<close>

definition wjoin :: "werr \<Rightarrow> ('a, 'x) work \<Rightarrow> ('a, 'x) work" where
  "wjoin e m = wcatch m (\<lambda>e'. wraise (WJoin e e'))"

primrec witer :: "('a \<Rightarrow> (unit, 'x) work) \<Rightarrow> 'a list \<Rightarrow> (unit, 'x) work" where
  "witer f [] = wret ()"
| "witer f (x # xs) = wbind (f x) (\<lambda>_. witer f xs)"

definition wrepo :: "'x services \<Rightarrow> (time \<Rightarrow> kdb \<Rightarrow> (kerr + 'a) \<times> kdb) \<Rightarrow> ('a, 'x) work" where
  "wrepo S f w = (case f (sv_now S (w_tick w)) (w_db w) of (r, db') \<Rightarrow>
     (map_sum WRepository (\<lambda>a. a) r, w\<lparr>w_db := db', w_tick := Suc (w_tick w)\<rparr>))"

definition wservice :: "('x \<Rightarrow> string option \<times> 'x) \<Rightarrow> (unit, 'x) work" where
  "wservice f w = (case f (w_services w) of (r, x) \<Rightarrow>
     (case r of None \<Rightarrow> Inr () | Some e \<Rightarrow> Inl (WService e), w\<lparr>w_services := x\<rparr>))"

section \<open>Publication references\<close>

definition publish_steps :: "'x services \<Rightarrow> kenv \<Rightarrow> PublicationReferenceJob \<Rightarrow> (unit, 'x) work" where
  "publish_steps S E job =
     wbind (if prj_State job = publicationJobPending then
              wbind (wservice (sv_Stage S job)) (\<lambda>_.
              wbind (wrepo S (\<lambda>now. MarkPublicationReferencesStaged now (prj_ID job))) (\<lambda>_.
              wret publicationJobStaged))
            else wret (prj_State job)) (\<lambda>state1.
     wbind (if state1 = publicationJobStaged then
              wbind (wrepo S (\<lambda>now. PromotePublication E now (job\<lparr>prj_State := state1\<rparr>))) (\<lambda>_.
              wret publicationJobPromoted)
            else wret state1) (\<lambda>state2.
     if state2 = publicationJobPromoted then
       wbind (wservice (sv_Finalize S (job\<lparr>prj_State := state2\<rparr>))) (\<lambda>_.
       wrepo S (\<lambda>now. CompletePublicationReferenceJob E now (prj_ID job) False))
     else wraise (WUnknownState state2)))"

definition clear_steps :: "'x services \<Rightarrow> kenv \<Rightarrow> PublicationReferenceJob \<Rightarrow> (unit, 'x) work" where
  "clear_steps S E job =
     wbind (wservice (sv_Clear S job)) (\<lambda>_.
     wrepo S (\<lambda>now. CompletePublicationReferenceJob E now (prj_ID job) True))"

definition handlePublicationReferenceJob :: "'x services \<Rightarrow> kenv \<Rightarrow> PublicationReferenceJob \<Rightarrow> (unit, 'x) work" where
  "handlePublicationReferenceJob S E job =
     wcatch (if prj_Action job = publicationActionClear then clear_steps S E job else publish_steps S E job) (\<lambda>err.
       if prj_Attempts job \<ge> 8
       then wjoin err (wrepo S (\<lambda>now. ParkPublicationReferenceJob E now (prj_ID job)
              ''publication_reference_retry_exhausted'' (prj_Action job = publicationActionPublish)))
       else wjoin err (wrepo S (\<lambda>now. RetryPublicationReferenceJob now (prj_ID job)
              ''publication_reference_unavailable'' (prj_Attempts job))))"

definition processPublicationReferences :: "'x services \<Rightarrow> kenv \<Rightarrow> (unit, 'x) work" where
  "processPublicationReferences S E =
     wbind (wrepo S (\<lambda>now. ClaimPublicationReferenceJobs now 10 (sv_OperationTimeout S))) (\<lambda>jobs.
     witer (handlePublicationReferenceJob S E) jobs)"

section \<open>Outbox\<close>

definition boundedBackoff :: "int \<Rightarrow> duration" where
  "boundedBackoff attempt0 =
     (let attempt1 = (if attempt0 < 1 then 1 else attempt0);
          attempt = (if attempt1 > 8 then 8 else attempt1)
      in 2 ^ nat (attempt - 1) * second)"

definition publish_message :: "'x services \<Rightarrow> kenv \<Rightarrow> OutboxMessage \<Rightarrow> (unit, 'x) work" where
  "publish_message S E m =
     wbind (wcatch (wbind (wservice (sv_Publish S m)) (\<lambda>_. wret None)) (\<lambda>err. wret (Some err))) (\<lambda>failure.
     case failure of
       Some err \<Rightarrow>
         if om_Attempts m \<ge> 8
         then wjoin err (wrepo S (\<lambda>now. ParkOutbox now (om_ID m) ''publish_retry_exhausted''))
         else wjoin err (wrepo S (\<lambda>now. RetryOutbox now (om_ID m) (boundedBackoff (om_Attempts m))))
     | None \<Rightarrow> wrepo S (\<lambda>now. MarkOutboxPublished now (om_ID m)))"

definition processOutbox :: "'x services \<Rightarrow> kenv \<Rightarrow> (unit, 'x) work" where
  "processOutbox S E =
     wbind (wrepo S (\<lambda>now. ClaimOutbox E now 50 (sv_OperationTimeout S))) (\<lambda>messages.
     witer (publish_message S E) messages)"

section \<open>History and purge\<close>

primrec checkpoint_loop :: "nat \<Rightarrow> 'x services \<Rightarrow> kenv \<Rightarrow> (unit, 'x) work" where
  "checkpoint_loop 0 S E = wret ()"
| "checkpoint_loop (Suc n) S E =
     wbind (wrepo S (\<lambda>now. CreateDueHistoryCheckpoint E now)) (\<lambda>checkpoint.
     if checkpoint = None then wret () else checkpoint_loop n S E)"

definition processHistory :: "'x services \<Rightarrow> kenv \<Rightarrow> (unit, 'x) work" where
  "processHistory S E = wbind (checkpoint_loop 20 S E) (\<lambda>_. wrepo S (\<lambda>now. PruneHistory now))"

definition purge_candidate :: "'x services \<Rightarrow> kenv \<Rightarrow> string \<Rightarrow> (unit, 'x) work" where
  "purge_candidate S E docID =
     wbind (wrepo S (\<lambda>now db. (Inr (HasPendingPublicationReferenceClear docID db), db))) (\<lambda>pendingClear.
     if pendingClear then wrepo S (\<lambda>now. RedrivePublicationReferenceClear now docID)
     else wbind (wservice (sv_PurgeDocument S docID)) (\<lambda>_.
          wrepo S (\<lambda>now. PurgeDocument now docID)))"

definition processPurge :: "'x services \<Rightarrow> kenv \<Rightarrow> (unit, 'x) work" where
  "processPurge S E =
     wbind (wrepo S (\<lambda>now db. (Inr (ListPurgeCandidates now 20 db), db))) (\<lambda>candidates.
     wbind (witer (purge_candidate S E) candidates) (\<lambda>_.
     wrepo S (\<lambda>now. PurgeMaintenanceData now)))"

section \<open>Lanes and wake-ups\<close>

definition runBounded :: "(unit, 'x) work \<Rightarrow> 'x world \<Rightarrow> 'x world" where
  "runBounded run w = snd (run w)"

definition runOnce :: "'x services \<Rightarrow> kenv \<Rightarrow> 'x world \<Rightarrow> 'x world" where
  "runOnce S E w = runBounded (processPurge S E) (runBounded (processHistory S E)
     (runBounded (processPublicationReferences S E) (runBounded (processOutbox S E) w)))"

definition WakeOutbox :: WakeKind where "WakeOutbox = 1"

definition WakePublication :: WakeKind where "WakePublication = 2"

definition WakeAll :: WakeKind where "WakeAll = 4"

definition parseWakePayload :: "string \<Rightarrow> WakeKind" where
  "parseWakePayload payload =
     (if payload = WorkerWakePayloadOutbox then WakeOutbox
      else if payload = WorkerWakePayloadPublication then WakePublication else 0)"

definition queueWake :: "WakeKind \<Rightarrow> 'x world \<Rightarrow> 'x world" where
  "queueWake kind w = (if kind = 0 then w else w\<lparr>w_pendingWake := w_pendingWake w OR kind\<rparr>)"

definition drainWake :: "'x services \<Rightarrow> kenv \<Rightarrow> 'x world \<Rightarrow> 'x world" where
  "drainWake S E w0 =
     (let kind = w_pendingWake w0; w = w0\<lparr>w_pendingWake := 0\<rparr> in
      if kind = 0 then w
      else if kind AND WakeAll \<noteq> 0 \<or> kind AND (WakeOutbox OR WakePublication) = (WakeOutbox OR WakePublication)
      then runOnce S E w
      else let w1 = (if kind AND WakeOutbox \<noteq> 0 then runBounded (processOutbox S E) w else w)
           in if kind AND WakePublication \<noteq> 0 then runBounded (processPublicationReferences S E) w1 else w1)"

section \<open>The worker only takes repository steps\<close>

definition safe_work :: "kenv \<Rightarrow> ('a, 'x) work \<Rightarrow> bool" where
  "safe_work E m \<longleftrightarrow> (\<forall>w. kreach E (w_db w) \<longrightarrow> kreach E (w_db (snd (m w))))"

named_theorems safe_intros

lemma safe_wret [safe_intros]: "safe_work E (wret a)"
  by (simp add: safe_work_def wret_def)

lemma safe_wraise [safe_intros]: "safe_work E (wraise e)"
  by (simp add: safe_work_def wraise_def)

lemma safe_wbind [safe_intros]: "safe_work E m \<Longrightarrow> (\<And>a. safe_work E (f a)) \<Longrightarrow> safe_work E (wbind m f)"
  unfolding safe_work_def wbind_def by (auto split: prod.split sum.split; metis snd_conv)

lemma safe_wcatch [safe_intros]: "safe_work E m \<Longrightarrow> (\<And>e. safe_work E (h e)) \<Longrightarrow> safe_work E (wcatch m h)"
  unfolding safe_work_def wcatch_def by (auto split: prod.split sum.split; metis snd_conv)

lemma safe_wjoin [safe_intros]: "safe_work E m \<Longrightarrow> safe_work E (wjoin e m)"
  by (simp add: wjoin_def safe_intros)

lemma safe_witer [safe_intros]: "(\<And>x. safe_work E (f x)) \<Longrightarrow> safe_work E (witer f xs)"
  by (induction xs) (auto intro: safe_intros)

lemma safe_wservice [safe_intros]: "safe_work E (wservice f)"
  by (simp add: safe_work_def wservice_def split: prod.split)

lemma safe_wrepo:
  assumes "\<And>now db r db'. f now db = (r, db') \<Longrightarrow> kstep E db db' \<or> db' = db"
  shows "safe_work E (wrepo S f)"
  using assms by (auto simp: safe_work_def wrepo_def split: prod.split intro: kreach.step dest!: assms)

lemma safe_if [safe_intros]: "safe_work E m \<Longrightarrow> safe_work E n \<Longrightarrow> safe_work E (if b then m else n)"
  by simp

lemma safe_repo_calls [safe_intros]:
  "safe_work E (wrepo S (\<lambda>now. MarkPublicationReferencesStaged now jobID))"
  "safe_work E (wrepo S (\<lambda>now. PromotePublication E now job))"
  "safe_work E (wrepo S (\<lambda>now. CompletePublicationReferenceJob E now jobID clear))"
  "safe_work E (wrepo S (\<lambda>now. ParkPublicationReferenceJob E now jobID key publish))"
  "safe_work E (wrepo S (\<lambda>now. RetryPublicationReferenceJob now jobID key n))"
  "safe_work E (wrepo S (\<lambda>now. ClaimPublicationReferenceJobs now l d))"
  "safe_work E (wrepo S (\<lambda>now. ClaimOutbox E now l d))"
  "safe_work E (wrepo S (\<lambda>now. ParkOutbox now i k))"
  "safe_work E (wrepo S (\<lambda>now. RetryOutbox now i d))"
  "safe_work E (wrepo S (\<lambda>now. MarkOutboxPublished now i))"
  "safe_work E (wrepo S (\<lambda>now. CreateDueHistoryCheckpoint E now))"
  "safe_work E (wrepo S (\<lambda>now. PruneHistory now))"
  "safe_work E (wrepo S (\<lambda>now. RedrivePublicationReferenceClear now docID))"
  "safe_work E (wrepo S (\<lambda>now. PurgeDocument now docID))"
  "safe_work E (wrepo S (\<lambda>now. PurgeMaintenanceData now))"
  "safe_work E (wrepo S (\<lambda>now db. (Inr (g now db), db)))"
  by (rule safe_wrepo, force intro: kstep.intros)+

lemma safe_checkpoints: "safe_work E (checkpoint_loop n S E)"
  by (induction n) (auto intro!: safe_intros)

lemma safe_lanes:
  "safe_work E (processOutbox S E)" "safe_work E (processPublicationReferences S E)"
  "safe_work E (processHistory S E)" "safe_work E (processPurge S E)"
  unfolding processOutbox_def publish_message_def processPublicationReferences_def handlePublicationReferenceJob_def
    clear_steps_def publish_steps_def processHistory_def processPurge_def purge_candidate_def
  by (auto intro!: safe_intros safe_checkpoints split: option.split)

section \<open>A job is finished, retried or parked\<close>

definition open_job :: "string \<Rightarrow> kdb \<Rightarrow> bool" where
  "open_job jobID db \<longleftrightarrow> (\<exists>j. get_job jobID db = Some j \<and> j_ParkedAt j = None)"

lemma get_job_upd:
  assumes "t_jobs db' = tbl_upd p f (t_jobs db)" "\<And>j. j_ID (f j) = j_ID j"
  shows "get_job i db' = map_option (\<lambda>j. if p j then f j else j) (get_job i db)"
  using assms by (simp add: get_job_def tbl_get_upd)

lemma staged_open:
  assumes "MarkPublicationReferencesStaged now i db = (r, db')" "open_job i db"
  shows "r = Inr () \<and> open_job i db'"
proof -
  let ?f = "\<lambda>j. j\<lparr>j_State := publicationJobStaged, j_LastErrorKey := [], j_LeaseUntil := None, j_NextAttemptAt := now, j_UpdatedAt := now\<rparr>"
  let ?p = "\<lambda>j. j_ID j = i \<and> j_ParkedAt j = None"
  obtain j where j: "get_job i db = Some j" "j_ParkedAt j = None" using assms(2) by (auto simp: open_job_def)
  then have "j \<in> set (t_jobs db)" "j_ID j = i" unfolding get_job_def by (blast dest: tbl_get_SomeD)+
  then have "\<exists>x \<in> set (t_jobs db). ?p x" using j(2) by blast
  then have db': "db' = t_jobs_update (tbl_upd ?p ?f) db" and r: "r = Inr ()"
    using assms(1) unfolding MarkPublicationReferencesStaged_def updatePublicationJob_def
    by (auto simp: transaction_def tupdate1_def)
  have "get_job i db' = map_option (\<lambda>x. if ?p x then ?f x else x) (get_job i db)"
    unfolding db' by (rule get_job_upd) simp_all
  then show ?thesis using j r by (simp add: open_job_def)
qed

lemma promote_open:
  assumes "PromotePublication E now job db = (r, db')" "open_job i db"
  shows "open_job i db'"
proof (cases r)
  case (Inl e)
  then show ?thesis using assms failed_unchanged(13) by blast
next
  case (Inr u)
  then have "t_jobs db' = t_jobs db \<or> t_jobs db' = tbl_upd (\<lambda>j. j_ID j = prj_ID job) (promote_job now) (t_jobs db)"
    using PromotePublication_success [of E now job db u db'] assms(1) by (auto simp: promoted_def core_def)
  moreover have "j_ID (promote_job now j) = j_ID j" for j by (simp add: promote_job_def)
  ultimately have "get_job i db' = get_job i db \<or>
      get_job i db' = map_option (\<lambda>j. if j_ID j = prj_ID job then promote_job now j else j) (get_job i db)"
    using get_job_upd [where f = "promote_job now"] by (auto simp: get_job_def)
  then show ?thesis using assms(2) by (auto simp: open_job_def promote_job_def)
qed

lemma complete_open:
  assumes "CompletePublicationReferenceJob E now i clear db = (r, db')" "open_job i db"
  shows "case r of Inl _ \<Rightarrow> open_job i db' | Inr _ \<Rightarrow> get_job i db' = None"
proof (cases r)
  case (Inl e)
  then have "db' = db" using assms(1) failed_unchanged(14) by blast
  then show ?thesis using Inl assms(2) by simp
next
  case (Inr u)
  have "t_jobs db' = tbl_del (\<lambda>x. j_ID x = i) (t_jobs db)"
    by (rule CompletePublicationReferenceJob_success [OF assms(1) [unfolded Inr]]) (simp add: core_def split: if_split_asm)
  then show ?thesis using Inr by (simp add: get_job_def tbl_get_del_hit)
qed

text \<open>Triples over the database: the outcome of a successful and of a failed run.\<close>

definition wtriple :: "(kdb \<Rightarrow> bool) \<Rightarrow> ('a, 'x) work \<Rightarrow> ('a \<Rightarrow> kdb \<Rightarrow> bool) \<Rightarrow> (kdb \<Rightarrow> bool) \<Rightarrow> bool" where
  "wtriple P m Q R \<longleftrightarrow> (\<forall>w. P (w_db w) \<longrightarrow>
     (case m w of (Inl e, w') \<Rightarrow> R (w_db w') | (Inr a, w') \<Rightarrow> Q a (w_db w')))"

lemma wtriple_bind:
  fixes m :: "('a, 'x) work"
  assumes "wtriple P m Q R" "\<And>a. wtriple (Q a) (f a) Q' R"
  shows "wtriple P (wbind m f) Q' R"
  unfolding wtriple_def
proof (intro allI impI)
  fix w :: "'x world" assume "P (w_db w)"
  then have "case m w of (Inl e, w') \<Rightarrow> R (w_db w') | (Inr a, w') \<Rightarrow> Q a (w_db w')"
    using assms(1) by (simp add: wtriple_def)
  then show "case wbind m f w of (Inl e, w') \<Rightarrow> R (w_db w') | (Inr a, w') \<Rightarrow> Q' a (w_db w')"
    using assms(2) by (cases "m w"; cases "fst (m w)") (auto simp: wtriple_def wbind_def)
qed

lemma wtriple_ret: "(\<And>db. P db \<Longrightarrow> Q a db) \<Longrightarrow> wtriple P (wret a) Q R"
  by (simp add: wtriple_def wret_def)

lemma wtriple_raise: "(\<And>db. P db \<Longrightarrow> R db) \<Longrightarrow> wtriple P (wraise e) Q R"
  by (simp add: wtriple_def wraise_def)

lemma wtriple_if: "(b \<Longrightarrow> wtriple P m Q R) \<Longrightarrow> (\<not> b \<Longrightarrow> wtriple P n Q R) \<Longrightarrow> wtriple P (if b then m else n) Q R"
  by simp

lemma wtriple_service: "wtriple P (wservice f) (\<lambda>_. P) P"
  by (simp add: wtriple_def wservice_def split: prod.split option.split)

lemma wtriple_repo:
  fixes S :: "'x services"
  assumes "\<And>now db r db'. P db \<Longrightarrow> f now db = (r, db') \<Longrightarrow> case r of Inl e \<Rightarrow> R db' | Inr a \<Rightarrow> Q a db'"
  shows "wtriple P (wrepo S f) Q R"
  unfolding wtriple_def
proof (intro allI impI)
  fix w :: "'x world" assume p: "P (w_db w)"
  obtain r db' where f: "f (sv_now S (w_tick w)) (w_db w) = (r, db')" by fastforce
  from assms [OF p f] show "case wrepo S f w of (Inl e, w') \<Rightarrow> R (w_db w') | (Inr a, w') \<Rightarrow> Q a (w_db w')"
    by (cases r) (simp_all add: wrepo_def f)
qed

definition live_job :: "kenv \<Rightarrow> string \<Rightarrow> kdb \<Rightarrow> bool" where
  "live_job E i db \<longleftrightarrow> kreach E db \<and> open_job i db"

lemma live_staged: "wtriple (live_job E i) (wrepo S (\<lambda>now. MarkPublicationReferencesStaged now i)) (\<lambda>_. live_job E i) (live_job E i)"
  by (rule wtriple_repo) (auto simp: live_job_def split: sum.split dest: staged_open intro: kreach.step kstep.stage)

lemma live_promote: "wtriple (live_job E i) (wrepo S (\<lambda>now. PromotePublication E now job)) (\<lambda>_. live_job E i) (live_job E i)"
  by (rule wtriple_repo) (auto simp: live_job_def split: sum.split dest: promote_open intro: kreach.step kstep.promote)

lemma live_complete: "wtriple (live_job E i) (wrepo S (\<lambda>now. CompletePublicationReferenceJob E now i clear))
    (\<lambda>_ db. get_job i db = None) (live_job E i)"
  by (rule wtriple_repo) (auto simp: live_job_def split: sum.split dest: complete_open intro: kreach.step kstep.complete)

lemma publish_steps_triple: "wtriple (live_job E (prj_ID job)) (publish_steps S E job) (\<lambda>_ db. get_job (prj_ID job) db = None) (live_job E (prj_ID job))"
  unfolding publish_steps_def
proof (rule wtriple_bind [where Q = "\<lambda>_. live_job E (prj_ID job)"], goal_cases)
  case 1
  show ?case
    by (intro wtriple_if wtriple_bind [OF wtriple_service] wtriple_bind [OF live_staged] wtriple_ret)
next
  case (2 state1)
  show ?case
  proof (rule wtriple_bind [where Q = "\<lambda>_. live_job E (prj_ID job)"], goal_cases)
    case 1
    show ?case by (intro wtriple_if wtriple_bind [OF live_promote] wtriple_ret)
  next
    case (2 state2)
    show ?case by (intro wtriple_if wtriple_bind [OF wtriple_service] live_complete wtriple_raise)
  qed
qed

lemma clear_steps_triple: "wtriple (live_job E (prj_ID job)) (clear_steps S E job) (\<lambda>_ db. get_job (prj_ID job) db = None) (live_job E (prj_ID job))"
  unfolding clear_steps_def by (rule wtriple_bind [OF wtriple_service live_complete])

lemma documents_check_upd:
  assumes "documents_check E rows" "\<And>d. d_Slug (f d) = d_Slug d" "\<And>d. deletion_check d \<Longrightarrow> deletion_check (f d)"
  shows "documents_check E (tbl_upd p f rows)"
proof -
  have "map (\<lambda>d. to_lower (ke_lower E) (d_Slug d)) (tbl_upd p f rows) = map (\<lambda>d. to_lower (ke_lower E) (d_Slug d)) rows"
    using assms(2) by (intro map_key_upd) simp
  then show ?thesis using assms(1,3) by (auto simp: documents_check_def elim!: in_tbl_updE)
qed

lemma park_outcome:
  assumes "live_job E i db"
  shows "\<exists>db' j'. ParkPublicationReferenceJob E now i key publish db = (Inr (), db') \<and> get_job i db' = Some j'
     \<and> j_ParkedAt j' = Some now \<and> j_LastErrorKey j' = key"
proof -
  obtain j where j: "get_job i db = Some j" using assms by (auto simp: live_job_def open_job_def)
  have c: "documents_check E (t_documents db)"
    using assms saga_invD(1) [OF kreach_inv] by (simp add: live_job_def)
  let ?f = "\<lambda>d. if d_PublicationGeneration d = j_Generation j then d\<lparr>d_PublicationStatus := if publish then PublicationPublishFailed else PublicationUnpublishFailed,
       d_PublicationError := Some key, d_UpdatedAt := now\<rparr> else d"
  let ?s = "t_jobs_update (tbl_upd (\<lambda>j. j_ID j = i) (\<lambda>j. j\<lparr>j_ParkedAt := Some now, j_LeaseUntil := None, j_LastErrorKey := key, j_UpdatedAt := now\<rparr>)) db"
  have "documents_check E (tbl_upd (\<lambda>d. d_ID d = j_DocumentID j) ?f (t_documents db))"
    by (rule documents_check_upd [OF c]) (auto simp: deletion_check_def)
  then have "ParkPublicationReferenceJob E now i key publish db = (Inr (), ?s\<lparr>t_documents := tbl_upd (\<lambda>d. d_ID d = j_DocumentID j) ?f (t_documents db)\<rparr>)"
    unfolding ParkPublicationReferenceJob_def put_generation_def by (simp add: transaction_Inr tbind_Inr tsome_iff twrite_iff put_document_Inr j)
  moreover have "j_ID j = i" using j unfolding get_job_def by (blast dest: tbl_get_SomeD)
  ultimately show ?thesis using j by (simp add: get_job_def tbl_get_upd)
qed

lemma retry_outcome:
  assumes "live_job E i db"
  shows "\<exists>db' j'. RetryPublicationReferenceJob now i key n db = (Inr (), db') \<and> get_job i db' = Some j'
     \<and> j_ParkedAt j' = None \<and> j_LeaseUntil j' = None \<and> j_NextAttemptAt j' = now + publicationRetryDelay n"
proof -
  obtain j where j: "get_job i db = Some j" "j_ParkedAt j = None" using assms by (auto simp: live_job_def open_job_def)
  moreover from this have "j_ID j = i" unfolding get_job_def by (blast dest: tbl_get_SomeD)
  ultimately show ?thesis
    unfolding RetryPublicationReferenceJob_def by (auto simp: transaction_def twrite_def get_job_def tbl_get_upd)
qed

lemma wjoin_repo_ok:
  assumes "f (sv_now S (w_tick w)) (w_db w) = (Inr (), db')"
  shows "wjoin e (wrepo S f) w = (Inr (), w\<lparr>w_db := db', w_tick := Suc (w_tick w)\<rparr>)"
  by (simp add: wjoin_def wcatch_def wrepo_def assms)

lemma wbind_Inr: "wbind m f w = (Inr b, w') \<longleftrightarrow> (\<exists>a w1. m w = (Inr a, w1) \<and> f a w1 = (Inr b, w'))"
  by (auto simp: wbind_def split: prod.split sum.split)

lemma wservice_Inr: "wservice f w = (Inr u, w') \<Longrightarrow> fst (f (w_services w)) = None"
  by (auto simp: wservice_def split: prod.splits option.splits)

text \<open>The attachment service accepted the last call of a job.\<close>

definition acknowledged :: "'x services \<Rightarrow> PublicationReferenceJob \<Rightarrow> bool" where
  "acknowledged S job \<longleftrightarrow> (\<exists>x. fst ((if prj_Action job = publicationActionClear then sv_Clear S job
     else sv_Finalize S (job\<lparr>prj_State := publicationJobPromoted\<rparr>)) x) = None)"

lemma steps_acknowledged:
  assumes "(if prj_Action job = publicationActionClear then clear_steps S E job else publish_steps S E job) w = (Inr u, w')"
  shows "acknowledged S job"
proof (cases "prj_Action job = publicationActionClear")
  case True
  then show ?thesis
    using assms by (auto simp: acknowledged_def clear_steps_def wbind_Inr dest!: wservice_Inr)
next
  case False
  from assms False obtain state2 w1 where
    "(if state2 = publicationJobPromoted then wbind (wservice (sv_Finalize S (job\<lparr>prj_State := state2\<rparr>))) (\<lambda>_.
        wrepo S (\<lambda>now. CompletePublicationReferenceJob E now (prj_ID job) False))
      else wraise (WUnknownState state2)) w1 = (Inr u, w')"
    unfolding publish_steps_def by (auto simp: wbind_Inr)
  then have "state2 = publicationJobPromoted" "\<exists>w2. wservice (sv_Finalize S (job\<lparr>prj_State := state2\<rparr>)) w1 = (Inr (), w2)"
    by (auto simp: wbind_Inr wraise_def split: if_split_asm)
  then show ?thesis using False by (auto simp: acknowledged_def dest!: wservice_Inr)
qed

definition sample_services :: "unit services" where
  "sample_services = \<lparr>sv_Stage = (\<lambda>_ x. (None, x)), sv_Finalize = (\<lambda>_ x. (None, x)), sv_Clear = (\<lambda>_ x. (None, x)),
     sv_Publish = (\<lambda>_ x. (None, x)), sv_PurgeDocument = (\<lambda>_ x. (None, x)), sv_now = (\<lambda>n. 1000 + int n),
     sv_OperationTimeout = 30 * second\<rparr>"

definition sample_world :: "unit world" where
  "sample_world = \<lparr>w_db = submitted_db, w_tick = 0, w_pendingWake = 0, w_services = ()\<rparr>"

lemma queue_pending: "w_pendingWake (queueWake k w) = w_pendingWake w OR k"
  by (simp add: queueWake_def)

lemma queue_frame: "(queueWake k w)\<lparr>w_pendingWake := p\<rparr> = w\<lparr>w_pendingWake := p\<rparr>"
  by (simp add: queueWake_def)

lemma queue_all_frame: "(fold queueWake ks w)\<lparr>w_pendingWake := p\<rparr> = w\<lparr>w_pendingWake := p\<rparr>"
  by (induction ks arbitrary: w) (simp_all add: queue_frame)

lemma queue_all_bit: "bit (w_pendingWake (fold queueWake ks w)) n \<longleftrightarrow> bit (w_pendingWake w) n \<or> (\<exists>k \<in> set ks. bit k n)"
  by (induction ks arbitrary: w) (auto simp: queue_pending bit_or_iff)

lemma wake_masks:
  fixes k :: WakeKind
  shows "k AND 1 \<noteq> 0 \<longleftrightarrow> bit k 0" "k AND 2 \<noteq> 0 \<longleftrightarrow> bit k 1" "k AND 4 \<noteq> 0 \<longleftrightarrow> bit k 2"
    "k AND (1 OR 2) = 1 OR 2 \<longleftrightarrow> bit k 0 \<and> bit k 1"
proof -
  show "k AND 1 \<noteq> 0 \<longleftrightarrow> bit k 0" "k AND 2 \<noteq> 0 \<longleftrightarrow> bit k 1" "k AND 4 \<noteq> 0 \<longleftrightarrow> bit k 2"
    using and_exp_eq_0_iff_not_bit [of k 0] and_exp_eq_0_iff_not_bit [of k 1] and_exp_eq_0_iff_not_bit [of k 2] by simp_all
  have "bit (2 :: WakeKind) n \<longleftrightarrow> n = 1" "bit (1 :: WakeKind) n \<longleftrightarrow> n = 0" for n
    using bit_exp_iff [where 'a = "8 word", of 1 n] by (auto simp: bit_1_iff possible_bit_word)
  then have b: "bit (1 OR 2 :: WakeKind) n \<longleftrightarrow> n = 0 \<or> n = 1" for n
    unfolding bit_or_iff by blast
  show "k AND (1 OR 2) = 1 OR 2 \<longleftrightarrow> bit k 0 \<and> bit k 1"
  proof
    assume "k AND (1 OR 2) = 1 OR 2"
    then have "bit (k AND (1 OR 2)) n = bit (1 OR 2 :: WakeKind) n" for n by simp
    from this [of 0] this [of 1] show "bit k 0 \<and> bit k 1" unfolding bit_and_iff b by simp
  next
    assume "bit k 0 \<and> bit k 1"
    then show "k AND (1 OR 2) = 1 OR 2" by (intro bit_word_eqI) (auto simp only: bit_and_iff b)
  qed
qed

lemma wake_kind_bits:
  assumes "set ks \<subseteq> {0, WakeOutbox, WakePublication, WakeAll}"
  shows "(\<exists>k \<in> set ks. bit k 0) \<longleftrightarrow> WakeOutbox \<in> set ks" "(\<exists>k \<in> set ks. bit k 1) \<longleftrightarrow> WakePublication \<in> set ks"
    "(\<exists>k \<in> set ks. bit k 2) \<longleftrightarrow> WakeAll \<in> set ks"
proof -
  have b: "bit WakeOutbox 0" "\<not> bit WakeOutbox 1" "\<not> bit WakeOutbox 2" "\<not> bit WakePublication 0" "bit WakePublication 1"
    "\<not> bit WakePublication 2" "\<not> bit WakeAll 0" "\<not> bit WakeAll 1" "bit WakeAll 2"
    by (simp_all add: WakeOutbox_def WakePublication_def WakeAll_def)
  show "(\<exists>k \<in> set ks. bit k 0) \<longleftrightarrow> WakeOutbox \<in> set ks" "(\<exists>k \<in> set ks. bit k 1) \<longleftrightarrow> WakePublication \<in> set ks"
    "(\<exists>k \<in> set ks. bit k 2) \<longleftrightarrow> WakeAll \<in> set ks"
    using assms b by auto
qed

definition clearing_world :: "unit world" where
  "clearing_world = sample_world\<lparr>w_db := snd (SoftDeleteDocument sample_env 500 ''doc-1'' 7 2 published_db)\<rparr>"

text \<open>Both delays depend on the attempt clamped to one up to eight.\<close>

lemma delay_clamped:
  "publicationRetryDelay n = publicationRetryDelay (max 1 (min 8 n))" "boundedBackoff n = boundedBackoff (max 1 (min 8 n))"
  by (auto simp: publicationRetryDelay_def boundedBackoff_def Let_def)

lemma attempt_cases:
  fixes n :: int
  shows "max 1 (min 8 n) \<in> {1, 2, 3, 4, 5, 6, 7, 8}"
proof -
  have "1 \<le> max 1 (min 8 n)" "max 1 (min 8 n) \<le> 8" by simp_all
  then show ?thesis by (simp only: insert_iff empty_iff) linarith
qed

lemma delay_table:
  "publicationRetryDelay 1 = 1919 * millisecond" "publicationRetryDelay 2 = 2838 * millisecond" "publicationRetryDelay 3 = 4757 * millisecond" "publicationRetryDelay 4 = 8676 * millisecond" "publicationRetryDelay 5 = 16595 * millisecond" "publicationRetryDelay 6 = 32514 * millisecond" "publicationRetryDelay 7 = 64433 * millisecond" "publicationRetryDelay 8 = 128352 * millisecond"
  "boundedBackoff 1 = 1000 * millisecond" "boundedBackoff 2 = 2000 * millisecond" "boundedBackoff 3 = 4000 * millisecond" "boundedBackoff 4 = 8000 * millisecond" "boundedBackoff 5 = 16000 * millisecond" "boundedBackoff 6 = 32000 * millisecond" "boundedBackoff 7 = 64000 * millisecond" "boundedBackoff 8 = 128000 * millisecond"
  by (simp_all add: publicationRetryDelay_def boundedBackoff_def Let_def second_def)

lemma delay_values:
  assumes "n \<in> {1, 2, 3, 4, 5, 6, 7, 8}"
  shows "second \<le> boundedBackoff n \<and> boundedBackoff n \<le> publicationRetryDelay n
    \<and> publicationRetryDelay n < boundedBackoff n + second \<and> boundedBackoff n \<le> 128 * second"
  using assms unfolding insert_iff empty_iff
  by (elim disjE) (simp_all add: delay_table second_def millisecond_def)

lemma delay_mono:
  assumes "m \<in> {1, 2, 3, 4, 5, 6, 7, 8}" "n \<in> {1, 2, 3, 4, 5, 6, 7, 8}" "m \<le> n"
  shows "publicationRetryDelay m \<le> publicationRetryDelay n"
  using assms unfolding insert_iff empty_iff
  by (elim disjE) (simp_all add: delay_table millisecond_def)

section \<open>Properties\<close>



text \<open>A run of the worker, over all its lanes or over the lanes a wake-up asks for, takes only repository
  steps: from a reachable database it ends in a reachable one, whatever the services answer and
  wherever a lane stops.\<close>

theorem worker_reachable:
  assumes "kreach E (w_db w)"
  shows "kreach E (w_db (runOnce S E w)) \<and> kreach E (w_db (drainWake S E w))"
proof -
  have lane: "kreach E (w_db (runBounded m w))" if "safe_work E m" "kreach E (w_db w)" for m and w :: "'a world"
    using that by (simp add: safe_work_def runBounded_def)
  have once: "kreach E (w_db (runOnce S E w))" if "kreach E (w_db w)" for w
    unfolding runOnce_def by (intro lane safe_lanes that)
  have "kreach E (w_db (drainWake S E w))"
    using assms by (simp add: drainWake_def Let_def once lane safe_lanes)
  with once assms show ?thesis by blast
qed

theorem worker_reachable_witness: "kreach sample_env (w_db (runOnce sample_services sample_env sample_world))"
  using worker_reachable [of sample_env sample_world sample_services] by (simp add: sample_world_def)

text \<open>Wake-ups coalesce without loss. However many hints of whatever kinds arrive before a drain, the
  drain runs exactly the lanes asked for: every lane once for a full wake-up or when both kinds are
  pending, otherwise the outbox lane or the publication lane alone; and it leaves no hint pending.\<close>

theorem wake_hints_coalesce:
  assumes "set ks \<subseteq> {0, WakeOutbox, WakePublication, WakeAll}" "w_pendingWake w = 0"
  shows "drainWake S E (fold queueWake ks w) =
    (if WakeAll \<in> set ks \<or> {WakeOutbox, WakePublication} \<subseteq> set ks then runOnce S E w
     else if WakeOutbox \<in> set ks then runBounded (processOutbox S E) w
     else if WakePublication \<in> set ks then runBounded (processPublicationReferences S E) w
     else w)"
proof -
  let ?k = "w_pendingWake (fold queueWake ks w)"
  have w: "w\<lparr>w_pendingWake := 0\<rparr> = w" using assms(2) by (cases w) simp
  have b: "bit ?k 0 \<longleftrightarrow> WakeOutbox \<in> set ks" "bit ?k 1 \<longleftrightarrow> WakePublication \<in> set ks" "bit ?k 2 \<longleftrightarrow> WakeAll \<in> set ks"
    using wake_kind_bits [OF assms(1)] assms(2) by (simp_all add: queue_all_bit)
  have z: "?k = 0" if "WakeOutbox \<notin> set ks" "WakePublication \<notin> set ks" "WakeAll \<notin> set ks"
  proof -
    have "\<forall>k \<in> set ks. k = 0" using that assms(1) by auto
    then have "\<not> bit ?k n" for n using assms(2) by (auto simp: queue_all_bit)
    then show ?thesis by (intro bit_word_eqI) simp
  qed
  have "drainWake S E (fold queueWake ks w) =
      (if ?k = 0 then w
       else if bit ?k 2 \<or> bit ?k 0 \<and> bit ?k 1 then runOnce S E w
       else let w1 = (if bit ?k 0 then runBounded (processOutbox S E) w else w)
            in if bit ?k 1 then runBounded (processPublicationReferences S E) w1 else w1)"
    unfolding drainWake_def Let_def queue_all_frame w WakeOutbox_def WakePublication_def WakeAll_def wake_masks by (rule refl)
  moreover have "\<not> bit (0 :: WakeKind) n" for n by simp
  ultimately show ?thesis using b z by (auto simp: Let_def)
qed

theorem wake_hints_coalesce_witness:
  "drainWake sample_services sample_env (fold queueWake [WakePublication, WakePublication] sample_world) =
     runBounded (processPublicationReferences sample_services sample_env) sample_world"
  using wake_hints_coalesce [of "[WakePublication, WakePublication]" sample_world sample_services sample_env]
  by (simp add: sample_world_def WakeOutbox_def WakePublication_def WakeAll_def)



text \<open>The delays of the worker are bounded: for every attempt number, even out of range, the outbox
  back-off is between one second and 128 seconds, the publication retry adds less than a second of
  spread to it, and a later attempt never waits less than an earlier one.\<close>

theorem retry_delays_bounded:
  "second \<le> boundedBackoff n \<and> boundedBackoff n \<le> publicationRetryDelay n
    \<and> publicationRetryDelay n < boundedBackoff n + second \<and> boundedBackoff n \<le> 128 * second
    \<and> publicationRetryDelay n \<le> publicationRetryDelay (n + int k)"
proof -
  have "publicationRetryDelay (max 1 (min 8 n)) \<le> publicationRetryDelay (max 1 (min 8 (n + int k)))"
    by (rule delay_mono [OF attempt_cases attempt_cases]) simp
  then show ?thesis using delay_values [OF attempt_cases, of n] delay_clamped by metis
qed

end
