(* ===== verification/MediaConsistency.thy ===== *)
theory MediaConsistency
  imports AttachmentLifecycle KnowledgeWorker
begin

text \<open>
  The two databases of a publication together. The knowledge service decides which attachments a published
  document shows, the attachment service which attachments it hands out; the background worker carries the
  decision from one to the other, step by step, while users publish, withdraw and delete. Shown here: at
  every moment, the attachments of a document that is published are handed out by the attachment service.
\<close>

section \<open>Tickets\<close>

text \<open>What a job stands for, apart from its progress: a ticket. Tickets outlive the rows they come from, because a
  worker may hold a job that was superseded in the meantime.\<close>

datatype ticket = Ticket (tk_ID: string) (tk_Doc: string) (tk_Gen: int) (tk_Action: string) (tk_Ids: "string list")

definition row_ticket :: "job_row \<Rightarrow> ticket" where
  "row_ticket j = Ticket (j_ID j) (j_DocumentID j) (j_Generation j) (j_Action j) (j_AttachmentIDs j)"

definition job_ticket :: "PublicationReferenceJob \<Rightarrow> ticket" where
  "job_ticket p = Ticket (prj_ID p) (prj_DocumentID p) (prj_Generation p) (prj_Action p) (prj_AttachmentIDs p)"

definition tickets :: "kdb \<Rightarrow> ticket set" where
  "tickets db = set (map row_ticket (t_jobs db))"

definition progressed :: "kdb \<Rightarrow> ticket set" where
  "progressed db = set (map row_ticket (filter (\<lambda>j. j_State j = publicationJobStaged \<or> j_State j = publicationJobPromoted) (t_jobs db)))"

definition media_of :: "kdb \<Rightarrow> string \<Rightarrow> string set" where
  "media_of db docID = set (map mr_AttachmentID (filter (\<lambda>r. mr_DocumentID r = docID) (t_media_refs db)))"

lemma row_ticket_simps [simp]:
  "tk_ID (row_ticket j) = j_ID j" "tk_Doc (row_ticket j) = j_DocumentID j" "tk_Gen (row_ticket j) = j_Generation j"
  "tk_Action (row_ticket j) = j_Action j" "tk_Ids (row_ticket j) = j_AttachmentIDs j"
  by (simp_all add: row_ticket_def)

lemma job_ticket_simps [simp]:
  "tk_ID (job_ticket j) = prj_ID j" "tk_Doc (job_ticket j) = prj_DocumentID j" "tk_Gen (job_ticket j) = prj_Generation j"
  "tk_Action (job_ticket j) = prj_Action j" "tk_Ids (job_ticket j) = prj_AttachmentIDs j"
  by (simp_all add: job_ticket_def)

lemma progressed_tickets: "progressed db \<subseteq> tickets db"
  by (auto simp: progressed_def tickets_def)

section \<open>What a repository call does to tickets, generations and media\<close>

definition settled :: "string \<Rightarrow> bool" where
  "settled st \<longleftrightarrow> st \<noteq> PublicationPublishing \<and> st \<noteq> PublicationPublished"

inductive move :: "(int \<times> string) option \<Rightarrow> (int \<times> string) option \<Rightarrow> bool" where
  stay: "move x x"
| gone: "move x None"
| born: "settled st \<Longrightarrow> move None (Some (0, st))"
| raised: "st' = PublicationPublishing \<or> settled st' \<Longrightarrow> move (Some (g, st)) (Some (g + 1, st'))"
| settle: "settled st' \<Longrightarrow> move (Some (g, st)) (Some (g, st'))"

definition issued :: "kdb \<Rightarrow> kdb \<Rightarrow> ticket \<Rightarrow> bool" where
  "issued db db' t \<longleftrightarrow> (\<exists>g st st'. pub_state (t_documents db) (tk_Doc t) = Some (g, st) \<and> tk_Gen t = g + 1
     \<and> pub_state (t_documents db') (tk_Doc t) = Some (g + 1, st')
     \<and> (tk_Action t = publicationActionPublish \<and> st' = PublicationPublishing \<or> tk_Action t = publicationActionClear \<and> settled st'))"

definition tame :: "kdb \<Rightarrow> kdb \<Rightarrow> bool" where
  "tame db db' \<longleftrightarrow> (\<forall>d. move (pub_state (t_documents db) d) (pub_state (t_documents db') d))
     \<and> (\<forall>d. media_of db' d \<subseteq> media_of db d)
     \<and> (\<exists>t. issued db db' t \<and> tickets db' \<subseteq> insert t (tickets db) \<or> tickets db' \<subseteq> tickets db)"

lemma tame_view: "saga_view db' = saga_view s \<Longrightarrow> tame db s \<Longrightarrow> tame db db'"
  by (simp add: tame_def issued_def saga_view_def tickets_def media_of_def)

lemma tameI:
  assumes "\<And>d. move (pub_state (t_documents db) d) (pub_state (t_documents db') d)" "\<And>d. media_of db' d \<subseteq> media_of db d"
    "tickets db' \<subseteq> tickets db"
  shows "tame db db'"
  using assms by (auto simp: tame_def)

lemma pub_state_put:
  assumes "\<And>d. d_ID (f d) = d_ID d" "\<And>d. move (Some (d_PublicationGeneration d, d_PublicationStatus d)) (Some (d_PublicationGeneration (f d), d_PublicationStatus (f d)))"
  shows "move (pub_state docs d) (pub_state (tbl_upd (\<lambda>x. d_ID x = k) f docs) d)"
  using assms by (cases "tbl_get d_ID d docs") (auto simp: pub_state_upd pub_state_def intro: move.stay)

lemma media_of_del: "set (filter q rows') \<subseteq> set (filter q rows) \<Longrightarrow> t_media_refs db' = rows' \<Longrightarrow> t_media_refs db = rows \<Longrightarrow>
    q = (\<lambda>r. mr_DocumentID r = d) \<Longrightarrow> media_of db' d \<subseteq> media_of db d"
  unfolding media_of_def set_map by (metis image_mono)

lemma tbl_del_media: "t_media_refs db' = tbl_del p (t_media_refs db) \<Longrightarrow> media_of db' d \<subseteq> media_of db d"
  by (rule media_of_del [OF _ _ refl refl, of _ "tbl_del p (t_media_refs db)"]) (auto simp: tbl_del_def)

lemma tickets_del: "t_jobs db' = tbl_del p (t_jobs db) \<Longrightarrow> tickets db' \<subseteq> tickets db"
  unfolding tickets_def set_map by (simp add: tbl_del_def image_mono)

lemma tickets_upd:
  assumes "t_jobs db' = tbl_upd p f (t_jobs db)" "\<And>j. row_ticket (f j) = row_ticket j"
  shows "tickets db' = tickets db"
  using map_key_upd [where key = row_ticket and f = f, OF assms(2)] by (simp add: tickets_def assms(1) del: set_map)

lemma cleared_tame:
  assumes cleared: "saga_view db' = saga_view (db\<lparr>
      t_documents := tbl_upd (\<lambda>d. d_ID d = docID) (at_generation g (cleared_row now)) (t_documents db),
      t_media_refs := tbl_del (\<lambda>r. mr_DocumentID r = docID \<and> mr_Generation r = g) (t_media_refs db),
      t_jobs := tbl_del p (t_jobs db)\<rparr>)"
  shows "tame db db'"
proof -
  have "move (Some (d_PublicationGeneration d, d_PublicationStatus d))
      (Some (d_PublicationGeneration (at_generation g (cleared_row now) d), d_PublicationStatus (at_generation g (cleared_row now) d)))" for d
    by (auto simp: at_generation_def cleared_row_def settled_def intro: move.intros)
  moreover have "d_ID (at_generation g (cleared_row now) d) = d_ID d" for d by (simp add: at_generation_def cleared_row_def)
  ultimately have "move (pub_state docs x) (pub_state (tbl_upd (\<lambda>d. d_ID d = docID) (at_generation g (cleared_row now)) docs) x)" for docs x
    by (intro pub_state_put)
  then show ?thesis
    by (intro tame_view [OF cleared] tameI tbl_del_media [where p = "\<lambda>r. mr_DocumentID r = docID \<and> mr_Generation r = g"] tickets_del [where p = p])
      simp_all
qed

lemma failed_tame:
  assumes failed: "saga_view db' = saga_view (db\<lparr>
      t_documents := tbl_upd (\<lambda>d. d_ID d = docID) (at_generation g (failed_row now key publish)) (t_documents db),
      t_jobs := tbl_upd p (parked_job now key) (t_jobs db)\<rparr>)"
  shows "tame db db'"
proof -
  have "move (Some (d_PublicationGeneration d, d_PublicationStatus d))
      (Some (d_PublicationGeneration (at_generation g (failed_row now key publish) d), d_PublicationStatus (at_generation g (failed_row now key publish) d)))" for d
    by (auto simp: at_generation_def failed_row_def settled_def intro: move.intros)
  moreover have "d_ID (at_generation g (failed_row now key publish) d) = d_ID d" for d by (simp add: at_generation_def failed_row_def)
  ultimately have "move (pub_state docs x) (pub_state (tbl_upd (\<lambda>d. d_ID d = docID) (at_generation g (failed_row now key publish)) docs) x)" for docs x
    by (intro pub_state_put)
  then show ?thesis
    by (intro tame_view [OF failed] tameI eq_refl [OF tickets_upd [where p = p and f = "parked_job now key"]])
      (simp_all add: media_of_def row_ticket_def parked_job_def)
qed

lemma sent_tame:
  assumes sent: "saga_view db' = saga_view (submitted E jobID now d input db)" "get_document (d_ID d) db = Some d"
  shows "tame db db'"
proof -
  let ?f = "publish_row now (d_PublicationGeneration d + 1) input"
  let ?s = "submitted E jobID now d input db"
  let ?t = "Ticket jobID (d_ID d) (d_PublicationGeneration d + 1) publicationActionPublish (pi_MediaIDs input)"
  have d: "tbl_get d_ID (d_ID d) (t_documents db) = Some d" using sent(2) by (simp add: get_document_def)
  have ps: "pub_state (t_documents ?s) = (pub_state (t_documents db))(d_ID d \<mapsto> (d_PublicationGeneration d + 1, PublicationPublishing))"
    using d by (simp add: submitted_def publish_row_def pub_state_upd)
  have old: "pub_state (t_documents db) (d_ID d) = Some (d_PublicationGeneration d, d_PublicationStatus d)" using d by (simp add: pub_state_def)
  have "issued db ?s ?t" using ps old by (simp add: issued_def)
  moreover have "tickets ?s \<subseteq> insert ?t (tickets db)"
    unfolding tickets_def set_map submitted_def by (auto simp: tbl_del_def row_ticket_def new_job_def)
  moreover have "move (pub_state (t_documents db) x) (pub_state (t_documents ?s) x)" for x
    unfolding ps using old by (auto intro: move.intros)
  ultimately show ?thesis
    by (intro tame_view [OF sent(1)]) (auto simp: tame_def media_of_def submitted_def)
qed

lemma pulled_tame:
  assumes pulled: "saga_view db' = saga_view (withdrawn jobID now d f db)" "get_document (d_ID d) db = Some d"
    "f = unpublish_row now (d_PublicationGeneration d + 1) \<or> f = soft_delete_row now (d_PublicationGeneration d + 1)"
  shows "tame db db'"
proof -
  let ?s = "withdrawn jobID now d f db"
  let ?t = "Ticket jobID (d_ID d) (d_PublicationGeneration d + 1) publicationActionClear []"
  have d: "tbl_get d_ID (d_ID d) (t_documents db) = Some d" using pulled(2) by (simp add: get_document_def)
  have f: "d_ID (f x) = d_ID x" "d_PublicationGeneration (f x) = d_PublicationGeneration d + 1" "d_PublicationStatus (f x) = PublicationUnpublishing" for x
    using pulled(3) by (auto simp: unpublish_row_def soft_delete_row_def)
  have ps: "pub_state (t_documents ?s) = (pub_state (t_documents db))(d_ID d \<mapsto> (d_PublicationGeneration d + 1, PublicationUnpublishing))"
    using d by (simp add: withdrawn_def pub_state_upd f)
  have old: "pub_state (t_documents db) (d_ID d) = Some (d_PublicationGeneration d, d_PublicationStatus d)" using d by (simp add: pub_state_def)
  have "issued db ?s ?t" using ps old by (simp add: issued_def settled_def)
  moreover have "tickets ?s \<subseteq> insert ?t (tickets db)"
    unfolding tickets_def set_map withdrawn_def by (auto simp: tbl_del_def row_ticket_def new_job_def)
  moreover have "move (pub_state (t_documents db) x) (pub_state (t_documents ?s) x)" for x
    unfolding ps using old by (auto simp: settled_def intro: move.intros)
  moreover have "media_of ?s x \<subseteq> media_of db x" for x
    by (rule tbl_del_media [where p = "\<lambda>r. mr_DocumentID r = d_ID d"]) (simp add: withdrawn_def)
  ultimately show ?thesis
    by (intro tame_view [OF pulled(1)]) (auto simp: tame_def)
qed

lemma saga_step_tame:
  assumes "saga_step E db db'"
    and "\<And>now job c d. promotable db job d c \<Longrightarrow> saga_view db' \<noteq> saga_view (promoted now job c db)"
  shows "tame db db'"
  using assms(1)
proof cases
  case same
  show ?thesis by (rule tame_view [OF same]) (auto intro: tameI move.stay)
next
  case (created d)
  have "move (pub_state (t_documents db) x) (pub_state (t_documents db @ [d]) x)" for x
    using created move.stay [of "pub_state (t_documents db) x"]
    by (cases "tbl_get d_ID x (t_documents db)") (auto simp: pub_state_def tbl_simps settled_def intro!: move.intros)
  then show ?thesis by (intro tame_view [OF created(1)] tameI) (simp_all add: media_of_def tickets_def)
next
  case (touched docID f)
  then show ?thesis
    by (intro tame_view [OF touched(1)] tameI) (auto simp: media_of_def tickets_def quiet_def intro!: pub_state_put intro: move.stay)
next
  case (purged docID)
  have "pub_state (tbl_del (\<lambda>d. d_ID d = docID) (t_documents db)) = (pub_state (t_documents db))(docID := None)"
    by (auto simp: pub_state_def fun_eq_iff tbl_get_del tbl_get_del_hit)
  then show ?thesis
    by (intro tame_view [OF purged] tameI tbl_del_media [where p = "\<lambda>r. mr_DocumentID r = docID"] tickets_del [where p = "\<lambda>j. j_DocumentID j = docID"])
      (auto simp: cascade_document_def intro: move.stay move.gone)
next
  case (lifted now job c d)
  then show ?thesis using assms(2) by blast
next
  case (requeued p f)
  then show ?thesis
    by (intro tame_view [OF requeued(1)] tameI eq_refl [OF tickets_upd [where p = p and f = f]]) (auto simp: media_of_def row_ticket_def job_quiet_def intro: move.stay)
next
  case (finished p)
  then show ?thesis
    by (intro tame_view [OF finished(1)] tameI tickets_del [where p = p]) (auto simp: media_of_def intro: move.stay)
next
  case cleared
  from cleared(1) show ?thesis by (rule cleared_tame)
next
  case failed
  from failed(1) show ?thesis by (rule failed_tame)
next
  case sent
  from sent(1,2) show ?thesis by (rule sent_tame)
next
  case pulled
  from pulled(1,2,5) show ?thesis by (rule pulled_tame)
qed

section \<open>The invariant\<close>

definition slot_ok :: "ticket set \<Rightarrow> string \<Rightarrow> slot \<Rightarrow> bool" where
  "slot_ok J d sl \<longleftrightarrow> sl_Generation sl = 0 \<and> sl_Attachments sl = {} \<or>
     (\<exists>t \<in> J. tk_Doc t = d \<and> tk_Gen t = sl_Generation sl
        \<and> sl_Attachments sl = (if tk_Action t = publicationActionClear then {} else set (tk_Ids t)))"

definition cell_ok :: "ticket set \<Rightarrow> string \<Rightarrow> cell \<Rightarrow> bool" where
  "cell_ok J d x \<longleftrightarrow> slot_ok J d (ce_Active x) \<and>
     (case ce_Staged x of None \<Rightarrow> True | Some sl \<Rightarrow> slot_ok J d sl \<and> sl_Generation (ce_Active x) < sl_Generation sl)"

definition holds :: "cell option \<Rightarrow> int \<Rightarrow> bool" where
  "holds x0 g \<longleftrightarrow> (case x0 of None \<Rightarrow> False | Some x \<Rightarrow> sl_Generation (ce_Active x) = g \<or>
     (case ce_Staged x of None \<Rightarrow> False | Some sl \<Rightarrow> sl_Generation sl = g))"

type_synonym states = "string \<Rightarrow> (int \<times> string) option"

definition ledger_inv :: "states \<Rightarrow> ticket set \<Rightarrow> bool" where
  "ledger_inv ps J \<longleftrightarrow>
     (\<forall>t \<in> J. 1 \<le> tk_Gen t \<and> (\<forall>g st. ps (tk_Doc t) = Some (g, st) \<longrightarrow>
        tk_Gen t \<le> g \<and> (tk_Gen t = g \<and> \<not> settled st \<longrightarrow> tk_Action t = publicationActionPublish)))
   \<and> (\<forall>t \<in> J. \<forall>u \<in> J. tk_Doc t = tk_Doc u \<and> tk_Gen t = tk_Gen u \<longrightarrow> t = u)
   \<and> (\<forall>t \<in> J. \<forall>u \<in> J. tk_ID t = tk_ID u \<longrightarrow> t = u)"

definition shown_inv :: "states \<Rightarrow> (string \<Rightarrow> string set) \<Rightarrow> (string \<Rightarrow> cell option) \<Rightarrow> ticket set \<Rightarrow> ticket set \<Rightarrow> bool" where
  "shown_inv ps media cells J P \<longleftrightarrow> (\<forall>d g st. ps d = Some (g, st) \<longrightarrow> 0 \<le> g
     \<and> ((\<exists>t \<in> P. tk_Doc t = d \<and> tk_Gen t = g) \<or> st = PublicationPublished \<longrightarrow> holds (cells d) g)
     \<and> (st = PublicationPublished \<longrightarrow> (\<exists>t \<in> J. tk_Doc t = d \<and> tk_Gen t = g \<and> media d \<subseteq> set (tk_Ids t))))"

text \<open>\<open>J\<close> are the tickets issued so far, \<open>T\<close> those for which a call to stage has succeeded.\<close>

definition media_inv_of :: "kdb \<Rightarrow> (string \<Rightarrow> cell option) \<Rightarrow> ticket set \<Rightarrow> ticket set \<Rightarrow> bool" where
  "media_inv_of db cells J T \<longleftrightarrow> ledger_inv (pub_state (t_documents db)) J \<and> tickets db \<subseteq> J \<and> T \<subseteq> J
     \<and> (\<forall>d x. cells d = Some x \<longrightarrow> cell_ok J d x)
     \<and> shown_inv (pub_state (t_documents db)) (media_of db) cells J (T \<union> progressed db)"

lemma ledgerD:
  assumes "ledger_inv ps J" "t \<in> J"
  shows "1 \<le> tk_Gen t" "ps (tk_Doc t) = Some (g, st) \<Longrightarrow> tk_Gen t \<le> g"
    "ps (tk_Doc t) = Some (tk_Gen t, st) \<Longrightarrow> \<not> settled st \<Longrightarrow> tk_Action t = publicationActionPublish"
    "u \<in> J \<Longrightarrow> tk_Doc t = tk_Doc u \<Longrightarrow> tk_Gen t = tk_Gen u \<Longrightarrow> t = u" "u \<in> J \<Longrightarrow> tk_ID t = tk_ID u \<Longrightarrow> t = u"
  using assms by (auto simp: ledger_inv_def)

lemma shownD:
  assumes "shown_inv ps media cells J P" "ps d = Some (g, st)"
  shows "0 \<le> g" "t \<in> P \<Longrightarrow> tk_Doc t = d \<Longrightarrow> tk_Gen t = g \<Longrightarrow> holds (cells d) g" "st = PublicationPublished \<Longrightarrow> holds (cells d) g"
    "st = PublicationPublished \<Longrightarrow> \<exists>t \<in> J. tk_Doc t = d \<and> tk_Gen t = g \<and> media d \<subseteq> set (tk_Ids t)"
  using assms(1) [unfolded shown_inv_def, rule_format, OF assms(2)] by auto

lemma media_invD:
  assumes "media_inv_of db cells J T"
  shows "ledger_inv (pub_state (t_documents db)) J" "tickets db \<subseteq> J" "T \<subseteq> J" "cells d = Some x \<Longrightarrow> cell_ok J d x"
    "shown_inv (pub_state (t_documents db)) (media_of db) cells J (T \<union> progressed db)"
  using assms by (auto simp: media_inv_of_def)

lemma slot_ok_mono: "slot_ok J d sl \<Longrightarrow> J \<subseteq> J' \<Longrightarrow> slot_ok J' d sl"
  unfolding slot_ok_def by blast

lemma cell_ok_mono: "cell_ok J d x \<Longrightarrow> J \<subseteq> J' \<Longrightarrow> cell_ok J' d x"
  by (auto simp: cell_ok_def intro: slot_ok_mono split: option.split_asm)

text \<open>No cell is ahead of its document.\<close>

lemma cell_not_ahead:
  assumes "ledger_inv ps J" "cell_ok J d x" "ps d = Some (g, st)" "0 \<le> g"
  shows "cell_latest x \<le> g"
proof -
  have "sl_Generation sl \<le> g" if "slot_ok J d sl" for sl
    using that assms(3,4) ledgerD(2) [OF assms(1)] unfolding slot_ok_def by metis
  then show ?thesis using assms(2) by (auto simp: cell_latest_def cell_ok_def split: option.split_asm option.split)
qed

lemma holds_latest: "cell_ok J d x \<Longrightarrow> holds (Some x) g \<Longrightarrow> g \<le> cell_latest x"
  by (auto simp: holds_def cell_ok_def cell_latest_def split: option.split_asm)

section \<open>Calls of the repository\<close>

definition unused :: "ticket set \<Rightarrow> kdb \<Rightarrow> kdb \<Rightarrow> bool" where
  "unused J db db' \<longleftrightarrow> (\<forall>t \<in> tickets db' - J. \<forall>u \<in> J. tk_ID u \<noteq> tk_ID t)
     \<and> (\<forall>d. pub_state (t_documents db) d = None \<and> pub_state (t_documents db') d \<noteq> None \<longrightarrow> (\<forall>u \<in> J. tk_Doc u \<noteq> d))"

lemma tame_ledger:
  assumes i: "media_inv_of db cells J T" and t: "tame db db'" and u: "unused J db db'"
  shows "ledger_inv (pub_state (t_documents db')) (J \<union> tickets db')"
proof -
  let ?ps = "pub_state (t_documents db)" and ?ps' = "pub_state (t_documents db')"
  note L = media_invD(1) [OF i] and S = media_invD(5) [OF i]
  have old: "tk_Gen t \<le> g \<and> (tk_Gen t = g \<and> \<not> settled st \<longrightarrow> tk_Action t = publicationActionPublish)"
    if tj: "t \<in> J" and ps: "?ps' (tk_Doc t) = Some (g, st)" for t g st
  proof -
    have "move (?ps (tk_Doc t)) (?ps' (tk_Doc t))" using t by (simp add: tame_def)
    then show ?thesis
      using ps ledgerD(2,3) [OF L tj] u tj by (cases) (auto simp: unused_def)
  qed
  show ?thesis
  proof (cases "tickets db' \<subseteq> J")
    case True
    then have "J \<union> tickets db' = J" by blast
    then show ?thesis using old ledgerD(1,4,5) [OF L] unfolding ledger_inv_def by auto
  next
    case False
    with t media_invD(2) [OF i] obtain n where "issued db db' n" "tickets db' \<subseteq> insert n (tickets db)" unfolding tame_def by blast
    then have n: "issued db db' n" "tickets db' \<subseteq> insert n J" using media_invD(2) [OF i] by auto
    from n(1) obtain g st st' where ps: "?ps (tk_Doc n) = Some (g, st)" "tk_Gen n = g + 1" "?ps' (tk_Doc n) = Some (g + 1, st')"
      "\<not> settled st' \<Longrightarrow> tk_Action n = publicationActionPublish" by (auto simp: issued_def)
    have n': "n \<notin> J" "n \<in> tickets db'" using False n(2) by auto
    have J': "J \<union> tickets db' = insert n J" using n(2) n'(2) by blast
    have g: "0 \<le> g" using shownD(1) [OF S ps(1)] .
    have apart: "\<not> (tk_Doc v = tk_Doc n \<and> tk_Gen v = tk_Gen n)" "tk_ID v \<noteq> tk_ID n" if "v \<in> J" for v
      using ledgerD(2) [OF L that, of g st] ps(1,2) u n' that by (auto simp: unused_def)
    have "\<forall>t \<in> insert n J. 1 \<le> tk_Gen t \<and> (\<forall>g st. ?ps' (tk_Doc t) = Some (g, st) \<longrightarrow>
        tk_Gen t \<le> g \<and> (tk_Gen t = g \<and> \<not> settled st \<longrightarrow> tk_Action t = publicationActionPublish))"
      using old ledgerD(1) [OF L] ps g by auto
    moreover have "\<forall>t \<in> insert n J. \<forall>u \<in> insert n J. tk_Doc t = tk_Doc u \<and> tk_Gen t = tk_Gen u \<longrightarrow> t = u"
      using ledgerD(4) [OF L] apart(1) by (metis insert_iff)
    moreover have "\<forall>t \<in> insert n J. \<forall>u \<in> insert n J. tk_ID t = tk_ID u \<longrightarrow> t = u"
      using ledgerD(5) [OF L] apart(2) by (metis insert_iff)
    ultimately show ?thesis unfolding J' ledger_inv_def by blast
  qed
qed

lemma tame_shown:
  assumes i: "media_inv_of db cells J T" and t: "tame db db'" and u: "unused J db db'" and m: "progressed db' \<subseteq> progressed db"
  shows "shown_inv (pub_state (t_documents db')) (media_of db') cells (J \<union> tickets db') (T \<union> progressed db')"
  unfolding shown_inv_def
proof (intro allI impI)
  let ?ps = "pub_state (t_documents db)" and ?ps' = "pub_state (t_documents db')"
  note L = media_invD(1) [OF i] and S = media_invD(5) [OF i]
  have P: "v \<in> J" if "v \<in> T \<union> progressed db'" for v
    using that m media_invD(2,3) [OF i] progressed_tickets [of db] by blast
  fix d g st
  assume ps: "?ps' d = Some (g, st)"
  have media: "media_of db' d \<subseteq> media_of db d" using t by (simp add: tame_def)
  have "move (?ps d) (?ps' d)" using t by (simp add: tame_def)
  then show "0 \<le> g \<and> ((\<exists>t \<in> T \<union> progressed db'. tk_Doc t = d \<and> tk_Gen t = g) \<or> st = PublicationPublished \<longrightarrow> holds (cells d) g)
     \<and> (st = PublicationPublished \<longrightarrow> (\<exists>t \<in> J \<union> tickets db'. tk_Doc t = d \<and> tk_Gen t = g \<and> media_of db' d \<subseteq> set (tk_Ids t)))"
  proof cases
    case stay
    then have "?ps d = Some (g, st)" using ps by simp
    note D = shownD [OF S this]
    show ?thesis
    proof (intro conjI impI)
      show "0 \<le> g" by (rule D(1))
      show "holds (cells d) g" if "(\<exists>t \<in> T \<union> progressed db'. tk_Doc t = d \<and> tk_Gen t = g) \<or> st = PublicationPublished"
        using that m D(2,3) by blast
      show "\<exists>t \<in> J \<union> tickets db'. tk_Doc t = d \<and> tk_Gen t = g \<and> media_of db' d \<subseteq> set (tk_Ids t)" if "st = PublicationPublished"
        using D(4) [OF that] media by blast
    qed
  next
    case gone
    then show ?thesis using ps by simp
  next
    case (born st')
    then have "\<forall>v \<in> J. tk_Doc v \<noteq> d" using u ps by (simp add: unused_def)
    then show ?thesis using born ps P by (auto simp: settled_def)
  next
    case (raised st' g' st0)
    have "tk_Gen v \<le> g'" if "v \<in> J" "tk_Doc v = d" for v using ledgerD(2) [OF L that(1)] raised(1) that(2) by simp
    then show ?thesis using raised ps P shownD(1) [OF S raised(1)] by (auto simp: settled_def) force+
  next
    case (settle st' g' st0)
    then show ?thesis using ps shownD(1,2) [OF S settle(1)] m by (auto simp: settled_def)
  qed
qed

lemma call_inv:
  assumes "media_inv_of db cells J T" "tame db db'" "unused J db db'" "progressed db' \<subseteq> progressed db"
  shows "media_inv_of db' cells (J \<union> tickets db') T"
  using tame_ledger [OF assms(1-3)] tame_shown [OF assms] media_invD(2-4) [OF assms(1)]
  unfolding media_inv_of_def by (auto intro: cell_ok_mono [where J = J])

section \<open>Calls of the attachment service\<close>

text \<open>A change of one cell keeps the invariant if the new cell is in order and holds what the old one had to hold.\<close>

lemma cell_change:
  assumes i: "media_inv_of db cells J T" and ok: "\<And>x. x0 = Some x \<Longrightarrow> cell_ok J d x" and T': "T \<subseteq> T'" "T' \<subseteq> insert t T" "t \<in> J" "tk_Doc t = d"
    and h: "\<And>g st. pub_state (t_documents db) d = Some (g, st) \<Longrightarrow> holds (cells d) g \<or> t \<in> T' \<and> tk_Gen t = g \<Longrightarrow> holds x0 g"
  shows "media_inv_of db (cells(d := x0)) J T'"
proof -
  let ?ps = "pub_state (t_documents db)"
  have "shown_inv ?ps (media_of db) (cells(d := x0)) J (T' \<union> progressed db)"
    unfolding shown_inv_def
  proof (intro allI impI)
    fix e g st
    assume ps: "?ps e = Some (g, st)"
    note D = shownD [OF media_invD(5) [OF i] ps]
    have "holds ((cells(d := x0)) e) g" if "(\<exists>v \<in> T' \<union> progressed db. tk_Doc v = e \<and> tk_Gen v = g) \<or> st = PublicationPublished"
    proof -
      from that T'(2) have "(\<exists>v \<in> T \<union> progressed db. tk_Doc v = e \<and> tk_Gen v = g) \<or> st = PublicationPublished \<or> t \<in> T' \<and> tk_Doc t = e \<and> tk_Gen t = g"
        by blast
      then have "holds (cells e) g \<or> t \<in> T' \<and> tk_Doc t = e \<and> tk_Gen t = g" using D(2,3) by blast
      then show ?thesis using h [of g st] ps T'(4) by (cases "e = d") auto
    qed
    then show "0 \<le> g \<and> ((\<exists>t \<in> T' \<union> progressed db. tk_Doc t = e \<and> tk_Gen t = g) \<or> st = PublicationPublished \<longrightarrow> holds ((cells(d := x0)) e) g)
       \<and> (st = PublicationPublished \<longrightarrow> (\<exists>t \<in> J. tk_Doc t = e \<and> tk_Gen t = g \<and> media_of db e \<subseteq> set (tk_Ids t)))"
      using D(1,4) by blast
  qed
  then show ?thesis
    using media_invD(1-4) [OF i] ok T' unfolding media_inv_of_def by (auto split: if_split_asm)
qed

text \<open>The command of a ticket.\<close>

definition commands :: "ticket \<Rightarrow> PublicationReferenceCommand \<Rightarrow> bool" where
  "commands t c \<longleftrightarrow> pc_DocumentID c = tk_Doc t \<and> pc_Generation c = tk_Gen t \<and> set (pc_AttachmentIDs c) = set (tk_Ids t)"

lemma slot_of_ok: "t \<in> J \<Longrightarrow> commands t c \<Longrightarrow> tk_Action t \<noteq> publicationActionClear \<Longrightarrow> slot_ok J (tk_Doc t) (slot_of c)"
  by (auto simp: slot_ok_def slot_of_def commands_def)

lemma stage_inv:
  assumes i: "media_inv_of db cells J T" and t: "t \<in> J" "tk_Action t \<noteq> publicationActionClear" "commands t c"
    and r: "cell_stage c ready (cells (tk_Doc t)) = Inr x0"
  shows "media_inv_of db (cells(tk_Doc t := x0)) J (insert t T)"
proof (rule cell_change [OF i])
  note L = media_invD(1) [OF i] and C = media_invD(4) [OF i] and S = media_invD(5) [OF i]
  have c: "pc_Generation c = tk_Gen t" using t(3) by (simp add: commands_def)
  note sl = slot_of_ok [OF t(1) t(3) t(2)]
  have gen: "sl_Generation (slot_of c) = tk_Gen t" "1 \<le> tk_Gen t" using c ledgerD(1) [OF L t(1)] by (simp_all add: slot_of_def)
  show "cell_ok J (tk_Doc t) x" if "x0 = Some x" for x
  proof (cases "cells (tk_Doc t)")
    case None
    then show ?thesis using r that sl gen by (auto simp: cell_stage_def cell_ok_def slot_ok_def empty_slot_def split: if_split_asm)
  next
    case (Some y)
    then show ?thesis using r that sl gen C [OF Some] c
      by (auto simp: cell_stage_def cell_ok_def cell_latest_def split: if_split_asm option.split_asm)
  qed
  show "holds x0 g" if ps: "pub_state (t_documents db) (tk_Doc t) = Some (g, st)" and h: "holds (cells (tk_Doc t)) g \<or> t \<in> insert t T \<and> tk_Gen t = g" for g st
  proof (cases "cells (tk_Doc t)")
    case None
    then show ?thesis using r h gen by (auto simp: cell_stage_def holds_def split: if_split_asm)
  next
    case (Some y)
    have le: "tk_Gen t \<le> g" "cell_latest y \<le> g"
      using ledgerD(2) [OF L t(1) ps] cell_not_ahead [OF L C [OF Some] ps shownD(1) [OF S ps]] by auto
    have hy: "holds (Some y) g \<Longrightarrow> g \<le> cell_latest y" using holds_latest [OF C [OF Some]] .
    have last: "holds (Some y) (cell_latest y)" by (auto simp: holds_def cell_latest_def split: option.split)
    show ?thesis
    proof (cases "cell_latest y < tk_Gen t")
      case True
      then have "x0 = Some \<lparr>ce_Owner = pc_OwnerID c, ce_Active = ce_Active y, ce_Staged = Some (slot_of c)\<rparr>"
        using r c Some by (auto simp: cell_stage_def split: if_split_asm)
      moreover have "tk_Gen t = g" using h Some hy True le by force
      ultimately show ?thesis using gen by (simp add: holds_def)
    next
      case False
      then have "x0 = Some y" using r c Some by (auto simp: cell_stage_def split: if_split_asm)
      moreover have "tk_Gen t = g \<Longrightarrow> g = cell_latest y" using False le by simp
      ultimately show ?thesis using h last Some by auto
    qed
  qed
qed (use t in auto)

lemma finalize_inv:
  assumes i: "media_inv_of db cells J T" and t: "t \<in> J" "commands t c"
    and r: "cell_finalize c (cells (tk_Doc t)) = Inr x0"
  shows "media_inv_of db (cells(tk_Doc t := x0)) J T"
proof (rule cell_change [OF i])
  note L = media_invD(1) [OF i] and C = media_invD(4) [OF i] and S = media_invD(5) [OF i]
  have c: "pc_Generation c = tk_Gen t" using t(2) by (simp add: commands_def)
  from r obtain y where y: "cells (tk_Doc t) = Some y" by (auto simp: cell_finalize_def split: option.split_asm)
  show "cell_ok J (tk_Doc t) x" if "x0 = Some x" for x
    using r that y C [OF y] by (auto simp: cell_finalize_def cell_ok_def split: if_split_asm option.split_asm)
  show "holds x0 g" if ps: "pub_state (t_documents db) (tk_Doc t) = Some (g, st)" and h: "holds (cells (tk_Doc t)) g \<or> t \<in> T \<and> tk_Gen t = g" for g st
    using r y c h C [OF y] ledgerD(2) [OF L t(1) ps] shownD(2) [OF S ps, of t]
    by (auto simp: cell_finalize_def holds_def cell_ok_def split: if_split_asm option.split_asm)
qed (use t in auto)

lemma clear_inv:
  assumes i: "media_inv_of db cells J T" and t: "t \<in> J" "tk_Action t = publicationActionClear" "commands t c"
  shows "media_inv_of db (cells(tk_Doc t := cell_clear c (cells (tk_Doc t)))) J T"
proof (rule cell_change [OF i])
  note L = media_invD(1) [OF i] and C = media_invD(4) [OF i] and S = media_invD(5) [OF i]
  have c: "pc_Generation c = tk_Gen t" using t(3) by (simp add: commands_def)
  have sl: "slot_ok J (tk_Doc t) (slot_of c\<lparr>sl_Attachments := {}\<rparr>)" using t c by (auto simp: slot_ok_def slot_of_def)
  show "cell_ok J (tk_Doc t) x" if "cell_clear c (cells (tk_Doc t)) = Some x" for x
    using that sl C by (auto simp: cell_clear_def cell_ok_def split: if_split_asm option.split_asm)
  show "holds (cell_clear c (cells (tk_Doc t))) g" if ps: "pub_state (t_documents db) (tk_Doc t) = Some (g, st)"
    and h: "holds (cells (tk_Doc t)) g \<or> t \<in> T \<and> tk_Gen t = g" for g st
  proof (cases "cells (tk_Doc t)")
    case None
    then show ?thesis using h c by (auto simp: cell_clear_def holds_def slot_of_def)
  next
    case (Some y)
    have "holds (Some y) g" using h Some shownD(2) [OF S ps, of t] by auto
    then have "g \<le> cell_latest y" by (rule holds_latest [OF C [OF Some]])
    then show ?thesis using \<open>holds (Some y) g\<close> ledgerD(2) [OF L t(1) ps] c Some
      by (auto simp: cell_clear_def holds_def [of "Some \<lparr>ce_Owner = _, ce_Active = _, ce_Staged = _\<rparr>"] slot_of_def)
  qed
qed (use t in auto)

section \<open>Progress of a job\<close>

lemma progressed_upd:
  assumes "t_jobs db' = tbl_upd q f (t_jobs db)" "\<And>j. row_ticket (f j) = row_ticket j" "\<And>j. j \<in> set (t_jobs db) \<Longrightarrow> q j \<Longrightarrow> row_ticket j = t"
  shows "progressed db' \<subseteq> insert t (progressed db)" "tickets db' = tickets db"
proof
  show "tickets db' = tickets db" using assms(1,2) by (rule tickets_upd)
  fix v assume "v \<in> progressed db'"
  then have "v \<in> row_ticket ` set (filter (\<lambda>j. j_State j = publicationJobStaged \<or> j_State j = publicationJobPromoted) (tbl_upd q f (t_jobs db)))"
    by (simp only: progressed_def assms(1) set_map)
  then obtain j where v: "v = row_ticket j" and j: "j \<in> set (filter (\<lambda>j. j_State j = publicationJobStaged \<or> j_State j = publicationJobPromoted) (tbl_upd q f (t_jobs db)))"
    by (rule imageE)
  then have "j \<in> set (tbl_upd q f (t_jobs db))" by simp
  then show "v \<in> insert t (progressed db)"
  proof (cases rule: in_tbl_updE)
    case (hit x)
    then show ?thesis using assms(2,3) v by simp
  next
    case miss
    then have "j \<in> set (filter (\<lambda>j. j_State j = publicationJobStaged \<or> j_State j = publicationJobPromoted) (t_jobs db))" using j by simp
    then show ?thesis unfolding v progressed_def set_map by (intro insertI2 imageI)
  qed
qed

lemma shown_mono:
  assumes "shown_inv ps media cells J P" "P' \<subseteq> P"
  shows "shown_inv ps media cells J P'"
  unfolding shown_inv_def
proof (intro allI impI)
  fix d g st
  assume "ps d = Some (g, st)"
  from shownD [OF assms(1) this] assms(2)
  show "0 \<le> g \<and> ((\<exists>t \<in> P'. tk_Doc t = d \<and> tk_Gen t = g) \<or> st = PublicationPublished \<longrightarrow> holds (cells d) g)
     \<and> (st = PublicationPublished \<longrightarrow> (\<exists>t \<in> J. tk_Doc t = d \<and> tk_Gen t = g \<and> media d \<subseteq> set (tk_Ids t)))"
    by blast
qed

lemma same_ID:
  assumes "media_inv_of db cells J T" "t \<in> J" "j \<in> set (t_jobs db)" "j_ID j = tk_ID t"
  shows "row_ticket j = t"
proof -
  have "row_ticket j \<in> J" using assms(3) media_invD(2) [OF assms(1)] by (auto simp: tickets_def)
  then show ?thesis using ledgerD(5) [OF media_invD(1) [OF assms(1)] _ assms(2)] assms(4) by simp
qed

lemma mark_inv:
  assumes i: "media_inv_of db cells J T" and t: "t \<in> T" and m: "MarkPublicationReferencesStaged now (tk_ID t) db = (r, db')"
  shows "media_inv_of db' cells J T"
proof (cases r)
  case (Inl e)
  then show ?thesis using m i by (simp add: MarkPublicationReferencesStaged_def updatePublicationJob_def transaction_Inl)
next
  case (Inr u)
  let ?q = "\<lambda>j. j_ID j = tk_ID t \<and> j_ParkedAt j = None"
  let ?f = "\<lambda>j. j\<lparr>j_State := publicationJobStaged, j_LastErrorKey := [], j_LeaseUntil := None, j_NextAttemptAt := now, j_UpdatedAt := now\<rparr>"
  have db': "db' = t_jobs_update (tbl_upd ?q ?f) db"
    using m Inr by (simp add: MarkPublicationReferencesStaged_def updatePublicationJob_def tx_simps)
  have tj: "t \<in> J" using t media_invD(3) [OF i] by blast
  have p: "progressed db' \<subseteq> insert t (progressed db)" "tickets db' = tickets db"
    by (rule progressed_upd [where q = ?q and f = ?f]; use same_ID [OF i tj] in \<open>auto simp: db' row_ticket_def\<close>)+
  then have "T \<union> progressed db' \<subseteq> T \<union> progressed db" using t by blast
  then have "shown_inv (pub_state (t_documents db)) (media_of db) cells J (T \<union> progressed db')"
    using media_invD(5) [OF i] by (rule shown_mono [rotated])
  then show ?thesis
    using media_invD(1-4) [OF i] p(2) unfolding media_inv_of_def by (simp add: db' media_of_def [abs_def])
qed

lemma promote_inv:
  assumes i: "media_inv_of db cells J T" and t: "job_ticket job \<in> J" and m: "PromotePublication E now job db = (r, db')"
  shows "media_inv_of db' cells J T"
proof (cases r)
  case (Inl e)
  then show ?thesis using m i by (simp add: PromotePublication_def transaction_Inl)
next
  case (Inr u)
  note L = media_invD(1) [OF i] and S = media_invD(5) [OF i]
  from PromotePublication_success [OF m [unfolded Inr]] show ?thesis
  proof (elim disjE exE conjE)
    assume "db' = db"
    then show ?thesis using i by simp
  next
    fix d c
    assume pr: "promotable db job d c" and co: "core db' = core (promoted now job c db)"
    let ?t = "job_ticket job" and ?d = "prj_DocumentID job" and ?g = "prj_Generation job"
    let ?ps = "pub_state (t_documents db)"
    from pr obtain j where j: "get_job (prj_ID job) db = Some j" "j_State j = publicationJobStaged" by (auto simp: promotable_def)
    have "j \<in> set (t_jobs db)" "j_ID j = prj_ID job" using j(1) unfolding get_job_def by (rule tbl_get_SomeD)+
    then have rt: "row_ticket j = ?t" and jf: "j \<in> set (filter (\<lambda>j. j_State j = publicationJobStaged \<or> j_State j = publicationJobPromoted) (t_jobs db))"
      using same_ID [OF i t] j(2) by auto
    have pt: "?t \<in> progressed db" unfolding rt [symmetric] progressed_def set_map using jf by (rule imageI)
    have old: "?ps ?d = Some (?g, PublicationPublishing)" using pr by (auto simp: promotable_def get_document_def pub_state_def)
    have f: "t_documents db' = tbl_upd (\<lambda>x. d_ID x = ?d) (promote_row now) (t_documents db)"
      "t_media_refs db' = tbl_del (\<lambda>r. mr_DocumentID r = ?d) (t_media_refs db) @ map (media_ref ?d ?g now) (prj_AttachmentIDs job)"
      "t_jobs db' = tbl_upd (\<lambda>j. j_ID j = prj_ID job) (promote_job now) (t_jobs db)"
      using co by (simp_all add: core_def promoted_def)
    have ps: "pub_state (t_documents db') = ?ps(?d \<mapsto> (?g, PublicationPublished))"
      using old unfolding f(1) by (subst pub_state_upd) (auto simp: promote_row_def pub_state_def)
    have "filter (\<lambda>r. mr_DocumentID r = e) (t_media_refs db')
        = (if e = ?d then map (media_ref ?d ?g now) (prj_AttachmentIDs job) else filter (\<lambda>r. mr_DocumentID r = e) (t_media_refs db))" for e
    proof -
      have "filter (\<lambda>r. mr_DocumentID r = e) (map (media_ref ?d ?g now) (prj_AttachmentIDs job)) = (if e = ?d then map (media_ref ?d ?g now) (prj_AttachmentIDs job) else [])"
        by (simp add: filter_map comp_def media_ref_def)
      moreover have "filter (\<lambda>r. mr_DocumentID r = e) (tbl_del (\<lambda>r. mr_DocumentID r = ?d) (t_media_refs db)) = (if e = ?d then [] else filter (\<lambda>r. mr_DocumentID r = e) (t_media_refs db))"
        by (auto simp: tbl_del_def filter_empty_conv intro!: filter_cong)
      ultimately show ?thesis unfolding f(2) by simp
    qed
    then have media: "media_of db' e = (if e = ?d then set (prj_AttachmentIDs job) else media_of db e)" for e
      by (simp add: media_of_def media_ref_def comp_def del: set_map)
    have p: "progressed db' \<subseteq> insert ?t (progressed db)" "tickets db' = tickets db"
      by (rule progressed_upd [where q = "\<lambda>j. j_ID j = prj_ID job" and f = "promote_job now"]; use f(3) same_ID [OF i t] in \<open>auto simp: row_ticket_def promote_job_def\<close>)+
    then have P: "T \<union> progressed db' \<subseteq> T \<union> progressed db" using pt by blast
    have hold: "holds (cells ?d) ?g" using shownD(2) [OF S old, of ?t] pt by simp
    have "ledger_inv (pub_state (t_documents db')) J"
      using L old unfolding ps ledger_inv_def by (auto simp: settled_def)
    moreover have "shown_inv (pub_state (t_documents db')) (media_of db') cells J (T \<union> progressed db')"
      unfolding shown_inv_def
    proof (intro allI impI)
      fix e g st
      assume e: "pub_state (t_documents db') e = Some (g, st)"
      show "0 \<le> g \<and> ((\<exists>t \<in> T \<union> progressed db'. tk_Doc t = e \<and> tk_Gen t = g) \<or> st = PublicationPublished \<longrightarrow> holds (cells e) g)
       \<and> (st = PublicationPublished \<longrightarrow> (\<exists>t \<in> J. tk_Doc t = e \<and> tk_Gen t = g \<and> media_of db' e \<subseteq> set (tk_Ids t)))"
      proof (cases "e = ?d")
        case True
        have g: "g = ?g" "0 \<le> ?g" using True e ps shownD(1) [OF S old] by auto
        have "tk_Doc ?t = ?d \<and> tk_Gen ?t = ?g \<and> media_of db' ?d \<subseteq> set (tk_Ids ?t)" by (simp add: media)
        then show ?thesis unfolding True g(1) using g(2) hold t by blast
      next
        case False
        then have "?ps e = Some (g, st)" using e ps by simp
        from shownD [OF S this] False P show ?thesis by (auto simp: media)
      qed
    qed
    ultimately show ?thesis using media_invD(2-4) [OF i] p(2) unfolding media_inv_of_def by simp
  qed
qed

section \<open>The services together\<close>

text \<open>The request the knowledge service's attachment client sends for a job.\<close>

definition command_request :: "PublicationReferenceJob \<Rightarrow> reference_request" where
  "command_request job = \<lparr>rq_MessageId = prj_ID job, rq_DocumentId = prj_DocumentID job, rq_OwnerId = prj_OwnerID job,
     rq_Generation = prj_Generation job, rq_AttachmentIds = prj_AttachmentIDs job\<rparr>"

lemma request_commands: "publicationCommand A (command_request job) e = Some c \<Longrightarrow> commands (job_ticket job) c \<and> valid_command c"
proof -
  assume c: "publicationCommand A (command_request job) e = Some c"
  then have "pc_DocumentID c = prj_DocumentID job \<and> pc_Generation c = prj_Generation job \<and> pc_AttachmentIDs c = sort (prj_AttachmentIDs job)"
    by (auto simp: publicationCommand_def command_request_def Let_def split: if_split_asm)
  then show ?thesis using publicationCommand_valid [OF c] by (simp add: commands_def)
qed

definition no_new_publication :: "kdb \<Rightarrow> kdb \<Rightarrow> bool" where
  "no_new_publication db db' \<longleftrightarrow> (\<forall>d g. pub_state (t_documents db') d = Some (g, PublicationPublished) \<longrightarrow>
     pub_state (t_documents db) d = Some (g, PublicationPublished))"

text \<open>
  One step of the whole: a call to the knowledge repository that neither reports a job as staged nor promotes
  one (\<open>call\<close>); the calls of workers on behalf of a job they hold, which may be superseded by then; and whatever
  else the attachment service does. A worker reports a job as staged only after its call to stage succeeded.
  Identifiers of new jobs and documents have not been used before.
\<close>

inductive mstep for E :: kenv and A :: aenv and stage finalize clear and elsewhere :: "'s \<Rightarrow> 's \<Rightarrow> bool" where
  call: "kstep E db db' \<Longrightarrow> progressed db' \<subseteq> progressed db \<Longrightarrow> no_new_publication db db' \<Longrightarrow> unused J db db' \<Longrightarrow>
    mstep E A stage finalize clear elsewhere (db, s, J, T) (db', s, J \<union> tickets db', T)"
| staged: "job_ticket job \<in> J \<Longrightarrow> prj_Action job \<noteq> publicationActionClear \<Longrightarrow>
    publicationCommand A (command_request job) False = Some c \<Longrightarrow> stage now c s = (r, s') \<Longrightarrow>
    mstep E A stage finalize clear elsewhere (db, s, J, T) (db, s', J, if isl r then T else insert (job_ticket job) T)"
| marked: "t \<in> T \<Longrightarrow> MarkPublicationReferencesStaged now (tk_ID t) db = (r', db') \<Longrightarrow>
    mstep E A stage finalize clear elsewhere (db, s, J, T) (db', s, J, T)"
| promoted: "job_ticket job \<in> J \<Longrightarrow> PromotePublication E now job db = (r', db') \<Longrightarrow>
    mstep E A stage finalize clear elsewhere (db, s, J, T) (db', s, J, T)"
| finalized: "job_ticket job \<in> J \<Longrightarrow> publicationCommand A (command_request job) False = Some c \<Longrightarrow> finalize now c s = (r, s') \<Longrightarrow>
    mstep E A stage finalize clear elsewhere (db, s, J, T) (db, s', J, T)"
| cleared: "job_ticket job \<in> J \<Longrightarrow> prj_Action job = publicationActionClear \<Longrightarrow>
    publicationCommand A (command_request job) True = Some c \<Longrightarrow> clear now c s = (r, s') \<Longrightarrow>
    mstep E A stage finalize clear elsewhere (db, s, J, T) (db, s', J, T)"
| other: "elsewhere s s' \<Longrightarrow> mstep E A stage finalize clear elsewhere (db, s, J, T) (db, s', J, T)"

inductive mreach for E A stage finalize clear and elsewhere :: "'s \<Rightarrow> 's \<Rightarrow> bool" and s0 where
  start: "mreach E A stage finalize clear elsewhere s0 (empty_db, s0, {}, {})"
| step: "mreach E A stage finalize clear elsewhere s0 x \<Longrightarrow> mstep E A stage finalize clear elsewhere x y \<Longrightarrow>
    mreach E A stage finalize clear elsewhere s0 y"

lemma call_tame:
  assumes "kstep E db db'" "no_new_publication db db'"
  shows "tame db db'"
proof (rule saga_step_tame)
  show "saga_step E db db'" using assms(1) by (rule kstep_saga)
  fix now job c d
  assume pr: "promotable db job d c"
  show "saga_view db' \<noteq> saga_view (promoted now job c db)"
  proof
    assume "saga_view db' = saga_view (promoted now job c db)"
    then have "t_documents db' = tbl_upd (\<lambda>x. d_ID x = prj_DocumentID job) (promote_row now) (t_documents db)"
      by (simp add: saga_view_def promoted_def)
    then have "pub_state (t_documents db') (prj_DocumentID job) = Some (prj_Generation job, PublicationPublished)"
      using pr by (auto simp: pub_state_upd promote_row_def promotable_def get_document_def)
    moreover have "pub_state (t_documents db) (prj_DocumentID job) = Some (prj_Generation job, PublicationPublishing)"
      using pr by (auto simp: promotable_def get_document_def pub_state_def)
    ultimately show False using assms(2) by (auto simp: no_new_publication_def)
  qed
qed

text \<open>What the worker needs of the attachment service: each call implements its operation on the cell of one document.\<close>

definition carries :: "('s \<Rightarrow> string \<Rightarrow> cell option) \<Rightarrow> 's \<Rightarrow> string \<Rightarrow> aerr + cell option \<Rightarrow> (aerr + unit) \<times> 's \<Rightarrow> bool" where
  "carries cellof s docID spec res \<longleftrightarrow> (case spec of Inl e \<Rightarrow> fst res = Inl e \<and> cellof (snd res) = cellof s
     | Inr x \<Rightarrow> fst res = Inr () \<and> cellof (snd res) = (cellof s)(docID := x))"

locale reference_service =
  fixes stage finalize clear :: "time \<Rightarrow> PublicationReferenceCommand \<Rightarrow> 's \<Rightarrow> (aerr + unit) \<times> 's"
    and elsewhere :: "'s \<Rightarrow> 's \<Rightarrow> bool" and intact :: "'s \<Rightarrow> bool" and cellof :: "'s \<Rightarrow> string \<Rightarrow> cell option"
    and ready :: "PublicationReferenceCommand \<Rightarrow> 's \<Rightarrow> bool"
  assumes stage_law: "intact s \<Longrightarrow> valid_command c \<Longrightarrow> intact (snd (stage now c s)) \<and>
      carries cellof s (pc_DocumentID c) (cell_stage c (ready c s) (cellof s (pc_DocumentID c))) (stage now c s)"
    and finalize_law: "intact s \<Longrightarrow> valid_command c \<Longrightarrow> intact (snd (finalize now c s)) \<and>
      carries cellof s (pc_DocumentID c) (cell_finalize c (cellof s (pc_DocumentID c))) (finalize now c s)"
    and clear_law: "intact s \<Longrightarrow> valid_command c \<Longrightarrow> intact (snd (clear now c s)) \<and>
      carries cellof s (pc_DocumentID c) (Inr (cell_clear c (cellof s (pc_DocumentID c)))) (clear now c s)"
    and elsewhere_law: "intact s \<Longrightarrow> elsewhere s s' \<Longrightarrow> intact s' \<and> cellof s' = cellof s"
begin

abbreviation step where "step E A \<equiv> mstep E A stage finalize clear elsewhere"

lemma step_inv:
  assumes "step E A (db, s, J, T) (db', s', J', T')" "intact s" "media_inv_of db (cellof s) J T"
  shows "intact s' \<and> media_inv_of db' (cellof s') J' T'"
  using assms(1)
proof cases
  case call
  then show ?thesis using assms call_inv [OF assms(3) call_tame] by simp
next
  case (staged job c now r)
  note c = request_commands [OF staged(6)]
  have doc: "pc_DocumentID c = tk_Doc (job_ticket job)" using c by (simp add: commands_def)
  have law: "intact s'" "carries cellof s (pc_DocumentID c) (cell_stage c (ready c s) (cellof s (pc_DocumentID c))) (r, s')"
    using stage_law [OF assms(2), of c now] c staged(7) by auto
  show ?thesis
  proof (cases "cell_stage c (ready c s) (cellof s (tk_Doc (job_ticket job)))")
    case (Inl e)
    then have "isl r" "cellof s' = cellof s" using law(2) doc by (auto simp: carries_def)
    then show ?thesis using law(1) staged assms(3) by simp
  next
    case (Inr x0)
    then have "\<not> isl r" "cellof s' = (cellof s)(tk_Doc (job_ticket job) := x0)" using law(2) doc by (auto simp: carries_def)
    then show ?thesis using law(1) staged stage_inv [OF assms(3) staged(4) _ conjunct1 [OF c] Inr] by simp
  qed
next
  case marked
  then show ?thesis using assms mark_inv by blast
next
  case promoted
  then show ?thesis using assms promote_inv by blast
next
  case (finalized job c now r)
  note c = request_commands [OF finalized(5)]
  have doc: "pc_DocumentID c = tk_Doc (job_ticket job)" using c by (simp add: commands_def)
  have law: "intact s'" "carries cellof s (pc_DocumentID c) (cell_finalize c (cellof s (pc_DocumentID c))) (r, s')"
    using finalize_law [OF assms(2), of c now] c finalized(6) by auto
  show ?thesis
  proof (cases "cell_finalize c (cellof s (tk_Doc (job_ticket job)))")
    case (Inl e)
    then show ?thesis using law finalized assms(3) doc by (simp add: carries_def)
  next
    case (Inr x0)
    then show ?thesis using law finalized doc finalize_inv [OF assms(3) finalized(4) conjunct1 [OF c] Inr] by (simp add: carries_def)
  qed
next
  case (cleared job c now r)
  note c = request_commands [OF cleared(6)]
  have doc: "pc_DocumentID c = tk_Doc (job_ticket job)" using c by (simp add: commands_def)
  have law: "intact s'" "carries cellof s (pc_DocumentID c) (Inr (cell_clear c (cellof s (pc_DocumentID c)))) (r, s')"
    using clear_law [OF assms(2), of c now] c cleared(7) by auto
  then show ?thesis using cleared doc clear_inv [OF assms(3) cleared(4) _ conjunct1 [OF c]] by (simp add: carries_def)
next
  case other
  then show ?thesis using assms elsewhere_law by metis
qed

lemma reach_inv:
  assumes "mreach E A stage finalize clear elsewhere s0 x" "intact s0" "cellof s0 = (\<lambda>_. None)"
  shows "intact (fst (snd x)) \<and> media_inv_of (fst x) (cellof (fst (snd x))) (fst (snd (snd x))) (snd (snd (snd x)))"
  using assms(1)
proof induction
  case start
  have "media_inv_of empty_db (\<lambda>_. None) {} {}"
    by (simp add: media_inv_of_def ledger_inv_def shown_inv_def tickets_def progressed_def pub_state_def empty_db_def tbl_simps)
  then show ?case using assms(2,3) by simp
next
  case (step x y)
  then show ?case
    using step_inv [of E A "fst x" "fst (snd x)" "fst (snd (snd x))" "snd (snd (snd x))" "fst y" "fst (snd y)" "fst (snd (snd y))" "snd (snd (snd y))"]
    by simp
qed

text \<open>A published document shows only attachments that its cell shows.\<close>

lemma published_shown:
  assumes "mreach E A stage finalize clear elsewhere s0 (db, s, J, T)" "intact s0" "cellof s0 = (\<lambda>_. None)"
    and d: "get_document d db = Some doc" "d_PublicationStatus doc = PublicationPublished"
  shows "media_of db d \<subseteq> cell_shows (cellof s d)"
proof -
  have i: "media_inv_of db (cellof s) J T" using reach_inv [OF assms(1-3)] by simp
  let ?g = "d_PublicationGeneration doc"
  have ps: "pub_state (t_documents db) d = Some (?g, PublicationPublished)" using d by (simp add: pub_state_def get_document_def)
  note D = shownD [OF media_invD(5) [OF i] ps]
  from D(4) obtain t where t: "t \<in> J" "tk_Doc t = d" "tk_Gen t = ?g" "media_of db d \<subseteq> set (tk_Ids t)" by blast
  have act: "tk_Action t = publicationActionPublish" using ledgerD(3) [OF media_invD(1) [OF i] t(1)] ps t(2,3) by (simp add: settled_def)
  have g: "1 \<le> ?g" using ledgerD(1) [OF media_invD(1) [OF i] t(1)] t(3) by simp
  have slot: "sl_Attachments sl = set (tk_Ids t)" if "slot_ok J d sl" "sl_Generation sl = ?g" for sl
  proof -
    from that g obtain u where u: "u \<in> J" "tk_Doc u = d" "tk_Gen u = ?g" "sl_Attachments sl = (if tk_Action u = publicationActionClear then {} else set (tk_Ids u))"
      by (auto simp: slot_ok_def)
    then have "u = t" using ledgerD(4) [OF media_invD(1) [OF i] u(1) t(1)] t by simp
    then show ?thesis using u(4) act by simp
  qed
  from D(3) obtain x where x: "cellof s d = Some x" "holds (Some x) ?g" by (auto simp: holds_def split: option.split_asm)
  then have "set (tk_Ids t) \<subseteq> cell_shows (Some x)"
    using slot media_invD(4) [OF i x(1)] by (auto simp: holds_def cell_ok_def cell_shows_def split: option.split_asm)
  then show ?thesis using t(4) x(1) by simp
qed

end

section \<open>The attachment service provides it\<close>

definition attachment_step :: "aenv \<Rightarrow> adb \<Rightarrow> adb \<Rightarrow> bool" where
  "attachment_step A s s' \<longleftrightarrow> astep A s s' \<and> a_references s' = a_references s \<and> a_reference_heads s' = a_reference_heads s"

lemma implements_carries: "implements db docID spec res \<Longrightarrow> carries reference_cell db docID spec res"
  by (auto simp: implements_def carries_def split: sum.split_asm)

interpretation attref: reference_service StagePublicationReferences FinalizePublicationReferences ClearPublicationReferences
  "attachment_step A" life_inv reference_cell all_ready
proof unfold_locales
  fix s s' :: adb and c now
  assume i: "life_inv s"
  note ok = life_invD(1) [OF i]
  {
    assume v: "valid_command c"
    show "life_inv (snd (StagePublicationReferences now c s)) \<and>
      carries reference_cell s (pc_DocumentID c) (cell_stage c (all_ready c s) (reference_cell s (pc_DocumentID c))) (StagePublicationReferences now c s)"
      using reference_life(1) [OF i v] implements_carries [OF stage_implements [OF ok v]] by blast
    show "life_inv (snd (FinalizePublicationReferences now c s)) \<and>
      carries reference_cell s (pc_DocumentID c) (cell_finalize c (reference_cell s (pc_DocumentID c))) (FinalizePublicationReferences now c s)"
      using reference_life(2) [OF i v] implements_carries [OF finalize_implements [OF ok v]] by blast
    show "life_inv (snd (ClearPublicationReferences now c s)) \<and>
      carries reference_cell s (pc_DocumentID c) (Inr (cell_clear c (reference_cell s (pc_DocumentID c)))) (ClearPublicationReferences now c s)"
      using reference_life(3) [OF i v] implements_carries [OF clear_implements [OF ok v]] by blast
  next
    assume "attachment_step A s s'"
    then show "life_inv s' \<and> reference_cell s' = reference_cell s"
      using astep_life [OF _ i] by (auto simp: attachment_step_def reference_cell_def reference_head_def refs_of_def [abs_def] fun_eq_iff)
  }
qed

abbreviation system_reach where
  "system_reach E A \<equiv> mreach E A StagePublicationReferences FinalizePublicationReferences ClearPublicationReferences (attachment_step A) empty_adb"

lemma empty_cells: "reference_cell empty_adb = (\<lambda>_. None)"
  by (simp add: reference_cell_def reference_head_def empty_adb_def tbl_simps fun_eq_iff)

lemma system_life: "system_reach E A (db, adb, J, T) \<Longrightarrow> life_inv adb"
  using attref.reach_inv [where x = "(db, adb, J, T)"] empty_life empty_cells by fastforce

section \<open>A worked example\<close>

lemma tame_no_new: "tame db db' \<Longrightarrow> no_new_publication db db'"
  unfolding no_new_publication_def
proof (intro allI impI)
  fix d g
  assume t: "tame db db'" and p: "pub_state (t_documents db') d = Some (g, PublicationPublished)"
  have "move (pub_state (t_documents db) d) (pub_state (t_documents db') d)" using t by (simp add: tame_def)
  then show "pub_state (t_documents db) d = Some (g, PublicationPublished)" using p by cases (auto simp: settled_def)
qed

lemma idle_call:
  assumes "kstep E db db'" "t_jobs db = []" "progressed db' = {}"
  shows "mstep E A stage finalize clear elsewhere (db, s, {}, T) (db', s, tickets db', T)"
proof -
  have "tame db db'"
    by (rule saga_step_tame [OF kstep_saga [OF assms(1)]]) (simp add: promotable_def get_job_def assms(2) tbl_simps)
  then show ?thesis
    using mstep.call [of E db db' "{}" A stage finalize clear elsewhere s T] assms tame_no_new
    by (simp add: unused_def)
qed

lemma ready_system: "system_reach sample_env sample_aenv (empty_db, ready_adb, {}, {})"
proof -
  have other: "system_reach sample_env sample_aenv (empty_db, s', {}, {})"
    if "system_reach sample_env sample_aenv (empty_db, s, {}, {})" "astep sample_aenv s s'" "a_references s' = a_references s" "a_reference_heads s' = a_reference_heads s" for s s'
    using that by (intro mreach.step [OF that(1)] mstep.other) (simp add: attachment_step_def)
  have refs: "a_references uploaded_adb = []" "a_references scanning_adb = []" "a_references ready_adb = []"
    "a_reference_heads uploaded_adb = []" "a_reference_heads scanning_adb = []" "a_reference_heads ready_adb = []" by code_simp+
  have "astep sample_aenv empty_adb uploaded_adb" unfolding uploaded_adb_def
    by (rule astep.create [OF prod.collapse [symmetric]]) (simp add: sample_attachment_def)
  then have "system_reach sample_env sample_aenv (empty_db, uploaded_adb, {}, {})"
    by (rule other [OF mreach.start]) (simp_all add: refs empty_adb_def)
  moreover have "astep sample_aenv uploaded_adb scanning_adb" unfolding scanning_adb_def by (rule astep.mark [OF prod.collapse [symmetric]])
  ultimately have "system_reach sample_env sample_aenv (empty_db, scanning_adb, {}, {})" by (rule other) (simp_all add: refs)
  moreover have "astep sample_aenv scanning_adb ready_adb" unfolding ready_adb_def
  proof (rule astep.complete [OF prod.collapse [symmetric]])
    fix row assume "get_attachment ''att-1'' scanning_adb = Some row"
    moreover have "map_option at_Status (get_attachment ''att-1'' scanning_adb) = Some StatusScanning" by code_simp
    ultimately show "at_Status row = StatusScanning" by simp
  qed
  ultimately show ?thesis by (rule other) (simp_all add: refs)
qed

lemma sample_steps: "kstep sample_env empty_db created_db" "kstep sample_env created_db submitted_db"
  unfolding created_db_def submitted_db_def
  by (rule kstep.create [OF prod.collapse [symmetric]], simp add: draft_document_def sample_document_def, rule kstep.publish [OF prod.collapse [symmetric]])

lemma submitted_system: "system_reach sample_env sample_aenv (submitted_db, ready_adb, tickets submitted_db, {})"
proof -
  have facts: "tickets created_db = {}" "t_jobs created_db = []" "t_jobs empty_db = []" "progressed created_db = {}" "progressed submitted_db = {}" by code_simp+
  have "system_reach sample_env sample_aenv (created_db, ready_adb, {}, {})"
    using mreach.step [OF ready_system idle_call [OF sample_steps(1)]] facts by simp
  then show ?thesis using mreach.step [OF _ idle_call [OF sample_steps(2)]] facts by simp
qed

lemma published_system: "\<exists>J T. system_reach sample_env sample_aenv (published_db, referenced_adb, J, T)"
proof -
  let ?t = "job_ticket sample_job"
  have t: "tickets submitted_db = {?t}" by code_simp
  have c: "publicationCommand sample_aenv (command_request sample_job) False = Some sample_command"
    unfolding sample_command_def by code_simp
  have ok: "\<not> isl (fst (StagePublicationReferences 4 sample_command ready_adb))" by code_simp
  have "system_reach sample_env sample_aenv (submitted_db, referenced_adb, {?t}, insert ?t {})"
  proof -
    have "mstep sample_env sample_aenv StagePublicationReferences FinalizePublicationReferences ClearPublicationReferences (attachment_step sample_aenv)
        (submitted_db, ready_adb, tickets submitted_db, {}) (submitted_db, referenced_adb, tickets submitted_db,
          if isl (fst (StagePublicationReferences 4 sample_command ready_adb)) then {} else insert ?t {})"
      unfolding referenced_adb_def by (rule mstep.staged [OF _ _ c prod.collapse [symmetric]]) (simp_all add: t sample_job_def)
    from mreach.step [OF submitted_system this] show ?thesis using ok t by simp
  qed
  then have "system_reach sample_env sample_aenv (staged_db, referenced_adb, {?t}, insert ?t {})"
  proof (rule mreach.step)
    have "MarkPublicationReferencesStaged 300 (tk_ID ?t) submitted_db = (fst (MarkPublicationReferencesStaged 300 ''id-0'' submitted_db), staged_db)"
      by (simp add: staged_db_def sample_job_def)
    from mstep.marked [OF insertI1 this] show "mstep sample_env sample_aenv StagePublicationReferences FinalizePublicationReferences
        ClearPublicationReferences (attachment_step sample_aenv) (submitted_db, referenced_adb, {?t}, insert ?t {}) (staged_db, referenced_adb, {?t}, insert ?t {})" .
  qed
  then have "system_reach sample_env sample_aenv (published_db, referenced_adb, {?t}, insert ?t {})"
    unfolding published_db_def by (rule mreach.step) (rule mstep.promoted [OF _ prod.collapse [symmetric]], simp)
  then show ?thesis by blast
qed

section \<open>Properties\<close>

text \<open>C3: The attachments of a published document are always handed out. In every reachable state of the two services, with
  any number of workers, retries and superseded jobs in between, each attachment recorded for a document that is
  published is one the attachment service's public lookup returns.\<close>

theorem published_media_served:
  assumes "system_reach E A (db, adb, J, T)" "get_document d db = Some doc" "d_PublicationStatus doc = PublicationPublished"
    and "r \<in> set (t_media_refs db)" "mr_DocumentID r = d"
  shows "\<exists>a. GetPublished (mr_AttachmentID r) adb = Inr a"
proof -
  have "mr_AttachmentID r \<in> media_of db d" using assms(4,5) by (auto simp: media_of_def)
  then have s: "mr_AttachmentID r \<in> cell_shows (reference_cell adb d)"
    using attref.published_shown [OF assms(1) empty_life empty_cells assms(2,3)] by blast
  note inv = system_life [OF assms(1)]
  have "mr_AttachmentID r \<in> referenced adb" using s referenced_shown [OF life_invD(1) [OF inv]] by blast
  from life_invD(6) [OF inv this] obtain row where "get_attachment (mr_AttachmentID r) adb = Some row" "at_Status row = StatusReady"
    by (auto simp: status_of_def)
  then show ?thesis using s GetPublished_iff [OF life_invD(1,2) [OF inv]] by blast
qed

theorem published_media_served_witness:
  "\<exists>a. GetPublished ''att-1'' referenced_adb = Inr a"
proof -
  obtain J T where reach: "system_reach sample_env sample_aenv (published_db, referenced_adb, J, T)" using published_system by blast
  have "map_option d_PublicationStatus (get_document ''doc-1'' published_db) = Some PublicationPublished" by code_simp
  then obtain doc where doc: "get_document ''doc-1'' published_db = Some doc" "d_PublicationStatus doc = PublicationPublished" by auto
  have "map (\<lambda>r. (mr_DocumentID r, mr_AttachmentID r)) (t_media_refs published_db) = [(''doc-1'', ''att-1'')]" by code_simp
  then obtain r where r: "t_media_refs published_db = [r]" "mr_DocumentID r = ''doc-1''" "mr_AttachmentID r = ''att-1''" by (auto simp: map_eq_Cons_conv)
  from published_media_served [OF reach doc, of r] r show ?thesis by simp
qed

end
