(* ===== verification/MediaWorker.thy ===== *)
theory MediaWorker
  imports MediaConsistency
begin

text \<open>
  The publication lane of the background worker, run against the attachment service through the client of
  \<open>services/knowledge/internal/client/attachment.go\<close>, takes only steps of the combined system: it reports a job
  as staged only after staging it, and acts only for jobs it has claimed.
\<close>

section \<open>The worker's services\<close>

definition reply :: "aservice_err + unit \<Rightarrow> string option" where
  "reply r = (case r of Inl _ \<Rightarrow> Some ''attachment call failed'' | Inr _ \<Rightarrow> None)"

text \<open>The attachment service with a count of the calls it answered, which its clock is read by.\<close>

type_synonym attachment_host = "adb \<times> nat"

definition client_call ::
  "(nat \<Rightarrow> time) \<Rightarrow> (time \<Rightarrow> reference_request \<Rightarrow> adb \<Rightarrow> (aservice_err + unit) \<times> adb) \<Rightarrow> PublicationReferenceJob \<Rightarrow> attachment_host \<Rightarrow> string option \<times> attachment_host" where
  "client_call clock f job x = (case f (clock (snd x)) (command_request job) (fst x) of (r, s') \<Rightarrow> (reply r, (s', Suc (snd x))))"

definition attachment_services :: "aenv \<Rightarrow> (nat \<Rightarrow> time) \<Rightarrow> attachment_host services \<Rightarrow> attachment_host services" where
  "attachment_services A clock S = S\<lparr>sv_Stage := client_call clock (ServiceStage A),
     sv_Finalize := client_call clock (ServiceFinalize A), sv_Clear := client_call clock (ServiceClear A)\<rparr>"

lemma client_services:
  "sv_Stage (attachment_services A clock S) = client_call clock (ServiceStage A)"
  "sv_Finalize (attachment_services A clock S) = client_call clock (ServiceFinalize A)"
  "sv_Clear (attachment_services A clock S) = client_call clock (ServiceClear A)"
  by (simp_all add: attachment_services_def)

section \<open>Triples over worlds\<close>

definition mtriple :: "('x world \<Rightarrow> bool) \<Rightarrow> ('a, 'x) work \<Rightarrow> ('a \<Rightarrow> 'x world \<Rightarrow> bool) \<Rightarrow> ('x world \<Rightarrow> bool) \<Rightarrow> bool" where
  "mtriple P m Q R \<longleftrightarrow> (\<forall>w. P w \<longrightarrow> (case m w of (Inl e, w') \<Rightarrow> R w' | (Inr a, w') \<Rightarrow> Q a w'))"

lemma mtriple_ret: "(\<And>w. P w \<Longrightarrow> Q a w) \<Longrightarrow> mtriple P (wret a) Q R"
  by (simp add: mtriple_def wret_def)

lemma mtriple_raise: "(\<And>w. P w \<Longrightarrow> R w) \<Longrightarrow> mtriple P (wraise e) Q R"
  by (simp add: mtriple_def wraise_def)

lemma mtriple_if: "(b \<Longrightarrow> mtriple P m Q R) \<Longrightarrow> (\<not> b \<Longrightarrow> mtriple P n Q R) \<Longrightarrow> mtriple P (if b then m else n) Q R"
  by simp

lemma mtriple_bind:
  fixes m :: "('a, 'x) work"
  assumes "mtriple P m Q R" "\<And>a. mtriple (Q a) (f a) Q' R"
  shows "mtriple P (wbind m f) Q' R"
  unfolding mtriple_def
proof (intro allI impI)
  fix w :: "'x world" assume "P w"
  then have "case m w of (Inl e, w') \<Rightarrow> R w' | (Inr a, w') \<Rightarrow> Q a w'" using assms(1) by (simp add: mtriple_def)
  then show "case wbind m f w of (Inl e, w') \<Rightarrow> R w' | (Inr a, w') \<Rightarrow> Q' a w'"
    using assms(2) by (cases "m w"; cases "fst (m w)") (auto simp: mtriple_def wbind_def)
qed

lemma mtriple_catch:
  fixes m :: "('a, 'x) work"
  assumes "mtriple P m Q R'" "\<And>e. mtriple R' (h e) Q R"
  shows "mtriple P (wcatch m h) Q R"
  unfolding mtriple_def
proof (intro allI impI)
  fix w :: "'x world" assume "P w"
  then have "case m w of (Inl e, w') \<Rightarrow> R' w' | (Inr a, w') \<Rightarrow> Q a w'" using assms(1) by (simp add: mtriple_def)
  then show "case wcatch m h w of (Inl e, w') \<Rightarrow> R w' | (Inr a, w') \<Rightarrow> Q a w'"
    using assms(2) by (cases "m w"; cases "fst (m w)") (auto simp: mtriple_def wcatch_def)
qed

lemma mtriple_join: "mtriple P m Q R \<Longrightarrow> mtriple P (wjoin e m) Q R"
  unfolding wjoin_def by (rule mtriple_catch) (auto intro: mtriple_raise)

lemma mtriple_iter: "(\<And>x. x \<in> set xs \<Longrightarrow> mtriple P (f x) (\<lambda>_. P) P) \<Longrightarrow> mtriple P (witer f xs) (\<lambda>_. P) P"
  by (induction xs) (auto intro: mtriple_ret mtriple_bind)

lemma mtriple_post: "mtriple P m Q R \<Longrightarrow> (\<And>a w. Q a w \<Longrightarrow> Q' a w) \<Longrightarrow> (\<And>w. R w \<Longrightarrow> R' w) \<Longrightarrow> mtriple P m Q' R'"
  by (fastforce simp: mtriple_def split: prod.split_asm sum.split_asm prod.split sum.split)

section \<open>Quiet repository calls\<close>

definition quiet_call :: "kenv \<Rightarrow> kdb \<Rightarrow> kdb \<Rightarrow> bool" where
  "quiet_call E db db' \<longleftrightarrow> kstep E db db' \<and> progressed db' \<subseteq> progressed db \<and> tame db db' \<and> tickets db' \<subseteq> tickets db
     \<and> (\<forall>d. pub_state (t_documents db) d = None \<longrightarrow> pub_state (t_documents db') d = None)"

lemma quiet_callI:
  assumes k: "kstep E db db'" and t: "tame db db'"
    and d: "t_documents db' = tbl_upd (\<lambda>d. d_ID d = k) f (t_documents db)" "\<And>d. d_ID (f d) = d_ID d"
    and j: "t_jobs db' = tbl_upd q h (tbl_del p (t_jobs db))" "\<And>j. row_ticket (h j) = row_ticket j" "\<And>j. j_State (h j) = j_State j"
  shows "quiet_call E db db'"
proof -
  let ?st = "\<lambda>j. (j_State j = publicationJobStaged \<or> j_State j = publicationJobPromoted, row_ticket j)"
  have m: "map ?st (t_jobs db') = map ?st (tbl_del p (t_jobs db))"
    unfolding j(1) by (rule map_key_upd [where key = ?st]) (simp add: j(2,3))
  have T: "tickets x = set (map snd (map ?st (t_jobs x)))" "progressed x = set (map snd (filter fst (map ?st (t_jobs x))))" for x
    by (simp_all add: tickets_def progressed_def filter_map comp_def)
  have "set (map ?st (tbl_del p (t_jobs db))) \<subseteq> set (map ?st (t_jobs db))" unfolding set_map by (simp add: tbl_del_def image_mono)
  moreover have "set (map snd ys) \<subseteq> set (map snd xs)" "set (map snd (filter fst ys)) \<subseteq> set (map snd (filter fst xs))"
    if "set ys \<subseteq> set xs" for xs ys :: "(bool \<times> ticket) list" using that by auto
  ultimately have "tickets db' \<subseteq> tickets db" "progressed db' \<subseteq> progressed db" unfolding T m by blast+
  moreover have "pub_state (t_documents db') x = None" if "pub_state (t_documents db) x = None" for x
    using that d(2) unfolding d(1) by (subst pub_state_upd) (auto simp: pub_state_def)
  ultimately show ?thesis using k t by (simp add: quiet_call_def)
qed

lemma failed_quiet: "kstep E db db \<Longrightarrow> quiet_call E db db"
  by (auto simp: quiet_call_def intro: tameI move.stay)

lemma upd_self: "tbl_upd p (\<lambda>x. x) rows = rows" "tbl_del (\<lambda>_. False) rows = rows"
  by (simp_all add: tbl_upd_def tbl_del_def)

lemma complete_quiet:
  assumes "CompletePublicationReferenceJob E now i clear db = (r, db')"
  shows "quiet_call E db db'"
proof (cases r)
  case (Inl e)
  then show ?thesis using assms kstep.complete [OF assms] by (auto simp: CompletePublicationReferenceJob_def transaction_Inl intro: failed_quiet)
next
  case (Inr u)
  from assms [unfolded Inr] show ?thesis
  proof (rule CompletePublicationReferenceJob_success)
    fix j
    assume c: "core db' = core (if clear
       then db\<lparr>t_documents := tbl_upd (\<lambda>d. d_ID d = j_DocumentID j) (at_generation (j_Generation j) (cleared_row now)) (t_documents db),
               t_media_refs := tbl_del (\<lambda>r. mr_DocumentID r = j_DocumentID j \<and> mr_Generation r = j_Generation j) (t_media_refs db),
               t_jobs := tbl_del (\<lambda>x. j_ID x = i) (t_jobs db)\<rparr>
       else db\<lparr>t_jobs := tbl_del (\<lambda>x. j_ID x = i) (t_jobs db)\<rparr>)"
    show ?thesis
    proof (cases clear)
      case True
      have "tame db db'" using saga_view_core [OF c] True by (intro cleared_tame) simp
      then show ?thesis
        by (rule quiet_callI [OF kstep.complete [OF assms], where f = "at_generation (j_Generation j) (cleared_row now)" and k = "j_DocumentID j"
              and p = "\<lambda>x. j_ID x = i" and h = "\<lambda>j. j" and q = "\<lambda>_. True"])
          (use c True in \<open>simp_all add: core_def upd_self at_generation_def cleared_row_def\<close>)
    next
      case False
      have "tame db db'"
        by (rule tame_view [OF saga_view_core [OF c]]) (use False in \<open>auto intro!: tameI move.stay tickets_del simp: media_of_def\<close>)
      then show ?thesis
        by (rule quiet_callI [OF kstep.complete [OF assms], where f = "\<lambda>d. d" and k = "[]" and p = "\<lambda>x. j_ID x = i" and h = "\<lambda>j. j" and q = "\<lambda>_. True"])
          (use c False in \<open>simp_all add: core_def upd_self\<close>)
    qed
  qed
qed

lemma park_quiet:
  assumes "ParkPublicationReferenceJob E now i key publish db = (r, db')"
  shows "quiet_call E db db'"
proof (cases r)
  case (Inl e)
  then show ?thesis using assms kstep.park_job [OF assms] by (auto simp: ParkPublicationReferenceJob_def transaction_Inl intro: failed_quiet)
next
  case (Inr u)
  from assms [unfolded Inr] show ?thesis
  proof (rule ParkPublicationReferenceJob_success)
    fix j
    assume c: "core db' = core (db\<lparr>
       t_documents := tbl_upd (\<lambda>d. d_ID d = j_DocumentID j) (at_generation (j_Generation j) (failed_row now key publish)) (t_documents db),
       t_jobs := tbl_upd (\<lambda>x. j_ID x = i) (parked_job now key) (t_jobs db)\<rparr>)"
    have "tame db db'" using saga_view_core [OF c] by (rule failed_tame)
    then show ?thesis
      by (rule quiet_callI [OF kstep.park_job [OF assms], where f = "at_generation (j_Generation j) (failed_row now key publish)" and k = "j_DocumentID j"
            and p = "\<lambda>_. False" and h = "parked_job now key" and q = "\<lambda>x. j_ID x = i"])
        (use c in \<open>simp_all add: core_def upd_self at_generation_def failed_row_def parked_job_def row_ticket_def\<close>)
  qed
qed

lemma requeue_quiet:
  assumes "kstep E db db'" "db' = t_jobs_update (tbl_upd q h) db" "\<And>j. row_ticket (h j) = row_ticket j" "\<And>j. j_State (h j) = j_State j"
  shows "quiet_call E db db'"
proof -
  have "tame db db'"
    using tickets_upd [of db' q h db] assms(2,3) by (intro tameI) (auto simp: media_of_def intro: move.stay)
  then show ?thesis
    by (rule quiet_callI [OF assms(1), where f = "\<lambda>d. d" and k = "[]" and p = "\<lambda>_. False" and h = h and q = q])
      (use assms in \<open>simp_all add: upd_self\<close>)
qed

lemma retry_quiet:
  assumes "RetryPublicationReferenceJob now i key n db = (r, db')"
  shows "quiet_call E db db'"
  by (rule requeue_quiet [OF kstep.retry_job [OF assms], where q = "\<lambda>j. j_ID j = i \<and> j_ParkedAt j = None"
        and h = "\<lambda>j. j\<lparr>j_NextAttemptAt := now + publicationRetryDelay n, j_LeaseUntil := None, j_LastErrorKey := key, j_UpdatedAt := now\<rparr>"])
    (use assms in \<open>auto simp: RetryPublicationReferenceJob_def transaction_def twrite_def row_ticket_def\<close>)

lemma claim_quiet:
  assumes "ClaimPublicationReferenceJobs now limit lease db = (r, db')"
  shows "quiet_call E db db'" "\<exists>jobs. r = Inr jobs \<and> job_ticket ` set jobs \<subseteq> tickets db"
proof -
  let ?rows = "tbl_select (job_due now) (\<lambda>j. (j_NextAttemptAt j, j_CreatedAt j, j_ID j)) (nat (if limit \<le> 0 then 20 else limit)) (t_jobs db)"
  show "quiet_call E db db'"
    by (rule requeue_quiet [OF kstep.claim_jobs [OF assms], where q = "\<lambda>j. j_ID j \<in> j_ID ` set ?rows"
          and h = "\<lambda>j. j\<lparr>j_Attempts := j_Attempts j + 1, j_LeaseUntil := Some (now + lease), j_UpdatedAt := now\<rparr>"])
      (use assms in \<open>auto simp: ClaimPublicationReferenceJobs_def Let_def row_ticket_def\<close>)
  have r: "r = Inr (map job_from_model ?rows)" using assms by (auto simp: ClaimPublicationReferenceJobs_def Let_def)
  have "job_ticket (job_from_model j) = row_ticket j" for j by (simp add: job_ticket_def row_ticket_def job_from_model_def)
  then have "job_ticket ` set (map job_from_model ?rows) = row_ticket ` set ?rows" by (simp add: image_image)
  moreover have "row_ticket ` set ?rows \<subseteq> row_ticket ` set (t_jobs db)" by (intro image_mono subsetI) (drule tbl_select_in, simp)
  ultimately have "job_ticket ` set (map job_from_model ?rows) \<subseteq> tickets db" by (simp only: tickets_def set_map)
  then show "\<exists>jobs. r = Inr jobs \<and> job_ticket ` set jobs \<subseteq> tickets db" unfolding r by blast
qed

section \<open>The lane stays in the system\<close>

text \<open>A world in which the tickets \<open>Ts\<close> have been issued, and \<open>Us\<close> have been staged.\<close>

definition in_system :: "kenv \<Rightarrow> aenv \<Rightarrow> ticket set \<Rightarrow> ticket set \<Rightarrow> attachment_host world \<Rightarrow> bool" where
  "in_system E A Ts Us w \<longleftrightarrow> (\<exists>J T. system_reach E A (w_db w, fst (w_services w), J, T) \<and> Ts \<subseteq> J \<and> Us \<subseteq> T)"

lemma in_system_weaken: "in_system E A Ts Us w \<Longrightarrow> Ts' \<subseteq> Ts \<Longrightarrow> Us' \<subseteq> Us \<Longrightarrow> in_system E A Ts' Us' w"
  unfolding in_system_def by blast

lemma in_system_quiet:
  assumes "in_system E A Ts Us w" "quiet_call E (w_db w) db'"
  shows "in_system E A (Ts \<union> tickets (w_db w)) Us (w\<lparr>w_db := db', w_tick := n\<rparr>)"
proof -
  from assms(1) obtain J T where r: "system_reach E A (w_db w, fst (w_services w), J, T)" and s: "Ts \<subseteq> J" "Us \<subseteq> T" by (auto simp: in_system_def)
  have J: "tickets (w_db w) \<subseteq> J"
    using attref.reach_inv [OF r empty_life empty_cells] media_invD(2) by fastforce
  have q: "kstep E (w_db w) db'" "progressed db' \<subseteq> progressed (w_db w)" "no_new_publication (w_db w) db'" "tickets db' \<subseteq> tickets (w_db w)"
    "\<forall>d. pub_state (t_documents (w_db w)) d = None \<longrightarrow> pub_state (t_documents db') d = None"
    using assms(2) tame_no_new by (auto simp: quiet_call_def)
  have "unused J (w_db w) db'" using q(4,5) J by (auto simp: unused_def)
  from mreach.step [OF r mstep.call [OF q(1-3) this]] show ?thesis
    unfolding in_system_def using s J by (intro exI [of _ "J \<union> tickets db'"] exI [of _ T]) auto
qed

lemma quiet_triple:
  assumes "\<And>now db r db'. f now db = (r, db') \<Longrightarrow> quiet_call E db db'"
  shows "mtriple (in_system E A Ts Us) (wrepo S f) (\<lambda>_. in_system E A Ts Us) (in_system E A Ts Us)"
  unfolding mtriple_def
proof (intro allI impI)
  fix w assume w: "in_system E A Ts Us w"
  obtain r db' where f: "f (sv_now S (w_tick w)) (w_db w) = (r, db')" by fastforce
  have "in_system E A Ts Us (w\<lparr>w_db := db', w_tick := Suc (w_tick w)\<rparr>)"
    using in_system_quiet [OF w assms [OF f]] by (rule in_system_weaken) auto
  then show "case wrepo S f w of (Inl e, w') \<Rightarrow> in_system E A Ts Us w' | (Inr a, w') \<Rightarrow> in_system E A Ts Us w'"
    by (cases r) (simp_all add: wrepo_def f)
qed

lemma mark_triple:
  assumes "t \<in> Us" "tk_ID t = i"
  shows "mtriple (in_system E A Ts Us) (wrepo S (\<lambda>now. MarkPublicationReferencesStaged now i)) (\<lambda>_. in_system E A Ts Us) (in_system E A Ts Us)"
  unfolding mtriple_def
proof (intro allI impI)
  fix w assume "in_system E A Ts Us w"
  then obtain J T where r: "system_reach E A (w_db w, fst (w_services w), J, T)" and s: "Ts \<subseteq> J" "Us \<subseteq> T" by (auto simp: in_system_def)
  obtain x db' where f: "MarkPublicationReferencesStaged (sv_now S (w_tick w)) i (w_db w) = (x, db')" by fastforce
  have "t \<in> T" using assms(1) s(2) by blast
  from mreach.step [OF r mstep.marked [OF this f [folded assms(2)]]]
  have "in_system E A Ts Us (w\<lparr>w_db := db', w_tick := Suc (w_tick w)\<rparr>)" using s by (auto simp: in_system_def)
  then show "case wrepo S (\<lambda>now. MarkPublicationReferencesStaged now i) w of (Inl e, w') \<Rightarrow> in_system E A Ts Us w' | (Inr a, w') \<Rightarrow> in_system E A Ts Us w'"
    by (cases x) (simp_all add: wrepo_def f)
qed

lemma promote_triple:
  assumes "job_ticket job \<in> Ts"
  shows "mtriple (in_system E A Ts Us) (wrepo S (\<lambda>now. PromotePublication E now job)) (\<lambda>_. in_system E A Ts Us) (in_system E A Ts Us)"
  unfolding mtriple_def
proof (intro allI impI)
  fix w assume "in_system E A Ts Us w"
  then obtain J T where r: "system_reach E A (w_db w, fst (w_services w), J, T)" and s: "Ts \<subseteq> J" "Us \<subseteq> T" by (auto simp: in_system_def)
  obtain x db' where f: "PromotePublication E (sv_now S (w_tick w)) job (w_db w) = (x, db')" by fastforce
  have "job_ticket job \<in> J" using assms(1) s(1) by blast
  from mreach.step [OF r mstep.promoted [OF this f]]
  have "in_system E A Ts Us (w\<lparr>w_db := db', w_tick := Suc (w_tick w)\<rparr>)" using s by (auto simp: in_system_def)
  then show "case wrepo S (\<lambda>now. PromotePublication E now job) w of (Inl e, w') \<Rightarrow> in_system E A Ts Us w' | (Inr a, w') \<Rightarrow> in_system E A Ts Us w'"
    by (cases x) (simp_all add: wrepo_def f)
qed

text \<open>A call through the client either is rejected before it reaches the repository or is a call of the repository.\<close>

lemma client_triple:
  fixes rep :: "time \<Rightarrow> PublicationReferenceCommand \<Rightarrow> adb \<Rightarrow> (aerr + unit) \<times> adb"
  assumes f: "\<And>now. f now = reference_call A e (rep now)"
    and step: "\<And>db s J T c now r s'. system_reach E A (db, s, J, T) \<Longrightarrow> Ts \<subseteq> J \<Longrightarrow> Us \<subseteq> T \<Longrightarrow>
       publicationCommand A (command_request job) e = Some c \<Longrightarrow> rep now c s = (r, s') \<Longrightarrow>
       \<exists>J' T'. system_reach E A (db, s', J', T') \<and> Ts \<subseteq> J' \<and> (if isl r then Us else Vs) \<subseteq> T'"
  shows "mtriple (in_system E A Ts Us) (wservice (client_call clock f job)) (\<lambda>_. in_system E A Ts Vs) (in_system E A Ts Us)"
  unfolding mtriple_def
proof (intro allI impI)
  fix w assume "in_system E A Ts Us w"
  then obtain J T where r: "system_reach E A (w_db w, fst (w_services w), J, T)" and s: "Ts \<subseteq> J" "Us \<subseteq> T" by (auto simp: in_system_def)
  obtain s0 n where ws: "w_services w = (s0, n)" by fastforce
  show "case wservice (client_call clock f job) w of (Inl e, w') \<Rightarrow> in_system E A Ts Us w' | (Inr a, w') \<Rightarrow> in_system E A Ts Vs w'"
  proof (cases "publicationCommand A (command_request job) e")
    case None
    then show ?thesis using r s ws by (auto simp: wservice_def client_call_def f reference_call_def reply_def in_system_def)
  next
    case (Some c)
    obtain x s' where x: "rep (clock n) c s0 = (x, s')" by fastforce
    from step [OF r [unfolded ws fst_conv] s Some x] ws Some x show ?thesis
      by (cases x) (auto simp: wservice_def client_call_def f reference_call_def reply_def in_system_def)
  qed
qed

lemma stage_triple:
  assumes "job_ticket job \<in> Ts" "prj_Action job \<noteq> publicationActionClear"
  shows "mtriple (in_system E A Ts Us) (wservice (sv_Stage (attachment_services A clock S) job))
    (\<lambda>_. in_system E A Ts (insert (job_ticket job) Us)) (in_system E A Ts Us)"
  unfolding client_services
proof (rule client_triple [where rep = StagePublicationReferences and e = False])
  fix db s J T c now r s'
  assume a: "system_reach E A (db, s, J, T)" "Ts \<subseteq> J" "Us \<subseteq> T" "publicationCommand A (command_request job) False = Some c" "StagePublicationReferences now c s = (r, s')"
  have "job_ticket job \<in> J" using assms(1) a(2) by blast
  from mreach.step [OF a(1) mstep.staged [where stage = StagePublicationReferences, OF this assms(2) a(4,5)]]
  show "\<exists>J' T'. system_reach E A (db, s', J', T') \<and> Ts \<subseteq> J' \<and> (if isl r then Us else insert (job_ticket job) Us) \<subseteq> T'"
    using a(2,3) by (auto split: if_split_asm)
qed (simp add: ServiceStage_def fun_eq_iff)

lemma finalize_triple:
  assumes "job_ticket job \<in> Ts"
  shows "mtriple (in_system E A Ts Us) (wservice (sv_Finalize (attachment_services A clock S) job)) (\<lambda>_. in_system E A Ts Us) (in_system E A Ts Us)"
  unfolding client_services
proof (rule client_triple [where rep = FinalizePublicationReferences and e = False])
  fix db s J T c now r s'
  assume a: "system_reach E A (db, s, J, T)" "Ts \<subseteq> J" "Us \<subseteq> T" "publicationCommand A (command_request job) False = Some c" "FinalizePublicationReferences now c s = (r, s')"
  have "job_ticket job \<in> J" using assms(1) a(2) by blast
  from mreach.step [OF a(1) mstep.finalized [where finalize = FinalizePublicationReferences, OF this a(4,5)]]
  show "\<exists>J' T'. system_reach E A (db, s', J', T') \<and> Ts \<subseteq> J' \<and> (if isl r then Us else Us) \<subseteq> T'" using a(2,3) by auto
qed (simp add: ServiceFinalize_def fun_eq_iff)

lemma clear_triple:
  assumes "job_ticket job \<in> Ts" "prj_Action job = publicationActionClear"
  shows "mtriple (in_system E A Ts Us) (wservice (sv_Clear (attachment_services A clock S) job)) (\<lambda>_. in_system E A Ts Us) (in_system E A Ts Us)"
  unfolding client_services
proof (rule client_triple [where rep = ClearPublicationReferences and e = True])
  fix db s J T c now r s'
  assume a: "system_reach E A (db, s, J, T)" "Ts \<subseteq> J" "Us \<subseteq> T" "publicationCommand A (command_request job) True = Some c" "ClearPublicationReferences now c s = (r, s')"
  have "job_ticket job \<in> J" using assms(1) a(2) by blast
  from mreach.step [OF a(1) mstep.cleared [where clear = ClearPublicationReferences, OF this assms(2) a(4,5)]]
  show "\<exists>J' T'. system_reach E A (db, s', J', T') \<and> Ts \<subseteq> J' \<and> (if isl r then Us else Us) \<subseteq> T'" using a(2,3) by auto
qed (simp add: ServiceClear_def fun_eq_iff)

lemma publish_steps_system:
  assumes "job_ticket job \<in> Ts" "prj_Action job \<noteq> publicationActionClear"
  shows "mtriple (in_system E A Ts {}) (publish_steps (attachment_services A clock S) E job) (\<lambda>_. in_system E A Ts {}) (in_system E A Ts {})"
proof -
  let ?P = "in_system E A Ts {}"
  have tk: "job_ticket (job\<lparr>prj_State := st\<rparr>) \<in> Ts" for st using assms(1) by (simp add: job_ticket_def)
  have stage: "mtriple ?P (wbind (wservice (sv_Stage (attachment_services A clock S) job)) (\<lambda>_.
      wbind (wrepo (attachment_services A clock S) (\<lambda>now. MarkPublicationReferencesStaged now (prj_ID job))) (\<lambda>_. wret publicationJobStaged))) (\<lambda>_. ?P) ?P"
    by (rule mtriple_bind [OF stage_triple [OF assms]], rule mtriple_post, rule mtriple_bind [OF mark_triple [of "job_ticket job"]], simp, simp, rule mtriple_ret, assumption)
      (auto elim: in_system_weaken)
  have promote: "mtriple ?P (wbind (wrepo (attachment_services A clock S) (\<lambda>now. PromotePublication E now (job\<lparr>prj_State := st\<rparr>))) (\<lambda>_. wret publicationJobPromoted)) (\<lambda>_. ?P) ?P" for st
    by (rule mtriple_bind [OF promote_triple [OF tk]]) (rule mtriple_ret)
  have finish: "mtriple ?P (wbind (wservice (sv_Finalize (attachment_services A clock S) (job\<lparr>prj_State := st\<rparr>))) (\<lambda>_.
      wrepo (attachment_services A clock S) (\<lambda>now. CompletePublicationReferenceJob E now (prj_ID job) False))) (\<lambda>_. ?P) ?P" for st
    by (rule mtriple_bind [OF finalize_triple [OF tk]]) (rule quiet_triple, erule complete_quiet)
  show ?thesis
    unfolding publish_steps_def
    by (intro mtriple_bind [where Q = "\<lambda>_. ?P"] mtriple_if stage promote finish mtriple_ret mtriple_raise)
qed

lemma clear_steps_system:
  assumes "job_ticket job \<in> Ts" "prj_Action job = publicationActionClear"
  shows "mtriple (in_system E A Ts {}) (clear_steps (attachment_services A clock S) E job) (\<lambda>_. in_system E A Ts {}) (in_system E A Ts {})"
  unfolding clear_steps_def
  by (rule mtriple_bind [OF clear_triple [OF assms]]) (rule quiet_triple, erule complete_quiet)

lemma handle_system:
  assumes "job_ticket job \<in> Ts"
  shows "mtriple (in_system E A Ts {}) (handlePublicationReferenceJob (attachment_services A clock S) E job) (\<lambda>_. in_system E A Ts {}) (in_system E A Ts {})"
  unfolding handlePublicationReferenceJob_def
proof (rule mtriple_catch [where R' = "in_system E A Ts {}"])
  show "mtriple (in_system E A Ts {}) (if prj_Action job = publicationActionClear then clear_steps (attachment_services A clock S) E job
      else publish_steps (attachment_services A clock S) E job) (\<lambda>_. in_system E A Ts {}) (in_system E A Ts {})"
    using assms publish_steps_system clear_steps_system by (intro mtriple_if) auto
qed (intro mtriple_if mtriple_join quiet_triple; erule park_quiet retry_quiet)

lemma lane_system:
  "mtriple (in_system E A {} {}) (processPublicationReferences (attachment_services A clock S) E) (\<lambda>_. in_system E A {} {}) (in_system E A {} {})"
  unfolding processPublicationReferences_def
proof (rule mtriple_bind [where Q = "\<lambda>jobs. in_system E A (job_ticket ` set jobs) {}"])
  let ?S = "attachment_services A clock S"
  show "mtriple (in_system E A {} {}) (wrepo ?S (\<lambda>now. ClaimPublicationReferenceJobs now 10 (sv_OperationTimeout ?S)))
      (\<lambda>jobs. in_system E A (job_ticket ` set jobs) {}) (in_system E A {} {})"
    unfolding mtriple_def
  proof (intro allI impI)
    fix w assume w: "in_system E A {} {} w"
    obtain r db' where f: "ClaimPublicationReferenceJobs (sv_now ?S (w_tick w)) 10 (sv_OperationTimeout ?S) (w_db w) = (r, db')" by fastforce
    obtain jobs where jobs: "r = Inr jobs" "job_ticket ` set jobs \<subseteq> tickets (w_db w)" using claim_quiet(2) [OF f] by blast
    have "in_system E A (job_ticket ` set jobs) {} (w\<lparr>w_db := db', w_tick := Suc (w_tick w)\<rparr>)"
      using in_system_quiet [OF w claim_quiet(1) [OF f]] by (rule in_system_weaken) (use jobs(2) in auto)
    then show "case wrepo ?S (\<lambda>now. ClaimPublicationReferenceJobs now 10 (sv_OperationTimeout ?S)) w of
        (Inl e, w') \<Rightarrow> in_system E A {} {} w' | (Inr jobs, w') \<Rightarrow> in_system E A (job_ticket ` set jobs) {} w'"
      by (simp add: wrepo_def f jobs(1))
  qed
  fix jobs
  have "mtriple (in_system E A (job_ticket ` set jobs) {}) (witer (handlePublicationReferenceJob ?S E) jobs)
      (\<lambda>_. in_system E A (job_ticket ` set jobs) {}) (in_system E A (job_ticket ` set jobs) {})"
    by (rule mtriple_iter) (rule handle_system, simp)
  then show "mtriple (in_system E A (job_ticket ` set jobs) {}) (witer (handlePublicationReferenceJob ?S E) jobs) (\<lambda>_. in_system E A {} {}) (in_system E A {} {})"
    by (rule mtriple_post) (auto elim: in_system_weaken)
qed

section \<open>Properties\<close>


definition media_world :: "attachment_host world" where
  "media_world = \<lparr>w_db = submitted_db, w_tick = 0, w_pendingWake = 0, w_services = (ready_adb, 0)\<rparr>"

definition host_services :: "attachment_host services" where
  "host_services = attachment_services sample_aenv (\<lambda>n. 2000 + int n) \<lparr>sv_Stage = (\<lambda>_ x. (None, x)), sv_Finalize = (\<lambda>_ x. (None, x)),
     sv_Clear = (\<lambda>_ x. (None, x)), sv_Publish = (\<lambda>_ x. (None, x)), sv_PurgeDocument = (\<lambda>_ x. (None, x)),
     sv_now = (\<lambda>n. 1000 + int n), sv_OperationTimeout = 30 * second\<rparr>"


end
