(* ===== verification/AuthToken.thy ===== *)
theory AuthToken
  imports GoStrings
begin

text \<open>
  The access tokens of \<open>pkg/auth/token.go\<close>. The JWT library is a parameter: \<open>jw_numeric_date\<close> is its time stamp
  of a time, \<open>jw_sign\<close> the token it signs for claims, and \<open>jw_parse\<close> the claims of a token that it accepts at a
  time under the options of \<open>Verify\<close>.
\<close>

section \<open>Decimal numbers\<close>

text \<open>\<open>strconv.ParseInt(s, 10, 64)\<close>: an optional sign, digits, and a value of 64 bits.\<close>

definition digit_char :: "char \<Rightarrow> bool" where
  "digit_char c \<longleftrightarrow> 48 \<le> byte c \<and> byte c \<le> 57"

fun digits_value :: "int \<Rightarrow> string \<Rightarrow> int" where
  "digits_value acc [] = acc"
| "digits_value acc (c # cs) = digits_value (acc * 10 + (byte c - 48)) cs"

definition parse_int64 :: "string \<Rightarrow> int option" where
  "parse_int64 s =
     (let neg = (s \<noteq> [] \<and> hd s = CHR ''-''); ds = (if s \<noteq> [] \<and> (hd s = CHR ''-'' \<or> hd s = CHR ''+'') then tl s else s);
          v = (if neg then - digits_value 0 ds else digits_value 0 ds) in
      if ds = [] \<or> \<not> list_all digit_char ds \<or> v < - (2 ^ 63) \<or> 2 ^ 63 \<le> v then None else Some v)"

section \<open>Tokens\<close>

definition IssuerName :: string where "IssuerName = ''knowledge-core.identity''"

definition AudienceName :: string where "AudienceName = ''knowledge-core.api''"

definition MaxTokenLength :: nat where "MaxTokenLength = 4096"

definition SubjectTypeUser :: string where "SubjectTypeUser = ''user''"

definition SubjectTypeAgent :: string where "SubjectTypeAgent = ''agent''"

record Principal =
  pr_UserID :: int
  pr_SubjectType :: string
  pr_Role :: string
  pr_TokenVersion :: int
  pr_SessionID :: string
  pr_ExpiresAt :: time

record IssuedToken =
  tk_Value :: string
  tk_ExpiresAt :: time

record Claims =
  cl_Role :: string
  cl_SubjectType :: string
  cl_TokenVersion :: int
  cl_SessionID :: string
  cl_Issuer :: string
  cl_Subject :: string
  cl_Audience :: "string list"
  cl_ExpiresAt :: "time option"
  cl_NotBefore :: "time option"
  cl_IssuedAt :: "time option"
  cl_ID :: string

record jwtenv =
  jw_numeric_date :: "time \<Rightarrow> time"
  jw_sign :: "Claims \<Rightarrow> string + string"
  jw_parse :: "time \<Rightarrow> string \<Rightarrow> Claims option"

definition ValidateClaims :: "Claims \<Rightarrow> string + unit" where
  "ValidateClaims c =
     (if (case parse_int64 (cl_Subject c) of None \<Rightarrow> True | Some userID \<Rightarrow> userID \<le> 0) then Inl ''access token subject is invalid''
      else if cl_Role c = [] \<or> 32 < length (cl_Role c) then Inl ''access token role is invalid''
      else if cl_SubjectType c \<noteq> [] \<and> cl_SubjectType c \<noteq> SubjectTypeUser \<and> cl_SubjectType c \<noteq> SubjectTypeAgent
      then Inl ''access token subject type is invalid''
      else if cl_TokenVersion c \<le> 0 then Inl ''access token version is invalid''
      else if cl_ExpiresAt c = None \<or> cl_NotBefore c = None \<or> cl_IssuedAt c = None then Inl ''access token timestamps are required''
      else if cl_ID c = [] \<or> 128 < length (cl_ID c) then Inl ''access token ID is invalid''
      else Inr ())"

definition SubjectTypeOrUser :: "Claims \<Rightarrow> string" where
  "SubjectTypeOrUser c = (if cl_SubjectType c = [] then SubjectTypeUser else cl_SubjectType c)"

text \<open>\<open>tokenID\<close> is the random identifier, \<open>ttl\<close> the lifetime the issuer holds.\<close>

definition issue_claims :: "jwtenv \<Rightarrow> string \<Rightarrow> time \<Rightarrow> time \<Rightarrow> Principal \<Rightarrow> Claims" where
  "issue_claims W tokenID now expiresAt p = \<lparr>cl_Role = pr_Role p, cl_SubjectType = pr_SubjectType p, cl_TokenVersion = pr_TokenVersion p,
     cl_SessionID = pr_SessionID p, cl_Issuer = IssuerName, cl_Subject = show_int (pr_UserID p), cl_Audience = [AudienceName],
     cl_ExpiresAt = Some (jw_numeric_date W expiresAt), cl_NotBefore = Some (jw_numeric_date W now),
     cl_IssuedAt = Some (jw_numeric_date W now), cl_ID = tokenID\<rparr>"

definition Issue :: "jwtenv \<Rightarrow> string \<Rightarrow> duration \<Rightarrow> time \<Rightarrow> Principal \<Rightarrow> string + IssuedToken" where
  "Issue W tokenID ttl now p0 =
     (if pr_UserID p0 \<le> 0 \<or> pr_Role p0 = [] \<or> 32 < length (pr_Role p0) \<or> pr_TokenVersion p0 \<le> 0
      then Inl ''issue access token: principal is invalid''
      else let p = (if pr_SubjectType p0 = [] then p0\<lparr>pr_SubjectType := SubjectTypeUser\<rparr> else p0) in
      if pr_SubjectType p \<noteq> SubjectTypeUser \<and> pr_SubjectType p \<noteq> SubjectTypeAgent
      then Inl ''issue access token: subject type is invalid''
      else case jw_sign W (issue_claims W tokenID now (now + ttl) p) of
        Inl e \<Rightarrow> Inl e
      | Inr v \<Rightarrow> Inr \<lparr>tk_Value = v, tk_ExpiresAt = now + ttl\<rparr>)"

definition Verify :: "jwtenv \<Rightarrow> time \<Rightarrow> string \<Rightarrow> string + Principal" where
  "Verify W now value0 =
     (let v = trim_space value0 in
      if v = [] \<or> MaxTokenLength < length v then Inl ''verify access token: token is invalid''
      else case jw_parse W now v of
        None \<Rightarrow> Inl ''verify access token: token is invalid''
      | Some claims \<Rightarrow> (case parse_int64 (cl_Subject claims) of
          None \<Rightarrow> Inl ''verify access token: subject is invalid''
        | Some userID \<Rightarrow> Inr \<lparr>pr_UserID = userID, pr_SubjectType = SubjectTypeOrUser claims, pr_Role = cl_Role claims,
            pr_TokenVersion = cl_TokenVersion claims, pr_SessionID = cl_SessionID claims,
            pr_ExpiresAt = (case cl_ExpiresAt claims of None \<Rightarrow> 0 | Some t \<Rightarrow> t)\<rparr>))"

section \<open>Subjects\<close>

lemma digits_value_append: "digits_value acc (xs @ ys) = digits_value (digits_value acc xs) ys"
  by (induction xs arbitrary: acc) simp_all

lemma digits_value_acc: "digits_value acc xs = acc * 10 ^ length xs + digits_value 0 xs"
proof (induction xs arbitrary: acc)
  case (Cons c cs)
  show ?case using Cons.IH [of "acc * 10 + (byte c - 48)"] Cons.IH [of "byte c - 48"] by (simp add: algebra_simps)
qed simp

lemma digit_byte: "d < 10 \<Longrightarrow> byte (char_of (48 + d :: nat)) = (48 + int d :: int)"
proof -
  assume "d < 10"
  then have "(of_char (char_of (48 + d :: nat)) :: nat) = 48 + d" by (simp only: of_char_of) simp
  then show ?thesis by (metis of_nat_add of_nat_numeral of_nat_of_char)
qed

lemma show_nat_digits: "list_all digit_char (show_nat n) \<and> show_nat n \<noteq> [] \<and> digits_value 0 (show_nat n) = int n"
proof (induction n rule: show_nat.induct)
  case (1 n)
  show ?case
  proof (cases "n < 10")
    case True
    then show ?thesis by (simp add: show_nat.simps [of n] digit_char_def digit_byte)
  next
    case False
    have m: "n mod 10 < 10" by simp
    have "digit_char (char_of (48 + n mod 10))" using m by (simp add: digit_char_def digit_byte)
    moreover have "digits_value 0 (show_nat (n div 10) @ [char_of (48 + n mod 10)]) = int (n div 10 * 10 + n mod 10)"
      using 1 [OF False] m by (simp only: digits_value_append digit_byte) (simp add: digit_byte zdiv_int zmod_int)
    ultimately show ?thesis using 1 [OF False] False by (simp add: show_nat.simps [of n])
  qed
qed

lemma parse_show_int:
  assumes "0 < i" "i < 2 ^ 63"
  shows "parse_int64 (show_int i) = Some i"
proof -
  have d: "list_all digit_char (show_nat (nat i))" "show_nat (nat i) \<noteq> []" "digits_value 0 (show_nat (nat i)) = i"
    using show_nat_digits [of "nat i"] assms(1) by simp_all
  then have "digit_char (hd (show_nat (nat i)))" by (cases "show_nat (nat i)") auto
  then have "hd (show_nat (nat i)) \<noteq> CHR ''-''" "hd (show_nat (nat i)) \<noteq> CHR ''+''" by (auto simp: digit_char_def)
  then show ?thesis using d assms by (simp add: parse_int64_def show_int_def)
qed

end
