(* ===== verification/IdentityDomain.thy ===== *)
theory IdentityDomain
  imports AuthToken
begin

text \<open>
  Accounts, sessions and mail actions of the identity service, and the tokens it hands out:
  \<open>services/identity/internal/domain/user.go\<close>, \<open>session.go\<close>, \<open>action.go\<close> and
  \<open>security/refresh_token.go\<close>, \<open>action_token.go\<close>, \<open>email_payload.go\<close>. A string is a list of bytes, a missing
  pointer is \<open>None\<close>, random bytes are arguments. Digests, the cipher, the mail address parser and the
  Unicode tables are fields of the environment.
\<close>

section \<open>Environment\<close>

text \<open>
  \<open>ie_lower\<close>, \<open>ie_fold\<close>: the tables behind \<open>strings.ToLower\<close> and \<open>strings.EqualFold\<close>; \<open>ie_pg_lower\<close>: the
  function \<open>lower\<close> of the database; \<open>ie_parse_address\<close>: name and address \<open>mail.ParseAddress\<close> finds;
  \<open>ie_sha256\<close>, \<open>ie_hmac\<close> (key, message); \<open>ie_gcm_seal\<close>, \<open>ie_gcm_open\<close> (key, nonce, text);
  \<open>ie_bcrypt_hash\<close> (salt, password), \<open>ie_bcrypt_compare\<close> (hash, password); \<open>ie_jwt\<close>: the JWT
  library.
\<close>

record ienv =
  ie_lower :: "int \<Rightarrow> int"
  ie_fold :: "int \<Rightarrow> int"
  ie_pg_lower :: "string \<Rightarrow> string"
  ie_parse_address :: "string \<Rightarrow> (string \<times> string) option"
  ie_sha256 :: "string \<Rightarrow> string"
  ie_hmac :: "string \<Rightarrow> string \<Rightarrow> string"
  ie_gcm_seal :: "string \<Rightarrow> string \<Rightarrow> string \<Rightarrow> string"
  ie_gcm_open :: "string \<Rightarrow> string \<Rightarrow> string \<Rightarrow> string option"
  ie_bcrypt_hash :: "string \<Rightarrow> string \<Rightarrow> string + string"
  ie_bcrypt_compare :: "string \<Rightarrow> string \<Rightarrow> string + bool"
  ie_jwt :: jwtenv

section \<open>Users\<close>

abbreviation RoleAdmin :: string where "RoleAdmin \<equiv> ''admin''"
abbreviation RoleUser :: string where "RoleUser \<equiv> ''user''"
abbreviation StatusActive :: string where "StatusActive \<equiv> ''active''"
abbreviation StatusPending :: string where "StatusPending \<equiv> ''pending_verification''"
abbreviation StatusDisabled :: string where "StatusDisabled \<equiv> ''disabled''"

record User =
  us_ID :: int
  us_Username :: string
  us_Email :: string
  us_PasswordHash :: string
  us_Role :: string
  us_Status :: string
  us_TokenVersion :: int
  us_Avatar :: string
  us_AvatarAttachmentID :: string
  us_Bio :: string
  us_FailedLoginAttempts :: int
  us_LockedUntil :: "time option"
  us_EmailVerifiedAt :: "time option"
  us_CreatedAt :: time
  us_UpdatedAt :: time

datatype ValidationError = ValidationError (ve_Field: string) (ve_Reason: string)

definition usernamePattern :: "string \<Rightarrow> bool" where
  "usernamePattern s \<longleftrightarrow> s \<noteq> [] \<and> list_all (\<lambda>c. (65 \<le> byte c \<and> byte c \<le> 90) \<or> (97 \<le> byte c \<and> byte c \<le> 122) \<or>
     (48 \<le> byte c \<and> byte c \<le> 57) \<or> c = CHR ''_'' \<or> c = CHR ''-'') s"

definition ValidateUsername :: "string \<Rightarrow> ValidationError + unit" where
  "ValidateUsername username =
     (if length username < 3 \<or> 32 < length username
      then Inl (ValidationError ''username'' ''must contain between 3 and 32 characters'')
      else if \<not> usernamePattern username
      then Inl (ValidationError ''username'' ''may contain only letters, numbers, underscores, and hyphens'')
      else Inr ())"

definition equal_fold_with :: "(int \<Rightarrow> int) \<Rightarrow> string \<Rightarrow> string \<Rightarrow> bool" where
  "equal_fold_with uf a b \<longleftrightarrow> map (\<lambda>r. uf (fst r)) (runes a) = map (\<lambda>r. uf (fst r)) (runes b)"

definition ValidateEmail :: "ienv \<Rightarrow> string \<Rightarrow> ValidationError + unit" where
  "ValidateEmail E email =
     (if email = [] \<or> 320 < length email then Inl (ValidationError ''email'' ''must be a valid email address'')
      else case ie_parse_address E email of
        None \<Rightarrow> Inl (ValidationError ''email'' ''must be a valid email address'')
      | Some (name, address) \<Rightarrow>
          if name \<noteq> [] \<or> \<not> equal_fold_with (ie_fold E) address email
          then Inl (ValidationError ''email'' ''must be a valid email address'') else Inr ())"

definition ValidatePassword :: "string \<Rightarrow> ValidationError + unit" where
  "ValidatePassword password =
     (if length password < 8 \<or> 72 < length password
      then Inl (ValidationError ''password'' ''must contain between 8 and 72 bytes'') else Inr ())"

definition NewUser :: "ienv \<Rightarrow> string \<Rightarrow> string \<Rightarrow> ValidationError + User" where
  "NewUser E username0 email0 =
     (let username = trim_space username0; email = to_lower (ie_lower E) (trim_space email0) in
      case ValidateUsername username of Inl e \<Rightarrow> Inl e | Inr _ \<Rightarrow>
      case ValidateEmail E email of Inl e \<Rightarrow> Inl e | Inr _ \<Rightarrow>
      Inr \<lparr>us_ID = 0, us_Username = username, us_Email = email, us_PasswordHash = [], us_Role = RoleUser,
        us_Status = StatusPending, us_TokenVersion = 1, us_Avatar = [], us_AvatarAttachmentID = [], us_Bio = [],
        us_FailedLoginAttempts = 0, us_LockedUntil = None, us_EmailVerifiedAt = None, us_CreatedAt = 0, us_UpdatedAt = 0\<rparr>)"

definition after_opt :: "time option \<Rightarrow> time \<Rightarrow> bool" where
  "after_opt t now \<longleftrightarrow> (case t of None \<Rightarrow> False | Some u \<Rightarrow> now < u)"

definition IsLocked :: "User \<Rightarrow> time \<Rightarrow> bool" where
  "IsLocked u now = after_opt (us_LockedUntil u) now"

definition CanEstablishSession :: "User \<Rightarrow> bool" where
  "CanEstablishSession u \<longleftrightarrow> us_Status u = StatusActive \<or> us_Status u = StatusPending"

section \<open>Sessions and actions\<close>

record Session =
  se_ID :: string
  se_UserID :: int
  se_DeviceLabel :: string
  se_RefreshDigest :: string
  se_PreviousDigest :: string
  se_CurrentRefreshToken :: string
  se_CreatedAt :: time
  se_LastSeenAt :: time
  se_ExpiresAt :: time
  se_RotatedAt :: "time option"
  se_RevokedAt :: "time option"
  se_RevokedReason :: string

definition SessionIsActive :: "Session \<Rightarrow> time \<Rightarrow> bool" where
  "SessionIsActive s now \<longleftrightarrow> se_RevokedAt s = None \<and> now < se_ExpiresAt s"

abbreviation ActionEmailVerification :: string where "ActionEmailVerification \<equiv> ''email_verification''"
abbreviation ActionPasswordReset :: string where "ActionPasswordReset \<equiv> ''password_reset''"

record ActionToken =
  ac_ID :: string
  ac_UserID :: int
  ac_Kind :: string
  ac_Digest :: string
  ac_ExpiresAt :: time
  ac_UsedAt :: "time option"
  ac_CreatedAt :: time

definition ActionIsActive :: "ActionToken \<Rightarrow> time \<Rightarrow> bool" where
  "ActionIsActive t now \<longleftrightarrow> ac_UsedAt t = None \<and> now < ac_ExpiresAt t"

record EmailMessage =
  em_Kind :: string
  em_To :: string
  em_Subject :: string
  em_Token :: string
  em_CreatedAt :: time

section \<open>Base64\<close>

text \<open>
  \<open>base64.RawURLEncoding\<close>: the URL alphabet without padding. The decoder skips line ends, and does not look at
  the unused bits of the last character.
\<close>

definition b64_alphabet :: string where
  "b64_alphabet = ''ABCDEFGHIJKLMNOPQRSTUVWXYZabcdefghijklmnopqrstuvwxyz0123456789-_''"

definition b64_char :: "nat \<Rightarrow> char" where
  "b64_char n = b64_alphabet ! n"

definition b64_value :: "char \<Rightarrow> nat option" where
  "b64_value c = (if c \<in> set b64_alphabet then Some (length (takeWhile (\<lambda>x. x \<noteq> c) b64_alphabet)) else None)"

abbreviation octet :: "char \<Rightarrow> nat" where "octet c \<equiv> of_char c"

fun b64_encode :: "string \<Rightarrow> string" where
  "b64_encode [] = []"
| "b64_encode [a] = [b64_char (octet a div 4), b64_char (octet a mod 4 * 16)]"
| "b64_encode [a, b] = [b64_char (octet a div 4), b64_char (octet a mod 4 * 16 + octet b div 16), b64_char (octet b mod 16 * 4)]"
| "b64_encode (a # b # c # bytes) =
     b64_char (octet a div 4) # b64_char (octet a mod 4 * 16 + octet b div 16) #
     b64_char (octet b mod 16 * 4 + octet c div 64) # b64_char (octet c mod 64) # b64_encode bytes"

fun b64_bytes :: "nat list \<Rightarrow> string option" where
  "b64_bytes [] = Some []"
| "b64_bytes [x] = None"
| "b64_bytes [x, y] = Some [char_of (x * 4 + y div 16)]"
| "b64_bytes [x, y, z] = Some [char_of (x * 4 + y div 16), char_of (y mod 16 * 16 + z div 4)]"
| "b64_bytes (x # y # z # w # values) =
     map_option (\<lambda>rest. char_of (x * 4 + y div 16) # char_of (y mod 16 * 16 + z div 4) # char_of (z mod 4 * 64 + w) # rest)
       (b64_bytes values)"

definition b64_decode :: "string \<Rightarrow> string option" where
  "b64_decode s = (let t = filter (\<lambda>c. c \<noteq> CHR 0x0A \<and> c \<noteq> CHR 0x0D) s in
     if list_all (\<lambda>c. b64_value c \<noteq> None) t then b64_bytes (map (\<lambda>c. the (b64_value c)) t) else None)"

section \<open>Refresh tokens\<close>

definition refreshTokenPrefix :: string where "refreshTokenPrefix = ''kc1''"

definition refreshTokenBytes :: nat where "refreshTokenBytes = 32"

definition maxRefreshLength :: nat where "maxRefreshLength = 256"

record RefreshToken =
  rt_SessionID :: string
  rt_Secret :: string

text \<open>The arguments are what \<open>io.ReadFull\<close> reads: sixteen and thirty-two random bytes.\<close>

definition NewRefreshToken :: "string \<times> string \<Rightarrow> RefreshToken" where
  "NewRefreshToken random = \<lparr>rt_SessionID = b64_encode (fst random), rt_Secret = b64_encode (snd random)\<rparr>"

definition EncodeRefreshToken :: "RefreshToken \<Rightarrow> string + string" where
  "EncodeRefreshToken t =
     (if rt_SessionID t = [] \<or> rt_Secret t = [] then Inl ''encode refresh token: session ID and secret are required''
      else Inr (join ''.'' [refreshTokenPrefix, rt_SessionID t, rt_Secret t]))"

definition ParseRefreshToken :: "string \<Rightarrow> string + RefreshToken" where
  "ParseRefreshToken v =
     (if v = [] \<or> maxRefreshLength < length v then Inl ''parse refresh token: token is invalid''
      else case split_with (\<lambda>c. c = CHR ''.'') v of
        [p0, p1, p2] \<Rightarrow>
          if p0 \<noteq> refreshTokenPrefix \<or> p1 = [] \<or> p2 = [] then Inl ''parse refresh token: token is invalid''
          else if b64_decode p1 = None then Inl ''parse refresh token: session ID is invalid''
          else (case b64_decode p2 of
              None \<Rightarrow> Inl ''parse refresh token: secret is invalid''
            | Some secret \<Rightarrow> if length secret \<noteq> refreshTokenBytes then Inl ''parse refresh token: secret is invalid''
                            else Inr \<lparr>rt_SessionID = p1, rt_Secret = p2\<rparr>)
      | _ \<Rightarrow> Inl ''parse refresh token: token is invalid'')"

definition DigestRefreshSecret :: "ienv \<Rightarrow> string \<Rightarrow> string \<Rightarrow> string" where
  "DigestRefreshSecret E secret pepper = ie_hmac E pepper secret"

section \<open>Action tokens and sealed tokens\<close>

definition NewActionToken :: "string \<Rightarrow> string" where
  "NewActionToken random = ''ka1.'' @ b64_encode random"

definition DigestActionToken :: "ienv \<Rightarrow> string \<Rightarrow> string \<Rightarrow> string" where
  "DigestActionToken E token pepper = ie_sha256 E (pepper @ [CHR 0x00] @ trim_space token)"

definition gcmNonceSize :: nat where "gcmNonceSize = 12"

definition SealEmailToken :: "ienv \<Rightarrow> string \<Rightarrow> string \<Rightarrow> string \<Rightarrow> string" where
  "SealEmailToken E nonce token key = nonce @ ie_gcm_seal E (ie_sha256 E key) nonce token"

definition OpenEmailToken :: "ienv \<Rightarrow> string \<Rightarrow> string \<Rightarrow> string + string" where
  "OpenEmailToken E payload key =
     (if length payload < gcmNonceSize then Inl ''email payload is truncated''
      else case ie_gcm_open E (ie_sha256 E key) (take gcmNonceSize payload) (drop gcmNonceSize payload) of
        None \<Rightarrow> Inl ''open email payload'' | Some plaintext \<Rightarrow> Inr plaintext)"

section \<open>Encoding and parsing tokens\<close>

lemma octet_less [simp]: "octet c < 256"
  by (rule nat_of_char_less_256)

lemma b64_char_props:
  assumes "n < 64"
  shows "b64_value (b64_char n) = Some n" "b64_char n \<noteq> CHR 0x0A" "b64_char n \<noteq> CHR 0x0D" "b64_char n \<noteq> CHR ''.''"
proof -
  have "\<forall>n \<in> set [0..<64]. b64_value (b64_char n) = Some n \<and> b64_char n \<noteq> CHR 0x0A \<and> b64_char n \<noteq> CHR 0x0D \<and> b64_char n \<noteq> CHR ''.''"
    by code_simp
  then show "b64_value (b64_char n) = Some n" "b64_char n \<noteq> CHR 0x0A" "b64_char n \<noteq> CHR 0x0D" "b64_char n \<noteq> CHR ''.''"
    using assms by (simp_all only: set_upt atLeastLessThan_iff Ball_def zero_le simp_thms)
qed

text \<open>An encoded string is the list of the characters of some values below 64.\<close>

fun b64_values :: "string \<Rightarrow> nat list" where
  "b64_values [] = []"
| "b64_values [a] = [octet a div 4, octet a mod 4 * 16]"
| "b64_values [a, b] = [octet a div 4, octet a mod 4 * 16 + octet b div 16, octet b mod 16 * 4]"
| "b64_values (a # b # c # bytes) =
     (octet a div 4) # (octet a mod 4 * 16 + octet b div 16) # (octet b mod 16 * 4 + octet c div 64) # (octet c mod 64) # b64_values bytes"

lemma b64_encode_values: "b64_encode s = map b64_char (b64_values s)"
  by (induction s rule: b64_encode.induct) simp_all

lemma octet_parts [simp]:
  "octet a div 4 < 64" "octet a div 16 < 16" "octet a div 64 < 4"
  "octet a div 16 div 16 = 0" "octet a div 16 mod 16 = octet a div 16"
  "octet a div 64 div 4 = 0" "octet a div 64 mod 4 = octet a div 64"
proof -
  show less: "octet a div 4 < 64" "octet a div 16 < 16" "octet a div 64 < 4"
    using octet_less [of a] by (simp_all add: div_less_iff_less_mult)
  from less show "octet a div 16 div 16 = 0" "octet a div 16 mod 16 = octet a div 16"
    "octet a div 64 div 4 = 0" "octet a div 64 mod 4 = octet a div 64" by (simp_all only: div_less mod_less)
qed

lemma digits_less:
  fixes a b :: nat
  shows "a < 16 \<Longrightarrow> b mod 4 * 16 + a < 64" "a < 4 \<Longrightarrow> b mod 16 * 4 + a < 64"
  using mod_less_divisor [of 4 b] mod_less_divisor [of 16 b] by linarith+

lemma b64_values_less: "v \<in> set (b64_values s) \<Longrightarrow> v < 64"
  using digits_less(1) [of 0] digits_less(2) [of 0]
  by (induction s rule: b64_values.induct) (auto simp: digits_less)

lemma b64_bytes_values: "b64_bytes (b64_values s) = Some s"
  by (induction s rule: b64_values.induct) simp_all

lemma length_b64_encode: "length (b64_encode s) = (4 * length s + 2) div 3"
  by (induction s rule: b64_encode.induct) simp_all

lemma b64_encode_chars: "c \<in> set (b64_encode s) \<Longrightarrow> c \<noteq> CHR 0x0A \<and> c \<noteq> CHR 0x0D \<and> c \<noteq> CHR ''.'' \<and> b64_value c \<noteq> None"
  unfolding b64_encode_values using b64_values_less b64_char_props by auto

lemma b64_visible: "\<forall>c \<in> set (b64_encode s). 32 < byte c \<and> byte c < (128::int)"
proof -
  have "\<forall>n \<in> set [0..<64]. 32 < byte (b64_char n) \<and> byte (b64_char n) < (128::int)" by code_simp
  then have "32 < byte (b64_char n) \<and> byte (b64_char n) < (128::int)" if "n < 64" for n
    using that by (simp only: set_upt atLeastLessThan_iff Ball_def zero_le simp_thms)
  then show ?thesis using b64_values_less by (auto simp: b64_encode_values)
qed

theorem b64_roundtrip: "b64_decode (b64_encode s) = Some s"
proof -
  have f: "filter (\<lambda>c. c \<noteq> CHR 0x0A \<and> c \<noteq> CHR 0x0D) (b64_encode s) = b64_encode s"
    using b64_encode_chars by (intro filter_True) blast
  have a: "list_all (\<lambda>c. b64_value c \<noteq> None) (b64_encode s)" unfolding list_all_iff using b64_encode_chars by blast
  have "map (\<lambda>c. the (b64_value c)) (b64_encode s) = b64_values s"
    unfolding b64_encode_values map_map by (rule map_idI) (simp add: b64_values_less b64_char_props)
  then show ?thesis using f a by (simp add: b64_decode_def b64_bytes_values)
qed

text \<open>What \<open>NewRefreshToken\<close> makes can be written out and read back.\<close>

lemma new_refresh_token_encodes:
  assumes "length (fst random) = 16" "length (snd random) = refreshTokenBytes"
  shows "EncodeRefreshToken (NewRefreshToken random) = Inr (''kc1.'' @ b64_encode (fst random) @ ''.'' @ b64_encode (snd random))"
    "ParseRefreshToken (''kc1.'' @ b64_encode (fst random) @ ''.'' @ b64_encode (snd random)) = Inr (NewRefreshToken random)"
proof -
  let ?a = "b64_encode (fst random)" and ?b = "b64_encode (snd random)"
  have len: "length ?a = 22" "length ?b = 43" using assms by (simp_all add: length_b64_encode refreshTokenBytes_def)
  then have ne: "?a \<noteq> []" "?b \<noteq> []" by auto
  then show "EncodeRefreshToken (NewRefreshToken random) = Inr (''kc1.'' @ ?a @ ''.'' @ ?b)"
    by (simp add: EncodeRefreshToken_def NewRefreshToken_def refreshTokenPrefix_def)
  have nd: "\<forall>c \<in> set ?a. c \<noteq> CHR ''.''" "\<forall>c \<in> set ?b. c \<noteq> CHR ''.''" using b64_encode_chars by blast+
  have "split_with (\<lambda>c. c = CHR ''.'') (?a @ CHR ''.'' # ?b) = [?a, ?b]"
    using split_with_sep [OF nd(1), of "CHR ''.''" ?b] nd(2) by (simp add: split_with_none)
  then have "split_with (\<lambda>c. c = CHR ''.'') (''kc1.'' @ ?a @ ''.'' @ ?b) = [''kc1'', ?a, ?b]" by simp
  then show "ParseRefreshToken (''kc1.'' @ ?a @ ''.'' @ ?b) = Inr (NewRefreshToken random)"
    using len ne assms(2) by (simp add: ParseRefreshToken_def NewRefreshToken_def refreshTokenPrefix_def maxRefreshLength_def b64_roundtrip)
qed

end
