(* ===== verification/IdentityStore.thy ===== *)
theory IdentityStore
  imports IdentityDomain "HOL-Library.List_Lexorder" "HOL-Library.Char_ord" "HOL-Library.Product_Lexorder"
begin

text \<open>
  The tables of the identity service and its repositories: \<open>services/identity/internal/model\<close> and
  \<open>repository/users.go\<close>, \<open>sessions.go\<close>, \<open>actions.go\<close>, \<open>outbox.go\<close>. Keys that the database or \<open>uuid.NewString\<close>
  choose and the nonces of the cipher are arguments; a transaction runs alone. The constraints of
  \<open>migration/migration.go\<close> that an insert can violate are checked where the code inserts.
\<close>

section \<open>Tables\<close>

record user_row =
  ur_ID :: int
  ur_Username :: string
  ur_Email :: string
  ur_PasswordHash :: string
  ur_Role :: string
  ur_Status :: string
  ur_TokenVersion :: int
  ur_Avatar :: string
  ur_AvatarAttachmentID :: "string option"
  ur_Bio :: string
  ur_FailedLoginAttempts :: int
  ur_LockedUntil :: "time option"
  ur_EmailVerifiedAt :: "time option"
  ur_CreatedAt :: time
  ur_UpdatedAt :: time

record session_row =
  sn_ID :: string
  sn_UserID :: int
  sn_DeviceLabel :: string
  sn_RefreshDigest :: string
  sn_PreviousDigest :: string
  sn_RefreshTokenCipher :: string
  sn_CreatedAt :: time
  sn_LastSeenAt :: time
  sn_ExpiresAt :: time
  sn_RotatedAt :: "time option"
  sn_RevokedAt :: "time option"
  sn_RevokedReason :: string

record email_row =
  ml_ID :: int
  ml_MessageID :: string
  ml_SchemaVersion :: int
  ml_Kind :: string
  ml_Locale :: string
  ml_Recipient :: string
  ml_Subject :: string
  ml_TokenCipher :: string
  ml_Status :: string
  ml_Attempts :: int
  ml_NextAttemptAt :: time
  ml_LeaseOwner :: string
  ml_LeaseUntil :: "time option"
  ml_SentAt :: "time option"
  ml_ParkedAt :: "time option"
  ml_LastError :: string
  ml_LastErrorCode :: string
  ml_CreatedAt :: time
  ml_UpdatedAt :: time

text \<open>A row of \<open>identity.action_tokens\<close> has the fields of the domain's action token.\<close>

record idb =
  id_users :: "user_row list"
  id_sessions :: "session_row list"
  id_actions :: "ActionToken list"
  id_emails :: "email_row list"

datatype ierr = ErrUserNotFound | ErrUsernameConflict | ErrEmailConflict
  | ErrSessionNotFound | ErrSessionInvalid | ErrSessionReplay
  | ErrActionNotFound | ErrActionExpired | ErrActionAlreadyUsed | ErrOutboxEmpty | IOther string

type_synonym 'a itx = "(idb, ierr, 'a) tx"
type_synonym 'a icall = "idb \<Rightarrow> (ierr + 'a) \<times> idb"

definition empty_idb :: idb where
  "empty_idb = \<lparr>id_users = [], id_sessions = [], id_actions = [], id_emails = []\<rparr>"

definition get_user :: "int \<Rightarrow> idb \<Rightarrow> user_row option" where
  "get_user i db = tbl_get ur_ID i (id_users db)"

definition get_session :: "string \<Rightarrow> idb \<Rightarrow> session_row option" where
  "get_session i db = tbl_get sn_ID i (id_sessions db)"

definition put_user :: "int \<Rightarrow> (user_row \<Rightarrow> user_row) \<Rightarrow> unit itx" where
  "put_user i f = twrite (id_users_update (tbl_upd (\<lambda>r. ur_ID r = i) f))"

definition put_session :: "string \<Rightarrow> (session_row \<Rightarrow> session_row) \<Rightarrow> unit itx" where
  "put_session i f = twrite (id_sessions_update (tbl_upd (\<lambda>r. sn_ID r = i) f))"

section \<open>Users\<close>

definition toModel :: "User \<Rightarrow> user_row" where
  "toModel u = \<lparr>ur_ID = us_ID u, ur_Username = us_Username u, ur_Email = us_Email u, ur_PasswordHash = us_PasswordHash u,
     ur_Role = us_Role u, ur_Status = us_Status u, ur_TokenVersion = us_TokenVersion u, ur_Avatar = us_Avatar u,
     ur_AvatarAttachmentID = (if trim_space (us_AvatarAttachmentID u) \<noteq> [] then Some (us_AvatarAttachmentID u) else None),
     ur_Bio = us_Bio u, ur_FailedLoginAttempts = us_FailedLoginAttempts u, ur_LockedUntil = us_LockedUntil u,
     ur_EmailVerifiedAt = us_EmailVerifiedAt u, ur_CreatedAt = us_CreatedAt u, ur_UpdatedAt = us_UpdatedAt u\<rparr>"

definition fromModel :: "user_row \<Rightarrow> User" where
  "fromModel r = \<lparr>us_ID = ur_ID r, us_Username = ur_Username r, us_Email = ur_Email r, us_PasswordHash = ur_PasswordHash r,
     us_Role = ur_Role r, us_Status = ur_Status r, us_TokenVersion = ur_TokenVersion r, us_Avatar = ur_Avatar r,
     us_AvatarAttachmentID = (case ur_AvatarAttachmentID r of None \<Rightarrow> [] | Some a \<Rightarrow> a),
     us_Bio = ur_Bio r, us_FailedLoginAttempts = ur_FailedLoginAttempts r, us_LockedUntil = ur_LockedUntil r,
     us_EmailVerifiedAt = ur_EmailVerifiedAt r, us_CreatedAt = ur_CreatedAt r, us_UpdatedAt = ur_UpdatedAt r\<rparr>"

text \<open>Columns whose Go value is zero take the default of the column; the identifier is the next of a sequence.\<close>

definition column_defaults :: "time \<Rightarrow> int \<Rightarrow> user_row \<Rightarrow> user_row" where
  "column_defaults now i r = r\<lparr>ur_ID := (if ur_ID r = 0 then i else ur_ID r),
     ur_Role := (if ur_Role r = [] then RoleUser else ur_Role r),
     ur_Status := (if ur_Status r = [] then StatusActive else ur_Status r),
     ur_TokenVersion := (if ur_TokenVersion r = 0 then 1 else ur_TokenVersion r),
     ur_CreatedAt := (if ur_CreatedAt r = 0 then now else ur_CreatedAt r),
     ur_UpdatedAt := (if ur_UpdatedAt r = 0 then now else ur_UpdatedAt r)\<rparr>"

definition user_constraints :: "user_row \<Rightarrow> bool" where
  "user_constraints r \<longleftrightarrow> 3 \<le> rune_count (ur_Username r) \<and> rune_count (ur_Username r) \<le> 32 \<and> rune_count (ur_Email r) \<le> 320
     \<and> ur_Role r \<in> {RoleAdmin, RoleUser} \<and> ur_Status r \<in> {StatusActive, StatusPending, StatusDisabled}
     \<and> 1 \<le> ur_TokenVersion r \<and> 0 \<le> ur_FailedLoginAttempts r \<and> rune_count (ur_Bio r) \<le> 500"

definition insert_user :: "ienv \<Rightarrow> time \<Rightarrow> int \<Rightarrow> User \<Rightarrow> User itx" where
  "insert_user E now i user =
     (let record = column_defaults now i (toModel user) in
      tbind (tguard (user_constraints record) (IOther ''insert identity user'')) (\<lambda>_.
      tbind (tcheck (\<lambda>db. \<forall>r \<in> set (id_users db). ur_ID r \<noteq> ur_ID record) (IOther ''insert identity user'')) (\<lambda>_.
      tbind (tcheck (\<lambda>db. \<forall>r \<in> set (id_users db). ie_pg_lower E (ur_Username r) \<noteq> ie_pg_lower E (ur_Username record)) ErrUsernameConflict) (\<lambda>_.
      tbind (tcheck (\<lambda>db. \<forall>r \<in> set (id_users db). ie_pg_lower E (ur_Email r) \<noteq> ie_pg_lower E (ur_Email record)) ErrEmailConflict) (\<lambda>_.
      tbind (twrite (id_users_update (\<lambda>rows. rows @ [record]))) (\<lambda>_.
      tret (fromModel record)))))))"

definition CreateUser :: "ienv \<Rightarrow> time \<Rightarrow> int \<Rightarrow> User \<Rightarrow> User icall" where
  "CreateUser E now i user = transaction (insert_user E now i user)"

definition FindByUsername :: "ienv \<Rightarrow> string \<Rightarrow> idb \<Rightarrow> ierr + User" where
  "FindByUsername E username0 db =
     (let username = to_lower (ie_lower E) (trim_space username0) in
      case tbl_select (\<lambda>r. ie_pg_lower E (ur_Username r) = username) ur_ID 1 (id_users db) of
        [] \<Rightarrow> Inl ErrUserNotFound | record # _ \<Rightarrow> Inr (fromModel record))"

definition FindByID :: "int \<Rightarrow> idb \<Rightarrow> ierr + User" where
  "FindByID i db = (case get_user i db of None \<Rightarrow> Inl ErrUserNotFound | Some record \<Rightarrow> Inr (fromModel record))"

definition FindByLogin :: "ienv \<Rightarrow> string \<Rightarrow> idb \<Rightarrow> ierr + User" where
  "FindByLogin E identifier0 db =
     (let identifier = to_lower (ie_lower E) (trim_space identifier0) in
      case tbl_select (\<lambda>r. ie_pg_lower E (ur_Username r) = identifier \<or> ie_pg_lower E (ur_Email r) = identifier) ur_ID 1 (id_users db) of
        [] \<Rightarrow> Inl ErrUserNotFound | record # _ \<Rightarrow> Inr (fromModel record))"

definition login_failure_row :: "time \<Rightarrow> time \<Rightarrow> int \<Rightarrow> user_row \<Rightarrow> user_row" where
  "login_failure_row failedAt lockUntil threshold r =
     (let locked = after_opt (ur_LockedUntil r) failedAt;
          attempts = (if ur_LockedUntil r \<noteq> None then 1 else ur_FailedLoginAttempts r + 1) in
      r\<lparr>ur_FailedLoginAttempts := (if locked then ur_FailedLoginAttempts r else attempts),
        ur_LockedUntil := (if locked then ur_LockedUntil r else if threshold \<le> attempts then Some lockUntil else None),
        ur_UpdatedAt := failedAt\<rparr>)"

definition RecordLoginFailure :: "int \<Rightarrow> time \<Rightarrow> time \<Rightarrow> int \<Rightarrow> bool icall" where
  "RecordLoginFailure i failedAt lockUntil threshold = transaction (
     tbind (tsome (get_user i) ErrUserNotFound) (\<lambda>r.
     tbind (put_user i (login_failure_row failedAt lockUntil threshold)) (\<lambda>_.
     tret (after_opt (ur_LockedUntil (login_failure_row failedAt lockUntil threshold r)) failedAt))))"

definition login_success_row :: "time \<Rightarrow> user_row \<Rightarrow> user_row" where
  "login_success_row completedAt r = r\<lparr>ur_FailedLoginAttempts := 0, ur_LockedUntil := None, ur_UpdatedAt := completedAt\<rparr>"

definition CompleteLoginSuccess :: "int \<Rightarrow> time \<Rightarrow> User icall" where
  "CompleteLoginSuccess i completedAt = transaction (
     tbind (tsome (get_user i) ErrUserNotFound) (\<lambda>record.
     if \<not> CanEstablishSession (fromModel record) \<or> after_opt (ur_LockedUntil record) completedAt
     then tret (fromModel record)
     else tbind (put_user (ur_ID record) (login_success_row completedAt)) (\<lambda>_.
          tret (fromModel (login_success_row completedAt record)))))"

definition verified_row :: "time \<Rightarrow> user_row \<Rightarrow> user_row" where
  "verified_row when r = r\<lparr>ur_EmailVerifiedAt := Some when, ur_Status := StatusActive, ur_UpdatedAt := when\<rparr>"

definition MarkEmailVerified :: "int \<Rightarrow> time \<Rightarrow> User icall" where
  "MarkEmailVerified i verifiedAt = transaction (
     tbind (tsome (get_user i) ErrUserNotFound) (\<lambda>record.
     if ur_EmailVerifiedAt record = None
     then tbind (put_user (ur_ID record) (verified_row verifiedAt)) (\<lambda>_. tret (fromModel (verified_row verifiedAt record)))
     else tret (fromModel record)))"

definition password_row :: "string \<Rightarrow> time \<Rightarrow> user_row \<Rightarrow> user_row" where
  "password_row hash when r = r\<lparr>ur_PasswordHash := hash, ur_TokenVersion := ur_TokenVersion r + 1,
     ur_FailedLoginAttempts := 0, ur_LockedUntil := None, ur_UpdatedAt := when\<rparr>"

definition UpdatePassword :: "int \<Rightarrow> string \<Rightarrow> time \<Rightarrow> User icall" where
  "UpdatePassword i hash updatedAt = transaction (
     tbind (tsome (get_user i) ErrUserNotFound) (\<lambda>record.
     tbind (put_user (ur_ID record) (password_row hash updatedAt)) (\<lambda>_.
     tret (fromModel (password_row hash updatedAt record)))))"

definition disable_user :: "int \<Rightarrow> time \<Rightarrow> unit itx" where
  "disable_user i t = tupdate1 id_users id_users_update (\<lambda>r. ur_ID r = i \<and> ur_Status r \<noteq> StatusDisabled)
     (\<lambda>r. r\<lparr>ur_Status := StatusDisabled, ur_TokenVersion := ur_TokenVersion r + 1, ur_UpdatedAt := t\<rparr>) ErrUserNotFound"

definition Deactivate :: "int \<Rightarrow> time \<Rightarrow> unit icall" where
  "Deactivate i t = transaction (disable_user i t)"

definition revoked_row :: "time \<Rightarrow> string \<Rightarrow> session_row \<Rightarrow> session_row" where
  "revoked_row t reason r = r\<lparr>sn_RevokedAt := Some t, sn_RevokedReason := reason\<rparr>"

definition revoke_sessions :: "(session_row \<Rightarrow> bool) \<Rightarrow> string \<Rightarrow> time \<Rightarrow> unit itx" where
  "revoke_sessions p reason t = twrite (id_sessions_update (tbl_upd (\<lambda>s. p s \<and> sn_RevokedAt s = None) (revoked_row t reason)))"

definition DeactivateAndRevoke :: "int \<Rightarrow> time \<Rightarrow> unit icall" where
  "DeactivateAndRevoke i t = transaction (
     tbind (disable_user i t) (\<lambda>_.
     revoke_sessions (\<lambda>s. sn_UserID s = i) ''account_deactivated'' t))"

section \<open>Sessions\<close>

definition fromSessionModel :: "session_row \<Rightarrow> Session" where
  "fromSessionModel r = \<lparr>se_ID = sn_ID r, se_UserID = sn_UserID r, se_DeviceLabel = sn_DeviceLabel r,
     se_RefreshDigest = sn_RefreshDigest r, se_PreviousDigest = sn_PreviousDigest r, se_CurrentRefreshToken = [],
     se_CreatedAt = sn_CreatedAt r, se_LastSeenAt = sn_LastSeenAt r, se_ExpiresAt = sn_ExpiresAt r,
     se_RotatedAt = sn_RotatedAt r, se_RevokedAt = sn_RevokedAt r, se_RevokedReason = sn_RevokedReason r\<rparr>"

text \<open>\<open>key\<close> is the encryption key of the repository, empty when none is configured.\<close>

definition CreateSession :: "ienv \<Rightarrow> string \<Rightarrow> string \<Rightarrow> Session \<Rightarrow> Session icall" where
  "CreateSession E key nonce session = transaction (
     tbind (tguard (se_ID session \<noteq> [] \<and> 0 < se_UserID session \<and> se_RefreshDigest session \<noteq> [])
       (IOther ''create identity session: session is invalid'')) (\<lambda>_.
     let record = \<lparr>sn_ID = se_ID session, sn_UserID = se_UserID session, sn_DeviceLabel = se_DeviceLabel session,
       sn_RefreshDigest = se_RefreshDigest session, sn_PreviousDigest = [],
       sn_RefreshTokenCipher = (if se_CurrentRefreshToken session \<noteq> [] \<and> key \<noteq> []
         then SealEmailToken E nonce (se_CurrentRefreshToken session) key else []),
       sn_CreatedAt = se_CreatedAt session, sn_LastSeenAt = se_LastSeenAt session, sn_ExpiresAt = se_ExpiresAt session,
       sn_RotatedAt = None, sn_RevokedAt = None, sn_RevokedReason = []\<rparr> in
     tbind (tinsert id_sessions id_sessions_update sn_ID (IOther ''insert identity session'') record) (\<lambda>_.
     tret (fromSessionModel record))))"

definition FindSession :: "string \<Rightarrow> idb \<Rightarrow> ierr + Session" where
  "FindSession i db = (case get_session i db of None \<Rightarrow> Inl ErrSessionNotFound | Some record \<Rightarrow> Inr (fromSessionModel record))"

definition rotated_row :: "string \<Rightarrow> string \<Rightarrow> time \<Rightarrow> time \<Rightarrow> session_row \<Rightarrow> session_row" where
  "rotated_row nextDigest cipher now expires r = r\<lparr>sn_PreviousDigest := sn_RefreshDigest r, sn_RefreshDigest := nextDigest,
     sn_RefreshTokenCipher := cipher, sn_LastSeenAt := now, sn_ExpiresAt := expires, sn_RotatedAt := Some now\<rparr>"

definition in_grace :: "string \<Rightarrow> string \<Rightarrow> time \<Rightarrow> duration \<Rightarrow> session_row \<Rightarrow> bool" where
  "in_grace key currentDigest now grace r \<longleftrightarrow> (case sn_RotatedAt r of None \<Rightarrow> False | Some t \<Rightarrow> now - t \<le> grace)
     \<and> sn_PreviousDigest r = currentDigest \<and> sn_RefreshTokenCipher r \<noteq> [] \<and> key \<noteq> []"

definition RotateWithGrace ::
  "ienv \<Rightarrow> string \<Rightarrow> string \<Rightarrow> string \<Rightarrow> string \<Rightarrow> string \<Rightarrow> string \<Rightarrow> time \<Rightarrow> time \<Rightarrow> duration \<Rightarrow> Session icall" where
  "RotateWithGrace E key nonce i currentDigest nextDigest nextToken now expires grace = transaction (
     tbind (tsome (get_session i) ErrSessionNotFound) (\<lambda>record.
     tbind (tguard (sn_RevokedAt record = None \<and> now < sn_ExpiresAt record) ErrSessionInvalid) (\<lambda>_.
     if sn_RefreshDigest record \<noteq> currentDigest
     then if in_grace key currentDigest now grace record
          then (case OpenEmailToken E (sn_RefreshTokenCipher record) key of
              Inl _ \<Rightarrow> traise (IOther ''open rotated identity refresh token'')
            | Inr current \<Rightarrow> tret ((fromSessionModel record)\<lparr>se_CurrentRefreshToken := current\<rparr>))
          else tbind (put_session (sn_ID record) (revoked_row now ''refresh_replay'')) (\<lambda>_. traise ErrSessionReplay)
     else let cipher = (if key \<noteq> [] then SealEmailToken E nonce nextToken key else []) in
          tbind (put_session (sn_ID record) (rotated_row nextDigest cipher now expires)) (\<lambda>_.
          tret (fromSessionModel (rotated_row nextDigest cipher now expires record))))))"

definition Rotate :: "string \<Rightarrow> string \<Rightarrow> string \<Rightarrow> time \<Rightarrow> time \<Rightarrow> Session icall" where
  "Rotate i currentDigest nextDigest now expires = transaction (
     tbind (tsome (get_session i) ErrSessionNotFound) (\<lambda>record.
     tbind (tguard (sn_RevokedAt record = None \<and> now < sn_ExpiresAt record) ErrSessionInvalid) (\<lambda>_.
     if sn_RefreshDigest record \<noteq> currentDigest
     then tbind (put_session (sn_ID record) (revoked_row now ''refresh_replay'')) (\<lambda>_. traise ErrSessionReplay)
     else let rotate = (\<lambda>r. r\<lparr>sn_PreviousDigest := sn_RefreshDigest r, sn_RefreshDigest := nextDigest,
                sn_LastSeenAt := now, sn_ExpiresAt := expires, sn_RotatedAt := Some now\<rparr>) in
          tbind (put_session (sn_ID record) rotate) (\<lambda>_. tret (fromSessionModel (rotate record))))))"

definition RevokeSession :: "string \<Rightarrow> string \<Rightarrow> time \<Rightarrow> unit icall" where
  "RevokeSession i reason now = transaction (
     tupdate1 id_sessions id_sessions_update (\<lambda>s. sn_ID s = i \<and> sn_RevokedAt s = None) (revoked_row now reason) ErrSessionNotFound)"

definition RevokeAllSessions :: "int \<Rightarrow> string \<Rightarrow> time \<Rightarrow> unit icall" where
  "RevokeAllSessions userID reason now = transaction (
     tbind (tguard (0 < userID) (IOther ''revoke identity sessions: user ID is invalid'')) (\<lambda>_.
     revoke_sessions (\<lambda>s. sn_UserID s = userID) reason now))"

definition ListSessions :: "int \<Rightarrow> time \<Rightarrow> idb \<Rightarrow> Session list" where
  "ListSessions userID now db = map fromSessionModel (sort_key (\<lambda>s. - sn_LastSeenAt s)
     (filter (\<lambda>s. sn_UserID s = userID \<and> sn_RevokedAt s = None \<and> now < sn_ExpiresAt s) (id_sessions db)))"

end
