(* ===== verification/IdentityActions.thy ===== *)
theory IdentityActions
  imports IdentityStore
begin

text \<open>
  One-time tokens sent by mail and the mail outbox: \<open>repository/actions.go\<close>, \<open>repository/outbox.go\<close> and the
  delivery loop of \<open>email/worker.go\<close>, whose SMTP conversation is a parameter.
\<close>

section \<open>Action tokens\<close>

definition classifyActionToken :: "ActionToken \<Rightarrow> time \<Rightarrow> ierr option" where
  "classifyActionToken action now =
     (if ac_UsedAt action \<noteq> None then Some ErrActionAlreadyUsed
      else if \<not> now < ac_ExpiresAt action then Some ErrActionExpired else None)"

definition action_by_digest :: "string \<Rightarrow> string \<Rightarrow> idb \<Rightarrow> ActionToken option" where
  "action_by_digest kind digest db = (case tbl_select (\<lambda>a. ac_Kind a = kind \<and> ac_Digest a = digest) ac_ID 1 (id_actions db) of
     [] \<Rightarrow> None | a # _ \<Rightarrow> Some a)"

definition lockActionByDigest :: "string \<Rightarrow> string \<Rightarrow> ActionToken itx" where
  "lockActionByDigest kind digest =
     tbind (tsome (action_by_digest kind digest) ErrActionNotFound) (\<lambda>action.
     tbind (tguard (ac_Digest action = digest) ErrActionNotFound) (\<lambda>_.
     tret action))"

definition consumeLockedAction :: "ActionToken \<Rightarrow> time \<Rightarrow> ActionToken itx" where
  "consumeLockedAction action now = (case classifyActionToken action now of
     Some e \<Rightarrow> traise e
   | None \<Rightarrow> tbind (twrite (id_actions_update (tbl_upd (\<lambda>a. ac_ID a = ac_ID action) (\<lambda>a. a\<lparr>ac_UsedAt := Some now\<rparr>)))) (\<lambda>_.
       tret (action\<lparr>ac_UsedAt := Some now\<rparr>)))"

definition insert_action :: "ActionToken \<Rightarrow> unit itx" where
  "insert_action a =
     tbind (tcheck (\<lambda>db. \<forall>x \<in> set (id_actions db). ac_Digest x \<noteq> ac_Digest a) (IOther ''create identity action token'')) (\<lambda>_.
     tinsert id_actions id_actions_update ac_ID (IOther ''create identity action token'') a)"

text \<open>\<open>mail_keys\<close>: the sequence number, the message identifier and the nonce of a queued mail.\<close>

record mail_keys =
  mk_ID :: int
  mk_MessageID :: string
  mk_Nonce :: string

definition new_email :: "mail_keys \<Rightarrow> time \<Rightarrow> EmailMessage \<Rightarrow> string \<Rightarrow> email_row" where
  "new_email k now message ciphertext = \<lparr>ml_ID = mk_ID k, ml_MessageID = mk_MessageID k, ml_SchemaVersion = 1, ml_Kind = em_Kind message,
     ml_Locale = ''zh-CN'', ml_Recipient = em_To message, ml_Subject = em_Subject message, ml_TokenCipher = ciphertext,
     ml_Status = ''pending'', ml_Attempts = 0, ml_NextAttemptAt = now, ml_LeaseOwner = [], ml_LeaseUntil = None,
     ml_SentAt = None, ml_ParkedAt = None, ml_LastError = [], ml_LastErrorCode = [], ml_CreatedAt = now, ml_UpdatedAt = now\<rparr>"

definition insert_email :: "email_row \<Rightarrow> unit itx" where
  "insert_email m =
     tbind (tcheck (\<lambda>db. \<forall>x \<in> set (id_emails db). ml_MessageID x \<noteq> ml_MessageID m) (IOther ''enqueue identity email'')) (\<lambda>_.
     tinsert id_emails id_emails_update ml_ID (IOther ''enqueue identity email'') m)"

definition CreateAndEnqueue :: "ienv \<Rightarrow> string \<Rightarrow> mail_keys \<Rightarrow> ActionToken \<Rightarrow> EmailMessage \<Rightarrow> unit icall" where
  "CreateAndEnqueue E key k token message =
     (let now = ac_CreatedAt token in transaction (
     tbind (tguard (key \<noteq> []) (IOther ''create identity action email: encryption key is required'')) (\<lambda>_.
     tbind (twrite (id_actions_update (tbl_del (\<lambda>a. ac_UserID a = ac_UserID token \<and> ac_Kind a = ac_Kind token
       \<and> ac_UsedAt a = None \<and> now < ac_ExpiresAt a)))) (\<lambda>_.
     tbind (insert_action (token\<lparr>ac_UsedAt := None\<rparr>)) (\<lambda>_.
     insert_email (new_email k now message (SealEmailToken E (mk_Nonce k) (em_Token message) key)))))))"

definition CreateUserAndEnqueue :: "ienv \<Rightarrow> string \<Rightarrow> mail_keys \<Rightarrow> time \<Rightarrow> int \<Rightarrow> User \<Rightarrow> ActionToken \<Rightarrow> EmailMessage \<Rightarrow> User icall" where
  "CreateUserAndEnqueue E key k wall i user token message =
     (let now = ac_CreatedAt token in transaction (
     tbind (tguard (key \<noteq> []) (IOther ''create identity user and email: encryption key is required'')) (\<lambda>_.
     tbind (insert_user E wall i user) (\<lambda>created.
     tbind (insert_action (token\<lparr>ac_UserID := us_ID created, ac_UsedAt := None\<rparr>)) (\<lambda>_.
     tbind (insert_email (new_email k now message (SealEmailToken E (mk_Nonce k) (em_Token message) key))) (\<lambda>_.
     tret created))))))"

definition ConsumeAndVerifyEmail :: "string \<Rightarrow> time \<Rightarrow> unit icall" where
  "ConsumeAndVerifyEmail digest now = transaction (
     tbind (lockActionByDigest ActionEmailVerification digest) (\<lambda>locked.
     tbind (consumeLockedAction locked now) (\<lambda>action.
     tbind (tsome (get_user (ac_UserID action)) ErrUserNotFound) (\<lambda>user.
     if ur_EmailVerifiedAt user = None then put_user (ur_ID user) (verified_row now) else tret ()))))"

definition ConsumeAndResetPassword :: "string \<Rightarrow> string \<Rightarrow> time \<Rightarrow> unit icall" where
  "ConsumeAndResetPassword digest passwordHash now = transaction (
     tbind (lockActionByDigest ActionPasswordReset digest) (\<lambda>locked.
     tbind (consumeLockedAction locked now) (\<lambda>action.
     tbind (tsome (get_user (ac_UserID action)) ErrUserNotFound) (\<lambda>user.
     tbind (put_user (ur_ID user) (password_row passwordHash now)) (\<lambda>_.
     revoke_sessions (\<lambda>s. sn_UserID s = ac_UserID action) ''password_reset'' now)))))"

definition CreateAction :: "ActionToken \<Rightarrow> unit icall" where
  "CreateAction token = transaction (
     tbind (tguard (ac_ID token \<noteq> [] \<and> 0 < ac_UserID token \<and> ac_Kind token \<noteq> [] \<and> ac_Digest token \<noteq> [])
       (IOther ''create identity action: token is required'')) (\<lambda>_.
     insert_action token))"

definition LatestUnusedByKind :: "int \<Rightarrow> string \<Rightarrow> idb \<Rightarrow> ierr + ActionToken" where
  "LatestUnusedByKind userID kind db =
     (if userID \<le> 0 \<or> kind = [] then Inl ErrActionNotFound
      else case tbl_select (\<lambda>a. ac_UserID a = userID \<and> ac_Kind a = kind \<and> ac_UsedAt a = None)
                (\<lambda>a. (- ac_CreatedAt a, ac_ID a)) 1 (id_actions db) of
        [] \<Rightarrow> Inl ErrActionNotFound | record # _ \<Rightarrow> Inr record)"

definition Consume :: "string \<Rightarrow> string \<Rightarrow> time \<Rightarrow> ActionToken icall" where
  "Consume kind digest now = transaction (
     tbind (lockActionByDigest kind digest) (\<lambda>record. consumeLockedAction record now))"

section \<open>Mail outbox\<close>

definition Enqueue :: "ienv \<Rightarrow> string \<Rightarrow> mail_keys \<Rightarrow> EmailMessage \<Rightarrow> unit icall" where
  "Enqueue E key k message = transaction (
     insert_email (new_email k (em_CreatedAt message) message (SealEmailToken E (mk_Nonce k) (em_Token message) key)))"

definition email_due :: "time \<Rightarrow> email_row \<Rightarrow> bool" where
  "email_due now m \<longleftrightarrow> ml_SentAt m = None \<and> ml_ParkedAt m = None \<and> ml_NextAttemptAt m \<le> now
     \<and> (ml_Status m = ''pending'' \<or> (ml_Status m = ''sending'' \<and> (case ml_LeaseUntil m of None \<Rightarrow> False | Some t \<Rightarrow> t < now)))"

text \<open>The arguments \<open>messageID\<close> and \<open>owner\<close> are the results of \<open>uuid.NewString\<close>.\<close>

definition claimed_email :: "time \<Rightarrow> string \<Rightarrow> string \<Rightarrow> email_row \<Rightarrow> email_row" where
  "claimed_email now messageID owner m = m\<lparr>ml_MessageID := (if ml_MessageID m = [] then messageID else ml_MessageID m),
     ml_Attempts := ml_Attempts m + 1, ml_Status := ''sending'', ml_LeaseOwner := owner,
     ml_LeaseUntil := Some (now + 90 * second), ml_NextAttemptAt := now + 90 * second, ml_UpdatedAt := now\<rparr>"

definition put_email :: "int \<Rightarrow> (email_row \<Rightarrow> email_row) \<Rightarrow> unit itx" where
  "put_email i f = twrite (id_emails_update (tbl_upd (\<lambda>m. ml_ID m = i) f))"

definition ClaimEmail :: "time \<Rightarrow> string \<Rightarrow> string \<Rightarrow> email_row icall" where
  "ClaimEmail now messageID owner = transaction (
     tbind (tread (\<lambda>db. tbl_select (email_due now) (\<lambda>m. (ml_CreatedAt m, ml_ID m)) 1 (id_emails db))) (\<lambda>rows. case rows of
       [] \<Rightarrow> traise ErrOutboxEmpty
     | record # _ \<Rightarrow>
         tbind (put_email (ml_ID record) (claimed_email now messageID owner)) (\<lambda>_.
         tret (claimed_email now messageID owner record))))"

definition MarkSent :: "int \<Rightarrow> time \<Rightarrow> unit icall" where
  "MarkSent i t = transaction (
     tupdate1 id_emails id_emails_update (\<lambda>m. ml_ID m = i \<and> ml_SentAt m = None \<and> ml_ParkedAt m = None)
       (\<lambda>m. m\<lparr>ml_Status := ''sent'', ml_SentAt := Some t, ml_LeaseOwner := [], ml_LeaseUntil := None,
         ml_LastError := [], ml_LastErrorCode := [], ml_UpdatedAt := t\<rparr>)
       (IOther ''mark identity email sent: outbox row is no longer pending''))"

definition failed_email :: "string \<Rightarrow> time \<Rightarrow> duration \<Rightarrow> int \<Rightarrow> email_row \<Rightarrow> email_row" where
  "failed_email message now delay attempts m = m\<lparr>ml_Status := (if 8 \<le> attempts then ''parked'' else ''pending''),
     ml_ParkedAt := (if 8 \<le> attempts then Some now else None), ml_LastError := message, ml_LastErrorCode := ''smtp_send_failed'',
     ml_LeaseOwner := [], ml_LeaseUntil := None, ml_NextAttemptAt := now + delay, ml_UpdatedAt := now\<rparr>"

definition MarkFailed :: "int \<Rightarrow> string \<Rightarrow> time \<Rightarrow> duration \<Rightarrow> unit icall" where
  "MarkFailed i message now delay = transaction (
     tbind (tsome (\<lambda>db. tbl_get ml_ID i (id_emails db)) (IOther ''load identity email failure'')) (\<lambda>record.
     put_email (ml_ID record) (failed_email message now delay (ml_Attempts record))))"

section \<open>Delivery\<close>

definition backoff :: "int \<Rightarrow> duration" where
  "backoff attempts0 =
     (let attempts = (if attempts0 < 1 then 1 else if 8 < attempts0 then 8 else attempts0);
          delay = 2 ^ nat (attempts - 1) * 30 * second in
      if hour < delay then hour else delay)"

text \<open>One tick of the worker. \<open>host\<close> says whether an SMTP host is configured, \<open>send\<close> is the conversation with it:
  a mail and its opened token give an error or success.\<close>

definition process_email ::
  "ienv \<Rightarrow> string \<Rightarrow> bool \<Rightarrow> (email_row \<Rightarrow> string \<Rightarrow> string option) \<Rightarrow> time \<Rightarrow> string \<Rightarrow> string \<Rightarrow> idb \<Rightarrow> idb" where
  "process_email E key host send now messageID owner db =
     (if \<not> host then db else case ClaimEmail now messageID owner db of
        (Inl _, db') \<Rightarrow> db'
      | (Inr record, db') \<Rightarrow>
          (case (case OpenEmailToken E (ml_TokenCipher record) key of Inl e \<Rightarrow> Some e | Inr token \<Rightarrow> send record token) of
             None \<Rightarrow> snd (MarkSent (ml_ID record) now db')
           | Some err \<Rightarrow> snd (MarkFailed (ml_ID record) err now (backoff (ml_Attempts record)) db')))"

end
