(* ===== verification/IdentityLogic.thy ===== *)
theory IdentityLogic
  imports IdentityActions
begin

text \<open>
  The operations of the identity service above its repositories: \<open>logic/session.go\<close>, \<open>logic/authenticate.go\<close>,
  \<open>logic/action.go\<close>, \<open>logic/register.go\<close>, \<open>logic/get_user.go\<close> and the check of access tokens in
  \<open>transport/rpc/handler.go\<close>, wired as \<open>context/servicecontext.go\<close> does: the repositories are those of
  PostgreSQL, so the optional interfaces (\<open>RotateWithGrace\<close>, \<open>CreateAndEnqueue\<close>, ...) are present. What a call
  reads from the random source and from the clocks is an argument.
\<close>

datatype iservice_err = EInvalidInput | EUsernameConflict | EEmailConflict | EInvalidCredentials | EAccountLocked | EUserDisabled
  | EUserNotFound | EUnauthenticated | EActionExpired | EActionAlreadyUsed | EVerificationCooldown int | EInternal string

type_synonym 'a iservice = "idb \<Rightarrow> (iservice_err + 'a) \<times> idb"

record identity_config =
  ic_refreshPepper :: string
  ic_refreshKey :: string
  ic_absoluteTTL :: duration
  ic_idleTTL :: duration
  ic_refreshGrace :: duration
  ic_accessTTL :: duration
  ic_failureThreshold :: int
  ic_lockDuration :: duration
  ic_dummyHash :: string
  ic_actionPepper :: string
  ic_actionTTL :: duration
  ic_emailKey :: string

section \<open>Sessions\<close>

record SessionAuthentication =
  sa_User :: User
  sa_AccessToken :: IssuedToken
  sa_RefreshToken :: string
  sa_SessionID :: string

text \<open>The bytes of the refresh token, the nonce of its seal, the identifier and the time of the access token.\<close>

record draws =
  dw_refresh :: "string \<times> string"
  dw_nonce :: string
  dw_tokenID :: string
  dw_issuedAt :: time

definition normalizeDeviceLabel :: "string \<Rightarrow> string" where
  "normalizeDeviceLabel value0 = (let v = trim_space value0 in
     if v = [] then ''Unknown device'' else if 120 < length v then take 120 v else v)"

definition session_principal :: "User \<Rightarrow> string \<Rightarrow> Principal" where
  "session_principal user sessionID = \<lparr>pr_UserID = us_ID user, pr_SubjectType = [], pr_Role = us_Role user,
     pr_TokenVersion = us_TokenVersion user, pr_SessionID = sessionID, pr_ExpiresAt = 0\<rparr>"

definition issue_access :: "ienv \<Rightarrow> identity_config \<Rightarrow> draws \<Rightarrow> User \<Rightarrow> string \<Rightarrow> string + IssuedToken" where
  "issue_access E C d user sessionID = Issue (ie_jwt E) (dw_tokenID d) (ic_accessTTL C) (dw_issuedAt d) (session_principal user sessionID)"

definition SessionCreate :: "ienv \<Rightarrow> identity_config \<Rightarrow> draws \<Rightarrow> time \<Rightarrow> User \<Rightarrow> string \<Rightarrow> SessionAuthentication iservice" where
  "SessionCreate E C d now user deviceLabel db =
     (if us_ID user \<le> 0 \<or> \<not> CanEstablishSession user then (Inl EUserDisabled, db)
      else let refresh = NewRefreshToken (dw_refresh d) in
      case EncodeRefreshToken refresh of Inl e \<Rightarrow> (Inl (EInternal e), db) | Inr encoded \<Rightarrow>
      let absolute = now + ic_absoluteTTL C; idle = now + ic_idleTTL C; expires = (if idle < absolute then idle else absolute);
          session = \<lparr>se_ID = rt_SessionID refresh, se_UserID = us_ID user, se_DeviceLabel = normalizeDeviceLabel deviceLabel,
            se_RefreshDigest = DigestRefreshSecret E (rt_Secret refresh) (ic_refreshPepper C), se_PreviousDigest = [],
            se_CurrentRefreshToken = encoded, se_CreatedAt = now, se_LastSeenAt = now, se_ExpiresAt = expires,
            se_RotatedAt = None, se_RevokedAt = None, se_RevokedReason = []\<rparr> in
      case CreateSession E (ic_refreshKey C) (dw_nonce d) session db of
        (Inl _, db') \<Rightarrow> (Inl (EInternal ''persist identity session''), db')
      | (Inr created, db') \<Rightarrow> (case issue_access E C d user (se_ID created) of
            Inl _ \<Rightarrow> (Inl (EInternal ''issue identity access token''), db')
          | Inr access \<Rightarrow> (Inr \<lparr>sa_User = user, sa_AccessToken = access, sa_RefreshToken = encoded, sa_SessionID = se_ID created\<rparr>, db')))"

definition rotation_expiry :: "identity_config \<Rightarrow> time \<Rightarrow> Session \<Rightarrow> time" where
  "rotation_expiry C now session = (let absolute = se_CreatedAt session + ic_absoluteTTL C; idle = now + ic_idleTTL C in
     if idle < absolute then idle else absolute)"

definition SessionRefresh :: "ienv \<Rightarrow> identity_config \<Rightarrow> draws \<Rightarrow> time \<Rightarrow> string \<Rightarrow> SessionAuthentication iservice" where
  "SessionRefresh E C d now encoded db =
     (case ParseRefreshToken (trim_space encoded) of Inl _ \<Rightarrow> (Inl EUnauthenticated, db) | Inr refresh \<Rightarrow>
      case FindSession (rt_SessionID refresh) db of Inl _ \<Rightarrow> (Inl EUnauthenticated, db) | Inr session \<Rightarrow>
      if se_UserID session \<le> 0 \<or> \<not> SessionIsActive session now then (Inl EUnauthenticated, db)
      else case FindByID (se_UserID session) db of Inl _ \<Rightarrow> (Inl EUnauthenticated, db) | Inr user \<Rightarrow>
      if \<not> CanEstablishSession user then (Inl EUserDisabled, db)
      else let next = NewRefreshToken (dw_refresh d) in
      case EncodeRefreshToken next of Inl e \<Rightarrow> (Inl (EInternal e), db) | Inr nextEncoded \<Rightarrow>
      case RotateWithGrace E (ic_refreshKey C) (dw_nonce d) (se_ID session)
             (DigestRefreshSecret E (rt_Secret refresh) (ic_refreshPepper C))
             (DigestRefreshSecret E (rt_Secret next) (ic_refreshPepper C))
             nextEncoded now (rotation_expiry C now session) (ic_refreshGrace C) db of
        (Inl _, db') \<Rightarrow> (Inl EUnauthenticated, db')
      | (Inr rotated, db') \<Rightarrow> (case issue_access E C d user (se_ID rotated) of
            Inl _ \<Rightarrow> (Inl (EInternal ''issue refreshed identity access token''), db')
          | Inr access \<Rightarrow> (Inr \<lparr>sa_User = user, sa_AccessToken = access,
              sa_RefreshToken = (if se_CurrentRefreshToken rotated \<noteq> [] then se_CurrentRefreshToken rotated else nextEncoded),
              sa_SessionID = se_ID rotated\<rparr>, db')))"

definition SessionList :: "time \<Rightarrow> int \<Rightarrow> idb \<Rightarrow> iservice_err + Session list" where
  "SessionList now userID db = (if userID \<le> 0 then Inl EInvalidInput else Inr (ListSessions userID now db))"

definition SessionRevoke :: "time \<Rightarrow> int \<Rightarrow> string \<Rightarrow> string \<Rightarrow> unit iservice" where
  "SessionRevoke now userID sessionID reason db =
     (if userID \<le> 0 \<or> trim_space sessionID = [] then (Inl EInvalidInput, db)
      else case FindSession (trim_space sessionID) db of Inl _ \<Rightarrow> (Inl EUserNotFound, db) | Inr session \<Rightarrow>
      if se_UserID session \<noteq> userID then (Inl EUserNotFound, db)
      else case RevokeSession (se_ID session) reason now db of
        (Inl _, db') \<Rightarrow> (Inl EUserNotFound, db') | (Inr _, db') \<Rightarrow> (Inr (), db'))"

definition SessionRevokeAll :: "time \<Rightarrow> int \<Rightarrow> string \<Rightarrow> unit iservice" where
  "SessionRevokeAll now userID reason db =
     (if userID \<le> 0 then (Inl EInvalidInput, db)
      else case RevokeAllSessions userID reason now db of
        (Inl _, db') \<Rightarrow> (Inl (EInternal ''revoke identity sessions''), db') | (Inr _, db') \<Rightarrow> (Inr (), db'))"

section \<open>Login\<close>

definition Authenticate :: "ienv \<Rightarrow> identity_config \<Rightarrow> draws \<Rightarrow> time \<Rightarrow> time \<Rightarrow> string \<Rightarrow> string \<Rightarrow> SessionAuthentication iservice" where
  "Authenticate E C d now created identifier0 password db =
     (let identifier = trim_space identifier0 in
      if identifier = [] \<or> 320 < length identifier \<or> password = [] \<or> 72 < length password then (Inl EInvalidCredentials, db)
      else case FindByLogin E identifier db of
        Inl ErrUserNotFound \<Rightarrow> (case ie_bcrypt_compare E (ic_dummyHash C) password of
            Inl _ \<Rightarrow> (Inl (EInternal ''compare identity dummy password''), db) | Inr _ \<Rightarrow> (Inl EInvalidCredentials, db))
      | Inl _ \<Rightarrow> (Inl (EInternal ''find identity login''), db)
      | Inr user \<Rightarrow> (case ie_bcrypt_compare E (us_PasswordHash user) password of
            Inl _ \<Rightarrow> (Inl (EInternal ''compare identity password''), db)
          | Inr matched \<Rightarrow>
              if IsLocked user now then (Inl EAccountLocked, db)
              else if \<not> matched then
                if \<not> CanEstablishSession user then (Inl EInvalidCredentials, db)
                else (case RecordLoginFailure (us_ID user) now (now + ic_lockDuration C) (ic_failureThreshold C) db of
                    (Inl _, db') \<Rightarrow> (Inl (EInternal ''record identity login failure''), db')
                  | (Inr locked, db') \<Rightarrow> (Inl (if locked then EAccountLocked else EInvalidCredentials), db'))
              else (case CompleteLoginSuccess (us_ID user) now db of
                  (Inl _, db') \<Rightarrow> (Inl (EInternal ''complete identity login''), db')
                | (Inr user', db') \<Rightarrow>
                    if \<not> CanEstablishSession user' then (Inl EUserDisabled, db')
                    else if IsLocked user' now then (Inl EAccountLocked, db')
                    else (case SessionCreate E C d created user' [] db' of
                        (Inl _, db'') \<Rightarrow> (Inl (EInternal ''create identity session''), db'')
                      | (Inr issued, db'') \<Rightarrow> (Inr issued, db'')))))"

section \<open>Mail actions\<close>

record action_draws =
  ad_token :: string
  ad_ID :: string
  ad_mail :: mail_keys

definition issue_action :: "ienv \<Rightarrow> identity_config \<Rightarrow> action_draws \<Rightarrow> time \<Rightarrow> User \<Rightarrow> string \<Rightarrow> string \<Rightarrow> unit iservice" where
  "issue_action E C d now user kind subject db =
     (if us_ID user \<le> 0 then (Inl EUserNotFound, db)
      else let token = NewActionToken (ad_token d);
               entry = \<lparr>ac_ID = ad_ID d, ac_UserID = us_ID user, ac_Kind = kind, ac_Digest = DigestActionToken E token (ic_actionPepper C),
                 ac_ExpiresAt = now + ic_actionTTL C, ac_UsedAt = None, ac_CreatedAt = now\<rparr>;
               message = \<lparr>em_Kind = kind, em_To = us_Email user, em_Subject = subject, em_Token = token, em_CreatedAt = now\<rparr> in
           case CreateAndEnqueue E (ic_emailKey C) (ad_mail d) entry message db of
             (Inl _, db') \<Rightarrow> (Inl (EInternal ''persist identity action email''), db') | (Inr _, db') \<Rightarrow> (Inr (), db'))"

datatype verification_state = EmailVerificationVerified | EmailVerificationPending | EmailVerificationIdle

record VerificationStatus =
  vs_State :: verification_state
  vs_ExpiresAt :: "time option"
  vs_RetryAfterSeconds :: int

definition to_int32 :: "int \<Rightarrow> int" where
  "to_int32 i = (i + 2 ^ 31) mod 2 ^ 32 - 2 ^ 31"

text \<open>\<open>Duration.Round(time.Second) / time.Second\<close> of a positive duration.\<close>

definition round_seconds :: "duration \<Rightarrow> int" where
  "round_seconds d = (d + second div 2) div second"

definition latestUnusedVerification :: "int \<Rightarrow> idb \<Rightarrow> ActionToken option" where
  "latestUnusedVerification userID db = (case LatestUnusedByKind userID ActionEmailVerification db of Inl _ \<Rightarrow> None | Inr token \<Rightarrow> Some token)"

definition EmailVerificationStatus :: "time \<Rightarrow> User \<Rightarrow> idb \<Rightarrow> iservice_err + VerificationStatus" where
  "EmailVerificationStatus now user db =
     (if us_ID user \<le> 0 then Inl EInvalidInput
      else if us_EmailVerifiedAt user \<noteq> None
      then Inr \<lparr>vs_State = EmailVerificationVerified, vs_ExpiresAt = None, vs_RetryAfterSeconds = 0\<rparr>
      else case latestUnusedVerification (us_ID user) db of
        None \<Rightarrow> Inr \<lparr>vs_State = EmailVerificationIdle, vs_ExpiresAt = None, vs_RetryAfterSeconds = 0\<rparr>
      | Some token \<Rightarrow>
          if \<not> now < ac_ExpiresAt token then Inr \<lparr>vs_State = EmailVerificationIdle, vs_ExpiresAt = None, vs_RetryAfterSeconds = 0\<rparr>
          else let seconds = to_int32 (round_seconds (ac_ExpiresAt token - now)) in
            Inr \<lparr>vs_State = EmailVerificationPending, vs_ExpiresAt = Some (ac_ExpiresAt token),
              vs_RetryAfterSeconds = (if seconds < 1 then 1 else seconds)\<rparr>)"

text \<open>The three readings of the clock are \<open>clock 0\<close>, \<open>clock 1\<close> and \<open>clock 2\<close>.\<close>

definition RequestEmailVerification :: "ienv \<Rightarrow> identity_config \<Rightarrow> action_draws \<Rightarrow> (nat \<Rightarrow> time) \<Rightarrow> User \<Rightarrow> VerificationStatus iservice" where
  "RequestEmailVerification E C d clock user db =
     (if us_ID user \<le> 0 then (Inl EUnauthenticated, db)
      else if us_Status user = StatusDisabled then (Inl EUserDisabled, db)
      else case EmailVerificationStatus (clock 0) user db of Inl e \<Rightarrow> (Inl e, db) | Inr status \<Rightarrow>
      (case vs_State status of
         EmailVerificationVerified \<Rightarrow> (Inr status, db)
       | EmailVerificationPending \<Rightarrow> (Inl (EVerificationCooldown (vs_RetryAfterSeconds status)), db)
       | EmailVerificationIdle \<Rightarrow>
           (case issue_action E C d (clock 1) user ActionEmailVerification ''Verify your email'' db of
              (Inl e, db') \<Rightarrow> (Inl e, db')
            | (Inr _, db') \<Rightarrow> (EmailVerificationStatus (clock 2) user db', db'))))"

definition mapActionTokenError :: "ierr + unit \<Rightarrow> iservice_err + unit" where
  "mapActionTokenError r = (case r of
     Inr _ \<Rightarrow> Inr ()
   | Inl ErrActionNotFound \<Rightarrow> Inl EInvalidInput
   | Inl ErrActionExpired \<Rightarrow> Inl EActionExpired
   | Inl ErrActionAlreadyUsed \<Rightarrow> Inl EActionAlreadyUsed
   | Inl _ \<Rightarrow> Inl (EInternal ''consume identity action token''))"

definition VerifyEmail :: "ienv \<Rightarrow> identity_config \<Rightarrow> time \<Rightarrow> string \<Rightarrow> unit iservice" where
  "VerifyEmail E C now token0 db = (let token = trim_space token0 in
     if token = [] then (Inl EInvalidInput, db)
     else apfst mapActionTokenError (ConsumeAndVerifyEmail (DigestActionToken E token (ic_actionPepper C)) now db))"

definition RequestPasswordReset :: "ienv \<Rightarrow> identity_config \<Rightarrow> action_draws \<Rightarrow> time \<Rightarrow> string \<Rightarrow> unit iservice" where
  "RequestPasswordReset E C d now identifier db = (case FindByLogin E (trim_space identifier) db of
     Inl _ \<Rightarrow> (Inr (), db)
   | Inr user \<Rightarrow> if us_Status user = StatusDisabled then (Inr (), db)
       else issue_action E C d now user ActionPasswordReset ''Reset your password'' db)"

definition ResetPassword :: "ienv \<Rightarrow> identity_config \<Rightarrow> string \<Rightarrow> time \<Rightarrow> string \<Rightarrow> string \<Rightarrow> unit iservice" where
  "ResetPassword E C salt now token0 password db =
     (case ValidatePassword password of Inl _ \<Rightarrow> (Inl EInvalidInput, db) | Inr _ \<Rightarrow>
      let token = trim_space token0 in
      if token = [] then (Inl EInvalidInput, db)
      else case ie_bcrypt_hash E salt password of Inl _ \<Rightarrow> (Inl (EInternal ''hash identity reset password''), db) | Inr hash \<Rightarrow>
        apfst mapActionTokenError (ConsumeAndResetPassword (DigestActionToken E token (ic_actionPepper C)) hash now db))"

definition DeactivateAccount :: "ienv \<Rightarrow> time \<Rightarrow> int \<Rightarrow> string \<Rightarrow> unit iservice" where
  "DeactivateAccount E now userID password db =
     (case FindByID userID db of Inl _ \<Rightarrow> (Inl EUnauthenticated, db) | Inr user \<Rightarrow>
      case ie_bcrypt_compare E (us_PasswordHash user) password of
        Inl _ \<Rightarrow> (Inl (EInternal ''compare identity deactivation password''), db)
      | Inr matched \<Rightarrow> if \<not> matched then (Inl EInvalidCredentials, db)
          else (case DeactivateAndRevoke userID now db of
              (Inl _, db') \<Rightarrow> (Inl (EInternal ''deactivate identity account''), db') | (Inr _, db') \<Rightarrow> (Inr (), db')))"

section \<open>Registration and lookups\<close>

definition mapRegisterCreateError :: "ierr \<Rightarrow> string \<Rightarrow> iservice_err" where
  "mapRegisterCreateError e operation = (case e of
     ErrUsernameConflict \<Rightarrow> EUsernameConflict | ErrEmailConflict \<Rightarrow> EEmailConflict | _ \<Rightarrow> EInternal operation)"

definition Register :: "ienv \<Rightarrow> identity_config \<Rightarrow> action_draws \<Rightarrow> string \<Rightarrow> time \<Rightarrow> int \<Rightarrow> string \<Rightarrow> string \<Rightarrow> string \<Rightarrow> User iservice" where
  "Register E C d salt now i username email password db =
     (case ValidatePassword password of Inl _ \<Rightarrow> (Inl EInvalidInput, db) | Inr _ \<Rightarrow>
      case NewUser E username email of Inl _ \<Rightarrow> (Inl EInvalidInput, db) | Inr user0 \<Rightarrow>
      case ie_bcrypt_hash E salt password of Inl _ \<Rightarrow> (Inl (EInternal ''hash identity password''), db) | Inr hash \<Rightarrow>
      let user = user0\<lparr>us_PasswordHash := hash\<rparr>; token = NewActionToken (ad_token d);
          entry = \<lparr>ac_ID = ad_ID d, ac_UserID = us_ID user, ac_Kind = ActionEmailVerification,
            ac_Digest = DigestActionToken E token (ic_actionPepper C), ac_ExpiresAt = now + ic_actionTTL C, ac_UsedAt = None, ac_CreatedAt = now\<rparr>;
          message = \<lparr>em_Kind = ActionEmailVerification, em_To = us_Email user, em_Subject = ''Verify your email'', em_Token = token, em_CreatedAt = now\<rparr> in
      case CreateUserAndEnqueue E (ic_emailKey C) (ad_mail d) now i user entry message db of
        (Inl e, db') \<Rightarrow> (Inl (mapRegisterCreateError e ''register identity user and queue verification''), db')
      | (Inr created, db') \<Rightarrow> (Inr created, db'))"

definition GetUser :: "int \<Rightarrow> idb \<Rightarrow> iservice_err + User" where
  "GetUser i db = (if i \<le> 0 then Inl EInvalidInput else case FindByID i db of
     Inl ErrUserNotFound \<Rightarrow> Inl EUserNotFound | Inl _ \<Rightarrow> Inl (EInternal ''get identity user'') | Inr user \<Rightarrow> Inr user)"

definition ResolveUser :: "ienv \<Rightarrow> string \<Rightarrow> idb \<Rightarrow> iservice_err + User" where
  "ResolveUser E username db = (case ValidateUsername username of Inl _ \<Rightarrow> Inl EInvalidInput | Inr _ \<Rightarrow>
     (case FindByUsername E username db of
        Inl ErrUserNotFound \<Rightarrow> Inl EUserNotFound | Inl _ \<Rightarrow> Inl (EInternal ''resolve identity user'') | Inr user \<Rightarrow> Inr user))"

definition authenticateRequest :: "ienv \<Rightarrow> time \<Rightarrow> string \<Rightarrow> idb \<Rightarrow> iservice_err + (Principal \<times> User)" where
  "authenticateRequest E now token db = (case Verify (ie_jwt E) now token of Inl _ \<Rightarrow> Inl EUnauthenticated | Inr p \<Rightarrow>
     (case GetUser (pr_UserID p) db of
        Inl EUserNotFound \<Rightarrow> Inl EUnauthenticated
      | Inl e \<Rightarrow> Inl e
      | Inr user \<Rightarrow> if \<not> CanEstablishSession user \<or> us_TokenVersion user \<noteq> pr_TokenVersion p
          then Inl EUnauthenticated else Inr (p, user)))"

end
