(* ===== verification/IdentitySafety.thy ===== *)
theory IdentitySafety
  imports IdentityLogic
begin

named_theorems evolve_calls \<open>repository calls let the tables evolve\<close>

text \<open>
  What every operation of the identity service keeps: keys stay unique, a revoked session and a used token are
  never touched again, the token version of an account never falls. From this follows what a password reset, a
  deactivation and a used mail link guarantee for all later states.
\<close>

section \<open>How the tables evolve\<close>

definition idb_wf :: "idb \<Rightarrow> bool" where
  "idb_wf db \<longleftrightarrow> distinct (map ur_ID (id_users db)) \<and> distinct (map sn_ID (id_sessions db))
     \<and> distinct (map ac_ID (id_actions db)) \<and> distinct (map ac_Digest (id_actions db))"

lemma idb_wfD:
  assumes "idb_wf db"
  shows "distinct (map ur_ID (id_users db))" "distinct (map sn_ID (id_sessions db))"
    "distinct (map ac_ID (id_actions db))" "distinct (map ac_Digest (id_actions db))"
  using assms by (simp_all add: idb_wf_def)

definition user_le :: "user_row \<Rightarrow> user_row \<Rightarrow> bool" where
  "user_le r r' \<longleftrightarrow> ur_ID r' = ur_ID r \<and> ur_TokenVersion r \<le> ur_TokenVersion r'"

definition session_le :: "session_row \<Rightarrow> session_row \<Rightarrow> bool" where
  "session_le s s' \<longleftrightarrow> sn_ID s' = sn_ID s \<and> sn_UserID s' = sn_UserID s \<and> sn_CreatedAt s' = sn_CreatedAt s \<and> (sn_RevokedAt s \<noteq> None \<longrightarrow> s' = s)"

definition evolves :: "idb \<Rightarrow> idb \<Rightarrow> bool" where
  "evolves db db' \<longleftrightarrow> idb_wf db'
     \<and> (\<forall>r \<in> set (id_users db). \<exists>r' \<in> set (id_users db'). user_le r r')
     \<and> (\<forall>s \<in> set (id_sessions db). \<exists>s' \<in> set (id_sessions db'). session_le s s')
     \<and> (\<forall>a \<in> set (id_actions db). ac_UsedAt a \<noteq> None \<longrightarrow> a \<in> set (id_actions db'))"

lemma user_le_trans: "user_le a b \<Longrightarrow> user_le b c \<Longrightarrow> user_le a c"
  by (simp add: user_le_def)

lemma session_le_trans: "session_le a b \<Longrightarrow> session_le b c \<Longrightarrow> session_le a c"
  by (auto simp: session_le_def)

lemma le_refl [simp]: "user_le r r" "session_le s s"
  by (simp_all add: user_le_def session_le_def)

lemma evolves_refl: "idb_wf db \<Longrightarrow> evolves db db"
  unfolding evolves_def by (meson le_refl)

lemma evolves_trans: "evolves a b \<Longrightarrow> evolves b c \<Longrightarrow> evolves a c"
  unfolding evolves_def by (meson user_le_trans session_le_trans)

lemma evolves_wf: "evolves db db' \<Longrightarrow> idb_wf db'"
  by (simp add: evolves_def)

lemma upd_witness:
  assumes "x \<in> set rows" "R x x" "p x \<Longrightarrow> R x (f x)"
  shows "\<exists>y \<in> set (tbl_upd p f rows). R x y"
proof (rule bexI [where x = "if p x then f x else x"])
  show "R x (if p x then f x else x)" using assms(2,3) by simp
  show "(if p x then f x else x) \<in> set (tbl_upd p f rows)" using assms(1) by (simp add: tbl_upd_def)
qed

subsection \<open>Statements\<close>

lemma users_update_evolves:
  assumes "idb_wf db" "\<And>r. user_le r (f r)"
  shows "evolves db (id_users_update (tbl_upd p f) db)"
proof -
  have "map ur_ID (tbl_upd p f (id_users db)) = map ur_ID (id_users db)"
    using assms(2) by (intro map_key_upd) (simp add: user_le_def)
  then have "idb_wf (id_users_update (tbl_upd p f) db)" using assms(1) by (simp add: idb_wf_def)
  moreover have "\<exists>r' \<in> set (tbl_upd p f (id_users db)). user_le r r'" if "r \<in> set (id_users db)" for r
    using that assms(2) by (intro upd_witness) simp_all
  ultimately show ?thesis unfolding evolves_def by (auto intro: le_refl)
qed

lemma sessions_update_evolves:
  assumes "idb_wf db" "\<And>s. s \<in> set (id_sessions db) \<Longrightarrow> p s \<Longrightarrow> sn_RevokedAt s = None"
    and "\<And>s. sn_ID (f s) = sn_ID s \<and> sn_UserID (f s) = sn_UserID s \<and> sn_CreatedAt (f s) = sn_CreatedAt s"
  shows "evolves db (id_sessions_update (tbl_upd p f) db)"
proof -
  have "map sn_ID (tbl_upd p f (id_sessions db)) = map sn_ID (id_sessions db)"
    using assms(3) by (intro map_key_upd) simp
  then have "idb_wf (id_sessions_update (tbl_upd p f) db)" using assms(1) by (simp add: idb_wf_def)
  moreover have "\<exists>s' \<in> set (tbl_upd p f (id_sessions db)). session_le s s'" if "s \<in> set (id_sessions db)" for s
    using that assms(2,3) by (intro upd_witness) (auto simp: session_le_def)
  ultimately show ?thesis unfolding evolves_def by (auto intro: le_refl)
qed

lemma actions_update_evolves:
  assumes "idb_wf db" "\<And>a. a \<in> set (id_actions db) \<Longrightarrow> p a \<Longrightarrow> ac_UsedAt a = None"
    and "\<And>a. ac_ID (f a) = ac_ID a \<and> ac_Digest (f a) = ac_Digest a"
  shows "evolves db (id_actions_update (tbl_upd p f) db)"
proof -
  have "map ac_ID (tbl_upd p f (id_actions db)) = map ac_ID (id_actions db)"
    "map ac_Digest (tbl_upd p f (id_actions db)) = map ac_Digest (id_actions db)"
    using assms(3) by (auto intro!: map_key_upd)
  then have "idb_wf (id_actions_update (tbl_upd p f) db)" using assms(1) by (simp add: idb_wf_def)
  moreover have "a \<in> set (tbl_upd p f (id_actions db))" if "a \<in> set (id_actions db)" "ac_UsedAt a \<noteq> None" for a
  proof -
    have "\<not> p a" using that assms(2) by metis
    then show ?thesis using that(1) by (simp add: in_tbl_upd)
  qed
  ultimately show ?thesis unfolding evolves_def by (auto intro: le_refl)
qed

lemma actions_delete_evolves:
  assumes "idb_wf db" "\<And>a. p a \<Longrightarrow> ac_UsedAt a = None"
  shows "evolves db (id_actions_update (tbl_del p) db)"
  using assms unfolding evolves_def idb_wf_def by (auto simp: in_tbl_del distinct_del intro: le_refl)

lemma append_evolves:
  assumes "idb_wf db"
  shows "\<forall>x \<in> set (id_users db). ur_ID x \<noteq> ur_ID r \<Longrightarrow> evolves db (id_users_update (\<lambda>rows. rows @ [r]) db)"
    and "\<forall>x \<in> set (id_sessions db). sn_ID x \<noteq> sn_ID s \<Longrightarrow> evolves db (id_sessions_update (\<lambda>rows. rows @ [s]) db)"
    and "\<forall>x \<in> set (id_actions db). ac_ID x \<noteq> ac_ID a \<and> ac_Digest x \<noteq> ac_Digest a \<Longrightarrow> evolves db (id_actions_update (\<lambda>rows. rows @ [a]) db)"
  using assms unfolding evolves_def idb_wf_def by (auto simp: image_iff intro: le_refl)

lemma emails_evolves: "idb_wf db \<Longrightarrow> evolves db (id_emails_update f db)"
  unfolding evolves_def idb_wf_def by (auto intro: le_refl)

subsection \<open>Bodies of transactions\<close>

definition keeps :: "'a itx \<Rightarrow> bool" where
  "keeps m \<longleftrightarrow> (\<forall>db a db'. idb_wf db \<longrightarrow> m db = Inr (a, db') \<longrightarrow> evolves db db')"

lemma keepsD: "keeps m \<Longrightarrow> m db = Inr (a, db') \<Longrightarrow> idb_wf db \<Longrightarrow> evolves db db'"
  by (auto simp: keeps_def)

lemma keeps_transaction:
  assumes "keeps m" "transaction m db = (r, db')" "idb_wf db"
  shows "evolves db db'"
  using transaction_atomic [OF assms(2)] keepsD [OF assms(1) _ assms(3)] evolves_refl [OF assms(3)] by blast

lemma keeps_bind [intro]:
  assumes "keeps m" "\<And>a. keeps (f a)"
  shows "keeps (tbind m f)"
  unfolding keeps_def
proof (intro allI impI)
  fix db z db' assume wf: "idb_wf db" and m: "tbind m f db = Inr (z, db')"
  then obtain a t where a: "m db = Inr (a, t)" "f a t = Inr (z, db')" by (auto simp: tx_simps)
  have e: "evolves db t" by (rule keepsD [OF assms(1) a(1) wf])
  show "evolves db db'" by (rule evolves_trans [OF e keepsD [OF assms(2) a(2) evolves_wf [OF e]]])
qed

lemma keeps_basic [intro, simp]:
  "keeps (tret a)" "keeps (traise e)" "keeps (tread g)" "keeps (tguard b e)" "keeps (tcheck q e)" "keeps (tsome h e)"
  unfolding keeps_def by (auto simp: tx_simps evolves_refl)

lemma keeps_put_user: "(\<And>r. user_le r (f r)) \<Longrightarrow> keeps (put_user i f)"
  unfolding keeps_def put_user_def by (auto simp: tx_simps intro: users_update_evolves)

lemma keeps_disable: "keeps (disable_user i t)"
  unfolding keeps_def disable_user_def by (auto simp: tx_simps user_le_def intro: users_update_evolves)

lemma keeps_revoke: "keeps (revoke_sessions p reason t)"
  unfolding keeps_def revoke_sessions_def by (auto simp: tx_simps revoked_row_def intro: sessions_update_evolves)

lemma keeps_insert_action: "keeps (insert_action a)"
  unfolding keeps_def insert_action_def by (auto simp: tx_simps intro: append_evolves(3))

lemma keeps_insert_email: "keeps (insert_email m)" "keeps (put_email i g)"
  unfolding keeps_def insert_email_def put_email_def by (auto simp: tx_simps intro: emails_evolves)

lemma keeps_insert_user: "keeps (insert_user E now i user)"
  unfolding keeps_def insert_user_def Let_def by (auto simp: tx_simps intro: append_evolves(1))

lemma action_by_digest_in:
  assumes "action_by_digest kind digest db = Some a"
  shows "a \<in> set (id_actions db) \<and> ac_Kind a = kind \<and> ac_Digest a = digest"
proof -
  let ?rows = "tbl_select (\<lambda>a. ac_Kind a = kind \<and> ac_Digest a = digest) ac_ID 1 (id_actions db)"
  have "a \<in> set ?rows" using assms by (auto simp: action_by_digest_def split: list.split_asm)
  then show ?thesis using tbl_select_in by fastforce
qed

lemma action_unique:
  assumes "idb_wf db" "action_by_digest kind digest db = Some b" "a \<in> set (id_actions db)" "ac_Digest a = digest"
  shows "b = a"
  using action_by_digest_in [OF assms(2)] key_unique [OF idb_wfD(4) [OF assms(1)]] assms(3,4) by blast

lemma action_by_digest_found:
  assumes "idb_wf db" "b \<in> set (id_actions db)" "ac_Kind b = kind" "ac_Digest b = digest"
  shows "action_by_digest kind digest db = Some b"
proof -
  let ?rows = "sort_key ac_ID (filter (\<lambda>a. ac_Kind a = kind \<and> ac_Digest a = digest) (id_actions db))"
  have "b \<in> set ?rows" using assms by simp
  then have "?rows \<noteq> []" by (metis empty_iff list.set(1))
  then obtain x where "action_by_digest kind digest db = Some x"
    by (cases ?rows) (auto simp: action_by_digest_def tbl_select_def)
  then show ?thesis using action_unique [OF assms(1) _ assms(2,4)] by simp
qed

lemma consume_evolves:
  assumes "idb_wf db" "action_by_digest kind digest db = Some a" "consumeLockedAction a now db = Inr (b, db')"
  shows "evolves db db' \<and> b = a\<lparr>ac_UsedAt := Some now\<rparr> \<and> b \<in> set (id_actions db') \<and> classifyActionToken a now = None"
proof -
  have a: "a \<in> set (id_actions db)" using action_by_digest_in [OF assms(2)] by blast
  have db': "db' = id_actions_update (tbl_upd (\<lambda>x. ac_ID x = ac_ID a) (\<lambda>x. x\<lparr>ac_UsedAt := Some now\<rparr>)) db"
    and b: "b = a\<lparr>ac_UsedAt := Some now\<rparr>" and c: "classifyActionToken a now = None"
    using assms(3) by (auto simp: consumeLockedAction_def tx_simps split: option.split_asm)
  have u: "ac_UsedAt a = None" using c by (simp add: classifyActionToken_def split: if_split_asm)
  have "evolves db db'" unfolding db'
  proof (rule actions_update_evolves [OF assms(1)])
    fix x assume "x \<in> set (id_actions db)" "ac_ID x = ac_ID a"
    then have "x = a" using key_unique [OF idb_wfD(3) [OF assms(1)]] a by blast
    then show "ac_UsedAt x = None" using u by simp
  qed simp
  moreover have "b \<in> set (id_actions db')" using a unfolding db' b by (simp add: in_tbl_upd) blast
  ultimately show ?thesis using b c by blast
qed

lemma lock_iff: "lockActionByDigest kind digest db = Inr (a, db') \<longleftrightarrow> action_by_digest kind digest db = Some a \<and> db' = db"
  using action_by_digest_in by (auto simp: lockActionByDigest_def tx_simps)

lemma keeps_consume: "keeps (tbind (lockActionByDigest kind digest) (\<lambda>a. consumeLockedAction a now))"
  unfolding keeps_def using consume_evolves by (auto simp: tbind_Inr lock_iff)

lemma keeps_consume_then:
  assumes "\<And>a. keeps (f a)"
  shows "keeps (tbind (lockActionByDigest kind digest) (\<lambda>a. tbind (consumeLockedAction a now) f))"
proof -
  have "keeps (tbind (tbind (lockActionByDigest kind digest) (\<lambda>a. consumeLockedAction a now)) f)"
    by (rule keeps_bind [OF keeps_consume assms])
  moreover have "tbind (tbind m g) h = tbind m (\<lambda>a. tbind (g a) h)" for m :: "ActionToken itx" and g and h :: "ActionToken \<Rightarrow> 'a itx"
    by (auto simp: tbind_def fun_eq_iff split: sum.split)
  ultimately show ?thesis by simp
qed

subsection \<open>Repository calls\<close>

lemma keeps_delete_actions: "(\<And>a. p a \<Longrightarrow> ac_UsedAt a = None) \<Longrightarrow> keeps (twrite (id_actions_update (tbl_del p)))"
  unfolding keeps_def by (auto simp: tx_simps intro: actions_delete_evolves)

lemma row_le [simp]:
  "user_le r (login_failure_row failedAt lockUntil threshold r)" "user_le r (login_success_row t r)"
  "user_le r (verified_row t r)" "user_le r (password_row hash t r)"
  by (simp_all add: user_le_def login_failure_row_def login_success_row_def verified_row_def password_row_def Let_def)

lemma keeps_if: "keeps a \<Longrightarrow> keeps b \<Longrightarrow> keeps (if c then a else b)"
  by simp

lemmas keeps_intros = keeps_bind keeps_basic keeps_put_user keeps_disable keeps_revoke keeps_insert_action keeps_insert_email
  keeps_insert_user keeps_delete_actions keeps_consume keeps_consume_then keeps_if row_le

lemma evolve_RecordLoginFailure [evolve_calls]: "RecordLoginFailure i failedAt lockUntil threshold db = (r, db') \<Longrightarrow> idb_wf db \<Longrightarrow> evolves db db'"
  unfolding RecordLoginFailure_def by (erule keeps_transaction [rotated], assumption, intro keeps_intros)

lemma evolve_CompleteLoginSuccess [evolve_calls]: "CompleteLoginSuccess i t db = (r, db') \<Longrightarrow> idb_wf db \<Longrightarrow> evolves db db'"
  unfolding CompleteLoginSuccess_def by (erule keeps_transaction [rotated], assumption, intro keeps_intros)

lemma evolve_DeactivateAndRevoke [evolve_calls]: "DeactivateAndRevoke i t db = (r, db') \<Longrightarrow> idb_wf db \<Longrightarrow> evolves db db'"
  unfolding DeactivateAndRevoke_def by (erule keeps_transaction [rotated], assumption, intro keeps_intros)

lemma evolve_RevokeAllSessions [evolve_calls]: "RevokeAllSessions userID reason t db = (r, db') \<Longrightarrow> idb_wf db \<Longrightarrow> evolves db db'"
  unfolding RevokeAllSessions_def by (erule keeps_transaction [rotated], assumption, intro keeps_intros)

lemma evolve_CreateAndEnqueue [evolve_calls]: "CreateAndEnqueue E key k token message db = (r, db') \<Longrightarrow> idb_wf db \<Longrightarrow> evolves db db'"
  unfolding CreateAndEnqueue_def Let_def by (erule keeps_transaction [rotated], assumption, (intro keeps_intros; simp))

lemma evolve_CreateUserAndEnqueue [evolve_calls]: "CreateUserAndEnqueue E key k wall i user token message db = (r, db') \<Longrightarrow> idb_wf db \<Longrightarrow> evolves db db'"
  unfolding CreateUserAndEnqueue_def Let_def by (erule keeps_transaction [rotated], assumption, intro keeps_intros)

lemma evolve_ConsumeAndVerifyEmail [evolve_calls]: "ConsumeAndVerifyEmail digest t db = (r, db') \<Longrightarrow> idb_wf db \<Longrightarrow> evolves db db'"
  unfolding ConsumeAndVerifyEmail_def by (erule keeps_transaction [rotated], assumption, rule keeps_consume_then, intro keeps_intros)

lemma evolve_ConsumeAndResetPassword [evolve_calls]: "ConsumeAndResetPassword digest hash t db = (r, db') \<Longrightarrow> idb_wf db \<Longrightarrow> evolves db db'"
  unfolding ConsumeAndResetPassword_def by (erule keeps_transaction [rotated], assumption, rule keeps_consume_then, intro keeps_intros)

lemma evolve_mail [evolve_calls]:
  "MarkSent i t db = (r, db') \<Longrightarrow> idb_wf db \<Longrightarrow> evolves db db'"
  "MarkFailed i message t delay db = (r, db') \<Longrightarrow> idb_wf db \<Longrightarrow> evolves db db'"
  "ClaimEmail t messageID owner db = (q, db') \<Longrightarrow> idb_wf db \<Longrightarrow> evolves db db'"
proof -
  assume wf: "idb_wf db"
  show "evolves db db'" if "MarkSent i t db = (r, db')"
    using transaction_atomic [OF that [unfolded MarkSent_def]] wf by (auto simp: tx_simps intro: emails_evolves evolves_refl)
  show "evolves db db'" if "MarkFailed i message t delay db = (r, db')"
    using that wf unfolding MarkFailed_def by (elim keeps_transaction [rotated]) (assumption, intro keeps_intros)
  show "evolves db db'" if "ClaimEmail t messageID owner db = (q, db')"
    using transaction_atomic [OF that [unfolded ClaimEmail_def]] wf
    by (auto simp: tx_simps put_email_def split: list.split_asm intro: emails_evolves evolves_refl)
qed

lemma evolve_RevokeSession [evolve_calls]: "RevokeSession i reason t db = (r, db') \<Longrightarrow> idb_wf db \<Longrightarrow> evolves db db'"
  using transaction_atomic [of _ db r db'] unfolding RevokeSession_def
  by (fastforce simp: tx_simps revoked_row_def intro: sessions_update_evolves evolves_refl)

lemma evolve_CreateSession [evolve_calls]: "CreateSession E key nonce s db = (r, db') \<Longrightarrow> idb_wf db \<Longrightarrow> evolves db db'"
  using transaction_atomic [of _ db r db'] unfolding CreateSession_def Let_def
  by (fastforce simp: tx_simps intro: append_evolves(2) evolves_refl)

text \<open>A rotation changes nothing but the row whose current token was presented.\<close>

lemma RotateWithGrace_cases:
  assumes "RotateWithGrace E key nonce i currentDigest nextDigest nextToken now expires grace db = (r, db')"
  obtains (same) "db' = db" "\<And>s. r = Inr s \<Longrightarrow> \<exists>row. get_session i db = Some row \<and> in_grace key currentDigest now grace row"
  | (rotated) row cipher where "get_session i db = Some row" "sn_RevokedAt row = None" "now < sn_ExpiresAt row"
      "sn_RefreshDigest row = currentDigest" "r = Inr (fromSessionModel (rotated_row nextDigest cipher now expires row))"
      "db' = id_sessions_update (tbl_upd (\<lambda>s. sn_ID s = sn_ID row) (rotated_row nextDigest cipher now expires)) db"
proof -
  let ?m = "\<lambda>row. if sn_RefreshDigest row \<noteq> currentDigest
     then if in_grace key currentDigest now grace row
          then (case OpenEmailToken E (sn_RefreshTokenCipher row) key of
              Inl _ \<Rightarrow> traise (IOther ''open rotated identity refresh token'')
            | Inr current \<Rightarrow> tret ((fromSessionModel row)\<lparr>se_CurrentRefreshToken := current\<rparr>))
          else tbind (put_session (sn_ID row) (revoked_row now ''refresh_replay'')) (\<lambda>_. traise ErrSessionReplay)
     else let cipher = (if key \<noteq> [] then SealEmailToken E nonce nextToken key else []) in
          tbind (put_session (sn_ID row) (rotated_row nextDigest cipher now expires)) (\<lambda>_.
          tret (fromSessionModel (rotated_row nextDigest cipher now expires row)))"
  show ?thesis
  proof (cases r)
    case (Inl e)
    then have "db' = db" using assms by (simp add: RotateWithGrace_def transaction_Inl)
    then show ?thesis using same Inl by blast
  next
    case (Inr s)
    then obtain row where rec: "get_session i db = Some row" "sn_RevokedAt row = None" "now < sn_ExpiresAt row" "?m row db = Inr (s, db')"
      using assms by (auto simp: RotateWithGrace_def transaction_Inr tbind_Inr [of "tsome _ _"] tbind_Inr [of "tguard _ _"] tsome_iff tguard_iff)
    show ?thesis
    proof (cases "sn_RefreshDigest row = currentDigest")
      case True
      then show ?thesis using rec Inr rotated [of row "if key \<noteq> [] then SealEmailToken E nonce nextToken key else []"]
        by (auto simp: Let_def tx_simps put_session_def)
    next
      case False
      then have "in_grace key currentDigest now grace row" "db' = db"
        using rec(4) by (auto simp: tx_simps split: if_split_asm sum.split_asm)
      then show ?thesis using same rec(1) by blast
    qed
  qed
qed

lemma get_session_in: "get_session i db = Some s \<Longrightarrow> s \<in> set (id_sessions db) \<and> sn_ID s = i"
  unfolding get_session_def using tbl_get_SomeD [where key = sn_ID] by blast

lemma evolve_RotateWithGrace [evolve_calls]:
  assumes "RotateWithGrace E key nonce i currentDigest nextDigest nextToken now expires grace db = (r, db')" "idb_wf db"
  shows "evolves db db'"
  using assms(1)
proof (cases rule: RotateWithGrace_cases)
  case same
  then show ?thesis using evolves_refl [OF assms(2)] by simp
next
  case (rotated row cipher)
  show ?thesis unfolding rotated(6)
  proof (rule sessions_update_evolves [OF assms(2)])
    fix s assume "s \<in> set (id_sessions db)" "sn_ID s = sn_ID row"
    then have "s = row" using key_unique [OF idb_wfD(2) [OF assms(2)]] get_session_in [OF rotated(1)] by blast
    then show "sn_RevokedAt s = None" using rotated(2) by simp
  qed (simp add: rotated_row_def)
qed

section \<open>The service\<close>

text \<open>Every call of the service that can change the tables, at any time and with any input.\<close>

inductive service_step :: "ienv \<Rightarrow> identity_config \<Rightarrow> idb \<Rightarrow> idb \<Rightarrow> bool" for E C where
  register: "Register E C d salt now i username email password db = (r, db') \<Longrightarrow> service_step E C db db'"
| authenticate: "Authenticate E C d now created identifier password db = (r, db') \<Longrightarrow> service_step E C db db'"
| refresh: "SessionRefresh E C d now encoded db = (r, db') \<Longrightarrow> service_step E C db db'"
| revoke: "SessionRevoke now userID sessionID reason db = (r, db') \<Longrightarrow> service_step E C db db'"
| revoke_all: "SessionRevokeAll now userID reason db = (r, db') \<Longrightarrow> service_step E C db db'"
| request_verification: "RequestEmailVerification E C d clock user db = (r, db') \<Longrightarrow> service_step E C db db'"
| verify: "VerifyEmail E C now token db = (r, db') \<Longrightarrow> service_step E C db db'"
| request_reset: "RequestPasswordReset E C d now identifier db = (r, db') \<Longrightarrow> service_step E C db db'"
| reset: "ResetPassword E C salt now token password db = (r, db') \<Longrightarrow> service_step E C db db'"
| deactivate: "DeactivateAccount E now userID password db = (r, db') \<Longrightarrow> service_step E C db db'"
| deliver: "process_email E key host send now messageID owner db = db' \<Longrightarrow> service_step E C db db'"

abbreviation service_run :: "ienv \<Rightarrow> identity_config \<Rightarrow> idb \<Rightarrow> idb \<Rightarrow> bool" where
  "service_run E C \<equiv> (service_step E C)\<^sup>*\<^sup>*"

lemma evolve_issue_action [evolve_calls]: "issue_action E C d now user kind subject db = (r, db') \<Longrightarrow> idb_wf db \<Longrightarrow> evolves db db'"
  unfolding issue_action_def Let_def
  by (auto split: if_split_asm prod.split_asm sum.split_asm intro: evolves_refl evolve_CreateAndEnqueue)

lemma evolve_SessionCreate [evolve_calls]: "SessionCreate E C d now user label db = (r, db') \<Longrightarrow> idb_wf db \<Longrightarrow> evolves db db'"
  unfolding SessionCreate_def Let_def
  by (auto split: if_split_asm prod.split_asm sum.split_asm intro: evolves_refl evolve_CreateSession)

lemma evolve_Register: "Register E C d salt now i username email password db = (r, db') \<Longrightarrow> idb_wf db \<Longrightarrow> evolves db db'"
  unfolding Register_def Let_def
  by (auto split: prod.split_asm sum.split_asm intro: evolves_refl evolve_CreateUserAndEnqueue)

lemma evolve_SessionRefresh: "SessionRefresh E C d now encoded db = (r, db') \<Longrightarrow> idb_wf db \<Longrightarrow> evolves db db'"
  unfolding SessionRefresh_def Let_def
  by (auto split: if_split_asm prod.split_asm sum.split_asm intro: evolves_refl evolve_RotateWithGrace)

lemma evolve_SessionRevoke:
  "SessionRevoke now userID sessionID reason db = (r, db') \<Longrightarrow> idb_wf db \<Longrightarrow> evolves db db'"
  "SessionRevokeAll now userID reason db = (r, db') \<Longrightarrow> idb_wf db \<Longrightarrow> evolves db db'"
  unfolding SessionRevoke_def SessionRevokeAll_def
  by (auto split: if_split_asm prod.split_asm sum.split_asm intro: evolves_refl evolve_RevokeSession evolve_RevokeAllSessions)

lemma evolve_RequestEmailVerification: "RequestEmailVerification E C d clock user db = (r, db') \<Longrightarrow> idb_wf db \<Longrightarrow> evolves db db'"
  unfolding RequestEmailVerification_def
  by (auto split: if_split_asm prod.split_asm sum.split_asm verification_state.split_asm intro: evolves_refl evolve_issue_action)

lemma evolve_actions:
  "VerifyEmail E C now token db = (r, db') \<Longrightarrow> idb_wf db \<Longrightarrow> evolves db db'"
  "RequestPasswordReset E C d now identifier db = (r, db') \<Longrightarrow> idb_wf db \<Longrightarrow> evolves db db'"
  "ResetPassword E C salt now token password db = (r, db') \<Longrightarrow> idb_wf db \<Longrightarrow> evolves db db'"
  "DeactivateAccount E now userID password db = (r, db') \<Longrightarrow> idb_wf db \<Longrightarrow> evolves db db'"
  unfolding VerifyEmail_def RequestPasswordReset_def ResetPassword_def DeactivateAccount_def Let_def
  by (auto simp: apfst_def map_prod_def split: if_split_asm prod.split_asm sum.split_asm
      intro: evolves_refl evolve_ConsumeAndVerifyEmail evolve_ConsumeAndResetPassword evolve_issue_action evolve_DeactivateAndRevoke)

lemma evolve_process_email: "process_email E key host send now messageID owner db = db' \<Longrightarrow> idb_wf db \<Longrightarrow> evolves db db'"
proof -
  assume p: "process_email E key host send now messageID owner db = db'" and wf: "idb_wf db"
  obtain r t where c: "ClaimEmail now messageID owner db = (r, t)" by fastforce
  have t: "evolves db t" by (rule evolve_mail(3) [OF c wf])
  note rest = evolve_mail(1,2) [OF prod.collapse [symmetric] evolves_wf [OF t]]
  have "db' = db \<or> db' = t \<or> (\<exists>i. db' = snd (MarkSent i now t)) \<or> (\<exists>i msg delay. db' = snd (MarkFailed i msg now delay t))"
    using p c unfolding process_email_def by (auto split: if_split_asm sum.split_asm option.split_asm)
  then show "evolves db db'" using evolves_refl [OF wf] t evolves_trans [OF t rest(1)] evolves_trans [OF t rest(2)] by blast
qed

text \<open>The attempt either ends before the account is changed, or records a failure, or completes the login and opens a session.\<close>

lemma Authenticate_cases:
  assumes "Authenticate E C d now created identifier password db = (r, db')"
  obtains (unchanged) "db' = db" "\<exists>e. r = Inl e"
  | (failed) user locked where "FindByLogin E (trim_space identifier) db = Inr user" "ie_bcrypt_compare E (us_PasswordHash user) password = Inr False"
      "\<not> IsLocked user now" "RecordLoginFailure (us_ID user) now (now + ic_lockDuration C) (ic_failureThreshold C) db = (locked, db')"
      "\<exists>e. r = Inl e"
  | (completed) user u t where "FindByLogin E (trim_space identifier) db = Inr user" "ie_bcrypt_compare E (us_PasswordHash user) password = Inr True"
      "\<not> IsLocked user now" "CompleteLoginSuccess (us_ID user) now db = (u, t)"
      "db' = t \<and> (\<exists>e. r = Inl e) \<or> (\<exists>q user'. SessionCreate E C d created user' [] t = (q, db') \<and> (\<forall>a. r = Inr a \<longrightarrow> q = Inr a))"
proof (cases "FindByLogin E (trim_space identifier) db")
  case (Inl e)
  then show ?thesis using assms unchanged
    by (auto simp: Authenticate_def Let_def split: if_split_asm ierr.split_asm sum.split_asm)
next
  case user: (Inr user)
  show ?thesis
  proof (cases "(trim_space identifier = [] \<or> 320 < length (trim_space identifier) \<or> password = [] \<or> 72 < length password) \<or> IsLocked user now
      \<or> (\<exists>e. ie_bcrypt_compare E (us_PasswordHash user) password = Inl e)
      \<or> (ie_bcrypt_compare E (us_PasswordHash user) password = Inr False \<and> \<not> CanEstablishSession user)")
    case True
    then show ?thesis using assms user by (intro unchanged) (auto simp: Authenticate_def Let_def split: if_split_asm sum.split_asm)
  next
    case False
    then obtain m where m: "ie_bcrypt_compare E (us_PasswordHash user) password = Inr m"
      by (cases "ie_bcrypt_compare E (us_PasswordHash user) password") auto
    obtain u t where u: "CompleteLoginSuccess (us_ID user) now db = (u, t)" by fastforce
    obtain l t' where l: "RecordLoginFailure (us_ID user) now (now + ic_lockDuration C) (ic_failureThreshold C) db = (l, t')" by fastforce
    show ?thesis
    proof (cases m)
      case True
      show ?thesis
        using completed [OF user _ _ u] assms False m True user u
        by (auto simp: Authenticate_def Let_def split: if_split_asm sum.split_asm prod.split_asm)
    next
      case False': False
      show ?thesis using failed [OF user, of l] assms False m False' user l
        by (auto simp: Authenticate_def Let_def split: if_split_asm sum.split_asm)
    qed
  qed
qed

lemma evolve_Authenticate: "Authenticate E C d now created identifier password db = (r, db') \<Longrightarrow> idb_wf db \<Longrightarrow> evolves db db'"
proof (erule Authenticate_cases)
  fix user u t
  assume wf: "idb_wf db" and u: "CompleteLoginSuccess (us_ID user) now db = (u, t)"
    and t: "db' = t \<and> (\<exists>e. r = Inl e) \<or> (\<exists>q user'. SessionCreate E C d created user' [] t = (q, db') \<and> (\<forall>a. r = Inr a \<longrightarrow> q = Inr a))"
  have e: "evolves db t" by (rule evolve_CompleteLoginSuccess [OF u wf])
  from t show "evolves db db'" using e evolves_trans [OF e evolve_SessionCreate [OF _ evolves_wf [OF e]]] by blast
qed (auto intro: evolves_refl evolve_RecordLoginFailure)

lemma service_step_evolves:
  assumes "service_step E C db db'" "idb_wf db"
  shows "evolves db db'"
  using assms
  by cases (blast intro: evolve_Register evolve_Authenticate evolve_SessionRefresh evolve_SessionRevoke evolve_RequestEmailVerification
      evolve_actions evolve_process_email)+

lemma service_run_evolves:
  assumes "service_run E C db db'" "idb_wf db"
  shows "evolves db db'"
  using assms
  by (induction rule: rtranclp_induct) (blast intro: evolves_refl evolves_trans service_step_evolves evolves_wf)+

end
