(* ===== verification/IdentityScenario.thy ===== *)
theory IdentityScenario
  imports IdentitySafety
begin

text \<open>
  One account, evaluated by the kernel: it registers, logs in, asks for a password reset and resets the password.
  The environment is concrete (hashing prefixes its argument, the cipher is the identity).
\<close>

definition sample_ienv :: ienv where
  "sample_ienv = \<lparr>ie_lower = (\<lambda>r. r), ie_fold = (\<lambda>r. r), ie_pg_lower = to_lower (\<lambda>r. r), ie_parse_address = (\<lambda>s. Some ([], s)),
     ie_sha256 = (\<lambda>s. CHR ''h'' # s), ie_hmac = (\<lambda>k m. k @ m), ie_gcm_seal = (\<lambda>_ _ t. t), ie_gcm_open = (\<lambda>_ _ t. Some t),
     ie_bcrypt_hash = (\<lambda>salt p. Inr (salt @ p)), ie_bcrypt_compare = (\<lambda>h p. Inr (h = CHR ''s'' # p)),
     ie_jwt = \<lparr>jw_numeric_date = (\<lambda>t. t), jw_sign = (\<lambda>c. Inr (cl_Subject c @ ''/'' @ show_int (cl_TokenVersion c) @ ''/'' @ cl_SessionID c)),
       jw_parse = (\<lambda>_ _. None)\<rparr>\<rparr>"

definition sample_config :: identity_config where
  "sample_config = \<lparr>ic_refreshPepper = ''refresh pepper...'', ic_refreshKey = ''refresh key'', ic_absoluteTTL = 720 * hour,
     ic_idleTTL = 168 * hour, ic_refreshGrace = 10 * second, ic_accessTTL = 15 * minute, ic_failureThreshold = 3,
     ic_lockDuration = 15 * minute, ic_dummyHash = ''dummy'', ic_actionPepper = ''action pepper....'', ic_actionTTL = hour,
     ic_emailKey = ''email key''\<rparr>"

text \<open>The \<open>n\<close>-th draw from the random source: the same byte everywhere.\<close>

definition random_bytes :: "nat \<Rightarrow> nat \<Rightarrow> string" where
  "random_bytes n len = replicate len (char_of n)"

definition sample_draws :: "nat \<Rightarrow> draws" where
  "sample_draws n = \<lparr>dw_refresh = (random_bytes n 16, random_bytes (n + 1) 32), dw_nonce = random_bytes n 12,
     dw_tokenID = ''token'', dw_issuedAt = 2000\<rparr>"

definition sample_action_draws :: "nat \<Rightarrow> action_draws" where
  "sample_action_draws n = \<lparr>ad_token = random_bytes n 32, ad_ID = ''action-'' @ show_nat n,
     ad_mail = \<lparr>mk_ID = int n, mk_MessageID = ''message-'' @ show_nat n, mk_Nonce = random_bytes n 12\<rparr>\<rparr>"

definition registered_idb :: idb where
  "registered_idb = snd (Register sample_ienv sample_config (sample_action_draws 1) ''s'' 1000 1 ''alice'' ''alice@example.org'' ''password1'' empty_idb)"

definition sample_login :: "(iservice_err + SessionAuthentication) \<times> idb" where
  "sample_login = Authenticate sample_ienv sample_config (sample_draws 10) 2000 2000 ''alice'' ''password1'' registered_idb"

definition session_token :: string where
  "session_token = (case fst sample_login of Inr a \<Rightarrow> sa_RefreshToken a | Inl _ \<Rightarrow> [])"

definition login_idb :: idb where
  "login_idb = snd sample_login"

definition requested_idb :: idb where
  "requested_idb = snd (RequestPasswordReset sample_ienv sample_config (sample_action_draws 2) 3000 ''alice'' login_idb)"

definition reset_token :: string where
  "reset_token = NewActionToken (random_bytes 2 32)"

definition verification_token :: string where
  "verification_token = NewActionToken (random_bytes 1 32)"

definition reset_idb :: idb where
  "reset_idb = snd (ResetPassword sample_ienv sample_config ''s'' 4000 reset_token ''password2'' requested_idb)"

lemma registered_run: "service_run sample_ienv sample_config empty_idb registered_idb"
  unfolding registered_idb_def by (rule r_into_rtranclp, rule service_step.register [OF prod.collapse [symmetric]])

lemma login_run: "service_run sample_ienv sample_config empty_idb login_idb"
  unfolding login_idb_def sample_login_def
  by (rule rtranclp.rtrancl_into_rtrancl [OF registered_run], rule service_step.authenticate [OF prod.collapse [symmetric]])

lemma requested_run: "service_run sample_ienv sample_config empty_idb requested_idb"
  unfolding requested_idb_def
  by (rule rtranclp.rtrancl_into_rtrancl [OF login_run], rule service_step.request_reset [OF prod.collapse [symmetric]])

lemma login_succeeds: "\<exists>a. fst sample_login = Inr a"
proof -
  have "(case fst sample_login of Inr _ \<Rightarrow> True | Inl _ \<Rightarrow> False)" by code_simp
  then show ?thesis by (auto split: sum.split_asm)
qed

lemma reset_succeeds: "ResetPassword sample_ienv sample_config ''s'' 4000 reset_token ''password2'' requested_idb = (Inr (), reset_idb)"
proof -
  have "fst (ResetPassword sample_ienv sample_config ''s'' 4000 reset_token ''password2'' requested_idb) = Inr ()" by code_simp
  then show ?thesis unfolding reset_idb_def by (metis prod.collapse)
qed

end
