(* ===== verification/IdentityProperties.thy ===== *)
theory IdentityProperties
  imports IdentityScenario
begin

text \<open>
  What the identity service promises to its users: a password reset and a deactivation end all access, a mail link
  works once, wrong passwords lock an account, sessions end in time; and three places where it falls short.
\<close>

section \<open>Reachable tables\<close>

lemma empty_wf: "idb_wf empty_idb"
  by (simp add: idb_wf_def empty_idb_def)

lemmas reachable_wf = evolves_wf [OF service_run_evolves [OF _ empty_wf]]

lemma session_persists:
  assumes "evolves db db'" "get_session i db = Some s"
  shows "\<exists>s'. get_session i db' = Some s' \<and> session_le s s'"
proof -
  from get_session_in [OF assms(2)] have s: "s \<in> set (id_sessions db)" "sn_ID s = i" by auto
  then obtain s' where s': "s' \<in> set (id_sessions db')" "session_le s s'" using assms(1) unfolding evolves_def by blast
  have "tbl_get sn_ID (sn_ID s') (id_sessions db') = Some s'" by (rule tbl_get_in [OF idb_wfD(2) [OF evolves_wf [OF assms(1)]] s'(1)])
  then show ?thesis using s' s(2) by (auto simp: get_session_def session_le_def)
qed

lemma user_persists:
  assumes "evolves db db'" "get_user i db = Some r"
  shows "\<exists>r'. get_user i db' = Some r' \<and> user_le r r'"
proof -
  have r: "r \<in> set (id_users db)" "ur_ID r = i" using assms(2) unfolding get_user_def using tbl_get_SomeD [where key = ur_ID] by blast+
  then obtain r' where r': "r' \<in> set (id_users db')" "user_le r r'" using assms(1) unfolding evolves_def by blast
  have "tbl_get ur_ID (ur_ID r') (id_users db') = Some r'" by (rule tbl_get_in [OF idb_wfD(1) [OF evolves_wf [OF assms(1)]] r'(1)])
  then show ?thesis using r' r(2) by (auto simp: get_user_def user_le_def)
qed

section \<open>Closing an account to its former holders\<close>

text \<open>The two operations that end all access: resetting the password with a mailed token, and deactivating.\<close>

inductive closes :: "ienv \<Rightarrow> identity_config \<Rightarrow> int \<Rightarrow> idb \<Rightarrow> idb \<Rightarrow> bool" for E C userID db db1 where
  password_reset: "ResetPassword E C salt now token password db = (Inr (), db1) \<Longrightarrow> a \<in> set (id_actions db) \<Longrightarrow>
    ac_Kind a = ActionPasswordReset \<Longrightarrow> ac_Digest a = DigestActionToken E (trim_space token) (ic_actionPepper C) \<Longrightarrow> ac_UserID a = userID \<Longrightarrow>
    closes E C userID db db1"
| deactivation: "DeactivateAccount E now userID password db = (Inr (), db1) \<Longrightarrow> closes E C userID db db1"

lemma reset_effect:
  assumes "idb_wf db" "ConsumeAndResetPassword digest hash now db = (Inr (), db1)" "a \<in> set (id_actions db)" "ac_Digest a = digest"
  shows "(\<forall>s \<in> set (id_sessions db1). sn_UserID s = ac_UserID a \<longrightarrow> sn_RevokedAt s \<noteq> None)
    \<and> (\<forall>r. get_user (ac_UserID a) db = Some r \<longrightarrow> (\<exists>r1. get_user (ac_UserID a) db1 = Some r1 \<and> ur_TokenVersion r < ur_TokenVersion r1))
    \<and> (\<exists>b \<in> set (id_actions db1). ac_Kind b = ActionPasswordReset \<and> ac_Digest b = digest \<and> ac_UsedAt b \<noteq> None)"
proof -
  obtain b c t user where b: "action_by_digest ActionPasswordReset digest db = Some b" and c: "consumeLockedAction b now db = Inr (c, t)"
    and user: "get_user (ac_UserID c) t = Some user"
    and db1: "db1 = id_sessions_update (tbl_upd (\<lambda>s. sn_UserID s = ac_UserID c \<and> sn_RevokedAt s = None) (revoked_row now ''password_reset''))
      (id_users_update (tbl_upd (\<lambda>r. ur_ID r = ur_ID user) (password_row hash now)) t)"
    using assms(2) by (auto simp: ConsumeAndResetPassword_def transaction_Inr tbind_Inr lock_iff tsome_iff put_user_def revoke_sessions_def twrite_iff)
  note ce = consume_evolves [OF assms(1) b c]
  have ba: "b = a" by (rule action_unique [OF assms(1) b assms(3,4)])
  then have ca: "ac_UserID c = ac_UserID a" "ac_Digest c = digest" "ac_Kind c = ActionPasswordReset"
    using ce action_by_digest_in [OF b] by simp_all
  have tu: "id_users t = id_users db" using c by (auto simp: consumeLockedAction_def tx_simps split: option.split_asm)
  have id: "ur_ID user = ac_UserID a" using user ca(1) unfolding get_user_def using tbl_get_SomeD(2) [where key = ur_ID] by metis
  have "sn_RevokedAt s \<noteq> None" if "s \<in> set (id_sessions db1)" "sn_UserID s = ac_UserID a" for s
    using that(1) unfolding db1 by simp (erule in_tbl_updE, use that(2) ca(1) in \<open>auto simp: revoked_row_def\<close>)
  moreover have "\<exists>r1. get_user (ac_UserID a) db1 = Some r1 \<and> ur_TokenVersion r < ur_TokenVersion r1" if "get_user (ac_UserID a) db = Some r" for r
    using that unfolding get_user_def db1 by (simp add: tu id tbl_get_upd_key password_row_def)
  moreover have "c \<in> set (id_actions db1)"
  proof -
    have "id_actions db1 = id_actions t" by (simp add: db1)
    then show ?thesis using ce by metis
  qed
  ultimately show ?thesis using ca ce by (intro conjI ballI impI allI bexI [of _ c]) simp_all
qed

lemma deactivate_effect:
  assumes "DeactivateAndRevoke i now db = (Inr (), db1)" "get_user i db = Some r" "idb_wf db"
  shows "(\<forall>s \<in> set (id_sessions db1). sn_UserID s = i \<longrightarrow> sn_RevokedAt s \<noteq> None)
    \<and> (\<exists>r1. get_user i db1 = Some r1 \<and> ur_TokenVersion r < ur_TokenVersion r1)"
proof -
  have db1: "db1 = id_sessions_update (tbl_upd (\<lambda>s. sn_UserID s = i \<and> sn_RevokedAt s = None) (revoked_row now ''account_deactivated''))
      (id_users_update (tbl_upd (\<lambda>r. ur_ID r = i \<and> ur_Status r \<noteq> StatusDisabled)
        (\<lambda>r. r\<lparr>ur_Status := StatusDisabled, ur_TokenVersion := ur_TokenVersion r + 1, ur_UpdatedAt := now\<rparr>)) db)"
    and ex: "\<exists>x \<in> set (id_users db). ur_ID x = i \<and> ur_Status x \<noteq> StatusDisabled"
    using assms(1) by (auto simp: DeactivateAndRevoke_def disable_user_def revoke_sessions_def tx_simps)
  have r: "r \<in> set (id_users db)" "ur_ID r = i" using assms(2) unfolding get_user_def using tbl_get_SomeD [where key = ur_ID] by blast+
  then have st: "ur_Status r \<noteq> StatusDisabled" using ex key_unique [OF idb_wfD(1) [OF assms(3)]] by blast
  have "sn_RevokedAt s \<noteq> None" if "s \<in> set (id_sessions db1)" "sn_UserID s = i" for s
    using that(1) unfolding db1 by simp (erule in_tbl_updE, use that(2) in \<open>auto simp: revoked_row_def\<close>)
  moreover have "\<exists>r1. get_user i db1 = Some r1 \<and> ur_TokenVersion r < ur_TokenVersion r1"
    using assms(2) r(2) st unfolding get_user_def db1 by (simp add: tbl_get_upd)
  ultimately show ?thesis by blast
qed

lemma closes_effect:
  assumes "closes E C userID db db1" "idb_wf db"
  shows "evolves db db1 \<and> (\<forall>s \<in> set (id_sessions db1). sn_UserID s = userID \<longrightarrow> sn_RevokedAt s \<noteq> None)
    \<and> (\<forall>r. get_user userID db = Some r \<longrightarrow> (\<exists>r1. get_user userID db1 = Some r1 \<and> ur_TokenVersion r < ur_TokenVersion r1))"
  using assms(1)
proof cases
  case (password_reset salt now token password a)
  then obtain hash where h: "ConsumeAndResetPassword (ac_Digest a) hash now db = (Inr (), db1)"
    by (auto simp: ResetPassword_def mapActionTokenError_def Let_def apfst_def map_prod_def split: sum.split_asm if_split_asm prod.split_asm ierr.split_asm)
  show ?thesis using reset_effect [OF assms(2) h password_reset(2) refl] evolve_ConsumeAndResetPassword [OF h assms(2)] unfolding password_reset(5) by simp
next
  case (deactivation now password)
  then obtain r where "get_user userID db = Some r" "DeactivateAndRevoke userID now db = (Inr (), db1)"
    by (auto simp: DeactivateAccount_def FindByID_def split: sum.split_asm if_split_asm prod.split_asm option.split_asm)
  then show ?thesis using deactivate_effect [OF _ _ assms(2)] evolve_DeactivateAndRevoke [OF _ assms(2)] by (metis option.inject)
qed



section \<open>Mail links\<close>

lemma verify_effect:
  assumes "idb_wf db" "ConsumeAndVerifyEmail digest now db = (Inr (), db1)"
  shows "\<exists>b \<in> set (id_actions db1). ac_Kind b = ActionEmailVerification \<and> ac_Digest b = digest \<and> ac_UsedAt b \<noteq> None"
proof -
  obtain b c t where b: "action_by_digest ActionEmailVerification digest db = Some b" and c: "consumeLockedAction b now db = Inr (c, t)"
    and db1: "id_actions db1 = id_actions t"
    using assms(2) by (auto simp: ConsumeAndVerifyEmail_def transaction_Inr tbind_Inr lock_iff tsome_iff put_user_def twrite_iff tret_iff split: if_split_asm)
  note ce = consume_evolves [OF assms(1) b c]
  have "c \<in> set (id_actions db1)" using ce db1 by metis
  moreover have "ac_Kind c = ActionEmailVerification \<and> ac_Digest c = digest \<and> ac_UsedAt c \<noteq> None"
    using ce action_by_digest_in [OF b] by simp
  ultimately show ?thesis by blast
qed

text \<open>A used token answers \<open>ErrActionAlreadyUsed\<close> for ever, and changes nothing.\<close>

lemma used_token_refused:
  assumes "evolves db1 db2" "b \<in> set (id_actions db1)" "ac_Kind b = kind" "ac_Digest b = digest" "ac_UsedAt b \<noteq> None"
  shows "tbind (lockActionByDigest kind digest) (\<lambda>a. tbind (consumeLockedAction a t) f) db2 = Inl ErrActionAlreadyUsed"
proof -
  have b2: "b \<in> set (id_actions db2)" using assms(1,2,5) unfolding evolves_def by blast
  have "action_by_digest kind digest db2 = Some b"
    by (rule action_by_digest_found [OF evolves_wf [OF assms(1)] b2 assms(3,4)])
  then have "lockActionByDigest kind digest db2 = Inr (b, db2)" by (simp add: lock_iff)
  then show ?thesis using assms(5) by (simp add: tbind_def consumeLockedAction_def classifyActionToken_def traise_def)
qed

text \<open>C12: A mailed link works once. After a mail address was verified or a password was reset with a token, no later
  call accepts the token again, whatever happened in between: it is answered as used already and changes nothing.\<close>

theorem action_token_single_use:
  assumes "service_run E C empty_idb db" "service_run E C db1 db2"
  shows "(VerifyEmail E C now token db = (Inr (), db1) \<longrightarrow> VerifyEmail E C t token db2 = (Inl EActionAlreadyUsed, db2))
    \<and> (ResetPassword E C salt now token password db = (Inr (), db1) \<and> ValidatePassword password' = Inr () \<and> ie_bcrypt_hash E salt' password' = Inr hash \<longrightarrow>
       ResetPassword E C salt' t token password' db2 = (Inl EActionAlreadyUsed, db2))"
proof (intro conjI impI; (elim conjE)?)
  note wf = reachable_wf [OF assms(1)]
  let ?digest = "DigestActionToken E (trim_space token) (ic_actionPepper C)"
  {
    assume "VerifyEmail E C now token db = (Inr (), db1)"
    then have c: "ConsumeAndVerifyEmail ?digest now db = (Inr (), db1)" and ne: "trim_space token \<noteq> []"
      by (auto simp: VerifyEmail_def mapActionTokenError_def Let_def apfst_def map_prod_def split: sum.split_asm if_split_asm prod.split_asm ierr.split_asm)
    have e: "evolves db1 db2" using service_run_evolves [OF assms(2)] evolve_ConsumeAndVerifyEmail [OF c wf] evolves_wf by blast
    obtain b where b: "b \<in> set (id_actions db1)" "ac_Kind b = ActionEmailVerification" "ac_Digest b = ?digest" "ac_UsedAt b \<noteq> None"
      using verify_effect [OF wf c] by blast
    show "VerifyEmail E C t token db2 = (Inl EActionAlreadyUsed, db2)"
      using ne by (simp add: VerifyEmail_def Let_def ConsumeAndVerifyEmail_def transaction_def mapActionTokenError_def used_token_refused [OF e b])
  next
    assume r: "ResetPassword E C salt now token password db = (Inr (), db1)" and v: "ValidatePassword password' = Inr ()" "ie_bcrypt_hash E salt' password' = Inr hash"
    then obtain h where c: "ConsumeAndResetPassword ?digest h now db = (Inr (), db1)" and ne: "trim_space token \<noteq> []"
      by (auto simp: ResetPassword_def mapActionTokenError_def Let_def apfst_def map_prod_def split: sum.split_asm if_split_asm prod.split_asm ierr.split_asm)
    have e: "evolves db1 db2" using service_run_evolves [OF assms(2)] evolve_ConsumeAndResetPassword [OF c wf] evolves_wf by blast
    obtain a where a: "a \<in> set (id_actions db)" "ac_Digest a = ?digest"
      using c action_by_digest_in by (fastforce simp: ConsumeAndResetPassword_def transaction_Inr tbind_Inr lock_iff)
    obtain b where b: "b \<in> set (id_actions db1)" "ac_Kind b = ActionPasswordReset" "ac_Digest b = ?digest" "ac_UsedAt b \<noteq> None"
      using reset_effect [OF wf c a] by blast
    show "ResetPassword E C salt' t token password' db2 = (Inl EActionAlreadyUsed, db2)"
      using ne v by (simp add: ResetPassword_def Let_def ConsumeAndResetPassword_def transaction_def mapActionTokenError_def used_token_refused [OF e b])
  }
qed

theorem action_token_single_use_witness:
  "ResetPassword sample_ienv sample_config ''s'' 5000 reset_token ''password3'' reset_idb = (Inl EActionAlreadyUsed, reset_idb)"
proof -
  have v: "ValidatePassword ''password3'' = Inr ()" "ie_bcrypt_hash sample_ienv ''s'' ''password3'' = Inr ''spassword3''" by code_simp+
  from action_token_single_use [OF requested_run rtranclp.rtrancl_refl, where token = reset_token] reset_succeeds v
  show ?thesis by blast
qed

end
