(* ===== verification/IdentityLockout.thy ===== *)
theory IdentityLockout
  imports IdentityScenario
begin

text \<open>
  Repeated wrong passwords lock an account: \<open>Authenticate\<close> of \<open>logic/authenticate.go\<close> over
  \<open>RecordLoginFailure\<close> of \<open>repository/users.go\<close>.
\<close>

section \<open>The row a login names\<close>

lemma insort_key_map:
  assumes "\<And>x. rank (g x) = rank x"
  shows "insort_key rank (g x) (map g xs) = map g (insort_key rank x xs)"
  by (induction xs) (simp_all add: assms)

lemma sort_key_map:
  assumes "\<And>x. rank (g x) = rank x"
  shows "sort_key rank (map g xs) = map g (sort_key rank xs)"
  by (induction xs) (simp_all add: insort_key_map [of rank g] assms)

lemma tbl_select_map:
  assumes "\<And>x. rank (g x) = rank x" "\<And>x. p (g x) = p x"
  shows "tbl_select p rank n (map g rows) = map g (tbl_select p rank n rows)"
proof -
  have "filter p (map g rows) = map g (filter p rows)" by (simp add: filter_map comp_def assms(2))
  then show ?thesis by (simp add: tbl_select_def sort_key_map [of rank g, OF assms(1)] take_map)
qed

definition login_row :: "ienv \<Rightarrow> string \<Rightarrow> idb \<Rightarrow> user_row option" where
  "login_row E identifier0 db = (let identifier = to_lower (ie_lower E) (trim_space identifier0) in
     case tbl_select (\<lambda>r. ie_pg_lower E (ur_Username r) = identifier \<or> ie_pg_lower E (ur_Email r) = identifier) ur_ID 1 (id_users db) of
       [] \<Rightarrow> None | r # _ \<Rightarrow> Some r)"

lemma FindByLogin_row: "FindByLogin E identifier db = (case login_row E identifier db of None \<Rightarrow> Inl ErrUserNotFound | Some r \<Rightarrow> Inr (fromModel r))"
  by (simp add: FindByLogin_def login_row_def Let_def split: list.split)

lemma login_row_get:
  assumes "login_row E identifier db = Some r" "idb_wf db"
  shows "get_user (ur_ID r) db = Some r"
proof -
  let ?rows = "tbl_select (\<lambda>r. ie_pg_lower E (ur_Username r) = to_lower (ie_lower E) (trim_space identifier)
    \<or> ie_pg_lower E (ur_Email r) = to_lower (ie_lower E) (trim_space identifier)) ur_ID 1 (id_users db)"
  have "r \<in> set ?rows" using assms(1) by (auto simp: login_row_def Let_def split: list.split_asm)
  then have "r \<in> set (id_users db)" using tbl_select_in by fastforce
  then show ?thesis unfolding get_user_def by (rule tbl_get_in [OF idb_wfD(1) [OF assms(2)]])
qed

lemma login_row_upd:
  assumes "\<And>r. ur_ID (f r) = ur_ID r \<and> ur_Username (f r) = ur_Username r \<and> ur_Email (f r) = ur_Email r"
  shows "login_row E identifier (id_users_update (tbl_upd q f) db) = map_option (\<lambda>r. if q r then f r else r) (login_row E identifier db)"
proof -
  let ?g = "\<lambda>r. if q r then f r else r" and ?p = "\<lambda>r. ie_pg_lower E (ur_Username r) = to_lower (ie_lower E) (trim_space identifier)
    \<or> ie_pg_lower E (ur_Email r) = to_lower (ie_lower E) (trim_space identifier)"
  have "tbl_select ?p ur_ID 1 (map ?g (id_users db)) = map ?g (tbl_select ?p ur_ID 1 (id_users db))"
    by (rule tbl_select_map) (simp_all add: assms)
  then show ?thesis by (simp add: login_row_def Let_def tbl_upd_def split: list.split)
qed

section \<open>One attempt\<close>

definition plausible :: "string \<Rightarrow> bool" where
  "plausible password \<longleftrightarrow> password \<noteq> [] \<and> length password \<le> 72"

lemma wrong_password:
  assumes "idb_wf db" "login_row E (trim_space identifier) db = Some r" "trim_space identifier \<noteq> []" "length (trim_space identifier) \<le> 320"
    and "plausible password" "ie_bcrypt_compare E (ur_PasswordHash r) password = Inr False"
    and "ur_LockedUntil r = None" "CanEstablishSession (fromModel r)"
  shows "snd (Authenticate E C d now created identifier password db)
    = id_users_update (tbl_upd (\<lambda>x. ur_ID x = ur_ID r) (login_failure_row now (now + ic_lockDuration C) (ic_failureThreshold C))) db"
proof -
  have f: "FindByLogin E (trim_space identifier) db = Inr (fromModel r)" using assms(2) by (simp add: FindByLogin_row)
  have l: "\<exists>locked. RecordLoginFailure (ur_ID r) now (now + ic_lockDuration C) (ic_failureThreshold C) db = (Inr locked,
      id_users_update (tbl_upd (\<lambda>x. ur_ID x = ur_ID r) (login_failure_row now (now + ic_lockDuration C) (ic_failureThreshold C))) db)"
    using login_row_get [OF assms(2,1)]
    by (simp add: RecordLoginFailure_def transaction_def tbind_def tsome_def put_user_def twrite_def tret_def)
  have u: "us_ID (fromModel r) = ur_ID r" "us_PasswordHash (fromModel r) = ur_PasswordHash r" "\<not> IsLocked (fromModel r) now"
    using assms(7) by (simp_all add: fromModel_def IsLocked_def after_opt_def)
  from l show ?thesis
    using assms(3-6,8) f u by (auto simp: Authenticate_def Let_def plausible_def)
qed

lemma locked_account:
  assumes "login_row E (trim_space identifier) db = Some r" "trim_space identifier \<noteq> []" "length (trim_space identifier) \<le> 320"
    and "plausible password" "ie_bcrypt_compare E (ur_PasswordHash r) password = Inr m" "after_opt (ur_LockedUntil r) now"
  shows "Authenticate E C d now created identifier password db = (Inl EAccountLocked, db)"
  using assms by (auto simp: Authenticate_def Let_def plausible_def FindByLogin_row IsLocked_def fromModel_def)

section \<open>A run of attempts\<close>

definition login_attempts :: "ienv \<Rightarrow> identity_config \<Rightarrow> string \<Rightarrow> (draws \<times> time \<times> time \<times> string) list \<Rightarrow> idb \<Rightarrow> idb" where
  "login_attempts E C identifier xs db =
     foldl (\<lambda>db (d, now, created, password). snd (Authenticate E C d now created identifier password db)) db xs"

lemma failure_row_fields:
  "ur_ID (login_failure_row t u n r) = ur_ID r" "ur_Username (login_failure_row t u n r) = ur_Username r" "ur_Email (login_failure_row t u n r) = ur_Email r"
  "ur_PasswordHash (login_failure_row t u n r) = ur_PasswordHash r" "CanEstablishSession (fromModel (login_failure_row t u n r)) = CanEstablishSession (fromModel r)"
  by (simp_all add: login_failure_row_def Let_def fromModel_def CanEstablishSession_def)

lemma attempts_lock:
  assumes "idb_wf db" "login_row E (trim_space identifier) db = Some r" "trim_space identifier \<noteq> []" "length (trim_space identifier) \<le> 320"
    and "ur_LockedUntil r = None" "CanEstablishSession (fromModel r)" "xs \<noteq> []"
    and "ur_FailedLoginAttempts r + int (length xs) = ic_failureThreshold C"
    and "\<forall>(d, now, created, password) \<in> set xs. plausible password \<and> ie_bcrypt_compare E (ur_PasswordHash r) password = Inr False"
  shows "\<exists>r'. login_row E (trim_space identifier) (login_attempts E C identifier xs db) = Some r' \<and> ur_PasswordHash r' = ur_PasswordHash r
    \<and> ur_LockedUntil r' = Some (fst (snd (last xs)) + ic_lockDuration C)"
  using assms
proof (induction xs arbitrary: db r)
  case (Cons x xs)
  obtain d now created password where x: "x = (d, now, created, password)" by (cases x) auto
  let ?f = "login_failure_row now (now + ic_lockDuration C) (ic_failureThreshold C)"
  let ?db = "id_users_update (tbl_upd (\<lambda>y. ur_ID y = ur_ID r) ?f) db"
  have "snd (Authenticate E C d now created identifier password db) = ?db"
    using Cons.prems x by (intro wrong_password) auto
  then have run: "login_attempts E C identifier (x # xs) db = login_attempts E C identifier xs ?db" by (simp add: login_attempts_def x)
  have wf: "idb_wf ?db" by (rule evolves_wf [OF users_update_evolves [OF Cons.prems(1)]]) simp
  have row: "login_row E (trim_space identifier) ?db = Some (?f r)"
    using Cons.prems(2) by (subst login_row_upd) (simp_all add: failure_row_fields)
  show ?case
  proof (cases "xs = []")
    case True
    then have "ic_failureThreshold C \<le> ur_FailedLoginAttempts r + 1" using Cons.prems(8) by simp
    then have "ur_LockedUntil (?f r) = Some (now + ic_lockDuration C)"
      using Cons.prems(5) by (simp add: login_failure_row_def after_opt_def)
    then show ?thesis using row run True by (simp add: x failure_row_fields login_attempts_def)
  next
    case False
    then have "0 < int (length xs)" by simp
    moreover have "ur_FailedLoginAttempts r + (1 + int (length xs)) = ic_failureThreshold C" using Cons.prems(8) by simp
    ultimately have "\<not> ic_failureThreshold C \<le> ur_FailedLoginAttempts r + 1" by linarith
    then have u: "ur_LockedUntil (?f r) = None" "ur_FailedLoginAttempts (?f r) = ur_FailedLoginAttempts r + 1"
      using Cons.prems(5) by (simp_all add: login_failure_row_def after_opt_def)
    have "\<exists>r'. login_row E (trim_space identifier) (login_attempts E C identifier xs ?db) = Some r' \<and> ur_PasswordHash r' = ur_PasswordHash (?f r)
      \<and> ur_LockedUntil r' = Some (fst (snd (last xs)) + ic_lockDuration C)"
      using Cons.prems u by (intro Cons.IH [OF wf row _ _ u(1) _ False]) (auto simp: failure_row_fields)
    then show ?thesis using run False by (simp add: failure_row_fields)
  qed
qed simp


definition wrong_attempts :: "(draws \<times> time \<times> time \<times> string) list" where
  "wrong_attempts = map (\<lambda>t. (sample_draws 30, t, t, ''guess'')) [3000, 4000, 5000]"


end
