(* ===== verification/IdentitySessions.thy ===== *)
theory IdentitySessions
  imports IdentityScenario
begin

text \<open>
  The life of a session: how long it lasts, and what a refresh hands out. \<open>logic/session.go\<close> over
  \<open>repository/sessions.go\<close>.
\<close>

section \<open>Lifetime\<close>

definition session_bounded :: "identity_config \<Rightarrow> session_row \<Rightarrow> bool" where
  "session_bounded C s \<longleftrightarrow> sn_ExpiresAt s \<le> sn_CreatedAt s + ic_absoluteTTL C \<and> sn_ExpiresAt s \<le> sn_LastSeenAt s + ic_idleTTL C"

definition sessions_bounded :: "identity_config \<Rightarrow> idb \<Rightarrow> bool" where
  "sessions_bounded C db \<longleftrightarrow> (\<forall>s \<in> set (id_sessions db). session_bounded C s)"

lemma bounded_same: "id_sessions db' = id_sessions db \<Longrightarrow> sessions_bounded C db \<Longrightarrow> sessions_bounded C db'"
  by (simp add: sessions_bounded_def)

lemma bounded_upd:
  assumes "sessions_bounded C db" "\<And>s. s \<in> set (id_sessions db) \<Longrightarrow> p s \<Longrightarrow> session_bounded C s \<Longrightarrow> session_bounded C (f s)"
  shows "sessions_bounded C (id_sessions_update (tbl_upd p f) db)"
  unfolding sessions_bounded_def
proof
  fix s assume "s \<in> set (id_sessions (id_sessions_update (tbl_upd p f) db))"
  then have "s \<in> set (tbl_upd p f (id_sessions db))" by simp
  then show "session_bounded C s"
    by (rule in_tbl_updE) (use assms in \<open>auto simp: sessions_bounded_def\<close>)
qed

text \<open>Most calls leave the sessions alone or only revoke some of them.\<close>

definition sessions_kept :: "idb \<Rightarrow> idb \<Rightarrow> bool" where
  "sessions_kept db db' \<longleftrightarrow> id_sessions db' = id_sessions db \<or> (\<exists>p t reason. id_sessions db' = tbl_upd p (revoked_row t reason) (id_sessions db))"

lemma kept_bounded: "sessions_kept db db' \<Longrightarrow> sessions_bounded C db \<Longrightarrow> sessions_bounded C db'"
proof (unfold sessions_kept_def, elim disjE exE)
  fix p t reason assume e: "id_sessions db' = tbl_upd p (revoked_row t reason) (id_sessions db)" and b: "sessions_bounded C db"
  have "sessions_bounded C (id_sessions_update (tbl_upd p (revoked_row t reason)) db)"
    by (rule bounded_upd [OF b]) (simp add: session_bounded_def revoked_row_def)
  then show "sessions_bounded C db'" using e by (simp add: sessions_bounded_def)
qed (rule bounded_same)

definition keeps_sessions :: "'a itx \<Rightarrow> bool" where
  "keeps_sessions m \<longleftrightarrow> (\<forall>db a db'. m db = Inr (a, db') \<longrightarrow> id_sessions db' = id_sessions db)"

lemma ks_bind: "keeps_sessions m \<Longrightarrow> (\<And>a. keeps_sessions (f a)) \<Longrightarrow> keeps_sessions (tbind m f)"
  unfolding keeps_sessions_def by (fastforce simp: tbind_Inr)

lemma ks_basic:
  "keeps_sessions (tret a)" "keeps_sessions (traise e)" "keeps_sessions (tread g)" "keeps_sessions (tguard b e)" "keeps_sessions (tcheck q e)"
  "keeps_sessions (tsome h e)" "keeps_sessions (put_user i f)" "keeps_sessions (insert_action act)" "keeps_sessions (insert_email m)"
  "keeps_sessions (put_email k g')" "keeps_sessions (insert_user E now i user)" "keeps_sessions (twrite (id_actions_update h'))"
  "keeps_sessions (lockActionByDigest kind digest)" "keeps_sessions (consumeLockedAction c now)"
  unfolding keeps_sessions_def put_user_def insert_action_def insert_email_def put_email_def insert_user_def lockActionByDigest_def consumeLockedAction_def Let_def
  by (auto simp: tx_simps split: option.split_asm)

lemma ks_if: "keeps_sessions a \<Longrightarrow> keeps_sessions b \<Longrightarrow> keeps_sessions (if c then a else b)"
  by simp

lemmas ks_intros = ks_bind ks_basic ks_if

lemma ks_transaction: "transaction m db = (r, db') \<Longrightarrow> keeps_sessions m \<Longrightarrow> sessions_kept db db'"
  using transaction_atomic [of m db r db'] unfolding keeps_sessions_def sessions_kept_def by blast

lemma ks_revoke: "transaction (tbind m (\<lambda>a. revoke_sessions (p a) reason t)) db = (r, db') \<Longrightarrow> keeps_sessions m \<Longrightarrow> sessions_kept db db'"
  using transaction_atomic [of _ db r db'] unfolding keeps_sessions_def sessions_kept_def revoke_sessions_def
  by (fastforce simp: tbind_Inr twrite_iff)

lemma tbind_assoc: "tbind (tbind m f) g = tbind m (\<lambda>a. tbind (f a) g)"
  by (auto simp: tbind_def fun_eq_iff split: sum.split)

lemma kept_calls:
  "RecordLoginFailure i failedAt lockUntil threshold db = (r1, db') \<Longrightarrow> sessions_kept db db'"
  "CompleteLoginSuccess i t db = (r2, db') \<Longrightarrow> sessions_kept db db'"
  "CreateAndEnqueue E key k token message db = (r3, db') \<Longrightarrow> sessions_kept db db'"
  "CreateUserAndEnqueue E key k wall i user token message db = (r4, db') \<Longrightarrow> sessions_kept db db'"
  "ConsumeAndVerifyEmail digest t db = (r5, db') \<Longrightarrow> sessions_kept db db'"
  "MarkFailed j msg t delay db = (r6, db') \<Longrightarrow> sessions_kept db db'"
  unfolding RecordLoginFailure_def CompleteLoginSuccess_def CreateAndEnqueue_def CreateUserAndEnqueue_def ConsumeAndVerifyEmail_def MarkFailed_def Let_def
  by (erule ks_transaction, intro ks_intros)+

lemma kept_revocations:
  "DeactivateAndRevoke i t db = (r1, db') \<Longrightarrow> sessions_kept db db'"
  "RevokeAllSessions i reason t db = (r2, db') \<Longrightarrow> sessions_kept db db'"
  "ConsumeAndResetPassword digest hash t db = (r3, db') \<Longrightarrow> sessions_kept db db'"
proof -
  have dis: "keeps_sessions (disable_user i t)"
    unfolding keeps_sessions_def disable_user_def by (auto simp: tx_simps)
  show "DeactivateAndRevoke i t db = (r1, db') \<Longrightarrow> sessions_kept db db'"
    unfolding DeactivateAndRevoke_def by (erule ks_revoke, rule dis)
  show "RevokeAllSessions i reason t db = (r2, db') \<Longrightarrow> sessions_kept db db'"
    unfolding RevokeAllSessions_def by (erule ks_revoke, intro ks_intros)
  show "ConsumeAndResetPassword digest hash t db = (r3, db') \<Longrightarrow> sessions_kept db db'"
  proof -
    let ?m = "tbind (lockActionByDigest ActionPasswordReset digest) (\<lambda>locked. tbind (consumeLockedAction locked t) (\<lambda>action.
      tbind (tsome (get_user (ac_UserID action)) ErrUserNotFound) (\<lambda>user. tbind (put_user (ur_ID user) (password_row hash t)) (\<lambda>_. tret action))))"
    have ret: "tbind (tret a) f = f a" for a :: ActionToken and f :: "ActionToken \<Rightarrow> unit itx" by (simp add: tbind_def tret_def fun_eq_iff)
    have eq: "ConsumeAndResetPassword digest hash t = transaction (tbind ?m (\<lambda>action. revoke_sessions (\<lambda>s. sn_UserID s = ac_UserID action) ''password_reset'' t))"
      by (simp only: ConsumeAndResetPassword_def tbind_assoc ret)
    have ks: "keeps_sessions ?m" by (intro ks_intros)
    show "ConsumeAndResetPassword digest hash t db = (r3, db') \<Longrightarrow> sessions_kept db db'" unfolding eq by (erule ks_revoke) (rule ks)
  qed
qed

lemma kept_single:
  "RevokeSession i reason t db = (r1, db') \<Longrightarrow> sessions_kept db db'"
  "MarkSent j t db = (r2, db') \<Longrightarrow> sessions_kept db db'"
  "ClaimEmail t messageID owner db = (r3, db') \<Longrightarrow> sessions_kept db db'"
proof -
  show "RevokeSession i reason t db = (r1, db') \<Longrightarrow> sessions_kept db db'"
    using transaction_atomic [of _ db r1 db'] unfolding RevokeSession_def sessions_kept_def by (fastforce simp: tupdate1_iff)
  show "MarkSent j t db = (r2, db') \<Longrightarrow> sessions_kept db db'"
    using transaction_atomic [of _ db r2 db'] unfolding MarkSent_def sessions_kept_def by (fastforce simp: tupdate1_iff)
  show "ClaimEmail t messageID owner db = (r3, db') \<Longrightarrow> sessions_kept db db'"
    using transaction_atomic [of _ db r3 db'] unfolding ClaimEmail_def sessions_kept_def put_email_def
    by (fastforce simp: tx_simps split: list.split_asm)
qed

lemmas kept_all = kept_calls kept_revocations kept_single

lemma sessions_kept_refl [simp]: "sessions_kept db db"
  by (simp add: sessions_kept_def)

lemma kept_issue_action: "issue_action E C d now user kind subject db = (r, db') \<Longrightarrow> sessions_kept db db'"
  unfolding issue_action_def Let_def by (auto split: if_split_asm prod.split_asm sum.split_asm intro: kept_all)

lemma bounded_SessionCreate:
  assumes "SessionCreate E C d now user label db = (r, db')" "sessions_bounded C db"
  shows "sessions_bounded C db'"
proof -
  obtain encoded where enc: "EncodeRefreshToken (NewRefreshToken (dw_refresh d)) = Inr encoded \<or> db' = db"
    using assms(1) by (cases "EncodeRefreshToken (NewRefreshToken (dw_refresh d))") (auto simp: SessionCreate_def Let_def split: if_split_asm)
  let ?refresh = "NewRefreshToken (dw_refresh d)"
  let ?session = "\<lparr>se_ID = rt_SessionID ?refresh, se_UserID = us_ID user, se_DeviceLabel = normalizeDeviceLabel label,
    se_RefreshDigest = DigestRefreshSecret E (rt_Secret ?refresh) (ic_refreshPepper C), se_PreviousDigest = [],
    se_CurrentRefreshToken = encoded, se_CreatedAt = now, se_LastSeenAt = now,
    se_ExpiresAt = (if now + ic_idleTTL C < now + ic_absoluteTTL C then now + ic_idleTTL C else now + ic_absoluteTTL C),
    se_RotatedAt = None, se_RevokedAt = None, se_RevokedReason = []\<rparr>"
  obtain q t where q: "CreateSession E (ic_refreshKey C) (dw_nonce d) ?session db = (q, t)" by fastforce
  have "db' = db \<or> db' = t"
    using assms(1) enc q unfolding SessionCreate_def Let_def by (elim disjE) (simp_all split: if_split_asm sum.split_asm)
  moreover have "id_sessions t = id_sessions db \<or> (\<exists>x. id_sessions t = id_sessions db @ [x] \<and> session_bounded C x)"
    using transaction_atomic [OF q [unfolded CreateSession_def Let_def]] by (auto simp: tx_simps session_bounded_def)
  ultimately show ?thesis using assms(2) by (auto simp: sessions_bounded_def)
qed

lemma bounded_SessionRefresh:
  assumes "SessionRefresh E C d now encoded db = (r, db')" "sessions_bounded C db" "idb_wf db"
  shows "sessions_bounded C db'"
proof -
  have "db' = db \<or> (\<exists>i key nonce cur nxt tok grace session q. FindSession i db = Inr session \<and>
      RotateWithGrace E key nonce (se_ID session) cur nxt tok now (rotation_expiry C now session) grace db = (q, db'))"
    using assms(1) unfolding SessionRefresh_def Let_def by (auto split: if_split_asm prod.split_asm sum.split_asm)
  then show ?thesis
  proof (elim disjE exE conjE)
    fix i key nonce cur nxt tok grace session q
    assume f: "FindSession i db = Inr session"
      and rot: "RotateWithGrace E key nonce (se_ID session) cur nxt tok now (rotation_expiry C now session) grace db = (q, db')"
    from f obtain row where row: "get_session i db = Some row" "session = fromSessionModel row" by (auto simp: FindSession_def split: option.split_asm)
    have id: "se_ID session = i" using row get_session_in [OF row(1)] by (simp add: fromSessionModel_def)
    from rot show ?thesis
    proof (cases rule: RotateWithGrace_cases)
      case same
      then show ?thesis using assms(2) by simp
    next
      case (rotated row' cipher)
      then have "row' = row" using row(1) id by simp
      have e: "rotation_expiry C now session \<le> sn_CreatedAt row + ic_absoluteTTL C" "rotation_expiry C now session \<le> now + ic_idleTTL C"
        by (simp_all add: rotation_expiry_def row(2) fromSessionModel_def Let_def)
      show ?thesis unfolding rotated(6)
      proof (rule bounded_upd [OF assms(2)])
        fix s assume "s \<in> set (id_sessions db)" "sn_ID s = sn_ID row'"
        then have "s = row" using key_unique [OF idb_wfD(2) [OF assms(3)]] get_session_in [OF row(1)] \<open>row' = row\<close> by blast
        then show "session_bounded C (rotated_row nxt cipher now (rotation_expiry C now session) s)"
          using e by (simp add: session_bounded_def rotated_row_def)
      qed
    qed
  qed (use assms(2) in simp)
qed

lemma bounded_Authenticate:
  assumes "Authenticate E C d now created identifier password db = (r, db')" "sessions_bounded C db"
  shows "sessions_bounded C db'"
  using assms(1)
proof (cases rule: Authenticate_cases)
  case unchanged
  then show ?thesis using assms(2) by simp
next
  case (failed user locked)
  then show ?thesis using kept_bounded [OF kept_calls(1)] assms(2) by blast
next
  case (completed user u t)
  have t: "sessions_bounded C t" by (rule kept_bounded [OF kept_calls(2) [OF completed(4)] assms(2)])
  from completed(5) show ?thesis using t bounded_SessionCreate by blast
qed

lemma kept_process_email: "process_email E key host send now messageID owner db = db' \<Longrightarrow> sessions_bounded C db \<Longrightarrow> sessions_bounded C db'"
proof -
  assume p: "process_email E key host send now messageID owner db = db'" and b: "sessions_bounded C db"
  obtain r t where c: "ClaimEmail now messageID owner db = (r, t)" by fastforce
  have t: "sessions_bounded C t" by (rule kept_bounded [OF kept_single(3) [OF c] b])
  note rest = kept_bounded [OF kept_single(2) [OF prod.collapse [symmetric]] t] kept_bounded [OF kept_calls(6) [OF prod.collapse [symmetric]] t]
  have "db' = db \<or> db' = t \<or> (\<exists>i. db' = snd (MarkSent i now t)) \<or> (\<exists>i msg delay. db' = snd (MarkFailed i msg now delay t))"
    using p c unfolding process_email_def by (auto split: if_split_asm sum.split_asm option.split_asm)
  then show "sessions_bounded C db'" using b t rest by (elim disjE exE) simp_all
qed

lemma kept_services:
  "Register E C d salt now i username email password db = (r1, db') \<Longrightarrow> sessions_kept db db'"
  "SessionRevoke now userID sessionID reason db = (r2, db') \<Longrightarrow> sessions_kept db db'"
  "SessionRevokeAll now userID reason db = (r3, db') \<Longrightarrow> sessions_kept db db'"
  "RequestEmailVerification E C ad clock user db = (r4, db') \<Longrightarrow> sessions_kept db db'"
  "VerifyEmail E C now token db = (r5, db') \<Longrightarrow> sessions_kept db db'"
  "RequestPasswordReset E C ad now identifier db = (r6, db') \<Longrightarrow> sessions_kept db db'"
  "ResetPassword E C salt now token password db = (r7, db') \<Longrightarrow> sessions_kept db db'"
  "DeactivateAccount E now userID password db = (r8, db') \<Longrightarrow> sessions_kept db db'"
  unfolding Register_def SessionRevoke_def SessionRevokeAll_def RequestEmailVerification_def VerifyEmail_def RequestPasswordReset_def
    ResetPassword_def DeactivateAccount_def Let_def
  by (auto simp: apfst_def map_prod_def split: if_split_asm prod.split_asm sum.split_asm verification_state.split_asm intro: kept_all kept_issue_action)

lemma service_step_bounded:
  assumes "service_step E C db db'" "sessions_bounded C db" "idb_wf db"
  shows "sessions_bounded C db'"
  using assms(1)
  by cases (use assms(2,3) in \<open>blast intro: kept_bounded kept_services bounded_Authenticate bounded_SessionRefresh kept_process_email\<close>)+

lemma service_run_bounded:
  assumes "service_run E C empty_idb db"
  shows "idb_wf db \<and> sessions_bounded C db"
  using assms
proof induction
  case base
  show ?case by (simp add: idb_wf_def sessions_bounded_def empty_idb_def)
next
  case (step db db')
  then show ?case using service_step_bounded evolves_wf [OF service_step_evolves] by blast
qed

text \<open>C13: A session ends in time. Its expiry is at most the absolute lifetime after the login and at most the idle time
  after its last use, however often it is refreshed, and from then on no refresh token of it is accepted.\<close>

theorem session_lifetime:
  assumes "service_run E C empty_idb db" "get_session i db = Some s"
    and "ParseRefreshToken (trim_space encoded) = Inr refresh" "rt_SessionID refresh = i"
    and "min (sn_CreatedAt s + ic_absoluteTTL C) (sn_LastSeenAt s + ic_idleTTL C) \<le> t"
  shows "SessionRefresh E C d t encoded db = (Inl EUnauthenticated, db)"
proof -
  have "session_bounded C s" using service_run_bounded [OF assms(1)] get_session_in [OF assms(2)] by (simp add: sessions_bounded_def)
  then have "sn_ExpiresAt s \<le> t" using assms(5) by (auto simp: session_bounded_def min_def split: if_split_asm)
  then show ?thesis using assms(2-4) by (simp add: SessionRefresh_def FindSession_def SessionIsActive_def fromSessionModel_def)
qed

theorem session_lifetime_witness:
  "SessionRefresh sample_ienv sample_config (sample_draws 20) (2000 + 168 * hour) session_token login_idb = (Inl EUnauthenticated, login_idb)"
proof -
  have "map_option (\<lambda>s. (sn_CreatedAt s, sn_LastSeenAt s)) (get_session (b64_encode (random_bytes 10 16)) login_idb) = Some (2000, 2000)" by code_simp
  then obtain s where s: "get_session (b64_encode (random_bytes 10 16)) login_idb = Some s" "sn_CreatedAt s = 2000" "sn_LastSeenAt s = 2000" by auto
  have p: "ParseRefreshToken (trim_space session_token) = Inr (NewRefreshToken (random_bytes 10 16, random_bytes 11 32))" by code_simp
  have t: "min (2000 + ic_absoluteTTL sample_config) (2000 + ic_idleTTL sample_config) \<le> 2000 + 168 * hour" by code_simp
  from session_lifetime [OF login_run s(1) p] t s(2,3) show ?thesis by (simp add: NewRefreshToken_def)
qed

section \<open>Refreshing\<close>

lemma encoded_visible:
  "\<forall>c \<in> set (''kc1.'' @ b64_encode x @ ''.'' @ b64_encode y). 32 < byte c \<and> byte c < (128::int)"
  using b64_visible [of x] b64_visible [of y] by auto

lemma SessionRefresh_ok:
  assumes "SessionRefresh E C d now encoded db = (Inr a, db')" "ParseRefreshToken (trim_space encoded) = Inr refresh"
    and "EncodeRefreshToken (NewRefreshToken (dw_refresh d)) = Inr nextEncoded" "FindSession (rt_SessionID refresh) db = Inr session"
  obtains rotated where "RotateWithGrace E (ic_refreshKey C) (dw_nonce d) (se_ID session)
      (DigestRefreshSecret E (rt_Secret refresh) (ic_refreshPepper C))
      (DigestRefreshSecret E (rt_Secret (NewRefreshToken (dw_refresh d))) (ic_refreshPepper C))
      nextEncoded now (rotation_expiry C now session) (ic_refreshGrace C) db = (Inr rotated, db')"
    "se_CurrentRefreshToken rotated = [] \<Longrightarrow> sa_RefreshToken a = nextEncoded"
proof -
  obtain q db2 where rot: "RotateWithGrace E (ic_refreshKey C) (dw_nonce d) (se_ID session)
      (DigestRefreshSecret E (rt_Secret refresh) (ic_refreshPepper C))
      (DigestRefreshSecret E (rt_Secret (NewRefreshToken (dw_refresh d))) (ic_refreshPepper C))
      nextEncoded now (rotation_expiry C now session) (ic_refreshGrace C) db = (q, db2)" by fastforce
  obtain user where u: "FindByID (se_UserID session) db = Inr user" "CanEstablishSession user" "\<not> (se_UserID session \<le> 0 \<or> \<not> SessionIsActive session now)"
    using assms(1) unfolding SessionRefresh_def assms(2,4) sum.case by (auto split: if_split_asm sum.split_asm)
  have "(case (q, db2) of (Inl _, db') \<Rightarrow> (Inl EUnauthenticated, db')
      | (Inr rotated, db') \<Rightarrow> (case issue_access E C d user (se_ID rotated) of
            Inl _ \<Rightarrow> (Inl (EInternal ''issue refreshed identity access token''), db')
          | Inr access \<Rightarrow> (Inr \<lparr>sa_User = user, sa_AccessToken = access,
              sa_RefreshToken = (if se_CurrentRefreshToken rotated \<noteq> [] then se_CurrentRefreshToken rotated else nextEncoded),
              sa_SessionID = se_ID rotated\<rparr>, db'))) = (Inr a, db')"
    using assms(1) u unfolding SessionRefresh_def assms(2,4) sum.case Let_def assms(3) rot by simp
  then obtain rotated where "q = Inr rotated" "db2 = db'" "se_CurrentRefreshToken rotated = [] \<Longrightarrow> sa_RefreshToken a = nextEncoded"
    by (cases q) (auto split: sum.split_asm)
  then show thesis using that [of rotated] rot by simp
qed

text \<open>C40: A refresh hands out a token that cannot be refreshed again. The new token is written with a fresh session
  identifier, but the session keeps its own: presented later, the token names a session that does not exist, and
  the client is logged out.\<close>

theorem refreshed_token_unusable:
  assumes "service_run E C empty_idb db" "SessionRefresh E C d now encoded db = (Inr a, db')"
    and "ParseRefreshToken (trim_space encoded) = Inr refresh" "get_session (rt_SessionID refresh) db = Some s"
    and "sn_RefreshDigest s = DigestRefreshSecret E (rt_Secret refresh) (ic_refreshPepper C)"
    and "length (fst (dw_refresh d)) = 16" "length (snd (dw_refresh d)) = refreshTokenBytes"
    and "get_session (rt_SessionID (NewRefreshToken (dw_refresh d))) db = None"
  shows "SessionRefresh E C d' t (sa_RefreshToken a) db' = (Inl EUnauthenticated, db')"
proof -
  let ?next = "NewRefreshToken (dw_refresh d)"
  define enc where "enc = ''kc1.'' @ b64_encode (fst (dw_refresh d)) @ ''.'' @ b64_encode (snd (dw_refresh d))"
  note tok = new_refresh_token_encodes [OF assms(6,7), folded enc_def]
  have id: "sn_ID s = rt_SessionID refresh" using get_session_in [OF assms(4)] by simp
  have f: "FindSession (rt_SessionID refresh) db = Inr (fromSessionModel s)" by (simp add: FindSession_def assms(4))
  have sid: "se_ID (fromSessionModel s) = rt_SessionID refresh" using id by (simp add: fromSessionModel_def)
  obtain rotated where rot: "RotateWithGrace E (ic_refreshKey C) (dw_nonce d) (rt_SessionID refresh)
      (DigestRefreshSecret E (rt_Secret refresh) (ic_refreshPepper C)) (DigestRefreshSecret E (rt_Secret ?next) (ic_refreshPepper C))
      enc now (rotation_expiry C now (fromSessionModel s)) (ic_refreshGrace C) db = (Inr rotated, db')"
    and r: "se_CurrentRefreshToken rotated = [] \<Longrightarrow> sa_RefreshToken a = enc"
    using SessionRefresh_ok [OF assms(2,3) tok(1) f] unfolding sid by blast
  obtain cipher where db': "db' = id_sessions_update (tbl_upd (\<lambda>x. sn_ID x = sn_ID s)
      (rotated_row (DigestRefreshSecret E (rt_Secret ?next) (ic_refreshPepper C)) cipher now (rotation_expiry C now (fromSessionModel s)))) db"
    and e: "se_CurrentRefreshToken rotated = []"
    using rot assms(4,5)
    by (auto simp: RotateWithGrace_def transaction_Inr tbind_Inr tsome_iff tguard_iff Let_def tret_iff put_session_def twrite_iff fromSessionModel_def)
  have "get_session (rt_SessionID ?next) db' = None" using assms(8) unfolding db' by (simp add: get_session_def tbl_get_upd rotated_row_def)
  then show ?thesis using r [OF e] tok(2) trim_space_no_space [OF encoded_visible [of "fst (dw_refresh d)" "snd (dw_refresh d)"], folded enc_def]
    by (simp add: SessionRefresh_def FindSession_def)
qed

theorem refreshed_token_unusable_witness:
  "\<exists>a. fst (SessionRefresh sample_ienv sample_config (sample_draws 20) 3000 session_token login_idb) = Inr a \<and>
     SessionRefresh sample_ienv sample_config (sample_draws 30) 4000 (sa_RefreshToken a) (snd (SessionRefresh sample_ienv sample_config (sample_draws 20) 3000 session_token login_idb))
     = (Inl EUnauthenticated, snd (SessionRefresh sample_ienv sample_config (sample_draws 20) 3000 session_token login_idb))"
proof -
  let ?r = "SessionRefresh sample_ienv sample_config (sample_draws 20) 3000 session_token login_idb"
  let ?refresh = "NewRefreshToken (random_bytes 10 16, random_bytes 11 32)"
  have "(case fst ?r of Inr _ \<Rightarrow> True | Inl _ \<Rightarrow> False)" by code_simp
  then obtain a where a: "fst ?r = Inr a" by (auto split: sum.split_asm)
  then have r: "?r = (Inr a, snd ?r)" by (metis prod.collapse)
  have p: "ParseRefreshToken (trim_space session_token) = Inr ?refresh" by code_simp
  have "map_option sn_RefreshDigest (get_session (rt_SessionID ?refresh) login_idb) = Some (DigestRefreshSecret sample_ienv (rt_Secret ?refresh) (ic_refreshPepper sample_config))"
    by code_simp
  then obtain s where s: "get_session (rt_SessionID ?refresh) login_idb = Some s"
    "sn_RefreshDigest s = DigestRefreshSecret sample_ienv (rt_Secret ?refresh) (ic_refreshPepper sample_config)" by auto
  have l: "length (fst (dw_refresh (sample_draws 20))) = 16" "length (snd (dw_refresh (sample_draws 20))) = refreshTokenBytes" by code_simp+
  have n: "get_session (rt_SessionID (NewRefreshToken (dw_refresh (sample_draws 20)))) login_idb = None" by code_simp
  from refreshed_token_unusable [OF login_run r p s l n] a show ?thesis by blast
qed

section \<open>Replayed tokens\<close>

text \<open>A replayed refresh token is reported but does not end the session. The code marks the session revoked and then
  fails the transaction that did so, which takes the mark back: the tables are as before, so the thief and the
  owner can go on with whatever token is current.\<close>

theorem replay_leaves_session:
  assumes "get_session i db = Some s" "sn_RevokedAt s = None" "now < sn_ExpiresAt s"
    and "sn_RefreshDigest s \<noteq> digest" "\<not> in_grace key digest now grace s"
  shows "RotateWithGrace E key nonce i digest nextDigest nextToken now expires grace db = (Inl ErrSessionReplay, db)"
  using assms by (simp add: RotateWithGrace_def transaction_def tbind_def tsome_def tguard_def put_session_def twrite_def traise_def)

theorem replay_leaves_session_witness:
  "RotateWithGrace sample_ienv ''key'' ''nonce'' (b64_encode (random_bytes 10 16)) ''stolen'' ''next'' ''token'' 3000 4000 second login_idb
   = (Inl ErrSessionReplay, login_idb)"
proof -
  have "map_option (\<lambda>s. (sn_RevokedAt s, 3000 < sn_ExpiresAt s, sn_RefreshDigest s = ''stolen'', in_grace ''key'' ''stolen'' 3000 second s))
      (get_session (b64_encode (random_bytes 10 16)) login_idb) = Some (None, True, False, False)" by code_simp
  then obtain s where "get_session (b64_encode (random_bytes 10 16)) login_idb = Some s" "sn_RevokedAt s = None" "3000 < sn_ExpiresAt s"
    "sn_RefreshDigest s \<noteq> ''stolen''" "\<not> in_grace ''key'' ''stolen'' 3000 second s" by auto
  from replay_leaves_session [OF this] show ?thesis .
qed

section \<open>Verification of a disabled account\<close>

text \<open>Verifying a mail address makes a disabled account active again: an account that was deactivated before its address
  was verified becomes active when the link of the verification mail is opened.\<close>

theorem verification_reactivates:
  assumes "service_run E C empty_idb db" "a \<in> set (id_actions db)" "ac_Kind a = ActionEmailVerification"
    and "ac_Digest a = DigestActionToken E (trim_space token) (ic_actionPepper C)" "trim_space token \<noteq> []"
    and "ac_UsedAt a = None" "now < ac_ExpiresAt a"
    and "get_user (ac_UserID a) db = Some u" "ur_Status u = StatusDisabled" "ur_EmailVerifiedAt u = None"
  shows "\<exists>db'. VerifyEmail E C now token db = (Inr (), db') \<and> map_option ur_Status (get_user (ac_UserID a) db') = Some StatusActive"
proof -
  have wf: "idb_wf db" using service_run_bounded [OF assms(1)] by simp
  let ?digest = "DigestActionToken E (trim_space token) (ic_actionPepper C)"
  have act: "action_by_digest ActionEmailVerification ?digest db = Some a" by (rule action_by_digest_found [OF wf assms(2-4)])
  have cl: "classifyActionToken a now = None" using assms(6,7) by (simp add: classifyActionToken_def)
  let ?t = "id_actions_update (tbl_upd (\<lambda>x. ac_ID x = ac_ID a) (\<lambda>x. x\<lparr>ac_UsedAt := Some now\<rparr>)) db"
  have u: "get_user (ac_UserID a) ?t = Some u" using assms(8) by (simp add: get_user_def)
  have id: "ur_ID u = ac_UserID a" using assms(8) unfolding get_user_def by (rule tbl_get_SomeD(2))
  have "ConsumeAndVerifyEmail ?digest now db = (Inr (), id_users_update (tbl_upd (\<lambda>r. ur_ID r = ac_UserID a) (verified_row now)) ?t)"
    using act assms(4,10) cl u id
    by (simp add: ConsumeAndVerifyEmail_def transaction_def tbind_def lockActionByDigest_def consumeLockedAction_def tsome_def tguard_def twrite_def tret_def put_user_def)
  moreover have "map_option ur_Status (get_user (ac_UserID a) (id_users_update (tbl_upd (\<lambda>r. ur_ID r = ac_UserID a) (verified_row now)) ?t)) = Some StatusActive"
    using assms(8) by (simp add: get_user_def tbl_get_upd_key verified_row_def)
  ultimately show ?thesis using assms(5) by (simp add: VerifyEmail_def Let_def mapActionTokenError_def)
qed

definition disabled_idb :: idb where
  "disabled_idb = snd (DeactivateAccount sample_ienv 3000 1 ''password1'' login_idb)"

theorem verification_reactivates_witness:
  "map_option ur_Status (get_user 1 disabled_idb) = Some StatusDisabled \<and>
   (\<exists>db'. VerifyEmail sample_ienv sample_config 4000 verification_token disabled_idb = (Inr (), db') \<and> map_option ur_Status (get_user 1 db') = Some StatusActive)"
proof -
  have run: "service_run sample_ienv sample_config empty_idb disabled_idb" unfolding disabled_idb_def
    by (rule rtranclp.rtrancl_into_rtrancl [OF login_run], rule service_step.deactivate [OF prod.collapse [symmetric]])
  have "\<exists>a \<in> set (id_actions disabled_idb). ac_Kind a = ActionEmailVerification \<and>
      ac_Digest a = DigestActionToken sample_ienv (trim_space verification_token) (ic_actionPepper sample_config) \<and> ac_UsedAt a = None \<and> 4000 < ac_ExpiresAt a \<and> ac_UserID a = 1"
    by code_simp
  then obtain a where a: "a \<in> set (id_actions disabled_idb)" "ac_Kind a = ActionEmailVerification"
    "ac_Digest a = DigestActionToken sample_ienv (trim_space verification_token) (ic_actionPepper sample_config)" "ac_UsedAt a = None" "4000 < ac_ExpiresAt a" "ac_UserID a = 1"
    by (elim bexE conjE)
  have ne: "trim_space verification_token \<noteq> []" by code_simp
  have st: "map_option (\<lambda>u. (ur_Status u, ur_EmailVerifiedAt u)) (get_user 1 disabled_idb) = Some (StatusDisabled, None)" by code_simp
  then obtain u where u: "get_user (ac_UserID a) disabled_idb = Some u" "ur_Status u = StatusDisabled" "ur_EmailVerifiedAt u = None" unfolding a(6) by auto
  from verification_reactivates [OF run a(1-3) ne a(4,5) u] u show ?thesis unfolding a(6) by simp
qed

end
