(* ===== verification/ConfigEnvelope.thy ===== *)
theory ConfigEnvelope
  imports IdentityDomain
begin

text \<open>
  The encrypted envelopes of \<open>pkg/configcenter/envelope.go\<close>: a fresh data key encrypts the text, the configured key
  encrypts the data key, and both are bound to where the text belongs. The cipher (AES-GCM) and the JSON coder of
  an envelope are parameters; random bytes are arguments.
\<close>

section \<open>Padded base64\<close>

text \<open>\<open>base64.StdEncoding\<close> and its strict decoder, over the characters of the URL alphabet.\<close>

definition std_char :: "char \<Rightarrow> char" where
  "std_char c = (if c = CHR ''-'' then CHR ''+'' else if c = CHR ''_'' then CHR ''/'' else c)"

definition url_char :: "char \<Rightarrow> char option" where
  "url_char c = (if c = CHR ''+'' then Some (CHR ''-'') else if c = CHR ''/'' then Some (CHR ''_'')
     else if c = CHR ''-'' \<or> c = CHR ''_'' then None else Some c)"

definition std_pad :: "nat \<Rightarrow> string" where
  "std_pad n = replicate ((4 - n mod 4) mod 4) (CHR ''='')"

definition std_encode :: "string \<Rightarrow> string" where
  "std_encode s = (let t = map std_char (b64_encode s) in t @ std_pad (length t))"

definition std_value :: "char \<Rightarrow> nat option" where
  "std_value c = (case url_char c of None \<Rightarrow> None | Some d \<Rightarrow> b64_value d)"

text \<open>The unused bits of the last character are zero.\<close>

definition no_trailing_bits :: "nat list \<Rightarrow> bool" where
  "no_trailing_bits vs \<longleftrightarrow> (length vs mod 4 = 2 \<longrightarrow> last vs mod 16 = 0) \<and> (length vs mod 4 = 3 \<longrightarrow> last vs mod 4 = 0)"

definition std_decode_strict :: "string \<Rightarrow> string option" where
  "std_decode_strict s =
     (let t = filter (\<lambda>c. c \<noteq> CHR 0x0A \<and> c \<noteq> CHR 0x0D) s; body = takeWhile (\<lambda>c. c \<noteq> CHR ''='') t; pad = dropWhile (\<lambda>c. c \<noteq> CHR ''='') t in
      if length t mod 4 \<noteq> 0 \<or> pad \<notin> {'''', ''='', ''==''} \<or> \<not> list_all (\<lambda>c. std_value c \<noteq> None) body then None
      else let vs = map (\<lambda>c. the (std_value c)) body in if no_trailing_bits vs then b64_bytes vs else None)"

lemma std_char_props:
  assumes "n < 64"
  shows "std_value (std_char (b64_char n)) = Some n" "std_char (b64_char n) \<noteq> CHR 0x0A" "std_char (b64_char n) \<noteq> CHR 0x0D" "std_char (b64_char n) \<noteq> CHR ''=''"
proof -
  have "\<forall>n \<in> set [0..<64]. std_value (std_char (b64_char n)) = Some n \<and> std_char (b64_char n) \<noteq> CHR 0x0A
      \<and> std_char (b64_char n) \<noteq> CHR 0x0D \<and> std_char (b64_char n) \<noteq> CHR ''=''"
    by code_simp
  then show "std_value (std_char (b64_char n)) = Some n" "std_char (b64_char n) \<noteq> CHR 0x0A" "std_char (b64_char n) \<noteq> CHR 0x0D" "std_char (b64_char n) \<noteq> CHR ''=''"
    using assms by (simp_all only: set_upt atLeastLessThan_iff Ball_def zero_le simp_thms)
qed

lemma b64_values_trailing: "no_trailing_bits (b64_values s)"
  by (induction s rule: b64_values.induct) (auto simp: no_trailing_bits_def mod_Suc_eq)

lemma std_roundtrip: "std_decode_strict (std_encode s) = Some s"
proof -
  let ?body = "map std_char (b64_encode s)"
  have chars: "c \<noteq> CHR 0x0A \<and> c \<noteq> CHR 0x0D \<and> c \<noteq> CHR ''='' \<and> std_value c \<noteq> None" if "c \<in> set ?body" for c
    using that b64_values_less [of _ s] std_char_props by (auto simp: b64_encode_values)
  have len: "length ?body mod 4 \<noteq> 1" by (induction s rule: b64_encode.induct) (auto simp: mod_Suc_eq)
  have pad: "std_pad (length ?body) \<in> {'''', ''='', ''==''} \<and> (length ?body + length (std_pad (length ?body))) mod 4 = 0"
  proof -
    have "length ?body mod 4 = 0 \<or> length ?body mod 4 = 2 \<or> length ?body mod 4 = 3" using len by linarith
    then show ?thesis by (auto simp: std_pad_def numeral_2_eq_2) presburger+
  qed
  have f: "filter (\<lambda>c. c \<noteq> CHR 0x0A \<and> c \<noteq> CHR 0x0D) (std_encode s) = ?body @ std_pad (length ?body)"
    using chars by (simp add: std_encode_def Let_def filter_id_conv std_pad_def del: set_map)
  have hd_pad: "takeWhile (\<lambda>c. c \<noteq> CHR ''='') (std_pad n) = []" "dropWhile (\<lambda>c. c \<noteq> CHR ''='') (std_pad n) = std_pad n" for n
    by (simp_all add: std_pad_def takeWhile_replicate dropWhile_replicate)
  have tk: "takeWhile (\<lambda>c. c \<noteq> CHR ''='') (?body @ std_pad (length ?body)) = ?body"
    "dropWhile (\<lambda>c. c \<noteq> CHR ''='') (?body @ std_pad (length ?body)) = std_pad (length ?body)"
    using chars takeWhile_append2 [of ?body "\<lambda>c. c \<noteq> CHR ''=''" "std_pad (length ?body)"]
      dropWhile_append2 [of ?body "\<lambda>c. c \<noteq> CHR ''=''" "std_pad (length ?body)"] by (simp_all add: hd_pad del: set_map)
  have vs: "map (\<lambda>c. the (std_value c)) ?body = b64_values s"
    unfolding b64_encode_values map_map by (rule map_idI) (simp add: b64_values_less std_char_props)
  have all: "list_all (\<lambda>c. std_value c \<noteq> None) ?body" unfolding list_all_iff using chars by blast
  show ?thesis unfolding std_decode_strict_def Let_def f tk vs
    using pad all b64_values_trailing by (simp add: b64_bytes_values)
qed

section \<open>Environment\<close>

record Binding =
  bi_Namespace :: string
  bi_Group :: string
  bi_DataID :: string

record encryptedValue =
  ev_Nonce :: string
  ev_Ciphertext :: string

record Envelope =
  en_Schema :: string
  en_KeyID :: string
  en_WrappedKey :: encryptedValue
  en_Payload :: encryptedValue

text \<open>
  \<open>ce_gcm_seal\<close> and \<open>ce_gcm_open\<close> take key, nonce, additional data and text, \<open>None\<close> for a text that fails the
  authentication; \<open>ce_encode\<close> is \<open>json.Marshal\<close> on envelopes and \<open>ce_decode\<close> the decoder that rejects unknown
  fields and trailing content.
\<close>

record cenv =
  ce_gcm_seal :: "string \<Rightarrow> string \<Rightarrow> string \<Rightarrow> string \<Rightarrow> string"
  ce_gcm_open :: "string \<Rightarrow> string \<Rightarrow> string \<Rightarrow> string \<Rightarrow> string option"
  ce_encode :: "Envelope \<Rightarrow> string"
  ce_decode :: "string \<Rightarrow> Envelope option"

definition envelopeSchema :: string where "envelopeSchema = ''knowledge-core.io/config-envelope/v1''"

definition keySize :: nat where "keySize = 32"

definition maximumContent :: int where "maximumContent = 1048576"

definition gcmOverhead :: nat where "gcmOverhead = 16"

section \<open>Validation\<close>

definition contains_any :: "string \<Rightarrow> string \<Rightarrow> bool" where
  "contains_any s cs \<longleftrightarrow> list_ex (\<lambda>c. c \<in> set cs) s"

abbreviation separators :: string where "separators \<equiv> [CHR 0x0D, CHR 0x0A, CHR ''|'']"

text \<open>Go visits the three fields in any order: the message names one of the fields that fail.\<close>

definition validate_field :: "string \<Rightarrow> string \<Rightarrow> string + unit" where
  "validate_field name value0 = (let value = trim_space value0 in
     if value = [] then Inl (''configuration binding '' @ name @ '' is required'')
     else if contains_any value separators then Inl (''configuration binding '' @ name @ '' contains unsupported characters'')
     else Inr ())"

definition Binding_Validate :: "Binding \<Rightarrow> string + unit" where
  "Binding_Validate b =
     (case validate_field ''namespace'' (bi_Namespace b) of Inl e \<Rightarrow> Inl e | Inr _ \<Rightarrow>
      case validate_field ''group'' (bi_Group b) of Inl e \<Rightarrow> Inl e | Inr _ \<Rightarrow>
      validate_field ''data ID'' (bi_DataID b))"

definition validateCryptoInputs :: "string \<Rightarrow> string \<Rightarrow> string \<Rightarrow> Binding \<Rightarrow> string + unit" where
  "validateCryptoInputs plaintext key keyID b =
     (if plaintext = [] \<or> maximumContent < int (length plaintext) then Inl ''encrypt configuration: plaintext size is invalid''
      else if length key \<noteq> keySize then Inl ''encrypt configuration: key must contain 32 bytes''
      else if trim_space keyID = [] \<or> contains_any keyID separators then Inl ''encrypt configuration: key identifier is invalid''
      else case Binding_Validate b of Inl e \<Rightarrow> Inl (''encrypt configuration: '' @ e) | Inr _ \<Rightarrow> Inr ())"

definition ParseKey :: "string \<Rightarrow> string + string" where
  "ParseKey encoded0 = (let encoded = trim_space encoded0 in
     if encoded = [] then Inl ''parse configuration key: value is required''
     else case std_decode_strict encoded of
       None \<Rightarrow> Inl ''parse configuration key: decode base64''
     | Some key \<Rightarrow> if length key \<noteq> keySize then Inl ''parse configuration key: decoded value must contain 32 bytes'' else Inr key)"

section \<open>Sealing and opening\<close>

definition wrapAAD :: "string \<Rightarrow> string" where
  "wrapAAD keyID = envelopeSchema @ ''|keywrap|'' @ keyID"

definition payloadAAD :: "string \<Rightarrow> Binding \<Rightarrow> string" where
  "payloadAAD keyID b = join ''|'' [envelopeSchema, ''payload'', keyID, bi_Namespace b, bi_Group b, bi_DataID b]"

text \<open>\<open>aes.NewCipher\<close> accepts keys of 16, 24 and 32 bytes.\<close>

definition newGCM :: "string \<Rightarrow> string + unit" where
  "newGCM key = (if length key \<in> {16, 24, 32} then Inr () else Inl ''create AES cipher: invalid key size'')"

definition seal :: "cenv \<Rightarrow> string \<Rightarrow> string \<Rightarrow> string \<Rightarrow> string \<Rightarrow> string + encryptedValue" where
  "seal C nonce key plaintext aad =
     (case newGCM key of Inl e \<Rightarrow> Inl e | Inr _ \<Rightarrow>
      Inr \<lparr>ev_Nonce = std_encode nonce, ev_Ciphertext = std_encode (ce_gcm_seal C key nonce aad plaintext)\<rparr>)"

definition open_value :: "cenv \<Rightarrow> string \<Rightarrow> encryptedValue \<Rightarrow> string \<Rightarrow> string + string" where
  "open_value C key v aad =
     (case newGCM key of Inl e \<Rightarrow> Inl e | Inr _ \<Rightarrow>
      case std_decode_strict (ev_Nonce v) of None \<Rightarrow> Inl ''nonce is invalid'' | Some nonce \<Rightarrow>
      if length nonce \<noteq> gcmNonceSize then Inl ''nonce is invalid''
      else case std_decode_strict (ev_Ciphertext v) of None \<Rightarrow> Inl ''ciphertext is invalid'' | Some ciphertext \<Rightarrow>
      if length ciphertext < gcmOverhead then Inl ''ciphertext is invalid''
      else case ce_gcm_open C key nonce aad ciphertext of None \<Rightarrow> Inl ''authentication failed'' | Some plaintext \<Rightarrow> Inr plaintext)"

text \<open>The random bytes of one envelope: the data key and the two nonces.\<close>

record envelope_draws =
  dr_key :: string
  dr_wrap :: string
  dr_payload :: string

definition draws_ok :: "envelope_draws \<Rightarrow> bool" where
  "draws_ok d \<longleftrightarrow> length (dr_key d) = keySize \<and> length (dr_wrap d) = gcmNonceSize \<and> length (dr_payload d) = gcmNonceSize"

definition Encrypt :: "cenv \<Rightarrow> envelope_draws \<Rightarrow> string \<Rightarrow> string \<Rightarrow> string \<Rightarrow> Binding \<Rightarrow> string + string" where
  "Encrypt C d plaintext key keyID b =
     (case validateCryptoInputs plaintext key keyID b of Inl e \<Rightarrow> Inl e | Inr _ \<Rightarrow>
      case seal C (dr_wrap d) key (dr_key d) (wrapAAD keyID) of
        Inl e \<Rightarrow> Inl (''encrypt configuration data key: '' @ e) | Inr wrapped \<Rightarrow>
      case seal C (dr_payload d) (dr_key d) plaintext (payloadAAD keyID b) of
        Inl e \<Rightarrow> Inl (''encrypt configuration payload: '' @ e) | Inr payload \<Rightarrow>
      Inr (ce_encode C \<lparr>en_Schema = envelopeSchema, en_KeyID = keyID, en_WrappedKey = wrapped, en_Payload = payload\<rparr> @ [CHR 0x0A]))"

definition Decrypt :: "cenv \<Rightarrow> string \<Rightarrow> string \<Rightarrow> string \<Rightarrow> Binding \<Rightarrow> string + string" where
  "Decrypt C encoded key expectedKeyID b =
     (if encoded = [] \<or> maximumContent * 2 < int (length encoded) then Inl ''decrypt configuration: envelope size is invalid''
      else if length key \<noteq> keySize then Inl ''decrypt configuration: key must contain 32 bytes''
      else case Binding_Validate b of Inl e \<Rightarrow> Inl (''decrypt configuration: '' @ e) | Inr _ \<Rightarrow>
      case ce_decode C encoded of None \<Rightarrow> Inl ''decode configuration envelope'' | Some envelope \<Rightarrow>
      if en_Schema envelope \<noteq> envelopeSchema then Inl ''decrypt configuration: unsupported envelope schema''
      else if en_KeyID envelope = [] \<or> en_KeyID envelope \<noteq> expectedKeyID
      then Inl ''decrypt configuration: key identifier does not match the configured key''
      else case open_value C key (en_WrappedKey envelope) (wrapAAD (en_KeyID envelope)) of
        Inl e \<Rightarrow> Inl (''decrypt configuration data key: '' @ e) | Inr dek \<Rightarrow>
      if length dek \<noteq> keySize then Inl ''decrypt configuration: data key has an invalid size''
      else case open_value C dek (en_Payload envelope) (payloadAAD (en_KeyID envelope) b) of
        Inl e \<Rightarrow> Inl (''decrypt configuration payload: '' @ e) | Inr plaintext \<Rightarrow>
      if plaintext = [] \<or> maximumContent < int (length plaintext) then Inl ''decrypt configuration: plaintext size is invalid''
      else Inr plaintext)"

section \<open>Additional data\<close>

text \<open>A byte below 128 is a rune of its own, so trimming white space loses no separator.\<close>

lemma multibyte_seg:
  assumes "decode_rune c0 cs = (r, w)" "\<not> byte c0 < 128" "c \<in> set (c0 # take (w - 1) cs)"
  shows "\<not> byte c < (128::int)"
proof (cases "c = c0")
  case False
  then obtain i where i: "i < w - 1" "c = cs ! i" using assms(3) by (auto simp: in_set_conv_nth)
  have "w \<le> 4" using assms(1) by (auto simp: decode_rune_def Let_def split: if_splits)
  then consider "i = 0" | "i = 1" | "i = 2" using i(1) by linarith
  then show ?thesis using assms(1,2) i
    by cases (auto simp: decode_rune_def Let_def utf8_2_def utf8_3_def utf8_4_def cont_byte_def split: if_splits)
qed (use assms in simp)

lemma rune_seg_ascii:
  assumes "x \<in> set (runes s)" "c \<in> set (snd x)" "byte c < (128::int)"
  shows "fst x = byte c"
  using assms
proof (induction s rule: runes.induct)
  case (2 c0 cs)
  obtain r w where d: "decode_rune c0 cs = (r, w)" by fastforce
  from "2.prems"(1) d consider "x = (r, c0 # take (w - 1) cs)" | "x \<in> set (runes (drop (w - 1) cs))" by auto
  then show ?case
  proof cases
    case 1
    then show ?thesis using "2.prems"(2,3) d multibyte_seg [OF d] by (cases "byte c0 < (128::int)") (auto simp: decode_rune_ascii)
  next
    case 2
    then show ?thesis using "2.IH" [OF d [symmetric] refl] "2.prems"(2,3) by blast
  qed
qed simp

lemma trim_space_keeps:
  assumes "c \<in> set s" "byte c < (128::int)" "\<not> is_space (byte c)"
  shows "c \<in> set (trim_space s)"
proof -
  obtain as bs where split: "runes s = as @ trim_with space_seg (runes s) @ bs" and sp: "\<forall>x \<in> set as \<union> set bs. space_seg x"
    using trim_with_split [of "runes s" space_seg] by blast
  have "c \<in> set (rune_bytes (runes s))" using assms(1) by simp
  then obtain x where x: "x \<in> set (runes s)" "c \<in> set (snd x)" by (auto simp: rune_bytes_def)
  then have "\<not> space_seg x" using rune_seg_ascii [OF x assms(2)] assms(3) by (simp add: space_seg_def)
  then have "x \<in> set (trim_with space_seg (runes s))" using x(1) sp by (metis Un_iff set_append split)
  then show ?thesis using x(2) by (auto simp: trim_space_def rune_bytes_def)
qed

lemma no_bar_field: "validate_field name v = Inr u \<Longrightarrow> CHR ''|'' \<notin> set v"
  using trim_space_keeps [of "CHR ''|''" v]
  by (auto simp: validate_field_def contains_any_def list_ex_iff is_space_def Let_def split: if_splits)

lemma Binding_fields:
  assumes "Binding_Validate b = Inr u"
  shows "CHR ''|'' \<notin> set (bi_Namespace b)" "CHR ''|'' \<notin> set (bi_Group b)" "CHR ''|'' \<notin> set (bi_DataID b)"
  using assms by (auto simp: Binding_Validate_def split: sum.splits dest: no_bar_field)

lemma split_join:
  assumes "\<forall>x \<in> set (x # xs). CHR ''|'' \<notin> set x"
  shows "split_with (\<lambda>c. c = CHR ''|'') (join ''|'' (x # xs)) = x # xs"
  using assms
proof (induction xs arbitrary: x)
  case Nil
  then show ?case by (auto intro!: split_with_none)
next
  case (Cons y ys)
  have "split_with (\<lambda>c. c = CHR ''|'') (x @ CHR ''|'' # join ''|'' (y # ys)) = x # split_with (\<lambda>c. c = CHR ''|'') (join ''|'' (y # ys))"
    using Cons.prems by (intro split_with_sep) auto
  then show ?case using Cons.IH [of y] Cons.prems by simp
qed

lemma payloadAAD_inject:
  assumes "payloadAAD k b = payloadAAD k' b'" "CHR ''|'' \<notin> set k" "CHR ''|'' \<notin> set k'" "Binding_Validate b = Inr u" "Binding_Validate b' = Inr u'"
  shows "k = k'" "b = b'"
proof -
  let ?parts = "\<lambda>k b. [envelopeSchema, ''payload'', k, bi_Namespace b, bi_Group b, bi_DataID b]"
  have fixed: "CHR ''|'' \<notin> set envelopeSchema" "CHR ''|'' \<notin> set ''payload''" by (simp_all add: envelopeSchema_def)
  have p: "split_with (\<lambda>c. c = CHR ''|'') (payloadAAD k b) = ?parts k b" "split_with (\<lambda>c. c = CHR ''|'') (payloadAAD k' b') = ?parts k' b'"
    unfolding payloadAAD_def using assms fixed Binding_fields by (intro split_join; simp)+
  then have "?parts k b = ?parts k' b'" using assms(1) by metis
  then show "k = k'" "b = b'" by (auto intro: Binding.equality)
qed

section \<open>Round trip and binding\<close>

text \<open>
  What the library documents of the cipher, that the text and the additional data are authenticated, and of the
  JSON coder on envelopes with a given key identifier.
\<close>

definition gcm_correct :: "cenv \<Rightarrow> bool" where
  "gcm_correct C \<longleftrightarrow> (\<forall>k n a p. ce_gcm_open C k n a (ce_gcm_seal C k n a p) = Some p \<and> gcmOverhead \<le> length (ce_gcm_seal C k n a p))"

definition gcm_authentic :: "cenv \<Rightarrow> bool" where
  "gcm_authentic C \<longleftrightarrow> (\<forall>k n a a' p q. ce_gcm_open C k n a' (ce_gcm_seal C k n a p) = Some q \<longrightarrow> a' = a)"

definition coder_correct :: "cenv \<Rightarrow> string \<Rightarrow> bool" where
  "coder_correct C keyID \<longleftrightarrow> (\<forall>e. en_KeyID e = keyID \<longrightarrow> ce_decode C (ce_encode C e @ [CHR 0x0A]) = Some e)"

lemma open_sealed:
  assumes "length nonce = gcmNonceSize" "length key = keySize" "gcm_correct C"
  shows "seal C nonce key p a = Inr \<lparr>ev_Nonce = std_encode nonce, ev_Ciphertext = std_encode (ce_gcm_seal C key nonce a p)\<rparr>"
    "open_value C key \<lparr>ev_Nonce = std_encode nonce, ev_Ciphertext = std_encode (ce_gcm_seal C key nonce a p)\<rparr> a'
      = (case ce_gcm_open C key nonce a' (ce_gcm_seal C key nonce a p) of None \<Rightarrow> Inl ''authentication failed'' | Some q \<Rightarrow> Inr q)"
proof -
  have "\<not> length (ce_gcm_seal C key nonce a p) < gcmOverhead" using assms(3) by (simp add: gcm_correct_def not_less)
  then show "open_value C key \<lparr>ev_Nonce = std_encode nonce, ev_Ciphertext = std_encode (ce_gcm_seal C key nonce a p)\<rparr> a'
      = (case ce_gcm_open C key nonce a' (ce_gcm_seal C key nonce a p) of None \<Rightarrow> Inl ''authentication failed'' | Some q \<Rightarrow> Inr q)"
    using assms(1,2) by (simp add: open_value_def newGCM_def keySize_def std_roundtrip)
qed (simp add: seal_def newGCM_def assms(2) keySize_def)

text \<open>The envelope an encryption writes, field by field.\<close>

definition sealed_envelope :: "cenv \<Rightarrow> envelope_draws \<Rightarrow> string \<Rightarrow> string \<Rightarrow> string \<Rightarrow> Binding \<Rightarrow> Envelope" where
  "sealed_envelope C d plaintext key keyID b = \<lparr>en_Schema = envelopeSchema, en_KeyID = keyID,
     en_WrappedKey = \<lparr>ev_Nonce = std_encode (dr_wrap d), ev_Ciphertext = std_encode (ce_gcm_seal C key (dr_wrap d) (wrapAAD keyID) (dr_key d))\<rparr>,
     en_Payload = \<lparr>ev_Nonce = std_encode (dr_payload d), ev_Ciphertext = std_encode (ce_gcm_seal C (dr_key d) (dr_payload d) (payloadAAD keyID b) plaintext)\<rparr>\<rparr>"

lemma validated_inputs:
  assumes "validateCryptoInputs plaintext key keyID b = Inr ()"
  shows "plaintext \<noteq> []" "int (length plaintext) \<le> maximumContent" "length key = keySize" "keyID \<noteq> []" "CHR ''|'' \<notin> set keyID" "Binding_Validate b = Inr ()"
proof -
  have "trim_space [] = []" by (simp add: trim_space_def trim_with_def)
  then show "plaintext \<noteq> []" "int (length plaintext) \<le> maximumContent" "length key = keySize" "keyID \<noteq> []" "CHR ''|'' \<notin> set keyID" "Binding_Validate b = Inr ()"
    using assms by (auto simp: validateCryptoInputs_def contains_any_def list_ex_iff split: if_split_asm sum.split_asm)
qed

lemma Encrypt_iff:
  assumes "gcm_correct C" "draws_ok d"
  shows "Encrypt C d plaintext key keyID b = Inr text \<longleftrightarrow>
    validateCryptoInputs plaintext key keyID b = Inr () \<and> text = ce_encode C (sealed_envelope C d plaintext key keyID b) @ [CHR 0x0A]"
proof (cases "validateCryptoInputs plaintext key keyID b")
  case (Inr u)
  then have "length key = keySize" using validated_inputs(3) by simp
  then show ?thesis using assms Inr by (simp add: Encrypt_def open_sealed(1) draws_ok_def sealed_envelope_def) blast
qed (simp add: Encrypt_def)

lemma Decrypt_sealed:
  assumes "gcm_correct C" "draws_ok d" "validateCryptoInputs plaintext key keyID b = Inr ()"
    and "ce_decode C stored = Some (sealed_envelope C d plaintext key keyID b)" "stored \<noteq> []" "int (length stored) \<le> maximumContent * 2"
  shows "Decrypt C stored key keyID' b' =
    (case Binding_Validate b' of Inl e \<Rightarrow> Inl (''decrypt configuration: '' @ e) | Inr _ \<Rightarrow>
     if keyID \<noteq> keyID' then Inl ''decrypt configuration: key identifier does not match the configured key''
     else case ce_gcm_open C (dr_key d) (dr_payload d) (payloadAAD keyID b') (ce_gcm_seal C (dr_key d) (dr_payload d) (payloadAAD keyID b) plaintext) of
       None \<Rightarrow> Inl ''decrypt configuration payload: authentication failed''
     | Some q \<Rightarrow> if q = [] \<or> maximumContent < int (length q) then Inl ''decrypt configuration: plaintext size is invalid'' else Inr q)"
proof -
  note v = validated_inputs [OF assms(3)]
  have o: "ce_gcm_open C key (dr_wrap d) (wrapAAD keyID) (ce_gcm_seal C key (dr_wrap d) (wrapAAD keyID) (dr_key d)) = Some (dr_key d)"
    using assms(1) by (simp add: gcm_correct_def)
  show ?thesis
    using assms v o by (auto simp: Decrypt_def sealed_envelope_def open_sealed(2) draws_ok_def split: sum.splits option.splits)
qed

text \<open>
  An encrypted text can be read back. The stored text need only decode to the same envelope, so a column that
  normalises JSON is covered: with the key, the key identifier and the binding of the encryption, decryption
  returns the plaintext.
\<close>

lemma Decrypt_Encrypt:
  assumes "gcm_correct C" and "coder_correct C keyID" and "draws_ok d"
    and "Encrypt C d plaintext key keyID b = Inr text"
    and "ce_decode C stored = ce_decode C text" and "stored \<noteq> []" and "int (length stored) \<le> maximumContent * 2"
  shows "Decrypt C stored key keyID b = Inr plaintext"
proof -
  have e: "validateCryptoInputs plaintext key keyID b = Inr ()" "text = ce_encode C (sealed_envelope C d plaintext key keyID b) @ [CHR 0x0A]"
    using assms(4) Encrypt_iff [OF assms(1,3)] by auto
  have "ce_decode C stored = Some (sealed_envelope C d plaintext key keyID b)"
    using assms(2,5) e(2) by (simp add: coder_correct_def sealed_envelope_def)
  moreover have "ce_gcm_open C (dr_key d) (dr_payload d) (payloadAAD keyID b) (ce_gcm_seal C (dr_key d) (dr_payload d) (payloadAAD keyID b) plaintext) = Some plaintext"
    using assms(1) by (simp add: gcm_correct_def)
  ultimately show ?thesis using Decrypt_sealed [OF assms(1,3) e(1)] validated_inputs [OF e(1)] assms(6,7) by simp
qed

text \<open>A cipher and a coder with these laws, for the examples: fields are quoted by doubling their characters.\<close>

definition quote :: "string \<Rightarrow> string" where
  "quote s = concat (map (\<lambda>c. [CHR ''.'', c]) s) @ ''|''"

fun unquote :: "string \<Rightarrow> (string \<times> string) option" where
  "unquote (c # cs) = (if c = CHR ''|'' then Some ([], cs)
     else case cs of [] \<Rightarrow> None | d # ds \<Rightarrow> map_option (\<lambda>(s, r). (d # s, r)) (unquote ds))"
| "unquote [] = None"

primrec unquotes :: "nat \<Rightarrow> string \<Rightarrow> string list option" where
  "unquotes 0 t = Some []"
| "unquotes (Suc n) t = (case unquote t of None \<Rightarrow> None | Some (s, r) \<Rightarrow> map_option (\<lambda>ss. s # ss) (unquotes n r))"

lemma unquote_quote: "unquote (quote s @ r) = Some (s, r)"
  by (induction s) (simp_all add: quote_def)

lemma length_quote: "length (quote s) = 2 * length s + 1"
  by (induction s) (simp_all add: quote_def)

definition sample_open :: "string \<Rightarrow> string \<Rightarrow> string \<Rightarrow> string \<Rightarrow> string option" where
  "sample_open k n a c = (case unquote (drop 16 c) of Some (a', p) \<Rightarrow> if a' = a then Some p else None | None \<Rightarrow> None)"

definition sample_decode :: "string \<Rightarrow> Envelope option" where
  "sample_decode t = (case unquotes 6 t of
     Some [s, k, n, c, m, p] \<Rightarrow> Some \<lparr>en_Schema = s, en_KeyID = k, en_WrappedKey = \<lparr>ev_Nonce = n, ev_Ciphertext = c\<rparr>,
       en_Payload = \<lparr>ev_Nonce = m, ev_Ciphertext = p\<rparr>\<rparr> | _ \<Rightarrow> None)"

definition sample_cenv :: cenv where
  "sample_cenv = \<lparr>ce_gcm_seal = \<lambda>k n a p. replicate 16 (CHR ''*'') @ quote a @ p, ce_gcm_open = sample_open,
     ce_encode = \<lambda>e. quote (en_Schema e) @ quote (en_KeyID e) @ quote (ev_Nonce (en_WrappedKey e)) @ quote (ev_Ciphertext (en_WrappedKey e))
       @ quote (ev_Nonce (en_Payload e)) @ quote (ev_Ciphertext (en_Payload e)), ce_decode = sample_decode\<rparr>"

lemma sample_laws: "gcm_correct sample_cenv" "gcm_authentic sample_cenv" "coder_correct sample_cenv keyID"
proof -
  show "gcm_correct sample_cenv" "gcm_authentic sample_cenv"
    by (simp_all add: gcm_correct_def gcm_authentic_def sample_cenv_def sample_open_def unquote_quote gcmOverhead_def)
  show "coder_correct sample_cenv keyID"
    by (simp add: coder_correct_def sample_cenv_def sample_decode_def unquote_quote numeral_eq_Suc)
qed

definition sample_key :: string where "sample_key = replicate 32 (CHR ''k'')"

definition sample_envelope_draws :: envelope_draws where
  "sample_envelope_draws = \<lparr>dr_key = replicate 32 (CHR ''d''), dr_wrap = replicate 12 (CHR ''w''), dr_payload = replicate 12 (CHR ''p'')\<rparr>"

definition sample_binding :: Binding where
  "sample_binding = \<lparr>bi_Namespace = ''test'', bi_Group = ''email'', bi_DataID = ''1''\<rparr>"

definition sample_text :: string where
  "sample_text = ce_encode sample_cenv (sealed_envelope sample_cenv sample_envelope_draws ''secret'' sample_key ''k1'' sample_binding) @ [CHR 0x0A]"

lemma length_std_encode: "length (std_encode s) \<le> 2 * length s + 4"
proof -
  have "(4 - m mod 4) mod 4 \<le> 3" for m :: nat by (simp add: less_Suc_eq_le [symmetric])
  moreover have "(4 * n + 2) div 3 \<le> 2 * n + (1::nat)" for n by linarith
  ultimately show ?thesis unfolding std_encode_def std_pad_def Let_def
    by (simp add: length_b64_encode add_mono [THEN order_trans])
qed

lemma sample_encrypted:
  "draws_ok sample_envelope_draws"
  "Encrypt sample_cenv sample_envelope_draws ''secret'' sample_key ''k1'' sample_binding = Inr sample_text"
  "sample_text \<noteq> []" "int (length sample_text) \<le> maximumContent * 2"
proof -
  show d: "draws_ok sample_envelope_draws" by code_simp
  have "validateCryptoInputs ''secret'' sample_key ''k1'' sample_binding = Inr ()" by code_simp
  then show "Encrypt sample_cenv sample_envelope_draws ''secret'' sample_key ''k1'' sample_binding = Inr sample_text"
    unfolding Encrypt_iff [OF sample_laws(1) d] sample_text_def by simp
  show "int (length sample_text) \<le> maximumContent * 2"
    using length_std_encode [of "dr_wrap sample_envelope_draws"] length_std_encode [of "dr_payload sample_envelope_draws"]
      length_std_encode [of "ce_gcm_seal sample_cenv sample_key (dr_wrap sample_envelope_draws) (wrapAAD ''k1'') (dr_key sample_envelope_draws)"]
      length_std_encode [of "ce_gcm_seal sample_cenv (dr_key sample_envelope_draws) (dr_payload sample_envelope_draws) (payloadAAD ''k1'' sample_binding) ''secret''"]
    by (simp add: sample_text_def sample_cenv_def sealed_envelope_def length_quote wrapAAD_def payloadAAD_def
        envelopeSchema_def sample_binding_def sample_envelope_draws_def maximumContent_def)
qed (simp add: sample_text_def)

text \<open>C18: An envelope cannot be moved: when the cipher authenticates its additional data, decrypting an envelope with
  the key it was written under succeeds only for the key identifier and the environment, namespace and revision it
  was written for.
\<close>

theorem envelope_bound_to_place:
  assumes "gcm_correct C" and "gcm_authentic C" and "coder_correct C keyID" and "draws_ok d"
    and "Encrypt C d plaintext key keyID b = Inr text"
    and "ce_decode C stored = ce_decode C text" and "stored \<noteq> []" and "int (length stored) \<le> maximumContent * 2"
    and "Decrypt C stored key keyID' b' = Inr q"
  shows "keyID' = keyID \<and> b' = b \<and> q = plaintext"
proof -
  have e: "validateCryptoInputs plaintext key keyID b = Inr ()" "text = ce_encode C (sealed_envelope C d plaintext key keyID b) @ [CHR 0x0A]"
    using assms(5) Encrypt_iff [OF assms(1,4)] by auto
  note v = validated_inputs [OF e(1)]
  have s: "ce_decode C stored = Some (sealed_envelope C d plaintext key keyID b)"
    using assms(3,6) e(2) by (simp add: coder_correct_def sealed_envelope_def)
  obtain u where ok: "Binding_Validate b' = Inr u" "keyID' = keyID" and
    o: "ce_gcm_open C (dr_key d) (dr_payload d) (payloadAAD keyID b') (ce_gcm_seal C (dr_key d) (dr_payload d) (payloadAAD keyID b) plaintext) = Some q"
    using assms(9) unfolding Decrypt_sealed [OF assms(1,4) e(1) s assms(7,8)] by (auto split: sum.splits if_splits option.splits)
  have "payloadAAD keyID b' = payloadAAD keyID b" using assms(2) o unfolding gcm_authentic_def by blast
  then have "b' = b" using payloadAAD_inject(2) v ok(1) by blast
  then show ?thesis using ok(2) o assms(1) by (simp add: gcm_correct_def)
qed

text \<open>Read for another revision, the sample envelope fails the authentication.\<close>

theorem envelope_bound_to_place_witness:
  "Decrypt sample_cenv sample_text sample_key ''k1'' (sample_binding\<lparr>bi_DataID := ''2''\<rparr>) \<notin> range Inr"
proof
  assume "Decrypt sample_cenv sample_text sample_key ''k1'' (sample_binding\<lparr>bi_DataID := ''2''\<rparr>) \<in> range Inr"
  then obtain q where "Decrypt sample_cenv sample_text sample_key ''k1'' (sample_binding\<lparr>bi_DataID := ''2''\<rparr>) = Inr q" by blast
  from envelope_bound_to_place [OF sample_laws sample_encrypted(1,2) refl sample_encrypted(3,4) this] show False
    by (simp add: sample_binding_def)
qed

end
