(* ===== verification/PlatformDomain.thy ===== *)
theory PlatformDomain
  imports ConfigEnvelope "HOL-Library.List_Lexorder" "HOL-Library.Char_ord" "HOL-Library.Product_Lexorder"
begin

text \<open>
  Configuration documents of the platform service, from \<open>services/platform/internal/domain/configuration.go\<close>: the
  defaults of the three namespaces and the validation of an update. A Go map from strings to strings is the list of
  its entries in the order of the keys.
\<close>

section \<open>Maps from strings to strings\<close>

type_synonym strmap = "(string \<times> string) list"

definition wf_map :: "strmap \<Rightarrow> bool" where
  "wf_map m \<longleftrightarrow> sorted (map fst m) \<and> distinct (map fst m)"

definition map_value :: "strmap \<Rightarrow> string \<Rightarrow> string" where
  "map_value m k = (case map_of m k of None \<Rightarrow> [] | Some v \<Rightarrow> v)"

definition has_key :: "strmap \<Rightarrow> string \<Rightarrow> bool" where
  "has_key m k \<longleftrightarrow> map_of m k \<noteq> None"

primrec map_set :: "string \<Rightarrow> string \<Rightarrow> strmap \<Rightarrow> strmap" where
  "map_set k v [] = [(k, v)]"
| "map_set k v (e # m) = (if k = fst e then (k, v) # m else if k < fst e then (k, v) # e # m else e # map_set k v m)"

definition map_delete :: "string \<Rightarrow> strmap \<Rightarrow> strmap" where
  "map_delete k m = filter (\<lambda>e. fst e \<noteq> k) m"

lemma map_of_set: "wf_map m \<Longrightarrow> map_of (map_set k v m) = (map_of m)(k \<mapsto> v)"
  by (induction m) (auto simp: wf_map_def)

lemma fst_map_set: "fst ` set (map_set k v m) = insert k (fst ` set m)"
  by (induction m) auto

lemma wf_map_set: "wf_map m \<Longrightarrow> wf_map (map_set k v m)"
  by (induction m) (force simp: wf_map_def fst_map_set)+

lemma wf_map_delete: "wf_map m \<Longrightarrow> wf_map (map_delete k m)"
  by (auto simp: wf_map_def map_delete_def sorted_filter distinct_map_filter)

lemma map_of_delete: "map_of (map_delete k m) = (map_of m)(k := None)"
  by (induction m) (auto simp: map_delete_def)

lemma has_key_iff: "has_key m k \<longleftrightarrow> k \<in> fst ` set m"
  by (simp add: has_key_def map_of_eq_None_iff)

text \<open>Two lists of entries in key order that hold the same map are equal.\<close>

lemma wf_map_eq:
  assumes "wf_map m" "wf_map m'" "map_of m = map_of m'"
  shows "m = m'"
proof -
  have "set m = set m'" using assms map_of_inject_set [of m m'] by (auto simp: wf_map_def)
  then show ?thesis using assms(1,2) by (intro map_sorted_distinct_set_unique [of fst]) (auto simp: wf_map_def distinct_map)
qed

section \<open>Environment\<close>

text \<open>The values \<open>strconv.ParseFloat\<close> can return, with the comparisons of IEEE 754.\<close>

datatype float_value = Finite real | PosInf | NegInf | NaN

definition float_less :: "float_value \<Rightarrow> real \<Rightarrow> bool" where
  "float_less v c = (case v of Finite r \<Rightarrow> r < c | NegInf \<Rightarrow> True | _ \<Rightarrow> False)"

definition float_greater :: "float_value \<Rightarrow> real \<Rightarrow> bool" where
  "float_greater v c = (case v of Finite r \<Rightarrow> c < r | PosInf \<Rightarrow> True | _ \<Rightarrow> False)"

text \<open>The parts of \<open>url.URL\<close> the code looks at; \<open>url_User\<close> says that user information is present.\<close>

record URL =
  url_Scheme :: string
  url_User :: bool
  url_Host :: string
  url_Path :: string
  url_RawQuery :: string
  url_Fragment :: string

record parsers =
  ps_float :: "string \<Rightarrow> float_value option"
  ps_uuid :: "string \<Rightarrow> bool"
  ps_address :: "string \<Rightarrow> bool"
  ps_url :: "string \<Rightarrow> URL option"

section \<open>Snapshots and defaults\<close>

datatype perr = ErrInvalid | ErrNotFound | ErrConflict | ErrPrecondition | ErrInternal string

definition SchemaVersion :: int where "SchemaVersion = 1"

record Snapshot =
  sn_Environment :: string
  sn_Namespace :: string
  sn_Revision :: int
  sn_SchemaVersion :: int
  sn_Public :: strmap
  sn_Secrets :: strmap
  sn_UpdatedBy :: int
  sn_CreatedAt :: time
  sn_UpdatedAt :: time

text \<open>The Chinese tagline, in UTF-8.\<close>

definition default_tagline_zh :: string where
  "default_tagline_zh = [CHR 0xE6, CHR 0x8A, CHR 0x8A, CHR 0xE5, CHR 0x80, CHR 0xBC, CHR 0xE5, CHR 0xBE, CHR 0x97, CHR 0xE7, CHR 0x95, CHR 0x99, CHR 0xE4, CHR 0xB8,
     CHR 0x8B, CHR 0xE7, CHR 0x9A, CHR 0x84, CHR 0xE6, CHR 0x83, CHR 0xB3, CHR 0xE6, CHR 0xB3, CHR 0x95, CHR 0xEF, CHR 0xBC, CHR 0x8C, CHR
     0xE5, CHR 0x86, CHR 0x99, CHR 0xE6, CHR 0x88, CHR 0x90, CHR 0xE5, CHR 0x80, CHR 0xBC, CHR 0xE5, CHR 0xBE, CHR 0x97, CHR 0xE9, CHR 0x98,
     CHR 0x85, CHR 0xE8, CHR 0xAF, CHR 0xBB, CHR 0xE7, CHR 0x9A, CHR 0x84, CHR 0xE6, CHR 0x96, CHR 0x87, CHR 0xE7, CHR 0xAB, CHR 0xA0, CHR
     0xE3, CHR 0x80, CHR 0x82]"

definition site_defaults :: strmap where
  "site_defaults = [(''hero_attachment_id'', []), (''hero_focal_x'', ''50''), (''hero_focal_y'', ''50''), (''hero_image_url'', ''/images/home-hero.png''),
     (''tagline_en'', ''Turn ideas worth keeping into pages worth reading.''), (''tagline_zh'', default_tagline_zh), (''title'', ''HappyLadySauce'')]"

definition email_defaults :: strmap where
  "email_defaults = [(''enabled'', ''false''), (''from'', []), (''frontend_base_url'', []), (''host'', []), (''port'', ''587''), (''username'', [])]"

definition ai_defaults :: strmap where
  "ai_defaults = [(''base_url'', []), (''enabled'', ''false''), (''max_tokens'', ''4096''), (''model'', []), (''provider'', ''openai-compatible''),
     (''request_timeout_ms'', ''30000'')]"

definition default_snapshot :: "string \<Rightarrow> strmap \<Rightarrow> Snapshot" where
  "default_snapshot namespace public = \<lparr>sn_Environment = [], sn_Namespace = namespace, sn_Revision = 0, sn_SchemaVersion = SchemaVersion,
     sn_Public = public, sn_Secrets = [], sn_UpdatedBy = 0, sn_CreatedAt = 0, sn_UpdatedAt = 0\<rparr>"

definition Default_snapshot :: "string \<Rightarrow> perr + Snapshot" where
  "Default_snapshot namespace =
     (if namespace = ''site'' then Inr (default_snapshot namespace site_defaults)
      else if namespace = ''email'' then Inr (default_snapshot namespace email_defaults)
      else if namespace = ''ai'' then Inr (default_snapshot namespace ai_defaults)
      else Inl ErrInvalid)"

definition secretKeys :: "string \<Rightarrow> string list" where
  "secretKeys namespace = (if namespace = ''email'' then [''password''] else if namespace = ''ai'' then [''api_key''] else [])"

text \<open>\<open>SecretKeys\<close> sorts the keys; every namespace has at most one.\<close>

definition SecretKeys :: "string \<Rightarrow> string list" where
  "SecretKeys namespace = sort (secretKeys namespace)"

definition AllKeys :: "Snapshot \<Rightarrow> string list" where
  "AllKeys s = sort (map fst (sn_Public s) @ map fst (sn_Secrets s))"

section \<open>Validation\<close>

definition parse_bool :: "string \<Rightarrow> bool option" where
  "parse_bool s = (if s \<in> {''1'', ''t'', ''T'', ''TRUE'', ''true'', ''True''} then Some True
     else if s \<in> {''0'', ''f'', ''F'', ''FALSE'', ''false'', ''False''} then Some False else None)"

definition length_ok :: "string \<Rightarrow> nat \<Rightarrow> nat \<Rightarrow> bool" where
  "length_ok value minimum maximum \<longleftrightarrow> (let n = rune_count (trim_space value) in minimum \<le> n \<and> n \<le> maximum)"

definition validHTTPOrigin :: "parsers \<Rightarrow> string \<Rightarrow> bool" where
  "validHTTPOrigin P value = (case ps_url P value of None \<Rightarrow> False
     | Some u \<Rightarrow> url_Host u \<noteq> [] \<and> \<not> url_User u \<and> (url_Scheme u = ''http'' \<or> url_Scheme u = ''https'') \<and>
         (url_Path u = [] \<or> url_Path u = ''/'') \<and> url_RawQuery u = [] \<and> url_Fragment u = [])"

definition validHTTPSURL :: "parsers \<Rightarrow> string \<Rightarrow> bool" where
  "validHTTPSURL P value = (case ps_url P value of None \<Rightarrow> False
     | Some u \<Rightarrow> url_Scheme u = ''https'' \<and> url_Host u \<noteq> [] \<and> \<not> url_User u \<and> url_Fragment u = [])"

definition focal_ok :: "parsers \<Rightarrow> string \<Rightarrow> bool" where
  "focal_ok P value = (case ps_float P value of None \<Rightarrow> False | Some v \<Rightarrow> \<not> float_less v 0 \<and> \<not> float_greater v 100)"

definition int_within :: "string \<Rightarrow> int \<Rightarrow> int \<Rightarrow> bool" where
  "int_within value low high = (case parse_int64 value of None \<Rightarrow> False | Some n \<Rightarrow> low \<le> n \<and> n \<le> high)"

definition site_ok :: "parsers \<Rightarrow> strmap \<Rightarrow> bool" where
  "site_ok P public \<longleftrightarrow> length_ok (map_value public ''title'') 1 120 \<and> length_ok (map_value public ''tagline_zh'') 1 300 \<and>
     length_ok (map_value public ''tagline_en'') 1 300 \<and> length_ok (map_value public ''hero_image_url'') 1 2048 \<and>
     (map_value public ''hero_attachment_id'' \<noteq> [] \<longrightarrow> ps_uuid P (map_value public ''hero_attachment_id'')) \<and>
     focal_ok P (map_value public ''hero_focal_x'') \<and> focal_ok P (map_value public ''hero_focal_y'')"

definition email_ok :: "parsers \<Rightarrow> strmap \<Rightarrow> strmap \<Rightarrow> bool" where
  "email_ok P public secrets = (case parse_bool (map_value public ''enabled'') of None \<Rightarrow> False
     | Some enabled \<Rightarrow> (parse_int64 (map_value public ''port'') = Some 465 \<or> parse_int64 (map_value public ''port'') = Some 587) \<and>
         (enabled \<longrightarrow> length_ok (map_value public ''host'') 1 253 \<and> length_ok (map_value public ''username'') 1 320 \<and>
            length_ok (map_value secrets ''password'') 1 4096 \<and> ps_address P (map_value public ''from'') \<and>
            validHTTPOrigin P (map_value public ''frontend_base_url'')))"

definition ai_ok :: "parsers \<Rightarrow> strmap \<Rightarrow> strmap \<Rightarrow> bool" where
  "ai_ok P public secrets = (case parse_bool (map_value public ''enabled'') of None \<Rightarrow> False
     | Some enabled \<Rightarrow> (map_value public ''provider'' = ''openai-compatible'' \<or> map_value public ''provider'' = ''deepseek'') \<and>
         int_within (map_value public ''request_timeout_ms'') 1000 300000 \<and> int_within (map_value public ''max_tokens'') 1 1048576 \<and>
         (enabled \<longrightarrow> validHTTPSURL P (map_value public ''base_url'') \<and> length_ok (map_value public ''model'') 1 200 \<and>
            length_ok (map_value secrets ''api_key'') 1 8192))"

text \<open>Every failure wraps \<open>ErrInvalid\<close>.\<close>

definition validateNamespace :: "parsers \<Rightarrow> string \<Rightarrow> strmap \<Rightarrow> strmap \<Rightarrow> perr + unit" where
  "validateNamespace P namespace public secrets =
     (if namespace = ''site'' then if site_ok P public then Inr () else Inl ErrInvalid
      else if namespace = ''email'' then if email_ok P public secrets then Inr () else Inl ErrInvalid
      else if namespace = ''ai'' then if ai_ok P public secrets then Inr () else Inl ErrInvalid
      else Inl ErrInvalid)"

text \<open>The loop over the submitted values; \<open>defaults\<close> holds the public keys of the namespace.\<close>

fun merge_values :: "strmap \<Rightarrow> string list \<Rightarrow> strmap \<Rightarrow> strmap \<times> strmap \<Rightarrow> perr + strmap \<times> strmap" where
  "merge_values defaults allowed [] (public, secrets) = Inr (public, secrets)"
| "merge_values defaults allowed ((key, value) # values) (public, secrets) =
     (if has_key defaults key then merge_values defaults allowed values (map_set key (trim_space value) public, secrets)
      else if key \<in> set allowed then
        merge_values defaults allowed values
          (public, if trim_space value = [] then map_delete key secrets else map_set key (trim_space value) secrets)
      else Inl ErrInvalid)"

definition Validate_values :: "parsers \<Rightarrow> string \<Rightarrow> strmap \<Rightarrow> strmap \<Rightarrow> perr + strmap \<times> strmap" where
  "Validate_values P namespace values existingSecrets =
     (case Default_snapshot namespace of Inl e \<Rightarrow> Inl e | Inr defaults \<Rightarrow>
      case merge_values (sn_Public defaults) (secretKeys namespace) values (sn_Public defaults, existingSecrets) of Inl e \<Rightarrow> Inl e
      | Inr (public, secrets) \<Rightarrow>
      case validateNamespace P namespace public secrets of Inl e \<Rightarrow> Inl e | Inr _ \<Rightarrow> Inr (public, secrets))"

end
