(* ===== verification/PlatformStore.thy ===== *)
theory PlatformStore
  imports PlatformDomain
begin

text \<open>
  The tables of the platform service and the operations on them, from \<open>services/platform/internal/model/model.go\<close>
  and \<open>repository/store.go\<close>. Columns of JSON text hold the text the database gives back. Identifiers and random
  bytes are drawn from the environment by the counter of the database.
\<close>

section \<open>Environment and tables\<close>

text \<open>
  The fields of an event that vary. The message type, the schema version and the producer are constants, the
  correlation identifier is the message identifier and the idempotency key is the causation identifier; the coder adds
  them.
\<close>

record ConfigEvent =
  cv_message_id :: string
  cv_aggregate_id :: string
  cv_aggregate_version :: int
  cv_environment :: string
  cv_namespace :: string
  cv_value_digest :: string
  cv_occurred_at :: string
  cv_causation_id :: string

text \<open>
  \<open>pe_parsers\<close>, \<open>pe_crypto\<close>: see the theories imported; \<open>pe_draws\<close>, \<open>pe_newID\<close>: random bytes and fresh
  identifiers; \<open>pe_sha256\<close>: the digest in hexadecimal; \<open>pe_format\<close>: RFC 3339 with nanoseconds; \<open>pe_trace\<close>: the
  propagation headers of the request; \<open>pe_marshal\<close>... and \<open>pe_unmarshal\<close>...: the JSON coder on maps, lists of
  strings, pairs of maps (digests), update requests and events; \<open>pe_jsonb\<close>: the text a JSON column gives back for
  a text written to it, \<open>None\<close> when the database rejects the text.
\<close>

record penv =
  pe_parsers :: parsers
  pe_crypto :: cenv
  pe_draws :: "nat \<Rightarrow> envelope_draws"
  pe_newID :: "nat \<Rightarrow> string"
  pe_sha256 :: "string \<Rightarrow> string"
  pe_format :: "time \<Rightarrow> string"
  pe_trace :: strmap
  pe_marshal_map :: "strmap \<Rightarrow> string"
  pe_unmarshal_map :: "string \<Rightarrow> strmap option"
  pe_marshal_list :: "string list \<Rightarrow> string"
  pe_unmarshal_list :: "string \<Rightarrow> string list option"
  pe_marshal_digest :: "strmap \<Rightarrow> strmap \<Rightarrow> string"
  pe_marshal_request :: "string \<Rightarrow> int \<Rightarrow> strmap \<Rightarrow> string"
  pe_marshal_event :: "ConfigEvent \<Rightarrow> string"
  pe_jsonb :: "string \<Rightarrow> string option"

record configuration_row =
  cf_Environment :: string
  cf_Namespace :: string
  cf_Revision :: int
  cf_SchemaVersion :: int
  cf_PublicValues :: string
  cf_SecretEnvelope :: string
  cf_UpdatedBy :: int
  cf_CreatedAt :: time
  cf_UpdatedAt :: time

record audit_row =
  au_ID :: string
  au_Environment :: string
  au_Namespace :: string
  au_Revision :: int
  au_ActorID :: int
  au_PreviousDigest :: string
  au_NextDigest :: string
  au_ChangedKeys :: string
  au_CreatedAt :: time

record config_idempotency_row =
  id_Environment :: string
  id_ActorID :: int
  id_Namespace :: string
  id_Key :: string
  id_RequestHash :: string
  id_Revision :: int
  id_SchemaVersion :: int
  id_ResponsePublicValues :: string
  id_ResponseSecretKeys :: string
  id_ResponseUpdatedAt :: time
  id_ExpiresAt :: time
  id_CreatedAt :: time

record config_outbox_row =
  co_ID :: string
  co_Environment :: string
  co_Namespace :: string
  co_Revision :: int
  co_Subject :: string
  co_Payload :: string
  co_TraceHeaders :: string
  co_Attempts :: int
  co_NextAttemptAt :: time
  co_LastErrorKey :: string
  co_ParkedAt :: "time option"
  co_PublishedAt :: "time option"
  co_CreatedAt :: time

record delivery_row =
  dl_Environment :: string
  dl_Namespace :: string
  dl_Revision :: int
  dl_Consumer :: string
  dl_MessageID :: string
  dl_Status :: string
  dl_Attempts :: int
  dl_LastErrorKey :: string
  dl_AppliedAt :: "time option"
  dl_UpdatedAt :: time

record pdb =
  c_configurations :: "configuration_row list"
  c_revisions :: "configuration_row list"
  c_audit :: "audit_row list"
  c_idempotency :: "config_idempotency_row list"
  c_outbox :: "config_outbox_row list"
  c_deliveries :: "delivery_row list"
  c_counter :: nat

type_synonym 'a ptx = "(pdb, perr, 'a) tx"

definition empty_pdb :: pdb where
  "empty_pdb = \<lparr>c_configurations = [], c_revisions = [], c_audit = [], c_idempotency = [], c_outbox = [], c_deliveries = [], c_counter = 0\<rparr>"

text \<open>Primary and unique keys.\<close>

definition cf_key :: "configuration_row \<Rightarrow> string \<times> string" where
  "cf_key r = (cf_Environment r, cf_Namespace r)"

definition rev_key :: "configuration_row \<Rightarrow> string \<times> string \<times> int" where
  "rev_key r = (cf_Environment r, cf_Namespace r, cf_Revision r)"

definition au_key :: "audit_row \<Rightarrow> string \<times> string \<times> int" where
  "au_key r = (au_Environment r, au_Namespace r, au_Revision r)"

definition id_key :: "config_idempotency_row \<Rightarrow> string \<times> int \<times> string \<times> string" where
  "id_key r = (id_Environment r, id_ActorID r, id_Namespace r, id_Key r)"

definition co_key :: "config_outbox_row \<Rightarrow> string \<times> string \<times> int" where
  "co_key r = (co_Environment r, co_Namespace r, co_Revision r)"

definition dl_key :: "delivery_row \<Rightarrow> string \<times> string \<times> int \<times> string" where
  "dl_key r = (dl_Environment r, dl_Namespace r, dl_Revision r, dl_Consumer r)"

section \<open>The store\<close>

record pstore =
  st_environment :: string
  st_subject :: string
  st_keyID :: string
  st_key :: string

definition New_store :: "string \<Rightarrow> string \<Rightarrow> string \<Rightarrow> string \<Rightarrow> string + pstore" where
  "New_store environment subject keyID encodedKey =
     (if environment = [] \<or> subject = [] \<or> keyID = []
      then Inl ''create platform store: database, environment, subject, and key ID are required''
      else case ParseKey encodedKey of Inl e \<Rightarrow> Inl (''create platform store: '' @ e) | Inr key \<Rightarrow>
        Inr \<lparr>st_environment = environment, st_subject = subject, st_keyID = keyID, st_key = key\<rparr>)"

record PutRequest =
  pr_ActorID :: int
  pr_Namespace :: string
  pr_ExpectedRevision :: int
  pr_IdempotencyKey :: string
  pr_RequestHash :: string
  pr_Values :: strmap

record Delivery =
  de_MessageID :: string
  de_Namespace :: string
  de_Revision :: int
  de_Status :: string
  de_Attempts :: int
  de_LastErrorKey :: string
  de_PublishedAt :: "time option"

record ConsumerState =
  cs_Environment :: string
  cs_Namespace :: string
  cs_Consumer :: string
  cs_DesiredRevision :: int
  cs_AppliedRevision :: int
  cs_Status :: string
  cs_LastErrorKey :: string

record DeliveryUpdate =
  du_MessageID :: string
  du_Namespace :: string
  du_Revision :: int
  du_Consumer :: string
  du_Status :: string
  du_Attempts :: int
  du_LastErrorKey :: string

record ConfigMessage =
  cg_ID :: string
  cg_Subject :: string
  cg_Payload :: string
  cg_Headers :: strmap
  cg_Attempts :: int
  cg_Namespace :: string
  cg_Revision :: int

definition store_binding :: "pstore \<Rightarrow> string \<Rightarrow> int \<Rightarrow> Binding" where
  "store_binding S namespace revision = \<lparr>bi_Namespace = st_environment S, bi_Group = namespace, bi_DataID = show_int revision\<rparr>"

section \<open>Reading\<close>

definition decode_secrets :: "penv \<Rightarrow> pstore \<Rightarrow> configuration_row \<Rightarrow> perr + strmap" where
  "decode_secrets E S r =
     (if cf_SecretEnvelope r = [] then Inr []
      else case Decrypt (pe_crypto E) (cf_SecretEnvelope r) (st_key S) (st_keyID S) (store_binding S (cf_Namespace r) (cf_Revision r)) of
        Inl e \<Rightarrow> Inl (ErrInternal (''decrypt secret configuration: '' @ e))
      | Inr plaintext \<Rightarrow> (case pe_unmarshal_map E plaintext of None \<Rightarrow> Inl (ErrInternal ''decode secret configuration'') | Some m \<Rightarrow> Inr m))"

text \<open>The method \<open>decode\<close>, and \<open>decodeRevision\<close>, which differs in its messages only.\<close>

definition decode_row :: "penv \<Rightarrow> pstore \<Rightarrow> configuration_row \<Rightarrow> perr + Snapshot" where
  "decode_row E S r =
     (case pe_unmarshal_map E (cf_PublicValues r) of None \<Rightarrow> Inl (ErrInternal ''decode public configuration'') | Some public \<Rightarrow>
      case decode_secrets E S r of Inl e \<Rightarrow> Inl e | Inr secrets \<Rightarrow>
      Inr \<lparr>sn_Environment = cf_Environment r, sn_Namespace = cf_Namespace r, sn_Revision = cf_Revision r, sn_SchemaVersion = cf_SchemaVersion r,
        sn_Public = public, sn_Secrets = secrets, sn_UpdatedBy = cf_UpdatedBy r, sn_CreatedAt = cf_CreatedAt r, sn_UpdatedAt = cf_UpdatedAt r\<rparr>)"

definition store_default :: "pstore \<Rightarrow> string \<Rightarrow> perr + Snapshot" where
  "store_default S namespace =
     (case Default_snapshot namespace of Inl e \<Rightarrow> Inl e | Inr s \<Rightarrow> Inr (s\<lparr>sn_Environment := st_environment S\<rparr>))"

definition get_configuration :: "pstore \<Rightarrow> string \<Rightarrow> pdb \<Rightarrow> configuration_row option" where
  "get_configuration S namespace db = tbl_get cf_key (st_environment S, namespace) (c_configurations db)"

definition get_revision :: "pstore \<Rightarrow> string \<Rightarrow> int \<Rightarrow> pdb \<Rightarrow> configuration_row option" where
  "get_revision S namespace revision db = tbl_get rev_key (st_environment S, namespace, revision) (c_revisions db)"

definition Store_Get :: "penv \<Rightarrow> pstore \<Rightarrow> string \<Rightarrow> pdb \<Rightarrow> perr + Snapshot" where
  "Store_Get E S namespace db =
     (case get_configuration S namespace db of None \<Rightarrow> store_default S namespace | Some r \<Rightarrow> decode_row E S r)"

definition Store_GetRevision :: "penv \<Rightarrow> pstore \<Rightarrow> string \<Rightarrow> int \<Rightarrow> pdb \<Rightarrow> perr + Snapshot" where
  "Store_GetRevision E S namespace revision db =
     (case get_revision S namespace revision db of None \<Rightarrow> Inl ErrNotFound | Some r \<Rightarrow> decode_row E S r)"

section \<open>Updating\<close>

definition snapshotDigest :: "penv \<Rightarrow> strmap \<Rightarrow> strmap \<Rightarrow> string" where
  "snapshotDigest E public secrets = pe_sha256 E (pe_marshal_digest E public secrets)"

definition effective_value :: "strmap \<Rightarrow> strmap \<Rightarrow> string \<Rightarrow> string option" where
  "effective_value public secrets k = (case map_of secrets k of Some v \<Rightarrow> Some v | None \<Rightarrow> map_of public k)"

definition changedKeys :: "strmap \<Rightarrow> strmap \<Rightarrow> strmap \<Rightarrow> strmap \<Rightarrow> string list" where
  "changedKeys oldPublic oldSecrets nextPublic nextSecrets =
     filter (\<lambda>k. effective_value oldPublic oldSecrets k \<noteq> effective_value nextPublic nextSecrets k)
       (sort (remdups (map fst (oldPublic @ oldSecrets @ nextPublic @ nextSecrets))))"

definition snapshotFromIdempotency :: "penv \<Rightarrow> config_idempotency_row \<Rightarrow> perr + Snapshot" where
  "snapshotFromIdempotency E i =
     (case pe_unmarshal_map E (id_ResponsePublicValues i) of None \<Rightarrow> Inl (ErrInternal ''decode idempotent configuration response'') | Some public \<Rightarrow>
      case pe_unmarshal_list E (id_ResponseSecretKeys i) of None \<Rightarrow> Inl (ErrInternal ''decode idempotent configuration secret keys'') | Some keys \<Rightarrow>
      Inr \<lparr>sn_Environment = id_Environment i, sn_Namespace = id_Namespace i, sn_Revision = id_Revision i, sn_SchemaVersion = id_SchemaVersion i,
        sn_Public = public, sn_Secrets = fold (\<lambda>k. map_set k ''configured'') keys [], sn_UpdatedBy = id_ActorID i,
        sn_CreatedAt = id_CreatedAt i, sn_UpdatedAt = id_ResponseUpdatedAt i\<rparr>)"

definition draw_ID :: "penv \<Rightarrow> string ptx" where
  "draw_ID E db = Inr (pe_newID E (c_counter db), db\<lparr>c_counter := Suc (c_counter db)\<rparr>)"

definition jsonb_column :: "penv \<Rightarrow> string \<Rightarrow> string \<Rightarrow> string ptx" where
  "jsonb_column E what text = tlift (case pe_jsonb E text of None \<Rightarrow> Inl (ErrInternal what) | Some t \<Rightarrow> Inr t)"

text \<open>The row locked for the update and the snapshot it starts from.\<close>

definition previous_snapshot :: "penv \<Rightarrow> pstore \<Rightarrow> PutRequest \<Rightarrow> Snapshot ptx" where
  "previous_snapshot E S r db =
     (case get_configuration S (pr_Namespace r) db of
        Some current \<Rightarrow>
          if pr_ExpectedRevision r \<noteq> cf_Revision current then Inl ErrPrecondition
          else tlift (decode_row E S current) db
      | None \<Rightarrow>
          if pr_ExpectedRevision r \<noteq> 0 then Inl ErrPrecondition else tlift (store_default S (pr_Namespace r)) db)"

definition seal_secrets :: "penv \<Rightarrow> pstore \<Rightarrow> string \<Rightarrow> int \<Rightarrow> strmap \<Rightarrow> string ptx" where
  "seal_secrets E S namespace revision secrets db =
     (if secrets = [] then Inr ([], db)
      else case Encrypt (pe_crypto E) (pe_draws E (c_counter db)) (pe_marshal_map E secrets) (st_key S) (st_keyID S) (store_binding S namespace revision) of
        Inl e \<Rightarrow> Inl (ErrInternal (''encrypt secret configuration: '' @ e))
      | Inr envelope \<Rightarrow> jsonb_column E ''write configuration'' envelope (db\<lparr>c_counter := Suc (c_counter db)\<rparr>))"

text \<open>
  \<open>INSERT ... ON CONFLICT (environment, namespace) DO UPDATE\<close> leaves the creation time of an existing row. The
  schema demands a positive revision, a positive actor and at most 32 characters for the environment.
\<close>

definition upsert_configuration :: "configuration_row \<Rightarrow> unit ptx" where
  "upsert_configuration r db =
     (if cf_Revision r \<le> 0 \<or> cf_UpdatedBy r \<le> 0 \<or> 32 < rune_count (cf_Environment r) then Inl (ErrInternal ''write configuration'')
      else Inr ((), db\<lparr>c_configurations :=
        (if \<exists>x \<in> set (c_configurations db). cf_key x = cf_key r
         then tbl_upd (\<lambda>x. cf_key x = cf_key r) (\<lambda>x. r\<lparr>cf_CreatedAt := cf_CreatedAt x\<rparr>) (c_configurations db)
         else c_configurations db @ [r])\<rparr>))"

definition audit_entry :: "penv \<Rightarrow> string \<Rightarrow> Snapshot \<Rightarrow> configuration_row \<Rightarrow> strmap \<Rightarrow> strmap \<Rightarrow> string \<Rightarrow> audit_row" where
  "audit_entry E auditID previous r public secrets changed = \<lparr>au_ID = auditID, au_Environment = cf_Environment r, au_Namespace = cf_Namespace r,
     au_Revision = cf_Revision r, au_ActorID = cf_UpdatedBy r, au_PreviousDigest = snapshotDigest E (sn_Public previous) (sn_Secrets previous),
     au_NextDigest = snapshotDigest E public secrets, au_ChangedKeys = changed, au_CreatedAt = cf_UpdatedAt r\<rparr>"

definition write_audit :: "penv \<Rightarrow> Snapshot \<Rightarrow> configuration_row \<Rightarrow> strmap \<Rightarrow> strmap \<Rightarrow> unit ptx" where
  "write_audit E previous r public secrets =
     tbind (draw_ID E) (\<lambda>auditID.
     tbind (jsonb_column E ''write configuration audit''
              (pe_marshal_list E (changedKeys (sn_Public previous) (sn_Secrets previous) public secrets))) (\<lambda>changed.
     tbind (tcheck (\<lambda>db. \<forall>a \<in> set (c_audit db). au_key a \<noteq> rev_key r) (ErrInternal ''write configuration audit'')) (\<lambda>_.
     tinsert c_audit c_audit_update au_ID (ErrInternal ''write configuration audit'')
       (audit_entry E auditID previous r public secrets changed))))"

definition idempotency_entry :: "PutRequest \<Rightarrow> configuration_row \<Rightarrow> string \<Rightarrow> config_idempotency_row" where
  "idempotency_entry q r keys = \<lparr>id_Environment = cf_Environment r, id_ActorID = pr_ActorID q, id_Namespace = cf_Namespace r, id_Key = pr_IdempotencyKey q,
     id_RequestHash = pr_RequestHash q, id_Revision = cf_Revision r, id_SchemaVersion = SchemaVersion,
     id_ResponsePublicValues = cf_PublicValues r, id_ResponseSecretKeys = keys, id_ResponseUpdatedAt = cf_UpdatedAt r,
     id_ExpiresAt = cf_UpdatedAt r + 24 * hour, id_CreatedAt = cf_UpdatedAt r\<rparr>"

definition write_idempotency :: "penv \<Rightarrow> PutRequest \<Rightarrow> configuration_row \<Rightarrow> strmap \<Rightarrow> unit ptx" where
  "write_idempotency E q r secrets =
     tbind (jsonb_column E ''write configuration idempotency key'' (pe_marshal_list E (map fst secrets))) (\<lambda>keys.
     tbind (tguard (rune_count (pr_IdempotencyKey q) \<le> 128) (ErrInternal ''write configuration idempotency key'')) (\<lambda>_.
     tinsert c_idempotency c_idempotency_update id_key (ErrInternal ''write configuration idempotency key'') (idempotency_entry q r keys)))"

definition config_event :: "penv \<Rightarrow> string \<Rightarrow> PutRequest \<Rightarrow> configuration_row \<Rightarrow> strmap \<Rightarrow> strmap \<Rightarrow> ConfigEvent" where
  "config_event E messageID q r public secrets = \<lparr>cv_message_id = messageID,
     cv_aggregate_id = cf_Environment r @ '':'' @ cf_Namespace r, cv_aggregate_version = cf_Revision r, cv_environment = cf_Environment r,
     cv_namespace = cf_Namespace r, cv_value_digest = snapshotDigest E public secrets, cv_occurred_at = pe_format E (cf_UpdatedAt r),
     cv_causation_id = pr_IdempotencyKey q\<rparr>"

definition event_headers :: "penv \<Rightarrow> PutRequest \<Rightarrow> configuration_row \<Rightarrow> strmap" where
  "event_headers E q r = map_set ''X-Causation-ID'' (pr_IdempotencyKey q)
     (map_set ''X-Aggregate-Version'' (show_int (cf_Revision r))
     (map_set ''X-Aggregate-ID'' (cf_Environment r @ '':'' @ cf_Namespace r)
     (map_set ''X-Schema-Version'' ''1'' (map_set ''X-Message-Type'' ''platform.config.changed'' (pe_trace E)))))"

definition outbox_entry :: "pstore \<Rightarrow> string \<Rightarrow> configuration_row \<Rightarrow> string \<Rightarrow> string \<Rightarrow> config_outbox_row" where
  "outbox_entry S messageID r payload headers = \<lparr>co_ID = messageID, co_Environment = cf_Environment r, co_Namespace = cf_Namespace r,
     co_Revision = cf_Revision r, co_Subject = st_subject S, co_Payload = payload, co_TraceHeaders = headers, co_Attempts = 0,
     co_NextAttemptAt = cf_UpdatedAt r, co_LastErrorKey = [], co_ParkedAt = None, co_PublishedAt = None, co_CreatedAt = cf_UpdatedAt r\<rparr>"

definition enqueue_event :: "penv \<Rightarrow> pstore \<Rightarrow> PutRequest \<Rightarrow> configuration_row \<Rightarrow> strmap \<Rightarrow> strmap \<Rightarrow> unit ptx" where
  "enqueue_event E S q r public secrets =
     tbind (draw_ID E) (\<lambda>messageID.
     tbind (jsonb_column E ''enqueue configuration event'' (pe_marshal_event E (config_event E messageID q r public secrets))) (\<lambda>payload.
     tbind (jsonb_column E ''enqueue configuration event'' (pe_marshal_map E (event_headers E q r))) (\<lambda>headers.
     tbind (tcheck (\<lambda>db. rune_count (st_subject S) \<le> 128 \<and> (\<forall>o' \<in> set (c_outbox db). co_key o' \<noteq> rev_key r))
              (ErrInternal ''enqueue configuration event'')) (\<lambda>_.
     tinsert c_outbox c_outbox_update co_ID (ErrInternal ''enqueue configuration event'') (outbox_entry S messageID r payload headers)))))"

definition revision_row :: "pstore \<Rightarrow> PutRequest \<Rightarrow> time \<Rightarrow> Snapshot \<Rightarrow> string \<Rightarrow> string \<Rightarrow> configuration_row" where
  "revision_row S q now previous publicValues envelope = \<lparr>cf_Environment = st_environment S, cf_Namespace = pr_Namespace q,
     cf_Revision = sn_Revision previous + 1, cf_SchemaVersion = SchemaVersion, cf_PublicValues = publicValues, cf_SecretEnvelope = envelope,
     cf_UpdatedBy = pr_ActorID q, cf_CreatedAt = (if sn_CreatedAt previous = 0 then now else sn_CreatedAt previous), cf_UpdatedAt = now\<rparr>"

definition record_snapshot :: "configuration_row \<Rightarrow> strmap \<Rightarrow> strmap \<Rightarrow> Snapshot" where
  "record_snapshot r public secrets = \<lparr>sn_Environment = cf_Environment r, sn_Namespace = cf_Namespace r, sn_Revision = cf_Revision r,
     sn_SchemaVersion = SchemaVersion, sn_Public = public, sn_Secrets = secrets, sn_UpdatedBy = cf_UpdatedBy r,
     sn_CreatedAt = cf_CreatedAt r, sn_UpdatedAt = cf_UpdatedAt r\<rparr>"

definition write_revision :: "penv \<Rightarrow> pstore \<Rightarrow> PutRequest \<Rightarrow> time \<Rightarrow> Snapshot \<Rightarrow> strmap \<Rightarrow> strmap \<Rightarrow> Snapshot ptx" where
  "write_revision E S q now previous public secrets =
     tbind (seal_secrets E S (pr_Namespace q) (sn_Revision previous + 1) secrets) (\<lambda>envelope.
     tbind (jsonb_column E ''write configuration'' (pe_marshal_map E public)) (\<lambda>publicValues.
     let r = revision_row S q now previous publicValues envelope in
     tbind (upsert_configuration r) (\<lambda>_.
     tbind (tinsert c_revisions c_revisions_update rev_key (ErrInternal ''write configuration revision'') r) (\<lambda>_.
     tbind (write_audit E previous r public secrets) (\<lambda>_.
     tbind (write_idempotency E q r secrets) (\<lambda>_.
     tbind (enqueue_event E S q r public secrets) (\<lambda>_.
     tret (record_snapshot r public secrets))))))))"

definition prior_request :: "pstore \<Rightarrow> time \<Rightarrow> PutRequest \<Rightarrow> pdb \<Rightarrow> config_idempotency_row option" where
  "prior_request S now q db =
     find (\<lambda>i. id_key i = (st_environment S, pr_ActorID q, pr_Namespace q, pr_IdempotencyKey q) \<and> now < id_ExpiresAt i) (c_idempotency db)"

text \<open>The clock is read twice: \<open>now0\<close> for the lookup of the idempotency key, \<open>now\<close> for the rows.\<close>

definition put_body :: "penv \<Rightarrow> pstore \<Rightarrow> time \<Rightarrow> time \<Rightarrow> PutRequest \<Rightarrow> Snapshot ptx" where
  "put_body E S now0 now q =
     tbind (tread (prior_request S now0 q)) (\<lambda>prior. case prior of
       Some i \<Rightarrow> if id_RequestHash i \<noteq> pr_RequestHash q then traise ErrConflict else tlift (snapshotFromIdempotency E i)
     | None \<Rightarrow>
         tbind (previous_snapshot E S q) (\<lambda>previous.
         tbind (tlift (Validate_values (pe_parsers E) (pr_Namespace q) (pr_Values q) (sn_Secrets previous))) (\<lambda>(public, secrets).
         write_revision E S q now previous public secrets)))"

definition Store_Put :: "penv \<Rightarrow> pstore \<Rightarrow> time \<Rightarrow> time \<Rightarrow> PutRequest \<Rightarrow> pdb \<Rightarrow> (perr + Snapshot) \<times> pdb" where
  "Store_Put E S now0 now q = transaction (put_body E S now0 now q)"

section \<open>Consumers\<close>

definition idleConsumerState :: "string \<Rightarrow> string \<Rightarrow> string \<Rightarrow> ConsumerState" where
  "idleConsumerState environment namespace consumer = \<lparr>cs_Environment = environment, cs_Namespace = namespace, cs_Consumer = consumer,
     cs_DesiredRevision = 0, cs_AppliedRevision = 0, cs_Status = ''pending'', cs_LastErrorKey = []\<rparr>"

definition consumerStateAfterConfigurationLookup :: "string \<Rightarrow> string \<Rightarrow> string \<Rightarrow> configuration_row option \<Rightarrow> ConsumerState" where
  "consumerStateAfterConfigurationLookup environment namespace consumer configuration =
     (case configuration of None \<Rightarrow> idleConsumerState environment namespace consumer
      | Some c \<Rightarrow> (idleConsumerState environment namespace consumer)\<lparr>cs_DesiredRevision := cf_Revision c\<rparr>)"

text \<open>The delivery with the highest revision among those of a consumer that satisfy a condition.\<close>

definition latest_delivery :: "pstore \<Rightarrow> string \<Rightarrow> string \<Rightarrow> (delivery_row \<Rightarrow> bool) \<Rightarrow> pdb \<Rightarrow> delivery_row option" where
  "latest_delivery S namespace consumer p db =
     (case tbl_select (\<lambda>d. dl_Environment d = st_environment S \<and> dl_Namespace d = namespace \<and> dl_Consumer d = consumer \<and> p d)
        (\<lambda>d. - dl_Revision d) 1 (c_deliveries db) of [] \<Rightarrow> None | d # _ \<Rightarrow> Some d)"

definition Store_ConsumerState :: "pstore \<Rightarrow> string \<Rightarrow> string \<Rightarrow> pdb \<Rightarrow> ConsumerState" where
  "Store_ConsumerState S namespace consumer db =
     (let state = consumerStateAfterConfigurationLookup (st_environment S) namespace consumer (get_configuration S namespace db) in
      if cs_DesiredRevision state \<le> 0 then state
      else case latest_delivery S namespace consumer (\<lambda>_. True) db of None \<Rightarrow> state
      | Some latest \<Rightarrow>
          (let state' = (if dl_Revision latest = cs_DesiredRevision state
                         then state\<lparr>cs_Status := dl_Status latest, cs_LastErrorKey := dl_LastErrorKey latest\<rparr>
                         else if dl_Revision latest < cs_DesiredRevision state then state\<lparr>cs_Status := ''pending''\<rparr> else state) in
           case latest_delivery S namespace consumer (\<lambda>d. dl_Status d = ''applied'') db of
             None \<Rightarrow> state' | Some applied \<Rightarrow> state'\<lparr>cs_AppliedRevision := dl_Revision applied\<rparr>))"

definition acceptDeliveryUpdate :: "string \<Rightarrow> string \<Rightarrow> bool" where
  "acceptDeliveryUpdate current next =
     (if current = ''applied'' \<or> current = ''rejected'' \<or> current = ''parked'' then current = next else True)"

definition get_delivery :: "pstore \<Rightarrow> DeliveryUpdate \<Rightarrow> pdb \<Rightarrow> delivery_row option" where
  "get_delivery S u db = tbl_get dl_key (st_environment S, du_Namespace u, du_Revision u, du_Consumer u) (c_deliveries db)"

definition update_valid :: "penv \<Rightarrow> DeliveryUpdate \<Rightarrow> bool" where
  "update_valid E u \<longleftrightarrow> 0 < du_Revision u \<and> trim_space (du_Namespace u) \<noteq> [] \<and> trim_space (du_Consumer u) \<noteq> [] \<and>
     trim_space (du_MessageID u) \<noteq> [] \<and> du_Status u \<in> {''validating'', ''retrying'', ''applied'', ''rejected'', ''parked''} \<and>
     ps_uuid (pe_parsers E) (du_MessageID u)"

definition new_delivery :: "pstore \<Rightarrow> DeliveryUpdate \<Rightarrow> delivery_row" where
  "new_delivery S u = \<lparr>dl_Environment = st_environment S, dl_Namespace = du_Namespace u, dl_Revision = du_Revision u, dl_Consumer = du_Consumer u,
     dl_MessageID = [], dl_Status = [], dl_Attempts = 0, dl_LastErrorKey = [], dl_AppliedAt = None, dl_UpdatedAt = 0\<rparr>"

text \<open>
  The operation reads the current row and then saves the changed row, outside a transaction. The first part returns
  the row to save, or nothing when the report is ignored.
\<close>

definition report_read :: "penv \<Rightarrow> pstore \<Rightarrow> time \<Rightarrow> DeliveryUpdate \<Rightarrow> pdb \<Rightarrow> perr + delivery_row option" where
  "report_read E S now u db =
     (if \<not> update_valid E u then Inl ErrInvalid
      else if get_revision S (du_Namespace u) (du_Revision u) db = None then Inl ErrNotFound
      else let current = (case get_delivery S u db of None \<Rightarrow> new_delivery S u | Some d \<Rightarrow> d) in
        if \<not> acceptDeliveryUpdate (dl_Status current) (du_Status u) then Inr None
        else Inr (Some (current\<lparr>dl_MessageID := du_MessageID u, dl_Status := du_Status u, dl_Attempts := du_Attempts u,
          dl_LastErrorKey := du_LastErrorKey u, dl_UpdatedAt := now,
          dl_AppliedAt := (if du_Status u = ''applied'' then Some now else dl_AppliedAt current)\<rparr>)))"

text \<open>The schema bounds the consumer and the error key and demands attempts that are not negative.\<close>

definition report_write :: "delivery_row option \<Rightarrow> unit ptx" where
  "report_write saved db = (case saved of None \<Rightarrow> Inr ((), db)
     | Some d \<Rightarrow> if dl_Attempts d < 0 \<or> 64 < rune_count (dl_Consumer d) \<or> 128 < rune_count (dl_LastErrorKey d)
                 then Inl (ErrInternal ''write configuration delivery'')
                 else Inr ((), db\<lparr>c_deliveries := tbl_save dl_key d (c_deliveries db)\<rparr>))"

definition Store_ReportDelivery :: "penv \<Rightarrow> pstore \<Rightarrow> time \<Rightarrow> DeliveryUpdate \<Rightarrow> pdb \<Rightarrow> (perr + unit) \<times> pdb" where
  "Store_ReportDelivery E S now u db =
     (case report_read E S now u db of Inl e \<Rightarrow> (Inl e, db) | Inr saved \<Rightarrow> transaction (report_write saved) db)"

section \<open>Deliveries and the outbox\<close>

definition Store_GetDelivery :: "pstore \<Rightarrow> string \<Rightarrow> int \<Rightarrow> pdb \<Rightarrow> perr + Delivery" where
  "Store_GetDelivery S namespace revision db =
     (case tbl_get co_key (st_environment S, namespace, revision) (c_outbox db) of None \<Rightarrow> Inl ErrNotFound
      | Some o' \<Rightarrow> Inr \<lparr>de_MessageID = co_ID o', de_Namespace = namespace, de_Revision = revision,
          de_Status = (if co_ParkedAt o' \<noteq> None then ''parked'' else if co_PublishedAt o' \<noteq> None then ''published'' else ''pending''),
          de_Attempts = co_Attempts o', de_LastErrorKey = co_LastErrorKey o', de_PublishedAt = co_PublishedAt o'\<rparr>)"

definition decodeHeaders :: "penv \<Rightarrow> string \<Rightarrow> strmap" where
  "decodeHeaders E encoded = (if encoded = [] then [] else case pe_unmarshal_map E encoded of None \<Rightarrow> [] | Some m \<Rightarrow> m)"

definition config_due :: "time \<Rightarrow> config_outbox_row \<Rightarrow> bool" where
  "config_due now o' \<longleftrightarrow> co_PublishedAt o' = None \<and> co_ParkedAt o' = None \<and> co_NextAttemptAt o' \<le> now"

definition config_message :: "penv \<Rightarrow> config_outbox_row \<Rightarrow> ConfigMessage" where
  "config_message E o' = \<lparr>cg_ID = co_ID o', cg_Subject = co_Subject o', cg_Payload = co_Payload o', cg_Headers = decodeHeaders E (co_TraceHeaders o'),
     cg_Attempts = co_Attempts o' + 1, cg_Namespace = co_Namespace o', cg_Revision = co_Revision o'\<rparr>"

definition claimed_rows :: "time \<Rightarrow> int \<Rightarrow> pdb \<Rightarrow> config_outbox_row list" where
  "claimed_rows now limit db =
     tbl_select (config_due now) (\<lambda>o'. (co_NextAttemptAt o', co_CreatedAt o', co_ID o')) (nat (if limit < 1 then 50 else limit)) (c_outbox db)"

definition Store_ClaimOutbox :: "penv \<Rightarrow> time \<Rightarrow> int \<Rightarrow> duration \<Rightarrow> pdb \<Rightarrow> ConfigMessage list \<times> pdb" where
  "Store_ClaimOutbox E now limit lease db =
     (let rows = claimed_rows now limit db in
      (map (config_message E) rows,
       db\<lparr>c_outbox := tbl_upd (\<lambda>o'. co_ID o' \<in> co_ID ` set rows)
            (\<lambda>o'. o'\<lparr>co_Attempts := co_Attempts o' + 1, co_NextAttemptAt := now + lease\<rparr>) (c_outbox db)\<rparr>))"

definition Store_MarkOutboxPublished :: "time \<Rightarrow> string \<Rightarrow> pdb \<Rightarrow> (perr + unit) \<times> pdb" where
  "Store_MarkOutboxPublished now msgID = transaction
     (tupdate1 c_outbox c_outbox_update (\<lambda>o'. co_ID o' = msgID \<and> co_PublishedAt o' = None) (\<lambda>o'. o'\<lparr>co_PublishedAt := Some now\<rparr>) ErrNotFound)"

text \<open>The next two report no error when they match no row.\<close>

definition Store_RetryOutbox :: "time \<Rightarrow> string \<Rightarrow> duration \<Rightarrow> pdb \<Rightarrow> pdb" where
  "Store_RetryOutbox now msgID delay db = db\<lparr>c_outbox := tbl_upd (\<lambda>o'. co_ID o' = msgID \<and> co_PublishedAt o' = None \<and> co_ParkedAt o' = None)
     (\<lambda>o'. o'\<lparr>co_NextAttemptAt := now + delay, co_LastErrorKey := ''publish_failed''\<rparr>) (c_outbox db)\<rparr>"

definition Store_ParkOutbox :: "time \<Rightarrow> string \<Rightarrow> pdb \<Rightarrow> pdb" where
  "Store_ParkOutbox now msgID db = db\<lparr>c_outbox := tbl_upd (\<lambda>o'. co_ID o' = msgID \<and> co_PublishedAt o' = None \<and> co_ParkedAt o' = None)
     (\<lambda>o'. o'\<lparr>co_ParkedAt := Some now, co_LastErrorKey := ''publish_retry_exhausted''\<rparr>) (c_outbox db)\<rparr>"

end
