(* ===== verification/PlatformService.thy ===== *)
theory PlatformService
  imports PlatformStore
begin

text \<open>
  The service and the RPC handlers of the platform service, from \<open>services/platform/internal/service/service.go\<close> and
  \<open>transport/rpc/handler.go\<close>. A request is a record, a missing request is \<open>None\<close>; the access token of the call
  and the clock are arguments.
\<close>

section \<open>Messages\<close>

record ConfigValue =
  va_Key :: string
  va_Value :: string
  va_Secret :: bool
  va_Redacted :: bool

record ConfigReply =
  cr_Environment :: string
  cr_Namespace :: string
  cr_Revision :: int
  cr_SchemaVersion :: int
  cr_Values :: "ConfigValue list"
  cr_UpdatedAt :: string
  cr_UpdatedBy :: int

record PutConfigurationRequest =
  pq_Namespace :: string
  pq_ExpectedRevision :: int
  pq_IdempotencyKey :: string
  pq_Values :: strmap

record SiteProfile =
  sp_Title :: string
  sp_TaglineZh :: string
  sp_TaglineEn :: string
  sp_HeroImageUrl :: string
  sp_HeroFocalX :: float_value
  sp_HeroFocalY :: float_value
  sp_HeroAttachmentId :: "string option"
  sp_Revision :: int

record DeliveryReply =
  dy_MessageId :: string
  dy_Namespace :: string
  dy_Revision :: int
  dy_Status :: string
  dy_Attempts :: int
  dy_LastErrorKey :: "string option"
  dy_PublishedAt :: "string option"

record ConsumerStateReply =
  cy_Environment :: string
  cy_Namespace :: string
  cy_Consumer :: string
  cy_DesiredRevision :: int
  cy_AppliedRevision :: int
  cy_Status :: string
  cy_LastErrorKey :: "string option"

record ReportRequest =
  rq_MessageId :: string
  rq_Namespace :: string
  rq_Revision :: int
  rq_Consumer :: string
  rq_Status :: string
  rq_Attempts :: int
  rq_LastErrorKey :: "string option"

section \<open>Conversions\<close>

definition toConfiguration :: "penv \<Rightarrow> Snapshot \<Rightarrow> ConfigReply" where
  "toConfiguration E s = \<lparr>cr_Environment = sn_Environment s, cr_Namespace = sn_Namespace s, cr_Revision = sn_Revision s,
     cr_SchemaVersion = sn_SchemaVersion s,
     cr_Values = map (\<lambda>k. \<lparr>va_Key = k, va_Value = map_value (sn_Public s) k, va_Secret = False, va_Redacted = False\<rparr>) (sort (map fst (sn_Public s))) @
       map (\<lambda>k. \<lparr>va_Key = k, va_Value = [], va_Secret = True, va_Redacted = has_key (sn_Secrets s) k\<rparr>) (SecretKeys (sn_Namespace s)),
     cr_UpdatedAt = (if sn_UpdatedAt s = 0 then [] else pe_format E (sn_UpdatedAt s)), cr_UpdatedBy = sn_UpdatedBy s\<rparr>"

definition consumer_value :: "Snapshot \<Rightarrow> string \<Rightarrow> ConfigValue" where
  "consumer_value s k = (case map_of (sn_Secrets s) k of
     Some v \<Rightarrow> \<lparr>va_Key = k, va_Value = v, va_Secret = True, va_Redacted = False\<rparr>
   | None \<Rightarrow> \<lparr>va_Key = k, va_Value = map_value (sn_Public s) k, va_Secret = False, va_Redacted = False\<rparr>)"

definition toConsumerConfiguration :: "penv \<Rightarrow> Snapshot \<Rightarrow> ConfigReply" where
  "toConsumerConfiguration E s = \<lparr>cr_Environment = sn_Environment s, cr_Namespace = sn_Namespace s, cr_Revision = sn_Revision s,
     cr_SchemaVersion = sn_SchemaVersion s, cr_Values = map (consumer_value s) (AllKeys s),
     cr_UpdatedAt = pe_format E (sn_UpdatedAt s), cr_UpdatedBy = sn_UpdatedBy s\<rparr>"

definition validConsumer :: "string \<Rightarrow> bool" where
  "validConsumer value \<longleftrightarrow> trim_space value = ''identity.email''"

definition requestHash :: "penv \<Rightarrow> string \<Rightarrow> int \<Rightarrow> strmap \<Rightarrow> string" where
  "requestHash E namespace revision values = pe_sha256 E (pe_marshal_request E namespace revision values)"

definition validIdempotencyKey :: "string \<Rightarrow> bool" where
  "validIdempotencyKey value \<longleftrightarrow> value \<noteq> [] \<and> length value \<le> 128 \<and> trim_space value = value \<and>
     list_all (\<lambda>r. 0x21 \<le> fst r \<and> fst r \<le> 0x7e) (runes value)"

definition non_empty :: "string \<Rightarrow> string option" where
  "non_empty s = (if s = [] then None else Some s)"

section \<open>Service\<close>

definition Service_Get :: "penv \<Rightarrow> pstore \<Rightarrow> string \<Rightarrow> pdb \<Rightarrow> perr + ConfigReply" where
  "Service_Get E S namespace db =
     (case Default_snapshot (trim_space namespace) of Inl e \<Rightarrow> Inl e | Inr _ \<Rightarrow>
      case Store_Get E S (trim_space namespace) db of Inl e \<Rightarrow> Inl e | Inr s \<Rightarrow> Inr (toConfiguration E s))"

definition put_request :: "penv \<Rightarrow> int \<Rightarrow> PutConfigurationRequest \<Rightarrow> PutRequest" where
  "put_request E actorID q = (let namespace = trim_space (pq_Namespace q) in
     \<lparr>pr_ActorID = actorID, pr_Namespace = namespace, pr_ExpectedRevision = pq_ExpectedRevision q, pr_IdempotencyKey = pq_IdempotencyKey q,
      pr_RequestHash = requestHash E namespace (pq_ExpectedRevision q) (pq_Values q), pr_Values = pq_Values q\<rparr>)"

definition Service_Put :: "penv \<Rightarrow> pstore \<Rightarrow> time \<Rightarrow> time \<Rightarrow> int \<Rightarrow> PutConfigurationRequest option \<Rightarrow> pdb \<Rightarrow> (perr + ConfigReply) \<times> pdb" where
  "Service_Put E S now0 now actorID request db =
     (case request of None \<Rightarrow> (Inl ErrInvalid, db) | Some q \<Rightarrow>
      if actorID \<le> 0 \<or> pq_ExpectedRevision q < 0 \<or> \<not> validIdempotencyKey (pq_IdempotencyKey q) \<or> pq_Values q = [] \<or> 32 < length (pq_Values q)
      then (Inl ErrInvalid, db)
      else case Default_snapshot (trim_space (pq_Namespace q)) of Inl e \<Rightarrow> (Inl e, db) | Inr _ \<Rightarrow>
      case Store_Put E S now0 now (put_request E actorID q) db of
        (Inl e, db') \<Rightarrow> (Inl e, db') | (Inr s, db') \<Rightarrow> (Inr (toConfiguration E s), db'))"

definition Service_SiteProfile :: "penv \<Rightarrow> pstore \<Rightarrow> pdb \<Rightarrow> perr + SiteProfile" where
  "Service_SiteProfile E S db =
     (case Store_Get E S ''site'' db of Inl e \<Rightarrow> Inl e | Inr s \<Rightarrow>
      case ps_float (pe_parsers E) (map_value (sn_Public s) ''hero_focal_x'') of None \<Rightarrow> Inl (ErrInternal ''decode site hero focal X'') | Some x \<Rightarrow>
      case ps_float (pe_parsers E) (map_value (sn_Public s) ''hero_focal_y'') of None \<Rightarrow> Inl (ErrInternal ''decode site hero focal Y'') | Some y \<Rightarrow>
      Inr \<lparr>sp_Title = map_value (sn_Public s) ''title'', sp_TaglineZh = map_value (sn_Public s) ''tagline_zh'',
        sp_TaglineEn = map_value (sn_Public s) ''tagline_en'', sp_HeroImageUrl = map_value (sn_Public s) ''hero_image_url'',
        sp_HeroFocalX = x, sp_HeroFocalY = y, sp_HeroAttachmentId = non_empty (map_value (sn_Public s) ''hero_attachment_id''),
        sp_Revision = sn_Revision s\<rparr>)"

definition Service_Delivery :: "penv \<Rightarrow> pstore \<Rightarrow> string \<Rightarrow> int \<Rightarrow> pdb \<Rightarrow> perr + DeliveryReply" where
  "Service_Delivery E S namespace revision db =
     (case Default_snapshot (trim_space namespace) of Inl e \<Rightarrow> Inl ErrInvalid | Inr _ \<Rightarrow>
      if revision \<le> 0 then Inl ErrInvalid
      else case Store_GetDelivery S (trim_space namespace) revision db of Inl e \<Rightarrow> Inl e | Inr d \<Rightarrow>
      Inr \<lparr>dy_MessageId = de_MessageID d, dy_Namespace = de_Namespace d, dy_Revision = de_Revision d, dy_Status = de_Status d,
        dy_Attempts = de_Attempts d, dy_LastErrorKey = non_empty (de_LastErrorKey d),
        dy_PublishedAt = map_option (pe_format E) (de_PublishedAt d)\<rparr>)"

definition Service_ConsumerConfiguration :: "penv \<Rightarrow> pstore \<Rightarrow> string \<Rightarrow> int \<Rightarrow> string \<Rightarrow> pdb \<Rightarrow> perr + ConfigReply" where
  "Service_ConsumerConfiguration E S namespace revision consumer db =
     (if \<not> validConsumer consumer \<or> revision \<le> 0 then Inl ErrInvalid
      else case Default_snapshot (trim_space namespace) of Inl e \<Rightarrow> Inl e | Inr _ \<Rightarrow>
      case Store_GetRevision E S (trim_space namespace) revision db of Inl e \<Rightarrow> Inl e | Inr s \<Rightarrow> Inr (toConsumerConfiguration E s))"

definition Service_ConsumerState :: "pstore \<Rightarrow> string \<Rightarrow> string \<Rightarrow> pdb \<Rightarrow> perr + ConsumerStateReply" where
  "Service_ConsumerState S namespace consumer db =
     (if \<not> validConsumer consumer then Inl ErrInvalid
      else case Default_snapshot (trim_space namespace) of Inl e \<Rightarrow> Inl e | Inr _ \<Rightarrow>
      let s = Store_ConsumerState S (trim_space namespace) consumer db in
      Inr \<lparr>cy_Environment = cs_Environment s, cy_Namespace = cs_Namespace s, cy_Consumer = cs_Consumer s, cy_DesiredRevision = cs_DesiredRevision s,
        cy_AppliedRevision = cs_AppliedRevision s, cy_Status = cs_Status s, cy_LastErrorKey = non_empty (cs_LastErrorKey s)\<rparr>)"

definition report_update :: "ReportRequest \<Rightarrow> DeliveryUpdate" where
  "report_update q = \<lparr>du_MessageID = rq_MessageId q, du_Namespace = trim_space (rq_Namespace q), du_Revision = rq_Revision q,
     du_Consumer = rq_Consumer q, du_Status = rq_Status q, du_Attempts = rq_Attempts q,
     du_LastErrorKey = (case rq_LastErrorKey q of None \<Rightarrow> [] | Some k \<Rightarrow> k)\<rparr>"

definition Service_ReportConsumerApply :: "penv \<Rightarrow> pstore \<Rightarrow> time \<Rightarrow> ReportRequest option \<Rightarrow> pdb \<Rightarrow> (perr + unit) \<times> pdb" where
  "Service_ReportConsumerApply E S now request db =
     (case request of None \<Rightarrow> (Inl ErrInvalid, db) | Some q \<Rightarrow>
      if \<not> validConsumer (rq_Consumer q) \<or> rq_Revision q \<le> 0 \<or> rq_MessageId q = [] \<or> rq_Attempts q < 0 then (Inl ErrInvalid, db)
      else case Default_snapshot (trim_space (rq_Namespace q)) of Inl e \<Rightarrow> (Inl e, db) | Inr _ \<Rightarrow>
      Store_ReportDelivery E S now (report_update q) db)"

section \<open>Handlers\<close>

text \<open>The errors a caller sees, by the key of their definition in \<open>errors/errors.go\<close>.\<close>

datatype rpcerr = InvalidInput | NotFound | Conflict | Forbidden | Unauthenticated | PreconditionFailed | Internal

definition mapError :: "perr \<Rightarrow> rpcerr" where
  "mapError e = (case e of ErrInvalid \<Rightarrow> InvalidInput | ErrNotFound \<Rightarrow> NotFound | ErrPrecondition \<Rightarrow> PreconditionFailed
     | ErrConflict \<Rightarrow> Conflict | ErrInternal _ \<Rightarrow> Internal)"

definition map_result :: "perr + 'a \<Rightarrow> rpcerr + 'a" where
  "map_result r = (case r of Inl e \<Rightarrow> Inl (mapError e) | Inr a \<Rightarrow> Inr a)"

definition handler_admin :: "jwtenv \<Rightarrow> time \<Rightarrow> string \<Rightarrow> bool \<Rightarrow> rpcerr + int" where
  "handler_admin J now accessToken valid =
     (if \<not> valid then Inl InvalidInput
      else let token = trim_space accessToken in
        if token = [] then Inl Unauthenticated
        else case Verify J now token of Inl _ \<Rightarrow> Inl Unauthenticated
        | Inr p \<Rightarrow> if pr_UserID p \<le> 0 then Inl Unauthenticated else if pr_Role p \<noteq> ''admin'' then Inl Forbidden else Inr (pr_UserID p))"

definition GetSiteProfile :: "penv \<Rightarrow> pstore \<Rightarrow> bool \<Rightarrow> pdb \<Rightarrow> rpcerr + SiteProfile" where
  "GetSiteProfile E S present db = (if \<not> present then Inl InvalidInput else map_result (Service_SiteProfile E S db))"

definition GetConfiguration :: "penv \<Rightarrow> jwtenv \<Rightarrow> pstore \<Rightarrow> time \<Rightarrow> string \<Rightarrow> string option \<Rightarrow> pdb \<Rightarrow> rpcerr + ConfigReply" where
  "GetConfiguration E J S now token request db =
     (case handler_admin J now token (request \<noteq> None) of Inl e \<Rightarrow> Inl e | Inr _ \<Rightarrow> map_result (Service_Get E S (the request) db))"

definition PutConfiguration ::
  "penv \<Rightarrow> jwtenv \<Rightarrow> pstore \<Rightarrow> time \<Rightarrow> time \<Rightarrow> string \<Rightarrow> PutConfigurationRequest option \<Rightarrow> pdb \<Rightarrow> (rpcerr + ConfigReply) \<times> pdb" where
  "PutConfiguration E J S now0 now token request db =
     (case handler_admin J now0 token (request \<noteq> None) of Inl e \<Rightarrow> (Inl e, db) | Inr actorID \<Rightarrow>
      let (r, db') = Service_Put E S now0 now actorID request db in (map_result r, db'))"

definition GetConfigurationDelivery :: "penv \<Rightarrow> jwtenv \<Rightarrow> pstore \<Rightarrow> time \<Rightarrow> string \<Rightarrow> (string \<times> int) option \<Rightarrow> pdb \<Rightarrow> rpcerr + DeliveryReply" where
  "GetConfigurationDelivery E J S now token request db =
     (case handler_admin J now token (request \<noteq> None) of Inl e \<Rightarrow> Inl e | Inr _ \<Rightarrow>
      map_result (Service_Delivery E S (fst (the request)) (snd (the request)) db))"

definition GetConsumerConfiguration :: "penv \<Rightarrow> pstore \<Rightarrow> (string \<times> int \<times> string) option \<Rightarrow> pdb \<Rightarrow> rpcerr + ConfigReply" where
  "GetConsumerConfiguration E S request db =
     (case request of None \<Rightarrow> Inl InvalidInput
      | Some (namespace, revision, consumer) \<Rightarrow> map_result (Service_ConsumerConfiguration E S namespace revision consumer db))"

definition GetConsumerState :: "pstore \<Rightarrow> (string \<times> string) option \<Rightarrow> pdb \<Rightarrow> rpcerr + ConsumerStateReply" where
  "GetConsumerState S request db =
     (case request of None \<Rightarrow> Inl InvalidInput | Some (namespace, consumer) \<Rightarrow> map_result (Service_ConsumerState S namespace consumer db))"

definition ReportConfigurationApply :: "penv \<Rightarrow> pstore \<Rightarrow> time \<Rightarrow> ReportRequest option \<Rightarrow> pdb \<Rightarrow> (rpcerr + unit) \<times> pdb" where
  "ReportConfigurationApply E S now request db =
     (case request of None \<Rightarrow> (Inl InvalidInput, db)
      | Some q \<Rightarrow> let (r, db') = Service_ReportConsumerApply E S now (Some q) db in (map_result r, db'))"

end
