(* ===== verification/PlatformHistory.thy ===== *)
theory PlatformHistory
  imports PlatformService
begin

text \<open>
  The history of configuration revisions: the rows an update writes, the steps of the service, and the invariant
  that every namespace has a gapless history whose revisions are announced and audited once.
\<close>

section \<open>What an update writes\<close>

lemma jsonb_column_iff [tx_simps]:
  "jsonb_column E what text db = Inr (t, db') \<longleftrightarrow> pe_jsonb E text = Some t \<and> db' = db"
  by (auto simp: jsonb_column_def tx_simps split: option.splits)

lemma draw_ID_iff [tx_simps]:
  "draw_ID E db = Inr (i, db') \<longleftrightarrow> i = pe_newID E (c_counter db) \<and> db' = db\<lparr>c_counter := Suc (c_counter db)\<rparr>"
  by (auto simp: draw_ID_def)

definition upserted :: "configuration_row \<Rightarrow> configuration_row list \<Rightarrow> configuration_row list" where
  "upserted r rows = (if \<exists>x \<in> set rows. cf_key x = cf_key r
     then tbl_upd (\<lambda>x. cf_key x = cf_key r) (\<lambda>x. r\<lparr>cf_CreatedAt := cf_CreatedAt x\<rparr>) rows else rows @ [r])"

lemma upsert_iff [tx_simps]:
  "upsert_configuration r db = Inr (u, db') \<longleftrightarrow>
     0 < cf_Revision r \<and> 0 < cf_UpdatedBy r \<and> rune_count (cf_Environment r) \<le> 32 \<and> db' = db\<lparr>c_configurations := upserted r (c_configurations db)\<rparr>"
  by (auto simp: upsert_configuration_def upserted_def)

text \<open>The envelope written for the secrets.\<close>

definition sealed_column :: "penv \<Rightarrow> pstore \<Rightarrow> nat \<Rightarrow> string \<Rightarrow> int \<Rightarrow> strmap \<Rightarrow> string \<Rightarrow> bool" where
  "sealed_column E S n namespace revision secrets envelope \<longleftrightarrow>
     (if secrets = [] then envelope = []
      else \<exists>text. Encrypt (pe_crypto E) (pe_draws E n) (pe_marshal_map E secrets) (st_key S) (st_keyID S) (store_binding S namespace revision) = Inr text
        \<and> pe_jsonb E text = Some envelope)"

lemma seal_secrets_iff [tx_simps]:
  "seal_secrets E S namespace revision secrets db = Inr (envelope, db') \<longleftrightarrow>
     sealed_column E S (c_counter db) namespace revision secrets envelope \<and>
     db' = (if secrets = [] then db else db\<lparr>c_counter := Suc (c_counter db)\<rparr>)"
  by (auto simp: seal_secrets_def sealed_column_def tx_simps split: sum.splits)

lemma previous_snapshot_iff [tx_simps]:
  "previous_snapshot E S q db = Inr (s, db') \<longleftrightarrow> db' = db \<and>
     (case get_configuration S (pr_Namespace q) db of
        Some c \<Rightarrow> pr_ExpectedRevision q = cf_Revision c \<and> decode_row E S c = Inr s
      | None \<Rightarrow> pr_ExpectedRevision q = 0 \<and> store_default S (pr_Namespace q) = Inr s)"
  by (auto simp: previous_snapshot_def tx_simps split: option.splits)

text \<open>The database after an update, from the columns it stores and the counter it leaves.\<close>

definition written_db :: "penv \<Rightarrow> pstore \<Rightarrow> PutRequest \<Rightarrow> configuration_row \<Rightarrow> audit_row \<Rightarrow> string \<Rightarrow> config_outbox_row \<Rightarrow> nat \<Rightarrow> pdb \<Rightarrow> pdb" where
  "written_db E S q r a keys o' n db = db\<lparr>c_configurations := upserted r (c_configurations db), c_revisions := c_revisions db @ [r],
     c_audit := c_audit db @ [a], c_idempotency := c_idempotency db @ [idempotency_entry q r keys], c_outbox := c_outbox db @ [o'], c_counter := n\<rparr>"

lemma entry_keys [simp]:
  "au_key (audit_entry E auditID previous r public secrets changed) = rev_key r"
  "co_key (outbox_entry S messageID r payload headers) = rev_key r" "co_ID (outbox_entry S messageID r payload headers) = messageID"
  "id_key (idempotency_entry q r keys) = (cf_Environment r, pr_ActorID q, cf_Namespace r, pr_IdempotencyKey q)"
  "cf_key (revision_row S q now previous publicValues envelope) = (st_environment S, pr_Namespace q)"
  "rev_key (revision_row S q now previous publicValues envelope) = (st_environment S, pr_Namespace q, sn_Revision previous + 1)"
  by (simp_all add: au_key_def audit_entry_def co_key_def outbox_entry_def id_key_def idempotency_entry_def cf_key_def rev_key_def revision_row_def)

lemma row_appended:
  "c_audit_update (\<lambda>rows. rows @ [x]) db = db\<lparr>c_audit := c_audit db @ [x]\<rparr>"
  "c_idempotency_update (\<lambda>rows. rows @ [y]) db = db\<lparr>c_idempotency := c_idempotency db @ [y]\<rparr>"
  "c_outbox_update (\<lambda>rows. rows @ [z]) db = db\<lparr>c_outbox := c_outbox db @ [z]\<rparr>"
  "c_revisions_update (\<lambda>rows. rows @ [r]) db = db\<lparr>c_revisions := c_revisions db @ [r]\<rparr>"
  by (cases db; simp)+

lemma write_audit_iff [tx_simps]:
  "write_audit E previous r public secrets db = Inr (u, db') \<longleftrightarrow>
    (\<exists>changed. pe_jsonb E (pe_marshal_list E (changedKeys (sn_Public previous) (sn_Secrets previous) public secrets)) = Some changed \<and>
      (\<forall>a \<in> set (c_audit db). au_key a \<noteq> rev_key r \<and> au_ID a \<noteq> pe_newID E (c_counter db)) \<and>
      db' = db\<lparr>c_counter := Suc (c_counter db),
        c_audit := c_audit db @ [audit_entry E (pe_newID E (c_counter db)) previous r public secrets changed]\<rparr>)"
  by (auto simp: write_audit_def tx_simps audit_entry_def row_appended)

lemma write_idempotency_iff [tx_simps]:
  "write_idempotency E q r secrets db = Inr (u, db') \<longleftrightarrow>
    (\<exists>keys. pe_jsonb E (pe_marshal_list E (map fst secrets)) = Some keys \<and> rune_count (pr_IdempotencyKey q) \<le> 128 \<and>
      (\<forall>x \<in> set (c_idempotency db). id_key x \<noteq> id_key (idempotency_entry q r keys)) \<and>
      db' = db\<lparr>c_idempotency := c_idempotency db @ [idempotency_entry q r keys]\<rparr>)"
  by (auto simp: write_idempotency_def tx_simps row_appended)

lemma enqueue_event_iff [tx_simps]:
  "enqueue_event E S q r public secrets db = Inr (u, db') \<longleftrightarrow>
    (\<exists>payload headers. pe_jsonb E (pe_marshal_event E (config_event E (pe_newID E (c_counter db)) q r public secrets)) = Some payload \<and>
      pe_jsonb E (pe_marshal_map E (event_headers E q r)) = Some headers \<and> rune_count (st_subject S) \<le> 128 \<and>
      (\<forall>x \<in> set (c_outbox db). co_key x \<noteq> rev_key r \<and> co_ID x \<noteq> pe_newID E (c_counter db)) \<and>
      db' = db\<lparr>c_counter := Suc (c_counter db), c_outbox := c_outbox db @ [outbox_entry S (pe_newID E (c_counter db)) r payload headers]\<rparr>)"
  by (auto simp: enqueue_event_def tx_simps row_appended)

lemma write_revision_effect:
  assumes "write_revision E S q now previous public secrets db = Inr (s, db')"
  obtains publicValues envelope auditID changed keys messageID payload headers n r where
    "r = revision_row S q now previous publicValues envelope" "s = record_snapshot r public secrets"
    "pe_jsonb E (pe_marshal_map E public) = Some publicValues"
    "sealed_column E S (c_counter db) (pr_Namespace q) (sn_Revision previous + 1) secrets envelope"
    "pe_jsonb E (pe_marshal_list E (map fst secrets)) = Some keys"
    "pe_jsonb E (pe_marshal_event E (config_event E messageID q r public secrets)) = Some payload"
    "\<forall>x \<in> set (c_revisions db). rev_key x \<noteq> rev_key r" "\<forall>x \<in> set (c_audit db). au_key x \<noteq> rev_key r"
    "\<forall>x \<in> set (c_outbox db). co_key x \<noteq> rev_key r \<and> co_ID x \<noteq> messageID"
    "\<forall>x \<in> set (c_idempotency db). id_key x \<noteq> id_key (idempotency_entry q r keys)"
    "0 < cf_Revision r"
    "db' = written_db E S q r (audit_entry E auditID previous r public secrets changed) keys (outbox_entry S messageID r payload headers) n db"
proof -
  obtain envelope db1 publicValues db2 u3 db3 u4 db4 u5 db5 u6 db6 u7 db7 where
    1: "seal_secrets E S (pr_Namespace q) (sn_Revision previous + 1) secrets db = Inr (envelope, db1)"
    and 2: "jsonb_column E ''write configuration'' (pe_marshal_map E public) db1 = Inr (publicValues, db2)"
    and 3: "upsert_configuration (revision_row S q now previous publicValues envelope) db2 = Inr (u3, db3)"
    and 4: "tinsert c_revisions c_revisions_update rev_key (ErrInternal ''write configuration revision'')
      (revision_row S q now previous publicValues envelope) db3 = Inr (u4, db4)"
    and 5: "write_audit E previous (revision_row S q now previous publicValues envelope) public secrets db4 = Inr (u5, db5)"
    and 6: "write_idempotency E q (revision_row S q now previous publicValues envelope) secrets db5 = Inr (u6, db6)"
    and 7: "enqueue_event E S q (revision_row S q now previous publicValues envelope) public secrets db6 = Inr (u7, db7)"
    and s8: "s = record_snapshot (revision_row S q now previous publicValues envelope) public secrets" and db8: "db' = db7"
    using assms unfolding write_revision_def Let_def tbind_Inr tret_iff by (elim exE conjE) (rule that, assumption+)
  let ?r = "revision_row S q now previous publicValues envelope"
  from 1 have s1: "sealed_column E S (c_counter db) (pr_Namespace q) (sn_Revision previous + 1) secrets envelope"
    by (simp add: seal_secrets_iff)
  from 1 have "db1 = db\<lparr>c_counter := if secrets = [] then c_counter db else Suc (c_counter db)\<rparr>" by (simp add: seal_secrets_iff)
  then obtain n1 where db1: "db1 = db\<lparr>c_counter := n1\<rparr>" by blast
  from 2 have s2: "pe_jsonb E (pe_marshal_map E public) = Some publicValues" and db2: "db2 = db1" by (simp_all add: jsonb_column_iff)
  from 3 have s3: "0 < cf_Revision ?r" and db3: "db3 = db2\<lparr>c_configurations := upserted ?r (c_configurations db2)\<rparr>"
    by (simp_all only: upsert_iff)
  from 4 have s4: "\<forall>x \<in> set (c_revisions db3). rev_key x \<noteq> rev_key ?r" and db4: "db4 = db3\<lparr>c_revisions := c_revisions db3 @ [?r]\<rparr>"
    unfolding tinsert_iff row_appended by blast+
  from 5 obtain changed where s5: "\<forall>a \<in> set (c_audit db4). au_key a \<noteq> rev_key ?r"
    and db5: "db5 = db4\<lparr>c_counter := Suc (c_counter db4),
        c_audit := c_audit db4 @ [audit_entry E (pe_newID E (c_counter db4)) previous ?r public secrets changed]\<rparr>"
    unfolding write_audit_iff by blast
  from 6 obtain keys where s6: "pe_jsonb E (pe_marshal_list E (map fst secrets)) = Some keys"
    "\<forall>x \<in> set (c_idempotency db5). id_key x \<noteq> id_key (idempotency_entry q ?r keys)"
    and db6: "db6 = db5\<lparr>c_idempotency := c_idempotency db5 @ [idempotency_entry q ?r keys]\<rparr>"
    unfolding write_idempotency_iff by blast
  from 7 obtain payload headers where
    s7: "pe_jsonb E (pe_marshal_event E (config_event E (pe_newID E (c_counter db6)) q ?r public secrets)) = Some payload"
    "\<forall>x \<in> set (c_outbox db6). co_key x \<noteq> rev_key ?r \<and> co_ID x \<noteq> pe_newID E (c_counter db6)"
    and db7: "db7 = db6\<lparr>c_counter := Suc (c_counter db6), c_outbox := c_outbox db6 @ [outbox_entry S (pe_newID E (c_counter db6)) ?r payload headers]\<rparr>"
    unfolding enqueue_event_iff by blast
  have tables: "c_revisions db3 = c_revisions db" "c_audit db4 = c_audit db" "c_idempotency db5 = c_idempotency db" "c_outbox db6 = c_outbox db"
    by (simp_all add: db6 db5 db4 db3 db2 db1)
  have "db' = written_db E S q ?r (audit_entry E (pe_newID E (c_counter db4)) previous ?r public secrets changed) keys
      (outbox_entry S (pe_newID E (c_counter db6)) ?r payload headers) (Suc (c_counter db6)) db"
    unfolding db8 db7 tables unfolding written_db_def by (simp add: db6 db5 db4 db3 db2 db1)
  then show ?thesis using that [OF refl s8 s2 s1 s6(1) s7(1)] s3 s4 s5 s6(2) s7(2) unfolding tables by blast
qed

lemma put_cases:
  assumes "Store_Put E S now0 now q db = (res, db')"
  obtains (same) "db' = db"
  | (written) previous public secrets s where "res = Inr s" "prior_request S now0 q db = None" "previous_snapshot E S q db = Inr (previous, db)"
    "Validate_values (pe_parsers E) (pr_Namespace q) (pr_Values q) (sn_Secrets previous) = Inr (public, secrets)"
    "write_revision E S q now previous public secrets db = Inr (s, db')"
proof -
  have "db' = db \<or> (\<exists>s. res = Inr s \<and> put_body E S now0 now q db = Inr (s, db'))"
    using transaction_atomic assms by (metis Store_Put_def)
  then consider "db' = db" | s where "res = Inr s" "put_body E S now0 now q db = Inr (s, db')" by blast
  then show ?thesis
  proof cases
    case 2
    show ?thesis
    proof (cases "prior_request S now0 q db")
      case None
      with 2 show ?thesis by (auto simp: put_body_def tx_simps intro: written)
    next
      case (Some i)
      with 2 have "db' = db" by (auto simp: put_body_def tx_simps split: if_splits)
      then show ?thesis by (rule same)
    qed
  qed (rule same)
qed

section \<open>Steps of the service\<close>

text \<open>
  Updates, the second halves of reports, whatever was read before, and the operations of the outbox worker, of any
  store over the database.
\<close>

inductive pstep :: "penv \<Rightarrow> pdb \<Rightarrow> pdb \<Rightarrow> bool" for E where
  put: "Store_Put E S now0 now q db = (res, db') \<Longrightarrow> pstep E db db'"
| report: "transaction (report_write saved) db = (r, db') \<Longrightarrow> pstep E db db'"
| claim: "Store_ClaimOutbox E now limit lease db = (ms, db') \<Longrightarrow> pstep E db db'"
| mark: "Store_MarkOutboxPublished now msgID db = (r, db') \<Longrightarrow> pstep E db db'"
| retry: "pstep E db (Store_RetryOutbox now msgID delay db)"
| park: "pstep E db (Store_ParkOutbox now msgID db)"

definition history_inv :: "pdb \<Rightarrow> bool" where
  "history_inv db \<longleftrightarrow> distinct (map cf_key (c_configurations db)) \<and> distinct (map rev_key (c_revisions db)) \<and>
     distinct (map au_key (c_audit db)) \<and> distinct (map co_key (c_outbox db)) \<and> distinct (map co_ID (c_outbox db)) \<and>
     distinct (map id_key (c_idempotency db)) \<and>
     (\<forall>c \<in> set (c_configurations db). 0 < cf_Revision c \<and>
        (\<forall>k. (cf_Environment c, cf_Namespace c, k) \<in> rev_key ` set (c_revisions db) \<longleftrightarrow> 1 \<le> k \<and> k \<le> cf_Revision c) \<and>
        (\<exists>r \<in> set (c_revisions db). r\<lparr>cf_CreatedAt := cf_CreatedAt c\<rparr> = c)) \<and>
     (\<forall>r \<in> set (c_revisions db). cf_key r \<in> cf_key ` set (c_configurations db)) \<and>
     au_key ` set (c_audit db) = rev_key ` set (c_revisions db) \<and> co_key ` set (c_outbox db) = rev_key ` set (c_revisions db)"

lemma history_invD:
  assumes "history_inv db"
  shows "distinct (map cf_key (c_configurations db))" "distinct (map rev_key (c_revisions db))" "distinct (map au_key (c_audit db))"
    "distinct (map co_key (c_outbox db))" "distinct (map co_ID (c_outbox db))"
    "\<And>c. c \<in> set (c_configurations db) \<Longrightarrow> 0 < cf_Revision c"
    "\<And>c k. c \<in> set (c_configurations db) \<Longrightarrow>
       (cf_Environment c, cf_Namespace c, k) \<in> rev_key ` set (c_revisions db) \<longleftrightarrow> 1 \<le> k \<and> k \<le> cf_Revision c"
    "\<And>c. c \<in> set (c_configurations db) \<Longrightarrow> \<exists>r \<in> set (c_revisions db). r\<lparr>cf_CreatedAt := cf_CreatedAt c\<rparr> = c"
    "\<And>r. r \<in> set (c_revisions db) \<Longrightarrow> cf_key r \<in> cf_key ` set (c_configurations db)"
    "au_key ` set (c_audit db) = rev_key ` set (c_revisions db)" "co_key ` set (c_outbox db) = rev_key ` set (c_revisions db)"
    "distinct (map id_key (c_idempotency db))"
  using assms by (simp_all add: history_inv_def)

lemma empty_history: "history_inv empty_pdb"
  by (simp add: history_inv_def empty_pdb_def)

text \<open>A step that keeps the keys of the outbox and the tables of the history keeps the invariant.\<close>

lemma history_frame:
  assumes "history_inv db" "c_configurations db' = c_configurations db" "c_revisions db' = c_revisions db" "c_audit db' = c_audit db"
    and "c_idempotency db' = c_idempotency db" and "map co_key (c_outbox db') = map co_key (c_outbox db)" "map co_ID (c_outbox db') = map co_ID (c_outbox db)"
  shows "history_inv db'"
proof -
  have "co_key ` set (c_outbox db') = co_key ` set (c_outbox db)" using assms(6) by (metis set_map)
  then show ?thesis using assms unfolding history_inv_def by simp
qed

lemma previous_revision:
  assumes "previous_snapshot E S q db = Inr (previous, db)"
  shows "sn_Revision previous = (case get_configuration S (pr_Namespace q) db of None \<Rightarrow> 0 | Some c \<Rightarrow> cf_Revision c)"
    "sn_Revision previous = pr_ExpectedRevision q"
  using assms
  by (auto simp: previous_snapshot_iff decode_row_def store_default_def Default_snapshot_def default_snapshot_def split: option.splits sum.splits if_splits)

lemma map_upserted: "map cf_key (upserted r rows) = (if cf_key r \<in> cf_key ` set rows then map cf_key rows else map cf_key rows @ [cf_key r])"
proof -
  have "map cf_key (tbl_upd (\<lambda>x. cf_key x = cf_key r) (\<lambda>x. r\<lparr>cf_CreatedAt := cf_CreatedAt x\<rparr>) rows) = map cf_key rows"
    by (auto simp: tbl_upd_def cf_key_def)
  moreover have "(\<exists>x \<in> set rows. cf_key x = cf_key r) \<longleftrightarrow> cf_key r \<in> cf_key ` set rows" by (metis imageE imageI)
  ultimately show ?thesis by (simp add: upserted_def)
qed

lemma upserted_keys: "cf_key ` set (upserted r rows) = insert (cf_key r) (cf_key ` set rows)"
  using arg_cong [OF map_upserted, where f = set] by (auto split: if_splits)

lemma distinct_upserted: "distinct (map cf_key rows) \<Longrightarrow> distinct (map cf_key (upserted r rows))"
  by (auto simp: map_upserted)

lemma in_upserted:
  assumes "c \<in> set (upserted r rows)"
  shows "(\<exists>t. c = r\<lparr>cf_CreatedAt := t\<rparr>) \<or> (c \<in> set rows \<and> cf_key c \<noteq> cf_key r)"
proof (cases "\<exists>x \<in> set rows. cf_key x = cf_key r")
  case True
  then show ?thesis using assms by (auto simp: upserted_def elim!: in_tbl_updE)
next
  case False
  then have "upserted r rows = rows @ [r]" by (simp add: upserted_def)
  then consider "c \<in> set rows" | "c = r" using assms by auto
  then show ?thesis
  proof cases
    case 2
    then have "c = r\<lparr>cf_CreatedAt := cf_CreatedAt r\<rparr>" by simp
    then show ?thesis by blast
  qed (use False in blast)
qed

lemma written_history:
  assumes inv: "history_inv db" and prev: "previous_snapshot E S q db = Inr (previous, db)"
    and w: "write_revision E S q now previous public secrets db = Inr (s, db')"
  shows "history_inv db' \<and> set (c_revisions db) \<subseteq> set (c_revisions db') \<and> set (c_idempotency db) \<subseteq> set (c_idempotency db')"
proof -
  obtain publicValues envelope auditID changed keys messageID payload headers n r where
    r: "r = revision_row S q now previous publicValues envelope" and new: "\<forall>x \<in> set (c_revisions db). rev_key x \<noteq> rev_key r"
    "\<forall>x \<in> set (c_audit db). au_key x \<noteq> rev_key r" "\<forall>x \<in> set (c_outbox db). co_key x \<noteq> rev_key r \<and> co_ID x \<noteq> messageID"
    "\<forall>x \<in> set (c_idempotency db). id_key x \<noteq> id_key (idempotency_entry q r keys)"
    and pos: "0 < cf_Revision r"
    and db': "db' = written_db E S q r (audit_entry E auditID previous r public secrets changed) keys (outbox_entry S messageID r payload headers) n db"
    by (rule write_revision_effect [OF w])
  note i = history_invD [OF inv]
  have key: "rev_key r = (fst (cf_key r), snd (cf_key r), cf_Revision r)" "rev_key x = (fst (cf_key x), snd (cf_key x), cf_Revision x)" for x
    by (simp_all add: rev_key_def cf_key_def)
  have rev: "cf_Revision r = (case tbl_get cf_key (cf_key r) (c_configurations db) of None \<Rightarrow> 1 | Some c \<Rightarrow> cf_Revision c + 1)"
    using previous_revision(1) [OF prev] by (simp add: r get_configuration_def revision_row_def cf_key_def split: option.splits)
  have span: "(fst (cf_key r), snd (cf_key r), k) \<in> rev_key ` set (c_revisions db) \<longleftrightarrow> 1 \<le> k \<and> k < cf_Revision r" for k
  proof (cases "tbl_get cf_key (cf_key r) (c_configurations db)")
    case None
    then have none: "cf_key r \<notin> cf_key ` set (c_configurations db)" by (auto simp: tbl_get_None)
    have "(fst (cf_key r), snd (cf_key r), k) \<notin> rev_key ` set (c_revisions db)"
    proof
      assume "(fst (cf_key r), snd (cf_key r), k) \<in> rev_key ` set (c_revisions db)"
      then obtain x where x: "x \<in> set (c_revisions db)" "cf_key x = cf_key r" by (auto simp: key(2) prod_eq_iff)
      then show False using i(9) none by metis
    qed
    then show ?thesis using rev None by simp
  next
    case (Some c)
    have c: "c \<in> set (c_configurations db)" "cf_key c = cf_key r" using tbl_get_SomeD [OF Some] by simp_all
    have "(fst (cf_key c), snd (cf_key c), k) = (cf_Environment c, cf_Namespace c, k)" by (simp add: cf_key_def)
    then show ?thesis using i(7) [OF c(1), of k] rev Some c(2) by auto
  qed
  have conf: "0 < cf_Revision c \<and> (\<forall>k. (cf_Environment c, cf_Namespace c, k) \<in> rev_key ` set (c_revisions db') \<longleftrightarrow> 1 \<le> k \<and> k \<le> cf_Revision c) \<and>
      (\<exists>x \<in> set (c_revisions db'). x\<lparr>cf_CreatedAt := cf_CreatedAt c\<rparr> = c)" if "c \<in> set (c_configurations db')" for c
  proof -
    have revs: "rev_key ` set (c_revisions db') = insert (rev_key r) (rev_key ` set (c_revisions db))" "set (c_revisions db') = insert r (set (c_revisions db))"
      by (simp_all add: db' written_db_def)
    have "c \<in> set (upserted r (c_configurations db))" using that by (simp add: db' written_db_def)
    from in_upserted [OF this] consider t where "c = r\<lparr>cf_CreatedAt := t\<rparr>" | "c \<in> set (c_configurations db)" "cf_key c \<noteq> cf_key r"
      by blast
    then show ?thesis
    proof cases
      case 1
      have "(cf_Environment c, cf_Namespace c, k) = (fst (cf_key r), snd (cf_key r), k)" for k by (simp add: 1 cf_key_def)
      then show ?thesis unfolding revs using span pos key(1) 1 by auto
    next
      case 2
      then have "(cf_Environment c, cf_Namespace c, k) \<noteq> rev_key r" for k by (auto simp: cf_key_def rev_key_def)
      then show ?thesis unfolding revs using i(6-8) [OF 2(1)] by auto
    qed
  qed
  have "history_inv db'"
    unfolding history_inv_def
  proof (intro conjI ballI)
    show "distinct (map cf_key (c_configurations db'))" by (simp add: db' written_db_def distinct_upserted i(1))
    show "cf_key x \<in> cf_key ` set (c_configurations db')" if "x \<in> set (c_revisions db')" for x
      using that i(9) by (auto simp: db' written_db_def upserted_keys)
    show "0 < cf_Revision c" if "c \<in> set (c_configurations db')" for c using conf [OF that] by blast
    show "\<forall>k. (cf_Environment c, cf_Namespace c, k) \<in> rev_key ` set (c_revisions db') \<longleftrightarrow> 1 \<le> k \<and> k \<le> cf_Revision c"
      if "c \<in> set (c_configurations db')" for c using conf [OF that] by blast
    show "\<exists>x \<in> set (c_revisions db'). x\<lparr>cf_CreatedAt := cf_CreatedAt c\<rparr> = c" if "c \<in> set (c_configurations db')" for c
      using conf [OF that] by (elim conjE)
  qed (use i new in \<open>auto simp: db' written_db_def\<close>)
  then show ?thesis by (auto simp: db' written_db_def)
qed

lemma pstep_history:
  assumes "pstep E db db'" "history_inv db"
  shows "history_inv db' \<and> set (c_revisions db) \<subseteq> set (c_revisions db') \<and> set (c_idempotency db) \<subseteq> set (c_idempotency db')"
  using assms(1)
proof (cases rule: pstep.cases)
  case (put S now0 now q res)
  then show ?thesis by (cases rule: put_cases) (use assms(2) written_history [OF assms(2)] in blast)+
next
  case (report saved r)
  have "db' = db \<or> (\<exists>d. db' = db\<lparr>c_deliveries := d\<rparr>)"
    using transaction_atomic [OF report] by (auto simp: report_write_def split: option.splits if_splits)
  then show ?thesis using assms(2) history_frame [OF assms(2), of db'] by auto
next
  case (claim now limit lease ms)
  have keys: "map co_key (tbl_upd p (\<lambda>o'. o'\<lparr>co_Attempts := f o', co_NextAttemptAt := t\<rparr>) rows) = map co_key rows"
    "map co_ID (tbl_upd p (\<lambda>o'. o'\<lparr>co_Attempts := f o', co_NextAttemptAt := t\<rparr>) rows) = map co_ID rows" for p f t rows
    by (rule map_key_upd, simp add: co_key_def)+
  show ?thesis using claim history_frame [OF assms(2), of db'] by (auto simp: Store_ClaimOutbox_def Let_def keys)
next
  case (mark now msgID r)
  have keys: "map co_key (tbl_upd p (\<lambda>o'. o'\<lparr>co_PublishedAt := Some now\<rparr>) rows) = map co_key rows"
    "map co_ID (tbl_upd p (\<lambda>o'. o'\<lparr>co_PublishedAt := Some now\<rparr>) rows) = map co_ID rows" for p rows
    by (rule map_key_upd, simp add: co_key_def)+
  show ?thesis using mark history_frame [OF assms(2), of db'] assms(2)
    by (auto simp: Store_MarkOutboxPublished_def transaction_def tupdate1_def keys split: if_splits)
next
  case (retry now msgID delay)
  have keys: "map co_key (tbl_upd p (\<lambda>o'. o'\<lparr>co_NextAttemptAt := now + delay, co_LastErrorKey := t\<rparr>) rows) = map co_key rows"
    "map co_ID (tbl_upd p (\<lambda>o'. o'\<lparr>co_NextAttemptAt := now + delay, co_LastErrorKey := t\<rparr>) rows) = map co_ID rows" for p t rows
    by (rule map_key_upd, simp add: co_key_def)+
  show ?thesis using retry history_frame [OF assms(2), of db'] by (simp add: Store_RetryOutbox_def keys)
next
  case (park now msgID)
  have keys: "map co_key (tbl_upd p (\<lambda>o'. o'\<lparr>co_ParkedAt := Some now, co_LastErrorKey := t\<rparr>) rows) = map co_key rows"
    "map co_ID (tbl_upd p (\<lambda>o'. o'\<lparr>co_ParkedAt := Some now, co_LastErrorKey := t\<rparr>) rows) = map co_ID rows" for p t rows
    by (rule map_key_upd, simp add: co_key_def)+
  show ?thesis using park history_frame [OF assms(2), of db'] by (simp add: Store_ParkOutbox_def keys)
qed

inductive psteps :: "penv \<Rightarrow> pdb \<Rightarrow> pdb \<Rightarrow> bool" for E where
  none: "psteps E db db"
| more: "psteps E db db' \<Longrightarrow> pstep E db' db'' \<Longrightarrow> psteps E db db''"

lemma psteps_history:
  assumes "psteps E db db'" "history_inv db"
  shows "history_inv db' \<and> set (c_revisions db) \<subseteq> set (c_revisions db') \<and> set (c_idempotency db) \<subseteq> set (c_idempotency db')"
  using assms
proof induction
  case (more db db' db'')
  then show ?case using pstep_history [OF more.hyps(2)] by blast
qed simp

end
