(* ===== verification/PlatformWorker.thy ===== *)
theory PlatformWorker
  imports PlatformStore KnowledgeOutbox
begin

text \<open>
  The worker that publishes configuration events, from \<open>services/platform/internal/worker/outbox.go\<close>. What the
  broker answers to a message, and the time read by the store call that follows, are given by a function of the
  message.
\<close>

section \<open>The worker\<close>

record outbox_worker =
  ow_lease :: duration
  ow_maxAttempts :: int

definition New_worker :: "duration \<Rightarrow> duration \<Rightarrow> int \<Rightarrow> string + outbox_worker" where
  "New_worker interval lease maxAttempts =
     (if interval \<le> 0 \<or> lease \<le> 0 \<or> maxAttempts < 1 then Inl ''create platform outbox worker: valid dependencies and options are required''
      else Inr \<lparr>ow_lease = lease, ow_maxAttempts = maxAttempts\<rparr>)"

definition outbox_backoff :: "int \<Rightarrow> duration" where
  "outbox_backoff attempt0 = (let attempt = (if attempt0 < 1 then 1 else if attempt0 > 8 then 8 else attempt0) in second * 2 ^ nat (attempt - 1))"

text \<open>The loop over the claimed messages; it stops at a message that could not be marked.\<close>

primrec process_messages ::
  "outbox_worker \<Rightarrow> (ConfigMessage \<Rightarrow> bool \<times> time) \<Rightarrow> ConfigMessage list \<Rightarrow> pdb \<Rightarrow> (perr + unit) \<times> pdb" where
  "process_messages W publish [] db = (Inr (), db)"
| "process_messages W publish (m # ms) db =
     (let (ok, now) = publish m in
      if ok then (case Store_MarkOutboxPublished now (cg_ID m) db of
          (Inl e, db') \<Rightarrow> (Inl e, db') | (Inr _, db') \<Rightarrow> process_messages W publish ms db')
      else if ow_maxAttempts W \<le> cg_Attempts m then process_messages W publish ms (Store_ParkOutbox now (cg_ID m) db)
      else process_messages W publish ms (Store_RetryOutbox now (cg_ID m) (outbox_backoff (cg_Attempts m)) db))"

definition process_outbox ::
  "penv \<Rightarrow> outbox_worker \<Rightarrow> time \<Rightarrow> (ConfigMessage \<Rightarrow> bool \<times> time) \<Rightarrow> pdb \<Rightarrow> (perr + unit) \<times> pdb" where
  "process_outbox E W now publish db =
     (let (messages, db') = Store_ClaimOutbox E now 50 (ow_lease W) db in process_messages W publish messages db')"

section \<open>The queue\<close>

definition config_due_ids :: "time \<Rightarrow> pdb \<Rightarrow> string set" where
  "config_due_ids now db = co_ID ` {o' \<in> set (c_outbox db). config_due now o'}"

definition lease_config :: "penv \<Rightarrow> time \<Rightarrow> int \<Rightarrow> duration \<Rightarrow> pdb \<Rightarrow> string list \<times> pdb" where
  "lease_config E now n d db = (let (ms, db') = Store_ClaimOutbox E now n d db in (map cg_ID ms, db'))"

lemma lease_config_eq:
  "lease_config E now n d db = (map co_ID (claimed_rows now n db),
     db\<lparr>c_outbox := tbl_upd (\<lambda>o'. co_ID o' \<in> co_ID ` set (claimed_rows now n db))
        (\<lambda>o'. o'\<lparr>co_Attempts := co_Attempts o' + 1, co_NextAttemptAt := now + d\<rparr>) (c_outbox db)\<rparr>)"
  by (simp add: lease_config_def Store_ClaimOutbox_def config_message_def Let_def comp_def)

lemma mark_outbox [simp]:
  "c_outbox (snd (Store_MarkOutboxPublished now i s)) =
     tbl_upd (\<lambda>o'. co_ID o' = i \<and> co_PublishedAt o' = None) (\<lambda>o'. o'\<lparr>co_PublishedAt := Some now\<rparr>) (c_outbox s)"
  by (simp add: Store_MarkOutboxPublished_def transaction_tupdate1)

lemma retry_outbox:
  "c_outbox (Store_RetryOutbox now i d s) = tbl_upd (\<lambda>o'. co_ID o' = i \<and> co_PublishedAt o' = None \<and> co_ParkedAt o' = None)
     (\<lambda>o'. o'\<lparr>co_NextAttemptAt := now + d, co_LastErrorKey := ''publish_failed''\<rparr>) (c_outbox s)"
  by (simp add: Store_RetryOutbox_def)

interpretation pout: leased_queue config_due_ids "lease_config E" Store_RetryOutbox "\<lambda>now i s. snd (Store_MarkOutboxPublished now i s)"
proof
  fix now n d s ids s' t
  assume l: "lease_config E now n d s = (ids, s')"
  then show "set ids \<subseteq> config_due_ids now s"
    by (auto simp: lease_config_eq config_due_ids_def claimed_rows_def dest!: tbl_select_in)
  show "config_due_ids t s' \<subseteq> config_due_ids t s - set ids" if "t < now + d"
    using l that by (auto simp: lease_config_eq config_due_ids_def config_due_def elim!: in_tbl_updE)
next
  fix t now i d s
  show "config_due_ids t (Store_RetryOutbox now i d s) \<subseteq> config_due_ids t s \<union> {i}"
    by (auto simp: config_due_ids_def config_due_def retry_outbox elim!: in_tbl_updE)
  have "\<not> config_due t r" if d: "t < now + d" and r: "r \<in> set (c_outbox (Store_RetryOutbox now i d s))" and i: "co_ID r = i" for r
    using r unfolding retry_outbox
  proof (cases rule: in_tbl_updE)
    case (hit x)
    then show ?thesis using d by (simp add: config_due_def)
  next
    case miss
    then show ?thesis using i by (auto simp: config_due_def)
  qed
  then show "i \<notin> config_due_ids t (Store_RetryOutbox now i d s)" if "t < now + d"
    unfolding config_due_ids_def using that by blast
  show "config_due_ids t (snd (Store_MarkOutboxPublished now i s)) \<subseteq> config_due_ids t s - {i}"
    by (auto simp: config_due_ids_def config_due_def elim!: in_tbl_updE)
qed

section \<open>One round of the worker\<close>

definition pending :: "config_outbox_row \<Rightarrow> bool" where
  "pending o' \<longleftrightarrow> co_PublishedAt o' = None \<and> co_ParkedAt o' = None"

text \<open>What becomes of the row of a message.\<close>

definition settle_row :: "outbox_worker \<Rightarrow> (ConfigMessage \<Rightarrow> bool \<times> time) \<Rightarrow> ConfigMessage \<Rightarrow> config_outbox_row \<Rightarrow> config_outbox_row" where
  "settle_row W publish m o' = (let (ok, now) = publish m in
     if ok then o'\<lparr>co_PublishedAt := Some now\<rparr>
     else if ow_maxAttempts W \<le> cg_Attempts m then o'\<lparr>co_ParkedAt := Some now, co_LastErrorKey := ''publish_retry_exhausted''\<rparr>
     else o'\<lparr>co_NextAttemptAt := now + outbox_backoff (cg_Attempts m), co_LastErrorKey := ''publish_failed''\<rparr>)"

lemma settle_row_ID [simp]: "co_ID (settle_row W publish m o') = co_ID o'"
  by (simp add: settle_row_def split: prod.splits)

lemma settle_row_Attempts [simp]: "co_Attempts (settle_row W publish m o') = co_Attempts o'"
  by (simp add: settle_row_def split: prod.splits)

definition settle_rows :: "outbox_worker \<Rightarrow> (ConfigMessage \<Rightarrow> bool \<times> time) \<Rightarrow> ConfigMessage list \<Rightarrow> config_outbox_row \<Rightarrow> config_outbox_row" where
  "settle_rows W publish ms o' = (case find (\<lambda>m. cg_ID m = co_ID o') ms of None \<Rightarrow> o' | Some m \<Rightarrow> settle_row W publish m o')"

lemma c_outbox_upd: "c_outbox_update (tbl_upd p f) db = db\<lparr>c_outbox := tbl_upd p f (c_outbox db)\<rparr>"
  by (cases db) simp

lemma upd_only:
  assumes "distinct (map key rows)" "x \<in> set rows" "P x"
  shows "tbl_upd (\<lambda>r. key r = key x \<and> P r) f rows = map (\<lambda>r. if key r = key x then f r else r) rows"
  unfolding tbl_upd_def by (rule map_cong [OF refl]) (use key_unique [OF assms(1) _ assms(2)] assms(3) in auto)

lemma settle_one:
  assumes "distinct (map co_ID (c_outbox db))" "o' \<in> set (c_outbox db)" "co_ID o' = cg_ID m" "pending o'"
  shows "process_messages W publish (m # ms) db
    = process_messages W publish ms (db\<lparr>c_outbox := map (\<lambda>x. if co_ID x = cg_ID m then settle_row W publish m x else x) (c_outbox db)\<rparr>)"
proof -
  have p: "co_PublishedAt o' = None" "co_ParkedAt o' = None" using assms(4) by (simp_all add: pending_def)
  note mark_only = upd_only [OF assms(1,2), where P = "\<lambda>x. co_PublishedAt x = None", OF p(1), unfolded assms(3)]
  have both: "co_PublishedAt o' = None \<and> co_ParkedAt o' = None" using p by simp
  note both_only = upd_only [OF assms(1,2), where P = "\<lambda>x. co_PublishedAt x = None \<and> co_ParkedAt x = None", OF both, unfolded assms(3)]
  have mark: "Store_MarkOutboxPublished now (cg_ID m) db
      = (Inr (), db\<lparr>c_outbox := map (\<lambda>x. if co_ID x = cg_ID m then x\<lparr>co_PublishedAt := Some now\<rparr> else x) (c_outbox db)\<rparr>)" for now
    using assms(2,3) p(1) by (auto simp: Store_MarkOutboxPublished_def transaction_def tupdate1_def c_outbox_upd mark_only)
  show ?thesis
    by (auto simp: mark settle_row_def Store_ParkOutbox_def Store_RetryOutbox_def both_only cong: if_cong split: prod.splits)
qed

lemma settle_all:
  assumes "distinct (map co_ID (c_outbox db))" "distinct (map cg_ID ms)"
    and "\<forall>m \<in> set ms. \<exists>o' \<in> set (c_outbox db). co_ID o' = cg_ID m \<and> pending o'"
  shows "process_messages W publish ms db = (Inr (), db\<lparr>c_outbox := map (settle_rows W publish ms) (c_outbox db)\<rparr>)"
  using assms
proof (induction ms arbitrary: db)
  case Nil
  then show ?case by (simp add: settle_rows_def)
next
  case (Cons m ms)
  let ?step = "\<lambda>x. if co_ID x = cg_ID m then settle_row W publish m x else x"
  let ?db = "db\<lparr>c_outbox := map ?step (c_outbox db)\<rparr>"
  obtain o' where o': "o' \<in> set (c_outbox db)" "co_ID o' = cg_ID m" "pending o'" using Cons.prems(3) by auto
  have d: "distinct (map co_ID (c_outbox ?db))"
    using Cons.prems(1) by (simp add: comp_def if_distrib cong: if_cong)
  have other: "\<exists>x \<in> set (c_outbox ?db). co_ID x = cg_ID m' \<and> pending x" if "m' \<in> set ms" for m'
  proof -
    have "\<exists>o' \<in> set (c_outbox db). co_ID o' = cg_ID m' \<and> pending o'" using Cons.prems(3) that by simp
    then obtain x where x: "x \<in> set (c_outbox db)" "co_ID x = cg_ID m'" "pending x" by blast
    have "co_ID x \<noteq> cg_ID m" using Cons.prems(2) that x(2) by force
    then show ?thesis using x by (intro bexI [of _ x]) (auto simp: image_iff)
  qed
  have "settle_rows W publish ms (?step x) = settle_rows W publish (m # ms) x" if "x \<in> set (c_outbox db)" for x
  proof (cases "co_ID x = cg_ID m")
    case True
    then have "find (\<lambda>m'. cg_ID m' = co_ID x) ms = None" using Cons.prems(2) by (auto simp: find_None_iff image_iff)
    then show ?thesis using True by (simp add: settle_rows_def)
  qed (auto simp: settle_rows_def)
  then have "map (settle_rows W publish ms) (map ?step (c_outbox db)) = map (settle_rows W publish (m # ms)) (c_outbox db)" by simp
  then show ?case
    unfolding settle_one [OF Cons.prems(1) o'] using Cons.IH [OF d] Cons.prems(2) other by simp
qed

text \<open>A round changes the rows it claims and no others.\<close>

definition leased_row :: "outbox_worker \<Rightarrow> time \<Rightarrow> config_outbox_row \<Rightarrow> config_outbox_row" where
  "leased_row W now o' = o'\<lparr>co_Attempts := co_Attempts o' + 1, co_NextAttemptAt := now + ow_lease W\<rparr>"

definition round_row :: "penv \<Rightarrow> outbox_worker \<Rightarrow> time \<Rightarrow> (ConfigMessage \<Rightarrow> bool \<times> time) \<Rightarrow> config_outbox_row set \<Rightarrow> config_outbox_row \<Rightarrow> config_outbox_row" where
  "round_row E W now publish rows o' = (if o' \<in> rows then settle_row W publish (config_message E o') (leased_row W now o') else o')"

lemma leased_row_simps [simp]:
  "co_ID (leased_row W now o') = co_ID o'" "co_Attempts (leased_row W now o') = co_Attempts o' + 1" "pending (leased_row W now o') = pending o'"
  by (simp_all add: leased_row_def pending_def)

lemma round_row_ID [simp]: "co_ID (round_row E W now publish rows o') = co_ID o'"
  by (simp add: round_row_def)

lemma claimed_rowsD: "o' \<in> set (claimed_rows now n db) \<Longrightarrow> o' \<in> set (c_outbox db) \<and> pending o'"
  by (auto simp: claimed_rows_def pending_def config_due_def dest!: tbl_select_in)

lemma find_message: "find (\<lambda>m. cg_ID m = i) (map (config_message E) rows) = map_option (config_message E) (tbl_get co_ID i rows)"
  by (induction rows) (auto simp: tbl_get_def config_message_def)

lemma process_outbox_rows:
  assumes "distinct (map co_ID (c_outbox db))"
  shows "process_outbox E W now publish db
    = (Inr (), db\<lparr>c_outbox := map (round_row E W now publish (set (claimed_rows now 50 db))) (c_outbox db)\<rparr>)"
proof -
  let ?rows = "claimed_rows now 50 db" and ?ms = "map (config_message E) (claimed_rows now 50 db)"
  let ?db = "db\<lparr>c_outbox := tbl_upd (\<lambda>o'. co_ID o' \<in> co_ID ` set ?rows) (leased_row W now) (c_outbox db)\<rparr>"
  have claim: "Store_ClaimOutbox E now 50 (ow_lease W) db = (?ms, ?db)" by (simp add: Store_ClaimOutbox_def Let_def leased_row_def [abs_def])
  have ids: "map cg_ID ?ms = map co_ID ?rows" by (simp add: config_message_def)
  have dr: "distinct (map co_ID ?rows)" unfolding claimed_rows_def by (rule distinct_tbl_select [OF assms])
  have mem: "co_ID o' \<in> co_ID ` set ?rows \<longleftrightarrow> o' \<in> set ?rows" if "o' \<in> set (c_outbox db)" for o'
  proof
    assume "co_ID o' \<in> co_ID ` set ?rows"
    then obtain x where x: "x \<in> set ?rows" "co_ID x = co_ID o'" by force
    then show "o' \<in> set ?rows" using key_unique [OF assms _ that x(2)] claimed_rowsD [OF x(1)] by simp
  qed simp
  have upd: "c_outbox ?db = map (\<lambda>o'. if o' \<in> set ?rows then leased_row W now o' else o') (c_outbox db)"
    by (simp add: tbl_upd_def mem)
  have dd: "distinct (map co_ID (c_outbox ?db))" using assms unfolding upd by (simp add: comp_def if_distrib cong: if_cong)
  have there: "\<forall>m \<in> set ?ms. \<exists>o' \<in> set (c_outbox ?db). co_ID o' = cg_ID m \<and> pending o'"
  proof
    fix m assume "m \<in> set ?ms"
    then obtain o' where o': "o' \<in> set ?rows" "m = config_message E o'" by auto
    then show "\<exists>o' \<in> set (c_outbox ?db). co_ID o' = cg_ID m \<and> pending o'" unfolding upd using claimed_rowsD [OF o'(1)]
      by (intro bexI [of _ "leased_row W now o'"]) (auto simp: config_message_def image_iff intro!: bexI [of _ o'])
  qed
  have "settle_rows W publish ?ms (if o' \<in> set ?rows then leased_row W now o' else o') = round_row E W now publish (set ?rows) o'"
    if "o' \<in> set (c_outbox db)" for o'
  proof (cases "o' \<in> set ?rows")
    case True
    then show ?thesis using tbl_get_in [OF dr True] by (simp add: settle_rows_def round_row_def find_message)
  next
    case False
    then have "\<forall>r \<in> set ?rows. co_ID r \<noteq> co_ID o'" using mem [OF that] by (metis imageI)
    then have "tbl_get co_ID (co_ID o') ?rows = None" by (simp add: tbl_get_None)
    then show ?thesis using False by (simp add: settle_rows_def round_row_def find_message)
  qed
  then have "map (settle_rows W publish ?ms) (c_outbox ?db) = map (round_row E W now publish (set ?rows)) (c_outbox db)" unfolding upd by simp
  moreover have "distinct (map cg_ID ?ms)" unfolding ids by (rule dr)
  ultimately show ?thesis unfolding process_outbox_def claim using settle_all [OF dd _ there, of W publish] by simp
qed

section \<open>Draining the outbox\<close>

definition queue_ok :: "outbox_worker \<Rightarrow> pdb \<Rightarrow> bool" where
  "queue_ok W db \<longleftrightarrow> distinct (map co_ID (c_outbox db)) \<and>
     (\<forall>o' \<in> set (c_outbox db). pending o' \<longrightarrow> 0 \<le> co_Attempts o' \<and> co_Attempts o' < ow_maxAttempts W)"

definition work :: "outbox_worker \<Rightarrow> config_outbox_row \<Rightarrow> nat" where
  "work W o' = (if pending o' then nat (ow_maxAttempts W - co_Attempts o') else 0)"

definition total_work :: "outbox_worker \<Rightarrow> pdb \<Rightarrow> nat" where
  "total_work W db = sum_list (map (work W) (c_outbox db))"

text \<open>A row that was pending is published, or parked after the last attempt.\<close>

definition settled_from :: "outbox_worker \<Rightarrow> config_outbox_row \<Rightarrow> config_outbox_row \<Rightarrow> bool" where
  "settled_from W o' r \<longleftrightarrow> co_ID r = co_ID o' \<and>
     (if pending o' then co_PublishedAt r \<noteq> None \<or> (co_ParkedAt r \<noteq> None \<and> co_Attempts r = ow_maxAttempts W) else r = o')"

fun worker_rounds :: "penv \<Rightarrow> outbox_worker \<Rightarrow> (time \<times> (ConfigMessage \<Rightarrow> bool \<times> time)) list \<Rightarrow> pdb \<Rightarrow> pdb" where
  "worker_rounds E W [] db = db"
| "worker_rounds E W ((now, publish) # rounds) db = worker_rounds E W rounds (snd (process_outbox E W now publish db))"

text \<open>Every round starts when the delays and leases of the pending messages are over.\<close>

fun patient :: "penv \<Rightarrow> outbox_worker \<Rightarrow> (time \<times> (ConfigMessage \<Rightarrow> bool \<times> time)) list \<Rightarrow> pdb \<Rightarrow> bool" where
  "patient E W [] db \<longleftrightarrow> True"
| "patient E W ((now, publish) # rounds) db \<longleftrightarrow> list_all (\<lambda>o'. pending o' \<longrightarrow> co_NextAttemptAt o' \<le> now) (c_outbox db) \<and>
     patient E W rounds (snd (process_outbox E W now publish db))"

lemma round_row_claimed:
  assumes "pending o'" "co_Attempts o' < ow_maxAttempts W" "o' \<in> rows"
  shows "work W (round_row E W now publish rows o') < work W o'"
    "pending (round_row E W now publish rows o') \<longrightarrow>
       co_Attempts (round_row E W now publish rows o') = co_Attempts o' + 1 \<and> co_Attempts o' + 1 < ow_maxAttempts W"
    "pending (round_row E W now publish rows o') \<or> settled_from W o' (round_row E W now publish rows o')"
  using assms by (auto simp: round_row_def settle_row_def work_def settled_from_def pending_def config_message_def leased_row_def split: prod.splits)

lemma round_row_id: "\<not> pending o' \<Longrightarrow> rows \<subseteq> {r. pending r} \<Longrightarrow> round_row E W now publish rows o' = o'"
  by (auto simp: round_row_def)

lemma sum_list_less:
  fixes f :: "'a \<Rightarrow> nat"
  assumes "\<forall>x \<in> set xs. f (g x) \<le> f x" "x \<in> set xs" "f (g x) < f x"
  shows "sum_list (map f (map g xs)) < sum_list (map f xs)"
  using assms
proof (induction xs)
  case (Cons y ys)
  have le: "sum_list (map f (map g ys)) \<le> sum_list (map f ys)"
    unfolding map_map using Cons.prems(1) by (intro sum_list_mono) simp
  show ?case
  proof (cases "x = y")
    case True
    then show ?thesis using Cons.prems(3) le by simp
  next
    case False
    then show ?thesis using Cons by (simp add: add_le_less_mono)
  qed
qed simp

lemma round_progress:
  assumes "queue_ok W db" and "list_all (\<lambda>o'. pending o' \<longrightarrow> co_NextAttemptAt o' \<le> now) (c_outbox db)"
  obtains rows where "snd (process_outbox E W now publish db) = db\<lparr>c_outbox := map (round_row E W now publish rows) (c_outbox db)\<rparr>"
    and "rows \<subseteq> {r. pending r}"
    and "queue_ok W (snd (process_outbox E W now publish db))"
    and "total_work W db = 0 \<or> total_work W (snd (process_outbox E W now publish db)) < total_work W db"
proof -
  let ?rows = "set (claimed_rows now 50 db)" and ?db = "snd (process_outbox E W now publish db)"
  have d: "distinct (map co_ID (c_outbox db))" using assms(1) by (simp add: queue_ok_def)
  have att: "0 \<le> co_Attempts o' \<and> co_Attempts o' < ow_maxAttempts W" if "o' \<in> set (c_outbox db)" "pending o'" for o'
    using assms(1) that by (simp add: queue_ok_def)
  have db: "?db = db\<lparr>c_outbox := map (round_row E W now publish ?rows) (c_outbox db)\<rparr>"
    unfolding process_outbox_rows [OF d] by simp
  have sub: "?rows \<subseteq> {r. pending r}" using claimed_rowsD by blast
  have ok: "pending (round_row E W now publish ?rows o') \<longrightarrow>
      0 \<le> co_Attempts (round_row E W now publish ?rows o') \<and> co_Attempts (round_row E W now publish ?rows o') < ow_maxAttempts W"
    if "o' \<in> set (c_outbox db)" for o'
  proof (cases "o' \<in> ?rows")
    case True
    then show ?thesis using round_row_claimed(2) [of o' W ?rows E now publish] att [OF that] claimed_rowsD [OF True] by auto
  next
    case False
    then show ?thesis using att [OF that] by (simp add: round_row_def)
  qed
  have le: "work W (round_row E W now publish ?rows o') \<le> work W o'" if "o' \<in> set (c_outbox db)" for o'
    using round_row_claimed(1) [of o' W ?rows E now publish] att [OF that] claimed_rowsD [of o' now 50 db]
    by (cases "o' \<in> ?rows") (auto simp: round_row_def)
  have "total_work W ?db < total_work W db" if some: "total_work W db \<noteq> 0"
  proof -
    obtain o' where o': "o' \<in> set (c_outbox db)" "work W o' \<noteq> 0" using some by (auto simp: total_work_def sum_list_eq_0_iff)
    then have "config_due now o'" using assms(2) by (auto simp: work_def pending_def config_due_def list_all_iff split: if_splits)
    then have "filter (config_due now) (c_outbox db) \<noteq> []" using o'(1) by (auto simp: filter_empty_conv)
    moreover have "length (claimed_rows now 50 db) = min (length (filter (config_due now) (c_outbox db))) 50"
      by (simp add: claimed_rows_def tbl_select_def)
    ultimately have "claimed_rows now 50 db \<noteq> []" by (metis length_0_conv min_def zero_neq_numeral)
    then obtain r where r: "r \<in> ?rows" by (meson list.set_sel(1))
    have less: "work W (round_row E W now publish ?rows r) < work W r"
      using round_row_claimed(1) [OF _ _ r] claimed_rowsD [OF r] att by blast
    show ?thesis unfolding db total_work_def
      using sum_list_less [of "c_outbox db" "work W" "round_row E W now publish ?rows" r] le less claimed_rowsD [OF r] by simp
  qed
  moreover have "queue_ok W ?db" using d ok unfolding db by (auto simp: queue_ok_def comp_def)
  ultimately show ?thesis by (intro that [OF db sub]) blast+
qed

lemma settled_step:
  assumes "settled_from W (round_row E W now publish rows o') r" "rows \<subseteq> {r. pending r}" "pending o' \<longrightarrow> co_Attempts o' < ow_maxAttempts W"
  shows "settled_from W o' r"
proof (cases "o' \<in> rows \<and> pending o'")
  case True
  then show ?thesis
    using assms(1,3) round_row_claimed(3) [of o' W rows E now publish] by (auto simp: settled_from_def split: if_splits)
next
  case False
  then have "round_row E W now publish rows o' = o'" using assms(2) by (auto simp: round_row_def)
  then show ?thesis using assms(1) by simp
qed

lemma drains:
  assumes "queue_ok W db" "patient E W rounds db" "total_work W db \<le> length rounds"
  shows "list_all2 (settled_from W) (c_outbox db) (c_outbox (worker_rounds E W rounds db))"
  using assms
proof (induction rounds arbitrary: db)
  case Nil
  have "settled_from W o' o'" if "o' \<in> set (c_outbox db)" for o'
  proof -
    have "work W o' = 0" using Nil that by (auto simp: total_work_def sum_list_eq_0_iff)
    then have "\<not> pending o'" using Nil.prems(1) that by (force simp: work_def queue_ok_def split: if_splits)
    then show ?thesis by (simp add: settled_from_def)
  qed
  then show ?case by (simp add: list_all2_same)
next
  case (Cons rnd rounds)
  obtain now publish where rnd: "rnd = (now, publish)" by fastforce
  have due: "list_all (\<lambda>o'. pending o' \<longrightarrow> co_NextAttemptAt o' \<le> now) (c_outbox db)" using Cons.prems(2) rnd by simp
  obtain rows where db: "snd (process_outbox E W now publish db) = db\<lparr>c_outbox := map (round_row E W now publish rows) (c_outbox db)\<rparr>"
    and sub: "rows \<subseteq> {r. pending r}" and ok: "queue_ok W (snd (process_outbox E W now publish db))"
    and less: "total_work W db = 0 \<or> total_work W (snd (process_outbox E W now publish db)) < total_work W db"
    using round_progress [OF Cons.prems(1) due] by metis
  have zero: "total_work W (snd (process_outbox E W now publish db)) = 0" if "total_work W db = 0"
  proof -
    have "work W o' = 0" if "o' \<in> set (c_outbox db)" for o'
      using \<open>total_work W db = 0\<close> that by (auto simp: total_work_def sum_list_eq_0_iff)
    then have "\<forall>o' \<in> set (c_outbox db). \<not> pending o'" using Cons.prems(1) by (force simp: work_def queue_ok_def split: if_splits)
    then have "map (round_row E W now publish rows) (c_outbox db) = c_outbox db"
      using round_row_id [OF _ sub] by (intro map_idI) blast
    then show ?thesis using that unfolding db by (simp add: total_work_def)
  qed
  have "total_work W (snd (process_outbox E W now publish db)) \<le> length rounds"
    using less zero Cons.prems(3) by auto
  then have "list_all2 (settled_from W) (map (round_row E W now publish rows) (c_outbox db)) (c_outbox (worker_rounds E W (rnd # rounds) db))"
    using Cons.IH [OF ok] Cons.prems(2) rnd db by simp
  then have "list_all2 (\<lambda>o' r. settled_from W (round_row E W now publish rows o') r) (c_outbox db) (c_outbox (worker_rounds E W (rnd # rounds) db))"
    by (simp add: list_all2_map1)
  then show ?case
    by (rule list.rel_mono_strong) (use settled_step [OF _ sub] Cons.prems(1) in \<open>auto simp: queue_ok_def\<close>)
qed

end
