(* ===== verification/PlatformScenario.thy ===== *)
theory PlatformScenario
  imports PlatformHistory PlatformWorker
begin

text \<open>
  A concrete environment and a short history of the platform service, on which the properties are applied: the email
  settings are written, with a password.
\<close>

primrec unquote_list :: "nat \<Rightarrow> string \<Rightarrow> string list option" where
  "unquote_list 0 t = None"
| "unquote_list (Suc n) t = (if t = [] then Some [] else case unquote t of None \<Rightarrow> None | Some (s, r) \<Rightarrow> map_option (\<lambda>ss. s # ss) (unquote_list n r))"

fun pairs_of :: "string list \<Rightarrow> strmap option" where
  "pairs_of [] = Some []"
| "pairs_of [k] = None"
| "pairs_of (k # v # xs) = map_option (\<lambda>m. (k, v) # m) (pairs_of xs)"

definition sample_marshal :: "string list \<Rightarrow> string" where
  "sample_marshal xs = CHR ''!'' # concat (map quote xs)"

definition sample_unmarshal :: "string \<Rightarrow> string list option" where
  "sample_unmarshal t = (case t of [] \<Rightarrow> None | c # cs \<Rightarrow> unquote_list (Suc (length cs)) cs)"

definition sample_marshal_map :: "strmap \<Rightarrow> string" where
  "sample_marshal_map m = sample_marshal (concat (map (\<lambda>e. [fst e, snd e]) m))"

definition sample_unmarshal_map :: "string \<Rightarrow> strmap option" where
  "sample_unmarshal_map t = (case sample_unmarshal t of None \<Rightarrow> None | Some xs \<Rightarrow> pairs_of xs)"

definition sample_parsers :: parsers where
  "sample_parsers = \<lparr>ps_float = (\<lambda>s. if s = ''NaN'' then Some NaN else map_option (\<lambda>n. Finite (real_of_int n)) (parse_int64 s)),
     ps_uuid = (\<lambda>s. length s = 6), ps_address = (\<lambda>s. CHR ''@'' \<in> set s),
     ps_url = (\<lambda>s. Some \<lparr>url_Scheme = ''https'', url_User = False, url_Host = s, url_Path = [], url_RawQuery = [], url_Fragment = []\<rparr>)\<rparr>"

definition sample_penv :: penv where
  "sample_penv = \<lparr>pe_parsers = sample_parsers, pe_crypto = sample_cenv, pe_draws = (\<lambda>_. sample_envelope_draws), pe_newID = (\<lambda>n. ''msg-0'' @ show_nat n),
     pe_sha256 = (\<lambda>s. s), pe_format = show_int, pe_trace = [], pe_marshal_map = sample_marshal_map, pe_unmarshal_map = sample_unmarshal_map,
     pe_marshal_list = sample_marshal, pe_unmarshal_list = sample_unmarshal,
     pe_marshal_digest = (\<lambda>p s. sample_marshal [sample_marshal_map p, sample_marshal_map s]),
     pe_marshal_request = (\<lambda>n k m. sample_marshal [n, show_int k, sample_marshal_map m]),
     pe_marshal_event = (\<lambda>e. sample_marshal [cv_message_id e, cv_namespace e, show_int (cv_aggregate_version e)]),
     pe_jsonb = (\<lambda>t. if t = [] then None else Some t)\<rparr>"

definition sample_store :: pstore where
  "sample_store = \<lparr>st_environment = ''test'', st_subject = ''platform.config.changed.v1'', st_keyID = ''k1'', st_key = sample_key\<rparr>"

definition sample_values :: strmap where
  "sample_values = [(''enabled'', ''true''), (''from'', ''a@b''), (''frontend_base_url'', ''https://x''), (''host'', ''h''), (''password'', '' pw''), (''username'', ''u'')]"

definition sample_put :: PutConfigurationRequest where
  "sample_put = \<lparr>pq_Namespace = ''email'', pq_ExpectedRevision = 0, pq_IdempotencyKey = ''key-1'', pq_Values = sample_values\<rparr>"

definition first_put :: "(perr + Snapshot) \<times> pdb" where
  "first_put = Store_Put sample_penv sample_store 100 100 (put_request sample_penv 1 sample_put) empty_pdb"

definition first_snapshot :: Snapshot where "first_snapshot = projr (fst first_put)"

definition first_pdb :: pdb where "first_pdb = snd first_put"

lemma sample_crypto: "gcm_correct (pe_crypto sample_penv)" "coder_correct (pe_crypto sample_penv) (st_keyID sample_store)"
  "draws_ok (pe_draws sample_penv n)" "pe_jsonb sample_penv t = (if t = [] then None else Some t)"
  using sample_laws sample_encrypted(1) by (simp_all add: sample_penv_def)

definition sample_snapshot :: "string \<Rightarrow> Snapshot" where
  "sample_snapshot password = \<lparr>sn_Environment = ''test'', sn_Namespace = ''email'', sn_Revision = 1, sn_SchemaVersion = 1,
     sn_Public = [(''enabled'', ''true''), (''from'', ''a@b''), (''frontend_base_url'', ''https://x''), (''host'', ''h''), (''port'', ''587''), (''username'', ''u'')],
     sn_Secrets = [(''password'', password)], sn_UpdatedBy = 1, sn_CreatedAt = 100, sn_UpdatedAt = 100\<rparr>"

lemma first_put_run:
  "case first_put of (Inl _, _) \<Rightarrow> False
   | (Inr s, db) \<Rightarrow> s = sample_snapshot ''pw'' \<and> list_all (\<lambda>r. int (length (cf_SecretEnvelope r)) \<le> maximumContent * 2) (c_revisions db)
      \<and> list_ex (\<lambda>i. id_key i = (''test'', 1, ''email'', ''key-1'') \<and> id_ExpiresAt i = 100 + 24 * hour) (c_idempotency db)
      \<and> get_revision sample_store ''email'' 1 db \<noteq> None"
  by code_simp

lemma first_put_eq: "Store_Put sample_penv sample_store 100 100 (put_request sample_penv 1 sample_put) empty_pdb = (Inr first_snapshot, first_pdb)"
  and first_snapshot_eq: "first_snapshot = sample_snapshot ''pw''"
  and first_envelope: "list_all (\<lambda>r. int (length (cf_SecretEnvelope r)) \<le> maximumContent * 2) (c_revisions first_pdb)"
  and first_key: "list_ex (\<lambda>i. id_key i = (''test'', 1, ''email'', ''key-1'') \<and> id_ExpiresAt i = 100 + 24 * hour) (c_idempotency first_pdb)"
  and first_revision: "get_revision sample_store ''email'' 1 first_pdb \<noteq> None"
proof -
  obtain a db where p: "first_put = (a, db)" by fastforce
  then obtain s where "a = Inr s" using first_put_run by (cases a) (simp_all add: p)
  with p have eq: "first_put = (Inr s, db)" by simp
  have names: "first_snapshot = s" "first_pdb = db" unfolding first_snapshot_def first_pdb_def eq by simp_all
  show "Store_Put sample_penv sample_store 100 100 (put_request sample_penv 1 sample_put) empty_pdb = (Inr first_snapshot, first_pdb)"
    using eq unfolding names by (simp only: first_put_def)
  show "first_snapshot = sample_snapshot ''pw''"
    "list_all (\<lambda>r. int (length (cf_SecretEnvelope r)) \<le> maximumContent * 2) (c_revisions first_pdb)"
    "list_ex (\<lambda>i. id_key i = (''test'', 1, ''email'', ''key-1'') \<and> id_ExpiresAt i = 100 + 24 * hour) (c_idempotency first_pdb)"
    "get_revision sample_store ''email'' 1 first_pdb \<noteq> None"
    using first_put_run unfolding names eq by simp_all
qed

lemma first_put_facts:
  "sn_Public first_snapshot = [(''enabled'', ''true''), (''from'', ''a@b''), (''frontend_base_url'', ''https://x''), (''host'', ''h''), (''port'', ''587''), (''username'', ''u'')]"
  "sn_Secrets first_snapshot = [(''password'', ''pw'')]" "sn_Revision first_snapshot = 1"
  by (simp_all add: first_snapshot_eq sample_snapshot_def)

lemma first_steps: "psteps sample_penv empty_pdb first_pdb"
  by (rule psteps.more [OF psteps.none pstep.put [OF first_put_eq]])

end
