(* ===== verification/PlatformProperties.thy ===== *)
theory PlatformProperties
  imports PlatformScenario
begin

text \<open>
  Properties of the platform service: an update can be read back, a repeated request is answered as the first one,
  the history of a namespace has no gaps, secrets do not show, and the outbox drains.
\<close>

section \<open>Reading an update back\<close>

text \<open>What is documented of the coder and the JSON columns, for the texts at hand.\<close>

definition map_stored :: "penv \<Rightarrow> strmap \<Rightarrow> bool" where
  "map_stored E m \<longleftrightarrow> pe_unmarshal_map E (pe_marshal_map E m) = Some m \<and>
     (case pe_jsonb E (pe_marshal_map E m) of None \<Rightarrow> True | Some t \<Rightarrow> pe_unmarshal_map E t = Some m)"

definition list_stored :: "penv \<Rightarrow> string list \<Rightarrow> bool" where
  "list_stored E xs \<longleftrightarrow> (case pe_jsonb E (pe_marshal_list E xs) of None \<Rightarrow> True | Some t \<Rightarrow> pe_unmarshal_list E t = Some xs)"

definition envelopes_stored :: "penv \<Rightarrow> bool" where
  "envelopes_stored E \<longleftrightarrow> (\<forall>text t. pe_jsonb E text = Some t \<longrightarrow> t \<noteq> [] \<and> ce_decode (pe_crypto E) t = ce_decode (pe_crypto E) text)"

definition crypto_ok :: "penv \<Rightarrow> pstore \<Rightarrow> bool" where
  "crypto_ok E S \<longleftrightarrow> gcm_correct (pe_crypto E) \<and> coder_correct (pe_crypto E) (st_keyID S) \<and> (\<forall>n. draws_ok (pe_draws E n)) \<and> envelopes_stored E"

definition envelopes_fit :: "pdb \<Rightarrow> bool" where
  "envelopes_fit db \<longleftrightarrow> list_all (\<lambda>r. int (length (cf_SecretEnvelope r)) \<le> maximumContent * 2) (c_revisions db)"

lemma decode_written:
  assumes "crypto_ok E S" "map_stored E public" "map_stored E secrets"
    and "pe_jsonb E (pe_marshal_map E public) = Some publicValues"
    and "sealed_column E S n (pr_Namespace q) (sn_Revision previous + 1) secrets envelope"
    and "int (length envelope) \<le> maximumContent * 2"
  shows "decode_row E S ((revision_row S q now previous publicValues envelope)\<lparr>cf_CreatedAt := t\<rparr>)
    = Inr ((record_snapshot (revision_row S q now previous publicValues envelope) public secrets)\<lparr>sn_CreatedAt := t\<rparr>)"
proof -
  have p: "pe_unmarshal_map E publicValues = Some public" using assms(2,4) by (simp add: map_stored_def)
  have s: "decode_secrets E S ((revision_row S q now previous publicValues envelope)\<lparr>cf_CreatedAt := t\<rparr>) = Inr secrets"
  proof (cases "secrets = []")
    case True
    then show ?thesis using assms(5) by (simp add: sealed_column_def decode_secrets_def revision_row_def)
  next
    case False
    then obtain body where enc: "Encrypt (pe_crypto E) (pe_draws E n) (pe_marshal_map E secrets) (st_key S) (st_keyID S)
        (store_binding S (pr_Namespace q) (sn_Revision previous + 1)) = Inr body" and col: "pe_jsonb E body = Some envelope"
      using assms(5) by (auto simp: sealed_column_def)
    have stored: "envelope \<noteq> []" "ce_decode (pe_crypto E) envelope = ce_decode (pe_crypto E) body"
      using assms(1) col by (auto simp: crypto_ok_def envelopes_stored_def)
    have "Decrypt (pe_crypto E) envelope (st_key S) (st_keyID S) (store_binding S (pr_Namespace q) (sn_Revision previous + 1)) = Inr (pe_marshal_map E secrets)"
      using assms(1) by (intro Decrypt_Encrypt [OF _ _ _ enc stored(2,1) assms(6)]) (auto simp: crypto_ok_def)
    then show ?thesis using assms(3) stored(1) by (simp add: decode_secrets_def revision_row_def map_stored_def)
  qed
  show ?thesis unfolding decode_row_def s using p by (simp add: revision_row_def record_snapshot_def)
qed

lemma get_upserted: "\<exists>t. tbl_get cf_key (cf_key r) (upserted r rows) = Some (r\<lparr>cf_CreatedAt := t\<rparr>)"
proof -
  have k: "cf_key (r\<lparr>cf_CreatedAt := t\<rparr>) = cf_key r" for t by (simp add: cf_key_def)
  have upd: "tbl_get cf_key (cf_key r) (tbl_upd (\<lambda>x. cf_key x = cf_key r) (\<lambda>x. r\<lparr>cf_CreatedAt := cf_CreatedAt x\<rparr>) rows)
      = map_option (\<lambda>x. r\<lparr>cf_CreatedAt := cf_CreatedAt x\<rparr>) (tbl_get cf_key (cf_key r) rows)"
    by (induction rows) (auto simp: tbl_simps tbl_upd_def k)
  show ?thesis
  proof (cases "tbl_get cf_key (cf_key r) rows")
    case None
    then have "upserted r rows = rows @ [r]" by (auto simp: upserted_def tbl_get_None)
    then have "tbl_get cf_key (cf_key r) (upserted r rows) = Some (r\<lparr>cf_CreatedAt := cf_CreatedAt r\<rparr>)" using None by (simp add: tbl_simps)
    then show ?thesis by blast
  next
    case (Some x)
    then have "\<exists>x \<in> set rows. cf_key x = cf_key r" by (meson tbl_get_SomeD)
    then show ?thesis using upd Some by (auto simp: upserted_def)
  qed
qed

lemma put_read_back:
  assumes "Store_Put E S now0 now q db = (Inr s, db')" and "prior_request S now0 q db = None"
    and "crypto_ok E S" and "map_stored E (sn_Public s)" and "map_stored E (sn_Secrets s)" and "envelopes_fit db'"
  shows "Store_GetRevision E S (pr_Namespace q) (sn_Revision s) db' = Inr s"
    and "\<exists>t. Store_Get E S (pr_Namespace q) db' = Inr (s\<lparr>sn_CreatedAt := t\<rparr>)"
    and "get_configuration S (pr_Namespace q) db = None \<Longrightarrow> Store_Get E S (pr_Namespace q) db' = Inr s"
proof -
  obtain previous public secrets where w: "write_revision E S q now previous public secrets db = Inr (s, db')"
    using assms(1,2) by (auto simp: Store_Put_def put_body_def tx_simps)
  obtain publicValues envelope auditID changed keys messageID payload headers n r where
    r: "r = revision_row S q now previous publicValues envelope" and s: "s = record_snapshot r public secrets"
    and cols: "pe_jsonb E (pe_marshal_map E public) = Some publicValues"
    "sealed_column E S (c_counter db) (pr_Namespace q) (sn_Revision previous + 1) secrets envelope"
    and new: "\<forall>x \<in> set (c_revisions db). rev_key x \<noteq> rev_key r"
    and db': "db' = written_db E S q r (audit_entry E auditID previous r public secrets changed) keys (outbox_entry S messageID r payload headers) n db"
    by (rule write_revision_effect [OF w])
  have keys: "cf_key r = (st_environment S, pr_Namespace q)" "rev_key r = (st_environment S, pr_Namespace q, sn_Revision s)"
    by (simp_all add: s r record_snapshot_def revision_row_def cf_key_def rev_key_def)
  have fits: "int (length envelope) \<le> maximumContent * 2"
    using assms(6) by (simp add: envelopes_fit_def db' written_db_def r revision_row_def)
  have decode: "decode_row E S (r\<lparr>cf_CreatedAt := t\<rparr>) = Inr (s\<lparr>sn_CreatedAt := t\<rparr>)" for t
    unfolding s r using assms(4,5) by (intro decode_written [OF assms(3) _ _ cols fits]) (simp_all add: s record_snapshot_def)
  then have row: "decode_row E S r = Inr s" using decode [of "cf_CreatedAt r"] by (simp add: s record_snapshot_def)
  have "get_revision S (pr_Namespace q) (sn_Revision s) db' = Some r"
    using new by (auto simp: get_revision_def db' written_db_def tbl_simps keys(2) tbl_get_None split: option.splits dest: tbl_get_SomeD)
  then show "Store_GetRevision E S (pr_Namespace q) (sn_Revision s) db' = Inr s" by (simp add: Store_GetRevision_def row)
  obtain t where "get_configuration S (pr_Namespace q) db' = Some (r\<lparr>cf_CreatedAt := t\<rparr>)"
    using get_upserted [of r "c_configurations db"] by (auto simp: get_configuration_def db' written_db_def keys(1))
  then show "\<exists>t. Store_Get E S (pr_Namespace q) db' = Inr (s\<lparr>sn_CreatedAt := t\<rparr>)" by (auto simp: Store_Get_def decode)
  assume none: "get_configuration S (pr_Namespace q) db = None"
  then have "upserted r (c_configurations db) = c_configurations db @ [r]" by (auto simp: get_configuration_def upserted_def tbl_get_None keys(1))
  then have "get_configuration S (pr_Namespace q) db' = Some r" using none by (simp add: get_configuration_def db' written_db_def tbl_simps keys(1))
  then show "Store_Get E S (pr_Namespace q) db' = Inr s" by (simp add: Store_Get_def row)
qed

lemma put_keeps_revisions:
  assumes "Store_Put E S now0 now q db = (res, db')" "get_revision S' namespace k db \<noteq> None"
  shows "get_revision S' namespace k db' = get_revision S' namespace k db"
  using assms(1)
proof (cases rule: put_cases)
  case (written previous public secrets s)
  obtain r a keys o' n where "db' = written_db E S q r a keys o' n db" by (rule write_revision_effect [OF written(5)])
  then show ?thesis using assms(2) by (auto simp: get_revision_def written_db_def tbl_simps)
qed simp

text \<open>C16: An update that is not a replay carries the expected revision plus one, and reading its revision, or the
  configuration, from the database it leaves gives what the update returned, secrets included: they are decrypted
  from the stored envelope. Revisions written before read as before.
\<close>

theorem put_then_get:
  assumes "Store_Put E S now0 now q db = (Inr s, db')" and "prior_request S now0 q db = None"
    and "crypto_ok E S" and "map_stored E (sn_Public s)" and "map_stored E (sn_Secrets s)" and "envelopes_fit db'"
  shows "sn_Revision s = pr_ExpectedRevision q + 1 \<and> Store_GetRevision E S (pr_Namespace q) (sn_Revision s) db' = Inr s \<and>
    (\<exists>t. Store_Get E S (pr_Namespace q) db' = Inr (s\<lparr>sn_CreatedAt := t\<rparr>)) \<and>
    (\<forall>namespace k. get_revision S namespace k db \<noteq> None \<longrightarrow> Store_GetRevision E S namespace k db' = Store_GetRevision E S namespace k db)"
proof -
  obtain previous public secrets where prev: "previous_snapshot E S q db = Inr (previous, db)"
    and w: "write_revision E S q now previous public secrets db = Inr (s, db')"
    using assms(1,2) by (auto simp: Store_Put_def put_body_def tx_simps)
  obtain publicValues envelope where "s = record_snapshot (revision_row S q now previous publicValues envelope) public secrets"
    by (rule write_revision_effect [OF w]) blast
  then have "sn_Revision s = pr_ExpectedRevision q + 1"
    using previous_revision(2) [OF prev] by (simp add: record_snapshot_def revision_row_def)
  moreover have "Store_GetRevision E S namespace k db' = Store_GetRevision E S namespace k db" if "get_revision S namespace k db \<noteq> None" for namespace k
    using put_keeps_revisions [OF assms(1) that] by (simp add: Store_GetRevision_def)
  ultimately show ?thesis using put_read_back [OF assms] by blast
qed

lemma sample_crypto_ok: "crypto_ok sample_penv sample_store"
  using sample_crypto by (simp add: crypto_ok_def envelopes_stored_def)

lemma sample_stored: "map_stored sample_penv (sn_Public first_snapshot)" "map_stored sample_penv (sn_Secrets first_snapshot)"
  unfolding first_put_facts by code_simp+

lemma first_fresh: "prior_request S now q empty_pdb = None"
  by (simp add: prior_request_def empty_pdb_def)

theorem put_then_get_witness:
  "Store_GetRevision sample_penv sample_store ''email'' 1 first_pdb = Inr first_snapshot \<and> sn_Secrets first_snapshot = [(''password'', ''pw'')]"
proof -
  have "pr_Namespace (put_request sample_penv 1 sample_put) = ''email''" by code_simp
  moreover have "envelopes_fit first_pdb" using first_envelope by (simp add: envelopes_fit_def)
  ultimately show ?thesis
    using put_then_get [OF first_put_eq first_fresh sample_crypto_ok sample_stored] first_put_facts(2,3) by simp
qed

section \<open>Repeating a request\<close>

text \<open>The answer kept for a request agrees with the first answer.\<close>

lemma fold_configured: "fst ` set (fold (\<lambda>k. map_set k v) keys m) = set keys \<union> fst ` set m"
  by (induction keys arbitrary: m) (auto simp: fst_map_set)

lemma replayed_reply:
  assumes "map_stored E public" "list_stored E (map fst secrets)"
    and "pe_jsonb E (pe_marshal_map E public) = Some publicValues" "pe_jsonb E (pe_marshal_list E (map fst secrets)) = Some keys"
    and "r = revision_row S q now previous publicValues envelope"
  shows "\<exists>s. snapshotFromIdempotency E (idempotency_entry q r keys) = Inr s \<and> toConfiguration E s = toConfiguration E (record_snapshot r public secrets)"
proof -
  let ?m = "fold (\<lambda>k. map_set k ''configured'') (map fst secrets) []"
  have p: "pe_unmarshal_map E publicValues = Some public" "pe_unmarshal_list E keys = Some (map fst secrets)"
    using assms(1-4) by (simp_all add: map_stored_def list_stored_def)
  have "has_key ?m k = has_key secrets k" for k by (simp add: has_key_iff fold_configured)
  then show ?thesis using p
    by (simp add: snapshotFromIdempotency_def idempotency_entry_def assms(5) revision_row_def record_snapshot_def toConfiguration_def SchemaVersion_def)
qed

lemma prior_found:
  assumes "history_inv db" "i \<in> set (c_idempotency db)" "id_key i = (st_environment S, pr_ActorID q, pr_Namespace q, pr_IdempotencyKey q)"
  shows "prior_request S now q db = (if now < id_ExpiresAt i then Some i else None)"
proof -
  have only: "x = i" if "x \<in> set (c_idempotency db)" "id_key x = id_key i" for x
    using key_unique [OF history_invD(12) [OF assms(1)]] that assms(2) by blast
  show ?thesis
  proof (cases "now < id_ExpiresAt i")
    case True
    then have "prior_request S now q db \<noteq> None" using assms(2,3) by (auto simp: prior_request_def find_None_iff)
    then obtain x where x: "prior_request S now q db = Some x" by blast
    then have "x = i" using only assms(3) by (auto simp: prior_request_def find_Some_iff)
    then show ?thesis using x True by simp
  next
    case False
    then show ?thesis using only assms(3) by (auto simp: prior_request_def find_None_iff)
  qed
qed

text \<open>A request that wrote a revision and is sent again within twenty-four hours is answered as the first time,
  whatever happened in between, and writes nothing; a different request under the same idempotency key is refused.
\<close>

theorem put_replay:
  assumes "history_inv db" and "Store_Put E S t0 t1 (put_request E actor q) db = (Inr s, db')"
    and "Service_Put E S t0 t1 actor (Some q) db = (Inr reply, db')" and "prior_request S t0 (put_request E actor q) db = None"
    and "map_stored E (sn_Public s)" and "list_stored E (map fst (sn_Secrets s))"
    and "psteps E db' db''" and "t < t1 + 24 * hour"
  shows "Service_Put E S t t' actor (Some q) db'' = (Inr reply, db'') \<and>
    (\<forall>q'. pr_RequestHash q' \<noteq> pr_RequestHash (put_request E actor q) \<and> pr_ActorID q' = actor \<and>
      pr_Namespace q' = trim_space (pq_Namespace q) \<and> pr_IdempotencyKey q' = pq_IdempotencyKey q \<longrightarrow>
      Store_Put E S t t' q' db'' = (Inl perr.ErrConflict, db''))"
proof -
  let ?q = "put_request E actor q"
  obtain previous public secrets where prev: "previous_snapshot E S ?q db = Inr (previous, db)"
    and w: "write_revision E S ?q t1 previous public secrets db = Inr (s, db')"
    using assms(2,4) by (auto simp: Store_Put_def put_body_def tx_simps)
  obtain publicValues envelope auditID changed keys messageID payload headers n r where
    r: "r = revision_row S ?q t1 previous publicValues envelope" and s: "s = record_snapshot r public secrets"
    and cols: "pe_jsonb E (pe_marshal_map E public) = Some publicValues" "pe_jsonb E (pe_marshal_list E (map fst secrets)) = Some keys"
    and db': "db' = written_db E S ?q r (audit_entry E auditID previous r public secrets changed) keys (outbox_entry S messageID r payload headers) n db"
    by (rule write_revision_effect [OF w])
  let ?i = "idempotency_entry ?q r keys"
  have stored: "map_stored E public" "list_stored E (map fst secrets)" using assms(5,6) by (simp_all add: s record_snapshot_def)
  have inv': "history_inv db'" using written_history [OF assms(1) prev w] by blast
  have inv: "history_inv db''" and "set (c_idempotency db') \<subseteq> set (c_idempotency db'')" using psteps_history [OF assms(7) inv'] by blast+
  moreover have "?i \<in> set (c_idempotency db')" by (simp add: db' written_db_def)
  ultimately have i: "?i \<in> set (c_idempotency db'')" by blast
  have key: "id_key ?i = (st_environment S, actor, trim_space (pq_Namespace q), pq_IdempotencyKey q)" "id_RequestHash ?i = pr_RequestHash ?q"
    "id_ExpiresAt ?i = t1 + 24 * hour"
    by (simp_all add: r revision_row_def put_request_def idempotency_entry_def id_key_def Let_def)
  have prior: "prior_request S t q' db'' = Some ?i" if "pr_ActorID q' = actor" "pr_Namespace q' = trim_space (pq_Namespace q)" "pr_IdempotencyKey q' = pq_IdempotencyKey q" for q'
    using prior_found [OF inv i, of S q' t] key that assms(8) by simp
  obtain s' where s': "snapshotFromIdempotency E ?i = Inr s'" "toConfiguration E s' = toConfiguration E s"
    using replayed_reply [OF stored cols r] s by blast
  have "Store_Put E S t t' ?q db'' = (Inr s', db'')"
    using prior [of ?q] s'(1) key(2) by (simp add: Store_Put_def put_body_def put_request_def Let_def tx_simps)
  then have "Service_Put E S t t' actor (Some q) db'' = (Inr reply, db'')"
    using assms(2,3) s'(2) by (auto simp: Service_Put_def split: if_splits sum.splits)
  moreover have "Store_Put E S t t' q' db'' = (Inl perr.ErrConflict, db'')"
    if "pr_RequestHash q' \<noteq> pr_RequestHash ?q" "pr_ActorID q' = actor" "pr_Namespace q' = trim_space (pq_Namespace q)" "pr_IdempotencyKey q' = pq_IdempotencyKey q" for q'
    using prior [OF that(2-4)] that(1) key(2) by (simp add: Store_Put_def put_body_def tx_simps)
  ultimately show ?thesis by blast
qed

lemma first_service_put: "Service_Put sample_penv sample_store 100 100 1 (Some sample_put) empty_pdb = (Inr (toConfiguration sample_penv first_snapshot), first_pdb)"
proof -
  have "\<not> pq_ExpectedRevision sample_put < 0" "validIdempotencyKey (pq_IdempotencyKey sample_put)" "pq_Values sample_put \<noteq> []"
    "\<not> 32 < length (pq_Values sample_put)" "Default_snapshot (trim_space (pq_Namespace sample_put)) = Inr (default_snapshot ''email'' email_defaults)"
    by code_simp+
  then show ?thesis by (simp add: Service_Put_def first_put_eq)
qed

theorem put_replay_witness:
  "Service_Put sample_penv sample_store 200 200 1 (Some sample_put) first_pdb = (Inr (toConfiguration sample_penv first_snapshot), first_pdb)"
proof -
  have "list_stored sample_penv (map fst (sn_Secrets first_snapshot))" unfolding first_put_facts by code_simp
  then show ?thesis
    using put_replay [OF empty_history first_put_eq first_service_put first_fresh sample_stored(1) _ psteps.none, of 200 200] by (simp add: duration_defs)
qed

text \<open>An idempotency key cannot be used again after its twenty-four hours: the expired row stays in the table, so
  every later request of the actor under that key fails on its primary key, whatever the request.
\<close>

theorem expired_key_unusable:
  assumes "history_inv db" and "i \<in> set (c_idempotency db)" and "id_ExpiresAt i \<le> now0"
    and "id_key i = (st_environment S, pr_ActorID q, pr_Namespace q, pr_IdempotencyKey q)"
  shows "\<exists>e. Store_Put E S now0 now q db = (Inl e, db)"
proof -
  have prior: "prior_request S now0 q db = None" using prior_found [OF assms(1,2,4)] assms(3) by simp
  have no: "write_revision E S q now previous public secrets db \<noteq> Inr (s, db')" for previous public secrets s db'
  proof
    assume w: "write_revision E S q now previous public secrets db = Inr (s, db')"
    obtain publicValues envelope keys r where "r = revision_row S q now previous publicValues envelope"
      and "\<forall>x \<in> set (c_idempotency db). id_key x \<noteq> id_key (idempotency_entry q r keys)"
      by (rule write_revision_effect [OF w])
    then show False using assms(2,4) by (simp add: revision_row_def)
  qed
  have "put_body E S now0 now q db \<noteq> Inr z" for z
    using no prior by (cases z) (auto simp: put_body_def tx_simps)
  then obtain e where "put_body E S now0 now q db = Inl e" by (cases "put_body E S now0 now q db") blast+
  then show ?thesis by (simp add: Store_Put_def transaction_def)
qed

lemma first_inv: "history_inv first_pdb"
  using psteps_history [OF first_steps empty_history] by blast

theorem expired_key_unusable_witness:
  "\<exists>e. Store_Put sample_penv sample_store (100 + 24 * hour) (100 + 24 * hour) ((put_request sample_penv 1 sample_put)\<lparr>pr_ExpectedRevision := 1\<rparr>) first_pdb = (Inl e, first_pdb)"
proof -
  obtain i where "i \<in> set (c_idempotency first_pdb)" "id_key i = (''test'', 1, ''email'', ''key-1'')" "id_ExpiresAt i = 100 + 24 * hour"
    using first_key unfolding list_ex_iff by blast
  moreover have "(st_environment sample_store, pr_ActorID ((put_request sample_penv 1 sample_put)\<lparr>pr_ExpectedRevision := 1\<rparr>),
      pr_Namespace ((put_request sample_penv 1 sample_put)\<lparr>pr_ExpectedRevision := 1\<rparr>),
      pr_IdempotencyKey ((put_request sample_penv 1 sample_put)\<lparr>pr_ExpectedRevision := 1\<rparr>)) = (''test'', 1, ''email'', ''key-1'')" by code_simp
  ultimately show ?thesis by (intro expired_key_unusable [OF first_inv]) simp_all
qed

section \<open>The history of a namespace\<close>

definition announcements :: "pstore \<Rightarrow> string \<Rightarrow> int \<Rightarrow> pdb \<Rightarrow> nat \<times> nat" where
  "announcements S namespace k db = (length (filter (\<lambda>o'. co_key o' = (st_environment S, namespace, k)) (c_outbox db)),
     length (filter (\<lambda>a. au_key a = (st_environment S, namespace, k)) (c_audit db)))"

lemma filter_key_once:
  assumes "distinct (map key xs)"
  shows "length (filter (\<lambda>x. key x = k) xs) = (if k \<in> key ` set xs then 1 else 0)"
  using assms by (induction xs) (auto simp: filter_empty_conv)

lemma get_revision_iff: "get_revision S namespace k db \<noteq> None \<longleftrightarrow> (st_environment S, namespace, k) \<in> rev_key ` set (c_revisions db)"
  by (simp add: get_revision_def tbl_get_None) (metis imageE imageI)

text \<open>C15: Whatever updates, reports and worker rounds happened, the revisions of a namespace are those from one to the
  current one, each was written to the outbox and to the audit log exactly once, nothing was for any other revision,
  and a revision never changes afterwards.
\<close>

theorem revision_history:
  assumes "psteps E empty_pdb db" and "psteps E db db'"
  shows "(get_revision S namespace k db \<noteq> None \<longleftrightarrow>
      (case get_configuration S namespace db of None \<Rightarrow> False | Some c \<Rightarrow> 1 \<le> k \<and> k \<le> cf_Revision c)) \<and>
    announcements S namespace k db = (if get_revision S namespace k db = None then (0, 0) else (1, 1)) \<and>
    (get_revision S namespace k db = None \<or> get_revision S namespace k db' = get_revision S namespace k db)"
proof -
  have inv: "history_inv db" using psteps_history [OF assms(1) empty_history] by blast
  have inv': "history_inv db'" and sub: "set (c_revisions db) \<subseteq> set (c_revisions db')" using psteps_history [OF assms(2) inv] by blast+
  note i = history_invD [OF inv]
  have 1: "get_revision S namespace k db \<noteq> None \<longleftrightarrow> (case get_configuration S namespace db of None \<Rightarrow> False | Some c \<Rightarrow> 1 \<le> k \<and> k \<le> cf_Revision c)"
  proof (cases "get_configuration S namespace db")
    case None
    then have "(st_environment S, namespace) \<notin> cf_key ` set (c_configurations db)" by (auto simp: get_configuration_def tbl_get_None)
    then have "(st_environment S, namespace, k) \<notin> rev_key ` set (c_revisions db)" using i(9) by (force simp: rev_key_def cf_key_def)
    then show ?thesis using None get_revision_iff by simp
  next
    case (Some c)
    then have c: "c \<in> set (c_configurations db)" "cf_key c = (st_environment S, namespace)" by (auto simp: get_configuration_def dest: tbl_get_SomeD)
    then show ?thesis using i(7) [OF c(1), of k] Some get_revision_iff by (simp add: cf_key_def)
  qed
  have 2: "announcements S namespace k db = (if get_revision S namespace k db = None then (0, 0) else (1, 1))"
    unfolding announcements_def filter_key_once [OF i(4)] filter_key_once [OF i(3)] i(10,11) using get_revision_iff [of S namespace k db] by simp
  have 3: "get_revision S namespace k db' = Some r" if "get_revision S namespace k db = Some r" for r
  proof -
    have r: "r \<in> set (c_revisions db')" "rev_key r = (st_environment S, namespace, k)"
      using that sub by (auto simp: get_revision_def dest: tbl_get_SomeD)
    show ?thesis unfolding get_revision_def r(2) [symmetric] by (rule tbl_get_in [OF history_invD(2) [OF inv'] r(1)])
  qed
  show ?thesis using 1 2 3 by (cases "get_revision S namespace k db") simp_all
qed

theorem revision_history_witness: "announcements sample_store ''email'' 1 first_pdb = (1, 1)"
  using revision_history [OF first_steps psteps.none, of sample_store "''email''" 1] first_revision by simp

section \<open>Secrets and access\<close>

text \<open>C19: What an administrator is shown does not depend on the values of secrets: two configurations that differ in
  nothing but those values give the same reply.
\<close>

theorem secrets_redacted:
  assumes "Store_Get E S (trim_space namespace) db = Inr s"
    and "Store_Get E S (trim_space namespace) db' = Inr (s\<lparr>sn_Secrets := m\<rparr>)" and "map fst m = map fst (sn_Secrets s)"
  shows "Service_Get E S namespace db = Service_Get E S namespace db'"
proof -
  have "has_key m k = has_key (sn_Secrets s) k" for k unfolding has_key_iff using assms(3) by (metis set_map)
  then have "toConfiguration E (s\<lparr>sn_Secrets := m\<rparr>) = toConfiguration E s" by (simp add: toConfiguration_def)
  then show ?thesis unfolding Service_Get_def assms(1,2) by (cases "Default_snapshot (trim_space namespace)") simp_all
qed

definition other_put :: "(perr + Snapshot) \<times> pdb" where
  "other_put = Store_Put sample_penv sample_store 100 100
     (put_request sample_penv 1 (sample_put\<lparr>pq_Values := map_set ''password'' ''other'' sample_values\<rparr>)) empty_pdb"

lemma other_put_run:
  "case other_put of (Inl _, _) \<Rightarrow> False
   | (Inr s, db) \<Rightarrow> s = sample_snapshot ''other'' \<and> list_all (\<lambda>r. int (length (cf_SecretEnvelope r)) \<le> maximumContent * 2) (c_revisions db)"
  by code_simp

lemma first_read: "Store_Get sample_penv sample_store ''email'' first_pdb = Inr first_snapshot"
proof -
  have "pr_Namespace (put_request sample_penv 1 sample_put) = ''email''" "get_configuration sample_store ''email'' empty_pdb = None" by code_simp+
  moreover have "envelopes_fit first_pdb" using first_envelope by (simp add: envelopes_fit_def)
  ultimately show ?thesis
    using put_read_back(3) [OF first_put_eq first_fresh sample_crypto_ok sample_stored] by simp
qed

theorem secrets_redacted_witness:
  "Service_Get sample_penv sample_store ''email'' first_pdb = Service_Get sample_penv sample_store ''email'' (snd other_put)"
proof -
  obtain a db where p: "other_put = (a, db)" by fastforce
  let ?s = "first_snapshot\<lparr>sn_Secrets := [(''password'', ''other'')]\<rparr>"
  have a: "a = Inr ?s" using other_put_run by (cases a) (simp_all add: p first_snapshot_eq sample_snapshot_def)
  have n: "pr_Namespace (put_request sample_penv 1 (sample_put\<lparr>pq_Values := map_set ''password'' ''other'' sample_values\<rparr>)) = ''email''"
    "get_configuration sample_store ''email'' empty_pdb = None" "map_stored sample_penv (sn_Secrets ?s)" "trim_space ''email'' = ''email''" by code_simp+
  have "envelopes_fit db" using other_put_run by (cases a) (simp_all add: p envelopes_fit_def)
  moreover have "map_stored sample_penv (sn_Public ?s)" using sample_stored(1) by simp
  ultimately have "Store_Get sample_penv sample_store ''email'' db = Inr ?s"
    using put_read_back(3) [OF p [unfolded other_put_def a] first_fresh sample_crypto_ok _ n(3)] n(1,2) by simp
  then show ?thesis unfolding p snd_conv
    using secrets_redacted [of sample_penv sample_store "''email''" first_pdb first_snapshot db] first_read n(4) first_put_facts(2) by simp
qed

text \<open>Only an administrator changes a configuration or reads one through the administrative calls: a call whose
  token does not verify, or verifies for another role, is refused and changes nothing. What is written carries the
  number of the administrator.
\<close>

theorem configuration_needs_admin:
  assumes "PutConfiguration E J S now0 now token request db = (r, db')"
  shows "(\<exists>p q. Verify J now0 (trim_space token) = Inr p \<and> pr_Role p = ''admin'' \<and> 0 < pr_UserID p \<and> request = Some q \<and>
      set (c_revisions db') \<subseteq> set (c_revisions db) \<union> {x. cf_UpdatedBy x = pr_UserID p}) \<or>
    (db' = db \<and> r \<in> Inl ` {InvalidInput, Unauthenticated, Forbidden} \<and> GetConfiguration E J S now0 token (map_option pq_Namespace request) db \<in> range Inl)"
proof (cases "handler_admin J now0 token (request \<noteq> None)")
  case (Inl e)
  then have "e \<in> {InvalidInput, Unauthenticated, Forbidden}" by (auto simp: handler_admin_def Let_def split: if_splits sum.splits)
  then show ?thesis using assms Inl by (auto simp: PutConfiguration_def GetConfiguration_def)
next
  case (Inr actor)
  then obtain p q where p: "Verify J now0 (trim_space token) = Inr p" "pr_Role p = ''admin''" "0 < pr_UserID p" "actor = pr_UserID p" "request = Some q"
    by (auto simp: handler_admin_def Let_def split: if_splits sum.splits)
  obtain res where res: "Service_Put E S now0 now actor request db = (res, db')"
    using assms Inr by (auto simp: PutConfiguration_def split: prod.splits)
  have "set (c_revisions db') \<subseteq> set (c_revisions db) \<union> {x. cf_UpdatedBy x = actor}"
  proof (cases "db' = db")
    case False
    then obtain res' where put: "Store_Put E S now0 now (put_request E actor q) db = (res', db')"
      using res p(5) by (auto simp: Service_Put_def split: if_splits sum.splits prod.splits)
    then show ?thesis
    proof (cases rule: put_cases)
      case (written previous public secrets s)
      obtain publicValues envelope r a keys o' n where "r = revision_row S (put_request E actor q) now previous publicValues envelope"
        and "db' = written_db E S (put_request E actor q) r a keys o' n db" by (rule write_revision_effect [OF written(5)])
      then show ?thesis by (auto simp: written_db_def revision_row_def put_request_def Let_def)
    qed simp
  qed simp
  then show ?thesis using p by blast
qed

definition sample_jwt :: jwtenv where
  "sample_jwt = \<lparr>jw_numeric_date = (\<lambda>t. t), jw_sign = (\<lambda>_. Inl []), jw_parse = (\<lambda>now v. if v = ''admin'' then
     Some \<lparr>cl_Role = ''admin'', cl_SubjectType = ''user'', cl_TokenVersion = 1, cl_SessionID = ''s'', cl_Issuer = IssuerName, cl_Subject = ''1'',
       cl_Audience = [AudienceName], cl_ExpiresAt = Some 900, cl_NotBefore = Some 0, cl_IssuedAt = Some 0, cl_ID = ''t''\<rparr> else None)\<rparr>"

theorem configuration_needs_admin_witness:
  "\<exists>p q. Verify sample_jwt 100 (trim_space ''admin'') = Inr p \<and> pr_Role p = ''admin'' \<and> 0 < pr_UserID p \<and> Some sample_put = Some q \<and>
      set (c_revisions first_pdb) \<subseteq> set (c_revisions empty_pdb) \<union> {x. cf_UpdatedBy x = pr_UserID p}"
proof -
  have "handler_admin sample_jwt 100 ''admin'' True = Inr 1" by code_simp
  then have "PutConfiguration sample_penv sample_jwt sample_store 100 100 ''admin'' (Some sample_put) empty_pdb
      = (Inr (toConfiguration sample_penv first_snapshot), first_pdb)"
    by (simp add: PutConfiguration_def first_service_put map_result_def)
  from configuration_needs_admin [OF this] show ?thesis by auto
qed

section \<open>The outbox worker\<close>

lemma total_work_bound:
  assumes "queue_ok W db"
  shows "int (total_work W db) \<le> ow_maxAttempts W * int (length (filter pending (c_outbox db)))"
proof -
  have "int (sum_list (map (work W) rows)) \<le> ow_maxAttempts W * int (length (filter pending rows))"
    if "\<forall>o' \<in> set rows. pending o' \<longrightarrow> 0 \<le> co_Attempts o' \<and> co_Attempts o' < ow_maxAttempts W" for rows
    using that by (induction rows) (auto simp: work_def algebra_simps)
  then show ?thesis using assms by (simp add: queue_ok_def total_work_def)
qed

text \<open>C17: The outbox drains: with \<open>n\<close> pending messages and \<open>m\<close> attempts each, after \<open>n * m\<close> rounds that each start when
  the delays are over, every message has been published or was parked on its last attempt, whatever the broker
  answered; rows settled before are as they were.
\<close>

theorem outbox_drains:
  assumes "queue_ok W db" and "patient E W rounds db"
    and "ow_maxAttempts W * int (length (filter pending (c_outbox db))) \<le> int (length rounds)"
  shows "list_all2 (settled_from W) (c_outbox db) (c_outbox (worker_rounds E W rounds db))"
  using drains [OF assms(1,2)] total_work_bound [OF assms(1)] assms(3) by linarith

definition drain_pdb :: pdb where
  "drain_pdb = (let r = \<lparr>cf_Environment = ''test'', cf_Namespace = ''site'', cf_Revision = 1, cf_SchemaVersion = 1, cf_PublicValues = ''!'',
       cf_SecretEnvelope = [], cf_UpdatedBy = 1, cf_CreatedAt = 5, cf_UpdatedAt = 5\<rparr> in
     empty_pdb\<lparr>c_outbox := [outbox_entry sample_store ''a'' r ''!'' ''!'', outbox_entry sample_store ''b'' (r\<lparr>cf_Revision := 2\<rparr>) ''!'' ''!'']\<rparr>)"

definition drain_worker :: outbox_worker where "drain_worker = \<lparr>ow_lease = 30 * second, ow_maxAttempts = 2\<rparr>"

definition drain_rounds :: "(time \<times> (ConfigMessage \<Rightarrow> bool \<times> time)) list" where
  "drain_rounds = [(10, \<lambda>m. (False, 10)), (hour, \<lambda>m. (cg_ID m = ''b'', hour)), (2 * hour, \<lambda>m. (False, 0)), (3 * hour, \<lambda>m. (False, 0))]"

theorem outbox_drains_witness:
  "list_all2 (settled_from drain_worker) (c_outbox drain_pdb) (c_outbox (worker_rounds sample_penv drain_worker drain_rounds drain_pdb)) \<and>
   map (\<lambda>o'. (co_ParkedAt o', co_PublishedAt o')) (c_outbox (worker_rounds sample_penv drain_worker drain_rounds drain_pdb)) = [(Some hour, None), (None, Some hour)]"
proof
  show "list_all2 (settled_from drain_worker) (c_outbox drain_pdb) (c_outbox (worker_rounds sample_penv drain_worker drain_rounds drain_pdb))"
    by (rule outbox_drains) code_simp+
qed code_simp

end
