(* ===== verification/PlatformDeliveries.thy ===== *)
theory PlatformDeliveries
  imports PlatformScenario
begin

text \<open>
  Reports of consumers about a revision: once a consumer has reported that it applied, rejected or parked a revision,
  that status stays, as long as reports do not overlap; two overlapping reports can replace it. Also here: a focal
  point that is not a number passes the validation.
\<close>

section \<open>Reports one after the other\<close>

definition terminal :: "string \<Rightarrow> bool" where
  "terminal status \<longleftrightarrow> status = ''applied'' \<or> status = ''rejected'' \<or> status = ''parked''"

definition delivery_status :: "string \<times> string \<times> int \<times> string \<Rightarrow> pdb \<Rightarrow> string" where
  "delivery_status k db = (case tbl_get dl_key k (c_deliveries db) of None \<Rightarrow> [] | Some d \<Rightarrow> dl_Status d)"

fun run_reports :: "penv \<Rightarrow> (pstore \<times> time \<times> DeliveryUpdate) list \<Rightarrow> pdb \<Rightarrow> pdb" where
  "run_reports E [] db = db"
| "run_reports E ((S, now, u) # us) db = run_reports E us (snd (Store_ReportDelivery E S now u db))"

definition update_key :: "pstore \<Rightarrow> DeliveryUpdate \<Rightarrow> string \<times> string \<times> int \<times> string" where
  "update_key S u = (st_environment S, du_Namespace u, du_Revision u, du_Consumer u)"

lemma report_read_row:
  assumes "report_read E S now u db = Inr (Some d)"
  shows "dl_key d = update_key S u" "dl_Status d = du_Status u"
    "acceptDeliveryUpdate (delivery_status (update_key S u) db) (du_Status u)"
proof -
  let ?c = "case get_delivery S u db of None \<Rightarrow> new_delivery S u | Some d \<Rightarrow> d"
  have d: "d = ?c\<lparr>dl_MessageID := du_MessageID u, dl_Status := du_Status u, dl_Attempts := du_Attempts u, dl_LastErrorKey := du_LastErrorKey u,
      dl_UpdatedAt := now, dl_AppliedAt := (if du_Status u = ''applied'' then Some now else dl_AppliedAt ?c)\<rparr>"
    and acc: "acceptDeliveryUpdate (dl_Status ?c) (du_Status u)"
    using assms by (auto simp: report_read_def Let_def split: if_splits)
  have "dl_key ?c = update_key S u"
    by (auto simp: get_delivery_def update_key_def new_delivery_def dl_key_def split: option.splits dest: tbl_get_SomeD(2))
  then show "dl_key d = update_key S u" "dl_Status d = du_Status u" unfolding d by (simp_all add: dl_key_def)
  have "dl_Status ?c = delivery_status (update_key S u) db"
    by (simp add: get_delivery_def update_key_def delivery_status_def new_delivery_def split: option.splits)
  then show "acceptDeliveryUpdate (delivery_status (update_key S u) db) (du_Status u)" using acc by simp
qed

lemma report_write_status:
  assumes "report_write (Some d) db = Inr (v, db')"
  shows "delivery_status k db' = (if k = dl_key d then dl_Status d else delivery_status k db)"
  using assms by (auto simp: report_write_def delivery_status_def tbl_get_save split: if_splits)

lemma report_status:
  assumes "Store_ReportDelivery E S now u db = (r, db')"
  shows "delivery_status k db' = delivery_status k db \<or>
    (k = update_key S u \<and> acceptDeliveryUpdate (delivery_status k db) (du_Status u) \<and> delivery_status k db' = du_Status u)"
proof (cases "report_read E S now u db")
  case (Inl e)
  then show ?thesis using assms by (simp add: Store_ReportDelivery_def)
next
  case (Inr saved)
  then have t: "transaction (report_write saved) db = (r, db')" using assms by (simp add: Store_ReportDelivery_def)
  show ?thesis
  proof (cases saved)
    case None
    then show ?thesis using t by (simp add: report_write_def transaction_def)
  next
    case (Some d)
    have "db' = db \<or> (\<exists>v. report_write (Some d) db = Inr (v, db'))" using transaction_atomic [OF t] Some by auto
    then show ?thesis using report_write_status [of d db _ db' k] report_read_row [OF Inr [unfolded Some]] by (cases "k = update_key S u") auto
  qed
qed

text \<open>A revision that a consumer reported as applied, rejected or parked keeps that status through any sequence of
  further reports, of this consumer or others.
\<close>

theorem terminal_delivery_sticks:
  assumes "terminal (delivery_status k db)"
  shows "delivery_status k (run_reports E reports db) = delivery_status k db"
  using assms
proof (induction reports arbitrary: db)
  case (Cons a reports)
  obtain S now u where a: "a = (S, now, u)" by (cases a)
  obtain r db' where step: "Store_ReportDelivery E S now u db = (r, db')" by fastforce
  have "delivery_status k db' = delivery_status k db"
    using report_status [OF step, of k] Cons.prems by (auto simp: acceptDeliveryUpdate_def terminal_def)
  then show ?case using Cons.IH [of db'] Cons.prems step a by simp
qed simp

definition sample_update :: "string \<Rightarrow> DeliveryUpdate" where
  "sample_update status = \<lparr>du_MessageID = ''msg-01'', du_Namespace = ''site'', du_Revision = 1, du_Consumer = ''identity.email'', du_Status = status,
     du_Attempts = 1, du_LastErrorKey = []\<rparr>"

definition revision_pdb :: pdb where
  "revision_pdb = empty_pdb\<lparr>c_revisions := [\<lparr>cf_Environment = ''test'', cf_Namespace = ''site'', cf_Revision = 1, cf_SchemaVersion = 1, cf_PublicValues = ''!'',
     cf_SecretEnvelope = [], cf_UpdatedBy = 1, cf_CreatedAt = 5, cf_UpdatedAt = 5\<rparr>]\<rparr>"

theorem terminal_delivery_sticks_witness:
  "delivery_status (''test'', ''site'', 1, ''identity.email'') (run_reports sample_penv [(sample_store, 20, sample_update ''retrying'')]
     (run_reports sample_penv [(sample_store, 10, sample_update ''applied'')] revision_pdb)) = ''applied''"
proof -
  have applied: "delivery_status (''test'', ''site'', 1, ''identity.email'') (run_reports sample_penv [(sample_store, 10, sample_update ''applied'')] revision_pdb) = ''applied''"
    by code_simp
  then have "terminal (delivery_status (''test'', ''site'', 1, ''identity.email'') (run_reports sample_penv [(sample_store, 10, sample_update ''applied'')] revision_pdb))"
    unfolding applied terminal_def by simp
  from terminal_delivery_sticks [OF this] applied show ?thesis by (rule trans)
qed

section \<open>Overlapping reports\<close>

text \<open>
  The operation is not a transaction: when two reports read the row before either saves it, the second one to save
  wins, also over a status that should stay.
\<close>

lemma overlapping_reports:
  assumes "report_read E S now u db = Inr (Some d)" "report_read E S' now' u' db = Inr (Some d')" "update_key S u = update_key S' u'"
    and "report_write (Some d) db = Inr (v, db1)" "report_write (Some d') db1 = Inr (v', db2)"
  shows "delivery_status (update_key S u) db1 = du_Status u" "delivery_status (update_key S u) db2 = du_Status u'"
  using report_write_status [OF assms(4)] report_write_status [OF assms(5)] report_read_row [OF assms(1)] report_read_row [OF assms(2)] assms(3)
  by simp_all

section \<open>Focal points\<close>

text \<open>
  \<open>strconv.ParseFloat\<close> reads \<open>NaN\<close>, which is neither below zero nor above a hundred: the update is accepted.
\<close>

lemma focal_point_not_a_number:
  assumes "ps_float P ''NaN'' = Some NaN" "ps_float P ''50'' = Some (Finite 50)"
  shows "Validate_values P ''site'' [(''hero_focal_x'', ''NaN'')] [] = Inr (map_set ''hero_focal_x'' ''NaN'' site_defaults, [])"
proof -
  have v: "trim_space ''NaN'' = ''NaN''" "length_ok (map_value (map_set ''hero_focal_x'' ''NaN'' site_defaults) ''title'') 1 120"
    "length_ok (map_value (map_set ''hero_focal_x'' ''NaN'' site_defaults) ''tagline_zh'') 1 300"
    "length_ok (map_value (map_set ''hero_focal_x'' ''NaN'' site_defaults) ''tagline_en'') 1 300"
    "length_ok (map_value (map_set ''hero_focal_x'' ''NaN'' site_defaults) ''hero_image_url'') 1 2048"
    "map_value (map_set ''hero_focal_x'' ''NaN'' site_defaults) ''hero_attachment_id'' = []"
    "map_value (map_set ''hero_focal_x'' ''NaN'' site_defaults) ''hero_focal_x'' = ''NaN''"
    "map_value (map_set ''hero_focal_x'' ''NaN'' site_defaults) ''hero_focal_y'' = ''50''" "has_key site_defaults ''hero_focal_x''"
    by code_simp+
  have "site_ok P (map_set ''hero_focal_x'' ''NaN'' site_defaults)"
    using v assms by (simp add: site_ok_def focal_ok_def float_less_def float_greater_def)
  then show ?thesis using v(1,9) by (simp add: Validate_values_def Default_snapshot_def default_snapshot_def validateNamespace_def)
qed

end
