(* ===== verification/KnowledgeLogic.thy ===== *)
theory KnowledgeLogic
  imports IdentityDomain PublicationInvariant
begin

text \<open>
  The use cases of the knowledge service: \<open>services/knowledge/internal/logic/common.go\<close>, \<open>documents.go\<close>, \<open>members.go\<close> and
  \<open>collaboration.go\<close>, with the identity directory of \<open>client/directory.go\<close>. A use case validates and normalises its input,
  fingerprints the request for idempotent replay, makes one repository call and translates the error. What the identity
  service answers, the identifier \<open>domain.NewID\<close> draws and what the JSON codec makes of a cursor or a
  document are arguments.
\<close>

section \<open>Errors\<close>

datatype apperr =
    InvalidInput | NotFound | Conflict | Forbidden | Unauthenticated | Unavailable | Precondition | Gone | QuotaExceeded | Internal

datatype direrr = ErrDirectoryNotFound | ErrDirectoryUnauthorized | ErrDirectoryUnavailable

text \<open>The errors a use case meets: joined validation errors, a repository error, a directory error.\<close>

datatype lerr = Invalid "validation_error list" | Repository kerr | Directory direrr

fun map_repository_error :: "kerr \<Rightarrow> apperr" where
  "map_repository_error (ErrInvalid _) = InvalidInput"
| "map_repository_error ErrNotFound = NotFound"
| "map_repository_error ErrGone = Gone"
| "map_repository_error ErrForbidden = Forbidden"
| "map_repository_error ErrPrecondition = Precondition"
| "map_repository_error ErrQuotaExceeded = QuotaExceeded"
| "map_repository_error ErrConflict = Conflict"
| "map_repository_error (ErrOther _) = Internal"

fun mapError :: "lerr \<Rightarrow> apperr" where
  "mapError (Invalid _) = InvalidInput"
| "mapError (Repository e) = map_repository_error e"
| "mapError (Directory ErrDirectoryNotFound) = NotFound"
| "mapError (Directory ErrDirectoryUnauthorized) = Unauthenticated"
| "mapError (Directory ErrDirectoryUnavailable) = Unavailable"

section \<open>The identity directory\<close>

text \<open>What a call of the identity service yields: a reply, which may be nil, a business status, or another error.\<close>

datatype 'a rpc_outcome = Reply "'a option" | BizStatus int | CallFailure

definition mapDirectoryError :: "int option \<Rightarrow> direrr" where
  "mapDirectoryError code = (case code of None \<Rightarrow> ErrDirectoryUnavailable
     | Some c \<Rightarrow> if c = 20006 then ErrDirectoryNotFound else if c = 20007 \<or> c = 20008 then ErrDirectoryUnauthorized else ErrDirectoryUnavailable)"

definition directory_user :: "PublicUser rpc_outcome \<Rightarrow> direrr + PublicUser" where
  "directory_user outcome = (case outcome of
     CallFailure \<Rightarrow> Inl (mapDirectoryError None)
   | BizStatus c \<Rightarrow> Inl (mapDirectoryError (Some c))
   | Reply None \<Rightarrow> Inl ErrDirectoryUnavailable
   | Reply (Some u) \<Rightarrow> if pu_ID u \<le> 0 \<or> pu_Username u = [] then Inl ErrDirectoryUnavailable else Inr u)"

text \<open>The surroundings of one request.\<close>

record lenv =
  le_store :: kenv
  le_now :: time
  le_newID :: string
  le_current :: "PublicUser rpc_outcome"
  le_resolve :: "string \<Rightarrow> PublicUser rpc_outcome"
  le_cursor_out :: "int \<times> time \<times> string \<Rightarrow> string"
  le_cursor_in :: "string \<Rightarrow> (int \<times> time \<times> string) option"
  le_json_valid :: "string \<Rightarrow> bool"
  le_json_document :: "string \<Rightarrow> RichTextDocument option"

abbreviation le_uuid :: "lenv \<Rightarrow> string \<Rightarrow> nat option" where
  "le_uuid L \<equiv> re_uuid_version (ke_richtext (le_store L))"

definition CurrentUser :: "lenv \<Rightarrow> lerr + PublicUser" where
  "CurrentUser L = (case directory_user (le_current L) of Inl e \<Rightarrow> Inl (Directory e) | Inr u \<Rightarrow> Inr u)"

definition ResolveUser :: "lenv \<Rightarrow> string \<Rightarrow> lerr + PublicUser" where
  "ResolveUser L username = (case directory_user (le_resolve L username) of Inl e \<Rightarrow> Inl (Directory e) | Inr u \<Rightarrow> Inr u)"

section \<open>Sequencing\<close>

type_synonym 'a use_case = "kdb \<Rightarrow> (apperr + 'a) \<times> kdb"

definition sbind :: "'e + 'a \<Rightarrow> ('a \<Rightarrow> 'e + 'b) \<Rightarrow> 'e + 'b" where
  "sbind r f = (case r of Inl e \<Rightarrow> Inl e | Inr a \<Rightarrow> f a)"

definition lcheck :: "lerr + 'a \<Rightarrow> ('a \<Rightarrow> 'b use_case) \<Rightarrow> 'b use_case" where
  "lcheck r f db = (case r of Inl e \<Rightarrow> (Inl (mapError e), db) | Inr a \<Rightarrow> f a db)"

definition lcall :: "(kdb \<Rightarrow> (kerr + 'a) \<times> kdb) \<Rightarrow> 'a use_case" where
  "lcall f db = (case f db of (Inl e, db') \<Rightarrow> (Inl (mapError (Repository e)), db') | (Inr a, db') \<Rightarrow> (Inr a, db'))"

definition lread :: "(kdb \<Rightarrow> kerr + 'a) \<Rightarrow> 'a use_case" where
  "lread f = lcall (\<lambda>db. (f db, db))"

definition require :: "bool \<Rightarrow> lerr \<Rightarrow> lerr + unit" where
  "require b e = (if b then Inr () else Inl e)"

definition field :: "string \<Rightarrow> string \<Rightarrow> lerr" where
  "field name reason = Invalid [validation_error.ValidationError name reason]"

definition valid :: "'a validated \<Rightarrow> lerr + 'a" where
  "valid r = (case r of Inl e \<Rightarrow> Inl (Invalid [e]) | Inr a \<Rightarrow> Inr a)"

definition valid_id :: "lenv \<Rightarrow> string \<Rightarrow> string \<Rightarrow> lerr + unit" where
  "valid_id L name v = valid (ValidateID (le_uuid L) name v)"

definition valid_content :: "lenv \<Rightarrow> RichTextDocument \<Rightarrow> lerr + unit" where
  "valid_content L c = (case Validate (ke_richtext (le_store L)) c of Inl es \<Rightarrow> Inl (Invalid es) | Inr _ \<Rightarrow> Inr ())"

definition optional :: "('a \<Rightarrow> 'e + 'b) \<Rightarrow> 'a option \<Rightarrow> 'e + 'b option" where
  "optional f x = (case x of None \<Rightarrow> Inr None | Some a \<Rightarrow> (case f a of Inl e \<Rightarrow> Inl e | Inr b \<Rightarrow> Inr (Some b)))"

section \<open>Common helpers\<close>

definition idempotency :: "lenv \<Rightarrow> int \<Rightarrow> string \<Rightarrow> string \<Rightarrow> json \<Rightarrow> lerr + Idempotency" where
  "idempotency L actorID operation key0 request =
     (let key = trim_space key0 in
      sbind (valid (ValidateIdempotencyKey key)) (\<lambda>_.
      if key = [] then Inr \<lparr>idm_ActorID = 0, idm_Operation = [], idm_Key = [], idm_RequestHash = []\<rparr>
      else Inr \<lparr>idm_ActorID = actorID, idm_Operation = operation, idm_Key = key,
             idm_RequestHash = ke_sha256 (le_store L) (ke_marshal (le_store L) request)\<rparr>))"

definition effectiveLimit :: "int \<Rightarrow> int" where
  "effectiveLimit v = (if v \<le> 0 then 20 else v)"

definition validateMutation :: "lenv \<Rightarrow> string \<Rightarrow> int \<Rightarrow> lerr + unit" where
  "validateMutation L documentID expected =
     sbind (valid_id L ''document_id'' documentID) (\<lambda>_. require (0 < expected) (field ''expected_revision'' ''must be positive''))"

definition validateMemberMutation :: "lenv \<Rightarrow> string \<Rightarrow> int \<Rightarrow> int \<Rightarrow> string \<Rightarrow> lerr + unit" where
  "validateMemberMutation L documentID userID expected role =
     sbind (valid_id L ''document_id'' documentID) (\<lambda>_.
     sbind (require (0 < userID) (field ''user_id'' ''must be positive'')) (\<lambda>_.
     sbind (require (0 < expected) (field ''expected_revision'' ''must be positive'')) (\<lambda>_.
     valid (ValidateRole role))))"

section \<open>Cursors and pages\<close>

record Cursor =
  cu_Time :: time
  cu_ID :: string

definition EncodeCursor :: "lenv \<Rightarrow> Cursor \<Rightarrow> string" where
  "EncodeCursor L c = b64_encode (le_cursor_out L (1, cu_Time c, cu_ID c))"

definition DecodeCursor :: "lenv \<Rightarrow> string \<Rightarrow> lerr + Cursor option" where
  "DecodeCursor L v =
     (if trim_space v = [] then Inr None
      else case b64_decode v of None \<Rightarrow> Inl (field ''cursor'' ''is invalid'')
      | Some payload \<Rightarrow> (case le_cursor_in L payload of None \<Rightarrow> Inl (field ''cursor'' ''is invalid'')
         | Some (version, t, i) \<Rightarrow>
             if version \<noteq> 1 \<or> t = 0 \<or> ValidateID (le_uuid L) ''cursor.id'' i \<noteq> Inr () then Inl (field ''cursor'' ''is invalid'')
             else Inr (Some \<lparr>cu_Time = t, cu_ID = i\<rparr>)))"

record ListDocumentsInput =
  ld_ActorID :: int
  ld_Query :: string
  ld_Cursor :: string
  ld_Limit :: int
  ld_Access :: string
  ld_Publication :: string
  ld_FolderID :: string

record DocumentPage =
  dp_Items :: "Document list"
  dp_NextCursor :: "string option"
  dp_HasMore :: bool

definition validateListInput :: "lenv \<Rightarrow> ListDocumentsInput \<Rightarrow> bool \<Rightarrow> lerr + unit" where
  "validateListInput L input public =
     (let page = ValidatePage (ld_Limit input) (ld_Cursor input) (ld_Query input) in
      sbind (require (page = []) (Invalid page)) (\<lambda>_.
      sbind (require (\<not> (public \<and> (ld_Access input \<noteq> [] \<or> ld_Publication input \<noteq> [] \<or> ld_FolderID input \<noteq> [])))
        (field ''filters'' ''access, publication, and folder are not valid for the public collection'')) (\<lambda>_.
      sbind (require (ld_Access input = [] \<or> ld_Access input = AccessOwner \<or> ld_Access input = ''shared'') (field ''access'' ''must be owner or shared'')) (\<lambda>_.
      sbind (require (ld_Publication input = [] \<or> ld_Publication input = ''published'' \<or> ld_Publication input = ''draft'')
        (field ''publication'' ''must be published or draft'')) (\<lambda>_.
      if ld_FolderID input \<noteq> [] then valid_id L ''folder_id'' (ld_FolderID input) else Inr ())))))"

definition buildDocumentPage :: "lenv \<Rightarrow> Document list \<Rightarrow> int \<Rightarrow> (Document \<Rightarrow> time) \<Rightarrow> DocumentPage" where
  "buildDocumentPage L documents limit orderTime =
     (let hasMore = limit < int (length documents);
          items = (if hasMore then take (nat limit) documents else documents)
      in \<lparr>dp_Items = items,
          dp_NextCursor = (if hasMore \<and> items \<noteq> [] then Some (EncodeCursor L \<lparr>cu_Time = orderTime (last items), cu_ID = doc_ID (last items)\<rparr>) else None),
          dp_HasMore = hasMore\<rparr>)"

definition list_options :: "ListDocumentsInput \<Rightarrow> Cursor option \<Rightarrow> ListOptions" where
  "list_options input cursor = \<lparr>lo_ActorID = ld_ActorID input, lo_Query = trim_space (ld_Query input),
     lo_Cursor = map_option (\<lambda>c. (cu_Time c, cu_ID c)) cursor, lo_Limit = effectiveLimit (ld_Limit input),
     lo_Access = [], lo_Publication = [], lo_FolderID = [], lo_Published = False, lo_Deleted = False\<rparr>"

definition list_page :: "lenv \<Rightarrow> ListDocumentsInput \<Rightarrow> bool \<Rightarrow> (ListOptions \<Rightarrow> ListOptions) \<Rightarrow> (Document \<Rightarrow> time) \<Rightarrow> DocumentPage use_case" where
  "list_page L input public options orderTime =
     lcheck (validateListInput L input public) (\<lambda>_.
     lcheck (DecodeCursor L (ld_Cursor input)) (\<lambda>cursor db.
     (Inr (buildDocumentPage L (ListDocuments (le_store L) (le_now L) (options (list_options input cursor)) db)
        (effectiveLimit (ld_Limit input)) orderTime), db)))"

definition DocumentLogic_ListPublished :: "lenv \<Rightarrow> ListDocumentsInput \<Rightarrow> DocumentPage use_case" where
  "DocumentLogic_ListPublished L input =
     list_page L input True (\<lambda>opt. opt\<lparr>lo_Published := True\<rparr>) (\<lambda>d. case doc_PublishedAt d of Some t \<Rightarrow> t | None \<Rightarrow> doc_UpdatedAt d)"

definition DocumentLogic_List :: "lenv \<Rightarrow> ListDocumentsInput \<Rightarrow> DocumentPage use_case" where
  "DocumentLogic_List L input =
     lcheck (require (0 < ld_ActorID input) (Repository ErrForbidden)) (\<lambda>_.
     list_page L input False (\<lambda>opt. opt\<lparr>lo_Access := ld_Access input, lo_Publication := ld_Publication input, lo_FolderID := ld_FolderID input\<rparr>) doc_UpdatedAt)"

definition DocumentLogic_ListDeleted :: "lenv \<Rightarrow> ListDocumentsInput \<Rightarrow> DocumentPage use_case" where
  "DocumentLogic_ListDeleted L input =
     lcheck (require (0 < ld_ActorID input) (Repository ErrForbidden)) (\<lambda>_.
     list_page L input False (\<lambda>opt. opt\<lparr>lo_Deleted := True\<rparr>) (\<lambda>d. case doc_DeletedAt d of Some t \<Rightarrow> t | None \<Rightarrow> doc_UpdatedAt d))"

section \<open>Documents\<close>

record DocumentDetail =
  dd_Document :: Document
  dd_Content :: RichTextDocument
  dd_PlainText :: string
  dd_Redirect :: bool

definition parseRichText :: "lenv \<Rightarrow> string \<Rightarrow> lerr + RichTextDocument" where
  "parseRichText L content =
     (case le_json_document L content of
        None \<Rightarrow> Inl (Repository (ErrOther ''decode document projection''))
      | Some document \<Rightarrow> sbind (valid_content L document) (\<lambda>_. Inr document))"

definition DocumentLogic_GetPublished :: "lenv \<Rightarrow> string \<Rightarrow> int \<Rightarrow> DocumentDetail use_case" where
  "DocumentLogic_GetPublished L slug actorID =
     (let requested = trim_space slug in
      lcheck (valid (NormalizeSlug (ke_lower (le_store L)) requested)) (\<lambda>normalized db.
      case GetPublishedDocument (le_store L) (le_now L) normalized actorID db of
        Inl e \<Rightarrow> (Inl (mapError (Repository e)), db)
      | Inr (document, projection, redirect) \<Rightarrow>
          lcheck (parseRichText L (pj_Content projection)) (\<lambda>content db.
          (Inr \<lparr>dd_Document = document, dd_Content = content, dd_PlainText = pj_PlainText projection,
                dd_Redirect = (redirect \<or> requested \<noteq> normalized)\<rparr>, db)) db))"

definition DocumentLogic_IsMediaPublished :: "lenv \<Rightarrow> string \<Rightarrow> bool use_case" where
  "DocumentLogic_IsMediaPublished L attachmentID =
     lcheck (valid_id L ''attachment_id'' attachmentID) (\<lambda>_. lread (\<lambda>db. Inr (IsMediaPublished attachmentID db)))"

record CreateDocumentInput =
  cd_Title :: string
  cd_Summary :: "string option"
  cd_Slug :: "string option"
  cd_IdempotencyKey :: string

definition create_slug :: "lenv \<Rightarrow> string \<Rightarrow> string option \<Rightarrow> lerr + string" where
  "create_slug L title slug = (case slug of
     None \<Rightarrow> Inr (SlugFromTitle (ke_lower (le_store L)) title (le_newID L))
   | Some s \<Rightarrow> valid (NormalizeSlug (ke_lower (le_store L)) s))"

definition create_request :: "string \<Rightarrow> string \<Rightarrow> string \<Rightarrow> json" where
  "create_request title summary slug = JObj [(''title'', JStr title), (''summary'', JStr summary), (''slug'', JStr slug)]"

definition new_document :: "lenv \<Rightarrow> string \<Rightarrow> string \<Rightarrow> string \<Rightarrow> PublicUser \<Rightarrow> Document" where
  "new_document L title summary slug owner = \<lparr>doc_ID = le_newID L, doc_Title = title, doc_Summary = summary, doc_Slug = slug,
     doc_Language = ''zh-CN'', doc_Tags = [], doc_FolderID = None, doc_Owner = owner, doc_Access = AccessOwner, doc_Published = False,
     doc_PublicationStatus = PublicationDraft, doc_PublicationError = None, doc_PublicationGeneration = 0, doc_PublicationHash = [],
     doc_ActivePublicationHash = [], doc_Icon = [], doc_CoverAttachmentID = None, doc_CoverFocalX = 0, doc_CoverFocalY = 0,
     doc_MetadataRevision = 1, doc_ContentRevision = 0, doc_PermissionRevision = 1, doc_PublishedAt = None, doc_DeletedAt = None,
     doc_PurgeAfter = None, doc_ProjectedAt = None, doc_CreatedAt = le_now L, doc_UpdatedAt = le_now L\<rparr>"

definition DocumentLogic_Create :: "lenv \<Rightarrow> CreateDocumentInput \<Rightarrow> Document use_case" where
  "DocumentLogic_Create L input =
     (let title = trim_space (cd_Title input); summary = (case cd_Summary input of None \<Rightarrow> [] | Some s \<Rightarrow> trim_space s) in
      lcheck (valid (ValidateTitle title)) (\<lambda>_.
      lcheck (valid (ValidateSummary summary)) (\<lambda>_.
      lcheck (CurrentUser L) (\<lambda>owner.
      lcheck (create_slug L title (cd_Slug input)) (\<lambda>slug.
      lcheck (idempotency L (pu_ID owner) ''create_document'' (cd_IdempotencyKey input) (create_request title summary slug)) (\<lambda>v.
      lcall (CreateDocument (le_store L) (le_now L) (new_document L title summary slug owner) v)))))))"

definition DocumentLogic_Get :: "lenv \<Rightarrow> string \<Rightarrow> int \<Rightarrow> Document use_case" where
  "DocumentLogic_Get L documentID actorID =
     lcheck (valid_id L ''document_id'' documentID) (\<lambda>_.
     lread (\<lambda>db. case GetDocument (le_store L) documentID actorID False db of Inl e \<Rightarrow> Inl e
       | Inr d \<Rightarrow> if \<not> CanRead (doc_Access d) then Inl ErrForbidden else Inr d))"

section \<open>Updating documents\<close>

definition valid_language :: "string \<Rightarrow> lerr + string" where
  "valid_language v = (let language = trim_space v in
     sbind (require (2 \<le> length language \<and> length language \<le> 16) (field ''language'' ''must contain 2-16 characters'')) (\<lambda>_. Inr language))"

definition trimmed :: "(string \<Rightarrow> unit validated) \<Rightarrow> string \<Rightarrow> lerr + string" where
  "trimmed check v = sbind (valid (check (trim_space v))) (\<lambda>_. Inr (trim_space v))"

definition valid_icon :: "string \<Rightarrow> lerr + string" where
  "valid_icon v = (let icon = trim_space v in
     sbind (require (rune_count icon \<le> 8) (field ''icon'' ''must contain at most 8 characters'')) (\<lambda>_. Inr icon))"

definition valid_focal :: "string \<Rightarrow> float64 \<Rightarrow> lerr + float64" where
  "valid_focal name v = sbind (require (\<not> (v < 0 \<or> 100 < v)) (field name ''must be between 0 and 100'')) (\<lambda>_. Inr v)"

text \<open>The fields of an update after normalisation; absent fields stay absent.\<close>

definition normalized_patch :: "lenv \<Rightarrow> document_patch \<Rightarrow> lerr + document_patch" where
  "normalized_patch L u =
     sbind (optional (trimmed ValidateTitle) (up_Title u)) (\<lambda>title.
     sbind (optional (trimmed ValidateSummary) (up_Summary u)) (\<lambda>summary.
     sbind (optional (\<lambda>v. valid (NormalizeSlug (ke_lower (le_store L)) v)) (up_Slug u)) (\<lambda>slug.
     sbind (optional valid_language (up_Language u)) (\<lambda>language.
     sbind (optional (\<lambda>v. valid (NormalizeTags (ke_lower (le_store L)) v)) (up_Tags u)) (\<lambda>tags.
     sbind (optional valid_icon (up_Icon u)) (\<lambda>icon.
     sbind (optional (\<lambda>a. if a = [] then Inr () else valid_id L ''cover_attachment_id'' a) (up_CoverAttachmentID u)) (\<lambda>_.
     sbind (optional (valid_focal ''cover_focal_x'') (up_CoverFocalX u)) (\<lambda>x.
     sbind (optional (valid_focal ''cover_focal_y'') (up_CoverFocalY u)) (\<lambda>y.
     sbind (require (title \<noteq> None \<or> summary \<noteq> None \<or> slug \<noteq> None \<or> language \<noteq> None \<or> tags \<noteq> None \<or> up_FolderID u \<noteq> None \<or> icon \<noteq> None
        \<or> up_CoverAttachmentID u \<noteq> None \<or> x \<noteq> None \<or> y \<noteq> None) (field ''document'' ''at least one field must be provided'')) (\<lambda>_.
     Inr \<lparr>up_Title = title, up_Summary = summary, up_Slug = slug, up_Language = language, up_Tags = tags, up_FolderID = up_FolderID u,
          up_Icon = icon, up_CoverAttachmentID = up_CoverAttachmentID u, up_CoverFocalX = x, up_CoverFocalY = y\<rparr>))))))))))"

definition DocumentLogic_Update :: "lenv \<Rightarrow> string \<Rightarrow> int \<Rightarrow> int \<Rightarrow> document_patch \<Rightarrow> Document use_case" where
  "DocumentLogic_Update L documentID actorID expected u =
     lcheck (valid_id L ''document_id'' documentID) (\<lambda>_.
     lcheck (require (0 < expected) (field ''expected_revision'' ''must be positive'')) (\<lambda>_.
     lcheck (normalized_patch L u) (\<lambda>patch.
     lcall (UpdateDocument (le_store L) (le_now L) documentID actorID expected patch))))"

definition DocumentLogic_Delete :: "lenv \<Rightarrow> string \<Rightarrow> int \<Rightarrow> int \<Rightarrow> Document use_case" where
  "DocumentLogic_Delete L documentID actorID expected =
     lcheck (validateMutation L documentID expected) (\<lambda>_. lcall (SoftDeleteDocument (le_store L) (le_now L) documentID actorID expected))"

definition DocumentLogic_Restore :: "lenv \<Rightarrow> string \<Rightarrow> int \<Rightarrow> Document use_case" where
  "DocumentLogic_Restore L documentID actorID =
     lcheck (valid_id L ''document_id'' documentID) (\<lambda>_. lcall (RestoreDeletedDocument (le_store L) (le_now L) documentID actorID))"

definition DocumentLogic_PurgeDeleted :: "lenv \<Rightarrow> string \<Rightarrow> int \<Rightarrow> int \<Rightarrow> string \<Rightarrow> unit use_case" where
  "DocumentLogic_PurgeDeleted L documentID actorID expected key =
     lcheck (require (0 < actorID) (Repository ErrForbidden)) (\<lambda>_.
     lcheck (validateMutation L documentID expected) (\<lambda>_.
     lcheck (idempotency L actorID ''purge_deleted_document'' key
        (JObj [(''document_id'', JStr documentID), (''expected_revision'', JNum (of_int expected))])) (\<lambda>v.
     lcall (PurgeDeletedDocument (le_store L) (le_now L) documentID actorID expected v))))"

section \<open>Publication\<close>

definition DocumentLogic_SetPublication :: "lenv \<Rightarrow> string \<Rightarrow> int \<Rightarrow> int \<Rightarrow> bool \<Rightarrow> string \<Rightarrow> Document use_case" where
  "DocumentLogic_SetPublication L documentID actorID expected published key =
     lcheck (validateMutation L documentID expected) (\<lambda>_.
     lcheck (idempotency L actorID ''set_publication'' key
        (JObj [(''document_id'', JStr documentID), (''expected_revision'', JNum (of_int expected)), (''published'', JBool published)])) (\<lambda>v.
     lcall (SetPublication (le_store L) (le_now L) documentID actorID expected published v)))"

text \<open>The attachments of a document in the order the walk meets them; the result is sorted and without repetition.\<close>

fun node_media :: "RichTextNode option \<Rightarrow> string list" and nodes_media :: "RichTextNode option list \<Rightarrow> string list" where
  "node_media None = []"
| "node_media (Some (RichTextNode ty attrs content body marks)) =
     (case attrs of None \<Rightarrow> [] | Some a \<Rightarrow> (case ra_AttachmentID a of None \<Rightarrow> [] | Some i \<Rightarrow> [i])) @ nodes_media content"
| "nodes_media [] = []"
| "nodes_media (n # ns) = node_media n @ nodes_media ns"

definition publicationMediaIDs :: "RichTextDocument \<Rightarrow> string list" where
  "publicationMediaIDs content = sort (remdups (nodes_media (case rd_Content content of None \<Rightarrow> [] | Some ns \<Rightarrow> ns)))"

record PublishInput =
  pn_Title :: string
  pn_Summary :: string
  pn_Slug :: string
  pn_Language :: string
  pn_Tags :: "string list option"
  pn_Content :: RichTextDocument
  pn_PlainText :: string
  pn_ContentSequence :: int
  pn_PublicationHash :: string
  pn_Icon :: string
  pn_CoverAttachmentID :: "string option"
  pn_CoverFocalX :: float64
  pn_CoverFocalY :: float64
  pn_IdempotencyKey :: string

definition publish_request :: "lenv \<Rightarrow> string \<Rightarrow> int \<Rightarrow> string \<Rightarrow> string \<Rightarrow> string \<Rightarrow> string \<Rightarrow> string list \<Rightarrow> PublishInput \<Rightarrow> json" where
  "publish_request L documentID expected title summary slug language tags input = JObj
     [(''document_id'', JStr documentID), (''expected_revision'', JNum (of_int expected)), (''title'', JStr title), (''summary'', JStr summary),
      (''slug'', JStr slug), (''language'', JStr language), (''tags'', JArr (map JStr tags)),
      (''content'', ke_encode_doc (le_store L) (pn_Content input)), (''plain_text'', JStr (pn_PlainText input))]"

definition snapshot_input :: "string \<Rightarrow> string \<Rightarrow> string \<Rightarrow> string \<Rightarrow> string list \<Rightarrow> PublishInput \<Rightarrow> Idempotency \<Rightarrow> PublicationSnapshotInput" where
  "snapshot_input title summary slug language tags input v = \<lparr>pi_Title = title, pi_Summary = summary, pi_Slug = slug, pi_Language = language,
     pi_Tags = tags, pi_Content = pn_Content input, pi_PlainText = pn_PlainText input, pi_ContentSequence = pn_ContentSequence input,
     pi_PublicationHash = pn_PublicationHash input, pi_Icon = pn_Icon input, pi_CoverAttachmentID = pn_CoverAttachmentID input,
     pi_CoverFocalX = pn_CoverFocalX input, pi_CoverFocalY = pn_CoverFocalY input,
     pi_MediaIDs = publicationMediaIDs (pn_Content input), pi_Idempotency = v\<rparr>"

definition DocumentLogic_PublishSnapshot :: "lenv \<Rightarrow> string \<Rightarrow> int \<Rightarrow> int \<Rightarrow> PublishInput \<Rightarrow> Document use_case" where
  "DocumentLogic_PublishSnapshot L documentID actorID expected input =
     lcheck (validateMutation L documentID expected) (\<lambda>_.
     lcheck (trimmed ValidateTitle (pn_Title input)) (\<lambda>title.
     lcheck (trimmed ValidateSummary (pn_Summary input)) (\<lambda>summary.
     lcheck (valid (NormalizeSlug (ke_lower (le_store L)) (pn_Slug input))) (\<lambda>slug.
     lcheck (valid_language (pn_Language input)) (\<lambda>language.
     lcheck (valid_content L (pn_Content input)) (\<lambda>_.
     lcheck (case pn_Tags input of None \<Rightarrow> Inr [] | Some ts \<Rightarrow> valid (NormalizeTags (ke_lower (le_store L)) ts)) (\<lambda>tags.
     lcheck (require (int (length (pn_PlainText input)) \<le> MaxProjectionBytes) (field ''plain_text'' ''is too large'')) (\<lambda>_.
     lcheck (CurrentUser L) (\<lambda>owner.
     lcheck (idempotency L (pu_ID owner) ''publish_snapshot'' (pn_IdempotencyKey input)
        (publish_request L documentID expected title summary slug language tags input)) (\<lambda>v.
     lcall (PublishSnapshot (le_store L) (le_now L) documentID actorID expected (snapshot_input title summary slug language tags input v))))))))))))"

section \<open>Commits and history\<close>

record CommitRequest =
  cq_DocumentID :: string
  cq_ActorID :: int
  cq_Kind :: string
  cq_Label :: string
  cq_Description :: string
  cq_Content :: "RichTextDocument option"
  cq_PlainText :: string
  cq_ContentHash :: string
  cq_IdempotencyKey :: string

definition DocumentLogic_CreateCommit :: "lenv \<Rightarrow> CommitRequest \<Rightarrow> Commit use_case" where
  "DocumentLogic_CreateCommit L input =
     lcheck (valid_id L ''document_id'' (cq_DocumentID input)) (\<lambda>_.
     lcheck (require (0 < cq_ActorID input) (Repository ErrForbidden)) (\<lambda>_.
     let kind = (if trim_space (cq_Kind input) = [] then ''manual'' else cq_Kind input);
         label = (if trim_space (cq_Label input) = [] then kind else cq_Label input) in
     lcheck (require (rune_count label \<le> 160 \<and> rune_count (cq_Description input) \<le> 2000)
        (field ''commit'' ''label and description are invalid'')) (\<lambda>_.
     lcheck (idempotency L (cq_ActorID input) ''create_commit'' (cq_IdempotencyKey input)
        (JObj [(''document_id'', JStr (cq_DocumentID input)), (''kind'', JStr kind), (''label'', JStr label), (''content_hash'', JStr (cq_ContentHash input))])) (\<lambda>v.
     lcall (CreateCommit (le_store L) (le_now L) (cq_DocumentID input) (cq_ActorID input)
        \<lparr>ci_Kind = kind, ci_Label = label, ci_Description = cq_Description input, ci_Content = cq_Content input,
         ci_PlainText = cq_PlainText input, ci_ContentHash = cq_ContentHash input, ci_Idempotency = v\<rparr>)))))"

definition DocumentLogic_ListCommits :: "lenv \<Rightarrow> string \<Rightarrow> int \<Rightarrow> int \<Rightarrow> Commit list use_case" where
  "DocumentLogic_ListCommits L documentID actorID limit =
     lcheck (valid_id L ''document_id'' documentID) (\<lambda>_.
     lcheck (require (0 < actorID) (Repository ErrForbidden)) (\<lambda>_.
     lread (ListCommits (le_store L) documentID actorID limit)))"

definition DocumentLogic_GetCommit :: "lenv \<Rightarrow> string \<Rightarrow> int \<Rightarrow> Commit use_case" where
  "DocumentLogic_GetCommit L commitID actorID =
     lcheck (valid_id L ''commit_id'' commitID) (\<lambda>_. lread (GetCommit (le_store L) commitID actorID))"

definition DocumentLogic_RenameCommit :: "lenv \<Rightarrow> string \<Rightarrow> int \<Rightarrow> string \<Rightarrow> string \<Rightarrow> Commit use_case" where
  "DocumentLogic_RenameCommit L commitID actorID label description =
     lcheck (valid_id L ''commit_id'' commitID) (\<lambda>_. lcall (RenameCommit (le_store L) (le_now L) commitID actorID label description))"

definition DocumentLogic_RestoreCommit :: "lenv \<Rightarrow> string \<Rightarrow> int \<Rightarrow> string \<Rightarrow> Document use_case" where
  "DocumentLogic_RestoreCommit L commitID actorID key =
     lcheck (valid_id L ''commit_id'' commitID) (\<lambda>_.
     lcheck (idempotency L actorID ''restore_commit'' key (JObj [(''commit_id'', JStr commitID)])) (\<lambda>v.
     lcall (RestoreCommit (le_store L) (le_now L) commitID actorID v)))"

definition DocumentLogic_ListHistory :: "lenv \<Rightarrow> string \<Rightarrow> int \<Rightarrow> int \<Rightarrow> history_row list use_case" where
  "DocumentLogic_ListHistory L documentID actorID limit =
     lcheck (valid_id L ''document_id'' documentID) (\<lambda>_.
     lcheck (require (0 < actorID) (Repository ErrForbidden)) (\<lambda>_.
     lread (ListHistory (le_store L) documentID actorID limit)))"

definition DocumentLogic_GetHistory :: "lenv \<Rightarrow> string \<Rightarrow> string \<Rightarrow> int \<Rightarrow> history_row use_case" where
  "DocumentLogic_GetHistory L documentID revisionID actorID =
     lcheck (valid_id L ''document_id'' documentID) (\<lambda>_.
     lcheck (valid_id L ''revision_id'' revisionID) (\<lambda>_.
     lread (GetHistory (le_store L) documentID revisionID actorID)))"

section \<open>Folders\<close>

definition parent_folder :: "lenv \<Rightarrow> string option \<Rightarrow> lerr + string option" where
  "parent_folder L parentID = (case parentID of
     Some p \<Rightarrow> if p \<noteq> [] then sbind (valid_id L ''parent_id'' p) (\<lambda>_. Inr (Some p)) else Inr None | None \<Rightarrow> Inr None)"

definition folder_name :: "string \<Rightarrow> lerr + string" where
  "folder_name v = (let name = collapse_spaces v in
     sbind (require (\<not> (rune_count name < 1 \<or> 120 < rune_count name)) (field ''name'' ''must contain 1-120 characters'')) (\<lambda>_. Inr name))"

definition DocumentLogic_ListFolders :: "lenv \<Rightarrow> int \<Rightarrow> string option \<Rightarrow> Folder list use_case" where
  "DocumentLogic_ListFolders L actorID parentID =
     lcheck (require (0 < actorID) (Repository ErrForbidden)) (\<lambda>_.
     lcheck (parent_folder L parentID) (\<lambda>parent. lread (\<lambda>db. Inr (ListFolders (le_store L) actorID parent db))))"

definition DocumentLogic_CreateFolder :: "lenv \<Rightarrow> int \<Rightarrow> string \<Rightarrow> string option \<Rightarrow> string \<Rightarrow> Folder use_case" where
  "DocumentLogic_CreateFolder L actorID name0 parentID key =
     lcheck (require (0 < actorID) (Repository ErrForbidden)) (\<lambda>_.
     lcheck (folder_name name0) (\<lambda>name.
     lcheck (parent_folder L parentID) (\<lambda>parent.
     lcheck (idempotency L actorID ''create_folder'' key
        (JObj [(''name'', JStr name), (''parent_id'', case parent of None \<Rightarrow> JNull | Some p \<Rightarrow> JStr p)])) (\<lambda>v.
     lcall (CreateFolder (le_store L) (le_now L) actorID name parent v)))))"

definition DocumentLogic_UpdateFolder :: "lenv \<Rightarrow> int \<Rightarrow> string \<Rightarrow> int \<Rightarrow> string option \<Rightarrow> string option \<Rightarrow> Folder use_case" where
  "DocumentLogic_UpdateFolder L actorID folderID expected name0 parentID =
     lcheck (require (0 < actorID) (Repository ErrForbidden)) (\<lambda>_.
     lcheck (valid_id L ''folder_id'' folderID) (\<lambda>_.
     lcheck (require (0 < expected) (field ''expected_revision'' ''must be positive'')) (\<lambda>_.
     lcheck (optional folder_name name0) (\<lambda>name.
     lcheck (optional (\<lambda>p. if p \<noteq> [] then valid_id L ''parent_id'' p else Inr ()) parentID) (\<lambda>_.
     lcheck (require (name \<noteq> None \<or> parentID \<noteq> None) (field ''folder'' ''at least one field must be provided'')) (\<lambda>_.
     lcall (UpdateFolder (le_store L) (le_now L) actorID folderID expected name parentID)))))))"

definition DocumentLogic_DeleteFolder :: "lenv \<Rightarrow> int \<Rightarrow> string \<Rightarrow> int \<Rightarrow> unit use_case" where
  "DocumentLogic_DeleteFolder L actorID folderID expected =
     lcheck (require (0 < actorID) (Repository ErrForbidden)) (\<lambda>_.
     lcheck (valid_id L ''folder_id'' folderID) (\<lambda>_.
     lcheck (require (0 < expected) (field ''expected_revision'' ''must be positive'')) (\<lambda>_.
     lcall (DeleteFolder (le_store L) (le_now L) actorID folderID expected))))"

section \<open>Members\<close>

definition MemberLogic_List :: "lenv \<Rightarrow> string \<Rightarrow> int \<Rightarrow> Member list use_case" where
  "MemberLogic_List L documentID actorID =
     lcheck (valid_id L ''document_id'' documentID) (\<lambda>_. lread (ListMembers documentID actorID))"

definition MemberLogic_Add :: "lenv \<Rightarrow> string \<Rightarrow> int \<Rightarrow> string \<Rightarrow> string \<Rightarrow> string \<Rightarrow> Member use_case" where
  "MemberLogic_Add L documentID actorID username0 role key =
     lcheck (valid_id L ''document_id'' documentID) (\<lambda>_.
     let username = trim_space username0 in
     lcheck (require (username \<noteq> [] \<and> length username \<le> 32) (field ''username'' ''must contain between 1 and 32 characters'')) (\<lambda>_.
     lcheck (valid (ValidateRole role)) (\<lambda>_.
     lcheck (idempotency L actorID ''add_member'' key
        (JObj [(''document_id'', JStr documentID), (''username'', JStr (to_lower (ke_lower (le_store L)) username)), (''role'', JStr role)])) (\<lambda>v.
     lcheck (ResolveUser L username) (\<lambda>user.
     lcall (AddMember (le_store L) (le_now L) documentID actorID user role v))))))"

definition MemberLogic_Update :: "lenv \<Rightarrow> string \<Rightarrow> int \<Rightarrow> int \<Rightarrow> int \<Rightarrow> string \<Rightarrow> Member use_case" where
  "MemberLogic_Update L documentID actorID userID expected role =
     lcheck (validateMemberMutation L documentID userID expected role) (\<lambda>_.
     lcall (UpdateMember (le_store L) (le_now L) documentID actorID userID expected role))"

definition MemberLogic_Delete :: "lenv \<Rightarrow> string \<Rightarrow> int \<Rightarrow> int \<Rightarrow> int \<Rightarrow> unit use_case" where
  "MemberLogic_Delete L documentID actorID userID expected =
     lcheck (validateMemberMutation L documentID userID expected AccessViewer) (\<lambda>_.
     lcall (DeleteMember (le_store L) (le_now L) documentID actorID userID expected))"

section \<open>Collaboration\<close>

definition CollaborationLogic_Authorize :: "lenv \<Rightarrow> string \<Rightarrow> int \<Rightarrow> (Document \<times> PublicUser) use_case" where
  "CollaborationLogic_Authorize L documentID actorID =
     lcheck (valid_id L ''document_id'' documentID) (\<lambda>_ db.
     if actorID \<le> 0 then (Inl Unauthenticated, db)
     else lcheck (CurrentUser L) (\<lambda>resolved.
          lcheck (require (pu_ID resolved = actorID) (Repository ErrForbidden)) (\<lambda>_.
          lread (\<lambda>db. case AuthorizeCollaboration (le_store L) documentID actorID db of Inl e \<Rightarrow> Inl e | Inr d \<Rightarrow> Inr (d, resolved)))) db)"

definition CollaborationLogic_Project :: "lenv \<Rightarrow> string \<Rightarrow> int \<Rightarrow> RichTextDocument \<Rightarrow> string \<Rightarrow> unit use_case" where
  "CollaborationLogic_Project L documentID sequence content plainText0 =
     lcheck (valid_id L ''document_id'' documentID) (\<lambda>_.
     lcheck (require (0 \<le> sequence) (field ''sequence'' ''must not be negative'')) (\<lambda>_.
     lcheck (valid_content L content) (\<lambda>_.
     let plainText = trim_space plainText0; payload = ke_marshal (le_store L) (ke_encode_doc (le_store L) content) in
     lcheck (valid (ValidateProjection (le_json_valid L) payload plainText)) (\<lambda>_.
     lcall (UpsertProjection (le_store L)
        \<lparr>pj_DocumentID = documentID, pj_Sequence = sequence, pj_Content = payload, pj_PlainText = plainText, pj_ProjectedAt = le_now L\<rparr>)))))"

end
