(* ===== verification/KnowledgeTransport.thy ===== *)
theory KnowledgeTransport
  imports KnowledgeLogic
begin

text \<open>
  The RPC handlers of the knowledge service (\<open>services/knowledge/internal/transport/rpc/handler.go\<close>): every handler finds the
  actor in the verified access token, calls one use case and converts the result. Errors of the use cases are catalogued
  already, so the handlers pass them on. The token of the request, the JWT library and the text form of a time are
  arguments.
\<close>

section \<open>Transport values\<close>

text \<open>The generated structures; the attributes of the transport have no \<open>variant\<close>.\<close>

record TAttrs =
  ta_Level :: "int option"
  ta_Start :: "int option"
  ta_Checked :: "bool option"
  ta_Language :: "string option"
  ta_Href :: "string option"
  ta_AttachmentId :: "string option"
  ta_Alt :: "string option"
  ta_Title :: "string option"
  ta_TextAlign :: "string option"
  ta_Colspan :: "int option"
  ta_Rowspan :: "int option"
  ta_Colwidth :: "int list"
  ta_BlockId :: "string option"

record TMark =
  tm_Type :: string
  tm_Attrs :: "TAttrs option"

datatype TNode = TNode (tn_Type: string) (tn_Attrs: "TAttrs option") (tn_Content: "TNode option list") (tn_Text: "string option") (tn_Marks: "TMark option list")

record TRichText =
  tr_Type :: string
  tr_Content :: "TNode option list"

record TDocument =
  td_Id :: string
  td_Title :: string
  td_Summary :: string
  td_Slug :: string
  td_Owner :: PublicUser
  td_Access :: string
  td_Published :: bool
  td_MetadataRevision :: int
  td_ContentRevision :: int
  td_PublishedAt :: "string option"
  td_DeletedAt :: "string option"
  td_ProjectedAt :: "string option"
  td_CreatedAt :: string
  td_UpdatedAt :: string
  td_Language :: "string option"
  td_Tags :: "string list"
  td_FolderId :: "string option"
  td_PublicationStatus :: string
  td_PublicationError :: "string option"
  td_PublicationHash :: "string option"
  td_Icon :: "string option"
  td_PublicationGeneration :: int
  td_ActivePublicationHash :: "string option"
  td_CoverAttachmentId :: "string option"
  td_CoverFocalX :: "float64 option"
  td_CoverFocalY :: "float64 option"

record TCommit =
  tc_Id :: string
  tc_DocumentId :: string
  tc_Kind :: int
  tc_Label :: string
  tc_Description :: "string option"
  tc_Contributor :: string
  tc_Sequence :: int
  tc_ContentHash :: string
  tc_Content :: TRichText
  tc_PlainText :: string
  tc_CreatedAt :: string
  tc_UpdatedAt :: string

record THistory =
  th_Id :: string
  th_DocumentId :: string
  th_Kind :: string
  th_Sequence :: int
  th_MetadataRevision :: int
  th_SemanticHash :: string
  th_Content :: TRichText
  th_PlainText :: string
  th_MetadataJson :: string
  th_ContributorsJson :: string
  th_BlockDiffJson :: string
  th_IsAnchor :: bool
  th_CreatedAt :: string

record TFolder =
  tf_Id :: string
  tf_ParentId :: "string option"
  tf_Name :: string
  tf_Depth :: int
  tf_Revision :: int
  tf_CreatedAt :: string
  tf_UpdatedAt :: string

record TMember =
  tb_User :: PublicUser
  tb_Role :: string
  tb_Revision :: int
  tb_CreatedAt :: string
  tb_UpdatedAt :: string

record TAuthorization =
  tz_DocumentId :: string
  tz_Actor :: PublicUser
  tz_Access :: string
  tz_PermissionRevision :: int
  tz_TokenExpiresAt :: string

section \<open>Conversions\<close>

definition stringValue :: "string option \<Rightarrow> string" where
  "stringValue v = (case v of None \<Rightarrow> [] | Some s \<Rightarrow> s)"

definition floatValue :: "float64 option \<Rightarrow> float64" where
  "floatValue v = (case v of None \<Rightarrow> 50 | Some x \<Rightarrow> x)"

definition optionalFloat :: "float64 \<Rightarrow> float64 option" where
  "optionalFloat v = (if v = 0 then None else Some v)"

definition nonEmptyStringPointer :: "string \<Rightarrow> string option" where
  "nonEmptyStringPointer v = (if v = [] then None else Some v)"

definition int32Value :: "int option \<Rightarrow> int" where
  "int32Value v = (case v of None \<Rightarrow> 0 | Some n \<Rightarrow> n)"

definition toTransportRichTextAttrs :: "RichTextAttrs \<Rightarrow> TAttrs" where
  "toTransportRichTextAttrs a = \<lparr>ta_Level = ra_Level a, ta_Start = ra_Start a, ta_Checked = ra_Checked a, ta_Language = ra_Language a,
     ta_Href = ra_Href a, ta_AttachmentId = ra_AttachmentID a, ta_Alt = ra_Alt a, ta_Title = ra_Title a, ta_TextAlign = ra_TextAlign a,
     ta_Colspan = ra_Colspan a, ta_Rowspan = ra_Rowspan a, ta_Colwidth = ra_Colwidth a, ta_BlockId = ra_BlockID a\<rparr>"

definition fromTransportRichTextAttrs :: "TAttrs \<Rightarrow> RichTextAttrs" where
  "fromTransportRichTextAttrs a = \<lparr>ra_Level = ta_Level a, ra_Start = ta_Start a, ra_Checked = ta_Checked a, ra_Language = ta_Language a,
     ra_Href = ta_Href a, ra_AttachmentID = ta_AttachmentId a, ra_Alt = ta_Alt a, ra_Title = ta_Title a, ra_TextAlign = ta_TextAlign a,
     ra_Variant = None, ra_Colspan = ta_Colspan a, ra_Rowspan = ta_Rowspan a, ra_Colwidth = ta_Colwidth a, ra_BlockID = ta_BlockId a\<rparr>"

definition to_transport_mark :: "RichTextMark \<Rightarrow> TMark option" where
  "to_transport_mark m = Some \<lparr>tm_Type = rm_Type m, tm_Attrs = map_option toTransportRichTextAttrs (rm_Attrs m)\<rparr>"

definition from_transport_mark :: "TMark option \<Rightarrow> RichTextMark" where
  "from_transport_mark m = (case m of None \<Rightarrow> \<lparr>rm_Type = [], rm_Attrs = None\<rparr>
     | Some t \<Rightarrow> \<lparr>rm_Type = tm_Type t, rm_Attrs = map_option fromTransportRichTextAttrs (tm_Attrs t)\<rparr>)"

fun toTransportRichTextNode :: "RichTextNode option \<Rightarrow> TNode option" and toTransportNodes :: "RichTextNode option list \<Rightarrow> TNode option list" where
  "toTransportRichTextNode None = None"
| "toTransportRichTextNode (Some (RichTextNode ty attrs content body marks)) =
     Some (TNode ty (map_option toTransportRichTextAttrs attrs) (toTransportNodes content) body (map to_transport_mark marks))"
| "toTransportNodes [] = []"
| "toTransportNodes (n # ns) = toTransportRichTextNode n # toTransportNodes ns"

definition toTransportRichText :: "RichTextDocument \<Rightarrow> TRichText" where
  "toTransportRichText v = \<lparr>tr_Type = rd_Type v, tr_Content = toTransportNodes (case rd_Content v of None \<Rightarrow> [] | Some ns \<Rightarrow> ns)\<rparr>"

fun fromTransportRichTextNode :: "TNode option \<Rightarrow> int \<Rightarrow> int \<Rightarrow> validation_error + RichTextNode option \<times> int"
  and fromTransportNodes :: "TNode option list \<Rightarrow> int \<Rightarrow> int \<Rightarrow> validation_error + RichTextNode option list \<times> int" where
  "fromTransportRichTextNode None depth count = Inl (content_error ''structure is invalid'')"
| "fromTransportRichTextNode (Some (TNode ty attrs content body marks)) depth count =
     (if 64 < depth then Inl (content_error ''structure is invalid'')
      else if 100000 < count + 1 then Inl (content_error ''contains too many nodes'')
      else case fromTransportNodes content (depth + 1) (count + 1) of
        Inl e \<Rightarrow> Inl e
      | Inr (nodes, count') \<Rightarrow> Inr (Some (RichTextNode ty (map_option fromTransportRichTextAttrs attrs) nodes body (map from_transport_mark marks)), count'))"
| "fromTransportNodes [] depth count = Inr ([], count)"
| "fromTransportNodes (n # ns) depth count =
     (case fromTransportRichTextNode n depth count of
        Inl e \<Rightarrow> Inl e
      | Inr (node, count') \<Rightarrow> (case fromTransportNodes ns depth count' of
          Inl e \<Rightarrow> Inl e
        | Inr (nodes, count'') \<Rightarrow> Inr (node # nodes, count'')))"

definition fromTransportRichText :: "TRichText option \<Rightarrow> validation_error + RichTextDocument" where
  "fromTransportRichText v = (case v of None \<Rightarrow> Inl (content_error ''is required'')
     | Some t \<Rightarrow> (case fromTransportNodes (tr_Content t) 1 0 of Inl e \<Rightarrow> Inl e
        | Inr (nodes, _) \<Rightarrow> Inr \<lparr>rd_Type = tr_Type t, rd_Content = Some nodes\<rparr>))"

record henv =
  he_logic :: lenv
  he_jwt :: jwtenv
  he_token :: string
  he_format :: "time \<Rightarrow> string"

definition timePointer :: "henv \<Rightarrow> time option \<Rightarrow> string option" where
  "timePointer H v = map_option (he_format H) v"

definition toTransportDocument :: "henv \<Rightarrow> Document \<Rightarrow> TDocument" where
  "toTransportDocument H v = \<lparr>td_Id = doc_ID v, td_Title = doc_Title v, td_Summary = doc_Summary v, td_Slug = doc_Slug v,
     td_Owner = doc_Owner v, td_Access = doc_Access v, td_Published = doc_Published v, td_MetadataRevision = doc_MetadataRevision v,
     td_ContentRevision = doc_ContentRevision v, td_PublishedAt = timePointer H (doc_PublishedAt v), td_DeletedAt = timePointer H (doc_DeletedAt v),
     td_ProjectedAt = timePointer H (doc_ProjectedAt v), td_CreatedAt = he_format H (doc_CreatedAt v), td_UpdatedAt = he_format H (doc_UpdatedAt v),
     td_Language = nonEmptyStringPointer (doc_Language v), td_Tags = doc_Tags v, td_FolderId = doc_FolderID v,
     td_PublicationStatus = doc_PublicationStatus v, td_PublicationError = doc_PublicationError v,
     td_PublicationHash = nonEmptyStringPointer (doc_PublicationHash v), td_Icon = nonEmptyStringPointer (doc_Icon v),
     td_PublicationGeneration = doc_PublicationGeneration v, td_ActivePublicationHash = nonEmptyStringPointer (doc_ActivePublicationHash v),
     td_CoverAttachmentId = doc_CoverAttachmentID v, td_CoverFocalX = optionalFloat (doc_CoverFocalX v), td_CoverFocalY = optionalFloat (doc_CoverFocalY v)\<rparr>"

definition commitKindName :: "int \<Rightarrow> string" where
  "commitKindName v = (if v = 2 then ''leave'' else if v = 3 then ''safety'' else if v = 4 then ''publish'' else if v = 5 then ''revision_merge''
     else if v = 6 then ''agent_edit'' else if v = 7 then ''restore'' else ''manual'')"

definition commitKindValue :: "string \<Rightarrow> int" where
  "commitKindValue v = (if v = ''leave'' then 2 else if v = ''safety'' then 3 else if v = ''publish'' then 4 else if v = ''revision_merge'' then 5
     else if v = ''agent_edit'' then 6 else if v = ''restore'' then 7 else 1)"

definition toTransportCommit :: "henv \<Rightarrow> Commit \<Rightarrow> TCommit" where
  "toTransportCommit H v = \<lparr>tc_Id = co_ID v, tc_DocumentId = co_DocumentID v, tc_Kind = commitKindValue (co_Kind v), tc_Label = co_Label v,
     tc_Description = nonEmptyStringPointer (co_Description v), tc_Contributor = co_Contributor v, tc_Sequence = co_Sequence v,
     tc_ContentHash = co_ContentHash v, tc_Content = toTransportRichText (co_Content v), tc_PlainText = co_PlainText v,
     tc_CreatedAt = he_format H (co_CreatedAt v), tc_UpdatedAt = he_format H (co_UpdatedAt v)\<rparr>"

definition toTransportHistory :: "henv \<Rightarrow> history_row \<Rightarrow> apperr + THistory" where
  "toTransportHistory H v = (let E = le_store (he_logic H) in
     case ke_decode_doc E (h_Content v) of None \<Rightarrow> Inl Internal
     | Some content \<Rightarrow> Inr \<lparr>th_Id = h_ID v, th_DocumentId = h_DocumentID v, th_Kind = h_Kind v, th_Sequence = h_Sequence v,
         th_MetadataRevision = h_MetadataRevision v, th_SemanticHash = h_SemanticHash v, th_Content = toTransportRichText content,
         th_PlainText = h_PlainText v, th_MetadataJson = ke_jsonb_out E (h_Metadata v), th_ContributorsJson = ke_jsonb_out E (h_Contributors v),
         th_BlockDiffJson = ke_jsonb_out E (h_BlockDiff v), th_IsAnchor = h_IsAnchor v, th_CreatedAt = he_format H (h_CreatedAt v)\<rparr>)"

primrec history_items :: "henv \<Rightarrow> history_row list \<Rightarrow> apperr + THistory list" where
  "history_items H [] = Inr []"
| "history_items H (h # hs) = sbind (toTransportHistory H h) (\<lambda>v. sbind (history_items H hs) (\<lambda>vs. Inr (v # vs)))"

definition toTransportFolder :: "henv \<Rightarrow> Folder \<Rightarrow> TFolder" where
  "toTransportFolder H v = \<lparr>tf_Id = fo_ID v, tf_ParentId = fo_ParentID v, tf_Name = fo_Name v, tf_Depth = fo_Depth v, tf_Revision = fo_Revision v,
     tf_CreatedAt = he_format H (fo_CreatedAt v), tf_UpdatedAt = he_format H (fo_UpdatedAt v)\<rparr>"

definition toTransportMember :: "henv \<Rightarrow> Member \<Rightarrow> TMember" where
  "toTransportMember H v = \<lparr>tb_User = mb_User v, tb_Role = mb_Role v, tb_Revision = mb_Revision v,
     tb_CreatedAt = he_format H (mb_CreatedAt v), tb_UpdatedAt = he_format H (mb_UpdatedAt v)\<rparr>"

section \<open>Actors\<close>

definition requirePrincipal :: "henv \<Rightarrow> apperr + Principal" where
  "requirePrincipal H = (let token = trim_space (he_token H) in
     if token = [] then Inl Unauthenticated
     else case Verify (he_jwt H) (le_now (he_logic H)) token of Inl _ \<Rightarrow> Inl Unauthenticated
     | Inr p \<Rightarrow> if pr_UserID p \<le> 0 \<or> pr_ExpiresAt p = 0 then Inl Unauthenticated else Inr p)"

definition optionalActor :: "henv \<Rightarrow> apperr + int" where
  "optionalActor H = (let token = trim_space (he_token H) in
     if token = [] then Inr 0
     else case Verify (he_jwt H) (le_now (he_logic H)) token of Inl _ \<Rightarrow> Inl Unauthenticated
     | Inr p \<Rightarrow> if pr_UserID p \<le> 0 then Inl Unauthenticated else Inr (pr_UserID p))"

text \<open>A handler with a required actor: a nil request is refused first, then the token is checked.\<close>

definition with_principal :: "henv \<Rightarrow> 'r option \<Rightarrow> ('r \<Rightarrow> Principal \<Rightarrow> 'a use_case) \<Rightarrow> 'a use_case" where
  "with_principal H request k db = (case request of None \<Rightarrow> (Inl InvalidInput, db)
     | Some r \<Rightarrow> (case requirePrincipal H of Inl e \<Rightarrow> (Inl e, db) | Inr p \<Rightarrow> k r p db))"

definition with_actor :: "henv \<Rightarrow> 'r option \<Rightarrow> ('r \<Rightarrow> int \<Rightarrow> 'a use_case) \<Rightarrow> 'a use_case" where
  "with_actor H request k = with_principal H request (\<lambda>r p. k r (pr_UserID p))"

definition with_optional_actor :: "henv \<Rightarrow> 'r option \<Rightarrow> ('r \<Rightarrow> int \<Rightarrow> 'a use_case) \<Rightarrow> 'a use_case" where
  "with_optional_actor H request k db = (case request of None \<Rightarrow> (Inl InvalidInput, db)
     | Some r \<Rightarrow> (case optionalActor H of Inl e \<Rightarrow> (Inl e, db) | Inr a \<Rightarrow> k r a db))"

definition reply :: "('a \<Rightarrow> apperr + 'b) \<Rightarrow> 'a use_case \<Rightarrow> 'b use_case" where
  "reply f m db = (case m db of (Inl e, db') \<Rightarrow> (Inl e, db') | (Inr a, db') \<Rightarrow> (f a, db'))"

section \<open>Requests\<close>

record ListRequest =
  lr_Query :: "string option"
  lr_Cursor :: "string option"
  lr_Limit :: "int option"
  lr_Access :: "string option"
  lr_Publication :: "string option"
  lr_FolderId :: "string option"

definition listInput :: "ListRequest \<Rightarrow> int \<Rightarrow> ListDocumentsInput" where
  "listInput r actorID = \<lparr>ld_ActorID = actorID, ld_Query = stringValue (lr_Query r), ld_Cursor = stringValue (lr_Cursor r),
     ld_Limit = int32Value (lr_Limit r), ld_Access = stringValue (lr_Access r), ld_Publication = stringValue (lr_Publication r),
     ld_FolderID = stringValue (lr_FolderId r)\<rparr>"

text \<open>\<open>append([]string(nil), tags...)\<close> of an empty list is the nil slice.\<close>

definition copied_tags :: "string list option \<Rightarrow> string list option" where
  "copied_tags tags = (case tags of None \<Rightarrow> None | Some ts \<Rightarrow> if ts = [] then None else Some ts)"

record PublishSnapshotRequest =
  ps_DocumentId :: string
  ps_ExpectedMetadataRevision :: int
  ps_Title :: string
  ps_Summary :: string
  ps_Slug :: string
  ps_Language :: string
  ps_Tags :: "string list option"
  ps_Content :: "TRichText option"
  ps_PlainText :: string
  ps_IdempotencyKey :: "string option"
  ps_PublicationHash :: "string option"
  ps_Icon :: "string option"
  ps_CoverAttachmentId :: "string option"
  ps_CoverFocalX :: "float64 option"
  ps_CoverFocalY :: "float64 option"
  ps_ContentSequence :: int

definition publish_input :: "PublishSnapshotRequest \<Rightarrow> RichTextDocument \<Rightarrow> PublishInput" where
  "publish_input r content = \<lparr>pn_Title = ps_Title r, pn_Summary = ps_Summary r, pn_Slug = ps_Slug r, pn_Language = ps_Language r,
     pn_Tags = copied_tags (ps_Tags r), pn_Content = content, pn_PlainText = ps_PlainText r, pn_ContentSequence = ps_ContentSequence r,
     pn_PublicationHash = stringValue (ps_PublicationHash r), pn_Icon = stringValue (ps_Icon r), pn_CoverAttachmentID = ps_CoverAttachmentId r,
     pn_CoverFocalX = floatValue (ps_CoverFocalX r), pn_CoverFocalY = floatValue (ps_CoverFocalY r),
     pn_IdempotencyKey = stringValue (ps_IdempotencyKey r)\<rparr>"

record CreateCommitRequest =
  cc_DocumentId :: string
  cc_Kind :: int
  cc_Label :: "string option"
  cc_Description :: "string option"
  cc_Content :: "TRichText option"
  cc_PlainText :: "string option"
  cc_ContentHash :: "string option"
  cc_IdempotencyKey :: "string option"

definition commit_request :: "CreateCommitRequest \<Rightarrow> int \<Rightarrow> RichTextDocument option \<Rightarrow> CommitRequest" where
  "commit_request r actorID content = \<lparr>cq_DocumentID = cc_DocumentId r, cq_ActorID = actorID, cq_Kind = commitKindName (cc_Kind r),
     cq_Label = stringValue (cc_Label r), cq_Description = stringValue (cc_Description r), cq_Content = content,
     cq_PlainText = stringValue (cc_PlainText r), cq_ContentHash = stringValue (cc_ContentHash r),
     cq_IdempotencyKey = stringValue (cc_IdempotencyKey r)\<rparr>"

section \<open>Handlers\<close>

definition document_page :: "henv \<Rightarrow> DocumentPage \<Rightarrow> TDocument list \<times> string option \<times> bool" where
  "document_page H page = (map (toTransportDocument H) (dp_Items page), dp_NextCursor page, dp_HasMore page)"

definition document_result :: "henv \<Rightarrow> Document use_case \<Rightarrow> TDocument use_case" where
  "document_result H = reply (\<lambda>d. Inr (toTransportDocument H d))"

definition Handler_ListPublishedDocuments :: "henv \<Rightarrow> ListRequest option \<Rightarrow> (TDocument list \<times> string option \<times> bool) use_case" where
  "Handler_ListPublishedDocuments H request = with_optional_actor H request (\<lambda>r actorID.
     reply (\<lambda>page. Inr (document_page H page)) (DocumentLogic_ListPublished (he_logic H) (listInput r actorID)))"

definition Handler_GetPublishedDocument :: "henv \<Rightarrow> string option \<Rightarrow> (TDocument \<times> TRichText \<times> string) use_case" where
  "Handler_GetPublishedDocument H request = with_optional_actor H request (\<lambda>slug actorID.
     reply (\<lambda>detail. Inr (toTransportDocument H (dd_Document detail), toTransportRichText (dd_Content detail), dd_PlainText detail))
       (DocumentLogic_GetPublished (he_logic H) slug actorID))"

definition Handler_ListDocuments :: "henv \<Rightarrow> ListRequest option \<Rightarrow> (TDocument list \<times> string option \<times> bool) use_case" where
  "Handler_ListDocuments H request = with_actor H request (\<lambda>r actorID.
     reply (\<lambda>page. Inr (document_page H page)) (DocumentLogic_List (he_logic H) (listInput r actorID)))"

definition Handler_ListDeletedDocuments :: "henv \<Rightarrow> ListRequest option \<Rightarrow> (TDocument list \<times> string option \<times> bool) use_case" where
  "Handler_ListDeletedDocuments H request = with_actor H request (\<lambda>r actorID.
     reply (\<lambda>page. Inr (document_page H page)) (DocumentLogic_ListDeleted (he_logic H) (listInput r actorID)))"

definition Handler_CreateDocument :: "henv \<Rightarrow> (string \<times> string option \<times> string option \<times> string option) option \<Rightarrow> TDocument use_case" where
  "Handler_CreateDocument H request = with_actor H request (\<lambda>(title, summary, slug, key) _.
     document_result H (DocumentLogic_Create (he_logic H)
       \<lparr>cd_Title = title, cd_Summary = summary, cd_Slug = slug, cd_IdempotencyKey = stringValue key\<rparr>))"

definition Handler_GetDocument :: "henv \<Rightarrow> string option \<Rightarrow> TDocument use_case" where
  "Handler_GetDocument H request = with_actor H request (\<lambda>documentID actorID.
     document_result H (DocumentLogic_Get (he_logic H) documentID actorID))"

definition Handler_UpdateDocument :: "henv \<Rightarrow> (string \<times> int \<times> document_patch) option \<Rightarrow> TDocument use_case" where
  "Handler_UpdateDocument H request = with_actor H request (\<lambda>(documentID, expected, u) actorID.
     document_result H (DocumentLogic_Update (he_logic H) documentID actorID expected (u\<lparr>up_Tags := copied_tags (up_Tags u)\<rparr>)))"

definition Handler_SetPublication :: "henv \<Rightarrow> (string \<times> int \<times> bool \<times> string option) option \<Rightarrow> TDocument use_case" where
  "Handler_SetPublication H request = with_actor H request (\<lambda>(documentID, expected, published, key) actorID.
     document_result H (DocumentLogic_SetPublication (he_logic H) documentID actorID expected published (stringValue key)))"

definition Handler_PublishSnapshot :: "henv \<Rightarrow> PublishSnapshotRequest option \<Rightarrow> TDocument use_case" where
  "Handler_PublishSnapshot H request = with_actor H request (\<lambda>r actorID db.
     case fromTransportRichText (ps_Content r) of Inl _ \<Rightarrow> (Inl InvalidInput, db)
     | Inr content \<Rightarrow> document_result H (DocumentLogic_PublishSnapshot (he_logic H) (ps_DocumentId r) actorID (ps_ExpectedMetadataRevision r)
         (publish_input r content)) db)"

definition Handler_CreateCommit :: "henv \<Rightarrow> CreateCommitRequest option \<Rightarrow> TCommit use_case" where
  "Handler_CreateCommit H request = with_actor H request (\<lambda>r actorID db.
     case (case cc_Content r of None \<Rightarrow> Inr None
           | Some t \<Rightarrow> (case fromTransportRichText (Some t) of Inl e \<Rightarrow> Inl e | Inr c \<Rightarrow> Inr (Some c))) of
       Inl e \<Rightarrow> (Inl InvalidInput, db)
     | Inr content \<Rightarrow> reply (\<lambda>c. Inr (toTransportCommit H c)) (DocumentLogic_CreateCommit (he_logic H) (commit_request r actorID content)) db)"

definition Handler_ListCommits :: "henv \<Rightarrow> (string \<times> int option) option \<Rightarrow> TCommit list use_case" where
  "Handler_ListCommits H request = with_actor H request (\<lambda>(documentID, limit) actorID.
     reply (\<lambda>cs. Inr (map (toTransportCommit H) cs)) (DocumentLogic_ListCommits (he_logic H) documentID actorID (int32Value limit)))"

definition Handler_GetCommit :: "henv \<Rightarrow> string option \<Rightarrow> TCommit use_case" where
  "Handler_GetCommit H request = with_actor H request (\<lambda>commitID actorID.
     reply (\<lambda>c. Inr (toTransportCommit H c)) (DocumentLogic_GetCommit (he_logic H) commitID actorID))"

definition Handler_RenameCommit :: "henv \<Rightarrow> (string \<times> string \<times> string option) option \<Rightarrow> TCommit use_case" where
  "Handler_RenameCommit H request = with_actor H request (\<lambda>(commitID, label, description) actorID.
     reply (\<lambda>c. Inr (toTransportCommit H c)) (DocumentLogic_RenameCommit (he_logic H) commitID actorID label (stringValue description)))"

definition Handler_RestoreCommit :: "henv \<Rightarrow> (string \<times> string option) option \<Rightarrow> TDocument use_case" where
  "Handler_RestoreCommit H request = with_actor H request (\<lambda>(commitID, key) actorID.
     document_result H (DocumentLogic_RestoreCommit (he_logic H) commitID actorID (stringValue key)))"

definition Handler_ListHistory :: "henv \<Rightarrow> (string \<times> int option) option \<Rightarrow> THistory list use_case" where
  "Handler_ListHistory H request = with_actor H request (\<lambda>(documentID, limit) actorID.
     reply (history_items H) (DocumentLogic_ListHistory (he_logic H) documentID actorID (int32Value limit)))"

definition Handler_GetHistory :: "henv \<Rightarrow> (string \<times> string) option \<Rightarrow> THistory use_case" where
  "Handler_GetHistory H request = with_actor H request (\<lambda>(documentID, revisionID) actorID.
     reply (toTransportHistory H) (DocumentLogic_GetHistory (he_logic H) documentID revisionID actorID))"

definition Handler_ListFolders :: "henv \<Rightarrow> string option option \<Rightarrow> TFolder list use_case" where
  "Handler_ListFolders H request = with_actor H request (\<lambda>parentID actorID.
     reply (\<lambda>fs. Inr (map (toTransportFolder H) fs)) (DocumentLogic_ListFolders (he_logic H) actorID parentID))"

definition Handler_CreateFolder :: "henv \<Rightarrow> (string \<times> string option \<times> string option) option \<Rightarrow> TFolder use_case" where
  "Handler_CreateFolder H request = with_actor H request (\<lambda>(name, parentID, key) actorID.
     reply (\<lambda>f. Inr (toTransportFolder H f)) (DocumentLogic_CreateFolder (he_logic H) actorID name parentID (stringValue key)))"

definition Handler_UpdateFolder :: "henv \<Rightarrow> (string \<times> int \<times> string option \<times> string option) option \<Rightarrow> TFolder use_case" where
  "Handler_UpdateFolder H request = with_actor H request (\<lambda>(folderID, expected, name, parentID) actorID.
     reply (\<lambda>f. Inr (toTransportFolder H f)) (DocumentLogic_UpdateFolder (he_logic H) actorID folderID expected name parentID))"

definition Handler_DeleteFolder :: "henv \<Rightarrow> (string \<times> int) option \<Rightarrow> unit use_case" where
  "Handler_DeleteFolder H request = with_actor H request (\<lambda>(folderID, expected) actorID.
     DocumentLogic_DeleteFolder (he_logic H) actorID folderID expected)"

definition Handler_DeleteDocument :: "henv \<Rightarrow> (string \<times> int) option \<Rightarrow> TDocument use_case" where
  "Handler_DeleteDocument H request = with_actor H request (\<lambda>(documentID, expected) actorID.
     document_result H (DocumentLogic_Delete (he_logic H) documentID actorID expected))"

definition Handler_RestoreDeletedDocument :: "henv \<Rightarrow> string option \<Rightarrow> TDocument use_case" where
  "Handler_RestoreDeletedDocument H request = with_actor H request (\<lambda>documentID actorID.
     document_result H (DocumentLogic_Restore (he_logic H) documentID actorID))"

definition Handler_PurgeDeletedDocument :: "henv \<Rightarrow> (string \<times> int \<times> string option) option \<Rightarrow> unit use_case" where
  "Handler_PurgeDeletedDocument H request = with_actor H request (\<lambda>(documentID, expected, key) actorID.
     DocumentLogic_PurgeDeleted (he_logic H) documentID actorID expected (stringValue key))"

definition Handler_ListMembers :: "henv \<Rightarrow> string option \<Rightarrow> TMember list use_case" where
  "Handler_ListMembers H request = with_actor H request (\<lambda>documentID actorID.
     reply (\<lambda>ms. Inr (map (toTransportMember H) ms)) (MemberLogic_List (he_logic H) documentID actorID))"

definition Handler_AddMember :: "henv \<Rightarrow> (string \<times> string \<times> string \<times> string option) option \<Rightarrow> TMember use_case" where
  "Handler_AddMember H request = with_actor H request (\<lambda>(documentID, username, role, key) actorID.
     reply (\<lambda>m. Inr (toTransportMember H m)) (MemberLogic_Add (he_logic H) documentID actorID username role (stringValue key)))"

definition Handler_UpdateMember :: "henv \<Rightarrow> (string \<times> int \<times> int \<times> string) option \<Rightarrow> TMember use_case" where
  "Handler_UpdateMember H request = with_actor H request (\<lambda>(documentID, userID, expected, role) actorID.
     reply (\<lambda>m. Inr (toTransportMember H m)) (MemberLogic_Update (he_logic H) documentID actorID userID expected role))"

definition Handler_DeleteMember :: "henv \<Rightarrow> (string \<times> int \<times> int) option \<Rightarrow> unit use_case" where
  "Handler_DeleteMember H request = with_actor H request (\<lambda>(documentID, userID, expected) actorID.
     MemberLogic_Delete (he_logic H) documentID actorID userID expected)"

definition Handler_IsMediaPublished :: "henv \<Rightarrow> string option \<Rightarrow> bool use_case" where
  "Handler_IsMediaPublished H request db = (case request of None \<Rightarrow> (Inl InvalidInput, db)
     | Some attachmentID \<Rightarrow> DocumentLogic_IsMediaPublished (he_logic H) attachmentID db)"

definition Handler_AuthorizeCollaboration :: "henv \<Rightarrow> string option \<Rightarrow> TAuthorization use_case" where
  "Handler_AuthorizeCollaboration H request = with_principal H request (\<lambda>documentID p.
     reply (\<lambda>(document, user).
       if doc_ID document \<noteq> documentID \<or> pu_ID user \<noteq> pr_UserID p \<or> \<not> CanRead (doc_Access document) \<or> pr_ExpiresAt p = 0 then Inl Internal
       else Inr \<lparr>tz_DocumentId = doc_ID document, tz_Actor = user, tz_Access = doc_Access document,
              tz_PermissionRevision = doc_PermissionRevision document, tz_TokenExpiresAt = he_format H (pr_ExpiresAt p)\<rparr>)
       (CollaborationLogic_Authorize (he_logic H) documentID (pr_UserID p)))"

definition Handler_ProjectCollaboration :: "henv \<Rightarrow> (string \<times> int \<times> TRichText option \<times> string) option \<Rightarrow> unit use_case" where
  "Handler_ProjectCollaboration H request db = (case request of None \<Rightarrow> (Inl InvalidInput, db)
     | Some (documentID, sequence, content, plainText) \<Rightarrow> (case fromTransportRichText content of Inl _ \<Rightarrow> (Inl InvalidInput, db)
        | Inr c \<Rightarrow> CollaborationLogic_Project (he_logic H) documentID sequence c plainText db))"

end
