(* ===== verification/KnowledgeAccess.thy ===== *)
theory KnowledgeAccess
  imports KnowledgeTransport
begin

text \<open>
  Who may change what through the knowledge RPCs. \<open>serve\<close> dispatches a request to its handler, as the generated service
  does; the lemmas walk once through the layers of a handler, so that each request needs one fact about the
  repository call it makes.
\<close>

section \<open>The service\<close>

datatype krequest =
    RpcListPublishedDocuments "ListRequest option" | RpcGetPublishedDocument "string option"
  | RpcListDocuments "ListRequest option" | RpcListDeletedDocuments "ListRequest option"
  | RpcCreateDocument "(string \<times> string option \<times> string option \<times> string option) option"
  | RpcGetDocument "string option" | RpcUpdateDocument "(string \<times> int \<times> document_patch) option"
  | RpcSetPublication "(string \<times> int \<times> bool \<times> string option) option" | RpcPublishSnapshot "PublishSnapshotRequest option"
  | RpcCreateCommit "CreateCommitRequest option" | RpcListCommits "(string \<times> int option) option" | RpcGetCommit "string option"
  | RpcRenameCommit "(string \<times> string \<times> string option) option" | RpcRestoreCommit "(string \<times> string option) option"
  | RpcListHistory "(string \<times> int option) option" | RpcGetHistory "(string \<times> string) option"
  | RpcListFolders "string option option" | RpcCreateFolder "(string \<times> string option \<times> string option) option"
  | RpcUpdateFolder "(string \<times> int \<times> string option \<times> string option) option" | RpcDeleteFolder "(string \<times> int) option"
  | RpcDeleteDocument "(string \<times> int) option" | RpcRestoreDeletedDocument "string option"
  | RpcPurgeDeletedDocument "(string \<times> int \<times> string option) option"
  | RpcListMembers "string option" | RpcAddMember "(string \<times> string \<times> string \<times> string option) option"
  | RpcUpdateMember "(string \<times> int \<times> int \<times> string) option" | RpcDeleteMember "(string \<times> int \<times> int) option"
  | RpcIsMediaPublished "string option" | RpcAuthorizeCollaboration "string option"
  | RpcProjectCollaboration "(string \<times> int \<times> TRichText option \<times> string) option"

datatype kreply =
    ADocuments "TDocument list" "string option" bool | ADetail TDocument TRichText string | ADocument TDocument
  | ACommit TCommit | ACommits "TCommit list" | AHistory THistory | AHistories "THistory list"
  | AFolder TFolder | AFolders "TFolder list" | AMember TMember | AMembers "TMember list"
  | AAuthorization TAuthorization | APublished bool | AEmpty

definition answer :: "('a \<Rightarrow> kreply) \<Rightarrow> 'a use_case \<Rightarrow> kreply use_case" where
  "answer f = reply (\<lambda>a. Inr (f a))"

definition page_answer :: "(TDocument list \<times> string option \<times> bool) use_case \<Rightarrow> kreply use_case" where
  "page_answer = answer (\<lambda>(items, cursor, more). ADocuments items cursor more)"

fun serve :: "henv \<Rightarrow> krequest \<Rightarrow> kreply use_case" where
  "serve H (RpcListPublishedDocuments q) = page_answer (Handler_ListPublishedDocuments H q)"
| "serve H (RpcGetPublishedDocument q) = answer (\<lambda>(d, c, t). ADetail d c t) (Handler_GetPublishedDocument H q)"
| "serve H (RpcListDocuments q) = page_answer (Handler_ListDocuments H q)"
| "serve H (RpcListDeletedDocuments q) = page_answer (Handler_ListDeletedDocuments H q)"
| "serve H (RpcCreateDocument q) = answer ADocument (Handler_CreateDocument H q)"
| "serve H (RpcGetDocument q) = answer ADocument (Handler_GetDocument H q)"
| "serve H (RpcUpdateDocument q) = answer ADocument (Handler_UpdateDocument H q)"
| "serve H (RpcSetPublication q) = answer ADocument (Handler_SetPublication H q)"
| "serve H (RpcPublishSnapshot q) = answer ADocument (Handler_PublishSnapshot H q)"
| "serve H (RpcCreateCommit q) = answer ACommit (Handler_CreateCommit H q)"
| "serve H (RpcListCommits q) = answer ACommits (Handler_ListCommits H q)"
| "serve H (RpcGetCommit q) = answer ACommit (Handler_GetCommit H q)"
| "serve H (RpcRenameCommit q) = answer ACommit (Handler_RenameCommit H q)"
| "serve H (RpcRestoreCommit q) = answer ADocument (Handler_RestoreCommit H q)"
| "serve H (RpcListHistory q) = answer AHistories (Handler_ListHistory H q)"
| "serve H (RpcGetHistory q) = answer AHistory (Handler_GetHistory H q)"
| "serve H (RpcListFolders q) = answer AFolders (Handler_ListFolders H q)"
| "serve H (RpcCreateFolder q) = answer AFolder (Handler_CreateFolder H q)"
| "serve H (RpcUpdateFolder q) = answer AFolder (Handler_UpdateFolder H q)"
| "serve H (RpcDeleteFolder q) = answer (\<lambda>_. AEmpty) (Handler_DeleteFolder H q)"
| "serve H (RpcDeleteDocument q) = answer ADocument (Handler_DeleteDocument H q)"
| "serve H (RpcRestoreDeletedDocument q) = answer ADocument (Handler_RestoreDeletedDocument H q)"
| "serve H (RpcPurgeDeletedDocument q) = answer (\<lambda>_. AEmpty) (Handler_PurgeDeletedDocument H q)"
| "serve H (RpcListMembers q) = answer AMembers (Handler_ListMembers H q)"
| "serve H (RpcAddMember q) = answer AMember (Handler_AddMember H q)"
| "serve H (RpcUpdateMember q) = answer AMember (Handler_UpdateMember H q)"
| "serve H (RpcDeleteMember q) = answer (\<lambda>_. AEmpty) (Handler_DeleteMember H q)"
| "serve H (RpcIsMediaPublished q) = answer APublished (Handler_IsMediaPublished H q)"
| "serve H (RpcAuthorizeCollaboration q) = answer AAuthorization (Handler_AuthorizeCollaboration H q)"
| "serve H (RpcProjectCollaboration q) = answer (\<lambda>_. AEmpty) (Handler_ProjectCollaboration H q)"

section \<open>Through the layers\<close>

lemma lread_snd [simp]: "snd (lread f db) = db"
  by (auto simp: lread_def lcall_def split: prod.splits sum.splits)

lemma lcall_snd [simp]: "snd (lcall f db) = snd (f db)"
  by (auto simp: lcall_def split: prod.splits sum.splits)

lemma reply_snd [simp]: "snd (reply f m db) = snd (m db)"
  by (auto simp: reply_def split: prod.splits sum.splits)

lemma answer_snd [simp]: "snd (answer g m db) = snd (m db)" "snd (page_answer m' db) = snd (m' db)"
  by (simp_all add: answer_def page_answer_def)

lemma document_result_snd [simp]: "snd (document_result H m db) = snd (m db)"
  by (simp add: document_result_def)

lemma lcheck_snd: "P db \<Longrightarrow> (\<And>a. r = Inr a \<Longrightarrow> P (snd (f a db))) \<Longrightarrow> P (snd (lcheck r f db))"
  by (simp add: lcheck_def split: sum.splits)

lemma with_principal_snd:
  "P db \<Longrightarrow> (\<And>r p. q = Some r \<Longrightarrow> requirePrincipal H = Inr p \<Longrightarrow> P (snd (k r p db))) \<Longrightarrow> P (snd (with_principal H q k db))"
  by (simp add: with_principal_def split: option.splits sum.splits)

lemma with_actor_snd:
  "P db \<Longrightarrow> (\<And>r p. q = Some r \<Longrightarrow> requirePrincipal H = Inr p \<Longrightarrow> P (snd (k r (pr_UserID p) db))) \<Longrightarrow> P (snd (with_actor H q k db))"
  unfolding with_actor_def by (rule with_principal_snd)

lemma with_optional_actor_snd:
  "P db \<Longrightarrow> (\<And>r a. q = Some r \<Longrightarrow> P (snd (k r a db))) \<Longrightarrow> P (snd (with_optional_actor H q k db))"
  by (simp add: with_optional_actor_def split: option.splits sum.splits)

lemma list_page_snd [simp]: "snd (list_page L input public opts t db) = db"
  unfolding list_page_def by (rule lcheck_snd, rule refl, rule lcheck_snd, simp_all)

lemma read_requests [simp]:
  "snd (DocumentLogic_ListPublished L input db) = db" "snd (DocumentLogic_List L input db) = db"
  "snd (DocumentLogic_ListDeleted L input db) = db" "snd (DocumentLogic_GetPublished L slug a db) = db"
  "snd (DocumentLogic_IsMediaPublished L i db) = db" "snd (DocumentLogic_Get L i a db) = db"
  "snd (DocumentLogic_ListCommits L i a n db) = db" "snd (DocumentLogic_GetCommit L i a db) = db"
  "snd (DocumentLogic_ListHistory L i a n db) = db" "snd (DocumentLogic_GetHistory L i rv a db) = db"
  "snd (DocumentLogic_ListFolders L a parent db) = db" "snd (MemberLogic_List L i a db) = db"
  "snd (CollaborationLogic_Authorize L i a db) = db"
  by (simp_all add: DocumentLogic_ListPublished_def DocumentLogic_List_def DocumentLogic_ListDeleted_def DocumentLogic_GetPublished_def
      DocumentLogic_IsMediaPublished_def DocumentLogic_Get_def DocumentLogic_ListCommits_def DocumentLogic_GetCommit_def
      DocumentLogic_ListHistory_def DocumentLogic_GetHistory_def DocumentLogic_ListFolders_def MemberLogic_List_def
      CollaborationLogic_Authorize_def lcheck_def Let_def split: sum.splits prod.splits)

text \<open>The repository call each writing use case makes, or none.\<close>

lemma use_case_calls:
  fixes P :: "kdb \<Rightarrow> bool"
  assumes "P db"
  shows
    "(\<And>doc v. draft_document doc \<Longrightarrow> P (snd (CreateDocument (le_store L) (le_now L) doc v db))) \<Longrightarrow> P (snd (DocumentLogic_Create L ci db))"
    "(\<And>u. P (snd (UpdateDocument (le_store L) (le_now L) i a e u db))) \<Longrightarrow> P (snd (DocumentLogic_Update L i a e u' db))"
    "P (snd (SoftDeleteDocument (le_store L) (le_now L) i a e db)) \<Longrightarrow> P (snd (DocumentLogic_Delete L i a e db))"
    "P (snd (RestoreDeletedDocument (le_store L) (le_now L) i a db)) \<Longrightarrow> P (snd (DocumentLogic_Restore L i a db))"
    "(\<And>v. P (snd (PurgeDeletedDocument (le_store L) (le_now L) i a e v db))) \<Longrightarrow> P (snd (DocumentLogic_PurgeDeleted L i a e key db))"
    "(\<And>v. P (snd (SetPublication (le_store L) (le_now L) i a e pub v db))) \<Longrightarrow> P (snd (DocumentLogic_SetPublication L i a e pub key db))"
    "(\<And>s. P (snd (PublishSnapshot (le_store L) (le_now L) i a e s db))) \<Longrightarrow> P (snd (DocumentLogic_PublishSnapshot L i a e pin db))"
    "(\<And>c. P (snd (CreateCommit (le_store L) (le_now L) (cq_DocumentID cq) (cq_ActorID cq) c db))) \<Longrightarrow> P (snd (DocumentLogic_CreateCommit L cq db))"
    "P (snd (RenameCommit (le_store L) (le_now L) i a lb ds db)) \<Longrightarrow> P (snd (DocumentLogic_RenameCommit L i a lb ds db))"
    "(\<And>v. P (snd (RestoreCommit (le_store L) (le_now L) i a v db))) \<Longrightarrow> P (snd (DocumentLogic_RestoreCommit L i a key db))"
    "(\<And>nm p v. P (snd (CreateFolder (le_store L) (le_now L) a nm p v db))) \<Longrightarrow> P (snd (DocumentLogic_CreateFolder L a nm' p' key db))"
    "(\<And>nm p. P (snd (UpdateFolder (le_store L) (le_now L) a i e nm p db))) \<Longrightarrow> P (snd (DocumentLogic_UpdateFolder L a i e nmo po db))"
    "P (snd (DeleteFolder (le_store L) (le_now L) a i e db)) \<Longrightarrow> P (snd (DocumentLogic_DeleteFolder L a i e db))"
    "(\<And>u v. P (snd (AddMember (le_store L) (le_now L) i a u role v db))) \<Longrightarrow> P (snd (MemberLogic_Add L i a un role key db))"
    "P (snd (UpdateMember (le_store L) (le_now L) i a uid e role db)) \<Longrightarrow> P (snd (MemberLogic_Update L i a uid e role db))"
    "P (snd (DeleteMember (le_store L) (le_now L) i a uid e db)) \<Longrightarrow> P (snd (MemberLogic_Delete L i a uid e db))"
    "(\<And>pj. pj_DocumentID pj = i \<Longrightarrow> P (snd (UpsertProjection (le_store L) pj db))) \<Longrightarrow> P (snd (CollaborationLogic_Project L i sq c t db))"
  using assms
  by (simp_all add: DocumentLogic_Create_def DocumentLogic_Update_def DocumentLogic_Delete_def DocumentLogic_Restore_def DocumentLogic_PurgeDeleted_def
      DocumentLogic_SetPublication_def DocumentLogic_PublishSnapshot_def DocumentLogic_CreateCommit_def DocumentLogic_RenameCommit_def
      DocumentLogic_RestoreCommit_def DocumentLogic_CreateFolder_def DocumentLogic_UpdateFolder_def DocumentLogic_DeleteFolder_def
      MemberLogic_Add_def MemberLogic_Update_def MemberLogic_Delete_def CollaborationLogic_Project_def new_document_def draft_document_def
      lcheck_def Let_def split: sum.splits)


section \<open>One repository call per request\<close>

text \<open>The repository calls a request of an actor can make.\<close>

inductive repo_call :: "kenv \<Rightarrow> int \<Rightarrow> kdb \<Rightarrow> kdb \<Rightarrow> bool" for E a db where
  none: "repo_call E a db db"
| create: "draft_document doc \<Longrightarrow> repo_call E a db (snd (CreateDocument E now doc v db))"
| update: "repo_call E a db (snd (UpdateDocument E now i a e u db))"
| delete: "repo_call E a db (snd (SoftDeleteDocument E now i a e db))"
| restore: "repo_call E a db (snd (RestoreDeletedDocument E now i a db))"
| purge: "repo_call E a db (snd (PurgeDeletedDocument E now i a e v db))"
| unpublish: "repo_call E a db (snd (SetPublication E now i a e pub v db))"
| publish: "repo_call E a db (snd (PublishSnapshot E now i a e s db))"
| commit: "repo_call E a db (snd (CreateCommit E now i a c db))"
| rename: "repo_call E a db (snd (RenameCommit E now i a lb ds db))"
| restore_commit: "repo_call E a db (snd (RestoreCommit E now i a v db))"
| create_folder: "repo_call E a db (snd (CreateFolder E now a nm par v db))"
| update_folder: "repo_call E a db (snd (UpdateFolder E now a i e nmo par db))"
| delete_folder: "repo_call E a db (snd (DeleteFolder E now a i e db))"
| add_member: "repo_call E a db (snd (AddMember E now i a user role v db))"
| update_member: "repo_call E a db (snd (UpdateMember E now i a uid e role db))"
| delete_member: "repo_call E a db (snd (DeleteMember E now i a uid e db))"

lemmas reading_handlers = Handler_ListPublishedDocuments_def Handler_GetPublishedDocument_def Handler_ListDocuments_def Handler_ListDeletedDocuments_def
  Handler_GetDocument_def Handler_ListCommits_def Handler_GetCommit_def Handler_ListHistory_def Handler_GetHistory_def Handler_ListFolders_def
  Handler_ListMembers_def Handler_IsMediaPublished_def Handler_AuthorizeCollaboration_def

lemmas writing_handlers = Handler_CreateDocument_def Handler_UpdateDocument_def Handler_SetPublication_def Handler_PublishSnapshot_def
  Handler_CreateCommit_def Handler_RenameCommit_def Handler_RestoreCommit_def Handler_CreateFolder_def Handler_UpdateFolder_def Handler_DeleteFolder_def
  Handler_DeleteDocument_def Handler_RestoreDeletedDocument_def Handler_PurgeDeletedDocument_def Handler_AddMember_def Handler_UpdateMember_def
  Handler_DeleteMember_def

lemma use_case_repo_call:
  "repo_call (le_store L) a db (snd (DocumentLogic_Create L ci db))"
  "repo_call (le_store L) a db (snd (DocumentLogic_Update L i a e u db))"
  "repo_call (le_store L) a db (snd (DocumentLogic_Delete L i a e db))"
  "repo_call (le_store L) a db (snd (DocumentLogic_Restore L i a db))"
  "repo_call (le_store L) a db (snd (DocumentLogic_PurgeDeleted L i a e key db))"
  "repo_call (le_store L) a db (snd (DocumentLogic_SetPublication L i a e pub key db))"
  "repo_call (le_store L) a db (snd (DocumentLogic_PublishSnapshot L i a e pin db))"
  "cq_ActorID cq = a \<Longrightarrow> repo_call (le_store L) a db (snd (DocumentLogic_CreateCommit L cq db))"
  "repo_call (le_store L) a db (snd (DocumentLogic_RenameCommit L i a lb ds db))"
  "repo_call (le_store L) a db (snd (DocumentLogic_RestoreCommit L i a key db))"
  "repo_call (le_store L) a db (snd (DocumentLogic_CreateFolder L a nm par key db))"
  "repo_call (le_store L) a db (snd (DocumentLogic_UpdateFolder L a i e nmo par db))"
  "repo_call (le_store L) a db (snd (DocumentLogic_DeleteFolder L a i e db))"
  "repo_call (le_store L) a db (snd (MemberLogic_Add L i a un role key db))"
  "repo_call (le_store L) a db (snd (MemberLogic_Update L i a uid e role db))"
  "repo_call (le_store L) a db (snd (MemberLogic_Delete L i a uid e db))"
  by (rule use_case_calls, (rule repo_call.intros | simp add: repo_call.intros)+)+

lemma reading_serve:
  "snd (serve H (RpcListPublishedDocuments q1) db) = db" "snd (serve H (RpcGetPublishedDocument q2) db) = db"
  "snd (serve H (RpcListDocuments q1) db) = db" "snd (serve H (RpcListDeletedDocuments q1) db) = db" "snd (serve H (RpcGetDocument q2) db) = db"
  "snd (serve H (RpcListCommits q3) db) = db" "snd (serve H (RpcGetCommit q2) db) = db" "snd (serve H (RpcListHistory q3) db) = db"
  "snd (serve H (RpcGetHistory q4) db) = db" "snd (serve H (RpcListFolders q5) db) = db" "snd (serve H (RpcListMembers q2) db) = db"
  "snd (serve H (RpcIsMediaPublished q2) db) = db" "snd (serve H (RpcAuthorizeCollaboration q2) db) = db"
  by (simp_all add: reading_handlers with_actor_def with_principal_def with_optional_actor_def split: option.splits sum.splits prod.splits)

definition by_actor :: "henv \<Rightarrow> kdb \<Rightarrow> kdb \<Rightarrow> bool" where
  "by_actor H db db' \<longleftrightarrow> db' = db \<or> (\<exists>p. requirePrincipal H = Inr p \<and> repo_call (le_store (he_logic H)) (pr_UserID p) db db')"

lemma actor_call:
  "(\<And>r a. repo_call (le_store (he_logic H)) a db (snd (k r a db))) \<Longrightarrow> by_actor H db (snd (with_actor H q k db))"
  by (rule with_actor_snd) (auto simp: by_actor_def)

lemma by_actor_refl: "by_actor H db db"
  by (simp add: by_actor_def)

lemma content_serve:
  "by_actor H db (snd (Handler_PublishSnapshot H q db))" "by_actor H db (snd (Handler_CreateCommit H q' db))"
proof -
  show "by_actor H db (snd (Handler_PublishSnapshot H q db))"
    unfolding Handler_PublishSnapshot_def
  proof (rule actor_call)
    show "repo_call (le_store (he_logic H)) a db (snd (case fromTransportRichText (ps_Content r) of Inl x \<Rightarrow> (Inl InvalidInput, db)
      | Inr content \<Rightarrow> document_result H (DocumentLogic_PublishSnapshot (he_logic H) (ps_DocumentId r) a (ps_ExpectedMetadataRevision r) (publish_input r content)) db))" for r a
      by (cases "fromTransportRichText (ps_Content r)") (simp_all add: repo_call.none use_case_repo_call(7))
  qed
  have c: "repo_call (le_store (he_logic H)) a db (snd (reply f (DocumentLogic_CreateCommit (he_logic H) (commit_request r a c)) db))" for r a c f
    by (simp add: use_case_repo_call(8) commit_request_def)
  show "by_actor H db (snd (Handler_CreateCommit H q' db))"
    unfolding Handler_CreateCommit_def by (rule actor_call) (use c in \<open>auto simp: repo_call.none split: sum.split\<close>)
qed

lemma writing_serve:
  "by_actor H db (snd (serve H (RpcCreateDocument q1) db))" "by_actor H db (snd (serve H (RpcUpdateDocument q2) db))"
  "by_actor H db (snd (serve H (RpcSetPublication q3) db))" "by_actor H db (snd (serve H (RpcPublishSnapshot q4) db))"
  "by_actor H db (snd (serve H (RpcCreateCommit q5) db))" "by_actor H db (snd (serve H (RpcRenameCommit q6) db))"
  "by_actor H db (snd (serve H (RpcRestoreCommit q7) db))" "by_actor H db (snd (serve H (RpcCreateFolder q8) db))"
  "by_actor H db (snd (serve H (RpcUpdateFolder q9) db))" "by_actor H db (snd (serve H (RpcDeleteFolder q10) db))"
  "by_actor H db (snd (serve H (RpcDeleteDocument q11) db))" "by_actor H db (snd (serve H (RpcRestoreDeletedDocument q12) db))"
  "by_actor H db (snd (serve H (RpcPurgeDeletedDocument q13) db))" "by_actor H db (snd (serve H (RpcAddMember q14) db))"
  "by_actor H db (snd (serve H (RpcUpdateMember q15) db))" "by_actor H db (snd (serve H (RpcDeleteMember q16) db))"
  by (simp_all only: serve.simps answer_snd content_serve)
    (simp_all only: writing_handlers, (rule actor_call, simp only: split_paired_all prod.case document_result_snd reply_snd use_case_repo_call)+)

lemma project_serve:
  "snd (serve H (RpcProjectCollaboration q) db) = db \<or> (\<exists>i s c t pj. q = Some (i, s, c, t) \<and> pj_DocumentID pj = i \<and>
     snd (serve H (RpcProjectCollaboration q) db) = snd (UpsertProjection (le_store (he_logic H)) pj db))"
proof (cases q)
  case (Some v)
  obtain i s c t where v: "v = (i, s, c, t)" by (cases v)
  let ?P = "\<lambda>db'. db' = db \<or> (\<exists>pj. pj_DocumentID pj = i \<and> db' = snd (UpsertProjection (le_store (he_logic H)) pj db))"
  have "?P (snd (CollaborationLogic_Project (he_logic H) i s c' t db))" for c'
    by (rule use_case_calls(17)) auto
  then have "?P (snd (serve H (RpcProjectCollaboration q) db))"
    by (cases "fromTransportRichText c") (simp_all add: Handler_ProjectCollaboration_def Some v)
  then show ?thesis using Some v by blast
qed (simp add: Handler_ProjectCollaboration_def)

lemma serve_cases:
  obtains (same) "snd (serve H req db) = db"
  | (actor) p where "requirePrincipal H = Inr p" "repo_call (le_store (he_logic H)) (pr_UserID p) db (snd (serve H req db))"
  | (project) i s c t pj where "req = RpcProjectCollaboration (Some (i, s, c, t))" "pj_DocumentID pj = i"
      "snd (serve H req db) = snd (UpsertProjection (le_store (he_logic H)) pj db)"
proof -
  have "by_actor H db (snd (serve H req db)) \<or> (\<exists>q. req = RpcProjectCollaboration q)"
    by (cases req) (simp_all only: writing_serve reading_serve by_actor_refl simp_thms, blast?)
  then show thesis using that project_serve [of H _ db] unfolding by_actor_def by metis
qed


section \<open>Reachable states\<close>

text \<open>Every request is a step of the repository, so all that holds in its reachable states holds behind the RPCs.\<close>

lemma repo_call_step: "repo_call E a db db' \<Longrightarrow> db' = db \<or> kstep E db db'"
  by (cases rule: repo_call.cases) (auto intro: kstep.intros surjective_pairing)

section \<open>What belongs to a document\<close>

definition doc_view where
  "doc_view i (db :: kdb) = (filter (\<lambda>d. d_ID d = i) (t_documents db), filter (\<lambda>m. m_DocumentID m = i) (t_members db),
     filter (\<lambda>p. p_DocumentID p = i) (t_projections db), filter (\<lambda>p. pb_DocumentID p = i) (t_publications db),
     filter (\<lambda>c. c_DocumentID c = i) (t_candidates db), filter (\<lambda>r. mr_DocumentID r = i) (t_media_refs db),
     filter (\<lambda>j. j_DocumentID j = i) (t_jobs db))"

text \<open>The part of it that only the owner decides: who owns the document, whether it is deleted, and its members.\<close>

definition owner_view where
  "owner_view i (db :: kdb) = (map (\<lambda>d. (d_OwnerID d, d_DeletedAt d, d_PurgeAfter d)) (filter (\<lambda>d. d_ID d = i) (t_documents db)),
     filter (\<lambda>m. m_DocumentID m = i) (t_members db))"

lemma doc_view_core: "core db' = core db \<Longrightarrow> doc_view i db' = doc_view i db"
  by (simp add: doc_view_def core_def)

lemma owner_view_core: "core db' = core db \<Longrightarrow> owner_view i db' = owner_view i db"
  by (simp add: owner_view_def core_def)

lemma owner_view_doc: "doc_view i db' = doc_view i db \<Longrightarrow> owner_view i db' = owner_view i db"
  by (simp add: owner_view_def doc_view_def)

lemma filter_upd_other:
  assumes "\<And>r. key (f r) = key r" "\<And>r. p r \<Longrightarrow> key r \<noteq> i"
  shows "filter (\<lambda>r. key r = i) (tbl_upd p f rows) = filter (\<lambda>r. key r = i) rows"
  using assms by (induction rows) (auto simp: tbl_upd_def)

lemma map_filter_upd:
  assumes "\<And>r. key (f r) = key r" "\<And>r. g (f r) = g r"
  shows "map g (filter (\<lambda>r. key r = i) (tbl_upd p f rows)) = map g (filter (\<lambda>r. key r = i) rows)"
  using assms by (induction rows) (auto simp: tbl_upd_def)

lemma filter_del_other:
  assumes "\<And>r. p r \<Longrightarrow> key r \<noteq> i"
  shows "filter (\<lambda>r. key r = i) (tbl_del p rows) = filter (\<lambda>r. key r = i) rows"
  using assms by (induction rows) (auto simp: tbl_del_def)

lemma filter_save_other:
  assumes "key row \<noteq> i"
  shows "filter (\<lambda>r. key r = i) (tbl_save key row rows) = filter (\<lambda>r. key r = i) rows"
proof -
  have "filter (\<lambda>r. key r = i) (tbl_upd (\<lambda>x. key x = key row) (\<lambda>_. row) rows) = filter (\<lambda>r. key r = i) rows"
    using assms by (induction rows) (auto simp: tbl_upd_def)
  then show ?thesis using assms by (simp add: tbl_save_def)
qed

lemma filter_superseded_other:
  "i \<noteq> k \<Longrightarrow> filter (\<lambda>j. j_DocumentID j = i) (tbl_del (\<lambda>j. j_DocumentID j = k \<and> j_ParkedAt j = None) rows) = filter (\<lambda>j. j_DocumentID j = i) rows"
  by (rule filter_del_other) auto

lemmas view_frames = filter_upd_other filter_del_other filter_save_other filter_superseded_other

text \<open>An actor's call that touches document \<open>i\<close> is an editor's, and an owner's when it touches the owner's part.\<close>

definition change_permitted :: "int \<Rightarrow> string \<Rightarrow> kdb \<Rightarrow> kdb \<Rightarrow> bool" where
  "change_permitted a i db db' \<longleftrightarrow> (\<forall>d. get_document i db = Some d \<longrightarrow>
     doc_view i db' = doc_view i db \<or>
     CanEdit (accessFor d a db) \<and> (owner_view i db' = owner_view i db \<or> accessFor d a db = AccessOwner))"

lemma change_permitted_core: "core db' = core db \<Longrightarrow> change_permitted a i db db'"
  unfolding change_permitted_def using doc_view_core [of db' db] by blast

lemma change_permitted_editor:
  assumes "get_document k db = Some d" "CanEdit (accessFor d a db)" "i \<noteq> k \<Longrightarrow> doc_view i db' = doc_view i db" "owner_view k db' = owner_view k db"
  shows "change_permitted a i db db'"
  using assms by (cases "i = k") (auto simp: change_permitted_def)

lemma change_permitted_owner:
  assumes "get_document k db = Some d" "accessFor d a db = AccessOwner" "i \<noteq> k \<Longrightarrow> doc_view i db' = doc_view i db"
  shows "change_permitted a i db db'"
  using assms by (cases "i = k") (auto simp: change_permitted_def CanEdit_def)


lemma touch_documents:
  assumes "core db' = core (db\<lparr>t_documents := tbl_upd (\<lambda>x. d_ID x = k) f (t_documents db)\<rparr>)" "\<And>d. d_ID (f d) = d_ID d"
  shows "i \<noteq> k \<Longrightarrow> doc_view i db' = doc_view i db"
    "(\<And>d. d_OwnerID (f d) = d_OwnerID d \<and> d_DeletedAt (f d) = d_DeletedAt d \<and> d_PurgeAfter (f d) = d_PurgeAfter d) \<Longrightarrow> owner_view i db' = owner_view i db"
  using coreD [OF assms(1)] assms(2)
  by (auto simp: doc_view_def owner_view_def view_frames map_filter_upd)

lemma touch_content:
  assumes "core db' = core (db\<lparr>t_documents := tbl_upd (\<lambda>x. d_ID x = k) f (t_documents db),
      t_projections := tbl_upd (\<lambda>p. p_DocumentID p = k) g (t_projections db)\<rparr>)"
    "\<And>d. d_ID (f d) = d_ID d \<and> d_OwnerID (f d) = d_OwnerID d \<and> d_DeletedAt (f d) = d_DeletedAt d \<and> d_PurgeAfter (f d) = d_PurgeAfter d"
    "\<And>p. p_DocumentID (g p) = p_DocumentID p"
  shows "i \<noteq> k \<Longrightarrow> doc_view i db' = doc_view i db" "owner_view i db' = owner_view i db"
  using coreD [OF assms(1)] assms(2,3) by (auto simp: doc_view_def owner_view_def view_frames map_filter_upd)

lemma touch_withdrawn:
  assumes "core db' = core (withdrawn jobID now d f db)" "\<And>x. d_ID (f x) = d_ID x"
  shows "i \<noteq> d_ID d \<Longrightarrow> doc_view i db' = doc_view i db"
    "(\<And>d. d_OwnerID (f d) = d_OwnerID d \<and> d_DeletedAt (f d) = d_DeletedAt d \<and> d_PurgeAfter (f d) = d_PurgeAfter d) \<Longrightarrow> owner_view i db' = owner_view i db"
  using coreD [OF assms(1)] assms(2)
  by (auto simp: doc_view_def owner_view_def withdrawn_def view_frames map_filter_upd new_job_def)

lemma touch_submitted:
  assumes "core db' = core (submitted E jobID now d input db)"
  shows "i \<noteq> d_ID d \<Longrightarrow> doc_view i db' = doc_view i db" "owner_view i db' = owner_view i db"
  using coreD [OF assms(1)]
  by (auto simp: doc_view_def owner_view_def submitted_def publish_row_def new_candidate_def view_frames map_filter_upd new_job_def)

lemma touch_members:
  assumes "permission_changed E now d g db db'" "i \<noteq> d_ID d \<Longrightarrow> filter (\<lambda>m. m_DocumentID m = i) (g (t_members db)) = filter (\<lambda>m. m_DocumentID m = i) (t_members db)"
  shows "i \<noteq> d_ID d \<Longrightarrow> doc_view i db' = doc_view i db"
  using assms coreD [of db' "db\<lparr>t_documents := tbl_upd (\<lambda>x. d_ID x = d_ID d) (permission_bump now) (t_documents db), t_members := g (t_members db)\<rparr>"]
  by (auto simp: doc_view_def permission_changed_def permission_bump_def view_frames)


section \<open>Every call is change_permitted\<close>

lemma change_permitted_refl: "change_permitted a i db db"
  by (simp add: change_permitted_def)

lemma update_change_permitted: "UpdateDocument E now k a e u db = (r, db') \<Longrightarrow> change_permitted a i db db'"
proof (cases r)
  case (Inr d)
  assume "UpdateDocument E now k a e u db = (r, db')"
  then show ?thesis unfolding Inr
  proof (rule UpdateDocument_success)
    fix d
    assume d: "get_document k db = Some d" "CanEdit (accessFor d a db)"
      and c: "core db' = core (db\<lparr>t_documents := tbl_upd (\<lambda>x. d_ID x = k) (apply_patch u now) (t_documents db)\<rparr>)"
    show ?thesis by (rule change_permitted_editor [OF d touch_documents(1) [OF c] touch_documents(2) [OF c]]) (simp_all add: apply_patch_def)
  qed
qed (auto dest: failed_unchanged simp: change_permitted_refl)

lemma delete_change_permitted: "SoftDeleteDocument E now k a e db = (r, db') \<Longrightarrow> change_permitted a i db db'"
proof (cases r)
  case (Inr d)
  assume "SoftDeleteDocument E now k a e db = (r, db')"
  then show ?thesis unfolding Inr
  proof (rule SoftDeleteDocument_success)
    fix d jobID
    assume d: "get_document k db = Some d" "accessFor d a db = AccessOwner"
      and c: "core db' = core (withdrawn jobID now d (soft_delete_row now (d_PublicationGeneration d + 1)) db)"
    show ?thesis
      by (rule change_permitted_owner [OF d touch_withdrawn(1) [OF c]]) (simp_all add: soft_delete_row_def get_document_ID [OF d(1)])
  qed
qed (auto dest: failed_unchanged simp: change_permitted_refl)

lemma restore_change_permitted: "RestoreDeletedDocument E now k a db = (r, db') \<Longrightarrow> change_permitted a i db db'"
proof (cases r)
  case (Inr d)
  assume "RestoreDeletedDocument E now k a db = (r, db')"
  then show ?thesis unfolding Inr
  proof (rule RestoreDeletedDocument_success)
    fix d
    assume d: "get_document k db = Some d" "accessFor d a db = AccessOwner"
      and c: "core db' = core (db\<lparr>t_documents := tbl_upd (\<lambda>x. d_ID x = k) (restore_row now) (t_documents db)\<rparr>)"
    show ?thesis by (rule change_permitted_owner [OF d touch_documents(1) [OF c]]) (simp_all add: restore_row_def)
  qed
qed (auto dest: failed_unchanged simp: change_permitted_refl)

lemma purge_change_permitted: "PurgeDeletedDocument E now k a e v db = (r, db') \<Longrightarrow> change_permitted a i db db'"
proof (cases r)
  case (Inr u)
  assume "PurgeDeletedDocument E now k a e v db = (r, db')"
  from PurgeDeletedDocument_success [OF this [unfolded Inr]] show ?thesis
  proof (elim disjE exE conjE)
    fix d
    assume d: "get_document k db = Some d" "accessFor d a db = AccessOwner"
      and c: "core db' = core (db\<lparr>t_documents := tbl_upd (\<lambda>x. d_ID x = k) (purge_request_row now) (t_documents db)\<rparr>)"
    show ?thesis by (rule change_permitted_owner [OF d touch_documents(1) [OF c]]) (simp_all add: purge_request_row_def)
  qed (rule change_permitted_core)
qed (auto dest: failed_unchanged simp: change_permitted_refl)

lemma unpublish_change_permitted: "SetPublication E now k a e pub v db = (r, db') \<Longrightarrow> change_permitted a i db db'"
proof (cases r)
  case (Inr u)
  assume "SetPublication E now k a e pub v db = (r, db')"
  from SetPublication_success [OF this [unfolded Inr]] show ?thesis
  proof (elim disjE exE conjE)
    fix d jobID
    assume d: "get_document k db = Some d" "CanEdit (accessFor d a db)"
      and c: "core db' = core (withdrawn jobID now d (unpublish_row now (d_PublicationGeneration d + 1)) db)"
    show ?thesis
      by (rule change_permitted_editor [OF d touch_withdrawn(1) [OF c] touch_withdrawn(2) [OF c]]) (simp_all add: unpublish_row_def get_document_ID [OF d(1)])
  qed (simp add: change_permitted_refl)
qed (auto dest: SetPublication_fail simp: change_permitted_refl)

lemma publish_change_permitted: "PublishSnapshot E now k a e s db = (r, db') \<Longrightarrow> change_permitted a i db db'"
proof (cases r)
  case (Inr u)
  assume "PublishSnapshot E now k a e s db = (r, db')"
  from PublishSnapshot_success [OF this [unfolded Inr]] show ?thesis
  proof (elim disjE exE conjE)
    fix d jobID
    assume d: "get_document k db = Some d" "CanEdit (accessFor d a db)" and c: "core db' = core (submitted E jobID now d s db)"
    show ?thesis by (rule change_permitted_editor [OF d touch_submitted(1) [OF c] touch_submitted(2) [OF c]]) (simp_all add: get_document_ID [OF d(1)])
  qed (simp add: change_permitted_refl)
qed (auto dest: failed_unchanged simp: change_permitted_refl)

lemma restore_commit_change_permitted: "RestoreCommit E now cid a v db = (r, db') \<Longrightarrow> change_permitted a i db db'"
proof (cases r)
  case (Inr u)
  assume "RestoreCommit E now cid a v db = (r, db')"
  from RestoreCommit_success [OF this [unfolded Inr]] show ?thesis
  proof (elim disjE exE conjE)
    fix cm d
    assume d: "get_document (cm_DocumentID cm) db = Some d" "CanEdit (accessFor d a db)"
      and c: "core db' = core (db\<lparr>t_documents := tbl_upd (\<lambda>x. d_ID x = cm_DocumentID cm) (restore_document now) (t_documents db),
        t_projections := tbl_upd (\<lambda>p. p_DocumentID p = cm_DocumentID cm) (restore_projection now cm) (t_projections db)\<rparr>)"
    show ?thesis
      by (rule change_permitted_editor [OF d touch_content(1) [OF c] touch_content(2) [OF c]]) (simp_all add: restore_document_def restore_projection_def)
  qed (rule change_permitted_core)
qed (auto dest: failed_unchanged simp: change_permitted_refl)

lemma member_change_permitted:
  "AddMember E now k a user role v db = (r1, db') \<Longrightarrow> change_permitted a i db db'"
  "UpdateMember E now k a uid e role db = (r2, db') \<Longrightarrow> change_permitted a i db db'"
  "DeleteMember E now k a uid e db = (r3, db') \<Longrightarrow> change_permitted a i db db'"
proof -
  show "change_permitted a i db db'" if "AddMember E now k a user role v db = (r1, db')"
  proof (cases r1)
    case (Inr m)
    show ?thesis
    proof (rule AddMember_success [OF that [unfolded Inr]])
      fix d
      assume d: "get_document k db = Some d" "accessFor d a db = AccessOwner" and
        c: "(core db' = core db \<and> t_outbox db' = t_outbox db \<and> (\<exists>s. idempotentResource now v db = Inr (Some s, db))) \<or>
          (role \<in> set member_roles \<and> (\<forall>m \<in> set (t_members db). m_key m \<noteq> (k, pu_ID user)) \<and>
          permission_changed E now d (\<lambda>ms. ms @ [\<lparr>m_DocumentID = k, m_UserID = pu_ID user, m_Username = pu_Username user,
            m_Avatar = pu_Avatar user, m_Role = role, m_Revision = 1, m_CreatedBy = a, m_CreatedAt = now, m_UpdatedAt = now\<rparr>]) db db')"
      from c show ?thesis
      proof (elim disjE conjE)
        assume m: "permission_changed E now d (\<lambda>ms. ms @ [\<lparr>m_DocumentID = k, m_UserID = pu_ID user, m_Username = pu_Username user,
            m_Avatar = pu_Avatar user, m_Role = role, m_Revision = 1, m_CreatedBy = a, m_CreatedAt = now, m_UpdatedAt = now\<rparr>]) db db'"
        show ?thesis by (rule change_permitted_owner [OF d touch_members [OF m]]) (auto simp: get_document_ID [OF d(1)])
      qed (rule change_permitted_core)
    qed
  qed (use that in \<open>auto dest: failed_unchanged simp: change_permitted_refl\<close>)
  show "change_permitted a i db db'" if "UpdateMember E now k a uid e role db = (r2, db')"
  proof (cases r2)
    case (Inr m)
    show ?thesis
      by (rule UpdateMember_success [OF that [unfolded Inr]], rule change_permitted_owner, assumption, assumption, rule touch_members, assumption)
        (auto simp: member_patch_def m_key_def get_document_ID intro!: filter_upd_other)
  qed (use that in \<open>auto dest: failed_unchanged simp: change_permitted_refl\<close>)
  show "change_permitted a i db db'" if "DeleteMember E now k a uid e db = (r3, db')"
  proof (cases r3)
    case (Inr m)
    show ?thesis
      by (rule DeleteMember_success [OF that [unfolded Inr]], rule change_permitted_owner, assumption, assumption, rule touch_members, assumption)
        (auto simp: m_key_def get_document_ID intro!: filter_del_other)
  qed (use that in \<open>auto dest: failed_unchanged simp: change_permitted_refl\<close>)
qed


lemma create_change_permitted: "CreateDocument E now doc v db = (r, db') \<Longrightarrow> change_permitted a i db db'"
proof (cases r)
  case (Inr u)
  assume "CreateDocument E now doc v db = (r, db')"
  from CreateDocument_success [OF this [unfolded Inr]] show ?thesis
  proof (elim disjE conjE)
    assume new: "\<forall>d \<in> set (t_documents db). d_ID d \<noteq> doc_ID doc"
      and c: "core db' = core (db\<lparr>t_documents := t_documents db @ [documentToModel doc],
         t_projections := t_projections db @ [\<lparr>p_DocumentID = doc_ID doc, p_Sequence = 0, p_Content = initial_content,
                        p_PlainText = [], p_ProjectedAt = doc_CreatedAt doc\<rparr>]\<rparr>)"
    have "i \<noteq> doc_ID doc" if "get_document i db = Some d" for d
      using that new by (auto simp: get_document_def tbl_get_def find_Some_iff)
    then show ?thesis
      using coreD [OF c] by (auto simp: change_permitted_def doc_view_def documentToModel_def)
  qed (rule change_permitted_core)
qed (auto dest: failed_unchanged simp: change_permitted_refl)

lemma repo_call_change_permitted: "repo_call E a db db' \<Longrightarrow> change_permitted a i db db'"
proof (induction rule: repo_call.induct)
  case (commit now k c)
  show ?case by (rule change_permitted_core) (rule CreateCommit_core)
next
  case (rename now k lb ds)
  show ?case by (rule change_permitted_core) (rule RenameCommit_core)
next
  case (create_folder now nm par v)
  show ?case by (rule change_permitted_core) (rule folder_core)
next
  case (update_folder now k e nmo par)
  show ?case by (rule change_permitted_core) (rule folder_core)
next
  case (delete_folder now k e)
  show ?case by (rule change_permitted_core) (rule folder_core)
qed (auto simp: change_permitted_refl intro: surjective_pairing create_change_permitted update_change_permitted delete_change_permitted restore_change_permitted purge_change_permitted
    unpublish_change_permitted publish_change_permitted restore_commit_change_permitted member_change_permitted)

lemma project_frame:
  assumes "UpsertProjection E pj db = (r, db')"
  shows "i \<noteq> pj_DocumentID pj \<Longrightarrow> doc_view i db' = doc_view i db" "owner_view i db' = owner_view i db"
proof -
  have "(i \<noteq> pj_DocumentID pj \<longrightarrow> doc_view i db' = doc_view i db) \<and> owner_view i db' = owner_view i db"
  proof (cases r)
    case (Inl e)
    then show ?thesis using assms by (auto dest: failed_unchanged)
  next
    case (Inr u)
    show ?thesis
    proof (rule UpsertProjection_success [OF assms [unfolded Inr]], elim disjE exE conjE)
      fix content
      assume c: "core db' = core (db\<lparr>
          t_documents := tbl_upd (\<lambda>x. d_ID x = pj_DocumentID pj) (project_document pj) (t_documents db),
          t_projections := tbl_upd (\<lambda>x. p_DocumentID x = pj_DocumentID pj) (project_row pj content) (t_projections db)\<rparr>)"
      show ?thesis
        by (intro conjI impI touch_content [OF c]) (simp_all add: project_document_def project_row_def)
    qed simp
  qed
  then show "i \<noteq> pj_DocumentID pj \<Longrightarrow> doc_view i db' = doc_view i db" "owner_view i db' = owner_view i db" by simp_all
qed

section \<open>Properties\<close>

text \<open>C4: A knowledge RPC changes what belongs to an existing document (its row, members, content, publication and
  publication jobs) only for the holder of a verified token who owns or edits it; ownership, deletion state and members
  change only for the owner. The one exception is the projection of collaborative edits, which asks for no token and
  leaves the owner's part alone.\<close>

theorem document_changes_authorised:
  assumes "serve H req db = (r, db')" and "get_document i db = Some d"
  shows "doc_view i db' = doc_view i db
    \<or> (\<exists>p. requirePrincipal H = Inr p \<and> CanEdit (accessFor d (pr_UserID p) db)
         \<and> (owner_view i db' = owner_view i db \<or> accessFor d (pr_UserID p) db = AccessOwner))
    \<or> ((\<exists>s c t. req = RpcProjectCollaboration (Some (i, s, c, t))) \<and> owner_view i db' = owner_view i db)"
proof -
  have db': "snd (serve H req db) = db'" using assms(1) by simp
  show ?thesis
  proof (cases H req db rule: serve_cases)
    case same
    then show ?thesis using db' by simp
  next
    case (actor p)
    then show ?thesis using repo_call_change_permitted [of _ "pr_UserID p" db db' i] assms(2) unfolding db' change_permitted_def by blast
  next
    case (project k s c t pj)
    obtain u where "UpsertProjection (le_store (he_logic H)) pj db = (u, db')"
      using project(3) unfolding db' by (metis surjective_pairing)
    from project_frame [OF this] project(1,2) show ?thesis by (cases "i = k") auto
  qed
qed


end
