(* ===== verification/KnowledgeRequests.thy ===== *)
theory KnowledgeRequests
  imports KnowledgeAccess KnowledgeScenario
begin

text \<open>
  What the knowledge RPCs answer: who may read, what a request without a valid token gets, what a retried creation gets,
  and what the conversion of rich text loses.
\<close>

section \<open>Tokens\<close>

text \<open>The requests that need no token.\<close>

definition public_request :: "krequest \<Rightarrow> bool" where
  "public_request req = (case req of RpcListPublishedDocuments _ \<Rightarrow> True | RpcGetPublishedDocument _ \<Rightarrow> True | RpcIsMediaPublished _ \<Rightarrow> True
     | RpcProjectCollaboration _ \<Rightarrow> True | _ \<Rightarrow> False)"

lemma requirePrincipal_error: "requirePrincipal H = Inl e \<Longrightarrow> e = Unauthenticated"
  by (auto simp: requirePrincipal_def Let_def split: if_splits sum.splits)

definition refused :: "kdb \<Rightarrow> (apperr + 'a) \<times> kdb \<Rightarrow> bool" where
  "refused db x \<longleftrightarrow> (\<exists>e. x = (Inl e, db) \<and> (e = Unauthenticated \<or> e = InvalidInput))"

lemma refused_layers:
  "refused db (m db) \<Longrightarrow> refused db (reply f m db)" "refused db (m db) \<Longrightarrow> refused db (answer g m db)"
  "refused db (m' db) \<Longrightarrow> refused db (page_answer m' db)"
  by (auto simp: refused_def reply_def answer_def page_answer_def)

lemma refused_actor:
  assumes "requirePrincipal H = Inl e"
  shows "refused db (with_actor H q k db)" "refused db (with_principal H q k' db)"
  using assms requirePrincipal_error [OF assms] by (auto simp: refused_def with_actor_def with_principal_def split: option.splits)

lemma refused_handlers:
  assumes "requirePrincipal H = Inl e"
  shows "refused db (Handler_ListDocuments H q1 db)" "refused db (Handler_ListDeletedDocuments H q1 db)" "refused db (Handler_CreateDocument H q2 db)"
    "refused db (Handler_GetDocument H q3 db)" "refused db (Handler_UpdateDocument H q4 db)" "refused db (Handler_SetPublication H q5 db)"
    "refused db (Handler_PublishSnapshot H q6 db)" "refused db (Handler_CreateCommit H q7 db)" "refused db (Handler_ListCommits H q8 db)"
    "refused db (Handler_GetCommit H q3 db)" "refused db (Handler_RenameCommit H q9 db)" "refused db (Handler_RestoreCommit H q10 db)"
    "refused db (Handler_ListHistory H q8 db)" "refused db (Handler_GetHistory H q11 db)" "refused db (Handler_ListFolders H q12 db)"
    "refused db (Handler_CreateFolder H q13 db)" "refused db (Handler_UpdateFolder H q14 db)" "refused db (Handler_DeleteFolder H q15 db)"
    "refused db (Handler_DeleteDocument H q15 db)" "refused db (Handler_RestoreDeletedDocument H q3 db)" "refused db (Handler_PurgeDeletedDocument H q16 db)"
    "refused db (Handler_ListMembers H q3 db)" "refused db (Handler_AddMember H q17 db)" "refused db (Handler_UpdateMember H q18 db)"
    "refused db (Handler_DeleteMember H q19 db)" "refused db (Handler_AuthorizeCollaboration H q3 db)"
  unfolding writing_handlers reading_handlers by (rule refused_actor [OF assms])+


section \<open>Reading\<close>

lemma with_principal_Inr: "with_principal H q k db = (Inr x, db') \<Longrightarrow> \<exists>r p. q = Some r \<and> requirePrincipal H = Inr p \<and> k r p db = (Inr x, db')"
  by (auto simp: with_principal_def split: option.splits sum.splits)

lemma with_actor_Inr: "with_actor H q k db = (Inr x, db') \<Longrightarrow> \<exists>r p. q = Some r \<and> requirePrincipal H = Inr p \<and> k r (pr_UserID p) db = (Inr x, db')"
  unfolding with_actor_def by (rule with_principal_Inr)

lemma reply_Inr: "reply f m db = (Inr x, db') \<Longrightarrow> \<exists>a. m db = (Inr a, db')"
  by (auto simp: reply_def split: sum.splits prod.splits)

lemma answer_Inr: "answer g m db = (Inr x, db') \<Longrightarrow> \<exists>a. m db = (Inr a, db')"
  unfolding answer_def by (rule reply_Inr)

lemma lcheck_Inr: "lcheck r f db = (Inr x, db') \<Longrightarrow> \<exists>a. r = Inr a \<and> f a db = (Inr x, db')"
  by (auto simp: lcheck_def split: sum.splits)

lemma lread_Inr: "lread f db = (Inr x, db') \<longleftrightarrow> f db = Inr x \<and> db' = db"
  by (auto simp: lread_def lcall_def split: sum.splits)

lemmas use_case_Inr = lcheck_Inr [THEN exE] with_actor_Inr [THEN exE] with_principal_Inr [THEN exE]

text \<open>The document a reading request is about; a commit's is found through the commit.\<close>

definition read_target :: "krequest \<Rightarrow> kdb \<Rightarrow> string option" where
  "read_target req db = (case req of RpcGetDocument q \<Rightarrow> q | RpcListMembers q \<Rightarrow> q | RpcAuthorizeCollaboration q \<Rightarrow> q
     | RpcListCommits (Some (i, _)) \<Rightarrow> Some i
     | RpcGetCommit (Some c) \<Rightarrow> map_option cm_DocumentID (get_commit c db)
     | _ \<Rightarrow> None)"

definition may_read :: "henv \<Rightarrow> string \<Rightarrow> kdb \<Rightarrow> bool" where
  "may_read H i db \<longleftrightarrow> (\<exists>p d. requirePrincipal H = Inr p \<and> get_document i db = Some d \<and> d_DeletedAt d = None \<and> CanRead (accessFor d (pr_UserID p) db))"

lemma getDocument_access:
  "getDocument E i a False db = Inr (doc, db') \<Longrightarrow> \<exists>d. get_document i db = Some d \<and> d_DeletedAt d = None \<and> doc_Access doc = accessFor d a db"
proof -
  have a: "doc_Access (loadDocumentStructure db v) = doc_Access v" "doc_Access (documentFromModel r acc p) = acc" for v r acc p and db :: kdb
    by (simp_all add: loadDocumentStructure_def Let_def documentFromModel_def split: option.split)
  assume "getDocument E i a False db = Inr (doc, db')"
  then show ?thesis unfolding getDocument_def tbind_Inr tsome_iff tread_iff find_document_iff by (auto simp: a)
qed

lemma lock_access:
  "lockDocument i a False db = Inr ((d, acc), db') \<Longrightarrow> get_document i db = Some d \<and> d_DeletedAt d = None \<and> acc = accessFor d a db"
  by (simp add: lockDocument_iff find_document_iff)

lemma repository_reads:
  "GetDocument E i a False db = Inr doc \<Longrightarrow> \<exists>d. get_document i db = Some d \<and> d_DeletedAt d = None \<and> doc_Access doc = accessFor d a db"
  "AuthorizeCollaboration E i a db = Inr doc \<Longrightarrow> \<exists>d. get_document i db = Some d \<and> d_DeletedAt d = None \<and> CanRead (accessFor d a db)"
  "ListMembers i a db = Inr ms \<Longrightarrow> \<exists>d. get_document i db = Some d \<and> d_DeletedAt d = None \<and> CanRead (accessFor d a db)"
  "ListCommits E i a n db = Inr cs \<Longrightarrow> \<exists>d. get_document i db = Some d \<and> d_DeletedAt d = None \<and> CanRead (accessFor d a db)"
  "GetCommit E c a db = Inr cm \<Longrightarrow> \<exists>i d. map_option cm_DocumentID (get_commit c db) = Some i \<and> get_document i db = Some d \<and> d_DeletedAt d = None \<and> CanRead (accessFor d a db)"
proof -
  show g: "GetDocument E i a False db = Inr doc \<Longrightarrow> \<exists>d. get_document i db = Some d \<and> d_DeletedAt d = None \<and> doc_Access doc = accessFor d a db" for doc
    by (auto simp: GetDocument_def split: sum.splits dest: getDocument_access)
  show "AuthorizeCollaboration E i a db = Inr doc \<Longrightarrow> \<exists>d. get_document i db = Some d \<and> d_DeletedAt d = None \<and> CanRead (accessFor d a db)"
    by (auto simp: AuthorizeCollaboration_def split: sum.splits if_splits dest!: g)
  show "ListMembers i a db = Inr ms \<Longrightarrow> \<exists>d. get_document i db = Some d \<and> d_DeletedAt d = None \<and> CanRead (accessFor d a db)"
    by (auto simp: ListMembers_def CanRead_def split: sum.splits if_splits prod.splits dest!: lock_access)
  show "ListCommits E i a n db = Inr cs \<Longrightarrow> \<exists>d. get_document i db = Some d \<and> d_DeletedAt d = None \<and> CanRead (accessFor d a db)"
    by (auto simp: ListCommits_def split: sum.splits if_splits prod.splits dest!: lock_access)
  show "GetCommit E c a db = Inr cm \<Longrightarrow> \<exists>i d. map_option cm_DocumentID (get_commit c db) = Some i \<and> get_document i db = Some d \<and> d_DeletedAt d = None \<and> CanRead (accessFor d a db)"
    by (auto simp: GetCommit_def split: sum.splits if_splits prod.splits option.splits dest!: lock_access)
qed

lemma reading_use_cases:
  "DocumentLogic_Get L i a db = (Inr doc, db') \<Longrightarrow> \<exists>d. get_document i db = Some d \<and> d_DeletedAt d = None \<and> CanRead (accessFor d a db)"
  "MemberLogic_List L i a db = (Inr ms, db') \<Longrightarrow> \<exists>d. get_document i db = Some d \<and> d_DeletedAt d = None \<and> CanRead (accessFor d a db)"
  "CollaborationLogic_Authorize L i a db = (Inr z, db') \<Longrightarrow> \<exists>d. get_document i db = Some d \<and> d_DeletedAt d = None \<and> CanRead (accessFor d a db)"
  "DocumentLogic_ListCommits L i a n db = (Inr cs, db') \<Longrightarrow> \<exists>d. get_document i db = Some d \<and> d_DeletedAt d = None \<and> CanRead (accessFor d a db)"
  "DocumentLogic_GetCommit L c a db = (Inr cm, db') \<Longrightarrow>
     \<exists>i d. map_option cm_DocumentID (get_commit c db) = Some i \<and> get_document i db = Some d \<and> d_DeletedAt d = None \<and> CanRead (accessFor d a db)"
proof -
  show "DocumentLogic_Get L i a db = (Inr doc, db') \<Longrightarrow> \<exists>d. get_document i db = Some d \<and> d_DeletedAt d = None \<and> CanRead (accessFor d a db)"
    by (auto simp: DocumentLogic_Get_def lread_Inr split: sum.split_asm if_split_asm dest!: lcheck_Inr repository_reads(1))
  show "MemberLogic_List L i a db = (Inr ms, db') \<Longrightarrow> \<exists>d. get_document i db = Some d \<and> d_DeletedAt d = None \<and> CanRead (accessFor d a db)"
    by (auto simp: MemberLogic_List_def lread_Inr dest!: lcheck_Inr dest: repository_reads(3))
  show "CollaborationLogic_Authorize L i a db = (Inr z, db') \<Longrightarrow> \<exists>d. get_document i db = Some d \<and> d_DeletedAt d = None \<and> CanRead (accessFor d a db)"
    by (auto simp: CollaborationLogic_Authorize_def lread_Inr split: sum.split_asm if_split_asm dest!: lcheck_Inr repository_reads(2))
  show "DocumentLogic_ListCommits L i a n db = (Inr cs, db') \<Longrightarrow> \<exists>d. get_document i db = Some d \<and> d_DeletedAt d = None \<and> CanRead (accessFor d a db)"
    by (auto simp: DocumentLogic_ListCommits_def lread_Inr dest!: lcheck_Inr dest: repository_reads(4))
  assume "DocumentLogic_GetCommit L c a db = (Inr cm, db')"
  then have "GetCommit (le_store L) c a db = Inr cm" by (auto simp: DocumentLogic_GetCommit_def lread_Inr dest!: lcheck_Inr)
  then show "\<exists>i d. map_option cm_DocumentID (get_commit c db) = Some i \<and> get_document i db = Some d \<and> d_DeletedAt d = None \<and> CanRead (accessFor d a db)"
    by (rule repository_reads(5))
qed



text \<open>The history RPCs do not ask for access: to any holder of a valid token they serve the saved revisions of every live
  document, in the same way whether or not the caller is a member.\<close>

theorem history_served_to_anyone:
  assumes "requirePrincipal H = Inr p" and "ValidateID (le_uuid (he_logic H)) ''document_id'' i = Inr ()"
    and "GetDocument (le_store (he_logic H)) i (pr_UserID p) False db = Inr doc"
  shows "Handler_ListHistory H (Some (i, limit)) db =
    (history_items H (take (nat (if int32Value limit \<le> 0 \<or> 100 < int32Value limit then 50 else int32Value limit)) (history_newest i db)), db)"
proof -
  obtain s where g: "getDocument (le_store (he_logic H)) i (pr_UserID p) False db = Inr (doc, s)"
    using assms(3) by (auto simp: GetDocument_def split: sum.splits)
  have "0 < pr_UserID p" using assms(1) by (auto simp: requirePrincipal_def Let_def split: if_splits sum.splits)
  with assms(1,2) g show ?thesis
    by (simp add: Handler_ListHistory_def with_actor_def with_principal_def DocumentLogic_ListHistory_def lcheck_def valid_id_def valid_def require_def
        lread_def lcall_def reply_def ListHistory_def)
qed

section \<open>Values the handlers drop\<close>

text \<open>The handler copies the tags with \<open>append\<close>, which turns the empty list into none: a request to remove all tags is refused,
  although the use case would accept it.\<close>

lemma clearing_tags_refused:
  assumes "requirePrincipal H = Inr p" "ValidateID (le_uuid (he_logic H)) ''document_id'' i = Inr ()" "0 < e"
  shows "Handler_UpdateDocument H (Some (i, e, \<lparr>up_Title = None, up_Summary = None, up_Slug = None, up_Language = None, up_Tags = Some [], up_FolderID = None,
      up_Icon = None, up_CoverAttachmentID = None, up_CoverFocalX = None, up_CoverFocalY = None\<rparr>)) db = (Inl InvalidInput, db)"
  using assms
  by (simp add: Handler_UpdateDocument_def with_actor_def with_principal_def document_result_def reply_def DocumentLogic_Update_def lcheck_def valid_id_def
      valid_def require_def normalized_patch_def optional_def sbind_def copied_tags_def field_def)

text \<open>A focal point at the edge of the picture travels as an absent one, and a request without one means the middle.\<close>

lemma focal_point_zero_lost:
  "td_CoverFocalX (toTransportDocument H (v\<lparr>doc_CoverFocalX := 0\<rparr>)) = None" "floatValue None = 50"
  by (simp_all add: toTransportDocument_def optionalFloat_def floatValue_def)

section \<open>Retried creation\<close>

lemma idempotency_key:
  "idempotency L a oper key req = Inr v \<Longrightarrow> trim_space key \<noteq> [] \<Longrightarrow>
     v = \<lparr>idm_ActorID = a, idm_Operation = oper, idm_Key = trim_space key, idm_RequestHash = ke_sha256 (le_store L) (ke_marshal (le_store L) req)\<rparr>"
  by (auto simp: idempotency_def Let_def sbind_def valid_def split: sum.splits)

lemma idempotency_valid:
  "idempotency L a oper key req = Inr v \<Longrightarrow> le_store L' = le_store L \<Longrightarrow> \<exists>v'. idempotency L' a oper key req' = Inr v'"
  by (auto simp: idempotency_def Let_def sbind_def valid_def split: sum.splits)

lemma stored_key:
  assumes "CreateDocument E now doc v db = (Inr r, db')" "idm_Key v \<noteq> []" "tbl_get i_key (idm_key v) (t_idempotency_keys db) = None"
  shows "\<exists>row. tbl_get i_key (idm_key v) (t_idempotency_keys db') = Some row \<and> i_RequestHash row = idm_RequestHash v \<and> i_ExpiresAt row = now + 24 * hour"
proof -
  have "idempotentResource now v db = Inr (None, db)" using assms(2,3) by (simp add: idempotentResource_def)
  with assms(1) obtain s where "saveIdempotency now v (doc_ID doc) s = Inr ((), db')"
    unfolding CreateDocument_def Let_def transaction_Inr tbind_Inr
    by (auto simp: tx_simps documentToModel_def)
  then have new: "\<forall>r \<in> set (t_idempotency_keys s). i_key r \<noteq> idm_key v"
      and db': "t_idempotency_keys db' = t_idempotency_keys s @ [\<lparr>i_ActorID = idm_ActorID v, i_Operation = idm_Operation v, i_Key = idm_Key v,
        i_ResourceID = doc_ID doc, i_RequestHash = idm_RequestHash v, i_ExpiresAt = now + 24 * hour, i_CreatedAt = now\<rparr>]"
    using assms(2) by (auto simp: saveIdempotency_def tx_simps idm_key_def i_key_def)
  from new have "tbl_get i_key (idm_key v) (t_idempotency_keys s) = None" by (simp add: tbl_get_None)
  then show ?thesis by (simp add: db' tbl_get_append tbl_get_Cons i_key_def idm_key_def)
qed

text \<open>A creation without a slug cannot be retried under its idempotency key: the slug is derived from the identifier drawn
  for the attempt and is part of the request's fingerprint, so the retry is answered with a conflict although it is the
  same request, instead of with the document it created.\<close>

theorem retried_creation_conflicts:
  assumes "DocumentLogic_Create L input db = (Inr doc, db')" and "cd_Slug input = None" and "trim_space (cd_IdempotencyKey input) \<noteq> []"
    and fresh: "\<forall>row \<in> set (t_idempotency_keys db). i_Key row \<noteq> trim_space (cd_IdempotencyKey input)"
    and retry: "L' = L\<lparr>le_newID := i', le_now := now'\<rparr>" and "now' < le_now L + 24 * hour"
    and slugs: "SlugFromTitle (ke_lower (le_store L)) (trim_space (cd_Title input)) i' \<noteq> SlugFromTitle (ke_lower (le_store L)) (trim_space (cd_Title input)) (le_newID L)"
    and hash: "\<And>t u x y. ke_sha256 (le_store L) (ke_marshal (le_store L) (create_request t u x)) = ke_sha256 (le_store L) (ke_marshal (le_store L) (create_request t u y)) \<Longrightarrow> x = y"
  shows "DocumentLogic_Create L' input db' = (Inl Conflict, db')"
proof -
  let ?title = "trim_space (cd_Title input)" and ?summary = "case cd_Summary input of None \<Rightarrow> [] | Some s \<Rightarrow> trim_space s"
  let ?slug = "\<lambda>i. SlugFromTitle (ke_lower (le_store L)) ?title i"
  from assms(1,2) obtain owner v where ok: "valid (ValidateTitle ?title) = Inr ()" "valid (ValidateSummary ?summary) = Inr ()" "CurrentUser L = Inr owner"
      and v: "idempotency L (pu_ID owner) ''create_document'' (cd_IdempotencyKey input) (create_request ?title ?summary (?slug (le_newID L))) = Inr v"
      and c: "lcall (CreateDocument (le_store L) (le_now L) (new_document L ?title ?summary (?slug (le_newID L)) owner) v) db = (Inr doc, db')"
    by (auto simp: DocumentLogic_Create_def Let_def create_slug_def dest!: lcheck_Inr)
  note v' = idempotency_key [OF v assms(3)]
  from c have "CreateDocument (le_store L) (le_now L) (new_document L ?title ?summary (?slug (le_newID L)) owner) v db = (Inr doc, db')"
    by (auto simp: lcall_def split: prod.splits sum.splits)
  moreover have "tbl_get i_key (idm_key v) (t_idempotency_keys db) = None"
    using fresh unfolding tbl_get_None by (auto simp: v' idm_key_def i_key_def)
  ultimately obtain row where row: "tbl_get i_key (idm_key v) (t_idempotency_keys db') = Some row" "i_RequestHash row = idm_RequestHash v"
      "i_ExpiresAt row = le_now L + 24 * hour"
    using stored_key [of "le_store L" "le_now L" _ v db doc db'] assms(3) v' by auto
  obtain w where w: "idempotency L' (pu_ID owner) ''create_document'' (cd_IdempotencyKey input) (create_request ?title ?summary (?slug i')) = Inr w"
    using idempotency_valid [OF v, of L'] retry by auto
  note w' = idempotency_key [OF w assms(3)]
  have "idm_RequestHash w \<noteq> idm_RequestHash v"
    using slugs hash [of ?title ?summary "?slug i'"] by (auto simp: v' w' retry)
  then have "idempotentResource now' w db' = Inl ErrConflict"
    using row assms(3,6) by (simp add: idempotentResource_def w' v' idm_key_def)
  then have "CreateDocument (le_store L) now' d w db' = (Inl ErrConflict, db')" for d
    by (simp add: CreateDocument_def Let_def transaction_def tbind_def)
  moreover have "CurrentUser L' = CurrentUser L" by (simp add: retry CurrentUser_def)
  ultimately show ?thesis
    using ok w assms(2) by (simp add: DocumentLogic_Create_def Let_def create_slug_def lcheck_def retry lcall_def)
qed

section \<open>Rich text through the transport\<close>

text \<open>The document without the attribute the transport has no field for.\<close>

definition attrs_without_variant :: "RichTextAttrs \<Rightarrow> RichTextAttrs" where
  "attrs_without_variant a = a\<lparr>ra_Variant := None\<rparr>"

definition mark_without_variant :: "RichTextMark \<Rightarrow> RichTextMark" where
  "mark_without_variant m = m\<lparr>rm_Attrs := map_option attrs_without_variant (rm_Attrs m)\<rparr>"

fun node_without_variant :: "RichTextNode option \<Rightarrow> RichTextNode option" and nodes_without_variant :: "RichTextNode option list \<Rightarrow> RichTextNode option list" where
  "node_without_variant None = None"
| "node_without_variant (Some (RichTextNode ty attrs content body marks)) =
     Some (RichTextNode ty (map_option attrs_without_variant attrs) (nodes_without_variant content) body (map mark_without_variant marks))"
| "nodes_without_variant [] = []"
| "nodes_without_variant (n # ns) = node_without_variant n # nodes_without_variant ns"

definition without_variant :: "RichTextDocument \<Rightarrow> RichTextDocument" where
  "without_variant c = c\<lparr>rd_Content := map_option nodes_without_variant (rd_Content c)\<rparr>"

lemma attrs_roundtrip: "fromTransportRichTextAttrs (toTransportRichTextAttrs a) = attrs_without_variant a"
  by (simp add: fromTransportRichTextAttrs_def toTransportRichTextAttrs_def attrs_without_variant_def)

lemma mark_roundtrip: "from_transport_mark (to_transport_mark m) = mark_without_variant m"
  by (simp add: from_transport_mark_def to_transport_mark_def mark_without_variant_def attrs_roundtrip option.map_comp comp_def)

lemma nodes_roundtrip:
  "validateRichTextNode E n depth count = Inr count' \<Longrightarrow>
     fromTransportRichTextNode (toTransportRichTextNode n) depth count = Inr (node_without_variant n, count')"
  "validateChildren E ns depth count = Inr count' \<Longrightarrow>
     fromTransportNodes (toTransportNodes ns) depth count = Inr (nodes_without_variant ns, count')"
proof (induction E n depth count and E ns depth count arbitrary: count' and count' rule: validateRichTextNode_validateChildren.induct)
  case (2 E ty attrs content body marks depth count)
  then show ?case
    by (cases attrs) (auto simp: option.map_comp comp_def attrs_roundtrip mark_roundtrip split: if_splits)
next
  case (4 E child rest depth count)
  then show ?case by (auto split: sum.splits)
qed simp_all

text \<open>C38: A valid document survives the conversion to the transport and back except for one attribute: the variant of its
  callouts, which the transport has no field for, is lost.\<close>

theorem transport_loses_variant:
  assumes "Validate E c = Inr ()"
  shows "fromTransportRichText (Some (toTransportRichText c)) = Inr (without_variant c)"
  using assms nodes_roundtrip(2) [of E _ 1 0]
  by (auto simp: Validate_def fromTransportRichText_def toTransportRichText_def without_variant_def split: if_splits option.splits sum.splits)


section \<open>A run of requests\<close>

text \<open>
  Two users and their tokens. The environment stands for the libraries: the JSON text of a creation is its slug, so that the
  fingerprints of different slugs differ.
\<close>

definition rpc_kenv :: kenv where
  "rpc_kenv = sample_env\<lparr>ke_marshal := (\<lambda>j. case j of JObj [_, _, (_, JStr s)] \<Rightarrow> s | _ \<Rightarrow> ''json''),
     ke_decode_doc := (\<lambda>_. Some \<lparr>rd_Type = ''doc'', rd_Content = Some []\<rparr>)\<rparr>"

definition rpc_claims :: "string \<Rightarrow> Claims" where
  "rpc_claims subject = \<lparr>cl_Role = ''user'', cl_SubjectType = [], cl_TokenVersion = 1, cl_SessionID = ''s'', cl_Issuer = IssuerName,
     cl_Subject = subject, cl_Audience = [AudienceName], cl_ExpiresAt = Some 900, cl_NotBefore = Some 1, cl_IssuedAt = Some 1, cl_ID = ''j''\<rparr>"

definition rpc_jwt :: jwtenv where
  "rpc_jwt = \<lparr>jw_numeric_date = (\<lambda>t. t), jw_sign = (\<lambda>_. Inl []),
     jw_parse = (\<lambda>_ token. if token = ''ann'' then Some (rpc_claims ''7'') else if token = ''bob'' then Some (rpc_claims ''8'') else None)\<rparr>"

definition rpc_user :: "string \<Rightarrow> PublicUser rpc_outcome" where
  "rpc_user token = (if token = ''ann'' then Reply (Some \<lparr>pu_ID = 7, pu_Username = ''ann'', pu_Avatar = []\<rparr>)
     else if token = ''bob'' then Reply (Some \<lparr>pu_ID = 8, pu_Username = ''bob'', pu_Avatar = []\<rparr>) else BizStatus 20007)"

definition rpc_request :: "string \<Rightarrow> time \<Rightarrow> string \<Rightarrow> henv" where
  "rpc_request token now drawn = \<lparr>he_logic = \<lparr>le_store = rpc_kenv, le_now = now, le_newID = drawn, le_current = rpc_user token, le_resolve = rpc_user,
     le_cursor_out = (\<lambda>(v, t, i). i), le_cursor_in = (\<lambda>s. Some (1, 100, s)), le_json_valid = (\<lambda>_. True),
     le_json_document = (\<lambda>_. Some \<lparr>rd_Type = ''doc'', rd_Content = Some []\<rparr>)\<rparr>,
     he_jwt = rpc_jwt, he_token = token, he_format = (\<lambda>_. ''time'')\<rparr>"

definition create_notes :: CreateDocumentInput where
  "create_notes = \<lparr>cd_Title = ''Notes'', cd_Summary = None, cd_Slug = None, cd_IdempotencyKey = ''key-1''\<rparr>"

definition notes_created :: kdb where
  "notes_created = snd (serve (rpc_request ''ann'' 100 ''doc-01'') (RpcCreateDocument (Some (''Notes'', None, None, Some ''key-1''))) empty_db)"

definition notes_projected :: kdb where
  "notes_projected = snd (serve (rpc_request [] 200 []) (RpcProjectCollaboration (Some (''doc-01'', 1, Some \<lparr>tr_Type = ''doc'', tr_Content = []\<rparr>, ''text''))) notes_created)"

definition notes_saved :: kdb where
  "notes_saved = snd (CreateDueHistoryCheckpoint rpc_kenv (200 + hour) notes_projected)"

theorem document_changes_authorised_witness:
  "\<exists>d. get_document ''doc-01'' notes_created = Some d \<and> accessFor d 7 notes_created = AccessOwner
     \<and> owner_view ''doc-01'' (snd (serve (rpc_request ''ann'' 300 []) (RpcDeleteDocument (Some (''doc-01'', 1))) notes_created)) \<noteq> owner_view ''doc-01'' notes_created"
proof -
  let ?H = "rpc_request ''ann'' 300 []" and ?req = "RpcDeleteDocument (Some (''doc-01'', 1))"
  have "get_document ''doc-01'' notes_created \<noteq> None" by code_simp
  then obtain d where d: "get_document ''doc-01'' notes_created = Some d" by blast
  have changed: "owner_view ''doc-01'' (snd (serve ?H ?req notes_created)) \<noteq> owner_view ''doc-01'' notes_created" by code_simp
  have p: "map_sum (\<lambda>e. e) pr_UserID (requirePrincipal ?H) = Inr 7" by code_simp
  from document_changes_authorised [OF surjective_pairing [of "serve ?H ?req notes_created"] d] changed
  obtain q where "requirePrincipal ?H = Inr q" "accessFor d (pr_UserID q) notes_created = AccessOwner"
    by (auto dest: owner_view_doc)
  with p d changed show ?thesis by simp
qed




theorem history_served_to_anyone_witness:
  "(\<exists>d. get_document ''doc-01'' notes_saved = Some d \<and> accessFor d 8 notes_saved = AccessNone)
   \<and> (\<exists>h. Handler_ListHistory (rpc_request ''bob'' 300 []) (Some (''doc-01'', None)) notes_saved = (Inr [h], notes_saved))"
proof -
  let ?H = "rpc_request ''bob'' 300 []"
  have p: "map_sum (\<lambda>e. e) pr_UserID (requirePrincipal ?H) = Inr 8" by code_simp
  then obtain q where q: "requirePrincipal ?H = Inr q" "pr_UserID q = 8" by (cases "requirePrincipal ?H") auto
  have "case GetDocument rpc_kenv ''doc-01'' 8 False notes_saved of Inr _ \<Rightarrow> True | _ \<Rightarrow> False" by code_simp
  then obtain doc where doc: "GetDocument (le_store (he_logic ?H)) ''doc-01'' (pr_UserID q) False notes_saved = Inr doc"
    by (auto simp: rpc_request_def q(2) split: sum.splits)
  have v: "ValidateID (le_uuid (he_logic ?H)) ''document_id'' ''doc-01'' = Inr ()" by code_simp
  have "case history_items ?H (take 50 (history_newest ''doc-01'' notes_saved)) of Inr [_] \<Rightarrow> True | _ \<Rightarrow> False" by code_simp
  then obtain h where h: "history_items ?H (take 50 (history_newest ''doc-01'' notes_saved)) = Inr [h]"
    by (auto split: sum.splits list.splits)
  have "case get_document ''doc-01'' notes_saved of Some d \<Rightarrow> accessFor d 8 notes_saved = AccessNone | None \<Rightarrow> False" by code_simp
  then show ?thesis
    using history_served_to_anyone [OF q(1) v doc, of None] h by (auto simp: int32Value_def split: option.splits)
qed

theorem retried_creation_conflicts_witness:
  "DocumentLogic_Create (he_logic (rpc_request ''ann'' 200 ''doc-02'')) create_notes
     (snd (DocumentLogic_Create (he_logic (rpc_request ''ann'' 100 ''doc-01'')) create_notes empty_db))
   = (Inl Conflict, snd (DocumentLogic_Create (he_logic (rpc_request ''ann'' 100 ''doc-01'')) create_notes empty_db))"
proof -
  let ?L = "he_logic (rpc_request ''ann'' 100 ''doc-01'')"
  have "case DocumentLogic_Create ?L create_notes empty_db of (Inr _, _) \<Rightarrow> True | _ \<Rightarrow> False" by code_simp
  then obtain doc db' where c: "DocumentLogic_Create ?L create_notes empty_db = (Inr doc, db')" by (auto split: prod.splits sum.splits)
  have t: "trim_space (cd_IdempotencyKey create_notes) \<noteq> []" by code_simp
  have s: "SlugFromTitle (ke_lower (le_store ?L)) (trim_space (cd_Title create_notes)) ''doc-02''
      \<noteq> SlugFromTitle (ke_lower (le_store ?L)) (trim_space (cd_Title create_notes)) (le_newID ?L)" by code_simp
  show ?thesis
    unfolding c snd_conv
    by (rule retried_creation_conflicts [OF c _ t _ _ _ s, where now' = 200])
      (simp_all add: create_notes_def rpc_request_def rpc_kenv_def sample_env_def create_request_def empty_db_def hour_def minute_def second_def millisecond_def)
qed

definition callout :: RichTextDocument where
  "callout = \<lparr>rd_Type = ''doc'', rd_Content = Some [Some (RichTextNode ''callout''
     (Some \<lparr>ra_Level = None, ra_Start = None, ra_Checked = None, ra_Language = None, ra_Href = None, ra_AttachmentID = None, ra_Alt = None, ra_Title = None,
       ra_TextAlign = None, ra_Variant = Some ''danger'', ra_Colspan = None, ra_Rowspan = None, ra_Colwidth = [], ra_BlockID = None\<rparr>) [] None [])]\<rparr>"

theorem transport_loses_variant_witness:
  "fromTransportRichText (Some (toTransportRichText callout)) = Inr (without_variant callout) \<and> without_variant callout \<noteq> callout"
proof -
  have "Validate sample_richtext callout = Inr ()" by code_simp
  from transport_loses_variant [OF this] show ?thesis by (simp add: callout_def without_variant_def attrs_without_variant_def)
qed

end
