(* ===== verification/KnowledgePaging.thy ===== *)
theory KnowledgePaging
  imports KnowledgeRequests DocumentProperties
begin

text \<open>
  Walking through the workspace by the cursors the RPC hands out: \<open>EncodeCursor\<close>, \<open>DecodeCursor\<close>, \<open>buildDocumentPage\<close> and the
  listing query together.
\<close>

section \<open>Cursors\<close>

text \<open>What the cursor of a document needs: the JSON codec reads back what it wrote, in at most 768 bytes, and the row has an
  identifier and a time that are valid in a cursor.\<close>

definition cursor_law :: "lenv \<Rightarrow> document_row \<Rightarrow> bool" where
  "cursor_law L d \<longleftrightarrow> le_cursor_in L (le_cursor_out L (1, d_UpdatedAt d, d_ID d)) = Some (1, d_UpdatedAt d, d_ID d)
     \<and> le_cursor_out L (1, d_UpdatedAt d, d_ID d) \<noteq> [] \<and> length (le_cursor_out L (1, d_UpdatedAt d, d_ID d)) \<le> 768
     \<and> d_UpdatedAt d \<noteq> 0 \<and> ValidateID (le_uuid L) ''cursor.id'' (d_ID d) = Inr ()"

definition row_cursor :: "document_row \<Rightarrow> Cursor" where
  "row_cursor d = \<lparr>cu_Time = d_UpdatedAt d, cu_ID = d_ID d\<rparr>"

lemma cursor_roundtrip:
  assumes "cursor_law L d"
  shows "DecodeCursor L (EncodeCursor L (row_cursor d)) = Inr (Some (row_cursor d))" "length (EncodeCursor L (row_cursor d)) \<le> 1024"
proof -
  let ?p = "le_cursor_out L (1, d_UpdatedAt d, d_ID d)"
  have "b64_encode ?p \<noteq> []" using assms by (cases ?p rule: b64_encode.cases) (auto simp: cursor_law_def)
  then have "trim_space (b64_encode ?p) \<noteq> []" using trim_space_no_space [OF b64_visible, of ?p] by auto
  with assms show "DecodeCursor L (EncodeCursor L (row_cursor d)) = Inr (Some (row_cursor d))"
    by (simp add: DecodeCursor_def EncodeCursor_def row_cursor_def b64_roundtrip cursor_law_def)
  show "length (EncodeCursor L (row_cursor d)) \<le> 1024"
  proof -
    have "(4 * n + 2) div 3 \<le> 1024" if "n \<le> 768" for n :: nat using that by presburger
    from this [of "length ?p"] assms show ?thesis by (simp only: EncodeCursor_def row_cursor_def Cursor.simps length_b64_encode cursor_law_def)
  qed
qed

section \<open>Pages\<close>

definition workspace_options :: "ListDocumentsInput \<Rightarrow> Cursor option \<Rightarrow> ListOptions" where
  "workspace_options input cursor = (list_options input cursor)\<lparr>lo_Access := ld_Access input, lo_Publication := ld_Publication input, lo_FolderID := ld_FolderID input\<rparr>"

definition workspace_rows :: "lenv \<Rightarrow> ListDocumentsInput \<Rightarrow> kdb \<Rightarrow> document_row list" where
  "workspace_rows L input db = workspace_list (le_store L) (le_now L) (workspace_options input None) db"

definition workspace_items :: "lenv \<Rightarrow> ListDocumentsInput \<Rightarrow> kdb \<Rightarrow> Document list" where
  "workspace_items L input db = map (list_document (le_store L) (workspace_options input None) db) (workspace_rows L input db)"

text \<open>The cursor after \<open>n\<close> rows of the listing.\<close>

definition cursor_after :: "document_row list \<Rightarrow> nat \<Rightarrow> Cursor option" where
  "cursor_after rows n = (if n = 0 then None else Some (row_cursor (rows ! (n - 1))))"

lemma workspace_query:
  assumes "distinct (map d_ID (t_documents db))" "n \<le> length (workspace_rows L input db)"
  shows "buildListDocumentsQuery (le_store L) (le_now L) (workspace_options input (cursor_after (workspace_rows L input db) n)) l db
    = take (nat (l + 1)) (drop n (workspace_rows L input db))"
proof (cases "n = 0")
  case True
  then show ?thesis by (simp add: buildListDocumentsQuery_def cursor_after_def workspace_rows_def workspace_list_def)
next
  case False
  let ?opt = "workspace_options input None"
  have o: "\<not> lo_Published ?opt" "\<not> lo_Deleted ?opt" "lo_Cursor ?opt = None" by (simp_all add: workspace_options_def list_options_def)
  have c: "workspace_options input (cursor_after (workspace_rows L input db) n) = ?opt\<lparr>lo_Cursor := Some (page_key (workspace_rows L input db ! (n - 1)))\<rparr>"
    using False by (simp add: workspace_options_def list_options_def cursor_after_def row_cursor_def page_key_def)
  show ?thesis
    unfolding c buildListDocumentsQuery_def page_query [OF o]
    using filter_below [OF workspace_descending [OF o(1,2) assms(1)], of n] assms(2) False by (simp add: workspace_rows_def)
qed

lemma list_document_cursor:
  "list_document E (workspace_options input c) db = list_document E (workspace_options input None) db"
  by (rule ext) (simp add: list_document_def list_access_def workspace_options_def list_options_def Let_def)

lemma list_document_keys: "doc_UpdatedAt (list_document E (workspace_options input c) db d) = d_UpdatedAt d"
  "doc_ID (list_document E (workspace_options input c) db d) = d_ID d"
  by (simp_all add: list_document_def workspace_options_def list_options_def Let_def documentFromModel_def)

lemma page_at:
  assumes "distinct (map d_ID (t_documents db))" "n \<le> length (workspace_rows L input db)" "0 < ld_ActorID input"
    "validateListInput L (input\<lparr>ld_Cursor := cs\<rparr>) False = Inr ()" "DecodeCursor L cs = Inr (cursor_after (workspace_rows L input db) n)"
  defines "l \<equiv> nat (effectiveLimit (ld_Limit input))"
  shows "DocumentLogic_List L (input\<lparr>ld_Cursor := cs\<rparr>) db =
    (Inr \<lparr>dp_Items = take l (drop n (workspace_items L input db)),
      dp_NextCursor = (if n + l < length (workspace_rows L input db) then Some (EncodeCursor L (row_cursor (workspace_rows L input db ! (n + l - 1)))) else None),
      dp_HasMore = (n + l < length (workspace_rows L input db))\<rparr>, db)"
proof -
  let ?rows = "workspace_rows L input db" and ?f = "list_document (le_store L) (workspace_options input None) db"
  have pos: "0 < effectiveLimit (ld_Limit input)" by (simp add: effectiveLimit_def)
  then have l: "nat (effectiveLimit (ld_Limit input) + 1) = Suc l" "effectiveLimit (ld_Limit input) = int l" "0 < l" by (simp_all add: l_def)
  have opts: "(list_options (input\<lparr>ld_Cursor := cs\<rparr>) c)\<lparr>lo_Access := ld_Access input, lo_Publication := ld_Publication input, lo_FolderID := ld_FolderID input\<rparr>
      = workspace_options input c" for c
    by (simp add: workspace_options_def list_options_def)
  have lim: "lo_Limit (workspace_options input c) = effectiveLimit (ld_Limit input)" for c by (simp add: workspace_options_def list_options_def)
  have docs: "ListDocuments (le_store L) (le_now L) (workspace_options input (cursor_after ?rows n)) db = map ?f (take (Suc l) (drop n ?rows))"
    using workspace_query [OF assms(1,2), of "effectiveLimit (ld_Limit input)"] pos
    by (simp add: ListDocuments_def Let_def lim list_document_cursor [of _ _ "cursor_after ?rows n"] l(1))
  have page: "buildDocumentPage L (map ?f (take (Suc l) (drop n ?rows))) (effectiveLimit (ld_Limit input)) doc_UpdatedAt =
      \<lparr>dp_Items = take l (drop n (workspace_items L input db)),
       dp_NextCursor = (if n + l < length ?rows then Some (EncodeCursor L (row_cursor (?rows ! (n + l - 1)))) else None),
       dp_HasMore = (n + l < length ?rows)\<rparr>"
  proof (cases "n + l < length ?rows")
    case True
    then have "last (take l (drop n ?rows)) = ?rows ! (n + l - 1)" using l(3) by (simp add: last_conv_nth)
    moreover have "take l (drop n ?rows) \<noteq> []" using True l(3) by auto
    ultimately show ?thesis
      using True l by (simp add: buildDocumentPage_def Let_def workspace_items_def take_map drop_map last_map list_document_keys row_cursor_def)
  next
    case False
    then show ?thesis using l by (simp add: buildDocumentPage_def Let_def workspace_items_def take_map drop_map)
  qed
  show ?thesis
    using assms(3-5) docs page
    by (simp add: DocumentLogic_List_def list_page_def lcheck_def require_def opts)
qed

section \<open>All pages\<close>

text \<open>A client that asks for pages until there is no next cursor; the fuel bounds the number of pages.\<close>

fun fetch_all :: "nat \<Rightarrow> henv \<Rightarrow> ListRequest \<Rightarrow> kdb \<Rightarrow> TDocument list option" where
  "fetch_all 0 H r db = None"
| "fetch_all (Suc k) H r db =
     (case fst (Handler_ListDocuments H (Some r) db) of Inl _ \<Rightarrow> None
      | Inr (items, None, _) \<Rightarrow> Some items
      | Inr (items, Some c, _) \<Rightarrow> map_option ((@) items) (fetch_all k H (r\<lparr>lr_Cursor := Some c\<rparr>) db))"

lemma listInput_cursor: "listInput (r\<lparr>lr_Cursor := cs\<rparr>) a = (listInput r a)\<lparr>ld_Cursor := stringValue cs\<rparr>"
  by (simp add: listInput_def)

lemma validate_cursor:
  "validateListInput L (input\<lparr>ld_Cursor := []\<rparr>) False = Inr () \<Longrightarrow> length cs \<le> 1024 \<Longrightarrow> validateListInput L (input\<lparr>ld_Cursor := cs\<rparr>) False = Inr ()"
  by (auto simp: validateListInput_def ValidatePage_def Let_def sbind_def require_def split: if_splits sum.splits)

lemma workspace_rows_cursor [simp]: "workspace_rows L (input\<lparr>ld_Cursor := cs\<rparr>) db = workspace_rows L input db"
  "workspace_items L (input\<lparr>ld_Cursor := cs\<rparr>) db = workspace_items L input db"
  by (simp_all add: workspace_rows_def workspace_items_def workspace_options_def list_options_def)

lemma fetch_from:
  assumes p: "requirePrincipal H = Inr p" and d: "distinct (map d_ID (t_documents db))"
    and input: "input = listInput r (pr_UserID p)" and v: "validateListInput (he_logic H) (input\<lparr>ld_Cursor := []\<rparr>) False = Inr ()"
    and laws: "\<forall>d \<in> set (workspace_rows (he_logic H) input db). cursor_law (he_logic H) d"
  shows "n \<le> length (workspace_rows (he_logic H) input db) \<Longrightarrow> length (workspace_rows (he_logic H) input db) < n + k \<Longrightarrow>
    DecodeCursor (he_logic H) (stringValue cs) = Inr (cursor_after (workspace_rows (he_logic H) input db) n) \<Longrightarrow> length (stringValue cs) \<le> 1024 \<Longrightarrow>
    fetch_all k H (r\<lparr>lr_Cursor := cs\<rparr>) db = Some (map (toTransportDocument H) (drop n (workspace_items (he_logic H) input db)))"
proof (induction k arbitrary: n cs)
  case (Suc k)
  let ?rows = "workspace_rows (he_logic H) input db" and ?items = "workspace_items (he_logic H) input db"
  define l where "l = nat (effectiveLimit (ld_Limit input))"
  have l: "0 < l" by (simp add: l_def effectiveLimit_def)
  have actor: "0 < ld_ActorID input" using p by (auto simp: input listInput_def requirePrincipal_def Let_def split: if_splits sum.splits)
  have "DocumentLogic_List (he_logic H) (listInput (r\<lparr>lr_Cursor := cs\<rparr>) (pr_UserID p)) db =
    (Inr \<lparr>dp_Items = take l (drop n ?items), dp_NextCursor = (if n + l < length ?rows then Some (EncodeCursor (he_logic H) (row_cursor (?rows ! (n + l - 1)))) else None),
      dp_HasMore = (n + l < length ?rows)\<rparr>, db)"
    using page_at [OF d Suc.prems(1) actor validate_cursor [OF v Suc.prems(4)] Suc.prems(3)] unfolding l_def listInput_cursor input by simp
  then have page: "fst (Handler_ListDocuments H (Some (r\<lparr>lr_Cursor := cs\<rparr>)) db) =
      Inr (map (toTransportDocument H) (take l (drop n ?items)),
        if n + l < length ?rows then Some (EncodeCursor (he_logic H) (row_cursor (?rows ! (n + l - 1)))) else None, n + l < length ?rows)"
    by (simp add: Handler_ListDocuments_def with_actor_def with_principal_def p reply_def document_page_def)
  show ?case
  proof (cases "n + l < length ?rows")
    case True
    then have law: "cursor_law (he_logic H) (?rows ! (n + l - 1))" using laws l by simp
    have "fetch_all k H (r\<lparr>lr_Cursor := Some (EncodeCursor (he_logic H) (row_cursor (?rows ! (n + l - 1))))\<rparr>) db =
        Some (map (toTransportDocument H) (drop (n + l) ?items))"
      by (rule Suc.IH) (use True Suc.prems(2) l cursor_roundtrip [OF law] in \<open>auto simp: stringValue_def cursor_after_def\<close>)
    moreover have "take l (drop n ?items) @ drop (n + l) ?items = drop n ?items" by (metis append_take_drop_id drop_drop add.commute)
    ultimately show ?thesis using True page by (simp flip: map_append)
  next
    case False
    moreover from this have "take l (drop n ?items) = drop n ?items" by (simp add: workspace_items_def)
    ultimately show ?thesis using page by simp
  qed
qed simp

text \<open>C29: A client that lists its workspace page by page, passing each answer's cursor to the next request, receives every
  document the query selects exactly once and in the order of the whole listing, whatever the page size, after at most
  one request per document.\<close>

theorem paged_listing_complete:
  assumes "kreach (le_store (he_logic H)) db" and "requirePrincipal H = Inr p" and "lr_Cursor r = None"
    and "validateListInput (he_logic H) (listInput r (pr_UserID p)) False = Inr ()"
    and "\<forall>d \<in> set (workspace_rows (he_logic H) (listInput r (pr_UserID p)) db). cursor_law (he_logic H) d"
  shows "fetch_all (Suc (length (workspace_rows (he_logic H) (listInput r (pr_UserID p)) db))) H r db
    = Some (map (toTransportDocument H) (workspace_items (he_logic H) (listInput r (pr_UserID p)) db))"
proof -
  have d: "distinct (map d_ID (t_documents db))" by (rule saga_invD(2) [OF kreach_inv [OF assms(1)]])
  have r: "r\<lparr>lr_Cursor := None\<rparr> = r" "(listInput r (pr_UserID p))\<lparr>ld_Cursor := []\<rparr> = listInput r (pr_UserID p)"
    using assms(3) by (simp_all add: listInput_def stringValue_def)
  have "DecodeCursor (he_logic H) (stringValue None) = Inr None" by (simp add: DecodeCursor_def stringValue_def trim_space_def trim_with_def rune_bytes_def)
  then show ?thesis
    using fetch_from [OF assms(2) d refl, of r 0 "Suc (length (workspace_rows (he_logic H) (listInput r (pr_UserID p)) db))" None] assms(4,5)
    by (simp add: r cursor_after_def stringValue_def)
qed

definition workspace_request :: ListRequest where
  "workspace_request = \<lparr>lr_Query = None, lr_Cursor = None, lr_Limit = Some 1, lr_Access = None, lr_Publication = None, lr_FolderId = None\<rparr>"

definition two_notes :: kdb where
  "two_notes = snd (serve (rpc_request ''ann'' 100 ''doc-02'') (RpcCreateDocument (Some (''More'', None, None, None))) notes_created)"

theorem paged_listing_complete_witness:
  "map_option (map td_Id) (fetch_all 3 (rpc_request ''ann'' 300 []) workspace_request two_notes) = Some [''doc-02'', ''doc-01'']"
proof -
  let ?H = "rpc_request ''ann'' 300 []"
  have store: "le_store (he_logic (rpc_request a b c)) = rpc_kenv" for a b c by (simp add: rpc_request_def)
  have "kreach rpc_kenv empty_db" by (rule kreach.start)
  have step: "kreach rpc_kenv db \<Longrightarrow> kreach rpc_kenv (snd (serve (rpc_request a b c) q db))" for db a b c q
    by (cases "rpc_request a b c" q db rule: serve_cases)
      (auto simp: store dest: repo_call_step intro: kreach.step kstep.project surjective_pairing)
  have k: "kreach (le_store (he_logic ?H)) two_notes"
    unfolding store two_notes_def notes_created_def by (intro step kreach.start)
  have "map_sum (\<lambda>e. e) pr_UserID (requirePrincipal ?H) = Inr 7" by code_simp
  then obtain p where p: "requirePrincipal ?H = Inr p" "pr_UserID p = 7" by (cases "requirePrincipal ?H") auto
  have v: "validateListInput (he_logic ?H) (listInput workspace_request 7) False = Inr ()" by code_simp
  have laws: "\<forall>d \<in> set (workspace_rows (he_logic ?H) (listInput workspace_request 7) two_notes). cursor_law (he_logic ?H) d" by code_simp
  have n: "length (workspace_rows (he_logic ?H) (listInput workspace_request 7) two_notes) = 2" by code_simp
  have ids: "map doc_ID (workspace_items (he_logic ?H) (listInput workspace_request 7) two_notes) = [''doc-02'', ''doc-01'']" by code_simp
  have c: "lr_Cursor workspace_request = None" by (simp add: workspace_request_def)
  from paged_listing_complete [OF k p(1) c, unfolded p(2), OF v laws] ids
  show ?thesis by (simp add: n numeral_3_eq_3 comp_def toTransportDocument_def)
qed

end
