(* ===== verification/CircuitBreaker.thy ===== *)
theory CircuitBreaker
  imports Prelude
begin

text \<open>
  The circuit breaker for outbound calls, from \<open>pkg/circuit/breaker.go\<close> and \<open>kitex.go\<close>. Every breaker_method holds the
  mutex, so concurrent callers are sequences of breaker_method calls; the time each call reads is an argument. The methods of a
  missing breaker do nothing and are left out.
\<close>

section \<open>The breaker\<close>

datatype State = StateClosed | StateHalfOpen | StateOpen

record Breaker =
  br_failureThreshold :: int
  br_openDuration :: duration
  br_halfOpenProbes :: int
  br_state :: State
  br_consecutiveFailures :: int
  br_openedAt :: time
  br_halfOpenInFlight :: int

definition NewWithClock :: Breaker where
  "NewWithClock = \<lparr>br_failureThreshold = 5, br_openDuration = 5 * second, br_halfOpenProbes = 1, br_state = StateClosed,
     br_consecutiveFailures = 0, br_openedAt = 0, br_halfOpenInFlight = 0\<rparr>"

text \<open>The answer says whether the call is admitted; a refusal is \<open>ErrOpen\<close>.\<close>

definition Breaker_Allow :: "time \<Rightarrow> Breaker \<Rightarrow> bool \<times> Breaker" where
  "Breaker_Allow now b = (case br_state b of
     StateOpen \<Rightarrow> if now - br_openedAt b < br_openDuration b then (False, b) else (True, b\<lparr>br_state := StateHalfOpen, br_halfOpenInFlight := 1\<rparr>)
   | StateHalfOpen \<Rightarrow> if br_halfOpenProbes b \<le> br_halfOpenInFlight b then (False, b) else (True, b\<lparr>br_halfOpenInFlight := br_halfOpenInFlight b + 1\<rparr>)
   | StateClosed \<Rightarrow> (True, b))"

definition openLocked :: "time \<Rightarrow> Breaker \<Rightarrow> Breaker" where
  "openLocked now b = b\<lparr>br_state := StateOpen, br_openedAt := now, br_halfOpenInFlight := 0, br_consecutiveFailures := br_failureThreshold b\<rparr>"

definition Breaker_Success :: "Breaker \<Rightarrow> Breaker" where
  "Breaker_Success b = b\<lparr>br_consecutiveFailures := 0, br_halfOpenInFlight := 0, br_state := StateClosed\<rparr>"

definition Breaker_Failure :: "time \<Rightarrow> Breaker \<Rightarrow> Breaker" where
  "Breaker_Failure now b =
     (if br_state b = StateHalfOpen then openLocked now b
      else let b' = b\<lparr>br_consecutiveFailures := br_consecutiveFailures b + 1\<rparr> in
        if br_failureThreshold b' \<le> br_consecutiveFailures b' then openLocked now b' else b')"

definition Breaker_State :: "time \<Rightarrow> Breaker \<Rightarrow> State" where
  "Breaker_State now b = (if br_state b = StateOpen \<and> br_openDuration b \<le> now - br_openedAt b then StateHalfOpen else br_state b)"

section \<open>The middleware\<close>

text \<open>What the wrapped call returns: nothing, a business status, or another error.\<close>

datatype call_result = CallOK | CallBusiness string | CallFailed string

datatype call_error = ErrOpen | CallError call_result

definition shouldTrip :: "call_result \<Rightarrow> bool" where
  "shouldTrip r = (case r of CallOK \<Rightarrow> False | CallBusiness _ \<Rightarrow> False | CallFailed _ \<Rightarrow> True)"

definition KitexClientMiddleware :: "time \<Rightarrow> time \<Rightarrow> call_result \<Rightarrow> Breaker \<Rightarrow> (call_error + unit) \<times> Breaker" where
  "KitexClientMiddleware now now' result b =
     (case Breaker_Allow now b of
        (False, b') \<Rightarrow> (Inl ErrOpen, b')
      | (True, b') \<Rightarrow> (if result = CallOK then Inr () else Inl (CallError result),
                       if shouldTrip result then Breaker_Failure now' b' else Breaker_Success b'))"

section \<open>Invariant\<close>

datatype breaker_method = Allow time | Success | Failure time

definition method_step :: "breaker_method \<Rightarrow> Breaker \<Rightarrow> bool option \<times> Breaker" where
  "method_step m b = (case m of
     Allow now \<Rightarrow> (let (ok, b') = Breaker_Allow now b in (Some ok, b'))
   | Success \<Rightarrow> (None, Breaker_Success b)
   | Failure now \<Rightarrow> (None, Breaker_Failure now b))"

fun run_methods :: "breaker_method list \<Rightarrow> Breaker \<Rightarrow> bool list \<times> Breaker" where
  "run_methods [] b = ([], b)"
| "run_methods (m # ms) b = (let (r, b') = method_step m b; (rs, b'') = run_methods ms b' in
     ((case r of None \<Rightarrow> rs | Some ok \<Rightarrow> ok # rs), b''))"

definition breaker_inv :: "Breaker \<Rightarrow> bool" where
  "breaker_inv b \<longleftrightarrow> br_failureThreshold b = 5 \<and> br_openDuration b = 5 * second \<and> br_halfOpenProbes b = 1 \<and>
     (case br_state b of
        StateClosed \<Rightarrow> 0 \<le> br_consecutiveFailures b \<and> br_consecutiveFailures b < 5 \<and> br_halfOpenInFlight b = 0
      | StateHalfOpen \<Rightarrow> br_consecutiveFailures b = 5 \<and> br_halfOpenInFlight b = 1
      | StateOpen \<Rightarrow> br_consecutiveFailures b = 5 \<and> br_halfOpenInFlight b = 0)"

lemma breaker_inv_new: "breaker_inv NewWithClock"
  by (simp add: breaker_inv_def NewWithClock_def)

lemma breaker_inv_step: "breaker_inv b \<Longrightarrow> breaker_inv (snd (method_step m b))"
  by (auto simp: method_step_def Breaker_Allow_def Breaker_Success_def Breaker_Failure_def openLocked_def breaker_inv_def Let_def
      split: breaker_method.splits State.splits if_splits)

lemma breaker_inv_run: "breaker_inv b \<Longrightarrow> breaker_inv (snd (run_methods ms b))"
proof (induction ms arbitrary: b)
  case (Cons m ms)
  then show ?case using breaker_inv_step [of b m] by (auto simp: Let_def split: prod.splits) (metis snd_conv)
qed simp

section \<open>One call at a time\<close>

text \<open>
  Seen by callers that take turns, the breaker has two states: it counts failures in a row, or it has tripped and
  refuses until the pause is over; the next call then decides.
\<close>

datatype gate = Counting int | Tripped time

fun gate_call :: "time \<Rightarrow> time \<Rightarrow> call_result \<Rightarrow> gate \<Rightarrow> bool \<times> gate" where
  "gate_call now now' result (Counting n) =
     (True, if \<not> shouldTrip result then Counting 0 else if n < 4 then Counting (n + 1) else Tripped now')"
| "gate_call now now' result (Tripped t) =
     (if now < t + 5 * second then (False, Tripped t) else (True, if shouldTrip result then Tripped now' else Counting 0))"

definition gate_of :: "Breaker \<Rightarrow> gate" where
  "gate_of b = (if br_state b = StateOpen then Tripped (br_openedAt b) else Counting (br_consecutiveFailures b))"

fun run_calls :: "(time \<times> time \<times> call_result) list \<Rightarrow> Breaker \<Rightarrow> (call_error + unit) list" where
  "run_calls [] b = []"
| "run_calls ((now, now', result) # cs) b = (let (r, b') = KitexClientMiddleware now now' result b in r # run_calls cs b')"

fun run_gate :: "(time \<times> time \<times> call_result) list \<Rightarrow> gate \<Rightarrow> (call_error + unit) list" where
  "run_gate [] g = []"
| "run_gate ((now, now', result) # cs) g = (let (ok, g') = gate_call now now' result g in
     (if \<not> ok then Inl ErrOpen else if result = CallOK then Inr () else Inl (CallError result)) # run_gate cs g')"

definition idle_inv :: "Breaker \<Rightarrow> bool" where
  "idle_inv b \<longleftrightarrow> breaker_inv b \<and> br_state b \<noteq> StateHalfOpen"

lemma middleware_gate:
  assumes "idle_inv b" "KitexClientMiddleware now now' result b = (r, b')" "gate_call now now' result (gate_of b) = (ok, g')"
  shows "idle_inv b'" "gate_of b' = g'" "r = (if \<not> ok then Inl ErrOpen else if result = CallOK then Inr () else Inl (CallError result))"
  using assms
  by (auto simp: idle_inv_def breaker_inv_def KitexClientMiddleware_def Breaker_Allow_def Breaker_Success_def Breaker_Failure_def openLocked_def gate_of_def
      Let_def shouldTrip_def split: State.splits if_splits call_result.splits)

text \<open>C37: For callers that take turns, the middleware over a new breaker answers like the counter that trips after five
  failures in a row, refuses for five seconds and lets the next call decide; business errors count as successes.\<close>

theorem breaker_refines_gate:
  "run_calls calls NewWithClock = run_gate calls (Counting 0)"
proof -
  have "idle_inv b \<Longrightarrow> run_calls calls b = run_gate calls (gate_of b)" for b
  proof (induction calls arbitrary: b)
    case (Cons c calls)
    obtain now now' result where c: "c = (now, now', result)" by (cases c)
    obtain r b' where m: "KitexClientMiddleware now now' result b = (r, b')" by fastforce
    obtain ok g' where g: "gate_call now now' result (gate_of b) = (ok, g')" by fastforce
    show ?case using middleware_gate [OF Cons.prems m g] Cons.IH [of b'] by (simp add: c m g)
  qed simp
  moreover have "idle_inv NewWithClock" "gate_of NewWithClock = Counting 0"
    by (simp_all add: idle_inv_def breaker_inv_new) (simp_all add: NewWithClock_def gate_of_def)
  ultimately show ?thesis by metis
qed

section \<open>Callers that overlap\<close>

definition method_time :: "breaker_method \<Rightarrow> time option" where
  "method_time m = (case m of Allow t \<Rightarrow> Some t | Success \<Rightarrow> None | Failure t \<Rightarrow> Some t)"

text \<open>Failures only, and all within the pause.\<close>

definition within_pause :: "time \<Rightarrow> breaker_method list \<Rightarrow> bool" where
  "within_pause t ms \<longleftrightarrow> list_all (\<lambda>m. case method_time m of None \<Rightarrow> False | Some u \<Rightarrow> t \<le> u \<and> u < t + 5 * second) ms"

lemmas pause_step_defs = method_step_def Breaker_Allow_def Breaker_Failure_def openLocked_def breaker_inv_def within_pause_def
  method_time_def Let_def

text \<open>An open breaker refuses every call for five seconds, however many calls that were admitted before still
  report failures.\<close>

theorem open_breaker_refuses:
  assumes "breaker_inv b" and "br_state b = StateOpen" and "within_pause (br_openedAt b) ms"
  shows "\<not> list_ex (\<lambda>ok. ok) (fst (run_methods ms b)) \<and> br_state (snd (run_methods ms b)) = StateOpen"
proof -
  have "\<not> list_ex (\<lambda>ok. ok) (fst (run_methods ms c)) \<and> br_state (snd (run_methods ms c)) = StateOpen"
    if "breaker_inv c" "br_state c = StateOpen" "t \<le> br_openedAt c" "within_pause t ms" for c t
    using that
  proof (induction ms arbitrary: c)
    case (Cons m ms)
    have rest: "within_pause t ms" using Cons.prems(4) by (simp add: within_pause_def)
    obtain r c' where step: "method_step m c = (r, c')" by fastforce
    have open_step: "br_state c' = StateOpen \<and> t \<le> br_openedAt c' \<and> r \<noteq> Some True"
      using Cons.prems step by (cases m) (auto simp: pause_step_defs)
    have "breaker_inv c'" using breaker_inv_step [OF Cons.prems(1), of m] step by simp
    with Cons.IH [of c'] open_step rest step show ?case by (auto simp: Let_def split: prod.splits option.splits)
  qed simp
  then show ?thesis using assms by blast
qed

definition tripped_breaker :: Breaker where
  "tripped_breaker = snd (run_methods (replicate 5 (Failure (7 * second))) NewWithClock)"

theorem open_breaker_refuses_witness:
  "br_state tripped_breaker = StateOpen \<and>
   fst (run_methods [Allow (8 * second), Failure (9 * second), Allow (11 * second)] tripped_breaker) = [False, False]"
proof -
  have t: "breaker_inv tripped_breaker" "br_state tripped_breaker = StateOpen" "br_openedAt tripped_breaker = 7 * second"
    unfolding tripped_breaker_def by code_simp+
  have "within_pause (br_openedAt tripped_breaker) [Allow (8 * second), Failure (9 * second), Allow (11 * second)]"
    unfolding t(3) by code_simp
  from open_breaker_refuses [OF t(1,2) this]
  show ?thesis using t(2) by (auto simp: method_step_def Let_def split: prod.splits)
qed

text \<open>A success that arrives late, of a call admitted before the breaker opened, closes it at once.\<close>

lemma late_success_closes:
  "br_state (Breaker_Success b) = StateClosed" "fst (Breaker_Allow now (Breaker_Success b))"
  by (simp_all add: Breaker_Success_def Breaker_Allow_def)

text \<open>A probe that never reports keeps the breaker half open, and every later call is refused.\<close>

lemma unreported_probe_blocks:
  assumes "breaker_inv b" "br_state b = StateHalfOpen"
  shows "run_methods (map Allow ts) b = (map (\<lambda>_. False) ts, b)"
  using assms by (induction ts) (auto simp: method_step_def Breaker_Allow_def breaker_inv_def)

end
