(* ===== verification/AttachmentService.thy ===== *)
theory AttachmentService
  imports AttachmentLifecycle IdentityDomain
begin

text \<open>
  The attachment service above its repository: uploads, downloads and listings of \<open>service/service.go\<close> and the RPC
  handlers of \<open>transport/rpc/handler.go\<close>. The answers of the object store behind \<open>storage/s3.go\<close> are fields of the
  environment; the calls that change the store are logged in the state.
\<close>

section \<open>Environment\<close>

text \<open>What one request finds: the token, the clock, a new identifier, and what the object store answers.\<close>

record senv =
  se_attachments :: aenv
  se_jwt :: jwtenv
  se_token :: string
  se_now :: time
  se_newID :: "string option"
  se_request_hash :: "string \<Rightarrow> string \<Rightarrow> int \<Rightarrow> string option"
  se_uploadTTL :: duration
  se_downloadTTL :: duration
  se_start :: "string \<Rightarrow> string \<Rightarrow> string option"
  se_abort :: "string \<Rightarrow> string \<Rightarrow> bool"
  se_complete :: "string \<Rightarrow> string \<Rightarrow> (int \<times> string) list \<Rightarrow> bool"
  se_presign_part :: "string \<Rightarrow> string \<Rightarrow> int \<Rightarrow> string option"
  se_presign_download :: "string \<Rightarrow> string option"
  se_format :: "time \<Rightarrow> string"
  se_format_nano :: "time \<Rightarrow> string"
  se_cursor_out :: "int \<times> time \<times> string \<Rightarrow> string option"
  se_cursor_in :: "string \<Rightarrow> (int \<times> time \<times> string) option"

datatype object_call = StartMultipart string string string | AbortMultipart string string | CompleteMultipart string string "(int \<times> string) list"

record asvc =
  sv_db :: adb
  sv_calls :: "object_call list"

text \<open>The catalog of \<open>errors/errors.go\<close>; \<open>AService\<close> carries what the repository calls are mapped to.\<close>

datatype att_error = AService aservice_err | AUnauthenticated | AUnavailable | AQuotaExceeded

abbreviation att_invalid :: att_error where "att_invalid \<equiv> AService AInvalidInput"
abbreviation att_conflict :: att_error where "att_conflict \<equiv> AService AConflictError"
abbreviation att_internal :: "string \<Rightarrow> att_error" where "att_internal e \<equiv> AService (AInternal (AOther e))"

type_synonym 'a acall = "asvc \<Rightarrow> (att_error + 'a) \<times> asvc"

definition log_call :: "object_call \<Rightarrow> asvc \<Rightarrow> asvc" where
  "log_call c s = s\<lparr>sv_calls := sv_calls s @ [c]\<rparr>"

section \<open>Transport values\<close>

record TAttachment =
  tt_Id :: string
  tt_OwnerId :: int
  tt_Filename :: string
  tt_MediaType :: string
  tt_Category :: string
  tt_SizeBytes :: int
  tt_Sha256 :: string
  tt_Status :: string
  tt_PartSize :: int
  tt_PartCount :: int
  tt_CreatedAt :: string
  tt_DetectedType :: "string option"
  tt_DownloadUrl :: "string option"
  tt_DownloadExpiresAt :: "string option"

record TUpload =
  tu_Attachment :: TAttachment
  tu_UploadId :: string
  tu_ExpiresAt :: string
  tu_Parts :: "(int \<times> string \<times> string) list"

record CreateAttachmentRequest =
  ca_Filename :: string
  ca_MediaType :: string
  ca_SizeBytes :: int
  ca_IdempotencyKey :: string

record CompleteAttachmentRequest =
  cm_AttachmentId :: string
  cm_UploadId :: string
  cm_Parts :: "(int \<times> string) option list"

record ListAttachmentsRequest =
  li_Status :: string
  li_Category :: string
  li_Cursor :: string
  li_Limit :: int

definition int32 :: "int \<Rightarrow> int" where
  "int32 v = (v + 2 ^ 31) mod 2 ^ 32 - 2 ^ 31"

definition optional_string :: "string \<Rightarrow> string option" where
  "optional_string s = (if s = [] then None else Some s)"

definition toTransport :: "senv \<Rightarrow> Attachment \<Rightarrow> TAttachment" where
  "toTransport S a = \<lparr>tt_Id = att_ID a, tt_OwnerId = att_OwnerID a, tt_Filename = att_Filename a, tt_MediaType = att_MediaType a,
     tt_Category = att_Category a, tt_SizeBytes = att_SizeBytes a, tt_Sha256 = att_SHA256 a, tt_Status = att_Status a,
     tt_PartSize = int32 (att_PartSize a), tt_PartCount = att_PartCount a, tt_CreatedAt = se_format S (att_CreatedAt a),
     tt_DetectedType = optional_string (att_DetectedType a), tt_DownloadUrl = None, tt_DownloadExpiresAt = None\<rparr>"

section \<open>Uploads\<close>

text \<open>The quotient of the size and the part size is exact in a float64, sizes being at most a gigabyte.\<close>

definition part_count :: "int \<Rightarrow> int" where
  "part_count bytes = (bytes + PartSize - 1) div PartSize"

primrec presign_parts :: "senv \<Rightarrow> Attachment \<Rightarrow> int list \<Rightarrow> att_error + (int \<times> string \<times> string) list" where
  "presign_parts S a [] = Inr []"
| "presign_parts S a (i # is) = (case se_presign_part S (att_ObjectKey a) (att_UploadID a) i of None \<Rightarrow> Inl AUnavailable
     | Some u \<Rightarrow> (case presign_parts S a is of Inl e \<Rightarrow> Inl e
       | Inr ps \<Rightarrow> Inr ((i, u, se_format S (se_now S + (if se_uploadTTL S \<le> 0 then 15 * minute else se_uploadTTL S))) # ps)))"

definition uploadResult :: "senv \<Rightarrow> Attachment \<Rightarrow> att_error + TUpload" where
  "uploadResult S a = (if att_UploadID a = [] \<or> att_PartCount a \<le> 0 then Inl att_conflict
     else case presign_parts S a [1 .. att_PartCount a] of Inl e \<Rightarrow> Inl e
     | Inr ps \<Rightarrow> Inr \<lparr>tu_Attachment = toTransport S a, tu_UploadId = att_UploadID a, tu_ExpiresAt = se_format S (se_now S + se_uploadTTL S), tu_Parts = ps\<rparr>)"

definition new_attachment :: "senv \<Rightarrow> int \<Rightarrow> CreateAttachmentRequest \<Rightarrow> string \<Rightarrow> string \<Rightarrow> string \<Rightarrow> Attachment" where
  "new_attachment S owner rq category i uploadID = \<lparr>att_ID = i, att_OwnerID = owner, att_Filename = trim_space (ca_Filename rq),
     att_MediaType = to_lower (ae_lower (se_attachments S)) (trim_space (ca_MediaType rq)), att_Category = category, att_SizeBytes = ca_SizeBytes rq,
     att_SHA256 = [], att_DetectedType = [], att_ObjectKey = ObjectKey i, att_UploadID = uploadID, att_Status = StatusPendingUpload,
     att_PartSize = PartSize, att_PartCount = part_count (ca_SizeBytes rq), att_CreatedAt = se_now S, att_UpdatedAt = se_now S\<rparr>"

text \<open>The attachment is recorded after the store has opened an upload for it; what is not recorded is given up.\<close>

definition record_upload :: "senv \<Rightarrow> Attachment \<Rightarrow> AttIdempotency \<Rightarrow> TUpload acall" where
  "record_upload S a v s =
     (let abort = log_call (AbortMultipart (att_ObjectKey a) (att_UploadID a)) in
      case CreateAttachment a v (sv_db s) of
        (Inl e, db') \<Rightarrow> (Inl (case e of AIdempotencyConflict \<Rightarrow> att_conflict | AConflict \<Rightarrow> AQuotaExceeded | _ \<Rightarrow> AService (AInternal e)),
                      abort (s\<lparr>sv_db := db'\<rparr>))
      | (Inr stored, db') \<Rightarrow>
          let s' = s\<lparr>sv_db := db'\<rparr> in
          if att_ID stored \<noteq> att_ID a then
            (if att_Status stored \<noteq> StatusPendingUpload then (Inl att_conflict, abort s')
             else if \<not> se_abort S (att_ObjectKey a) (att_UploadID a) then (Inl AUnavailable, abort s')
             else (uploadResult S stored, abort s'))
          else (uploadResult S a, s'))"

definition Service_Create :: "senv \<Rightarrow> int \<Rightarrow> CreateAttachmentRequest \<Rightarrow> TUpload acall" where
  "Service_Create S owner rq s =
     (if owner \<le> 0 then (Inl att_invalid, s)
      else case ValidateAttachment (ae_lower (se_attachments S)) (ca_Filename rq) (ca_MediaType rq) (ca_SizeBytes rq) of
        Inl _ \<Rightarrow> (Inl att_invalid, s)
      | Inr category \<Rightarrow>
          if part_count (ca_SizeBytes rq) < 1 \<or> MaxParts < part_count (ca_SizeBytes rq) then (Inl att_invalid, s)
          else if isl (ValidateIdempotencyKey (ca_IdempotencyKey rq)) then (Inl att_invalid, s)
          else case se_request_hash S (trim_space (ca_Filename rq)) (to_lower (ae_lower (se_attachments S)) (trim_space (ca_MediaType rq))) (ca_SizeBytes rq) of
            None \<Rightarrow> (Inl (att_internal ''hash''), s)
          | Some h \<Rightarrow> (case se_newID S of None \<Rightarrow> (Inl (att_internal ''id''), s)
            | Some i \<Rightarrow> (case se_start S (ObjectKey i) (ca_MediaType rq) of None \<Rightarrow> (Inl AUnavailable, s)
              | Some uploadID \<Rightarrow> record_upload S (new_attachment S owner rq category i uploadID)
                  \<lparr>ai_OwnerID = owner, ai_Key = ca_IdempotencyKey rq, ai_RequestHash = h\<rparr>
                  (log_call (StartMultipart (ObjectKey i) (ca_MediaType rq) uploadID) s))))"

text \<open>\<open>strings.Trim(etag, cutset)\<close> with a quote and a space as the cutset.\<close>

definition trim_etag :: "string \<Rightarrow> string" where
  "trim_etag e = (let cut = (\<lambda>c. c = CHR 0x22 \<or> c = CHR '' '') in rev (dropWhile cut (rev (dropWhile cut e))))"

primrec complete_parts :: "int \<Rightarrow> int list \<Rightarrow> (int \<times> string) option list \<Rightarrow> (int \<times> string) list option" where
  "complete_parts n seen [] = (if list_all (\<lambda>i. i \<in> set seen) [1 .. n] then Some [] else None)"
| "complete_parts n seen (p # ps) = (case p of None \<Rightarrow> None
     | Some (number, etag) \<Rightarrow>
         if number < 1 \<or> n < number \<or> number \<in> set seen \<or> trim_space etag = [] then None
         else map_option (\<lambda>qs. (number, trim_etag etag) # qs) (complete_parts n (number # seen) ps))"

definition Service_Complete :: "senv \<Rightarrow> int \<Rightarrow> CompleteAttachmentRequest \<Rightarrow> TAttachment acall" where
  "Service_Complete S owner rq s =
     (if owner \<le> 0 \<or> cm_AttachmentId rq = [] \<or> cm_UploadId rq = [] then (Inl att_invalid, s)
      else case GetAttachment (cm_AttachmentId rq) owner (sv_db s) of Inl e \<Rightarrow> (Inl (AService (mapRepositoryError e)), s)
      | Inr a \<Rightarrow>
          if att_Status a \<noteq> StatusPendingUpload \<or> att_UploadID a \<noteq> cm_UploadId rq \<or> int (length (cm_Parts rq)) \<noteq> att_PartCount a
          then (Inl att_conflict, s)
          else case complete_parts (att_PartCount a) [] (cm_Parts rq) of None \<Rightarrow> (Inl att_invalid, s)
          | Some parts \<Rightarrow>
              let s' = log_call (CompleteMultipart (att_ObjectKey a) (att_UploadID a) parts) s in
              if \<not> se_complete S (att_ObjectKey a) (att_UploadID a) parts then (Inl att_conflict, s')
              else case MarkScanning (se_now S) (att_ID a) owner (sv_db s') of
                (Inl e, db') \<Rightarrow> (Inl (AService (mapRepositoryError e)), s'\<lparr>sv_db := db'\<rparr>)
              | (Inr _, db') \<Rightarrow> (Inr (toTransport S (a\<lparr>att_Status := StatusScanning\<rparr>)), s'\<lparr>sv_db := db'\<rparr>))"

section \<open>Listing, reading, trash\<close>

definition Attachment_EncodeCursor :: "senv \<Rightarrow> time \<times> string \<Rightarrow> string option" where
  "Attachment_EncodeCursor S c = map_option b64_encode (se_cursor_out S (1, fst c, snd c))"

definition Attachment_DecodeCursor :: "senv \<Rightarrow> string \<Rightarrow> string + (time \<times> string) option" where
  "Attachment_DecodeCursor S v =
     (if trim_space v = [] then Inr None
      else case b64_decode v of None \<Rightarrow> Inl ''decode attachment cursor''
      | Some payload \<Rightarrow> (case se_cursor_in S payload of None \<Rightarrow> Inl ''decode attachment cursor: invalid cursor''
         | Some (version, t, i) \<Rightarrow>
             if version \<noteq> 1 \<or> t = 0 \<or> ae_uuid_version (se_attachments S) i = None then Inl ''decode attachment cursor: invalid cursor''
             else Inr (Some (t, i))))"

definition Service_List :: "senv \<Rightarrow> int \<Rightarrow> ListAttachmentsRequest \<Rightarrow> adb \<Rightarrow> att_error + TAttachment list \<times> bool \<times> string option" where
  "Service_List S owner rq db =
     (if owner \<le> 0 then Inl att_invalid
      else let limit = (if li_Limit rq \<le> 0 \<or> 100 < li_Limit rq then 50 else li_Limit rq) in
        case Attachment_DecodeCursor S (li_Cursor rq) of Inl _ \<Rightarrow> Inl att_invalid
        | Inr cursor \<Rightarrow>
            let rows0 = ListAttachments owner (li_Status rq) (li_Category rq) cursor limit db;
                hasMore = limit < int (length rows0);
                rows = (if hasMore then take (nat limit) rows0 else rows0);
                items = map (toTransport S) rows in
            if hasMore \<and> rows \<noteq> [] then
              (case Attachment_EncodeCursor S (att_CreatedAt (last rows), att_ID (last rows)) of
                 None \<Rightarrow> Inl (att_internal ''cursor'') | Some next \<Rightarrow> Inr (items, hasMore, Some next))
            else Inr (items, hasMore, None))"

definition Service_Get :: "senv \<Rightarrow> int \<Rightarrow> string \<Rightarrow> adb \<Rightarrow> att_error + TAttachment" where
  "Service_Get S owner i db =
     (if owner \<le> 0 \<or> trim_space i = [] then Inl att_invalid
      else case GetAttachment i owner db of Inl e \<Rightarrow> Inl (AService (mapRepositoryError e))
      | Inr a \<Rightarrow>
          if att_Status a = StatusReady then
            (case se_presign_download S (att_ObjectKey a) of None \<Rightarrow> Inl AUnavailable
             | Some u \<Rightarrow> Inr ((toTransport S a)\<lparr>tt_DownloadUrl := Some u, tt_DownloadExpiresAt := Some (se_format S (se_now S + se_downloadTTL S))\<rparr>))
          else Inr (toTransport S a))"

definition Service_Trash :: "senv \<Rightarrow> int \<Rightarrow> string \<Rightarrow> adb \<Rightarrow> (att_error + unit) \<times> adb" where
  "Service_Trash S owner i db =
     (if owner \<le> 0 \<or> i = [] then (Inl att_invalid, db)
      else case TrashAttachment (se_now S) i owner db of
        (Inl e, db') \<Rightarrow> (Inl (if e = AReferenced then att_conflict else AService (mapRepositoryError e)), db')
      | (Inr _, db') \<Rightarrow> (Inr (), db'))"

definition Service_Restore :: "senv \<Rightarrow> int \<Rightarrow> string \<Rightarrow> adb \<Rightarrow> (att_error + unit) \<times> adb" where
  "Service_Restore S owner i db =
     (if owner \<le> 0 \<or> i = [] then (Inl att_invalid, db)
      else case RestoreAttachment (se_now S) i owner db of
        (Inl e, db') \<Rightarrow> (Inl (AService (mapRepositoryError e)), db') | (Inr _, db') \<Rightarrow> (Inr (), db'))"

definition Service_PublicationReferenceState :: "senv \<Rightarrow> string \<Rightarrow> adb \<Rightarrow> att_error + PublicationReferenceState" where
  "Service_PublicationReferenceState S documentID db =
     (if \<not> validUUIDv7 (se_attachments S) documentID then Inl att_invalid else Inr (PublicationReferenceStateOf documentID db))"

definition Service_PublishedContent :: "senv \<Rightarrow> string \<Rightarrow> adb \<Rightarrow> att_error + string \<times> string" where
  "Service_PublishedContent S attachmentID db =
     (if \<not> validUUIDv7 (se_attachments S) attachmentID then Inl att_invalid
      else case GetPublished attachmentID db of Inl e \<Rightarrow> Inl (AService (mapRepositoryError e))
      | Inr a \<Rightarrow> (case se_presign_download S (att_ObjectKey a) of None \<Rightarrow> Inl AUnavailable
         | Some u \<Rightarrow> Inr (u, se_format_nano S (se_now S + se_downloadTTL S))))"

section \<open>Handlers\<close>

definition handler_owner :: "senv \<Rightarrow> 'r option \<Rightarrow> att_error + int" where
  "handler_owner S request = (case request of None \<Rightarrow> Inl att_invalid
     | Some _ \<Rightarrow>
         let token = trim_space (se_token S) in
         if token = [] then Inl AUnauthenticated
         else case Verify (se_jwt S) (se_now S) token of Inl _ \<Rightarrow> Inl AUnauthenticated
         | Inr p \<Rightarrow> if pr_UserID p \<le> 0 then Inl AUnauthenticated else Inr (pr_UserID p))"

definition owned_call :: "senv \<Rightarrow> 'r option \<Rightarrow> (int \<Rightarrow> 'r \<Rightarrow> 'a acall) \<Rightarrow> 'a acall" where
  "owned_call S request k s = (case handler_owner S request of Inl e \<Rightarrow> (Inl e, s) | Inr owner \<Rightarrow> k owner (the request) s)"

definition on_db :: "(adb \<Rightarrow> (att_error + 'a) \<times> adb) \<Rightarrow> 'a acall" where
  "on_db f s = (case f (sv_db s) of (r, db') \<Rightarrow> (r, s\<lparr>sv_db := db'\<rparr>))"

definition on_read :: "(adb \<Rightarrow> att_error + 'a) \<Rightarrow> 'a acall" where
  "on_read f s = (f (sv_db s), s)"

definition unowned_call :: "'r option \<Rightarrow> ('r \<Rightarrow> 'a acall) \<Rightarrow> 'a acall" where
  "unowned_call request k s = (case request of None \<Rightarrow> (Inl att_invalid, s) | Some r \<Rightarrow> k r s)"

definition Attachment_CreateAttachment :: "senv \<Rightarrow> CreateAttachmentRequest option \<Rightarrow> TUpload acall" where
  "Attachment_CreateAttachment S request = owned_call S request (Service_Create S)"

definition Attachment_CompleteAttachment :: "senv \<Rightarrow> CompleteAttachmentRequest option \<Rightarrow> TAttachment acall" where
  "Attachment_CompleteAttachment S request = owned_call S request (Service_Complete S)"

definition Attachment_ListAttachments :: "senv \<Rightarrow> ListAttachmentsRequest option \<Rightarrow> (TAttachment list \<times> bool \<times> string option) acall" where
  "Attachment_ListAttachments S request = owned_call S request (\<lambda>owner rq. on_read (Service_List S owner rq))"

definition Attachment_GetAttachment :: "senv \<Rightarrow> string option \<Rightarrow> TAttachment acall" where
  "Attachment_GetAttachment S request = owned_call S request (\<lambda>owner i. on_read (Service_Get S owner i))"

definition Attachment_TrashAttachment :: "senv \<Rightarrow> string option \<Rightarrow> unit acall" where
  "Attachment_TrashAttachment S request = owned_call S request (\<lambda>owner i. on_db (Service_Trash S owner i))"

definition Attachment_RestoreAttachment :: "senv \<Rightarrow> string option \<Rightarrow> TAttachment acall" where
  "Attachment_RestoreAttachment S request = owned_call S request (\<lambda>owner i s.
     case on_db (Service_Restore S owner i) s of (Inl e, s') \<Rightarrow> (Inl e, s') | (Inr _, s') \<Rightarrow> on_read (Service_Get S owner i) s')"

definition reference_handler ::
  "(aenv \<Rightarrow> time \<Rightarrow> reference_request \<Rightarrow> adb \<Rightarrow> (aservice_err + unit) \<times> adb) \<Rightarrow> senv \<Rightarrow> reference_request option \<Rightarrow> unit acall" where
  "reference_handler f S request = unowned_call request (\<lambda>rq. on_db (\<lambda>db.
     case f (se_attachments S) (se_now S) rq db of (r, db') \<Rightarrow> (map_sum AService (\<lambda>u. u) r, db')))"

definition Attachment_StagePublicationReferences :: "senv \<Rightarrow> reference_request option \<Rightarrow> unit acall" where
  "Attachment_StagePublicationReferences = reference_handler ServiceStage"

definition Attachment_FinalizePublicationReferences :: "senv \<Rightarrow> reference_request option \<Rightarrow> unit acall" where
  "Attachment_FinalizePublicationReferences = reference_handler ServiceFinalize"

definition Attachment_ClearPublicationReferences :: "senv \<Rightarrow> reference_request option \<Rightarrow> unit acall" where
  "Attachment_ClearPublicationReferences = reference_handler ServiceClear"

definition Attachment_GetPublicationReferenceState :: "senv \<Rightarrow> string option \<Rightarrow> PublicationReferenceState acall" where
  "Attachment_GetPublicationReferenceState S request = unowned_call request (\<lambda>i. on_read (Service_PublicationReferenceState S i))"

definition Attachment_GetPublishedAttachmentContent :: "senv \<Rightarrow> string option \<Rightarrow> (string \<times> string) acall" where
  "Attachment_GetPublishedAttachmentContent S request = unowned_call request (\<lambda>i. on_read (Service_PublishedContent S i))"

section \<open>Requests\<close>

datatype att_request =
    AttCreate "CreateAttachmentRequest option" | AttComplete "CompleteAttachmentRequest option" | AttList "ListAttachmentsRequest option"
  | AttGet "string option" | AttTrash "string option" | AttRestore "string option"
  | AttStage "reference_request option" | AttFinalize "reference_request option" | AttClear "reference_request option"
  | AttState "string option" | AttContent "string option"

datatype att_reply =
    ReplyUpload TUpload | ReplyAttachment TAttachment | ReplyList "TAttachment list \<times> bool \<times> string option" | ReplyDone
  | ReplyState PublicationReferenceState | ReplyContent "string \<times> string"

definition att_answer :: "('a \<Rightarrow> att_reply) \<Rightarrow> 'a acall \<Rightarrow> att_reply acall" where
  "att_answer f m s = (case m s of (r, s') \<Rightarrow> (map_sum (\<lambda>e. e) f r, s'))"

fun serve_attachment :: "senv \<Rightarrow> att_request \<Rightarrow> att_reply acall" where
  "serve_attachment S (AttCreate q) = att_answer ReplyUpload (Attachment_CreateAttachment S q)"
| "serve_attachment S (AttComplete q) = att_answer ReplyAttachment (Attachment_CompleteAttachment S q)"
| "serve_attachment S (AttList q) = att_answer ReplyList (Attachment_ListAttachments S q)"
| "serve_attachment S (AttGet q) = att_answer ReplyAttachment (Attachment_GetAttachment S q)"
| "serve_attachment S (AttTrash q) = att_answer (\<lambda>_. ReplyDone) (Attachment_TrashAttachment S q)"
| "serve_attachment S (AttRestore q) = att_answer ReplyAttachment (Attachment_RestoreAttachment S q)"
| "serve_attachment S (AttStage q) = att_answer (\<lambda>_. ReplyDone) (Attachment_StagePublicationReferences S q)"
| "serve_attachment S (AttFinalize q) = att_answer (\<lambda>_. ReplyDone) (Attachment_FinalizePublicationReferences S q)"
| "serve_attachment S (AttClear q) = att_answer (\<lambda>_. ReplyDone) (Attachment_ClearPublicationReferences S q)"
| "serve_attachment S (AttState q) = att_answer ReplyState (Attachment_GetPublicationReferenceState S q)"
| "serve_attachment S (AttContent q) = att_answer ReplyContent (Attachment_GetPublishedAttachmentContent S q)"

end
