(* ===== verification/AttachmentScan.thy ===== *)
theory AttachmentScan
  imports AttachmentLifecycle
begin

text \<open>
  Scanning: the ClamAV client of \<open>services/attachment/internal/scanner/clamav.go\<close> and one round of the scan worker,
  \<open>scanOnce\<close> of \<open>service/service.go\<close>. The reads of the object, the connection and what the daemon answers to the bytes it
  has received are arguments, and so are the digest and \<open>http.DetectContentType\<close>.
\<close>

section \<open>The ClamAV client\<close>

datatype read_end = More | EOF | ReadFailed

type_synonym reads = "(string \<times> read_end) list"

text \<open>
  \<open>cv_write n\<close>: the \<open>n\<close>-th write succeeds; \<open>cv_reply\<close>: what \<open>ReadString\<close> yields after the daemon has received the
  given bytes.
\<close>

record clamav =
  cv_maximum :: int
  cv_dial :: bool
  cv_write :: "nat \<Rightarrow> bool"
  cv_reply :: "string \<Rightarrow> string option"
  cv_sha256 :: "string \<Rightarrow> string"
  cv_detect :: "string \<Rightarrow> string"

definition PutUint32 :: "int \<Rightarrow> string" where
  "PutUint32 n = map (\<lambda>i. char_of (n div 256 ^ i mod 256)) [3, 2, 1, 0]"

text \<open>The loop with the number of writes so far, the bytes read and the bytes sent.\<close>

fun scan_loop :: "clamav \<Rightarrow> nat \<Rightarrow> string \<Rightarrow> string \<Rightarrow> reads \<Rightarrow> string + (nat \<times> string \<times> string)" where
  "scan_loop V w got sent [] = Inl ''multiple Read calls return no data or error''"
| "scan_loop V w got sent ((chunk, e) # rs) =
     (let got' = got @ chunk; sent' = sent @ PutUint32 (int (length chunk)) @ chunk in
      if chunk \<noteq> [] \<and> cv_maximum V < int (length got') then Inl ''attachment exceeds scanner limit''
      else if chunk \<noteq> [] \<and> \<not> (cv_write V w \<and> cv_write V (w + 1)) then Inl ''write''
      else let (w', g, t) = (if chunk \<noteq> [] then (w + 2, got', sent') else (w, got, sent)) in
        case e of EOF \<Rightarrow> Inr (w', g, t) | ReadFailed \<Rightarrow> Inl ''read'' | More \<Rightarrow> scan_loop V w' g t rs)"

definition trim_reply :: "string \<Rightarrow> string" where
  "trim_reply s = rev (dropWhile (\<lambda>c. c = CHR 0x00 \<or> c = CHR 0x0D \<or> c = CHR 0x0A) (rev s))"

definition has_suffix :: "string \<Rightarrow> string \<Rightarrow> bool" where
  "has_suffix s suffix \<longleftrightarrow> length suffix \<le> length s \<and> drop (length s - length suffix) s = suffix"

abbreviation instream_command :: string where "instream_command \<equiv> ''zINSTREAM'' @ [CHR 0x00]"

definition ClamAV_Scan :: "clamav \<Rightarrow> reads \<Rightarrow> string + ScanResult" where
  "ClamAV_Scan V rs =
     (if \<not> cv_dial V then Inl ''dial''
      else if \<not> cv_write V 0 then Inl ''write''
      else case scan_loop V 1 [] instream_command rs of Inl e \<Rightarrow> Inl e
      | Inr (w, got, sent) \<Rightarrow>
          if \<not> cv_write V w then Inl ''write''
          else case cv_reply V (sent @ PutUint32 0) of None \<Rightarrow> Inl ''read''
          | Some raw \<Rightarrow>
              let response = trim_reply raw; clean = has_suffix response '': OK'' in
              if \<not> clean \<and> \<not> has_suffix response '' FOUND'' then Inl ''invalid ClamAV result''
              else Inr \<lparr>sr_Clean = clean, sr_SHA256 = cv_sha256 V got, sr_Size = int (length got),
                     sr_DetectedType = cv_detect V (take 512 (concat (map fst rs)))\<rparr>)"

section \<open>One round of the worker\<close>

text \<open>\<open>open_object\<close> yields the reads of the object with a key, or the error of opening it; the three times are those of the calls.\<close>

definition scanOnce :: "aenv \<Rightarrow> clamav \<Rightarrow> (string \<Rightarrow> string + reads) \<Rightarrow> time \<Rightarrow> time \<Rightarrow> adb \<Rightarrow> (aerr + unit) \<times> adb" where
  "scanOnce A V open_object now now' db =
     (case ClaimScan now db of
        (Inl e, db1) \<Rightarrow> (if e = ARecordNotFound then Inr () else Inl e, db1)
      | (Inr a, db1) \<Rightarrow>
          let failed = (\<lambda>e. case RetryScan now' (att_ID a) (Some e) db1 of
                (Inl e', db2) \<Rightarrow> (Inl e', db2) | (Inr _, db2) \<Rightarrow> (Inl (AOther e), db2)) in
          case open_object (att_ObjectKey a) of Inl e \<Rightarrow> failed e
          | Inr rs \<Rightarrow> (case ClamAV_Scan V rs of Inl e \<Rightarrow> failed e
             | Inr result \<Rightarrow> CompleteScan A now' (att_ID a) result (sr_Clean result) db1))"

section \<open>The stream the daemon receives\<close>

text \<open>The INSTREAM protocol: chunks with their lengths in network byte order, closed by an empty one.\<close>

definition GetUint32 :: "string \<Rightarrow> int" where
  "GetUint32 bs = foldl (\<lambda>n c. 256 * n + of_char c) 0 bs"

fun instream_chunks :: "nat \<Rightarrow> string \<Rightarrow> string option" where
  "instream_chunks 0 bs = None"
| "instream_chunks (Suc fuel) bs =
     (if length bs < 4 then None
      else let n = GetUint32 (take 4 bs); rest = drop 4 bs in
        if n = 0 then (if rest = [] then Some [] else None)
        else if int (length rest) < n then None
        else map_option ((@) (take (nat n) rest)) (instream_chunks fuel (drop (nat n) rest)))"

definition instream_content :: "string \<Rightarrow> string option" where
  "instream_content bs = (if take 10 bs = instream_command then instream_chunks (length bs) (drop 10 bs) else None)"

lemma length_PutUint32 [simp]: "length (PutUint32 n) = 4"
  by (simp add: PutUint32_def)

lemma GetUint32_PutUint32: "0 \<le> n \<Longrightarrow> n < 2 ^ 32 \<Longrightarrow> GetUint32 (PutUint32 n) = n"
proof -
  assume "0 \<le> n" "n < 2 ^ 32"
  then have "n div 16777216 mod 256 = n div 16777216" by simp
  moreover have "256 * (n div 16777216) + n div 65536 mod 256 = n div 65536"
    using mult_div_mod_eq [of 256 "n div 65536"] zdiv_zmult2_eq [of 256 n 65536] by simp
  moreover have "256 * (n div 65536) + n div 256 mod 256 = n div 256"
    using mult_div_mod_eq [of 256 "n div 256"] zdiv_zmult2_eq [of 256 n 256] by simp
  moreover have "256 * (n div 256) + n mod 256 = n" by simp
  moreover have "GetUint32 (PutUint32 n) = 256 * (256 * (256 * (n div 16777216 mod 256) + n div 65536 mod 256) + n div 256 mod 256) + n mod 256"
    by (simp add: GetUint32_def PutUint32_def del: mult_mod_right distrib_left)
  ultimately show ?thesis by (simp only:)
qed

definition frame :: "string \<Rightarrow> string" where
  "frame chunk = PutUint32 (int (length chunk)) @ chunk"

lemma instream_frames:
  assumes "\<forall>c \<in> set cs. c \<noteq> [] \<and> length c < 2 ^ 32" and "length cs < fuel"
  shows "instream_chunks fuel (concat (map frame cs) @ PutUint32 0) = Some (concat cs)"
  using assms
proof (induction cs arbitrary: fuel)
  case Nil
  then show ?case by (cases fuel) (simp_all add: GetUint32_PutUint32)
next
  case (Cons c cs)
  then obtain f where "fuel = Suc f" by (cases fuel) auto
  then show ?case using Cons by (simp add: frame_def GetUint32_PutUint32)
qed

text \<open>The content of an object as its reads deliver it; a reader fills at most the buffer of 256 kilobytes.\<close>

fun object_content :: "reads \<Rightarrow> string" where
  "object_content [] = []"
| "object_content ((chunk, e) # rs) = chunk @ (if e = More then object_content rs else [])"

definition buffered :: "reads \<Rightarrow> bool" where
  "buffered rs \<longleftrightarrow> list_all (\<lambda>r. length (fst r) \<le> 2 ^ 18) rs"

lemma scan_loop_frames:
  assumes "scan_loop V w got sent rs = Inr (w', got', sent')" and "buffered rs"
  shows "\<exists>cs. got' = got @ concat cs \<and> sent' = sent @ concat (map frame cs) \<and> concat cs = object_content rs
    \<and> (\<forall>c \<in> set cs. c \<noteq> [] \<and> length c < 2 ^ 32)"
  using assms
proof (induction rs arbitrary: w got sent)
  case (Cons r rs)
  obtain chunk e where r: "r = (chunk, e)" by (cases r)
  note run = Cons.prems(1) [unfolded r]
  have len: "length chunk < 2 ^ 32" and buf: "buffered rs" using Cons.prems(2) by (simp_all add: r buffered_def)
  show ?case unfolding r
  proof (cases e)
    case More
    define v g t where "v = (if chunk = [] then w else w + 2)" and "g = got @ chunk" and "t = (if chunk = [] then sent else sent @ frame chunk)"
    have "scan_loop V v g t rs = Inr (w', got', sent')"
      using run More by (auto simp: v_def g_def t_def frame_def Let_def split: if_split_asm)
    from Cons.IH [OF this buf] obtain cs where "got' = g @ concat cs" "sent' = t @ concat (map frame cs)" "concat cs = object_content rs"
      "\<forall>c \<in> set cs. c \<noteq> [] \<and> length c < 2 ^ 32" by blast
    then show "\<exists>cs. got' = got @ concat cs \<and> sent' = sent @ concat (map frame cs) \<and> concat cs = object_content ((chunk, e) # rs)
        \<and> (\<forall>c \<in> set cs. c \<noteq> [] \<and> length c < 2 ^ 32)"
      using len More by (intro exI [of _ "(if chunk = [] then [] else [chunk]) @ cs"]) (simp add: g_def t_def)
  next
    case EOF
    then show "\<exists>cs. got' = got @ concat cs \<and> sent' = sent @ concat (map frame cs) \<and> concat cs = object_content ((chunk, e) # rs)
        \<and> (\<forall>c \<in> set cs. c \<noteq> [] \<and> length c < 2 ^ 32)"
      using run len by (intro exI [of _ "if chunk = [] then [] else [chunk]"]) (auto simp: frame_def Let_def split: if_split_asm)
  next
    case ReadFailed
    then show "\<exists>cs. got' = got @ concat cs \<and> sent' = sent @ concat (map frame cs) \<and> concat cs = object_content ((chunk, e) # rs)
        \<and> (\<forall>c \<in> set cs. c \<noteq> [] \<and> length c < 2 ^ 32)"
      using run by (auto simp: Let_def split: if_split_asm)
  qed
qed simp

text \<open>The result of a scan: the daemon received the whole content and answered for it.\<close>

lemma scan_result:
  assumes "ClamAV_Scan V rs = Inr result" and "buffered rs"
  shows "sr_Size result = int (length (object_content rs))" "sr_SHA256 result = cv_sha256 V (object_content rs)"
    "\<exists>received raw. instream_content received = Some (object_content rs) \<and> cv_reply V received = Some raw
       \<and> (sr_Clean result \<longleftrightarrow> has_suffix (trim_reply raw) '': OK'')"
proof -
  obtain w got sent where loop: "scan_loop V 1 [] instream_command rs = Inr (w, got, sent)"
    using assms(1) by (auto simp: ClamAV_Scan_def split: if_split_asm sum.split_asm)
  obtain cs where cs: "got = concat cs" "sent = instream_command @ concat (map frame cs)" "concat cs = object_content rs" "\<forall>c \<in> set cs. c \<noteq> [] \<and> length c < 2 ^ 32"
    using scan_loop_frames [OF loop assms(2)] by auto
  have "length cs \<le> length (concat (map frame cs))" by (induction cs) (simp_all add: frame_def)
  then have r: "instream_content (sent @ PutUint32 0) = Some (object_content rs)"
    using instream_frames [OF cs(4), of "length (sent @ PutUint32 0)"] cs(2,3) by (simp add: instream_content_def)
  obtain raw where raw: "cv_reply V (sent @ PutUint32 0) = Some raw"
    "result = \<lparr>sr_Clean = has_suffix (trim_reply raw) '': OK'', sr_SHA256 = cv_sha256 V got, sr_Size = int (length got),
       sr_DetectedType = cv_detect V (take 512 (concat (map fst rs)))\<rparr>"
    using assms(1) loop by (auto simp: ClamAV_Scan_def Let_def split: if_split_asm option.split_asm)
  show "sr_Size result = int (length (object_content rs))" "sr_SHA256 result = cv_sha256 V (object_content rs)"
    using raw(2) cs(1,3) by simp_all
  show "\<exists>received raw. instream_content received = Some (object_content rs) \<and> cv_reply V received = Some raw
       \<and> (sr_Clean result \<longleftrightarrow> has_suffix (trim_reply raw) '': OK'')"
    using r raw by (intro exI [of _ "sent @ PutUint32 0"] exI [of _ raw]) simp
qed

section \<open>What a round does\<close>

lemma ClaimScan_Inr:
  assumes "ClaimScan now db = (Inr a, db1)"
  shows "a_attachments db1 = a_attachments db" "\<exists>r \<in> set (a_attachments db). a = toDomain r \<and> at_Status r = StatusScanning"
  using assms by (auto simp: ClaimScan_def call_defs find_Some_iff split: list.split_asm option.split_asm)

lemma claimed_row:
  assumes "life_inv db" and "ClaimScan now db = (Inr a, db1)"
  shows "\<exists>r. get_attachment (att_ID a) db = Some r \<and> get_attachment (att_ID a) db1 = Some r \<and> a = toDomain r \<and> at_Status r = StatusScanning"
proof -
  obtain r where r: "r \<in> set (a_attachments db)" "a = toDomain r" "at_Status r = StatusScanning"
    using ClaimScan_Inr(2) [OF assms(2)] by auto
  then show ?thesis
    using tbl_get_in [OF life_invD(2) [OF assms(1)] r(1)] ClaimScan_Inr(1) [OF assms(2)] by (simp add: get_attachment_def toDomain_def)
qed

lemma scan_round_cases:
  assumes "scanOnce A V open_object now now' db = (r, db')"
  obtains (idle) e where "ClaimScan now db = (Inl e, db')"
  | (retry) a db1 e r' where "ClaimScan now db = (Inr a, db1)" "RetryScan now' (att_ID a) (Some e) db1 = (r', db')"
  | (complete) a db1 rs result where "ClaimScan now db = (Inr a, db1)" "open_object (att_ObjectKey a) = Inr rs"
      "ClamAV_Scan V rs = Inr result" "CompleteScan A now' (att_ID a) result (sr_Clean result) db1 = (r, db')"
proof (cases "ClaimScan now db")
  case (Pair c db1)
  show thesis
  proof (cases c)
    case (Inl e)
    then show thesis using assms Pair idle by (auto simp: scanOnce_def)
  next
    case (Inr a)
    have fail: "thesis" if "(case RetryScan now' (att_ID a) (Some e) db1 of (Inl e', db2) \<Rightarrow> (Inl e', db2) | (Inr _, db2) \<Rightarrow> (Inl (AOther e), db2)) = (r, db')" for e
      using that retry [of a db1 e] Pair Inr by (auto split: prod.split_asm sum.split_asm)
    show thesis
      using assms Pair Inr fail complete [of a db1] by (auto simp: scanOnce_def Let_def split: sum.split_asm)
  qed
qed

lemma scan_round_reach:
  assumes "areach A db" and "scanOnce A V open_object now now' db = (r, db')"
  shows "areach A db'"
proof -
  have claim: "areach A db1" if "ClaimScan now db = (c, db1)" for c db1
    using assms(1) astep.claim [OF that] by (rule areach.step)
  from assms(2) show ?thesis
  proof (cases rule: scan_round_cases)
    case (complete a db1 rs result)
    obtain x where "get_attachment (att_ID a) db1 = Some x" "at_Status x = StatusScanning"
      using claimed_row [OF areach_life [OF assms(1)] complete(1)] by blast
    then have "astep A db1 db'" by (intro astep.complete [OF complete(4)]) simp
    then show ?thesis using areach.step [OF claim [OF complete(1)]] by blast
  qed (use claim areach.step astep.retry in blast)+
qed

lemma CompleteScan_row:
  assumes "CompleteScan A now i result clean db = (r, db')" and "get_attachment i db = Some x"
  shows "get_attachment i db' = Some (x\<lparr>at_Status := (if sr_Size result \<noteq> at_SizeBytes x \<or> (at_SHA256 x \<noteq> [] \<and> \<not> equal_fold A (sr_SHA256 result) (at_SHA256 x))
       then StatusRejected else if clean then StatusReady else StatusRejected), at_DetectedType := sr_DetectedType result, at_UpdatedAt := now,
       at_SHA256 := (if sr_SHA256 result \<noteq> [] then to_lower (ae_lower A) (sr_SHA256 result) else at_SHA256 x)\<rparr>)"
    "j \<noteq> i \<Longrightarrow> get_attachment j db' = get_attachment j db"
  using assms by (auto simp: CompleteScan_def call_defs get_attachment_def Let_def tbl_get_upd_key [where key = at_ID])

lemma RetryScan_status:
  assumes "RetryScan now i e db = (r, db')"
  shows "get_attachment j db' = get_attachment j db \<or> status_of db' j = Some StatusScanParked"
proof (cases "find (\<lambda>r. at_ID r = i \<and> at_Status r = StatusScanning) (a_attachments db)")
  case (Some x)
  then have "at_ID x = i" by (auto simp: find_Some_iff)
  then show ?thesis using assms Some
    by (cases "tbl_get at_ID j (a_attachments db)")
      (auto simp: RetryScan_def call_defs status_of_def get_attachment_def tbl_get_upd_key [where key = at_ID] split: if_split_asm option.split_asm)
qed (use assms in \<open>simp add: RetryScan_def call_defs\<close>)

text \<open>C10: A scan round makes an attachment ready only after the daemon has received exactly the bytes of the stored object and
  found them clean; the object then has the size the upload announced, and the digest kept for it is that of those bytes.\<close>

theorem ready_after_clean_scan:
  assumes "areach A db" and "scanOnce A V open_object now now' db = (r, db')"
    and "\<And>key rs. open_object key = Inr rs \<Longrightarrow> buffered rs"
    and "status_of db i \<noteq> Some StatusReady" and "status_of db' i = Some StatusReady"
  shows "\<exists>row row' rs received raw. get_attachment i db = Some row \<and> get_attachment i db' = Some row' \<and> open_object (at_ObjectKey row) = Inr rs
    \<and> instream_content received = Some (object_content rs) \<and> cv_reply V received = Some raw \<and> has_suffix (trim_reply raw) '': OK''
    \<and> int (length (object_content rs)) = at_SizeBytes row
    \<and> (cv_sha256 V (object_content rs) \<noteq> [] \<longrightarrow> at_SHA256 row' = to_lower (ae_lower A) (cv_sha256 V (object_content rs)))"
  using assms(2)
proof (cases rule: scan_round_cases)
  case (idle e)
  then have "a_attachments db' = a_attachments db" by (auto simp: ClaimScan_def call_defs split: list.split_asm option.split_asm)
  then show ?thesis using assms(4,5) by (auto simp: status_of_def get_attachment_def)
next
  case (retry a db1 e r')
  have "get_attachment i db1 = get_attachment i db" using ClaimScan_Inr(1) [OF retry(1)] by (simp add: get_attachment_def)
  then show ?thesis using RetryScan_status [OF retry(2), of i] assms(4,5) by (auto simp: status_of_def)
next
  case (complete a db1 rs result)
  obtain row where row: "get_attachment (att_ID a) db = Some row" "get_attachment (att_ID a) db1 = Some row" "a = toDomain row"
    using claimed_row [OF areach_life [OF assms(1)] complete(1)] by blast
  have same: "get_attachment j db1 = get_attachment j db" for j using ClaimScan_Inr(1) [OF complete(1)] by (simp add: get_attachment_def)
  note after = CompleteScan_row [OF complete(4) row(2)]
  have i: "i = att_ID a" using after(2) [of i] same [of i] assms(4,5) by (cases "i = att_ID a") (auto simp: status_of_def)
  have ok: "sr_Clean result" "sr_Size result = at_SizeBytes row"
    using after(1) assms(5) i by (auto simp: status_of_def split: if_split_asm)
  note res = scan_result [OF complete(3) assms(3) [OF complete(2)]]
  obtain received raw where "instream_content received = Some (object_content rs)" "cv_reply V received = Some raw" "has_suffix (trim_reply raw) '': OK''"
    using res(3) ok(1) by auto
  moreover have "open_object (at_ObjectKey row) = Inr rs" using complete(2) row(3) by (simp add: toDomain_def)
  ultimately show ?thesis using row(1) after(1) i ok(2) res(1,2) by (intro exI conjI) auto
qed

definition sample_clamav :: clamav where
  "sample_clamav = \<lparr>cv_maximum = 100, cv_dial = True, cv_write = (\<lambda>_. True),
     cv_reply = (\<lambda>bs. if instream_content bs = Some ''0123456789'' then Some (''stream: OK'' @ [CHR 0x00]) else None),
     cv_sha256 = (\<lambda>_. ''ab''), cv_detect = (\<lambda>_. ''image/png'')\<rparr>"

definition sample_object :: "string \<Rightarrow> string + reads" where
  "sample_object key = (if key = ''objects/att-1'' then Inr [(''01234'', More), ([], More), (''56789'', EOF)] else Inl ''no such key'')"

definition scanned_adb :: adb where
  "scanned_adb = snd (scanOnce sample_aenv sample_clamav sample_object 2 3 scanning_adb)"

theorem ready_after_clean_scan_witness:
  "\<exists>row rs. get_attachment ''att-1'' scanning_adb = Some row \<and> sample_object (at_ObjectKey row) = Inr rs \<and> int (length (object_content rs)) = at_SizeBytes row"
proof -
  have b: "buffered rs" if "sample_object key = Inr rs" for key rs
    using that by (auto simp: sample_object_def buffered_def split: if_split_asm)
  have s: "status_of scanning_adb ''att-1'' \<noteq> Some StatusReady" "status_of scanned_adb ''att-1'' = Some StatusReady" by code_simp+
  have r: "scanOnce sample_aenv sample_clamav sample_object 2 3 scanning_adb = (fst (scanOnce sample_aenv sample_clamav sample_object 2 3 scanning_adb), scanned_adb)"
    by (simp add: scanned_adb_def)
  from ready_after_clean_scan [OF scanning_reach r _ s] b show ?thesis by blast
qed

end
