(* ===== verification/AttachmentRequests.thy ===== *)
theory AttachmentRequests
  imports AttachmentService AttachmentScan
begin

text \<open>
  What the attachment RPCs may change and show: every request makes at most one change of the repository, under the
  owner its token names; no upload the object store has opened is left without an attachment or an abort.
\<close>

section \<open>Changes\<close>

definition token_owner :: "senv \<Rightarrow> int option" where
  "token_owner S = (case handler_owner S (Some ()) of Inl _ \<Rightarrow> None | Inr owner \<Rightarrow> Some owner)"

lemma handler_owner_token: "handler_owner S q = Inr owner \<Longrightarrow> token_owner S = Some owner \<and> q \<noteq> None"
  by (auto simp: token_owner_def handler_owner_def Let_def split: option.split_asm sum.splits if_split_asm)

inductive att_change :: "aenv \<Rightarrow> int option \<Rightarrow> adb \<Rightarrow> adb \<Rightarrow> bool" for A where
  same: "att_change A w db db"
| create: "CreateAttachment a v db = (ra, db') \<Longrightarrow> att_Status a = StatusPendingUpload \<Longrightarrow> att_OwnerID a = owner \<Longrightarrow> att_change A (Some owner) db db'"
| mark: "MarkScanning now i owner db = (r, db') \<Longrightarrow> att_change A (Some owner) db db'"
| trash: "TrashAttachment now i owner db = (r, db') \<Longrightarrow> att_change A (Some owner) db db'"
| restore: "RestoreAttachment now i owner db = (r, db') \<Longrightarrow> att_change A (Some owner) db db'"
| stage: "publicationCommand A rq e = Some c \<Longrightarrow> StagePublicationReferences now c db = (r, db') \<Longrightarrow> att_change A w db db'"
| finalize: "publicationCommand A rq e = Some c \<Longrightarrow> FinalizePublicationReferences now c db = (r, db') \<Longrightarrow> att_change A w db db'"
| clear: "publicationCommand A rq e = Some c \<Longrightarrow> ClearPublicationReferences now c db = (r, db') \<Longrightarrow> att_change A w db db'"

lemma change_step: "att_change A w db db' \<Longrightarrow> db' = db \<or> astep A db db'"
  by (cases rule: att_change.cases) (auto intro: astep.intros)

subsection \<open>Requests make one change\<close>

lemma owned_call_change:
  assumes "\<And>owner r. att_change A (Some owner) (sv_db s) (sv_db (snd (k owner r s)))"
  shows "att_change A (token_owner S) (sv_db s) (sv_db (snd (owned_call S q k s)))"
  using assms by (auto simp: owned_call_def att_change.same dest!: handler_owner_token split: sum.split)

lemma sv_db_log [simp]: "sv_db (log_call c s) = sv_db s"
  by (simp add: log_call_def)

lemma create_change: "att_change A (Some owner) (sv_db s) (sv_db (snd (Service_Create S owner rq s)))"
proof -
  have rec: "att_change A (Some owner) (sv_db s) (sv_db (snd (record_upload S (new_attachment S owner rq c i u) v s)))" for c i u v s
    using att_change.create [of "new_attachment S owner rq c i u" v "sv_db s" _ _ owner A]
    by (cases "CreateAttachment (new_attachment S owner rq c i u) v (sv_db s)")
      (auto simp: record_upload_def Let_def new_attachment_def split: sum.split)
  have "att_change A (Some owner) (sv_db s) (sv_db (snd (record_upload S (new_attachment S owner rq c i u) v (log_call x s))))" for c i u v x
    using rec [of "log_call x s"] by simp
  then show ?thesis by (auto simp: Service_Create_def att_change.same split: sum.split option.split)
qed

lemma complete_change: "att_change A (Some owner) (sv_db s) (sv_db (snd (Service_Complete S owner rq s)))"
proof -
  have "att_change A (Some owner) (sv_db s) (snd (MarkScanning now i owner (sv_db s)))" for now i
    by (cases "MarkScanning now i owner (sv_db s)") (auto intro: att_change.mark)
  then show ?thesis
    by (auto simp: Service_Complete_def Let_def att_change.same split: sum.split option.split prod.split) (metis snd_conv)+
qed

lemma trash_change: "att_change A (Some owner) db (snd (Service_Trash S owner i db))"
  by (auto simp: Service_Trash_def att_change.same intro: att_change.trash split: sum.split prod.split)

lemma restore_change: "att_change A (Some owner) db (snd (Service_Restore S owner i db))"
  by (auto simp: Service_Restore_def att_change.same intro: att_change.restore split: sum.split prod.split)

lemma on_db_snd: "sv_db (snd (on_db f s)) = snd (f (sv_db s))"
  by (simp add: on_db_def split: prod.split)

lemma reference_change:
  "att_change A w db (snd (ServiceStage A now rq db))" "att_change A w db (snd (ServiceFinalize A now rq db))"
  "att_change A w db (snd (ServiceClear A now rq db))"
  by (auto simp: ServiceStage_def ServiceFinalize_def ServiceClear_def reference_call_def att_change.same
      intro: att_change.stage att_change.finalize att_change.clear split: option.split prod.split)

lemma reference_handler_change:
  assumes "\<And>rq. att_change A w (sv_db s) (snd (f (se_attachments S) (se_now S) rq (sv_db s)))"
  shows "att_change A w (sv_db s) (sv_db (snd (reference_handler f S q s)))"
  using assms by (auto simp: reference_handler_def unowned_call_def on_db_snd att_change.same split: option.split prod.split) (metis snd_conv)

lemma att_answer_snd: "snd (att_answer g m s) = snd (m s)"
  by (simp add: att_answer_def split: prod.split)

lemma serve_change: "att_change (se_attachments S) (token_owner S) (sv_db s) (sv_db (snd (serve_attachment S req s)))"
proof (cases req)
  case (AttRestore q)
  have "snd (case on_db f s of (Inl e, s') \<Rightarrow> (Inl e, s') | (Inr _, s') \<Rightarrow> on_read g s') = snd (on_db f s)" for f :: "adb \<Rightarrow> (att_error + unit) \<times> adb" and g :: "adb \<Rightarrow> att_error + TAttachment"
    by (auto simp: on_read_def split: prod.split sum.split)
  then show ?thesis
    unfolding AttRestore using restore_change
    by (auto simp: att_answer_snd Attachment_RestoreAttachment_def on_db_snd intro!: owned_call_change)
qed (auto simp: att_answer_snd Attachment_CreateAttachment_def Attachment_CompleteAttachment_def Attachment_ListAttachments_def
      Attachment_GetAttachment_def Attachment_TrashAttachment_def Attachment_StagePublicationReferences_def
      Attachment_FinalizePublicationReferences_def Attachment_ClearPublicationReferences_def unowned_call_def on_read_def
      Attachment_GetPublicationReferenceState_def Attachment_GetPublishedAttachmentContent_def on_db_snd att_change.same
      intro!: owned_call_change create_change complete_change trash_change reference_handler_change reference_change split: option.split)

section \<open>Rows of other owners\<close>

lemma reference_rows:
  assumes "refs_ok db" and "valid_command c"
  shows "a_attachments (snd (StagePublicationReferences now c db)) = a_attachments db"
    "a_attachments (snd (FinalizePublicationReferences now c db)) = a_attachments db"
    "a_attachments (snd (ClearPublicationReferences now c db)) = a_attachments db"
  using stage_implements [OF assms] finalize_implements [OF assms] clear_implements [OF assms] by (auto simp: implements_def)

definition one_row :: "string \<Rightarrow> adb \<Rightarrow> adb \<Rightarrow> bool" where
  "one_row k db db' \<longleftrightarrow> a_attachments db' = a_attachments db
     \<or> (\<exists>f. (\<forall>r. at_ID (f r) = at_ID r) \<and> a_attachments db' = tbl_upd (\<lambda>r. at_ID r = k) f (a_attachments db))"

lemma one_row_other: "one_row k db db' \<Longrightarrow> i \<noteq> k \<Longrightarrow> get_attachment i db' = get_attachment i db"
  by (auto simp: one_row_def get_attachment_def tbl_get_upd_key [where key = at_ID])

lemma owner_row:
  assumes "distinct (map at_ID (a_attachments db))"
  shows "one_row k db (snd (MarkScanning now k owner db))" "one_row k db (snd (TrashAttachment now k owner db))"
    and "owned_attachment k owner db = None \<Longrightarrow> snd (MarkScanning now k owner db) = db"
    and "owned_attachment k owner db = None \<Longrightarrow> snd (TrashAttachment now k owner db) = db"
proof -
  show "one_row k db (snd (MarkScanning now k owner db))"
    using owned_get(2) [OF assms, of k owner]
    by (cases "owned_attachment k owner db")
      (auto simp: MarkScanning_def call_defs one_row_def intro!: exI [of _ "\<lambda>x. x\<lparr>at_Status := StatusScanning, at_UpdatedAt := now\<rparr>"])
  show "one_row k db (snd (TrashAttachment now k owner db))"
    using owned_get(2) [OF assms, of k owner]
    by (cases "owned_attachment k owner db")
      (auto simp: TrashAttachment_def call_defs one_row_def intro!: exI [of _ "\<lambda>x. x\<lparr>at_Status := StatusTrashed, at_UpdatedAt := now\<rparr>"])
qed (simp_all add: MarkScanning_def TrashAttachment_def call_defs)

lemma other_owner:
  assumes "distinct (map at_ID (a_attachments db))" "get_attachment i db = Some row" "owner \<noteq> at_OwnerID row" "owned_attachment k owner db = Some x"
  shows "i \<noteq> k"
  using owned_get [OF assms(1,4)] assms(2,3,4) by (auto simp: owned_attachment_def find_Some_iff)

lemma change_rows:
  assumes "att_change A w db db'" and "life_inv db" and g: "get_attachment i db = Some row" and w: "w \<noteq> Some (at_OwnerID row)"
  shows "get_attachment i db' = Some row"
  using assms(1)
proof cases
  case (create a v ra owner)
  then show ?thesis using g
    by (auto simp: CreateAttachment_def call_defs get_attachment_def tbl_get_append split: if_split_asm option.split_asm sum.split_asm)
next
  case (mark now k owner r)
  note d = life_invD(2) [OF assms(2)]
  show ?thesis
    using mark w g owner_row(1) [OF d, of k now owner] owner_row(3) [OF d, of k owner now] other_owner [OF d g, of owner k] one_row_other
    by (cases "owned_attachment k owner db") auto
next
  case (trash now k owner r)
  note d = life_invD(2) [OF assms(2)]
  show ?thesis
    using trash w g owner_row(2) [OF d, of k now owner] owner_row(4) [OF d, of k owner now] other_owner [OF d g, of owner k] one_row_other
    by (cases "owned_attachment k owner db") auto
next
  case (restore now k owner r)
  have "tbl_get at_ID i (tbl_upd (\<lambda>r. at_ID r = k \<and> at_OwnerID r = owner \<and> at_Status r = StatusTrashed) f rows) = Some row"
    if "tbl_get at_ID i rows = Some row" "\<And>x. at_ID (f x) = at_ID x" for f rows
    using that(1) restore(1) w by (auto simp: tbl_get_upd [where key = at_ID and f = f, OF that(2)])
  then show ?thesis using restore g by (auto simp: RestoreAttachment_def call_defs get_attachment_def)
next
  case (stage rq e c now r)
  then show ?thesis using reference_rows(1) [OF life_invD(1) [OF assms(2)] publicationCommand_valid, of A rq e c now] g by (simp add: get_attachment_def)
next
  case (finalize rq e c now r)
  then show ?thesis using reference_rows(2) [OF life_invD(1) [OF assms(2)] publicationCommand_valid, of A rq e c now] g by (simp add: get_attachment_def)
next
  case (clear rq e c now r)
  then show ?thesis using reference_rows(3) [OF life_invD(1) [OF assms(2)] publicationCommand_valid, of A rq e c now] g by (simp add: get_attachment_def)
qed (use g in simp)

text \<open>C8: Whatever sequence of attachment RPCs is served, the database stays among the states the repository calls reach, and a
  request leaves every attachment alone that does not belong to the user its token was issued to.\<close>

theorem attachment_requests_confined:
  assumes "areach (se_attachments S) (sv_db s)" and "serve_attachment S req s = (r, s')"
  shows "areach (se_attachments S) (sv_db s') \<and>
    (\<forall>i row. get_attachment i (sv_db s) = Some row \<and> token_owner S \<noteq> Some (at_OwnerID row) \<longrightarrow> get_attachment i (sv_db s') = Some row)"
proof -
  have c: "att_change (se_attachments S) (token_owner S) (sv_db s) (sv_db s')" using serve_change [of S s req] assms(2) by simp
  show ?thesis using change_step [OF c] assms(1) areach.step change_rows [OF c areach_life [OF assms(1)]] by metis
qed

section \<open>Uploads\<close>

definition uploads :: "attachment_row list \<Rightarrow> (string \<times> string) list" where
  "uploads rows = map (\<lambda>r. (at_ObjectKey r, at_UploadID r)) rows"

lemma uploads_upd:
  assumes "\<And>r. at_ObjectKey (f r) = at_ObjectKey r" and "\<And>r. at_UploadID (f r) = at_UploadID r"
  shows "uploads (tbl_upd p f rows) = uploads rows"
  unfolding uploads_def by (rule map_key_upd [where key = "\<lambda>r. (at_ObjectKey r, at_UploadID r)"]) (simp add: assms)

lemma uploads_append: "uploads (xs @ ys) = uploads xs @ uploads ys"
  by (simp add: uploads_def)

lemmas upload_simps = call_defs uploads_upd uploads_append

lemma scan_call_uploads:
  "uploads (a_attachments (snd (ClaimScan now db))) = uploads (a_attachments db)"
  "uploads (a_attachments (snd (CompleteScan A now i result clean db))) = uploads (a_attachments db)"
  "uploads (a_attachments (snd (RetryScan now i err db))) = uploads (a_attachments db)"
  by (simp_all add: ClaimScan_def CompleteScan_def RetryScan_def upload_simps Let_def split: option.split list.split)

lemma owner_call_uploads:
  "uploads (a_attachments (snd (MarkScanning now i owner db))) = uploads (a_attachments db)"
  "uploads (a_attachments (snd (TrashAttachment now i owner db))) = uploads (a_attachments db)"
  "uploads (a_attachments (snd (RestoreAttachment now i owner db))) = uploads (a_attachments db)"
  by (simp_all add: MarkScanning_def TrashAttachment_def RestoreAttachment_def upload_simps split: option.split)

lemma create_uploads: "\<exists>xs. uploads (a_attachments (snd (CreateAttachment a v db))) = uploads (a_attachments db) @ xs"
  by (simp add: CreateAttachment_def upload_simps split: option.split)

lemmas repository_uploads = owner_call_uploads(1) scan_call_uploads owner_call_uploads(2,3) create_uploads

lemma astep_uploads:
  assumes "astep A db db'" and "life_inv db"
  shows "set (uploads (a_attachments db)) \<subseteq> set (uploads (a_attachments db'))"
  using assms(1)
proof cases
  case (create a v ra)
  then show ?thesis using repository_uploads(7) [of a v db] by auto
next
  case (mark now i owner r)
  then show ?thesis using repository_uploads(1) [of now i owner db] by simp
next
  case (claim now ra)
  then show ?thesis using repository_uploads(2) [of now db] by simp
next
  case (complete now i result clean r)
  then show ?thesis using repository_uploads(3) [of A now i result clean db] by simp
next
  case (retry now i err r)
  then show ?thesis using repository_uploads(4) [of now i err db] by simp
next
  case (trash now i owner r)
  then show ?thesis using repository_uploads(5) [of now i owner db] by simp
next
  case (restore now i owner r)
  then show ?thesis using repository_uploads(6) [of now i owner db] by simp
next
  case (stage rq e c now r)
  then show ?thesis using reference_rows(1) [OF life_invD(1) [OF assms(2)] publicationCommand_valid, of A rq e c now] by simp
next
  case (finalize rq e c now r)
  then show ?thesis using reference_rows(2) [OF life_invD(1) [OF assms(2)] publicationCommand_valid, of A rq e c now] by simp
next
  case (clear rq e c now r)
  then show ?thesis using reference_rows(3) [OF life_invD(1) [OF assms(2)] publicationCommand_valid, of A rq e c now] by simp
qed

text \<open>Every upload the object store has opened is recorded with an attachment or was given up.\<close>

definition accounted :: "asvc \<Rightarrow> bool" where
  "accounted s \<longleftrightarrow> (\<forall>key media u. StartMultipart key media u \<in> set (sv_calls s) \<longrightarrow>
     AbortMultipart key u \<in> set (sv_calls s) \<or> (key, u) \<in> set (uploads (a_attachments (sv_db s))))"

lemma accounted_mono:
  assumes "accounted s" and "set (uploads (a_attachments (sv_db s))) \<subseteq> set (uploads (a_attachments (sv_db s')))"
    and "set (sv_calls s) \<subseteq> set (sv_calls s')" and "\<And>key media u. StartMultipart key media u \<in> set (sv_calls s') \<Longrightarrow> StartMultipart key media u \<in> set (sv_calls s)"
  shows "accounted s'"
  using assms unfolding accounted_def by blast

lemma change_uploads:
  assumes "att_change A w db db'" and "life_inv db"
  shows "set (uploads (a_attachments db)) \<subseteq> set (uploads (a_attachments db'))"
  using change_step [OF assms(1)] astep_uploads [OF _ assms(2)] by blast

lemma create_recorded:
  assumes "CreateAttachment a v db = (Inr stored, db')" and "get_attachment (att_ID a) db = None" and "att_ID stored = att_ID a"
  shows "(att_ObjectKey a, att_UploadID a) \<in> set (uploads (a_attachments db'))"
proof -
  have "\<not> (\<exists>r \<in> set (a_attachments db). at_ID r = att_ID a)" using assms(2) by (auto simp: get_attachment_def tbl_get_None)
  then show ?thesis using assms(1,3)
    by (auto simp: CreateAttachment_def call_defs uploads_def newAttachmentRow_def toDomain_def find_Some_iff split: if_split_asm option.split_asm)
qed

lemma record_accounted:
  assumes "accounted s" and "get_attachment (att_ID a) (sv_db s) = None"
  shows "accounted (snd (record_upload S a v (log_call (StartMultipart (att_ObjectKey a) media (att_UploadID a)) s)))"
proof (cases "CreateAttachment a v (sv_db s)")
  case (Pair r db')
  have mono: "set (uploads (a_attachments (sv_db s))) \<subseteq> set (uploads (a_attachments db'))"
    using repository_uploads(7) [of a v "sv_db s"] Pair by auto
  show ?thesis
  proof (cases r)
    case (Inl e)
    then show ?thesis using Pair mono assms(1) by (auto simp: record_upload_def log_call_def accounted_def Let_def)
  next
    case (Inr stored)
    show ?thesis
    proof (cases "att_ID stored = att_ID a")
      case True
      have "(att_ObjectKey a, att_UploadID a) \<in> set (uploads (a_attachments db'))"
        using create_recorded [OF _ assms(2) True] Pair Inr by simp
      then show ?thesis using Pair Inr True mono assms(1) by (auto simp: record_upload_def log_call_def accounted_def Let_def)
    next
      case False
      then show ?thesis using Pair Inr mono assms(1) by (auto simp: record_upload_def log_call_def accounted_def Let_def)
    qed
  qed
qed

lemma create_accounted:
  assumes "accounted s" and "\<And>i. se_newID S = Some i \<Longrightarrow> get_attachment i (sv_db s) = None"
  shows "accounted (snd (Service_Create S owner rq s))"
proof -
  have "accounted (snd (record_upload S (new_attachment S owner rq c i u) v (log_call (StartMultipart (ObjectKey i) (ca_MediaType rq) u) s)))"
    if "se_newID S = Some i" for c i u v
    using record_accounted [OF assms(1), of "new_attachment S owner rq c i u"] assms(2) [OF that] by (simp add: new_attachment_def)
  then show ?thesis using assms(1) by (auto simp: Service_Create_def split: sum.split option.split)
qed

text \<open>The other requests open no uploads.\<close>

definition no_start :: "asvc \<Rightarrow> asvc \<Rightarrow> bool" where
  "no_start s s' \<longleftrightarrow> set (sv_calls s) \<subseteq> set (sv_calls s') \<and>
     (\<forall>key media u. StartMultipart key media u \<in> set (sv_calls s') \<longrightarrow> StartMultipart key media u \<in> set (sv_calls s))"

lemma no_start_basic: "no_start s s" "no_start s (snd (on_db f s))" "no_start s (snd (on_read g s))"
  by (simp_all add: no_start_def on_db_def on_read_def split: prod.split)

lemma no_start_complete: "no_start s (snd (Service_Complete S owner rq s))"
  by (auto simp: Service_Complete_def no_start_def log_call_def Let_def split: sum.split option.split prod.split)

lemma no_start_owned: "(\<And>owner r. no_start s (snd (k owner r s))) \<Longrightarrow> no_start s (snd (owned_call S q k s))"
  by (simp add: owned_call_def no_start_basic split: sum.split)

lemma no_start_unowned: "(\<And>r. no_start s (snd (k r s))) \<Longrightarrow> no_start s (snd (unowned_call q k s))"
  by (simp add: unowned_call_def no_start_basic split: option.split)

lemma no_start_restore: "no_start s (snd (case on_db f s of (Inl e, s') \<Rightarrow> (Inl e, s') | (Inr _, s') \<Rightarrow> on_read g s'))"
  by (auto simp: on_read_def on_db_def no_start_def split: prod.split sum.split)

lemma serve_no_start:
  assumes "\<nexists>q. req = AttCreate q"
  shows "no_start s (snd (serve_attachment S req s))"
  using assms
  by (cases req) (simp_all add: att_answer_snd Attachment_CompleteAttachment_def Attachment_ListAttachments_def Attachment_GetAttachment_def
      Attachment_TrashAttachment_def Attachment_RestoreAttachment_def Attachment_StagePublicationReferences_def
      Attachment_FinalizePublicationReferences_def Attachment_ClearPublicationReferences_def reference_handler_def
      Attachment_GetPublicationReferenceState_def Attachment_GetPublishedAttachmentContent_def
      no_start_owned no_start_unowned no_start_complete no_start_basic no_start_restore)

text \<open>The service at work: requests that draw fresh identifiers, and rounds of the scan worker.\<close>

inductive att_run :: "aenv \<Rightarrow> asvc \<Rightarrow> bool" for A where
  start: "att_run A \<lparr>sv_db = empty_adb, sv_calls = []\<rparr>"
| request: "att_run A s \<Longrightarrow> se_attachments S = A \<Longrightarrow> (\<And>i. se_newID S = Some i \<Longrightarrow> get_attachment i (sv_db s) = None) \<Longrightarrow>
    serve_attachment S req s = (r, s') \<Longrightarrow> att_run A s'"
| scan: "att_run A s \<Longrightarrow> scanOnce A V open_object now now' (sv_db s) = (r', db') \<Longrightarrow> att_run A (s\<lparr>sv_db := db'\<rparr>)"

lemma scan_uploads:
  assumes "areach A db" and "scanOnce A V open_object now now' db = (r, db')"
  shows "uploads (a_attachments db') = uploads (a_attachments db)"
  using assms(2)
proof (cases rule: scan_round_cases)
  case (idle e)
  then show ?thesis using repository_uploads(2) [of now db] by simp
next
  case (retry a db1 e r')
  then show ?thesis using repository_uploads(2) [of now db] repository_uploads(4) [of now' "att_ID a" "Some e" db1] by simp
next
  case (complete a db1 rs result)
  then show ?thesis using repository_uploads(2) [of now db] repository_uploads(3) [of A now' "att_ID a" result "sr_Clean result" db1] by simp
qed

lemma att_run_reach: "att_run A s \<Longrightarrow> areach A (sv_db s)"
proof (induction rule: att_run.induct)
  case (request s S req r s')
  have "att_change A (token_owner S) (sv_db s) (sv_db s')" using serve_change [of S s req] request.hyps by simp
  then show ?case using change_step request.IH areach.step by metis
qed (auto intro: areach.start scan_round_reach)

text \<open>C26: The service never loses track of an upload: each multipart upload it has opened in the object store is either the one
  recorded with an attachment or was given up again, whichever requests failed, were repeated or ran into the quota.\<close>

theorem uploads_accounted:
  assumes "att_run A s" and "StartMultipart key media u \<in> set (sv_calls s)"
  shows "AbortMultipart key u \<in> set (sv_calls s) \<or> (\<exists>row \<in> set (a_attachments (sv_db s)). at_ObjectKey row = key \<and> at_UploadID row = u)"
proof -
  have "accounted s" using assms(1)
  proof (induction rule: att_run.induct)
    case (request s S req r s')
    show ?case
    proof (cases "\<exists>q. req = AttCreate q")
      case True
      then obtain q where "req = AttCreate q" ..
      then have "s' = snd (owned_call S q (Service_Create S) s)"
        using request.hyps(4) att_answer_snd [of ReplyUpload "owned_call S q (Service_Create S)" s] by (simp add: Attachment_CreateAttachment_def)
      then show ?thesis using create_accounted [OF request.IH request.hyps(3)] request.IH by (simp add: owned_call_def split: sum.split)
    next
      case False
      then have "no_start s s'" using serve_no_start [of req s S] request.hyps(4) by auto
      moreover have "set (uploads (a_attachments (sv_db s))) \<subseteq> set (uploads (a_attachments (sv_db s')))"
        using change_uploads [OF serve_change areach_life [OF att_run_reach [OF request.hyps(1)]], of S req] request.hyps by simp
      ultimately show ?thesis using accounted_mono [OF request.IH] by (simp add: no_start_def)
    qed
  next
    case (scan s V open_object now now' r db')
    then show ?case using scan_uploads [OF att_run_reach [OF scan.hyps(1)] scan.hyps(2)] by (simp add: accounted_def)
  qed (simp add: accounted_def)
  then show ?thesis using assms(2) by (auto simp: accounted_def uploads_def)
qed

section \<open>Replies\<close>

definition reply_ok :: "senv \<Rightarrow> att_request \<Rightarrow> adb \<Rightarrow> att_reply \<Rightarrow> bool" where
  "reply_ok S req db rep = (case rep of
     ReplyAttachment t \<Rightarrow> token_owner S = Some (tt_OwnerId t) \<and> (tt_DownloadUrl t \<noteq> None \<longrightarrow> tt_Status t = StatusReady)
   | ReplyUpload u \<Rightarrow> token_owner S = Some (tt_OwnerId (tu_Attachment u))
   | ReplyList (ts, _, _) \<Rightarrow> list_all (\<lambda>t. token_owner S = Some (tt_OwnerId t) \<and> tt_DownloadUrl t = None) ts
   | ReplyContent (u, _) \<Rightarrow> (case req of AttContent (Some i) \<Rightarrow>
        (\<exists>row. get_attachment i db = Some row \<and> at_Status row = StatusReady \<and> i \<in> referenced db \<and> se_presign_download S (at_ObjectKey row) = Some u)
      | _ \<Rightarrow> False)
   | _ \<Rightarrow> True)"

lemma owned_call_Inr:
  assumes "owned_call S q k s = (Inr x, s')"
  obtains owner r where "token_owner S = Some owner" "q = Some r" "k owner r s = (Inr x, s')"
  using assms by (auto simp: owned_call_def dest: handler_owner_token split: sum.split_asm)

lemma att_answer_Inr: "att_answer f m s = (Inr x, s') \<Longrightarrow> \<exists>y. m s = (Inr y, s') \<and> x = f y"
  by (auto simp: att_answer_def split: prod.split_asm) (metis map_sum.simps obj_sumE sum.inject(2) sum.simps(4))

lemma uploadResult_Inr: "uploadResult S a = Inr u \<Longrightarrow> tt_OwnerId (tu_Attachment u) = att_OwnerID a"
  by (auto simp: uploadResult_def toTransport_def split: if_split_asm sum.split_asm)

lemma CreateAttachment_owner:
  assumes "CreateAttachment a v db = (Inr stored, db')" and "ai_OwnerID v = att_OwnerID a"
  shows "att_OwnerID stored = att_OwnerID a"
  using assms by (auto simp: CreateAttachment_def call_defs toDomain_def newAttachmentRow_def find_Some_iff split: if_split_asm option.split_asm)

lemma create_reply:
  assumes "Service_Create S owner rq s = (Inr u, s')"
  shows "tt_OwnerId (tu_Attachment u) = owner"
proof -
  obtain a v s0 where r: "record_upload S a v s0 = (Inr u, s')" and v: "ai_OwnerID v = att_OwnerID a" "att_OwnerID a = owner"
    using assms by (auto simp: Service_Create_def new_attachment_def split: if_split_asm sum.split_asm option.split_asm)
  show ?thesis
  proof (cases "CreateAttachment a v (sv_db s0)")
    case (Pair c db')
    then show ?thesis using r v CreateAttachment_owner [of a v "sv_db s0" _ db'] uploadResult_Inr [of S]
      by (cases c) (auto simp: record_upload_def Let_def split: if_split_asm)
  qed
qed

lemma read_replies:
  "Service_Get S owner i db = Inr t \<Longrightarrow> tt_OwnerId t = owner \<and> (tt_DownloadUrl t \<noteq> None \<longrightarrow> tt_Status t = StatusReady)"
  "Service_List S owner rq db = Inr (ts, hm, nx) \<Longrightarrow> t \<in> set ts \<Longrightarrow> tt_OwnerId t = owner \<and> tt_DownloadUrl t = None"
  "Service_Complete S owner crq s = (Inr t, s') \<Longrightarrow> tt_OwnerId t = owner \<and> tt_DownloadUrl t = None"
proof -
  have g: "GetAttachment i owner db = Inr a \<Longrightarrow> att_OwnerID a = owner" for i db a
    by (auto simp: GetAttachment_def owned_attachment_def toDomain_def find_Some_iff split: option.split_asm)
  show "Service_Get S owner i db = Inr t \<Longrightarrow> tt_OwnerId t = owner \<and> (tt_DownloadUrl t \<noteq> None \<longrightarrow> tt_Status t = StatusReady)"
    by (auto simp: Service_Get_def toTransport_def dest!: g split: if_split_asm sum.split_asm option.split_asm)
  show "Service_Complete S owner crq s = (Inr t, s') \<Longrightarrow> tt_OwnerId t = owner \<and> tt_DownloadUrl t = None"
    by (auto simp: Service_Complete_def toTransport_def Let_def dest!: g split: if_split_asm sum.split_asm option.split_asm prod.split_asm)
  have l: "a \<in> set (ListAttachments owner st ct cu n db) \<Longrightarrow> att_OwnerID a = owner" for a st ct cu n
    by (auto simp: ListAttachments_def Let_def toDomain_def dest!: in_set_takeD)
  show "tt_OwnerId t = owner \<and> tt_DownloadUrl t = None" if "Service_List S owner rq db = Inr (ts, hm, nx)" "t \<in> set ts"
    using that by (auto simp: Service_List_def Let_def toTransport_def dest!: in_set_takeD l split: if_split_asm sum.split_asm option.split_asm)
qed

lemma content_reply:
  assumes "life_inv db" and "Service_PublishedContent S i db = Inr (u, t)"
  shows "\<exists>row. get_attachment i db = Some row \<and> at_Status row = StatusReady \<and> i \<in> referenced db \<and> se_presign_download S (at_ObjectKey row) = Some u"
proof -
  obtain row where f: "find (\<lambda>a. at_ID a = i \<and> at_Status a = StatusReady \<and> (\<exists>r \<in> set (a_references db). rf_AttachmentID r = i \<and> served r db)) (a_attachments db) = Some row"
    and u: "se_presign_download S (at_ObjectKey row) = Some u"
    using assms(2) by (auto simp: Service_PublishedContent_def GetPublished_def toDomain_def split: if_split_asm option.split_asm)
  then have "row \<in> set (a_attachments db)" "at_ID row = i" "at_Status row = StatusReady" "i \<in> referenced db"
    by (auto simp: find_Some_iff referenced_def intro: rev_image_eqI)
  then show ?thesis using tbl_get_in [OF life_invD(2) [OF assms(1)]] u by (auto simp: get_attachment_def)
qed

text \<open>C9: The attachments a reply shows belong to the user the token was issued to, a link to download one is only given while it is
  ready, and without a token a link is only given to an attachment that a publication shows.\<close>

theorem attachment_replies_authorised:
  assumes "areach (se_attachments S) (sv_db s)" and "serve_attachment S req s = (Inr rep, s')"
  shows "reply_ok S req (sv_db s) rep"
proof (cases req)
  case (AttRestore q)
  then obtain y owner i s1 where y: "rep = ReplyAttachment y" "token_owner S = Some owner" "Service_Get S owner i s1 = Inr y"
    using assms(2) by (auto simp: Attachment_RestoreAttachment_def on_read_def dest!: att_answer_Inr elim!: owned_call_Inr split: prod.split_asm sum.split_asm)
  then show ?thesis using read_replies(1) [OF y(3)] by (simp add: reply_ok_def)
next
  case (AttContent q)
  then show ?thesis using assms(2) content_reply [OF areach_life [OF assms(1)]]
    by (auto simp: Attachment_GetPublishedAttachmentContent_def unowned_call_def on_read_def reply_ok_def dest!: att_answer_Inr split: option.split_asm)
next
  case (AttList q)
  then show ?thesis using assms(2)
    by (auto simp: Attachment_ListAttachments_def on_read_def reply_ok_def list_all_iff dest!: att_answer_Inr elim!: owned_call_Inr dest: read_replies(2))
qed (use assms(2) in \<open>auto simp: Attachment_CreateAttachment_def Attachment_CompleteAttachment_def Attachment_GetAttachment_def on_read_def reply_ok_def
      dest!: att_answer_Inr create_reply read_replies(1) read_replies(3) elim!: owned_call_Inr\<close>)

section \<open>Scenario\<close>

text \<open>A token is the number of its user; the store opens the upload named after the key.\<close>

definition sample_claims :: "string \<Rightarrow> Claims" where
  "sample_claims v = \<lparr>cl_Role = ''user'', cl_SubjectType = [], cl_TokenVersion = 1, cl_SessionID = ''s'', cl_Issuer = IssuerName, cl_Subject = v,
     cl_Audience = [AudienceName], cl_ExpiresAt = Some 900, cl_NotBefore = Some 0, cl_IssuedAt = Some 0, cl_ID = ''t''\<rparr>"

definition sample_senv :: "string \<Rightarrow> string option \<Rightarrow> senv" where
  "sample_senv token i = \<lparr>se_attachments = sample_aenv,
     se_jwt = \<lparr>jw_numeric_date = (\<lambda>t. t), jw_sign = (\<lambda>_. Inl []), jw_parse = (\<lambda>_ v. Some (sample_claims v))\<rparr>,
     se_token = token, se_now = 100, se_newID = i, se_request_hash = (\<lambda>_ _ _. Some (replicate 64 CHR ''a'')), se_uploadTTL = 60, se_downloadTTL = 60,
     se_start = (\<lambda>key _. Some (''up-'' @ key)), se_abort = (\<lambda>_ _. True), se_complete = (\<lambda>_ _ _. True), se_presign_part = (\<lambda>key u n. Some (key @ show_int n)),
     se_presign_download = (\<lambda>key. Some (''https://'' @ key)), se_format = show_int, se_format_nano = show_int,
     se_cursor_out = (\<lambda>(_, t, k). Some (show_int t @ k)), se_cursor_in = (\<lambda>_. None)\<rparr>"

definition cat_request :: CreateAttachmentRequest where
  "cat_request = \<lparr>ca_Filename = ''cat.png'', ca_MediaType = ''image/png'', ca_SizeBytes = 10, ca_IdempotencyKey = ''k1''\<rparr>"

definition idle_service :: asvc where "idle_service = \<lparr>sv_db = empty_adb, sv_calls = []\<rparr>"

definition cat_opened :: asvc where
  "cat_opened = snd (serve_attachment (sample_senv ''7'' (Some ''att-1'')) (AttCreate (Some cat_request)) idle_service)"

text \<open>The same request once more, under another identifier.\<close>

definition cat_repeated :: asvc where
  "cat_repeated = snd (serve_attachment (sample_senv ''7'' (Some ''att-2'')) (AttCreate (Some cat_request)) cat_opened)"

lemma cat_repeated_run: "att_run sample_aenv cat_repeated"
proof -
  have e: "se_attachments (sample_senv t i) = sample_aenv" "se_newID (sample_senv t i) = i" for t i by (simp_all add: sample_senv_def)
  have "att_run sample_aenv cat_opened" unfolding cat_opened_def idle_service_def
    by (rule att_run.request [OF att_run.start e(1) _ prod.collapse [symmetric]]) (simp add: empty_adb_def get_attachment_def tbl_simps)
  moreover have "get_attachment ''att-2'' (sv_db cat_opened) = None" by code_simp
  ultimately show ?thesis unfolding cat_repeated_def
    by (intro att_run.request [OF _ e(1) _ prod.collapse [symmetric]]) (simp_all add: e)
qed

theorem uploads_accounted_witness:
  "StartMultipart ''objects/at/att-2'' ''image/png'' ''up-objects/at/att-2'' \<in> set (sv_calls cat_repeated)
   \<and> AbortMultipart ''objects/at/att-2'' ''up-objects/at/att-2'' \<in> set (sv_calls cat_repeated)"
proof -
  have c: "StartMultipart ''objects/at/att-2'' ''image/png'' ''up-objects/at/att-2'' \<in> set (sv_calls cat_repeated)" by code_simp
  have "\<not> list_ex (\<lambda>row. at_ObjectKey row = ''objects/at/att-2'') (a_attachments (sv_db cat_repeated))" by code_simp
  then show ?thesis using uploads_accounted [OF cat_repeated_run c] c by (auto simp: list_ex_iff)
qed

theorem attachment_requests_confined_witness:
  "\<exists>row. get_attachment ''att-1'' (sv_db cat_repeated) = Some row
     \<and> get_attachment ''att-1'' (sv_db (snd (serve_attachment (sample_senv ''8'' None) (AttTrash (Some ''att-1'')) cat_repeated))) = Some row"
proof -
  have "map_option at_OwnerID (get_attachment ''att-1'' (sv_db cat_repeated)) = Some 7" by code_simp
  then obtain row where row: "get_attachment ''att-1'' (sv_db cat_repeated) = Some row" "at_OwnerID row = 7" by auto
  have "token_owner (sample_senv ''8'' None) = Some 8" by code_simp
  moreover have "areach (se_attachments (sample_senv ''8'' None)) (sv_db cat_repeated)"
    using att_run_reach [OF cat_repeated_run] by (simp add: sample_senv_def)
  ultimately show ?thesis
    using attachment_requests_confined [OF _ prod.collapse [symmetric], of "sample_senv ''8'' None" cat_repeated "AttTrash (Some ''att-1'')"] row by simp
qed

theorem attachment_replies_authorised_witness:
  "\<exists>t. serve_attachment (sample_senv ''7'' None) (AttGet (Some ''att-1'')) cat_repeated = (Inr (ReplyAttachment t), cat_repeated)
     \<and> token_owner (sample_senv ''7'' None) = Some (tt_OwnerId t)"
proof -
  let ?r = "serve_attachment (sample_senv ''7'' None) (AttGet (Some ''att-1'')) cat_repeated"
  have "(case fst ?r of Inr (ReplyAttachment t) \<Rightarrow> True | _ \<Rightarrow> False)" by code_simp
  then obtain t where t: "fst ?r = Inr (ReplyAttachment t)" by (auto split: sum.split_asm att_reply.split_asm)
  moreover have "snd ?r = cat_repeated"
    by (simp add: att_answer_snd Attachment_GetAttachment_def owned_call_def on_read_def split: sum.split)
  ultimately have r: "?r = (Inr (ReplyAttachment t), cat_repeated)" by (metis prod.collapse)
  have "areach (se_attachments (sample_senv ''7'' None)) (sv_db cat_repeated)"
    using att_run_reach [OF cat_repeated_run] by (simp add: sample_senv_def)
  from attachment_replies_authorised [OF this r] r show ?thesis by (simp add: reply_ok_def)
qed

end
