(* ===== verification/GatewayLimit.thy ===== *)
theory GatewayLimit
  imports AuthToken
begin

text \<open>
  Rate limits of the gateway: \<open>services/gateway/internal/ratelimit/redis.go\<close> with its Redis script, and the address a request
  counts for, \<open>ClientIP\<close> of \<open>middleware/http.go\<close>. Parsing and printing of addresses (\<open>net.ParseIP\<close>, \<open>SplitHostPort\<close>) and the
  trusted networks are parameters.
\<close>

section \<open>Redis\<close>

text \<open>A key holds a counter and the last millisecond of its life; keys whose life is over are gone.\<close>

type_synonym redis = "string \<Rightarrow> (int \<times> int) option"

definition redis_at :: "int \<Rightarrow> redis \<Rightarrow> redis" where
  "redis_at clock R = (\<lambda>key. case R key of None \<Rightarrow> None | Some (n, until) \<Rightarrow> if until < clock then None else Some (n, until))"

text \<open>The script: increment, and set the expiry when the counter has just been made.\<close>

definition incrementScript :: "int \<Rightarrow> string \<Rightarrow> int \<Rightarrow> redis \<Rightarrow> int \<times> redis" where
  "incrementScript clock key expiryMillis R0 = (let R = redis_at clock R0 in
     case R key of None \<Rightarrow> (1, R(key \<mapsto> (1, clock + expiryMillis)))
     | Some (n, until) \<Rightarrow> (n + 1, R(key \<mapsto> (n + 1, if n + 1 = 1 then clock + expiryMillis else until))))"

section \<open>The limiter\<close>

definition unix_epoch :: time where "unix_epoch = 62135596800 * second"

definition UnixMilli :: "time \<Rightarrow> int" where
  "UnixMilli t = (t - unix_epoch) div millisecond"

text \<open>Integer division of Go truncates.\<close>

definition go_div :: "int \<Rightarrow> int \<Rightarrow> int" where
  "go_div a b = (if 0 \<le> a then a div b else - ((- a) div b))"

text \<open>An address is the text \<open>IP.String\<close> prints for it; \<open>ad_trusted\<close> says whether one of the trusted networks contains it.\<close>

record address_env =
  ad_parse :: "string \<Rightarrow> string option"
  ad_split :: "string \<Rightarrow> string option"
  ad_trusted :: "string \<Rightarrow> bool"

definition trim_brackets :: "string \<Rightarrow> string" where
  "trim_brackets s = (let cut = (\<lambda>c. c = CHR ''['' \<or> c = CHR '']'') in rev (dropWhile cut (rev (dropWhile cut s))))"

definition normalizeIP :: "address_env \<Rightarrow> string \<Rightarrow> string" where
  "normalizeIP N raw0 =
     (let raw = trim_space raw0; host = (case ad_split N raw of None \<Rightarrow> raw | Some h \<Rightarrow> h) in
      case ad_parse N (trim_brackets host) of None \<Rightarrow> ''unknown'' | Some ip \<Rightarrow> ip)"

definition normalizeSubject :: "address_env \<Rightarrow> string \<Rightarrow> string option" where
  "normalizeSubject N raw0 =
     (let raw = trim_space raw0 in
      if take 5 raw = ''user:'' then
        (let v = drop 5 raw in case parse_int64 v of None \<Rightarrow> None | Some i \<Rightarrow> if i \<le> 0 \<or> show_int i \<noteq> v then None else Some (''user:'' @ v))
      else Some (normalizeIP N raw))"

definition windowMillis :: "duration \<Rightarrow> int" where
  "windowMillis window = go_div window millisecond"

definition bucket_of :: "duration \<Rightarrow> time \<Rightarrow> int" where
  "bucket_of window now = go_div (UnixMilli now) (windowMillis window)"

definition retry_after :: "duration \<Rightarrow> time \<Rightarrow> duration" where
  "retry_after window now = unix_epoch + (bucket_of window now + 1) * windowMillis window * millisecond - now"

definition limit_key :: "string \<Rightarrow> string \<Rightarrow> int \<Rightarrow> string \<Rightarrow> string" where
  "limit_key keyPrefix scope bucket subject = keyPrefix @ '':'' @ scope @ '':'' @ show_int bucket @ '':'' @ subject"

text \<open>\<open>clock\<close> is the clock of Redis in milliseconds and \<open>reachable\<close> says whether the script could be run.\<close>

definition Consume :: "address_env \<Rightarrow> string \<Rightarrow> bool \<Rightarrow> int \<Rightarrow> string \<Rightarrow> string \<Rightarrow> time \<Rightarrow> duration \<Rightarrow> int \<Rightarrow> redis \<Rightarrow> (string + bool \<times> duration) \<times> redis" where
  "Consume N keyPrefix reachable clock scope0 subject now window limit R =
     (if window < millisecond \<or> limit \<le> 0 then (Inl ''limiter arguments are invalid'', R)
      else let scope = trim_space scope0 in
        if scope = [] then (Inl ''scope is required'', R)
        else case normalizeSubject N subject of None \<Rightarrow> (Inl ''subject'', R)
        | Some normalized \<Rightarrow>
            if \<not> reachable then (Inl ''redis'', R)
            else let retryAfter = retry_after window now; expiry = go_div retryAfter millisecond;
                     (count, R') = incrementScript clock (limit_key keyPrefix scope (bucket_of window now) normalized) (if expiry < 1 then 1 else expiry) R in
              (Inr (count \<le> limit, retryAfter), R'))"

section \<open>Keys\<close>

lemma no_sep_inject:
  assumes "c \<notin> set xs" and "c \<notin> set ys" and "xs @ c # us = ys @ c # vs"
  shows "xs = ys \<and> us = vs"
  using assms
proof (induction xs arbitrary: ys)
  case Nil
  then show ?case by (cases ys) auto
next
  case (Cons x xs)
  then show ?case by (cases ys) auto
qed

lemma show_int_no_colon: "0 \<le> b \<Longrightarrow> CHR '':'' \<notin> set (show_int b)"
  using show_nat_digits [of "nat b"] by (auto simp: show_int_def list_all_iff digit_char_def)

lemma show_int_inject: "0 \<le> a \<Longrightarrow> 0 \<le> b \<Longrightarrow> show_int a = show_int b \<Longrightarrow> a = b"
proof -
  assume "0 \<le> a" "0 \<le> b" "show_int a = show_int b"
  then have "digits_value 0 (show_nat (nat a)) = digits_value 0 (show_nat (nat b))" by (simp add: show_int_def)
  then have "int (nat a) = int (nat b)" using show_nat_digits [of "nat a"] show_nat_digits [of "nat b"] by argo
  then show "a = b" using \<open>0 \<le> a\<close> \<open>0 \<le> b\<close> by simp
qed

lemma limit_key_inject:
  assumes "limit_key p s b u = limit_key p s' b' u'" and "CHR '':'' \<notin> set s" and "CHR '':'' \<notin> set s'" and "0 \<le> b" and "0 \<le> b'"
  shows "s = s' \<and> b = b' \<and> u = u'"
proof -
  have "s @ CHR '':'' # (show_int b @ CHR '':'' # u) = s' @ CHR '':'' # (show_int b' @ CHR '':'' # u')"
    using assms(1) by (simp add: limit_key_def)
  from no_sep_inject [OF assms(2,3) this] have s: "s = s'" and r: "show_int b @ CHR '':'' # u = show_int b' @ CHR '':'' # u'" by simp_all
  from no_sep_inject [OF show_int_no_colon [OF assms(4)] show_int_no_colon [OF assms(5)] r] show ?thesis
    using s show_int_inject [OF assms(4,5)] by simp
qed

section \<open>Counting\<close>

text \<open>One call of a sequence: scope, subject and time, with the window and limit of the configuration.\<close>

type_synonym limit_call = "string \<times> string \<times> time"

definition bucket_id :: "address_env \<Rightarrow> duration \<Rightarrow> limit_call \<Rightarrow> string \<times> int \<times> string" where
  "bucket_id N window c = (case c of (scope, subject, now) \<Rightarrow> (trim_space scope, bucket_of window now, the (normalizeSubject N subject)))"

definition well_formed_call :: "address_env \<Rightarrow> limit_call \<Rightarrow> bool" where
  "well_formed_call N c \<longleftrightarrow> (case c of (scope, subject, now) \<Rightarrow>
     trim_space scope \<noteq> [] \<and> CHR '':'' \<notin> set (trim_space scope) \<and> normalizeSubject N subject \<noteq> None \<and> unix_epoch \<le> now)"

definition seen :: "address_env \<Rightarrow> duration \<Rightarrow> limit_call list \<Rightarrow> string \<times> int \<times> string \<Rightarrow> int" where
  "seen N window cs x = int (length (filter (\<lambda>c. bucket_id N window c = x) cs))"

definition run_call :: "address_env \<Rightarrow> string \<Rightarrow> duration \<Rightarrow> int \<Rightarrow> limit_call \<Rightarrow> redis \<Rightarrow> (string + bool \<times> duration) \<times> redis" where
  "run_call N keyPrefix window limit c R = (case c of (scope, subject, now) \<Rightarrow>
     Consume N keyPrefix True (UnixMilli now) scope subject now window limit R)"

fun run_calls :: "address_env \<Rightarrow> string \<Rightarrow> duration \<Rightarrow> int \<Rightarrow> limit_call list \<Rightarrow> redis \<Rightarrow> (string + bool \<times> duration) list \<times> redis" where
  "run_calls N keyPrefix window limit [] R = ([], R)"
| "run_calls N keyPrefix window limit (c # cs) R =
     (let (r, R') = run_call N keyPrefix window limit c R; (rs, R'') = run_calls N keyPrefix window limit cs R' in (r # rs, R''))"

lemma bucket_bounds:
  assumes "unix_epoch \<le> now" and "millisecond \<le> window"
  shows "0 \<le> bucket_of window now" "UnixMilli now < (bucket_of window now + 1) * windowMillis window"
    "(bucket_of window now + 1) * windowMillis window - 1 \<le> UnixMilli now + (let e = go_div (retry_after window now) millisecond in if e < 1 then 1 else e)"
proof -
  define w c e where "w = windowMillis window" and "c = UnixMilli now" and "e = (bucket_of window now + 1) * w"
  have ms: "0 < millisecond" by (simp add: millisecond_def)
  have "1 \<le> w" unfolding w_def windowMillis_def go_div_def using assms(2) ms by (simp add: pos_imp_zdiv_pos_iff order_trans less_imp_le int_one_le_iff_zero_less)
  have c0: "0 \<le> c" unfolding c_def UnixMilli_def using assms(1) ms by (simp add: pos_imp_zdiv_nonneg_iff)
  have b: "bucket_of window now = c div w" by (simp add: bucket_of_def c_def [symmetric] w_def [symmetric] go_div_def c0)
  show "0 \<le> bucket_of window now" unfolding b using c0 \<open>1 \<le> w\<close> by (simp add: pos_imp_zdiv_nonneg_iff)
  have "c mod w < w" using \<open>1 \<le> w\<close> by simp
  then have ce: "c < e" unfolding e_def b distrib_right using div_mult_mod_eq [of c w] by linarith
  then show "UnixMilli now < (bucket_of window now + 1) * windowMillis window" by (simp add: c_def e_def w_def)
  have d: "now - unix_epoch < (c + 1) * millisecond"
    using div_mult_mod_eq [of "now - unix_epoch" millisecond] pos_mod_bound [OF ms, of "now - unix_epoch"] unfolding c_def UnixMilli_def distrib_right by linarith
  have r: "retry_after window now = e * millisecond - (now - unix_epoch)" by (simp add: retry_after_def e_def w_def)
  have "(e - c - 1) * millisecond < retry_after window now" using d unfolding r by (simp add: algebra_simps)
  then have "e - c - 1 \<le> retry_after window now div millisecond" using ms zdiv_mono1 [of "(e - c - 1) * millisecond" "retry_after window now" millisecond] by simp
  moreover have "0 \<le> retry_after window now"
    using \<open>(e - c - 1) * millisecond < retry_after window now\<close> ce ms mult_nonneg_nonneg [of "e - c - 1" millisecond] by linarith
  ultimately show "(bucket_of window now + 1) * windowMillis window - 1 \<le> UnixMilli now + (let e = go_div (retry_after window now) millisecond in if e < 1 then 1 else e)"
    unfolding c_def [symmetric] w_def [symmetric] e_def [symmetric] by (simp add: Let_def go_div_def)
qed

section \<open>Counters are exact\<close>

text \<open>
  After the calls \<open>done\<close>, none later than the millisecond \<open>m\<close>, every bucket that is not over has its counter and the counter
  outlives the bucket.
\<close>

definition counted :: "address_env \<Rightarrow> string \<Rightarrow> duration \<Rightarrow> limit_call list \<Rightarrow> int \<Rightarrow> redis \<Rightarrow> bool" where
  "counted N keyPrefix window done m R \<longleftrightarrow> (\<forall>s b u. CHR '':'' \<notin> set s \<and> 0 \<le> b \<and> m < (b + 1) * windowMillis window \<longrightarrow>
     (case R (limit_key keyPrefix s b u) of None \<Rightarrow> seen N window done (s, b, u) = 0
      | Some (n, until) \<Rightarrow> n = seen N window done (s, b, u) \<and> 1 \<le> n \<and> (b + 1) * windowMillis window - 1 \<le> until))"

lemma counted_start: "counted N keyPrefix window [] m (\<lambda>_. None)"
  by (simp add: counted_def seen_def)

lemma seen_snoc: "seen N window (cs @ [c]) x = seen N window cs x + (if bucket_id N window c = x then 1 else 0)"
  by (simp add: seen_def)

lemma call_counts:
  assumes inv: "counted N keyPrefix window done m R" and "m \<le> UnixMilli now" and ok: "well_formed_call N (scope, subject, now)"
    and w: "millisecond \<le> window" and l: "0 < limit"
  obtains R' where "run_call N keyPrefix window limit (scope, subject, now) R
      = (Inr (seen N window (done @ [(scope, subject, now)]) (bucket_id N window (scope, subject, now)) \<le> limit, retry_after window now), R')"
    and "counted N keyPrefix window (done @ [(scope, subject, now)]) (UnixMilli now) R'"
proof -
  let ?c = "UnixMilli now" and ?s = "trim_space scope" and ?b = "bucket_of window now" and ?w = "windowMillis window"
  obtain u where u: "normalizeSubject N subject = Some u" and s: "?s \<noteq> []" "CHR '':'' \<notin> set ?s" and e: "unix_epoch \<le> now"
    using ok by (auto simp: well_formed_call_def)
  note bb = bucket_bounds [OF e w]
  have id: "bucket_id N window (scope, subject, now) = (?s, ?b, u)" by (simp add: bucket_id_def u)
  let ?k = "limit_key keyPrefix ?s ?b u"
  define x where "x = (let e = go_div (retry_after window now) millisecond in if e < 1 then 1 else e)"
  define R1 where "R1 = redis_at ?c R"
  have alive: "case R1 (limit_key keyPrefix s b v) of None \<Rightarrow> seen N window done (s, b, v) = 0
      | Some (n, until) \<Rightarrow> n = seen N window done (s, b, v) \<and> 1 \<le> n \<and> (b + 1) * ?w - 1 \<le> until"
    if "CHR '':'' \<notin> set s" "0 \<le> b" "?c < (b + 1) * ?w" for s b v
  proof -
    have "m < (b + 1) * ?w" using that(3) assms(2) by simp
    then show ?thesis using inv that unfolding counted_def R1_def redis_at_def by (force split: option.split_asm option.split)
  qed
  obtain n until where inc: "incrementScript ?c ?k x R = (n, R1(?k \<mapsto> (n, until)))" and n: "n = seen N window done (?s, ?b, u) + 1"
      and t: "(?b + 1) * ?w - 1 \<le> until"
  proof (cases "R1 ?k")
    case None
    then show thesis using alive [OF s(2) bb(1,2), of u] bb(3) that [of 1 "?c + x"]
      by (simp add: incrementScript_def Let_def R1_def [symmetric] x_def)
  next
    case (Some y)
    obtain n0 t0 where y: "y = (n0, t0)" by (cases y)
    then show thesis using alive [OF s(2) bb(1,2), of u] Some that [of "n0 + 1" t0]
      by (simp add: incrementScript_def Let_def R1_def [symmetric])
  qed
  let ?R = "R1(?k \<mapsto> (n, until))"
  have pos: "0 \<le> seen N window done y" for y by (simp add: seen_def)
  have "counted N keyPrefix window (done @ [(scope, subject, now)]) ?c ?R"
    unfolding counted_def
  proof (intro allI impI, elim conjE)
    fix s' b' u' assume c: "CHR '':'' \<notin> set s'" "0 \<le> b'" "?c < (b' + 1) * ?w"
    show "case ?R (limit_key keyPrefix s' b' u') of None \<Rightarrow> seen N window (done @ [(scope, subject, now)]) (s', b', u') = 0
      | Some (n, until) \<Rightarrow> n = seen N window (done @ [(scope, subject, now)]) (s', b', u') \<and> 1 \<le> n \<and> (b' + 1) * ?w - 1 \<le> until"
    proof (cases "limit_key keyPrefix s' b' u' = ?k")
      case True
      then have "s' = ?s \<and> b' = ?b \<and> u' = u" using limit_key_inject [OF True c(1) s(2) c(2) bb(1)] by simp
      then show ?thesis using n t pos [of "(?s, ?b, u)"] by (simp add: seen_snoc id)
    next
      case False
      then have "bucket_id N window (scope, subject, now) \<noteq> (s', b', u')" using id by auto
      then show ?thesis using alive [OF c, of u'] False by (auto simp: seen_snoc split: option.splits)
    qed
  qed
  moreover have "run_call N keyPrefix window limit (scope, subject, now) R = (Inr (n \<le> limit, retry_after window now), ?R)"
    using w l s u inc unfolding run_call_def Consume_def x_def by (simp add: Let_def)
  ultimately show thesis using that [of ?R] n by (simp add: seen_snoc id)
qed

text \<open>C24: The limiter counts exactly: in any sequence of calls with a clock that does not run backwards, a call is admitted if and only
  if it is one of the first \<open>limit\<close> calls for its scope, its subject and its window, whatever other subjects do in between.\<close>

theorem rate_limit_exact:
  assumes "millisecond \<le> window" and "0 < limit" and "list_all (well_formed_call N) calls" and "sorted (map (\<lambda>(_, _, now). now) calls)" and "j < length calls"
  shows "fst (run_calls N keyPrefix window limit calls (\<lambda>_. None)) ! j
    = Inr (int (length (filter (\<lambda>c. bucket_id N window c = bucket_id N window (calls ! j)) (take (Suc j) calls))) \<le> limit,
           retry_after window (snd (snd (calls ! j))))"
proof -
  have mono: "UnixMilli a \<le> UnixMilli b" if "a \<le> b" for a b using that by (simp add: UnixMilli_def zdiv_mono1 millisecond_def)
  have "fst (run_calls N keyPrefix window limit cs R) ! i
      = Inr (seen N window (before @ take (Suc i) cs) (bucket_id N window (cs ! i)) \<le> limit, retry_after window (snd (snd (cs ! i))))"
    if "counted N keyPrefix window before m R" "\<forall>c \<in> set cs. m \<le> UnixMilli (snd (snd c))" "list_all (well_formed_call N) cs"
      "sorted (map (\<lambda>(_, _, now). now) cs)" "i < length cs" for cs before m R i
    using that
  proof (induction cs arbitrary: before m R i)
    case (Cons c cs)
    obtain scope subject now where c: "c = (scope, subject, now)" by (cases c) auto
    have "m \<le> UnixMilli now" "well_formed_call N (scope, subject, now)" using Cons.prems(2,3) c by auto
    from call_counts [OF Cons.prems(1) this assms(1,2)] obtain R' where
      r: "run_call N keyPrefix window limit c R = (Inr (seen N window (before @ [c]) (bucket_id N window c) \<le> limit, retry_after window now), R')"
      and inv: "counted N keyPrefix window (before @ [c]) (UnixMilli now) R'" unfolding c by blast
    show ?case
    proof (cases i)
      case 0
      then show ?thesis using r by (simp add: c split: prod.split)
    next
      case (Suc k)
      have "\<forall>d \<in> set cs. UnixMilli now \<le> UnixMilli (snd (snd d))" using Cons.prems(4) mono c by (auto simp: split_beta)
      from Cons.IH [OF inv this, of k] Cons.prems(3,4,5) Suc show ?thesis using r
        by (cases "run_calls N keyPrefix window limit cs R'") simp
    qed
  qed simp
  from this [OF counted_start [of N keyPrefix window "if calls = [] then 0 else UnixMilli (snd (snd (hd calls)))"], of calls j] assms show ?thesis
    using mono by (cases calls) (auto simp: seen_def split_beta)
qed

definition sample_addresses :: address_env where
  "sample_addresses = \<lparr>ad_parse = (\<lambda>s. if s \<noteq> [] \<and> list_all (\<lambda>c. digit_char c \<or> c = CHR ''.'') s then Some s else None), ad_split = (\<lambda>_. None),
     ad_trusted = (\<lambda>s. take 3 s = ''10.'')\<rparr>"

definition sample_calls :: "limit_call list" where
  "sample_calls = [(''auth'', ''1.2.3.4'', unix_epoch + 5), (''auth'', ''5.6.7.8'', unix_epoch + 6), (''auth'', ''1.2.3.4'', unix_epoch + 7),
     (''auth'', ''1.2.3.4'', unix_epoch + 2 * second)]"

theorem rate_limit_exact_witness:
  "map (\<lambda>j. map_sum (\<lambda>e. e) fst (fst (run_calls sample_addresses ''gateway'' second 1 sample_calls (\<lambda>_. None)) ! j)) [0, 1, 2, 3]
     = [Inr True, Inr True, Inr False, Inr True]"
proof -
  have ok: "millisecond \<le> second" "(0::int) < 1" by (simp_all add: duration_defs)
  have wf: "list_all (well_formed_call sample_addresses) sample_calls" by code_simp
  have so: "sorted (map (\<lambda>(_, _, now). now) sample_calls)" by code_simp
  note exact = rate_limit_exact [OF ok wf so, of _ "''gateway''"]
  have len: "length sample_calls = 4" by (simp add: sample_calls_def)
  have n: "map (\<lambda>j. length (filter (\<lambda>c. bucket_id sample_addresses second c = bucket_id sample_addresses second (sample_calls ! j)) (take (Suc j) sample_calls)))
      [0, 1, 2, 3] = [1, 1, 2, 1]" by code_simp
  show ?thesis using n by (simp add: exact len)
qed

section \<open>Client addresses\<close>

definition addressIP :: "address_env \<Rightarrow> string \<Rightarrow> string option" where
  "addressIP N address = ad_parse N (trim_brackets (case ad_split N address of None \<Rightarrow> address | Some host \<Rightarrow> host))"

text \<open>The entries of the header from the last to the first; \<open>Inl\<close> carries the last address seen when all are trusted.\<close>

fun forwarded_client :: "address_env \<Rightarrow> string option \<Rightarrow> string list \<Rightarrow> string option + string" where
  "forwarded_client N leftmost [] = Inl leftmost"
| "forwarded_client N leftmost (entry # entries) = (case ad_parse N (trim_space entry) of
     None \<Rightarrow> forwarded_client N leftmost entries
   | Some candidate \<Rightarrow> if ad_trusted N candidate then forwarded_client N (Some candidate) entries else Inr candidate)"

definition header_entries :: "string \<Rightarrow> string list" where
  "header_entries h = split_with (\<lambda>c. c = CHR '','') h"

definition ClientIP :: "address_env \<Rightarrow> string option \<Rightarrow> string \<Rightarrow> string \<Rightarrow> string" where
  "ClientIP N remote forwardedFor realIP = (case remote of None \<Rightarrow> ''unknown''
     | Some address \<Rightarrow> (case addressIP N address of None \<Rightarrow> ''unknown''
       | Some peer \<Rightarrow>
           if \<not> ad_trusted N peer then peer
           else case forwarded_client N None (rev (header_entries forwardedFor)) of
             Inr candidate \<Rightarrow> candidate
           | Inl (Some leftmost) \<Rightarrow> leftmost
           | Inl None \<Rightarrow> (case ad_parse N (trim_space realIP) of Some ip \<Rightarrow> ip | None \<Rightarrow> peer)))"

lemma forwarded_client_append:
  assumes "\<exists>e \<in> set xs. \<exists>ip. ad_parse N (trim_space e) = Some ip \<and> \<not> ad_trusted N ip"
  shows "\<exists>ip. forwarded_client N l (xs @ ys) = Inr ip \<and> forwarded_client N l' xs = Inr ip \<and> \<not> ad_trusted N ip"
  using assms
proof (induction xs arbitrary: l l')
  case (Cons a xs)
  show ?case
  proof (cases "\<exists>ip. ad_parse N (trim_space a) = Some ip \<and> \<not> ad_trusted N ip")
    case False
    then have "\<exists>e \<in> set xs. \<exists>ip. ad_parse N (trim_space e) = Some ip \<and> \<not> ad_trusted N ip" using Cons.prems by auto
    from Cons.IH [OF this] False show ?thesis by (auto split: option.split)
  qed auto
qed simp

lemma header_entries_append: "header_entries (a @ '','' @ b) = header_entries a @ header_entries b"
  unfolding header_entries_def by (induction a) (auto split: list.split)



end
