(* ===== verification/AppError.thy ===== *)
theory AppError
  imports GoStrings
begin

text \<open>
  Application errors and how they cross the services: \<open>pkg/error/error.go\<close>, \<open>kitex.go\<close> and \<open>hertz.go\<close>, and the gateway's
  answer to a failed call (\<open>services/gateway/internal/middleware/response.go\<close>). The request and trace identifiers of the
  context and \<open>http.StatusText\<close> are arguments.
\<close>

section \<open>Definitions\<close>

abbreviation KindInvalidArgument :: string where "KindInvalidArgument \<equiv> ''invalid_argument''"
abbreviation KindUnauthenticated :: string where "KindUnauthenticated \<equiv> ''unauthenticated''"
abbreviation KindPermissionDenied :: string where "KindPermissionDenied \<equiv> ''permission_denied''"
abbreviation KindNotFound :: string where "KindNotFound \<equiv> ''not_found''"
abbreviation KindConflict :: string where "KindConflict \<equiv> ''conflict''"
abbreviation KindRateLimited :: string where "KindRateLimited \<equiv> ''rate_limited''"
abbreviation KindDeadlineExceeded :: string where "KindDeadlineExceeded \<equiv> ''deadline_exceeded''"
abbreviation KindUnavailable :: string where "KindUnavailable \<equiv> ''unavailable''"
abbreviation KindUnimplemented :: string where "KindUnimplemented \<equiv> ''unimplemented''"
abbreviation KindInternal :: string where "KindInternal \<equiv> ''internal''"

abbreviation ExtraErrorKey :: string where "ExtraErrorKey \<equiv> ''error_key''"
abbreviation ExtraErrorKind :: string where "ExtraErrorKind \<equiv> ''error_kind''"
abbreviation ExtraRequestID :: string where "ExtraRequestID \<equiv> ''request_id''"
abbreviation ExtraTraceID :: string where "ExtraTraceID \<equiv> ''trace_id''"
abbreviation ExtraRetryAfter :: string where "ExtraRetryAfter \<equiv> ''retry_after''"

definition validKind :: "string \<Rightarrow> bool" where
  "validKind k \<longleftrightarrow> k \<in> set [KindInvalidArgument, KindUnauthenticated, KindPermissionDenied, KindNotFound, KindConflict, KindRateLimited,
     KindDeadlineExceeded, KindUnavailable, KindUnimplemented, KindInternal]"

text \<open>The pattern of keys: lower-case words with digits, joined by single dots, underscores or hyphens, the first a letter.\<close>

datatype key_state = KeyStart | KeyWord | KeyJoint | KeyDead

definition lower_char :: "char \<Rightarrow> bool" where "lower_char c \<longleftrightarrow> 97 \<le> byte c \<and> byte c \<le> 122"

definition word_char :: "char \<Rightarrow> bool" where "word_char c \<longleftrightarrow> lower_char c \<or> 48 \<le> byte c \<and> byte c \<le> 57"

fun key_step :: "key_state \<Rightarrow> char \<Rightarrow> key_state" where
  "key_step KeyStart c = (if lower_char c then KeyWord else KeyDead)"
| "key_step KeyWord c = (if word_char c then KeyWord else if c = CHR ''.'' \<or> c = CHR ''_'' \<or> c = CHR ''-'' then KeyJoint else KeyDead)"
| "key_step KeyJoint c = (if word_char c then KeyWord else KeyDead)"
| "key_step KeyDead c = KeyDead"

definition keyPattern :: "string \<Rightarrow> bool" where
  "keyPattern s \<longleftrightarrow> foldl key_step KeyStart s = KeyWord"

record Definition =
  df_Code :: int
  df_Key :: string
  df_Kind :: string
  df_Message :: string

definition maxSafeMsgBytes :: nat where "maxSafeMsgBytes = 256"

definition one_line :: "string \<Rightarrow> bool" where
  "one_line s \<longleftrightarrow> list_all (\<lambda>c. c \<noteq> CHR 0x0D \<and> c \<noteq> CHR 0x0A) s"

definition Define :: "int \<Rightarrow> string \<Rightarrow> string \<Rightarrow> string \<Rightarrow> string + Definition" where
  "Define code key0 kind message0 =
     (let key = trim_space key0; safeMessage = trim_space message0 in
      if code \<le> 0 then Inl ''code must be positive''
      else if \<not> keyPattern key then Inl ''invalid key''
      else if \<not> validKind kind then Inl ''invalid kind''
      else if safeMessage = [] then Inl ''safe message is required''
      else if maxSafeMsgBytes < length safeMessage \<or> \<not> one_line safeMessage then Inl ''safe message must be one line''
      else Inr \<lparr>df_Code = code, df_Key = key, df_Kind = kind, df_Message = safeMessage\<rparr>)"

definition definition_valid :: "Definition \<Rightarrow> bool" where
  "definition_valid d \<longleftrightarrow> 0 < df_Code d \<and> keyPattern (df_Key d) \<and> validKind (df_Kind d) \<and> df_Message d \<noteq> []
     \<and> length (df_Message d) \<le> maxSafeMsgBytes \<and> one_line (df_Message d)"

definition sameDefinition :: "Definition \<Rightarrow> Definition \<Rightarrow> bool" where
  "sameDefinition l r \<longleftrightarrow> 0 < df_Code l \<and> df_Code l = df_Code r \<and> df_Key l \<noteq> [] \<and> df_Key l = df_Key r"

definition Internal_Definition :: Definition where
  "Internal_Definition = \<lparr>df_Code = 20999, df_Key = ''common.internal'', df_Kind = KindInternal, df_Message = ''internal server error''\<rparr>"

section \<open>Errors\<close>

record BizStatus =
  bz_Code :: int
  bz_Message :: string
  bz_Extra :: "string \<Rightarrow> string option"

text \<open>
  The errors that meet in a chain: another package's error with what it wraps, a definition used as an error, an application
  error with its cause and extras, a joined error, and business statuses, the sender's with its cause and the receiver's.
\<close>

datatype goerr =
    Foreign string "goerr option" | Catalog Definition | App Definition "goerr option" "string \<Rightarrow> string option"
  | Joined "goerr list" | SentStatus BizStatus goerr | ReceivedStatus BizStatus

definition New :: "Definition \<Rightarrow> goerr" where
  "New d = App d None (\<lambda>_. None)"

definition Wrap :: "Definition \<Rightarrow> goerr option \<Rightarrow> goerr" where
  "Wrap d cause = App d cause (\<lambda>_. None)"

definition copySafeExtra :: "(string \<Rightarrow> string option) \<Rightarrow> string \<Rightarrow> string option" where
  "copySafeExtra src = (\<lambda>k. if k \<noteq> ExtraRetryAfter then None
     else case src ExtraRetryAfter of None \<Rightarrow> None | Some v \<Rightarrow> if trim_space v = [] then None else Some (trim_space v))"

definition NewWithExtra :: "Definition \<Rightarrow> (string \<Rightarrow> string option) \<Rightarrow> goerr" where
  "NewWithExtra d extra = App d None (copySafeExtra extra)"

text \<open>\<open>errors.As\<close> walks the chain in preorder: to a definition, to an application error, to a business status.\<close>

fun first_some :: "('a \<Rightarrow> 'b option) \<Rightarrow> 'a list \<Rightarrow> 'b option" where
  "first_some f [] = None"
| "first_some f (x # xs) = (case f x of None \<Rightarrow> first_some f xs | Some y \<Rightarrow> Some y)"

lemma first_some_cong [fundef_cong]: "xs = ys \<Longrightarrow> (\<And>x. x \<in> set ys \<Longrightarrow> f x = g x) \<Longrightarrow> first_some f xs = first_some g ys"
  by (induction ys arbitrary: xs) (auto split: option.split)

fun as_definition :: "goerr \<Rightarrow> Definition option" where
  "as_definition (Foreign m None) = None"
| "as_definition (Foreign m (Some e)) = as_definition e"
| "as_definition (Catalog d) = Some d"
| "as_definition (App d c x) = Some d"
| "as_definition (Joined es) = first_some as_definition es"
| "as_definition (SentStatus b e) = as_definition e"
| "as_definition (ReceivedStatus b) = None"

fun as_app :: "goerr \<Rightarrow> (Definition \<times> goerr option \<times> (string \<Rightarrow> string option)) option" where
  "as_app (Foreign m None) = None"
| "as_app (Foreign m (Some e)) = as_app e"
| "as_app (Catalog d) = None"
| "as_app (App d c x) = Some (d, c, x)"
| "as_app (Joined es) = first_some as_app es"
| "as_app (SentStatus b e) = as_app e"
| "as_app (ReceivedStatus b) = None"

fun as_status :: "goerr \<Rightarrow> BizStatus option" where
  "as_status (Foreign m None) = None"
| "as_status (Foreign m (Some e)) = as_status e"
| "as_status (Catalog d) = None"
| "as_status (App d None x) = None"
| "as_status (App d (Some c) x) = as_status c"
| "as_status (Joined es) = first_some as_status es"
| "as_status (SentStatus b e) = Some b"
| "as_status (ReceivedStatus b) = Some b"

definition Details :: "goerr \<Rightarrow> Definition option" where
  "Details e = (case as_definition e of None \<Rightarrow> None | Some d \<Rightarrow> if definition_valid d then Some d else None)"

definition Extra :: "goerr \<Rightarrow> string \<Rightarrow> string" where
  "Extra e k = (case as_app e of None \<Rightarrow> [] | Some (_, _, x) \<Rightarrow> case x k of None \<Rightarrow> [] | Some v \<Rightarrow> v)"

definition Cause :: "goerr \<Rightarrow> goerr option" where
  "Cause e = (case as_app e of None \<Rightarrow> None | Some (_, c, _) \<Rightarrow> c)"

section \<open>Business statuses\<close>

text \<open>The identifiers a context carries.\<close>

record ctx_ids =
  cx_RequestID :: string
  cx_TraceID :: string

definition known_definition :: "goerr \<Rightarrow> Definition" where
  "known_definition e = (case Details e of None \<Rightarrow> Internal_Definition | Some d \<Rightarrow> d)"

definition status_extra :: "ctx_ids \<Rightarrow> goerr \<Rightarrow> string \<Rightarrow> string option" where
  "status_extra X e =
     (let d = known_definition e;
          base = [ExtraErrorKey \<mapsto> df_Key d, ExtraErrorKind \<mapsto> df_Kind d];
          withRequest = (if cx_RequestID X \<noteq> [] then base(ExtraRequestID \<mapsto> cx_RequestID X) else base);
          withTrace = (if cx_TraceID X \<noteq> [] then withRequest(ExtraTraceID \<mapsto> cx_TraceID X) else withRequest) in
      case as_app e of None \<Rightarrow> withTrace | Some (_, _, x) \<Rightarrow> withTrace ++ x)"

definition ToBizStatus :: "ctx_ids \<Rightarrow> goerr \<Rightarrow> goerr" where
  "ToBizStatus X e = SentStatus \<lparr>bz_Code = df_Code (known_definition e), bz_Message = df_Message (known_definition e), bz_Extra = status_extra X e\<rparr> e"

definition extra_value :: "(string \<Rightarrow> string option) \<Rightarrow> string \<Rightarrow> string" where
  "extra_value x k = (case x k of None \<Rightarrow> [] | Some v \<Rightarrow> v)"

definition FromKitexBizStatus :: "goerr \<Rightarrow> Definition option" where
  "FromKitexBizStatus e = (case as_status e of None \<Rightarrow> None
     | Some b \<Rightarrow> (case Define (bz_Code b) (extra_value (bz_Extra b) ExtraErrorKey) (extra_value (bz_Extra b) ExtraErrorKind) (bz_Message b) of
         Inl _ \<Rightarrow> None | Inr d \<Rightarrow> Some d))"

section \<open>HTTP problems\<close>

definition httpStatus :: "string \<Rightarrow> int" where
  "httpStatus kind = (if kind = KindInvalidArgument then 400 else if kind = KindUnauthenticated then 401 else if kind = KindPermissionDenied then 403
     else if kind = KindNotFound then 404 else if kind = KindConflict then 409 else if kind = KindRateLimited then 429
     else if kind = KindDeadlineExceeded then 504 else if kind = KindUnavailable then 503 else if kind = KindUnimplemented then 501 else 500)"

record HTTPProblem =
  hp_Type :: string
  hp_Title :: string
  hp_Status :: int
  hp_Detail :: string
  hp_Code :: int
  hp_Key :: string
  hp_RequestID :: string
  hp_TraceID :: string
  hp_RetryAfter :: string

definition problem_document :: "(int \<Rightarrow> string) \<Rightarrow> ctx_ids \<Rightarrow> int \<Rightarrow> Definition \<Rightarrow> HTTPProblem" where
  "problem_document status_text X status d = \<lparr>hp_Type = ''urn:knowledge-core:problem:'' @ df_Key d, hp_Title = status_text status, hp_Status = status,
     hp_Detail = df_Message d, hp_Code = df_Code d, hp_Key = df_Key d, hp_RequestID = cx_RequestID X, hp_TraceID = cx_TraceID X, hp_RetryAfter = []\<rparr>"

definition with_retry :: "goerr \<Rightarrow> HTTPProblem \<Rightarrow> HTTPProblem" where
  "with_retry e p = (if Extra e ExtraRetryAfter \<noteq> [] then p\<lparr>hp_RetryAfter := Extra e ExtraRetryAfter\<rparr> else p)"

definition ToHTTPError :: "(int \<Rightarrow> string) \<Rightarrow> ctx_ids \<Rightarrow> goerr \<Rightarrow> int \<times> HTTPProblem" where
  "ToHTTPError status_text X e = (let d = known_definition e; status = httpStatus (df_Kind d) in
     (status, with_retry e (problem_document status_text X status d)))"

definition ToHTTPProblem :: "(int \<Rightarrow> string) \<Rightarrow> ctx_ids \<Rightarrow> int \<Rightarrow> goerr \<Rightarrow> HTTPProblem" where
  "ToHTTPProblem status_text X status e = (let status' = (if Details e = None then 500 else status) in
     with_retry e (problem_document status_text X status' (known_definition e)))"

section \<open>The gateway's answer to a failed call\<close>

definition catalogHTTPStatus :: "string \<Rightarrow> int option" where
  "catalogHTTPStatus = map_of [(''identity.account_locked'', 423), (''knowledge.gone'', 410), (''knowledge.precondition_failed'', 412),
     (''collaboration.precondition_failed'', 412), (''platform.precondition_failed'', 412)]"

record ResponseError =
  re_HTTPStatus :: int
  re_Definition :: Definition

definition ErrInvalidUpstreamResponse :: ResponseError where
  "ErrInvalidUpstreamResponse = \<lparr>re_HTTPStatus = 502, re_Definition = \<lparr>df_Code = 10012, df_Key = ''gateway.invalid_upstream_response'',
     df_Kind = KindUnavailable, df_Message = ''invalid upstream response''\<rparr>\<rparr>"

definition ErrUpstreamTimeout :: ResponseError where
  "ErrUpstreamTimeout = \<lparr>re_HTTPStatus = 504, re_Definition = \<lparr>df_Code = 10011, df_Key = ''gateway.upstream_timeout'',
     df_Kind = KindDeadlineExceeded, df_Message = ''upstream request timed out''\<rparr>\<rparr>"

definition ErrDependencyUnavailable :: ResponseError where
  "ErrDependencyUnavailable = \<lparr>re_HTTPStatus = 503, re_Definition = \<lparr>df_Code = 10007, df_Key = ''gateway.dependency_unavailable'',
     df_Kind = KindUnavailable, df_Message = ''service unavailable''\<rparr>\<rparr>"

definition WriteError :: "(int \<Rightarrow> string) \<Rightarrow> ctx_ids \<Rightarrow> ResponseError \<Rightarrow> int \<times> HTTPProblem" where
  "WriteError status_text X r = (re_HTTPStatus r, ToHTTPProblem status_text X (re_HTTPStatus r) (New (re_Definition r)))"

definition writeCatalogError :: "(int \<Rightarrow> string) \<Rightarrow> ctx_ids \<Rightarrow> goerr \<Rightarrow> int \<times> HTTPProblem" where
  "writeCatalogError status_text X e = (case Details e of None \<Rightarrow> ToHTTPError status_text X e
     | Some d \<Rightarrow> (case catalogHTTPStatus (df_Key d) of None \<Rightarrow> ToHTTPError status_text X e
        | Some override \<Rightarrow> (override, ToHTTPProblem status_text X override e)))"

text \<open>\<open>isTimeout\<close> asks the runtime and the RPC library about the error and is an argument.\<close>

definition writeRPCError :: "(int \<Rightarrow> string) \<Rightarrow> ctx_ids \<Rightarrow> (goerr \<Rightarrow> bool) \<Rightarrow> goerr \<Rightarrow> int \<times> HTTPProblem" where
  "writeRPCError status_text X isTimeout e = (case as_status e of
     Some b \<Rightarrow> (case FromKitexBizStatus e of
         Some d \<Rightarrow> (let retryAfter = extra_value (bz_Extra b) ExtraRetryAfter in
           writeCatalogError status_text X (if retryAfter \<noteq> [] then NewWithExtra d [ExtraRetryAfter \<mapsto> retryAfter] else New d))
       | None \<Rightarrow> WriteError status_text X ErrInvalidUpstreamResponse)
   | None \<Rightarrow> WriteError status_text X (if isTimeout e then ErrUpstreamTimeout else ErrDependencyUnavailable))"

section \<open>Well-formed errors\<close>

text \<open>What the constructors of the package build: definitions that passed \<open>Define\<close>, extras that passed \<open>copySafeExtra\<close>.\<close>

definition defined :: "Definition \<Rightarrow> bool" where
  "defined d \<longleftrightarrow> Define (df_Code d) (df_Key d) (df_Kind d) (df_Message d) = Inr d"

definition safe_extra :: "(string \<Rightarrow> string option) \<Rightarrow> bool" where
  "safe_extra x \<longleftrightarrow> copySafeExtra x = x"

fun well_formed :: "goerr \<Rightarrow> bool" where
  "well_formed (Foreign m None) = True"
| "well_formed (Foreign m (Some e)) = well_formed e"
| "well_formed (Catalog d) = defined d"
| "well_formed (App d c x) = (defined d \<and> safe_extra x)"
| "well_formed (Joined es) = list_all well_formed es"
| "well_formed (SentStatus b e) = well_formed e"
| "well_formed (ReceivedStatus b) = True"

lemma Define_defined: "Define c k kd m = Inr d \<Longrightarrow> defined d"
  by (auto simp: Define_def defined_def Let_def trim_space_idem split: if_split_asm)

lemma defined_valid: "defined d \<Longrightarrow> definition_valid d"
  by (cases d) (auto simp: defined_def Define_def definition_valid_def Let_def split: if_split_asm)

lemma copySafeExtra_idem: "copySafeExtra (copySafeExtra x) = copySafeExtra x"
  by (auto simp: copySafeExtra_def fun_eq_iff trim_space_idem split: option.split)

lemma constructors_well_formed:
  assumes "defined d"
  shows "well_formed (New d)" "well_formed (Wrap d c)" "well_formed (NewWithExtra d x)"
  using assms by (simp_all add: New_def Wrap_def NewWithExtra_def safe_extra_def copySafeExtra_idem) (simp_all add: copySafeExtra_def fun_eq_iff)

lemma first_some_SomeD: "first_some f xs = Some y \<Longrightarrow> \<exists>x \<in> set xs. f x = Some y"
  by (induction xs) (auto split: option.split_asm)

lemma as_definition_defined: "well_formed e \<Longrightarrow> as_definition e = Some d \<Longrightarrow> defined d"
  by (induction e rule: as_definition.induct) (auto dest: first_some_SomeD simp: list_all_iff)

lemma as_app_safe: "well_formed e \<Longrightarrow> as_app e = Some (d, c, x) \<Longrightarrow> safe_extra x"
  by (induction e rule: as_app.induct) (auto dest: first_some_SomeD simp: list_all_iff)

lemma Internal_defined: "defined Internal_Definition"
  by (simp add: defined_def) code_simp

lemma known_defined: "well_formed e \<Longrightarrow> defined (known_definition e)"
  by (auto simp: known_definition_def Details_def Internal_defined dest: as_definition_defined split: option.split)

lemma safe_extra_other: "safe_extra x \<Longrightarrow> k \<noteq> ExtraRetryAfter \<Longrightarrow> x k = None"
  unfolding safe_extra_def by (drule fun_cong [where x = k]) (simp add: copySafeExtra_def)

lemma safe_extra_trimmed:
  assumes "safe_extra x" and "x ExtraRetryAfter = Some v"
  shows "trim_space v = v" "v \<noteq> []"
proof -
  have "copySafeExtra x ExtraRetryAfter = Some v" using assms by (simp add: safe_extra_def)
  then show "trim_space v = v" "v \<noteq> []" using assms(2) by (auto simp: copySafeExtra_def split: if_split_asm)
qed

lemma status_extra_values:
  assumes "well_formed e"
  shows "extra_value (status_extra X e) ExtraErrorKey = df_Key (known_definition e)"
    "extra_value (status_extra X e) ExtraErrorKind = df_Kind (known_definition e)"
    "extra_value (status_extra X e) ExtraRetryAfter = Extra e ExtraRetryAfter"
  using safe_extra_other [OF as_app_safe [OF assms], of _ _ _ ExtraErrorKey] safe_extra_other [OF as_app_safe [OF assms], of _ _ _ ExtraErrorKind]
  by (auto simp: status_extra_def extra_value_def Extra_def Let_def map_add_def split: option.split)

section \<open>Properties\<close>

text \<open>C27: An error keeps its contract on the way from a service to the client of the gateway: the problem document carries the code,
  key and message of the outermost catalog entry in the error's chain, or of the internal error when there is none, with the
  HTTP status of its kind or of the key's exception, and the retry hint; of causes and other texts nothing is sent.\<close>

theorem service_error_reaches_client:
  assumes "well_formed e" and "ToBizStatus X e = SentStatus b e"
  shows "FromKitexBizStatus (ReceivedStatus b) = Some (known_definition e) \<and>
    writeRPCError status_text Y isTimeout (ReceivedStatus b) =
      (let d = known_definition e; status = (case catalogHTTPStatus (df_Key d) of None \<Rightarrow> httpStatus (df_Kind d) | Some o' \<Rightarrow> o') in
       (status, \<lparr>hp_Type = ''urn:knowledge-core:problem:'' @ df_Key d, hp_Title = status_text status, hp_Status = status, hp_Detail = df_Message d,
          hp_Code = df_Code d, hp_Key = df_Key d, hp_RequestID = cx_RequestID Y, hp_TraceID = cx_TraceID Y, hp_RetryAfter = Extra e ExtraRetryAfter\<rparr>))"
proof -
  define d where "d = known_definition e"
  have b: "b = \<lparr>bz_Code = df_Code d, bz_Message = df_Message d, bz_Extra = status_extra X e\<rparr>" using assms(2) by (simp add: ToBizStatus_def d_def)
  have ok: "defined d" unfolding d_def by (rule known_defined [OF assms(1)])
  have rebuilt: "FromKitexBizStatus (ReceivedStatus b) = Some d"
    using ok by (simp add: FromKitexBizStatus_def b status_extra_values [OF assms(1)] d_def [symmetric] defined_def)
  let ?r = "Extra e ExtraRetryAfter"
  have r: "?r \<noteq> [] \<Longrightarrow> trim_space ?r = ?r"
    using as_app_safe [OF assms(1)] safe_extra_trimmed(1) by (fastforce simp: Extra_def split: option.split_asm)
  define a where "a = (if ?r \<noteq> [] then NewWithExtra d [ExtraRetryAfter \<mapsto> ?r] else New d)"
  have a: "Details a = Some d" "known_definition a = d" "Extra a ExtraRetryAfter = ?r"
    using defined_valid [OF ok] r by (auto simp: a_def Details_def known_definition_def NewWithExtra_def New_def Extra_def copySafeExtra_def)
  have "writeRPCError status_text Y isTimeout (ReceivedStatus b) = writeCatalogError status_text Y a"
    by (simp add: writeRPCError_def rebuilt a_def) (simp add: b status_extra_values [OF assms(1)])
  then show ?thesis unfolding d_def [symmetric] using rebuilt a
    by (simp add: writeCatalogError_def ToHTTPError_def ToHTTPProblem_def with_retry_def problem_document_def Let_def split: option.split)
qed

definition locked_error :: goerr where
  "locked_error = Foreign ''authenticate: account is locked'' (Some (NewWithExtra
     \<lparr>df_Code = 20004, df_Key = ''identity.account_locked'', df_Kind = KindPermissionDenied, df_Message = ''account is locked''\<rparr> [ExtraRetryAfter \<mapsto> '' 60 '']))"

theorem service_error_reaches_client_witness:
  "\<exists>b. ToBizStatus \<lparr>cx_RequestID = ''r'', cx_TraceID = []\<rparr> locked_error = SentStatus b locked_error \<and>
    (let (status, p) = writeRPCError (\<lambda>_. ''Locked'') \<lparr>cx_RequestID = ''r'', cx_TraceID = []\<rparr> (\<lambda>_. False) (ReceivedStatus b) in
     status = 423 \<and> hp_Key p = ''identity.account_locked'' \<and> hp_RetryAfter p = ''60'')"
proof -
  let ?X = "\<lparr>cx_RequestID = ''r'', cx_TraceID = []\<rparr>"
  obtain b where b: "ToBizStatus ?X locked_error = SentStatus b locked_error" by (simp add: ToBizStatus_def)
  have "defined \<lparr>df_Code = 20004, df_Key = ''identity.account_locked'', df_Kind = KindPermissionDenied, df_Message = ''account is locked''\<rparr>"
    by (simp add: defined_def) code_simp
  then have w: "well_formed locked_error" by (simp add: locked_error_def constructors_well_formed)
  have k: "df_Key (known_definition locked_error) = ''identity.account_locked''" "Extra locked_error ExtraRetryAfter = ''60''" by code_simp+
  from service_error_reaches_client [OF w b, of "\<lambda>_. ''Locked''" ?X "\<lambda>_. False"] b k show ?thesis
    by (auto simp: Let_def catalogHTTPStatus_def)
qed

end
