(* ===== verification/GatewayRoutes.thy ===== *)
theory GatewayRoutes
  imports GatewayLimit AppError
begin

text \<open>
  The way of a request through the gateway: the middleware of \<open>services/gateway/internal/middleware/http.go\<close> in the order of
  \<open>transport/http/server.go\<close>, and the routes of \<open>biz/router/gateway/gateway.go\<close> with the guards of \<open>middleware.go\<close>. Middleware that
  only logs, traces or sets headers is left out; a handler is named, and what it does with the session it is given is modelled
  with the services.
\<close>

section \<open>Requests\<close>

record http_request =
  hq_Method :: string
  hq_Path :: "string list"
  hq_Origins :: "string list"
  hq_Preflight :: bool
  hq_Authorization :: "string list"
  hq_Remote :: "string option"
  hq_ForwardedFor :: string
  hq_RealIP :: string

record gateway =
  gw_addresses :: address_env
  gw_keyPrefix :: string
  gw_jwt :: jwtenv
  gw_allowedOrigins :: "string list"
  gw_globalLimit :: int
  gw_authLimit :: int
  gw_window :: duration

text \<open>The principal and the token that authentication has put into the request.\<close>

type_synonym session = "(Principal \<times> string) option"

datatype refusal = Refusal ResponseError "string option"

text \<open>What a middleware does: it refuses, ends the request without content, or passes a session on.\<close>

datatype 'a passing = Refused refusal | NoContent | Passed 'a

definition gateway_error :: "int \<Rightarrow> int \<Rightarrow> string \<Rightarrow> string \<Rightarrow> string \<Rightarrow> ResponseError" where
  "gateway_error code status key kind message = \<lparr>re_HTTPStatus = status, re_Definition = \<lparr>df_Code = code, df_Key = key, df_Kind = kind, df_Message = message\<rparr>\<rparr>"

definition ErrInvalidRequest :: ResponseError where
  "ErrInvalidRequest = gateway_error 10002 400 ''gateway.invalid_request'' KindInvalidArgument ''invalid request''"

definition ErrAuthenticationRequired :: ResponseError where
  "ErrAuthenticationRequired = gateway_error 10003 401 ''gateway.authentication_required'' KindUnauthenticated ''authentication required''"

definition ErrPermissionDenied :: ResponseError where
  "ErrPermissionDenied = gateway_error 10005 403 ''gateway.permission_denied'' KindPermissionDenied ''permission denied''"

definition ErrRouteNotFound :: ResponseError where
  "ErrRouteNotFound = gateway_error 10008 404 ''gateway.route_not_found'' KindNotFound ''route not found''"

definition ErrMethodNotAllowed :: ResponseError where
  "ErrMethodNotAllowed = gateway_error 10009 405 ''gateway.method_not_allowed'' KindInvalidArgument ''method not allowed''"

definition ErrRateLimited :: ResponseError where
  "ErrRateLimited = gateway_error 10010 429 ''gateway.rate_limited'' KindRateLimited ''rate limit exceeded''"

definition ErrInternal :: ResponseError where
  "ErrInternal = gateway_error 10999 500 ''gateway.internal'' KindInternal ''internal server error''"

section \<open>Middleware\<close>

definition CORS :: "gateway \<Rightarrow> http_request \<Rightarrow> unit passing" where
  "CORS G q = (if hq_Origins q = [] then Passed ()
     else case hq_Origins q of
       [origin] \<Rightarrow>
         if trim_space origin \<noteq> origin \<or> origin = [] then Refused (Refusal ErrInvalidRequest None)
         else if origin \<notin> set (gw_allowedOrigins G) then Refused (Refusal ErrPermissionDenied None)
         else if hq_Method q = ''OPTIONS'' \<and> hq_Preflight q then NoContent
         else Passed ()
     | _ \<Rightarrow> Refused (Refusal ErrInvalidRequest None))"

text \<open>\<open>strings.EqualFold\<close> against a word of these letters folds ASCII case only.\<close>

definition equal_fold_bearer :: "string \<Rightarrow> bool" where
  "equal_fold_bearer s \<longleftrightarrow> to_lower (\<lambda>r. r) s = ''bearer''"

definition bearer_token :: "string \<Rightarrow> string option" where
  "bearer_token header =
     (let scheme = takeWhile (\<lambda>c. c \<noteq> CHR '' '') header; rest = dropWhile (\<lambda>c. c \<noteq> CHR '' '') header; token = drop 1 rest in
      if rest = [] \<or> \<not> equal_fold_bearer scheme \<or> token = []
         \<or> list_ex (\<lambda>c. c = CHR '' '' \<or> c = CHR 0x09 \<or> c = CHR 0x0D \<or> c = CHR 0x0A) token \<or> MaxTokenLength < length token then None
      else Some token)"

definition OptionalAuthentication :: "gateway \<Rightarrow> time \<Rightarrow> http_request \<Rightarrow> session passing" where
  "OptionalAuthentication G now q = (case hq_Authorization q of
     [] \<Rightarrow> Passed None
   | [header] \<Rightarrow> (case bearer_token header of None \<Rightarrow> Refused (Refusal ErrAuthenticationRequired None)
       | Some token \<Rightarrow> (case Verify (gw_jwt G) now token of Inl _ \<Rightarrow> Refused (Refusal ErrAuthenticationRequired None)
           | Inr p \<Rightarrow> Passed (Some (p, token))))
   | _ \<Rightarrow> Refused (Refusal ErrAuthenticationRequired None))"

definition session_principal :: "session \<Rightarrow> Principal option" where
  "session_principal s = (case s of None \<Rightarrow> None | Some (p, _) \<Rightarrow> if 0 < pr_UserID p then Some p else None)"

definition RequireAuthenticated :: "session \<Rightarrow> unit passing" where
  "RequireAuthenticated s = (case session_principal s of None \<Rightarrow> Refused (Refusal ErrAuthenticationRequired None) | Some _ \<Rightarrow> Passed ())"

definition RequireAdmin :: "session \<Rightarrow> unit passing" where
  "RequireAdmin s = (case session_principal s of None \<Rightarrow> Refused (Refusal ErrAuthenticationRequired None)
     | Some p \<Rightarrow> if pr_Role p \<noteq> ''admin'' then Refused (Refusal ErrPermissionDenied None) else Passed ())"

text \<open>\<open>reachable\<close> says whether Redis answers; its clock is that of the gateway.\<close>

definition consumeRateLimit :: "gateway \<Rightarrow> bool \<Rightarrow> time \<Rightarrow> string \<Rightarrow> string \<Rightarrow> int \<Rightarrow> redis \<Rightarrow> unit passing \<times> redis" where
  "consumeRateLimit G reachable now scope subject limit R =
     (case Consume (gw_addresses G) (gw_keyPrefix G) reachable (UnixMilli now) scope subject now (gw_window G) limit R of
        (Inl _, R') \<Rightarrow> (Refused (Refusal ErrDependencyUnavailable None), R')
      | (Inr (allowed, retryAfter), R') \<Rightarrow>
          if \<not> allowed then (let seconds = go_div (retryAfter + second - 1) second in
            (Refused (Refusal ErrRateLimited (Some (show_int (if seconds < 1 then 1 else seconds)))), R'))
          else (Passed (), R'))"

definition client_of :: "gateway \<Rightarrow> http_request \<Rightarrow> string" where
  "client_of G q = ClientIP (gw_addresses G) (hq_Remote q) (hq_ForwardedFor q) (hq_RealIP q)"

definition CollaborationSessionRateLimit :: "gateway \<Rightarrow> bool \<Rightarrow> time \<Rightarrow> http_request \<Rightarrow> session \<Rightarrow> redis \<Rightarrow> unit passing \<times> redis" where
  "CollaborationSessionRateLimit G reachable now q s R = (case session_principal s of
     None \<Rightarrow> (Refused (Refusal ErrInternal None), R)
   | Some p \<Rightarrow>
       (case consumeRateLimit G reachable now ''collaboration_session_ip'' (client_of G q) (gw_authLimit G) R of
          (Passed _, R') \<Rightarrow> consumeRateLimit G reachable now ''collaboration_session_user'' (''user:'' @ show_int (pr_UserID p)) (gw_authLimit G) R'
        | (o', R') \<Rightarrow> (o', R')))"

datatype guard = MwRequireAuthenticated | MwRequireAdmin | MwAuthRateLimit | MwActionRateLimit | MwCollaborationSessionRateLimit

fun run_guard :: "guard \<Rightarrow> gateway \<Rightarrow> bool \<Rightarrow> time \<Rightarrow> http_request \<Rightarrow> session \<Rightarrow> redis \<Rightarrow> unit passing \<times> redis" where
  "run_guard MwRequireAuthenticated G up now q s R = (RequireAuthenticated s, R)"
| "run_guard MwRequireAdmin G up now q s R = (RequireAdmin s, R)"
| "run_guard MwAuthRateLimit G up now q s R = consumeRateLimit G up now ''auth'' (client_of G q) (gw_authLimit G) R"
| "run_guard MwActionRateLimit G up now q s R = consumeRateLimit G up now ''auth_action'' (client_of G q) (gw_authLimit G) R"
| "run_guard MwCollaborationSessionRateLimit G up now q s R = CollaborationSessionRateLimit G up now q s R"

fun run_guards :: "guard list \<Rightarrow> gateway \<Rightarrow> bool \<Rightarrow> time \<Rightarrow> http_request \<Rightarrow> session \<Rightarrow> redis \<Rightarrow> unit passing \<times> redis" where
  "run_guards [] G up now q s R = (Passed (), R)"
| "run_guards (g # gs) G up now q s R = (case run_guard g G up now q s R of
     (Passed _, R') \<Rightarrow> run_guards gs G up now q s R' | (o', R') \<Rightarrow> (o', R'))"

section \<open>Routes\<close>

datatype segment = Static string | Param

type_synonym route = "string \<times> segment list \<times> guard list \<times> string"

definition route_group :: "segment list \<Rightarrow> guard list \<Rightarrow> route list \<Rightarrow> route list" where
  "route_group prefix guards rs = map (\<lambda>(m, path, gs, h). (m, prefix @ path, guards @ gs, h)) rs"

definition routes_deliveries :: "route list" where
  "routes_deliveries = route_group [Static ''deliveries''] [] ([(''GET'', [Param], [MwRequireAuthenticated, MwRequireAdmin], ''GetConfigurationDelivery'')])"

definition routes_namespace :: "route list" where
  "routes_namespace = route_group [Param] [] (routes_deliveries)"

definition routes_configuration :: "route list" where
  "routes_configuration = route_group [Static ''configuration''] [] ([(''GET'', [Param], [MwRequireAuthenticated, MwRequireAdmin], ''GetConfiguration''),
      (''PUT'', [Param], [MwRequireAuthenticated, MwRequireAdmin], ''PutConfiguration'')] @
      routes_namespace)"

definition routes_admin :: "route list" where
  "routes_admin = route_group [Static ''admin''] [] (routes_configuration)"

definition routes_attachment_id :: "route list" where
  "routes_attachment_id = route_group [Param] [] ([(''POST'', [Static ''complete''], [MwRequireAuthenticated], ''CompleteMediaAttachment''),
      (''GET'', [Static ''content''], [], ''GetAttachmentContent''),
      (''POST'', [Static ''restore''], [MwRequireAuthenticated], ''RestoreMediaAttachment'')])"

definition routes_attachments :: "route list" where
  "routes_attachments = route_group [Static ''attachments''] [] ([(''DELETE'', [Param], [MwRequireAuthenticated], ''DeleteMediaAttachment''),
      (''GET'', [Param], [MwRequireAuthenticated], ''GetMediaAttachment'')] @
      routes_attachment_id)"

definition routes_documents :: "route list" where
  "routes_documents = route_group [Static ''documents''] [] ([(''GET'', [Param], [], ''GetPublishedDocument'')])"

definition routes_sessions :: "route list" where
  "routes_sessions = route_group [Static ''sessions''] [] ([(''DELETE'', [Static ''current''], [MwRequireAuthenticated], ''Logout''),
      (''POST'', [Static ''refresh''], [], ''RefreshSession''),
      (''DELETE'', [Param], [MwRequireAuthenticated], ''RevokeSession'')])"

definition routes_commit_id :: "route list" where
  "routes_commit_id = route_group [Param] [] ([(''POST'', [Static ''restore''], [], ''RestoreCommit'')])"

definition routes_commits :: "route list" where
  "routes_commits = route_group [Static ''commits''] [] ([(''GET'', [Param], [], ''GetCommit''),
      (''PATCH'', [Param], [], ''RenameCommit'')] @
      routes_commit_id)"

definition routes_history :: "route list" where
  "routes_history = route_group [Static ''history''] [] ([(''GET'', [Param], [], ''GetHistory'')])"

definition routes_members :: "route list" where
  "routes_members = route_group [Static ''members''] [] ([(''DELETE'', [Param], [], ''DeleteMember''),
      (''PATCH'', [Param], [], ''UpdateMember'')])"

definition routes_document_id :: "route list" where
  "routes_document_id = route_group [Param] [] ([(''POST'', [Static ''collaboration-sessions''], [MwCollaborationSessionRateLimit], ''CreateCollaborationSession''),
      (''GET'', [Static ''commits''], [], ''ListCommits''),
      (''POST'', [Static ''commits''], [], ''CreateCommit''),
      (''GET'', [Static ''history''], [], ''ListHistory''),
      (''GET'', [Static ''members''], [], ''ListMembers''),
      (''POST'', [Static ''members''], [], ''AddMember''),
      (''DELETE'', [Static ''publication''], [], ''UnpublishDocument''),
      (''PUT'', [Static ''publication''], [], ''PublishDocument'')] @
      routes_commits @
      routes_history @
      routes_members)"

definition routes_documents0 :: "route list" where
  "routes_documents0 = route_group [Static ''documents''] [] ([(''DELETE'', [Param], [], ''DeleteDocument''),
      (''GET'', [Param], [], ''GetDocument''),
      (''PATCH'', [Param], [], ''UpdateDocument'')] @
      routes_document_id)"

definition routes_folders :: "route list" where
  "routes_folders = route_group [Static ''folders''] [] ([(''DELETE'', [Param], [], ''DeleteFolder''),
      (''PATCH'', [Param], [], ''UpdateFolder'')])"

definition routes_document_id0 :: "route list" where
  "routes_document_id0 = route_group [Param] [] ([(''POST'', [Static ''restore''], [], ''RestoreDeletedDocument'')])"

definition routes_trash :: "route list" where
  "routes_trash = route_group [Static ''trash''] [] ([(''DELETE'', [Param], [], ''PermanentlyDeleteDocument'')] @
      routes_document_id0)"

definition routes_studio :: "route list" where
  "routes_studio = route_group [Static ''studio''] [MwRequireAuthenticated] ([(''GET'', [Static ''documents''], [], ''ListDocuments''),
      (''POST'', [Static ''documents''], [], ''CreateDocument''),
      (''GET'', [Static ''folders''], [], ''ListFolders''),
      (''POST'', [Static ''folders''], [], ''CreateFolder''),
      (''GET'', [Static ''trash''], [], ''ListDeletedDocuments'')] @
      routes_documents0 @
      routes_folders @
      routes_trash)"

definition routes_me :: "route list" where
  "routes_me = route_group [Static ''me''] [] ([(''POST'', [Static ''deactivation''], [MwRequireAuthenticated], ''DeactivateAccount'')])"

definition routes_users :: "route list" where
  "routes_users = route_group [Static ''users''] [] ([(''GET'', [Static ''me''], [MwRequireAuthenticated], ''CurrentUser'')] @
      routes_me)"

definition routes_v1 :: "route list" where
  "routes_v1 = route_group [Static ''v1''] [] ([(''GET'', [Static ''attachments''], [MwRequireAuthenticated], ''ListMediaAttachments''),
      (''POST'', [Static ''attachments''], [MwRequireAuthenticated], ''CreateMediaAttachment''),
      (''GET'', [Static ''documents''], [], ''ListPublishedDocuments''),
      (''GET'', [Static ''email-verification-requests''], [MwRequireAuthenticated, MwActionRateLimit], ''GetEmailVerificationStatus''),
      (''POST'', [Static ''email-verification-requests''], [MwRequireAuthenticated, MwActionRateLimit], ''RequestEmailVerification''),
      (''POST'', [Static ''email-verifications''], [MwActionRateLimit], ''VerifyEmail''),
      (''POST'', [Static ''password-reset-requests''], [MwActionRateLimit], ''RequestPasswordReset''),
      (''POST'', [Static ''password-resets''], [MwActionRateLimit], ''ResetPassword''),
      (''DELETE'', [Static ''sessions''], [MwRequireAuthenticated], ''RevokeAllSessions''),
      (''GET'', [Static ''sessions''], [MwRequireAuthenticated], ''ListSessions''),
      (''POST'', [Static ''sessions''], [MwAuthRateLimit], ''Login''),
      (''GET'', [Static ''site-profile''], [], ''GetSiteProfile''),
      (''POST'', [Static ''users''], [MwAuthRateLimit], ''Register'')] @
      routes_admin @
      routes_attachments @
      routes_documents @
      routes_sessions @
      routes_studio @
      routes_users)"

definition routes_api :: "route list" where
  "routes_api = route_group [Static ''api''] [] (routes_v1)"

definition routes_health :: "route list" where
  "routes_health = route_group [Static ''health''] [] ([(''GET'', [Static ''live''], [], ''Live''),
      (''GET'', [Static ''ready''], [], ''Ready'')])"

definition Register :: "route list" where
  "Register = routes_api @ routes_health"

text \<open>A parameter takes one non-empty segment; where a static and a parameter segment compete, the static one is listed first.\<close>

fun matches :: "segment list \<Rightarrow> string list \<Rightarrow> bool" where
  "matches [] [] = True"
| "matches (Static s # ss) (x # xs) = (s = x \<and> matches ss xs)"
| "matches (Param # ss) (x # xs) = (x \<noteq> [] \<and> matches ss xs)"
| "matches _ _ = False"

definition find_route :: "http_request \<Rightarrow> (guard list \<times> string) + ResponseError" where
  "find_route q = (case find (\<lambda>(m, path, gs, h). m = hq_Method q \<and> matches path (hq_Path q)) Register of
     Some (_, _, gs, h) \<Rightarrow> Inl (gs, h)
   | None \<Rightarrow> Inr (if list_ex (\<lambda>(m, path, gs, h). matches path (hq_Path q)) Register then ErrMethodNotAllowed else ErrRouteNotFound))"

datatype outcome = Answered refusal | Preflighted | Handled string session

fun stop :: "'a passing \<Rightarrow> outcome" where
  "stop (Refused r) = Answered r"
| "stop NoContent = Preflighted"
| "stop (Passed _) = Preflighted"

definition dispatch :: "gateway \<Rightarrow> bool \<Rightarrow> time \<Rightarrow> http_request \<Rightarrow> redis \<Rightarrow> outcome \<times> redis" where
  "dispatch G up now q R = (case CORS G q of
     Passed _ \<Rightarrow> (case consumeRateLimit G up now ''global'' (client_of G q) (gw_globalLimit G) R of
       (Passed _, R1) \<Rightarrow> (case OptionalAuthentication G now q of
          Passed s \<Rightarrow> (case find_route q of
             Inr e \<Rightarrow> (Answered (Refusal e None), R1)
           | Inl (gs, h) \<Rightarrow> (case run_guards gs G up now q s R1 of
               (Passed _, R2) \<Rightarrow> (Handled h s, R2) | (o', R2) \<Rightarrow> (stop o', R2)))
        | o' \<Rightarrow> (stop o', R1))
     | (o', R1) \<Rightarrow> (stop o', R1))
   | o' \<Rightarrow> (stop o', R))"

section \<open>Guards\<close>

definition public_handlers :: "string list" where
  "public_handlers = [''ListPublishedDocuments'', ''GetPublishedDocument'', ''GetAttachmentContent'', ''GetSiteProfile'', ''Login'', ''Register'', ''RefreshSession'',
     ''VerifyEmail'', ''RequestPasswordReset'', ''ResetPassword'', ''Live'', ''Ready'']"

definition admin_handlers :: "string list" where
  "admin_handlers = [''GetConfiguration'', ''PutConfiguration'', ''GetConfigurationDelivery'']"

lemma routes_guarded:
  "list_all (\<lambda>(m, path, gs, h). (h \<in> set public_handlers \<or> MwRequireAuthenticated \<in> set gs) \<and> (h \<in> set admin_handlers \<longrightarrow> MwRequireAdmin \<in> set gs)) Register"
  by code_simp

lemma run_guards_Passed:
  assumes "run_guards gs G up now q s R = (Passed (), R')"
  shows "MwRequireAuthenticated \<in> set gs \<Longrightarrow> session_principal s \<noteq> None"
    and "MwRequireAdmin \<in> set gs \<Longrightarrow> \<exists>p. session_principal s = Some p \<and> pr_Role p = ''admin''"
  using assms
  by (induction gs arbitrary: R)
    (auto simp: RequireAuthenticated_def RequireAdmin_def split: prod.split_asm passing.split_asm option.split_asm if_split_asm)

lemma find_route_guards:
  assumes "find_route q = Inl (gs, h)"
  shows "h \<in> set public_handlers \<or> MwRequireAuthenticated \<in> set gs" "h \<in> set admin_handlers \<Longrightarrow> MwRequireAdmin \<in> set gs"
proof -
  obtain m path where "(m, path, gs, h) \<in> set Register"
    using assms by (auto simp: find_route_def find_Some_iff dest: nth_mem split: option.split_asm)
  then show "h \<in> set public_handlers \<or> MwRequireAuthenticated \<in> set gs" "h \<in> set admin_handlers \<Longrightarrow> MwRequireAdmin \<in> set gs"
    using routes_guarded by (auto simp: list_all_iff)
qed

lemma dispatch_Handled:
  assumes "dispatch G up now q R = (Handled h s, R')"
  obtains gs R1 where "CORS G q = Passed ()" "consumeRateLimit G up now ''global'' (client_of G q) (gw_globalLimit G) R = (Passed (), R1)"
    "OptionalAuthentication G now q = Passed s" "find_route q = Inl (gs, h)" "run_guards gs G up now q s R1 = (Passed (), R')"
proof -
  have st: "stop x \<noteq> Handled a b" for x :: "'x passing" and a b by (cases x) auto
  show thesis using assms that
    by (auto simp: dispatch_def st split: passing.split_asm prod.split_asm sum.split_asm)
qed

text \<open>C7: Outside a fixed list of public endpoints a handler of the gateway only runs for a request with exactly one well-formed bearer
  token that verifies and names a user, and it is given that user's principal and token; the configuration endpoints only run
  for administrators.\<close>

theorem gateway_handlers_guarded:
  assumes "dispatch G up now q R = (Handled h s, R')" and "h \<notin> set public_handlers"
  shows "\<exists>header token p. hq_Authorization q = [header] \<and> bearer_token header = Some token \<and> Verify (gw_jwt G) now token = Inr p
    \<and> s = Some (p, token) \<and> 0 < pr_UserID p \<and> (h \<in> set admin_handlers \<longrightarrow> pr_Role p = ''admin'')"
proof -
  from assms(1) obtain gs R1 where d: "OptionalAuthentication G now q = Passed s" "find_route q = Inl (gs, h)" "run_guards gs G up now q s R1 = (Passed (), R')"
    by (rule dispatch_Handled)
  have "session_principal s \<noteq> None" using find_route_guards(1) [OF d(2)] run_guards_Passed(1) [OF d(3)] assms(2) by blast
  then obtain p token where s: "s = Some (p, token)" "0 < pr_UserID p" by (auto simp: session_principal_def split: option.split_asm if_split_asm)
  have "h \<in> set admin_handlers \<Longrightarrow> pr_Role p = ''admin''"
    using find_route_guards(2) [OF d(2)] run_guards_Passed(2) [OF d(3)] s by (auto simp: session_principal_def)
  then show ?thesis using d(1) s
    by (auto simp: OptionalAuthentication_def split: list.split_asm option.split_asm sum.split_asm)
qed

section \<open>Limited endpoints\<close>

lemma counted_later: "counted N keyPrefix window before m R \<Longrightarrow> m \<le> m' \<Longrightarrow> counted N keyPrefix window before m' R"
  unfolding counted_def by (meson le_less_trans)

lemma seen_append: "seen N window (xs @ ys) x = seen N window xs x + seen N window ys x"
  by (simp add: seen_def)

lemma seen_nonneg: "0 \<le> seen N window xs x"
  by (simp add: seen_def)

definition gw_counted :: "gateway \<Rightarrow> limit_call list \<Rightarrow> int \<Rightarrow> redis \<Rightarrow> bool" where
  "gw_counted G = counted (gw_addresses G) (gw_keyPrefix G) (gw_window G)"

lemma consume_counts:
  assumes inv: "gw_counted G before m R" and "m \<le> UnixMilli now" and "unix_epoch \<le> now" and "trim_space scope = scope" and "CHR '':'' \<notin> set scope"
    and run: "consumeRateLimit G up now scope subject limit R = (r, R')"
  shows "\<exists>cs. gw_counted G (before @ cs) (UnixMilli now) R' \<and> (r = Passed () \<longrightarrow> cs = [(scope, subject, now)] \<and>
     seen (gw_addresses G) (gw_window G) (before @ cs) (bucket_id (gw_addresses G) (gw_window G) (scope, subject, now)) \<le> limit)"
proof (cases "gw_window G < millisecond \<or> limit \<le> 0 \<or> scope = [] \<or> normalizeSubject (gw_addresses G) subject = None \<or> \<not> up")
  case True
  then have "\<exists>e. Consume (gw_addresses G) (gw_keyPrefix G) up (UnixMilli now) scope subject now (gw_window G) limit R = (Inl e, R)"
    using assms(4) by (cases "normalizeSubject (gw_addresses G) subject") (auto simp: Consume_def)
  then have "R' = R \<and> r \<noteq> Passed ()" using run by (auto simp: consumeRateLimit_def)
  then show ?thesis using counted_later [OF inv [unfolded gw_counted_def] assms(2)] by (intro exI [of _ "[]"]) (simp add: gw_counted_def)
next
  case False
  have wf: "well_formed_call (gw_addresses G) (scope, subject, now)" using False assms(3,4,5) by (auto simp: well_formed_call_def)
  obtain R'' where c: "run_call (gw_addresses G) (gw_keyPrefix G) (gw_window G) limit (scope, subject, now) R
      = (Inr (seen (gw_addresses G) (gw_window G) (before @ [(scope, subject, now)]) (bucket_id (gw_addresses G) (gw_window G) (scope, subject, now)) \<le> limit,
          retry_after (gw_window G) now), R'')"
    and k: "gw_counted G (before @ [(scope, subject, now)]) (UnixMilli now) R''"
    using call_counts [OF inv [unfolded gw_counted_def] assms(2) wf, of limit] False unfolding gw_counted_def by (auto simp: not_less not_le)
  have "R' = R''" and "r = Passed () \<Longrightarrow> seen (gw_addresses G) (gw_window G) (before @ [(scope, subject, now)])
      (bucket_id (gw_addresses G) (gw_window G) (scope, subject, now)) \<le> limit"
    using run c False by (auto simp: consumeRateLimit_def run_call_def Let_def split: if_split_asm)
  then show ?thesis using k by (intro exI [of _ "[(scope, subject, now)]"]) simp
qed

text \<open>What a run of guards has counted; \<open>entered\<close> says that the login counter was among it and within the limit.\<close>

definition entered :: "gateway \<Rightarrow> time \<Rightarrow> http_request \<Rightarrow> limit_call list \<Rightarrow> limit_call list \<Rightarrow> bool" where
  "entered G now q before cs \<longleftrightarrow> (\<exists>ds es. cs = ds @ (''auth'', client_of G q, now) # es \<and>
     seen (gw_addresses G) (gw_window G) (before @ ds @ [(''auth'', client_of G q, now)]) (bucket_id (gw_addresses G) (gw_window G) (''auth'', client_of G q, now)) \<le> gw_authLimit G)"

lemma entered_extend: "entered G now q (before @ cs) ds \<Longrightarrow> entered G now q before (cs @ ds)"
  unfolding entered_def by (metis append.assoc)

lemma entered_more: "entered G now q before cs \<Longrightarrow> entered G now q before (cs @ ds)"
  unfolding entered_def by (metis append.assoc append_Cons)

lemma limit_scopes:
  "trim_space ''auth'' = ''auth''" "trim_space ''auth_action'' = ''auth_action''" "trim_space ''global'' = ''global''"
  "trim_space ''collaboration_session_ip'' = ''collaboration_session_ip''" "trim_space ''collaboration_session_user'' = ''collaboration_session_user''"
  by code_simp+

lemma guard_counts:
  assumes inv: "gw_counted G before m R" and t: "m \<le> UnixMilli now" "unix_epoch \<le> now" and run: "run_guard g G up now q s R = (r, R')"
  shows "\<exists>cs. gw_counted G (before @ cs) (UnixMilli now) R' \<and> (r = Passed () \<and> g = MwAuthRateLimit \<longrightarrow> entered G now q before cs)"
proof -
  note cc = consume_counts [OF inv t]
  have stay: "\<exists>cs. gw_counted G (before @ cs) (UnixMilli now) R"
    using counted_later [OF inv [unfolded gw_counted_def] t(1)] by (intro exI [of _ "[]"]) (simp add: gw_counted_def)
  show ?thesis
  proof (cases g)
    case MwAuthRateLimit
    then obtain cs where cs: "gw_counted G (before @ cs) (UnixMilli now) R'" "r = Passed () \<longrightarrow> cs = [(''auth'', client_of G q, now)] \<and>
        seen (gw_addresses G) (gw_window G) (before @ cs) (bucket_id (gw_addresses G) (gw_window G) (''auth'', client_of G q, now)) \<le> gw_authLimit G"
      using cc [OF limit_scopes(1), of up "client_of G q" "gw_authLimit G" r R'] run by auto
    then have "r = Passed () \<longrightarrow> entered G now q before cs" unfolding entered_def by (metis append_Nil)
    then show ?thesis using cs(1) by blast
  next
    case MwActionRateLimit
    then show ?thesis using cc [OF limit_scopes(2), of up "client_of G q" "gw_authLimit G" r R'] run by auto
  next
    case MwCollaborationSessionRateLimit
    show ?thesis
    proof (cases "session_principal s")
      case None
      then show ?thesis using stay run MwCollaborationSessionRateLimit by (auto simp: CollaborationSessionRateLimit_def)
    next
      case (Some p)
      obtain r1 R1 where one: "consumeRateLimit G up now ''collaboration_session_ip'' (client_of G q) (gw_authLimit G) R = (r1, R1)"
        by (metis surj_pair)
      from cc [OF limit_scopes(4) _ one] obtain cs where cs: "gw_counted G (before @ cs) (UnixMilli now) R1" by auto
      show ?thesis
      proof (cases r1)
        case (Passed x)
        then have "consumeRateLimit G up now ''collaboration_session_user'' (''user:'' @ show_int (pr_UserID p)) (gw_authLimit G) R1 = (r, R')"
          using run one Some MwCollaborationSessionRateLimit by (simp add: CollaborationSessionRateLimit_def)
        from consume_counts [OF cs order_refl t(2) limit_scopes(5) _ this] obtain ds where "gw_counted G ((before @ cs) @ ds) (UnixMilli now) R'" by auto
        then show ?thesis using MwCollaborationSessionRateLimit by (metis append.assoc guard.distinct)
      qed (use run one Some MwCollaborationSessionRateLimit cs in \<open>auto simp: CollaborationSessionRateLimit_def\<close>)
    qed
  qed (use stay run in auto)
qed

lemma guards_count:
  assumes "gw_counted G before m R" and "m \<le> UnixMilli now" and "unix_epoch \<le> now" and "run_guards gs G up now q s R = (r, R')"
  shows "\<exists>cs. gw_counted G (before @ cs) (UnixMilli now) R' \<and> (r = Passed () \<and> MwAuthRateLimit \<in> set gs \<longrightarrow> entered G now q before cs)"
  using assms
proof (induction gs arbitrary: before m R)
  case Nil
  then show ?case using counted_later by (intro exI [of _ "[]"]) (auto simp: gw_counted_def)
next
  case (Cons g gs)
  obtain r1 R1 where one: "run_guard g G up now q s R = (r1, R1)" by (metis surj_pair)
  from guard_counts [OF Cons.prems(1,2,3) one] obtain cs where cs: "gw_counted G (before @ cs) (UnixMilli now) R1"
    "r1 = Passed () \<and> g = MwAuthRateLimit \<longrightarrow> entered G now q before cs" by blast
  show ?case
  proof (cases r1)
    case (Passed x)
    then have "run_guards gs G up now q s R1 = (r, R')" using Cons.prems(4) one by simp
    from Cons.IH [OF cs(1) order_refl Cons.prems(3) this] obtain ds where ds: "gw_counted G ((before @ cs) @ ds) (UnixMilli now) R'"
      "r = Passed () \<and> MwAuthRateLimit \<in> set gs \<longrightarrow> entered G now q (before @ cs) ds" by blast
    have "r = Passed () \<and> MwAuthRateLimit \<in> set (g # gs) \<longrightarrow> entered G now q before (cs @ ds)"
      using ds(2) cs(2) entered_extend [of G now q before cs ds] entered_more [of G now q before cs ds] Passed by auto
    then show ?thesis using ds(1) by (metis append.assoc)
  qed (use Cons.prems(4) one cs(1) in auto)
qed

definition login_handlers :: "string list" where
  "login_handlers = [''Login'', ''Register'']"

lemma login_routes: "list_all (\<lambda>(m, path, gs, h). h \<in> set login_handlers \<longrightarrow> MwAuthRateLimit \<in> set gs) Register"
  by code_simp

lemma dispatch_counts:
  assumes "gw_counted G before m R" and t: "m \<le> UnixMilli now" "unix_epoch \<le> now" and run: "dispatch G up now q R = (r, R')"
  shows "\<exists>cs. gw_counted G (before @ cs) (UnixMilli now) R' \<and> (\<forall>h s. r = Handled h s \<and> h \<in> set login_handlers \<longrightarrow> entered G now q before cs)"
proof -
  have stays: ?thesis if "gw_counted G (before @ cs) m' R'" "m' \<le> UnixMilli now" "\<And>h s. r \<noteq> Handled h s" for cs m'
    using that counted_later unfolding gw_counted_def by blast
  have st: "stop x \<noteq> Handled a b" for x :: "'x passing" and a b by (cases x) auto
  show ?thesis
  proof (cases "CORS G q")
    case (Passed u)
    obtain r1 R1 where one: "consumeRateLimit G up now ''global'' (client_of G q) (gw_globalLimit G) R = (r1, R1)" by (metis surj_pair)
    from consume_counts [OF assms(1) t limit_scopes(3) _ one] obtain cs where cs: "gw_counted G (before @ cs) (UnixMilli now) R1" by auto
    show ?thesis
    proof (cases "\<exists>s gs h. r1 = Passed () \<and> OptionalAuthentication G now q = Passed s \<and> find_route q = Inl (gs, h)")
      case True
      then obtain s gs h where ok: "r1 = Passed ()" "OptionalAuthentication G now q = Passed s" "find_route q = Inl (gs, h)" by blast
      obtain r2 R2 where two: "run_guards gs G up now q s R1 = (r2, R2)" by (metis surj_pair)
      from guards_count [OF cs order_refl t(2) two] obtain ds where ds: "gw_counted G ((before @ cs) @ ds) (UnixMilli now) R2"
        "r2 = Passed () \<and> MwAuthRateLimit \<in> set gs \<longrightarrow> entered G now q (before @ cs) ds" by blast
      have R2: "R' = R2" "r = (case r2 of Passed _ \<Rightarrow> Handled h s | _ \<Rightarrow> stop r2)"
        using run Passed one ok two by (auto simp: dispatch_def split: passing.split_asm)
      obtain m path where "(m, path, gs, h) \<in> set Register"
        using ok(3) by (auto simp: find_route_def find_Some_iff dest: nth_mem split: option.split_asm)
      then have "h \<in> set login_handlers \<Longrightarrow> MwAuthRateLimit \<in> set gs" using login_routes by (auto simp: list_all_iff)
      then have "\<forall>h' s'. r = Handled h' s' \<and> h' \<in> set login_handlers \<longrightarrow> entered G now q before (cs @ ds)"
        using ds(2) R2(2) entered_extend st by (auto split: passing.split_asm)
      then show ?thesis using ds(1) R2(1) by (metis append.assoc)
    next
      case False
      then have "R' = R1 \<and> (\<forall>h s. r \<noteq> Handled h s)"
        using run Passed one st by (auto simp: dispatch_def split: passing.split_asm sum.split_asm)
      then show ?thesis using stays [of cs "UnixMilli now"] cs by blast
    qed
  next
    case (Refused x)
    then show ?thesis using run stays [of "[]" m] assms(1) t(1) by (auto simp: dispatch_def)
  next
    case NoContent
    then show ?thesis using run stays [of "[]" m] assms(1) t(1) by (auto simp: dispatch_def)
  qed
qed

section \<open>Traffic\<close>

text \<open>A sequence of requests, each with its time and whether Redis answered.\<close>

type_synonym traffic = "(bool \<times> time \<times> http_request) list"

fun serve_traffic :: "gateway \<Rightarrow> traffic \<Rightarrow> redis \<Rightarrow> outcome list" where
  "serve_traffic G [] R = []"
| "serve_traffic G ((up, now, q) # ts) R = (case dispatch G up now q R of (r, R') \<Rightarrow> r # serve_traffic G ts R')"

text \<open>Login and registration attempts of one address in one window that were let through.\<close>

definition let_through :: "gateway \<Rightarrow> string \<Rightarrow> int \<Rightarrow> traffic \<Rightarrow> outcome list \<Rightarrow> nat" where
  "let_through G address bucket ts outcomes = length (filter (\<lambda>((up, now, q), r).
     (case r of Handled h s \<Rightarrow> h \<in> set login_handlers | _ \<Rightarrow> False) \<and> normalizeSubject (gw_addresses G) (client_of G q) = Some address
     \<and> bucket_of (gw_window G) now = bucket) (zip ts outcomes))"

lemma traffic_limited:
  assumes "gw_counted G before m R" and "sorted (map (\<lambda>(_, now, _). now) ts)" and "\<forall>(up, now, q) \<in> set ts. unix_epoch \<le> now \<and> m \<le> UnixMilli now"
    and "int k \<le> seen (gw_addresses G) (gw_window G) before (''auth'', bucket, address)" and "int k \<le> gw_authLimit G"
  shows "int (k + let_through G address bucket ts (serve_traffic G ts R)) \<le> gw_authLimit G"
  using assms
proof (induction ts arbitrary: before m R k)
  case (Cons e ts)
  obtain up now q where e: "e = (up, now, q)" by (cases e) auto
  obtain r R' where run: "dispatch G up now q R = (r, R')" by (metis surj_pair)
  from dispatch_counts [OF Cons.prems(1) _ _ run] Cons.prems(3) e obtain cs where cs: "gw_counted G (before @ cs) (UnixMilli now) R'"
    "\<forall>h s. r = Handled h s \<and> h \<in> set login_handlers \<longrightarrow> entered G now q before cs" by auto
  have mono: "UnixMilli a \<le> UnixMilli b" if "a \<le> b" for a b using that by (simp add: UnixMilli_def zdiv_mono1 millisecond_def)
  have rest: "\<forall>(up, t, q) \<in> set ts. unix_epoch \<le> t \<and> UnixMilli now \<le> UnixMilli t"
    using Cons.prems(2,3) e mono by (auto simp: split_beta)
  let ?x = "(''auth'', bucket, address)" and ?seen = "seen (gw_addresses G) (gw_window G)"
  define hit where "hit \<longleftrightarrow> (case r of Handled h s \<Rightarrow> h \<in> set login_handlers | _ \<Rightarrow> False)
    \<and> normalizeSubject (gw_addresses G) (client_of G q) = Some address \<and> bucket_of (gw_window G) now = bucket"
  have step: "let_through G address bucket (e # ts) (serve_traffic G (e # ts) R) = (if hit then 1 else 0) + let_through G address bucket ts (serve_traffic G ts R')"
    by (simp add: let_through_def e run hit_def)
  have more: "?seen before ?x \<le> ?seen (before @ cs) ?x" using seen_append [of _ _ before cs] seen_nonneg [of _ _ cs] by simp
  have "int (k + (if hit then 1 else 0)) \<le> ?seen (before @ cs) ?x \<and> int (k + (if hit then 1 else 0)) \<le> gw_authLimit G"
  proof (cases hit)
    case True
    then have "entered G now q before cs" using cs(2) by (auto simp: hit_def split: outcome.split_asm)
    moreover have "bucket_id (gw_addresses G) (gw_window G) (''auth'', client_of G q, now) = ?x"
      using True by (simp add: hit_def bucket_id_def limit_scopes(1))
    ultimately obtain ds es where "cs = ds @ (''auth'', client_of G q, now) # es" "?seen before ?x + ?seen ds ?x + 1 \<le> gw_authLimit G"
      "?seen cs ?x = ?seen ds ?x + 1 + ?seen es ?x"
      unfolding entered_def by (auto simp: seen_def)
    then show ?thesis using True Cons.prems(4) seen_nonneg [of "gw_addresses G" "gw_window G" ds ?x] seen_nonneg [of "gw_addresses G" "gw_window G" es ?x]
      by (simp add: seen_append)
  qed (use Cons.prems(4,5) more in simp)
  then show ?case using Cons.IH [OF cs(1) _ rest, of "k + (if hit then 1 else 0)"] Cons.prems(2) step by simp
qed (simp add: let_through_def)

text \<open>C23: However requests arrive and whatever they contain, at most as many login and registration attempts of one client address reach
  the identity service in a window as the configured limit allows.\<close>

theorem login_attempts_limited:
  assumes "0 < gw_authLimit G" and "sorted (map (\<lambda>(_, now, _). now) ts)" and "\<forall>(up, now, q) \<in> set ts. unix_epoch \<le> now"
  shows "int (let_through G address bucket ts (serve_traffic G ts (\<lambda>_. None))) \<le> gw_authLimit G"
proof -
  have "0 \<le> UnixMilli t" if "unix_epoch \<le> t" for t using that by (simp add: UnixMilli_def pos_imp_zdiv_nonneg_iff millisecond_def)
  then have "\<forall>(up, now, q) \<in> set ts. unix_epoch \<le> now \<and> 0 \<le> UnixMilli now" using assms(3) by auto
  moreover have "gw_counted G [] 0 (\<lambda>_. None)" unfolding gw_counted_def by (rule counted_start)
  ultimately show ?thesis using traffic_limited [of G "[]" 0 "\<lambda>_. None" ts 0 bucket address] assms(1,2) by (simp add: seen_def)
qed

section \<open>Scenario\<close>

definition sample_gateway :: gateway where
  "sample_gateway = \<lparr>gw_addresses = sample_addresses, gw_keyPrefix = ''gateway'',
     gw_jwt = \<lparr>jw_numeric_date = (\<lambda>t. t), jw_sign = (\<lambda>_. Inl []), jw_parse = (\<lambda>_ v. Some \<lparr>cl_Role = ''admin'', cl_SubjectType = [], cl_TokenVersion = 1,
       cl_SessionID = ''s'', cl_Issuer = IssuerName, cl_Subject = v, cl_Audience = [AudienceName], cl_ExpiresAt = Some 9, cl_NotBefore = Some 0,
       cl_IssuedAt = Some 0, cl_ID = ''t''\<rparr>)\<rparr>,
     gw_allowedOrigins = [''https://a.example''], gw_globalLimit = 100, gw_authLimit = 2, gw_window = second\<rparr>"

definition sample_http :: "string \<Rightarrow> string list \<Rightarrow> string list \<Rightarrow> http_request" where
  "sample_http verb path authorization = \<lparr>hq_Method = verb, hq_Path = path, hq_Origins = [''https://a.example''], hq_Preflight = False,
     hq_Authorization = authorization, hq_Remote = Some ''1.2.3.4'', hq_ForwardedFor = ''9.9.9.9'', hq_RealIP = []\<rparr>"

definition handled_by :: "outcome \<Rightarrow> string" where
  "handled_by r = (case r of Handled h _ \<Rightarrow> h | _ \<Rightarrow> [])"

theorem gateway_handlers_guarded_witness:
  "\<exists>s p. fst (dispatch sample_gateway True unix_epoch (sample_http ''GET'' [''api'', ''v1'', ''admin'', ''configuration'', ''site''] [''bearer 7'']) (\<lambda>_. None))
     = Handled ''GetConfiguration'' s \<and> s = Some (p, ''7'') \<and> pr_Role p = ''admin''"
proof -
  let ?q = "sample_http ''GET'' [''api'', ''v1'', ''admin'', ''configuration'', ''site''] [''bearer 7'']"
  let ?r = "dispatch sample_gateway True unix_epoch ?q (\<lambda>_. None)"
  have "handled_by (fst ?r) = ''GetConfiguration''" by code_simp
  then obtain s where s: "fst ?r = Handled ''GetConfiguration'' s" by (auto simp: handled_by_def split: outcome.split_asm)
  then have r: "?r = (Handled ''GetConfiguration'' s, snd ?r)" by (metis prod.collapse)
  have np: "''GetConfiguration'' \<notin> set public_handlers" by code_simp
  have ad: "''GetConfiguration'' \<in> set admin_handlers" by code_simp
  have t: "bearer_token ''bearer 7'' = Some ''7''" by code_simp
  have a: "hq_Authorization ?q = [''bearer 7'']" by (simp add: sample_http_def)
  from gateway_handlers_guarded [OF r np] ad t a s show ?thesis by fastforce
qed

definition sample_traffic :: traffic where
  "sample_traffic = map (\<lambda>i. (True, unix_epoch + i, sample_http ''POST'' [''api'', ''v1'', ''sessions''] [])) [1, 2, 3]"

theorem login_attempts_limited_witness:
  "let_through sample_gateway ''1.2.3.4'' 0 sample_traffic (serve_traffic sample_gateway sample_traffic (\<lambda>_. None)) \<le> 2
   \<and> map handled_by (serve_traffic sample_gateway sample_traffic (\<lambda>_. None)) = [''Login'', ''Login'', []]"
proof -
  have l: "0 < gw_authLimit sample_gateway" "gw_authLimit sample_gateway = 2" by (simp_all add: sample_gateway_def)
  have so: "sorted (map (\<lambda>(_, now, _). now) sample_traffic)" by (simp add: sample_traffic_def)
  have ep: "\<forall>(up, now, q) \<in> set sample_traffic. unix_epoch \<le> now" by (simp add: sample_traffic_def)
  have "map handled_by (serve_traffic sample_gateway sample_traffic (\<lambda>_. None)) = [''Login'', ''Login'', []]" by code_simp
  then show ?thesis using login_attempts_limited [OF l(1) so ep, of "''1.2.3.4''" 0] l(2) by simp
qed

end
