(* ===== verification/ConfigSync.thy ===== *)
theory ConfigSync
  imports PlatformDeliveries PlatformScenario
begin

text \<open>
  How the identity service follows its mail configuration: \<open>services/identity/internal/configsync/worker.go\<close>, the
  switch of the mail worker in \<open>email/worker.go\<close> and the validation in \<open>config/option.go\<close>, run against the platform
  service. What the mail server does with a probe, the faults of the calls and the clock are arguments.
\<close>

section \<open>Mail options\<close>

record SMTPOptions =
  so_Host :: string
  so_Port :: int
  so_Username :: string
  so_Password :: string
  so_From :: string
  so_FrontendBaseURL :: string

definition SMTPOptions_Validate :: "parsers \<Rightarrow> SMTPOptions \<Rightarrow> bool" where
  "SMTPOptions_Validate P o' \<longleftrightarrow> so_Host o' = [] \<or>
     (0 < so_Port o' \<and> so_Port o' \<le> 65535 \<and> so_From o' \<noteq> [] \<and> so_FrontendBaseURL o' \<noteq> [] \<and> (so_Port o' = 465 \<or> so_Port o' = 587) \<and>
      so_Username o' \<noteq> [] \<and> so_Password o' \<noteq> [] \<and>
      (case ps_url P (trim_space (so_FrontendBaseURL o')) of None \<Rightarrow> False
       | Some u \<Rightarrow> url_Host u \<noteq> [] \<and> \<not> url_User u \<and> (url_Scheme u = ''http'' \<or> url_Scheme u = ''https'') \<and> url_RawQuery u = [] \<and> url_Fragment u = []))"

text \<open>
  What a mail server does with the steps of a conversation: the connection to a host and port, the TLS handshake for a server
  name, the greeting that \<open>smtp.NewClient\<close> reads, STARTTLS and the login.
\<close>

record smtp_server =
  ss_dial :: "string \<Rightarrow> int \<Rightarrow> bool"
  ss_handshake :: "string \<Rightarrow> bool"
  ss_greeting :: "string \<Rightarrow> bool"
  ss_starttls :: "string \<Rightarrow> bool"
  ss_auth :: "string \<Rightarrow> string \<Rightarrow> bool"

definition Probe :: "smtp_server \<Rightarrow> SMTPOptions \<Rightarrow> bool" where
  "Probe S o' =
     (if so_Host o' = [] then True
      else if \<not> ss_dial S (so_Host o') (so_Port o') then False
      else if \<not> (if so_Port o' = 465 then ss_handshake S (so_Host o') \<and> ss_greeting S (so_Host o')
                 else ss_greeting S (so_Host o') \<and> ss_starttls S (so_Host o')) then False
      else ss_auth S (so_Username o') (so_Password o'))"

definition ApplyConfig :: "parsers \<Rightarrow> smtp_server \<Rightarrow> SMTPOptions \<Rightarrow> SMTPOptions \<Rightarrow> bool \<times> SMTPOptions" where
  "ApplyConfig P S candidate current =
     (if \<not> SMTPOptions_Validate P candidate then (False, current) else if \<not> Probe S candidate then (False, current) else (True, candidate))"

text \<open>A later value of a key replaces an earlier one.\<close>

definition smtpOptions :: "ConfigReply \<Rightarrow> SMTPOptions option" where
  "smtpOptions c =
     (if cr_Namespace c \<noteq> ''email'' then None
      else let values = fold (\<lambda>v. map_set (va_Key v) (va_Value v)) (cr_Values c) [] in
        case parse_int64 (map_value values ''port'') of None \<Rightarrow> None
        | Some port \<Rightarrow> Some \<lparr>so_Host = map_value values ''host'', so_Port = port, so_Username = map_value values ''username'',
            so_Password = map_value values ''password'', so_From = map_value values ''from'', so_FrontendBaseURL = map_value values ''frontend_base_url''\<rparr>)"

definition retryDelay :: "int \<Rightarrow> duration" where
  "retryDelay attempt0 = (let attempt = (if attempt0 < 1 then 1 else if attempt0 > 4 then 4 else attempt0) in 2 ^ nat (attempt - 1) * 10 * second)"

section \<open>Calls\<close>

text \<open>A call is served, its request is lost, or it is served and the reply is lost.\<close>

datatype fault = Served | RequestLost | ReplyLost

definition rpc_call :: "fault \<Rightarrow> (pdb \<Rightarrow> (rpcerr + 'a) \<times> pdb) \<Rightarrow> pdb \<Rightarrow> 'a option \<times> pdb" where
  "rpc_call f handler db = (case f of
     Served \<Rightarrow> (case handler db of (Inl _, db') \<Rightarrow> (None, db') | (Inr a, db') \<Rightarrow> (Some a, db'))
   | RequestLost \<Rightarrow> (None, db)
   | ReplyLost \<Rightarrow> (None, snd (handler db)))"

record sync_env =
  se_penv :: penv
  se_store :: pstore
  se_server :: smtp_server
  se_fault :: "nat \<Rightarrow> fault"
  se_clock :: "nat \<Rightarrow> time"
  se_decode :: "string \<Rightarrow> (string \<times> string \<times> int) option"

record sync =
  sy_db :: pdb
  sy_smtp :: SMTPOptions
  sy_lastApplied :: int

text \<open>The \<open>n\<close>-th call of a run.\<close>

definition sync_report :: "sync_env \<Rightarrow> nat \<Rightarrow> string \<Rightarrow> int \<Rightarrow> string \<Rightarrow> int \<Rightarrow> string \<Rightarrow> pdb \<Rightarrow> unit option \<times> pdb" where
  "sync_report Y n messageID revision status attempts errorKey =
     rpc_call (se_fault Y n) (ReportConfigurationApply (se_penv Y) (se_store Y) (se_clock Y n)
       (Some \<lparr>rq_MessageId = messageID, rq_Namespace = ''email'', rq_Revision = revision, rq_Consumer = ''identity.email'', rq_Status = status,
          rq_Attempts = attempts, rq_LastErrorKey = non_empty errorKey\<rparr>))"

definition fetch_configuration :: "sync_env \<Rightarrow> nat \<Rightarrow> int \<Rightarrow> pdb \<Rightarrow> ConfigReply option \<times> pdb" where
  "fetch_configuration Y n revision =
     rpc_call (se_fault Y n) (\<lambda>db. (GetConsumerConfiguration (se_penv Y) (se_store Y) (Some (''email'', revision, ''identity.email'')) db, db))"

definition fetch_state :: "sync_env \<Rightarrow> nat \<Rightarrow> pdb \<Rightarrow> ConsumerStateReply option \<times> pdb" where
  "fetch_state Y n = rpc_call (se_fault Y n) (\<lambda>db. (GetConsumerState (se_store Y) (Some (''email'', ''identity.email'')) db, db))"

section \<open>Events and reconciliation\<close>

datatype settlement = Acked | Nacked duration | Terminated string

record sync_message =
  sm_ID :: string
  sm_Headers :: strmap
  sm_Body :: string

text \<open>The options a reply leads to, and whether they were taken over.\<close>

definition apply_reply :: "sync_env \<Rightarrow> ConfigReply option \<Rightarrow> SMTPOptions \<Rightarrow> bool \<times> SMTPOptions" where
  "apply_reply Y reply current = (case reply of None \<Rightarrow> (False, current)
     | Some c \<Rightarrow> (case smtpOptions c of None \<Rightarrow> (False, current)
       | Some candidate \<Rightarrow> ApplyConfig (pe_parsers (se_penv Y)) (se_server Y) candidate current))"

definition message_id :: "string \<Rightarrow> sync_message \<Rightarrow> string" where
  "message_id mid m = (if mid \<noteq> [] then mid else if sm_ID m \<noteq> [] then sm_ID m else map_value (sm_Headers m) ''X-Message-ID'')"

definition message_revision :: "int \<Rightarrow> sync_message \<Rightarrow> int" where
  "message_revision revision m = (if revision \<le> 0 then (case parse_int64 (map_value (sm_Headers m) ''X-Aggregate-Version'') of Some v \<Rightarrow> v | None \<Rightarrow> revision)
     else revision)"

definition handle_email :: "sync_env \<Rightarrow> string \<Rightarrow> int \<Rightarrow> int \<Rightarrow> sync \<Rightarrow> settlement \<times> sync" where
  "handle_email Y messageID revision attempt st =
     (case sync_report Y 0 messageID revision ''validating'' attempt [] (sy_db st) of
        (None, db1) \<Rightarrow> (Nacked (retryDelay attempt), st\<lparr>sy_db := db1\<rparr>)
      | (Some _, db1) \<Rightarrow>
          let (reply, db2) = fetch_configuration Y 1 revision db1; (ok, smtp) = apply_reply Y reply (sy_smtp st) in
          if ok then
            (case sync_report Y 2 messageID revision ''applied'' attempt [] db2 of
               (None, db3) \<Rightarrow> (Nacked (retryDelay attempt), st\<lparr>sy_db := db3, sy_smtp := smtp\<rparr>)
             | (Some _, db3) \<Rightarrow> (Acked, st\<lparr>sy_db := db3, sy_smtp := smtp\<rparr>))
          else if 8 \<le> attempt then
            (Terminated ''smtp_validation_failed'', st\<lparr>sy_db := snd (sync_report Y 2 messageID revision ''parked'' attempt ''smtp_validation_failed'' db2)\<rparr>)
          else (Nacked (retryDelay attempt), st\<lparr>sy_db := snd (sync_report Y 2 messageID revision ''retrying'' attempt ''smtp_validation_failed'' db2)\<rparr>))"

definition handle_event :: "sync_env \<Rightarrow> sync_message \<Rightarrow> int \<Rightarrow> sync \<Rightarrow> settlement \<times> sync" where
  "handle_event Y m attempt st =
     (case se_decode Y (sm_Body m) of None \<Rightarrow> (Terminated ''invalid_configuration_event'', st)
      | Some (mid, namespace, revision) \<Rightarrow>
          if namespace \<noteq> ''email'' then (Acked, st)
          else if message_revision revision m \<le> 0 \<or> message_id mid m = [] then (Terminated ''invalid_configuration_event'', st)
          else handle_email Y (message_id mid m) (message_revision revision m) attempt st)"

text \<open>\<open>messageID\<close> is what \<open>uuid.NewString\<close> returns; the result says whether an error is returned.\<close>

definition reconcile :: "sync_env \<Rightarrow> string \<Rightarrow> sync \<Rightarrow> bool \<times> sync" where
  "reconcile Y messageID st =
     (case fetch_state Y 0 (sy_db st) of (None, db1) \<Rightarrow> (False, st\<lparr>sy_db := db1\<rparr>)
      | (Some state, db1) \<Rightarrow>
          if cy_DesiredRevision state \<le> 0 \<or> cy_DesiredRevision state \<le> cy_AppliedRevision state then (True, st\<lparr>sy_db := db1\<rparr>)
          else let revision = cy_DesiredRevision state in
            case fetch_configuration Y 1 revision db1 of (None, db2) \<Rightarrow> (False, st\<lparr>sy_db := db2\<rparr>)
            | (Some c, db2) \<Rightarrow> (case smtpOptions c of None \<Rightarrow> (False, st\<lparr>sy_db := db2\<rparr>)
              | Some candidate \<Rightarrow>
                  (case sync_report Y 2 messageID revision ''validating'' 0 [] db2 of (None, db3) \<Rightarrow> (False, st\<lparr>sy_db := db3\<rparr>)
                   | (Some _, db3) \<Rightarrow>
                       (case ApplyConfig (pe_parsers (se_penv Y)) (se_server Y) candidate (sy_smtp st) of
                          (False, smtp) \<Rightarrow> (False, st\<lparr>sy_db := snd (sync_report Y 3 messageID revision ''retrying'' 0 ''smtp_validation_failed'' db3)\<rparr>)
                        | (True, smtp) \<Rightarrow>
                            (case sync_report Y 3 messageID revision ''applied'' 0 [] db3 of
                               (None, db4) \<Rightarrow> (False, st\<lparr>sy_db := db4, sy_smtp := smtp\<rparr>)
                             | (Some _, db4) \<Rightarrow> (True, st\<lparr>sy_db := db4, sy_smtp := smtp, sy_lastApplied := revision\<rparr>))))))"


section \<open>Properties\<close>

text \<open>Options that may replace the current ones: valid, answered by their server, and read from a stored revision.\<close>

definition reached_encrypted :: "smtp_server \<Rightarrow> SMTPOptions \<Rightarrow> bool" where
  "reached_encrypted S o' \<longleftrightarrow> ss_dial S (so_Host o') (so_Port o') \<and> (if so_Port o' = 465 then ss_handshake S (so_Host o') else ss_starttls S (so_Host o'))"

definition sanctioned :: "sync_env \<Rightarrow> SMTPOptions \<Rightarrow> bool" where
  "sanctioned Y o' \<longleftrightarrow> SMTPOptions_Validate (pe_parsers (se_penv Y)) o' \<and> (so_Host o' = [] \<or> reached_encrypted (se_server Y) o' \<and> ss_auth (se_server Y) (so_Username o') (so_Password o')) \<and>
     (\<exists>revision c db. GetConsumerConfiguration (se_penv Y) (se_store Y) (Some (''email'', revision, ''identity.email'')) db = Inr c \<and> smtpOptions c = Some o')"

lemma fetched: "fetch_configuration Y n revision db = (Some c, db') \<Longrightarrow>
    GetConsumerConfiguration (se_penv Y) (se_store Y) (Some (''email'', revision, ''identity.email'')) db = Inr c"
  by (auto simp: fetch_configuration_def rpc_call_def split: fault.split_asm sum.split_asm)

lemma ApplyConfig_True:
  "ApplyConfig P S o' current = (True, smtp) \<Longrightarrow>
     smtp = o' \<and> SMTPOptions_Validate P o' \<and> (so_Host o' = [] \<or> reached_encrypted S o' \<and> ss_auth S (so_Username o') (so_Password o'))"
  by (auto simp: ApplyConfig_def Probe_def reached_encrypted_def split: if_split_asm)

lemma apply_reply_True:
  assumes "apply_reply Y reply current = (True, smtp)" and "fetch_configuration Y n revision db = (reply, db')"
  shows "sanctioned Y smtp"
  using assms fetched [of Y n revision db _ db'] ApplyConfig_True unfolding sanctioned_def
  by (fastforce simp: apply_reply_def split: option.split_asm)

lemma handle_email_options:
  assumes "handle_email Y messageID revision attempt st = (r, st')"
  shows "sy_smtp st' = sy_smtp st \<or> sanctioned Y (sy_smtp st')"
proof -
  obtain rep db1 where one: "sync_report Y 0 messageID revision ''validating'' attempt [] (sy_db st) = (rep, db1)" by (metis surj_pair)
  obtain reply db2 where two: "fetch_configuration Y 1 revision db1 = (reply, db2)" by (metis surj_pair)
  obtain ok smtp where three: "apply_reply Y reply (sy_smtp st) = (ok, smtp)" by (metis surj_pair)
  have "ok \<Longrightarrow> sanctioned Y smtp" using apply_reply_True [of Y reply "sy_smtp st" smtp 1 revision db1 db2] three two by simp
  then show ?thesis using assms one two three
    by (cases rep) (auto simp: handle_email_def split: if_split_asm prod.split_asm option.split_asm)
qed


text \<open>A restarted process stays on the options of its configuration file: once the desired revision has been reported as applied,
  reconciliation leaves whatever options the process has alone, however often it runs.\<close>

theorem restart_keeps_file_options:
  assumes "GetConsumerState (se_store Y) (Some (''email'', ''identity.email'')) (sy_db st) = Inr state"
    and "cy_DesiredRevision state \<le> cy_AppliedRevision state"
  shows "((\<lambda>s. snd (reconcile Y messageID s)) ^^ n) (st\<lparr>sy_smtp := options_of_file\<rparr>) = st\<lparr>sy_smtp := options_of_file\<rparr>"
proof -
  have "snd (reconcile Y messageID (st\<lparr>sy_smtp := options_of_file\<rparr>)) = st\<lparr>sy_smtp := options_of_file\<rparr>"
    using assms by (auto simp: reconcile_def fetch_state_def rpc_call_def split: fault.split)
  then show ?thesis by (induction n) simp_all
qed

section \<open>Scenario\<close>

text \<open>One revision of the mail configuration, with mail switched off, reconciled by a fresh process.\<close>

definition mail_row :: configuration_row where
  "mail_row = \<lparr>cf_Environment = ''test'', cf_Namespace = ''email'', cf_Revision = 1, cf_SchemaVersion = 1,
     cf_PublicValues = sample_marshal_map [(''enabled'', ''false''), (''from'', ''a@b''), (''port'', ''587'')],
     cf_SecretEnvelope = [], cf_UpdatedBy = 1, cf_CreatedAt = 5, cf_UpdatedAt = 5\<rparr>"

definition sample_mail_server :: smtp_server where
  "sample_mail_server = \<lparr>ss_dial = (\<lambda>_ _. True), ss_handshake = (\<lambda>_. True), ss_greeting = (\<lambda>_. True), ss_starttls = (\<lambda>_. True), ss_auth = (\<lambda>_ _. True)\<rparr>"

definition sample_sync :: sync_env where
  "sample_sync = \<lparr>se_penv = sample_penv, se_store = sample_store, se_server = sample_mail_server, se_fault = (\<lambda>_. Served), se_clock = (\<lambda>n. 200 + int n), se_decode = (\<lambda>_. None)\<rparr>"

definition file_options :: SMTPOptions where
  "file_options = \<lparr>so_Host = [], so_Port = 0, so_Username = [], so_Password = [], so_From = [], so_FrontendBaseURL = []\<rparr>"

definition started :: sync where
  "started = \<lparr>sy_db = empty_pdb\<lparr>c_configurations := [mail_row], c_revisions := [mail_row]\<rparr>, sy_smtp = file_options, sy_lastApplied = 0\<rparr>"

definition reconciled :: sync where
  "reconciled = snd (reconcile sample_sync ''msg-99'' started)"


theorem restart_keeps_file_options_witness:
  "so_From (sy_smtp (((\<lambda>s. snd (reconcile sample_sync ''msg-98'' s)) ^^ 5) (reconciled\<lparr>sy_smtp := file_options\<rparr>))) = []"
proof -
  have "(case GetConsumerState (se_store sample_sync) (Some (''email'', ''identity.email'')) (sy_db reconciled) of
      Inl _ \<Rightarrow> False | Inr s \<Rightarrow> cy_DesiredRevision s = 1 \<and> cy_AppliedRevision s = 1)" by code_simp
  then obtain s where s: "GetConsumerState (se_store sample_sync) (Some (''email'', ''identity.email'')) (sy_db reconciled) = Inr s"
    "cy_DesiredRevision s \<le> cy_AppliedRevision s" by (auto split: sum.split_asm)
  from restart_keeps_file_options [OF s, where messageID = "''msg-98''" and n = 5 and options_of_file = file_options] show ?thesis by (simp add: file_options_def)
qed

end
