(* ===== verification/Spec2Isabelle.thy ===== *)
theory Spec2Isabelle
  imports PublicationSafety DocumentProperties FolderForest MediaWorker IdentityProperties IdentityLockout IdentitySessions
    PlatformProperties PlatformDeliveries KnowledgePaging CircuitBreaker AttachmentRequests GatewayRoutes ConfigSync
begin

text \<open>
Knowledge-Core: a verification development for the Go services under \<open>src/services\<close>.

The program. Knowledge-Core is a set of services behind one gateway. The \<^emph>\<open>knowledge\<close> service keeps
documents, their members, folders, tags, commits and history, and publishes documents. The
\<^emph>\<open>attachment\<close> service keeps uploaded files and knows which of them a published document shows. The two
have separate databases, so publishing is a saga: the knowledge repository records a candidate and a job
in one transaction, a background worker stages the references at the attachment service, promotes the
candidate to the publication, finalizes the references and completes the job; unpublishing and deleting
enqueue a job that clears them. Every job carries the generation of the document it was made for.

Theories, in the order of the code.
\<^item> Prelude: times, the transaction monad \<open>('s, 'e, 'a) tx\<close> (a state, an error or a result; \<open>transaction\<close>
  restores the state when the body fails) and tables as lists of rows with a key.
\<^item> GoStrings: byte strings, UTF-8 decoding as Go's \<open>range\<close> does it, \<open>strings.TrimSpace\<close>, \<open>Fields\<close>,
  \<open>Join\<close>, \<open>ToLower\<close> over a parameter for the Unicode table.
\<^item> KnowledgeDomain, RichText: \<open>domain/document.go\<close>, \<open>domain/richtext.go\<close>.
\<^item> KnowledgeModel: \<open>model/model.go\<close> as one record per table, the database \<open>kdb\<close>, its unique keys and
  checks, \<open>repository/mapping.go\<close>.
\<^item> PublicationHash, KnowledgeOutbox, KnowledgeStore, KnowledgeMembers, KnowledgeFolders, KnowledgeHistory,
  KnowledgeCommits, PublicationSaga: the files of \<open>repository/\<close> of the same names, one definition per
  exported function, and what each call does to the database when it succeeds.
\<^item> PublicationInvariant: every repository call as a step (\<open>kstep\<close>), the databases reachable by them
  (\<open>kreach\<close>), the shorter relation \<open>saga_step\<close> the calls refine on the tables of the saga, and the
  invariant of the saga by rule induction.
\<^item> KnowledgeScenario: one document created, submitted, staged and published, evaluated by the kernel; the
  instances of the properties use it.
\<^item> PublicationSafety: what the invariant gives to readers and authors.
\<^item> KnowledgeWorker: \<open>worker/worker.go\<close>, \<open>worker/wake.go\<close> over the repository model and arbitrary
  external services.
\<^item> DocumentProperties, FolderForest: optimistic concurrency, idempotent replay, members, projections,
  history, paging, and the forest of folders.
\<^item> AttachmentStore, AttachmentReferences: \<open>domain/attachment.go\<close>, \<open>repository/store.go\<close>,
  \<open>repository/references.go\<close> of the attachment service and the reference calls of \<open>service/service.go\<close>.
\<^item> ReferenceProtocol: the abstract cell of a document (an active and a staged slot with a generation, a hash
  and a set of attachments), its operations, and that the three reference calls implement them.
\<^item> AttachmentLifecycle: the repository calls of the attachment service as steps (\<open>astep\<close>, \<open>areach\<close>) and their
  invariant: what is referenced is ready, what is scanning has a job, the quota.
\<^item> MediaConsistency: the two services together. The locale \<open>reference_service\<close> states what the saga needs of
  a service that keeps references; it is interpreted on the attachment model, and a published document has
  its media served in every reachable state of the pair.
\<^item> MediaWorker: \<open>client/attachment.go\<close> and the publication lane of the worker run against the attachment
  model; a run of the lane stays inside the states of MediaConsistency.
\<^item> AuthToken: \<open>pkg/auth/token.go\<close>, access tokens over a JWT library that is a parameter.
\<^item> IdentityDomain, IdentityStore, IdentityActions, IdentityLogic: \<open>services/identity/internal\<close>: accounts and tokens,
  the four repositories, mail delivery, and the operations above them (login, sessions, mail actions).
\<^item> IdentitySafety: every operation of the identity service as a step and how the tables evolve under it
  (a revoked session and a used token stay as they are, token versions never fall).
\<^item> IdentityScenario, IdentityProperties, IdentityLockout, IdentitySessions: one account evaluated by the kernel, and what the
  service promises: reset and deactivation end all access, mail links work once, wrong passwords lock, sessions end in time;
  and where it falls short.
\<^item> ConfigEnvelope: \<open>pkg/configcenter/envelope.go\<close>, encrypted texts bound to the place they were written for, over
  a cipher and a JSON coder that are parameters, with padded base64 and its round trip.
\<^item> PlatformDomain, PlatformStore, PlatformService, PlatformWorker: \<open>services/platform/internal\<close>: the configuration of
  the site, mail and AI namespaces, its revisions with their audit log, idempotency keys and events, the reports of
  consumers, the handlers, and the worker that publishes the events.
\<^item> PlatformHistory: what an update writes, the calls as steps (\<open>pstep\<close>) and the invariant of the revisions.
\<^item> PlatformScenario, PlatformProperties, PlatformDeliveries: one update evaluated by the kernel, and what the service promises: an update
  reads back, a repeated request is answered alike, histories have no gaps, secrets do not show, the outbox drains,
  reports are final; and where it falls short.
\<^item> KnowledgeLogic, KnowledgeTransport: \<open>logic/\<close>, \<open>client/directory.go\<close> and \<open>transport/rpc/handler.go\<close> of the knowledge
  service: every RPC from the check of its token over its validation to the repository call and the converted answer.
\<^item> KnowledgeAccess: all RPCs as one type of requests (\<open>krequest\<close>, \<open>serve\<close>), the repository calls they make
  (\<open>repo_call\<close>), and what a request may change for whom.
\<^item> KnowledgeRequests: who is served what, and where the requests fall short; one session of requests evaluated by the kernel.
\<^item> KnowledgePaging: a client that follows the cursors of \<open>ListDocuments\<close> receives the whole listing.
\<^item> CircuitBreaker: \<open>pkg/circuit\<close>, the breaker and its client middleware, and the counter with a pause that it implements.
\<^item> AttachmentService: uploads, completion, listing, trash and the RPC handlers of the attachment service (\<open>service/service.go\<close>,
  \<open>transport/rpc/handler.go\<close>) over its repository, with the calls made at the object store as a log.
\<^item> AttachmentScan: \<open>scanner/clamav.go\<close> and the scanning round of the service; what the scanner receives is the framed
  content, and only content reported clean becomes ready.
\<^item> AttachmentRequests: all RPCs of the attachment service as one type of requests: whom a request concerns, who is answered,
  and that every upload opened at the object store is recorded, completed or given up.
\<^item> AppError: \<open>pkg/error\<close> and the gateway's answer to a failed call; a catalog error reaches the client with its code, key and kind.
\<^item> GatewayLimit, GatewayRoutes: the gateway's fixed-window limiter against a reference count, the client address behind trusted
  proxies, the middleware in its order, all routes with their guards, and what a request must have passed to reach a handler.
\<^item> ConfigSync: how the identity service follows the mail configuration of the platform service.

Modelling decisions. Times are integers, nanoseconds since Go's zero time; a repository call reads the
clock once. A transaction runs alone (the code takes row and advisory locks); its constraint violations
are branches of the model, failures of the database server and lost connections are not. JSON columns
hold JSON values, and \<open>ke_jsonb_in\<close>, \<open>ke_jsonb_out\<close> of the environment \<open>kenv\<close> stand for the database's
parser and printer. UUID generation, SHA-256, the JSON codec, \<open>url.Parse\<close> and the Unicode tables are
parameters too. In the platform service a Go map is the list of its entries in key order and a JSON column holds the
text it gives back (\<open>pe_jsonb\<close>). The recursive query of the cycle check is unrolled once per folder, which is proved to be
enough; the worker's checkpoint loop has the code's bound of twenty. The states of the two services together
(\<open>mstep\<close>) interleave repository calls of either service in any order; identifiers of jobs are fresh, and a
stage or clear call is made only for a job that the worker once claimed, however late it arrives. In \<open>areach\<close> a scan report
reaches an attachment that is still being scanned; the late report is treated on its own.

Redis is a map from keys to a count and an expiry, read by one clock; a script runs alone. In the gateway a request is reduced to
what the middleware reads of it. Calls between services that can be lost carry a fault (\<open>fault\<close>): a lost request changes nothing,
a lost reply changes the callee only.

Not modelled: the Thrift wire format and the generated bindings, which no Go code of the repository computes with; the conversions of the
gateway's handlers between HTTP and RPC structs; configuration files, tracing, logging, metrics, the start and stop of goroutines and
tickers; migrations (their constraints are in the table definitions); the object store, mail and scanner connections (parameters); the
collaboration service (Rust); tools.
\<close>

end
